(* ===== verification/Prelude.thy ===== *)
theory Prelude
  imports Main "HOL-Library.Char_ord" "HOL-Library.List_Lexorder" "HOL-Library.Product_Lexorder"
begin

text \<open>
  Shared vocabulary of the development: Python exceptions as values, the result type and its
  sequencing combinators, Python string operations on character lists, and decimal printing and
  reading of natural numbers.

  Strings are \<^typ>\<open>string\<close>, that is character lists; the case-folding operations below are the
  ASCII ones, so the model speaks about text whose characters are ASCII (all identifiers, URIs,
  digests and metric keys of the program are).  Sorting strings uses the lexicographic order of
  code points, which is the order of Python's \<open>str\<close> and of UTF-8 bytes.

  An exception is its class together with the constant part of its message: interpolated values
  are left out, so two raises of one class at different places stay distinguishable.
\<close>

named_theorems result_simps \<open>inversion and evaluation of the result combinators\<close>
named_theorems str_simps \<open>evaluation of Python string operations\<close>

section \<open>Exceptions and results\<close>

datatype exn =
    ValueError string
  | AssertionError
  | KeyError string
  | IndexError
  | OSError string
  | LookupError string
  | FileExistsError string
  | DecimalInvalid
  | UriIdentityError string
  | BundleDecodeError string
  | BundleStructureError string
  | BundleStorageError string
  | SizeLimitExceeded
  | DestinationForbidden string
  | RequiredPeriodError string
  | StaleAcceptedDecisionError
  | OracleInputError string
  | QualityReportError string
  | TaxonomyAvailabilityError string
  | RegistryValidationError string
  | RegistryError string
  | RegistryOutOfSyncError
  | UnsafeMetricDeletionError "string list"
  | MappingDecisionError string
  | ConceptNotFoundError
  | ConflictingExactMappingError int
  | MetricDefinitionChangedError
  | UnsupportedReportInput string
  | IntegrityError string
  | MultipleResultsFound
  | OverflowError
  | RuntimeError string
  | MaxFileBytesExceeded
  | MaxExternalDependencyBytesExceeded
  | MaxBundleBytesExceeded
  | MaxRedirectsExceeded
  | LogicalPathConflict string
  | WorkerProtocolError string
  | HTTPStatusError nat
  | TransportError string
  | AttributeError string
  | TypeError string

type_synonym 'a res = "exn + 'a"

text \<open>The classes an \<^verbatim>\<open>except ValueError\<close> clause catches.\<close>

fun is_value_error :: "exn \<Rightarrow> bool" where
  "is_value_error (ValueError _) = True"
| "is_value_error (UriIdentityError _) = True"
| "is_value_error (BundleDecodeError _) = True"
| "is_value_error (BundleStructureError _) = True"
| "is_value_error (DestinationForbidden _) = True"
| "is_value_error (RequiredPeriodError _) = True"
| "is_value_error StaleAcceptedDecisionError = True"
| "is_value_error (OracleInputError _) = True"
| "is_value_error (QualityReportError _) = True"
| "is_value_error (TaxonomyAvailabilityError _) = True"
| "is_value_error (RegistryValidationError _) = True"
| "is_value_error (UnsupportedReportInput _) = True"
| "is_value_error _ = False"

fun res_bind :: "'a res \<Rightarrow> ('a \<Rightarrow> 'b res) \<Rightarrow> 'b res" where
  "res_bind (Inl e) f = Inl e"
| "res_bind (Inr x) f = f x"

definition guard_res :: "bool \<Rightarrow> exn \<Rightarrow> unit res" where
  "guard_res ok e = (if ok then Inr () else Inl e)"

fun map_res :: "('a \<Rightarrow> 'b res) \<Rightarrow> 'a list \<Rightarrow> 'b list res" where
  "map_res f [] = Inr []"
| "map_res f (x # xs) = res_bind (f x) (\<lambda>y. res_bind (map_res f xs) (\<lambda>ys. Inr (y # ys)))"

fun fold_res :: "('a \<Rightarrow> 's \<Rightarrow> 's res) \<Rightarrow> 'a list \<Rightarrow> 's \<Rightarrow> 's res" where
  "fold_res f [] s = Inr s"
| "fold_res f (x # xs) s = res_bind (f x s) (fold_res f xs)"

fun filter_res :: "('a \<Rightarrow> bool res) \<Rightarrow> 'a list \<Rightarrow> 'a list res" where
  "filter_res p [] = Inr []"
| "filter_res p (x # xs) =
     res_bind (p x) (\<lambda>b. res_bind (filter_res p xs) (\<lambda>ys. Inr (if b then x # ys else ys)))"

text \<open>\<^verbatim>\<open>any(p(x) for x in xs)\<close>: stops at the first true element, so later raises are not reached.\<close>

fun any_res :: "('a \<Rightarrow> bool res) \<Rightarrow> 'a list \<Rightarrow> bool res" where
  "any_res p [] = Inr False"
| "any_res p (x # xs) = res_bind (p x) (\<lambda>b. if b then Inr True else any_res p xs)"

text \<open>The values a comprehension keeps: \<^verbatim>\<open>[y for x in xs if (y := f(x)) is not None]\<close>.\<close>

fun somes :: "'a option list \<Rightarrow> 'a list" where
  "somes [] = []"
| "somes (None # xs) = somes xs"
| "somes (Some x # xs) = x # somes xs"

definition is_ok :: "'a res \<Rightarrow> bool" where
  "is_ok r = (case r of Inl _ \<Rightarrow> False | Inr _ \<Rightarrow> True)"

lemma set_somes [simp]: "x \<in> set (somes ys) \<longleftrightarrow> Some x \<in> set ys"
  by (induction ys rule: somes.induct) auto

lemma somes_append [simp]: "somes (xs @ ys) = somes xs @ somes ys"
  by (induction xs rule: somes.induct) auto

lemma res_bind_Inr_iff [result_simps]:
  "res_bind m f = Inr y \<longleftrightarrow> (\<exists>x. m = Inr x \<and> f x = Inr y)"
  by (cases m) auto

lemma res_bind_Inl_iff [result_simps]:
  "res_bind m f = Inl e \<longleftrightarrow> m = Inl e \<or> (\<exists>x. m = Inr x \<and> f x = Inl e)"
  by (cases m) auto

lemma guard_res_Inr [simp, result_simps]: "guard_res b e = Inr u \<longleftrightarrow> b"
  by (simp add: guard_res_def)

lemma guard_res_Inl [simp, result_simps]: "guard_res b e = Inl e' \<longleftrightarrow> \<not> b \<and> e' = e"
  by (auto simp: guard_res_def)

lemma guard_res_True [simp]: "guard_res True e = Inr ()"
  by (simp add: guard_res_def)

lemma guard_res_False [simp]: "guard_res False e = Inl e"
  by (simp add: guard_res_def)

lemma res_bind_assoc: "res_bind (res_bind m f) g = res_bind m (\<lambda>x. res_bind (f x) g)"
  by (cases m) auto

lemma is_ok_simps [simp]: "is_ok (Inr x)" "\<not> is_ok (Inl e)"
  by (simp_all add: is_ok_def)

lemma is_ok_iff: "is_ok r \<longleftrightarrow> (\<exists>x. r = Inr x)"
  by (cases r) auto

lemma res_bind_cong [fundef_cong]:
  "m = m' \<Longrightarrow> (\<And>x. m' = Inr x \<Longrightarrow> f x = g x) \<Longrightarrow> res_bind m f = res_bind m' g"
  by (cases m') auto

lemma map_res_length: "map_res f xs = Inr ys \<Longrightarrow> length ys = length xs"
  by (induction xs arbitrary: ys) (auto simp: result_simps)

lemma map_res_Inr_iff:
  "map_res f xs = Inr ys \<longleftrightarrow> list_all2 (\<lambda>x y. f x = Inr y) xs ys"
  by (induction xs arbitrary: ys) (auto simp: result_simps list_all2_Cons1)

lemma map_res_set: "map_res f xs = Inr ys \<Longrightarrow> y \<in> set ys \<Longrightarrow> \<exists>x\<in>set xs. f x = Inr y"
  by (induction xs arbitrary: ys) (auto simp: result_simps)

lemma map_res_mem: "map_res f xs = Inr ys \<Longrightarrow> x \<in> set xs \<Longrightarrow> \<exists>y\<in>set ys. f x = Inr y"
  by (induction xs arbitrary: ys) (auto simp: result_simps)

lemma map_res_cong [fundef_cong]:
  "xs = ys \<Longrightarrow> (\<And>x. x \<in> set ys \<Longrightarrow> f x = g x) \<Longrightarrow> map_res f xs = map_res g ys"
proof (induction xs arbitrary: ys)
  case (Cons x xs)
  then show ?case by (cases ys) (auto intro!: res_bind_cong)
qed simp

lemma map_res_map_inverse:
  "(\<And>x. x \<in> set xs \<Longrightarrow> f (g x) = Inr x) \<Longrightarrow> map_res f (map g xs) = Inr xs"
  by (induction xs) auto

lemma map_res_inverse:
  "map_res f xs = Inr ys \<Longrightarrow> (\<And>x y. x \<in> set xs \<Longrightarrow> f x = Inr y \<Longrightarrow> g y = x) \<Longrightarrow> map g ys = xs"
  by (induction xs arbitrary: ys) (auto simp: result_simps)

lemma filter_res_Inr:
  "filter_res p xs = Inr ys \<Longrightarrow>
     ys = filter (\<lambda>x. p x = Inr True) xs \<and> (\<forall>x\<in>set xs. \<exists>b. p x = Inr b)"
  by (induction xs arbitrary: ys) (auto simp: result_simps)

lemma filter_res_total:
  "(\<And>x. x \<in> set xs \<Longrightarrow> p x = Inr (q x)) \<Longrightarrow> filter_res p xs = Inr (filter q xs)"
  by (induction xs) auto

lemma any_res_total:
  "(\<And>x. x \<in> set xs \<Longrightarrow> p x = Inr (q x)) \<Longrightarrow> any_res p xs = Inr (\<exists>x\<in>set xs. q x)"
  by (induction xs) auto

lemma any_res_True: "any_res p xs = Inr True \<Longrightarrow> \<exists>x\<in>set xs. p x = Inr True"
  by (induction xs) (auto simp: result_simps split: if_splits)

lemma any_res_False: "any_res p xs = Inr False \<Longrightarrow> x \<in> set xs \<Longrightarrow> p x = Inr False"
  by (induction xs) (auto simp: result_simps split: if_splits)

lemma fold_res_invariant:
  assumes "fold_res f xs s = Inr s'" and "P s"
    and "\<And>x t t'. x \<in> set xs \<Longrightarrow> P t \<Longrightarrow> f x t = Inr t' \<Longrightarrow> P t'"
  shows "P s'"
  using assms
proof (induction xs arbitrary: s)
  case (Cons x xs)
  then obtain t where t: "f x s = Inr t" "fold_res f xs t = Inr s'"
    by (auto simp: result_simps)
  then have "P t" using Cons.prems(2) Cons.prems(3) [of x s t] by simp
  then show ?case by (rule Cons.IH [OF t(2)]) (rule Cons.prems(3), simp_all)
qed simp

lemma fold_res_append: "fold_res f (xs @ ys) s = res_bind (fold_res f xs s) (fold_res f ys)"
proof (induction xs arbitrary: s)
  case (Cons x xs)
  then show ?case by (cases "f x s") auto
qed simp

section \<open>Python strings\<close>

definition is_space :: "char \<Rightarrow> bool" where
  "is_space c = (let n = of_char c :: nat in
     (9 \<le> n \<and> n \<le> 13) \<or> (28 \<le> n \<and> n \<le> 32) \<or> n = 133 \<or> n = 160)"

definition is_digit :: "char \<Rightarrow> bool" where
  "is_digit c = (let n = of_char c :: nat in 48 \<le> n \<and> n \<le> 57)"

definition is_lower_ascii :: "char \<Rightarrow> bool" where
  "is_lower_ascii c = (let n = of_char c :: nat in 97 \<le> n \<and> n \<le> 122)"

definition is_upper_ascii :: "char \<Rightarrow> bool" where
  "is_upper_ascii c = (let n = of_char c :: nat in 65 \<le> n \<and> n \<le> 90)"

definition is_alnum :: "char \<Rightarrow> bool" where
  "is_alnum c = (is_digit c \<or> is_lower_ascii c \<or> is_upper_ascii c)"

definition is_ascii :: "char \<Rightarrow> bool" where
  "is_ascii c = ((of_char c :: nat) < 128)"

definition char_lower :: "char \<Rightarrow> char" where
  "char_lower c = (if is_upper_ascii c then char_of ((of_char c :: nat) + 32) else c)"

definition char_upper :: "char \<Rightarrow> char" where
  "char_upper c = (if is_lower_ascii c then char_of ((of_char c :: nat) - 32) else c)"

definition py_lower :: "string \<Rightarrow> string" where
  "py_lower s = map char_lower s"

definition py_upper :: "string \<Rightarrow> string" where
  "py_upper s = map char_upper s"

definition strip_by :: "(char \<Rightarrow> bool) \<Rightarrow> string \<Rightarrow> string" where
  "strip_by p s = rev (dropWhile p (rev (dropWhile p s)))"

definition py_strip :: "string \<Rightarrow> string" where
  "py_strip s = strip_by is_space s"

definition startswith :: "string \<Rightarrow> string \<Rightarrow> bool" where
  "startswith s p = (take (length p) s = p)"

definition endswith :: "string \<Rightarrow> string \<Rightarrow> bool" where
  "endswith s p = (length p \<le> length s \<and> drop (length s - length p) s = p)"

fun contains :: "string \<Rightarrow> string \<Rightarrow> bool" where
  "contains [] p = (p = [])"
| "contains (c # s) p = (startswith (c # s) p \<or> contains s p)"

text \<open>\<^verbatim>\<open>s.split(c)\<close> for a one-character separator.\<close>

fun split_on :: "char \<Rightarrow> string \<Rightarrow> string list" where
  "split_on c [] = [[]]"
| "split_on c (x # xs) =
     (if x = c then [] # split_on c xs
      else (case split_on c xs of [] \<Rightarrow> [[x]] | y # ys \<Rightarrow> (x # y) # ys))"

text \<open>\<^verbatim>\<open>s.partition(c)\<close> before the first separator, and after it (empty when there is none).\<close>

definition before_first :: "char \<Rightarrow> string \<Rightarrow> string" where
  "before_first c s = takeWhile (\<lambda>x. x \<noteq> c) s"

definition after_first :: "char \<Rightarrow> string \<Rightarrow> string" where
  "after_first c s = drop 1 (dropWhile (\<lambda>x. x \<noteq> c) s)"

lemma split_on_not_Nil [simp]: "split_on c s \<noteq> []"
  by (cases s) (auto split: list.splits)

lemma split_on_no_sep: "c \<notin> set s \<Longrightarrow> split_on c s = [s]"
  by (induction s) auto

lemma hd_split_on: "hd (split_on c s) = before_first c s"
  unfolding before_first_def by (induction s) (auto split: list.splits)

lemma split_on_append_sep: "split_on c (s @ c # t) = split_on c s @ split_on c t"
  by (induction s) (auto split: list.splits)

lemma split_on_parts: "p \<in> set (split_on c s) \<Longrightarrow> c \<notin> set p \<and> set p \<subseteq> set s"
  by (induction s arbitrary: p) (fastforce split: list.splits if_splits)+

lemma last_dropWhile: "dropWhile p xs \<noteq> [] \<Longrightarrow> last (dropWhile p xs) = last xs"
  by (induction xs) (auto split: if_splits)

lemma strip_by_fixed: "s = [] \<or> (\<not> p (hd s) \<and> \<not> p (last s)) \<Longrightarrow> strip_by p s = s"
  by (cases "s = []") (simp_all add: strip_by_def dropWhile_eq_self_iff [THEN iffD2] hd_rev)

lemma strip_by_ends:
  assumes "strip_by p s \<noteq> []"
  shows "\<not> p (hd (strip_by p s)) \<and> \<not> p (last (strip_by p s))"
proof -
  define t where "t = dropWhile p s"
  define u where "u = dropWhile p (rev t)"
  have u: "strip_by p s = rev u" "u \<noteq> []"
    using assms by (auto simp: strip_by_def u_def t_def)
  then have t: "t \<noteq> []" by (auto simp: u_def)
  have "last u = hd t"
    using u t last_dropWhile [of p "rev t"] by (simp add: u_def last_rev)
  moreover have "\<not> p (hd t)" using t hd_dropWhile [of p s] by (simp add: t_def)
  moreover have "\<not> p (hd u)" using u hd_dropWhile [of p "rev t"] by (simp add: u_def)
  ultimately show ?thesis using u by (simp add: hd_rev last_rev)
qed

lemma strip_by_idem [simp]: "strip_by p (strip_by p s) = strip_by p s"
  using strip_by_fixed strip_by_ends by metis

lemma py_strip_idem [simp]: "py_strip (py_strip s) = py_strip s"
  by (simp add: py_strip_def)

lemma strip_by_id: "\<forall>x\<in>set s. \<not> p x \<Longrightarrow> strip_by p s = s"
  by (rule strip_by_fixed) (metis hd_in_set last_in_set)

lemma py_strip_id: "\<forall>x\<in>set s. \<not> is_space x \<Longrightarrow> py_strip s = s"
  by (simp add: py_strip_def strip_by_id)

lemma startswith_append [simp]: "startswith (p @ s) p"
  by (simp add: startswith_def)

lemma startswith_iff: "startswith s p \<longleftrightarrow> (\<exists>t. s = p @ t)"
  by (metis append_take_drop_id startswith_append startswith_def)

end
