(* ===== verification/Digits.thy ===== *)
theory Digits
  imports Prelude
begin

text \<open>
  Decimal digits: Python's \<^verbatim>\<open>str(n)\<close> and \<^verbatim>\<open>int(s)\<close> on natural numbers and integers, and zero-padded
  fields \<^verbatim>\<open>f"{n:010d}"\<close>.  The lemmas give the round trips in both directions; they are what makes
  normalised CIKs, ISO dates and canonical JSON integers injective.
\<close>

definition digit_char :: "nat \<Rightarrow> char" where
  "digit_char d = char_of (48 + d)"

definition digit_val :: "char \<Rightarrow> nat" where
  "digit_val c = (of_char c :: nat) - 48"

fun show_nat :: "nat \<Rightarrow> string" where
  "show_nat n = (if n < 10 then [digit_char n] else show_nat (n div 10) @ [digit_char (n mod 10)])"

declare show_nat.simps [simp del]

definition read_digits :: "string \<Rightarrow> nat" where
  "read_digits s = foldl (\<lambda>a c. 10 * a + digit_val c) 0 s"

definition show_int :: "int \<Rightarrow> string" where
  "show_int i = (if i < 0 then CHR ''-'' # show_nat (nat (- i)) else show_nat (nat i))"

definition zfill :: "nat \<Rightarrow> string \<Rightarrow> string" where
  "zfill k s = replicate (k - length s) CHR ''0'' @ s"

text \<open>Digits of a number in a field of fixed width (its low digits when it does not fit).\<close>

fun pad_digits :: "nat \<Rightarrow> nat \<Rightarrow> string" where
  "pad_digits 0 n = []"
| "pad_digits (Suc k) n = pad_digits k (n div 10) @ [digit_char (n mod 10)]"

lemma digit_char_is_digit [simp]: "d < 10 \<Longrightarrow> is_digit (digit_char d)"
  by (simp add: is_digit_def digit_char_def)

lemma digit_val_char [simp]: "d < 10 \<Longrightarrow> digit_val (digit_char d) = d"
  by (simp add: digit_val_def digit_char_def)

lemma digit_val_bound: "is_digit c \<Longrightarrow> digit_val c < 10"
  unfolding is_digit_def digit_val_def Let_def by linarith

lemma digit_char_val [simp]: "is_digit c \<Longrightarrow> digit_char (digit_val c) = c"
  by (simp add: is_digit_def digit_val_def digit_char_def Let_def)

lemma digit_char_0: "digit_char 0 = CHR ''0''"
  unfolding digit_char_def by code_simp

lemma read_digits_snoc [simp]: "read_digits (s @ [c]) = 10 * read_digits s + digit_val c"
  by (simp add: read_digits_def)

lemma read_digits_Nil [simp]: "read_digits [] = 0"
  by (simp add: read_digits_def)

lemma show_nat_digits: "\<forall>c\<in>set (show_nat n). is_digit c"
  by (induction n rule: show_nat.induct) (subst show_nat.simps, auto)

lemma show_nat_not_Nil [simp]: "show_nat n \<noteq> []"
  by (subst show_nat.simps) simp

lemma read_show_nat [simp]: "read_digits (show_nat n) = n"
proof (induction n rule: show_nat.induct)
  case (1 n)
  show ?case
  proof (cases "n < 10")
    case True
    then show ?thesis by (subst show_nat.simps) (simp add: read_digits_def)
  next
    case False
    then show ?thesis using "1.IH" by (subst show_nat.simps) simp
  qed
qed

lemma show_nat_inject [simp]: "show_nat m = show_nat n \<longleftrightarrow> m = n"
  by (metis read_show_nat)

lemma length_pad_digits [simp]: "length (pad_digits k n) = k"
  by (induction k n rule: pad_digits.induct) auto

lemma pad_digits_digits: "c \<in> set (pad_digits k n) \<Longrightarrow> is_digit c"
  by (induction k n rule: pad_digits.induct) auto

lemma read_pad_digits: "n < 10 ^ k \<Longrightarrow> read_digits (pad_digits k n) = n"
proof (induction k n rule: pad_digits.induct)
  case (2 k n)
  have "n div 10 < 10 ^ k" using "2.prems" by (simp add: less_mult_imp_div_less mult.commute)
  then show ?case using "2.IH" by simp
qed simp

lemma pad_digits_0: "pad_digits k 0 = replicate k CHR ''0''"
  by (induction k) (simp_all add: digit_char_0 replicate_append_same)

lemma pad_digits_read:
  "\<forall>c\<in>set s. is_digit c \<Longrightarrow> pad_digits (j + length s) (read_digits s) = replicate j CHR ''0'' @ s"
proof (induction s rule: rev_induct)
  case Nil
  then show ?case by (simp add: pad_digits_0)
next
  case (snoc c s)
  then have c: "is_digit c" "digit_val c < 10" by (auto simp: digit_val_bound)
  then show ?case using snoc by (simp add: div_add1_eq mod_add_eq [symmetric])
qed

lemma zfill_show_nat: "0 < k \<Longrightarrow> n < 10 ^ k \<Longrightarrow> zfill k (show_nat n) = pad_digits k n"
proof (induction n arbitrary: k rule: show_nat.induct)
  case (1 n)
  obtain j where k: "k = Suc j" using "1.prems" by (cases k) auto
  show ?case
  proof (cases "n < 10")
    case True
    then show ?thesis
      by (subst show_nat.simps) (simp add: zfill_def k pad_digits_0)
  next
    case False
    have lt: "n div 10 < 10 ^ j" using "1.prems" k
      by (simp add: less_mult_imp_div_less mult.commute)
    have "0 < j" using lt False by (cases j) auto
    from "1.IH" [OF False this lt] have "zfill j (show_nat (n div 10)) = pad_digits j (n div 10)" .
    then show ?thesis using False k
      by (subst show_nat.simps) (simp add: zfill_def)
  qed
qed

lemma read_digits_bound:
  "\<forall>c\<in>set s. is_digit c \<Longrightarrow> read_digits s < 10 ^ length s"
proof (induction s rule: rev_induct)
  case (snoc c s)
  then have "digit_val c < 10" "read_digits s < 10 ^ length s" by (auto simp: digit_val_bound)
  then show ?case by simp
qed simp

lemma zfill_show_read:
  assumes "\<forall>c\<in>set s. is_digit c" and "s \<noteq> []" and "length s \<le> k"
  shows "zfill k (show_nat (read_digits s)) = replicate (k - length s) CHR ''0'' @ s"
proof -
  have "read_digits s < 10 ^ length s" using assms(1) by (rule read_digits_bound)
  also have "\<dots> \<le> 10 ^ k" using assms(3) by (simp add: power_increasing)
  finally have "zfill k (show_nat (read_digits s)) = pad_digits k (read_digits s)"
    using assms(2,3) by (intro zfill_show_nat) (cases s, auto)
  then show ?thesis
    using pad_digits_read [OF assms(1), of "k - length s"] assms(3) by simp
qed

lemma digit_not_sign: "is_digit c \<Longrightarrow> c \<noteq> CHR ''-'' \<and> c \<noteq> CHR ''+'' \<and> \<not> is_space c"
  by (auto simp: is_digit_def is_space_def Let_def)

lemma show_int_inject [simp]: "show_int i = show_int j \<longleftrightarrow> i = j"
proof -
  have hd: "hd (show_nat n) \<noteq> CHR ''-''" for n
    using show_nat_digits [of n] digit_not_sign by (metis hd_in_set show_nat_not_Nil)
  have "CHR ''-'' # s \<noteq> show_nat n" for s n
    using hd [of n] by (metis list.sel(1))
  then show ?thesis by (auto simp: show_int_def split: if_splits) (metis | linarith)+
qed

end
