(* ===== verification/Json.thy ===== *)
theory Json
  imports Digits
begin

text \<open>
  JSON values and Python's \<^verbatim>\<open>json.dumps(value, ensure_ascii=False, sort_keys=True,
  separators=(",", ":"))\<close>, the one serialisation every digest of the program is computed over
  (\<^verbatim>\<open>registry/hashing.py\<close>, \<^verbatim>\<open>domain/bundle.py\<close>).

  A \<^verbatim>\<open>dict\<close> is the list of its items in insertion order; \<open>sort_keys\<close> orders every object by key.
  Floats are left out: none of the hashed payloads holds one.  The main lemma is that the text
  determines the value: \<open>dumps_inject\<close>.
\<close>

datatype json =
    JNull
  | JBool bool
  | JInt int
  | JStr string
  | JArr "json list"
  | JObj "(string \<times> json) list"

section \<open>Strings\<close>

definition hex_char :: "nat \<Rightarrow> char" where
  "hex_char d = (if d < 10 then char_of (48 + d) else char_of (87 + d))"

definition hex_val :: "char \<Rightarrow> nat" where
  "hex_val c = (let n = of_char c :: nat in if n < 58 then n - 48 else n - 87)"

abbreviation bslash :: char where "bslash \<equiv> CHR 0x5C"

abbreviation dquote :: char where "dquote \<equiv> CHR 0x22"

definition esc_char :: "char \<Rightarrow> string" where
  "esc_char c =
     (if c = dquote then [bslash, dquote]
      else if c = bslash then [bslash, bslash]
      else if c = CHR 0x0A then [bslash, CHR ''n'']
      else if c = CHR 0x0D then [bslash, CHR ''r'']
      else if c = CHR 0x09 then [bslash, CHR ''t'']
      else if c = CHR 0x0C then [bslash, CHR ''f'']
      else if c = CHR 0x08 then [bslash, CHR ''b'']
      else if (of_char c :: nat) < 32
      then [bslash, CHR ''u'', CHR ''0'', CHR ''0'',
            hex_char ((of_char c :: nat) div 16), hex_char ((of_char c :: nat) mod 16)]
      else [c])"

definition unesc_head :: "string \<Rightarrow> char \<times> string" where
  "unesc_head s =
     (if hd s \<noteq> bslash then (hd s, tl s)
      else if s ! 1 = CHR ''n'' then (CHR 0x0A, drop 2 s)
      else if s ! 1 = CHR ''r'' then (CHR 0x0D, drop 2 s)
      else if s ! 1 = CHR ''t'' then (CHR 0x09, drop 2 s)
      else if s ! 1 = CHR ''f'' then (CHR 0x0C, drop 2 s)
      else if s ! 1 = CHR ''b'' then (CHR 0x08, drop 2 s)
      else if s ! 1 = CHR ''u'' then (char_of (16 * hex_val (s ! 4) + hex_val (s ! 5)), drop 6 s)
      else (s ! 1, drop 2 s))"

definition dumps_str :: "string \<Rightarrow> string" where
  "dumps_str s = dquote # concat (map esc_char s) @ [dquote]"

fun join :: "string \<Rightarrow> string list \<Rightarrow> string" where
  "join sep [] = []"
| "join sep [x] = x"
| "join sep (x # y # zs) = x @ sep @ join sep (y # zs)"

primrec dumps :: "json \<Rightarrow> string" where
  "dumps JNull = ''null''"
| "dumps (JBool b) = (if b then ''true'' else ''false'')"
| "dumps (JInt i) = show_int i"
| "dumps (JStr s) = dumps_str s"
| "dumps (JArr xs) = ''['' @ join '','' (map dumps xs) @ '']''"
| "dumps (JObj kvs) =
     ''{'' @ join '','' (map (\<lambda>(k, t). dumps_str k @ '':'' @ t) (map (map_prod id dumps) kvs)) @ ''}''"

primrec sort_keys :: "json \<Rightarrow> json" where
  "sort_keys JNull = JNull"
| "sort_keys (JBool b) = JBool b"
| "sort_keys (JInt i) = JInt i"
| "sort_keys (JStr s) = JStr s"
| "sort_keys (JArr xs) = JArr (map sort_keys xs)"
| "sort_keys (JObj kvs) = JObj (sort_key fst (map (map_prod id sort_keys) kvs))"

definition canonical_json_bytes :: "json \<Rightarrow> string" where
  "canonical_json_bytes v = dumps (sort_keys v)"

lemma hex_val_char [simp]: "d < 16 \<Longrightarrow> hex_val (hex_char d) = d"
  by (simp add: hex_char_def hex_val_def)

lemma unesc_esc: "unesc_head (esc_char c @ r) = (c, r)"
  by (simp add: esc_char_def unesc_head_def)

lemma esc_char_prefix_free: "esc_char c @ x = esc_char d @ y \<Longrightarrow> c = d \<and> x = y"
  by (metis unesc_esc prod.inject)

lemma esc_char_hd: "esc_char c \<noteq> [] \<and> hd (esc_char c) \<noteq> dquote"
  by (simp add: esc_char_def)

lemma esc_string_prefix_free:
  "concat (map esc_char s) @ dquote # x = concat (map esc_char t) @ dquote # y \<Longrightarrow> s = t \<and> x = y"
proof (induction s arbitrary: t)
  case Nil
  then show ?case using esc_char_hd by (cases t) (auto, metis append_is_Nil_conv hd_append2 list.sel(1))
next
  case (Cons c s)
  show ?case
  proof (cases t)
    case Nil
    then show ?thesis using Cons.prems esc_char_hd [of c] by (cases "esc_char c") auto
  next
    case (Cons d t')
    then have "esc_char c @ (concat (map esc_char s) @ dquote # x) =
        esc_char d @ (concat (map esc_char t') @ dquote # y)" using Cons.prems by simp
    from esc_char_prefix_free [OF this] show ?thesis using Cons.IH [of t'] Cons by simp
  qed
qed

lemma dumps_str_prefix_free: "dumps_str s @ x = dumps_str t @ y \<Longrightarrow> s = t \<and> x = y"
  using esc_string_prefix_free [of s x t y] by (simp add: dumps_str_def)

section \<open>The text determines the value\<close>

definition delimited :: "string \<Rightarrow> bool" where
  "delimited r = (r = [] \<or> hd r \<in> {CHR '','', CHR '']'', CHR ''}''})"

definition self_delimiting :: "('a \<Rightarrow> string) \<Rightarrow> 'a \<Rightarrow> bool" where
  "self_delimiting f x =
     (\<forall>y r r'. delimited r \<longrightarrow> delimited r' \<longrightarrow> f x @ r = f y @ r' \<longrightarrow> x = y \<and> r = r')"

definition starts_item :: "('a \<Rightarrow> string) \<Rightarrow> bool" where
  "starts_item f = (\<forall>x. f x \<noteq> [] \<and> hd (f x) \<notin> {CHR '','', CHR '']'', CHR ''}''})"

lemma join_prefix_free:
  assumes "starts_item f" and "\<forall>x\<in>set xs. self_delimiting f x" and "c \<in> {CHR '']'', CHR ''}''}"
    and "join '','' (map f xs) @ c # r = join '','' (map f ys) @ c # r'"
  shows "xs = ys \<and> r = r'"
  using assms(2,4)
proof (induction xs arbitrary: ys)
  case Nil
  have item: "f y \<noteq> [] \<and> hd (f y) \<noteq> c" for y using assms(1,3) by (auto simp: starts_item_def)
  show ?case
  proof (cases ys)
    case (Cons y zs)
    then have "c # r = (join '','' (map f ys)) @ c # r'" using Nil by simp
    moreover obtain u where "join '','' (map f ys) = f y @ u" using Cons by (cases zs) auto
    ultimately have "hd (f y) = c" using item [of y] by (metis append_assoc hd_append2 list.sel(1))
    then show ?thesis using item by blast
  qed (use Nil in simp)
next
  case (Cons x xs)
  have item: "f y \<noteq> [] \<and> hd (f y) \<noteq> c" for y using assms(1,3) by (auto simp: starts_item_def)
  define tail where "tail = (\<lambda>zs r. (if zs = [] then c # r else CHR '','' # join '','' (map f zs) @ c # r))"
  have split: "join '','' (map f (z # zs)) @ c # r = f z @ tail zs r" for z zs r
    by (cases zs) (simp_all add: tail_def)
  have del: "delimited (tail zs r)" for zs r
    using assms(3) by (auto simp: tail_def delimited_def)
  show ?case
  proof (cases ys)
    case Nil
    then have "f x @ tail xs r = c # r'" using Cons.prems(2) split [of x xs r] by simp
    then have "hd (f x) = c" using item [of x] by (metis hd_append2 list.sel(1))
    then show ?thesis using item by blast
  next
    case ys: (Cons y ys')
    have "f x @ tail xs r = f y @ tail ys' r'"
      using Cons.prems(2) split [of x xs r] split [of y ys' r'] ys by simp
    then have eq: "x = y" "tail xs r = tail ys' r'"
      using Cons.prems(1) del unfolding self_delimiting_def by (simp_all, blast+)
    have "c \<noteq> CHR '',''" using assms(3) by auto
    then have "join '','' (map f xs) @ c # r = join '','' (map f ys') @ c # r'"
      using eq(2) by (auto simp: tail_def split: if_splits)
    then show ?thesis using Cons.IH [of ys'] Cons.prems(1) eq(1) ys by simp
  qed
qed

lemma show_int_prefix_free:
  assumes "delimited r" "delimited r'" "show_int i @ r = show_int j @ r'"
  shows "i = j \<and> r = r'"
proof -
  let ?p = "\<lambda>c. is_digit c \<or> c = CHR ''-''"
  have all: "\<forall>c\<in>set (show_int k). ?p c" for k
    using show_nat_digits by (auto simp: show_int_def)
  have tw: "takeWhile ?p (show_int k @ s) = show_int k" if "delimited s" for k s
    using that all [of k]
    by (subst takeWhile_append2) (auto simp: delimited_def takeWhile_eq_Nil_iff is_digit_def)
  have "show_int i = show_int j" using tw assms by metis
  then show ?thesis using assms(3) by simp
qed

lemma show_int_hd: "is_digit (hd (show_int i)) \<or> hd (show_int i) = CHR ''-''"
  using show_nat_digits by (auto simp: show_int_def) (metis hd_in_set show_nat_not_Nil)

lemma show_int_not_Nil [simp]: "show_int i \<noteq> []"
  by (simp add: show_int_def)

fun json_tag :: "json \<Rightarrow> char \<Rightarrow> bool" where
  "json_tag JNull c = (c = CHR ''n'')"
| "json_tag (JBool b) c = (c = (if b then CHR ''t'' else CHR ''f''))"
| "json_tag (JInt i) c = (is_digit c \<or> c = CHR ''-'')"
| "json_tag (JStr s) c = (c = dquote)"
| "json_tag (JArr xs) c = (c = CHR ''['')"
| "json_tag (JObj kvs) c = (c = CHR ''{'')"

lemma dumps_tag: "dumps v \<noteq> [] \<and> json_tag v (hd (dumps v))"
  using show_int_hd by (cases v) (auto simp: dumps_str_def)

lemma tag_of_prefix: "c # s = dumps y @ r \<Longrightarrow> json_tag y c"
  using dumps_tag [of y] by (cases "dumps y") auto

lemma starts_item_dumps: "starts_item dumps"
  unfolding starts_item_def
proof
  fix v show "dumps v \<noteq> [] \<and> hd (dumps v) \<notin> {CHR '','', CHR '']'', CHR ''}''}"
    using dumps_tag [of v] by (cases v) (auto simp: is_digit_def split: if_splits)
qed

abbreviation dumps_item :: "string \<times> json \<Rightarrow> string" where
  "dumps_item \<equiv> (\<lambda>(k, v). dumps_str k @ '':'' @ dumps v)"

lemma starts_item_pair: "starts_item dumps_item"
  by (auto simp: starts_item_def dumps_str_def)

lemma dumps_obj: "dumps (JObj kvs) = ''{'' @ join '','' (map dumps_item kvs) @ ''}''"
  by (simp add: split_def o_def)

lemma dumps_self_delimiting: "self_delimiting dumps v"
proof (induction v)
  case (JInt i)
  show ?case unfolding self_delimiting_def
  proof (intro allI impI)
    fix y r r' assume A: "delimited r" "delimited r'" "dumps (JInt i) @ r = dumps y @ r'"
    obtain c s where cs: "show_int i = c # s" by (cases "show_int i") auto
    then have "json_tag y c" using A(3) by (intro tag_of_prefix [of c "s @ r" y r']) simp
    then obtain j where "y = JInt j"
      using show_int_hd [of i] cs by (cases y) (auto simp: is_digit_def split: if_splits)
    then show "JInt i = y \<and> r = r'" using A show_int_prefix_free by auto
  qed
next
  case (JStr s)
  show ?case unfolding self_delimiting_def
  proof (intro allI impI)
    fix y r r' assume A: "dumps (JStr s) @ r = dumps y @ r'"
    have "json_tag y dquote" using A by (intro tag_of_prefix [of _ _ y r']) (simp add: dumps_str_def)
    then obtain t where "y = JStr t" by (cases y) (auto simp: is_digit_def split: if_splits)
    then show "JStr s = y \<and> r = r'" using A dumps_str_prefix_free [of s r t r'] by simp
  qed
next
  case (JArr xs)
  show ?case unfolding self_delimiting_def
  proof (intro allI impI)
    fix y r r' assume A: "dumps (JArr xs) @ r = dumps y @ r'"
    have "json_tag y CHR ''[''" using A by (intro tag_of_prefix [of _ _ y r']) simp
    then obtain ys where "y = JArr ys" by (cases y) (auto simp: is_digit_def split: if_splits)
    then show "JArr xs = y \<and> r = r'"
      using A JArr join_prefix_free [OF starts_item_dumps, of xs "CHR '']''" r ys r'] by auto
  qed
next
  case (JObj kvs)
  have items: "\<forall>kv\<in>set kvs. self_delimiting dumps_item kv"
  proof
    fix kv assume kv: "kv \<in> set kvs"
    obtain k v where [simp]: "kv = (k, v)" by (cases kv)
    have v: "self_delimiting dumps v" using JObj kv by (auto intro: snds.intros)
    show "self_delimiting dumps_item kv" unfolding self_delimiting_def
    proof (intro allI impI)
      fix y :: "string \<times> json" and r r'
      assume A: "delimited r" "delimited r'" "dumps_item kv @ r = dumps_item y @ r'"
      obtain k' v' where [simp]: "y = (k', v')" by (cases y)
      have "k = k' \<and> '':'' @ dumps v @ r = '':'' @ dumps v' @ r'"
        using A(3) by (intro dumps_str_prefix_free) simp
      then show "kv = y \<and> r = r'" using v A(1,2) by (auto simp: self_delimiting_def)
    qed
  qed
  show ?case unfolding self_delimiting_def
  proof (intro allI impI)
    fix y r r' assume A: "dumps (JObj kvs) @ r = dumps y @ r'"
    have "json_tag y CHR ''{''" using A by (intro tag_of_prefix [of _ _ y r']) simp
    then obtain ys where y: "y = JObj ys" by (cases y) (auto simp: is_digit_def split: if_splits)
    have "join '','' (map dumps_item kvs) @ CHR ''}'' # r = join '','' (map dumps_item ys) @ CHR ''}'' # r'"
      using A unfolding y dumps_obj by simp
    then show "JObj kvs = y \<and> r = r'"
      using join_prefix_free [OF starts_item_pair items, of "CHR ''}''" r ys r'] y by simp
  qed
next
  case JNull
  show ?case unfolding self_delimiting_def
  proof (intro allI impI)
    fix y r r' assume A: "dumps JNull @ r = dumps y @ r'"
    have "json_tag y CHR ''n''" using A by (intro tag_of_prefix [of _ _ y r']) simp
    then have "y = JNull" by (cases y) (auto simp: is_digit_def split: if_splits)
    then show "JNull = y \<and> r = r'" using A by simp
  qed
next
  case (JBool b)
  show ?case unfolding self_delimiting_def
  proof (intro allI impI)
    fix y r r' assume A: "dumps (JBool b) @ r = dumps y @ r'"
    have "json_tag y (if b then CHR ''t'' else CHR ''f'')"
      using A by (cases b) (intro tag_of_prefix [of _ _ y r'], simp)+
    then have "y = JBool b" by (cases y; cases b) (auto simp: is_digit_def split: if_splits)
    then show "JBool b = y \<and> r = r'" using A by simp
  qed
qed

lemma dumps_inject [simp]: "dumps v = dumps w \<longleftrightarrow> v = w"
  using dumps_self_delimiting [of v]
  by (auto simp: self_delimiting_def delimited_def)

lemma canonical_json_inject [simp]:
  "canonical_json_bytes v = canonical_json_bytes w \<longleftrightarrow> sort_keys v = sort_keys w"
  by (simp add: canonical_json_bytes_def)

end
