(* ===== verification/Metric_Registry.thy ===== *)
theory Metric_Registry
  imports Json "HOL-Library.Multiset"
begin

text \<open>
  \<^verbatim>\<open>src/edgar/registry/models.py\<close>, \<^verbatim>\<open>hashing.py\<close> and \<^verbatim>\<open>loader.py\<close>: the canonical metric contract, its
  digests, and the loading of \<^verbatim>\<open>metrics.yml\<close>.

  YAML parsing is outside: the loader takes the parsed value, a \<^typ>\<open>json\<close>.  A failed pydantic
  validation is one \<^const>\<open>ValueError\<close>; the loader turns it into an entry of its error list.
  SHA-256 (hex digest) is the argument \<open>sha\<close>.
\<close>

section \<open>The metric contract\<close>

datatype metric_kind = Reported

datatype statement = Income_Statement | Balance_Sheet | Cash_Flow | Per_Share | Shares_Statement

datatype period_type = Instant | Duration

datatype value_kind = Numeric

datatype unit_dimension = Monetary | Shares_Unit | Monetary_Per_Share

record canonical_metric =
  cm_key :: string
  cm_name :: string
  cm_kind :: metric_kind
  cm_statement :: statement
  cm_period_type :: period_type
  cm_value_kind :: value_kind
  cm_unit_dimension :: unit_dimension
  cm_definition :: string
  cm_includes :: "string list"
  cm_excludes :: "string list"

definition METRIC_KEY_PATTERN :: "string \<Rightarrow> bool" where
  "METRIC_KEY_PATTERN s = (case s of
     [] \<Rightarrow> False
   | c # cs \<Rightarrow> is_lower_ascii c \<and> list_all (\<lambda>x. is_lower_ascii x \<or> is_digit x \<or> x = CHR ''_'') cs)"

fun STATEMENT_MATRIX :: "statement \<Rightarrow> period_type list \<times> unit_dimension" where
  "STATEMENT_MATRIX Income_Statement = ([Duration], Monetary)"
| "STATEMENT_MATRIX Balance_Sheet = ([Instant], Monetary)"
| "STATEMENT_MATRIX Cash_Flow = ([Duration], Monetary)"
| "STATEMENT_MATRIX Per_Share = ([Duration], Monetary_Per_Share)"
| "STATEMENT_MATRIX Shares_Statement = ([Instant, Duration], Shares_Unit)"

definition non_empty_str :: "string \<Rightarrow> string res" where
  "non_empty_str v = (let stripped = py_strip v
     in if stripped = [] then Inl (ValueError ''must be non-empty'') else Inr stripped)"

definition metric_key :: "string \<Rightarrow> string res" where
  "metric_key v = res_bind (non_empty_str v) (\<lambda>key.
     if \<not> METRIC_KEY_PATTERN key then Inl (ValueError ''malformed metric key'') else Inr key)"

fun contract_lists_loop :: "string list \<Rightarrow> string list \<Rightarrow> string list res" where
  "contract_lists_loop cleaned [] = Inr cleaned"
| "contract_lists_loop cleaned (entry # rest) =
     res_bind (non_empty_str entry) (\<lambda>item.
       if item \<in> set cleaned then Inl (ValueError ''duplicate entries'')
       else contract_lists_loop (cleaned @ [item]) rest)"

definition contract_lists :: "string list \<Rightarrow> string list res" where
  "contract_lists v = res_bind (contract_lists_loop [] v) (\<lambda>cleaned.
     if cleaned = [] then Inl (ValueError ''must be non-empty'') else Inr cleaned)"

definition statement_matrix :: "canonical_metric \<Rightarrow> canonical_metric res" where
  "statement_matrix m = (let (allowed_periods, unit) = STATEMENT_MATRIX (cm_statement m)
     in if cm_period_type m \<notin> set allowed_periods then Inl (ValueError ''statement requires period_type'')
        else if cm_unit_dimension m \<noteq> unit then Inl (ValueError ''statement requires unit_dimension'')
        else if cm_kind m \<noteq> Reported then Inl (ValueError ''kind must be reported'')
        else if cm_value_kind m \<noteq> Numeric then Inl (ValueError ''value_kind must be numeric'')
        else Inr m)"

text \<open>\<^verbatim>\<open>CanonicalMetric.model_validate\<close>: literals, then field validators, then the model validator.\<close>

definition literal :: "(string \<times> 'a) list \<Rightarrow> json \<Rightarrow> 'a res" where
  "literal table v = (case v of
     JStr s \<Rightarrow> (case map_of table s of Some x \<Rightarrow> Inr x | None \<Rightarrow> Inl (ValueError ''literal''))
   | _ \<Rightarrow> Inl (ValueError ''literal''))"

definition statement_names :: "(string \<times> statement) list" where
  "statement_names = [(''income_statement'', Income_Statement), (''balance_sheet'', Balance_Sheet),
     (''cash_flow'', Cash_Flow), (''per_share'', Per_Share), (''shares'', Shares_Statement)]"

definition period_type_names :: "(string \<times> period_type) list" where
  "period_type_names = [(''instant'', Instant), (''duration'', Duration)]"

definition unit_dimension_names :: "(string \<times> unit_dimension) list" where
  "unit_dimension_names = [(''monetary'', Monetary), (''shares'', Shares_Unit),
     (''monetary_per_share'', Monetary_Per_Share)]"

definition as_str :: "json \<Rightarrow> string res" where
  "as_str v = (case v of JStr s \<Rightarrow> Inr s | _ \<Rightarrow> Inl (ValueError ''string''))"

definition as_str_tuple :: "json \<Rightarrow> string list res" where
  "as_str_tuple v = (case v of
     JArr xs \<Rightarrow> res_bind (map_res as_str xs) (\<lambda>ss.
       if ss = [] then Inl (ValueError ''min_length'') else Inr ss)
   | _ \<Rightarrow> Inl (ValueError ''tuple''))"

definition required_field :: "(string \<times> json) list \<Rightarrow> string \<Rightarrow> (json \<Rightarrow> 'a res) \<Rightarrow> 'a res" where
  "required_field kvs name decode = (case map_of kvs name of
     None \<Rightarrow> Inl (ValueError ''missing'') | Some v \<Rightarrow> decode v)"

definition METRIC_FIELDS :: "string list" where
  "METRIC_FIELDS = [''key'', ''name'', ''kind'', ''statement'', ''period_type'', ''value_kind'',
     ''unit_dimension'', ''definition'', ''includes'', ''excludes'']"

definition model_validate :: "(string \<times> json) list \<Rightarrow> canonical_metric res" where
  "model_validate kvs =
     res_bind (guard_res (list_all (\<lambda>(k, _). k \<in> set METRIC_FIELDS) kvs) (ValueError ''extra_forbidden'')) (\<lambda>_.
     res_bind (required_field kvs ''key'' (\<lambda>v. res_bind (as_str v) metric_key)) (\<lambda>key.
     res_bind (required_field kvs ''name'' (\<lambda>v. res_bind (as_str v) non_empty_str)) (\<lambda>name.
     res_bind (required_field kvs ''kind'' (literal [(''reported'', Reported)])) (\<lambda>kind.
     res_bind (required_field kvs ''statement'' (literal statement_names)) (\<lambda>st.
     res_bind (required_field kvs ''period_type'' (literal period_type_names)) (\<lambda>pt.
     res_bind (required_field kvs ''value_kind'' (literal [(''numeric'', Numeric)])) (\<lambda>vk.
     res_bind (required_field kvs ''unit_dimension'' (literal unit_dimension_names)) (\<lambda>ud.
     res_bind (required_field kvs ''definition'' (\<lambda>v. res_bind (as_str v) non_empty_str)) (\<lambda>d.
     res_bind (required_field kvs ''includes'' (\<lambda>v. res_bind (as_str_tuple v) contract_lists)) (\<lambda>inc.
     res_bind (required_field kvs ''excludes'' (\<lambda>v. res_bind (as_str_tuple v) contract_lists)) (\<lambda>exc.
       statement_matrix \<lparr>cm_key = key, cm_name = name, cm_kind = kind, cm_statement = st,
         cm_period_type = pt, cm_value_kind = vk, cm_unit_dimension = ud, cm_definition = d,
         cm_includes = inc, cm_excludes = exc\<rparr>)))))))))))"

text \<open>What a validated metric satisfies.\<close>

definition metric_wf :: "canonical_metric \<Rightarrow> bool" where
  "metric_wf m = (METRIC_KEY_PATTERN (cm_key m) \<and> cm_name m \<noteq> [] \<and> py_strip (cm_name m) = cm_name m \<and>
     cm_definition m \<noteq> [] \<and> py_strip (cm_definition m) = cm_definition m \<and>
     cm_includes m \<noteq> [] \<and> distinct (cm_includes m) \<and> [] \<notin> set (cm_includes m) \<and>
     cm_excludes m \<noteq> [] \<and> distinct (cm_excludes m) \<and> [] \<notin> set (cm_excludes m) \<and>
     cm_period_type m \<in> set (fst (STATEMENT_MATRIX (cm_statement m))) \<and>
     cm_unit_dimension m = snd (STATEMENT_MATRIX (cm_statement m)))"

lemma non_empty_str_Inr: "non_empty_str v = Inr s \<longleftrightarrow> s = py_strip v \<and> s \<noteq> []"
  by (auto simp: non_empty_str_def Let_def)

lemma contract_lists_loop_wf:
  "contract_lists_loop acc xs = Inr ys \<Longrightarrow> distinct acc \<Longrightarrow> [] \<notin> set acc \<Longrightarrow> distinct ys \<and> [] \<notin> set ys"
  by (induction acc xs rule: contract_lists_loop.induct)
     (auto simp: result_simps non_empty_str_Inr split: if_splits)

lemma contract_lists_wf: "contract_lists xs = Inr ys \<Longrightarrow> ys \<noteq> [] \<and> distinct ys \<and> [] \<notin> set ys"
  using contract_lists_loop_wf [of "[]" xs] by (auto simp: contract_lists_def result_simps split: if_splits)

lemma statement_matrix_Inr:
  "statement_matrix m = Inr m' \<longleftrightarrow> m' = m \<and>
     cm_period_type m \<in> set (fst (STATEMENT_MATRIX (cm_statement m))) \<and>
     cm_unit_dimension m = snd (STATEMENT_MATRIX (cm_statement m))"
  by (cases "cm_kind m"; cases "cm_value_kind m")
     (auto simp: statement_matrix_def split_def Let_def)

lemma required_field_Inr:
  "required_field kvs n f = Inr x \<longleftrightarrow> (\<exists>v. map_of kvs n = Some v \<and> f v = Inr x)"
  by (auto simp: required_field_def split: option.splits)

lemma metric_key_Inr: "metric_key v = Inr k \<longleftrightarrow> k = py_strip v \<and> METRIC_KEY_PATTERN k"
  by (auto simp: metric_key_def result_simps non_empty_str_Inr METRIC_KEY_PATTERN_def split: if_splits)

lemma model_validate_wf: "model_validate kvs = Inr m \<Longrightarrow> metric_wf m"
  unfolding model_validate_def res_bind_Inr_iff required_field_Inr statement_matrix_Inr
  by (elim exE conjE) (simp add: metric_wf_def metric_key_Inr non_empty_str_Inr,
      use contract_lists_wf in blast)

section \<open>Digests\<close>

definition name_of :: "(string \<times> 'a) list \<Rightarrow> 'a \<Rightarrow> string" where
  "name_of table x = fst (hd (filter (\<lambda>(_, y). y = x) table))"

definition model_dump :: "canonical_metric \<Rightarrow> (string \<times> json) list" where
  "model_dump m =
     [(''key'', JStr (cm_key m)), (''name'', JStr (cm_name m)), (''kind'', JStr ''reported''),
      (''statement'', JStr (name_of statement_names (cm_statement m))),
      (''period_type'', JStr (name_of period_type_names (cm_period_type m))),
      (''value_kind'', JStr ''numeric''),
      (''unit_dimension'', JStr (name_of unit_dimension_names (cm_unit_dimension m))),
      (''definition'', JStr (cm_definition m)),
      (''includes'', JArr (map JStr (cm_includes m))), (''excludes'', JArr (map JStr (cm_excludes m)))]"

definition DEFINITION_HASH_FIELDS :: "string list" where
  "DEFINITION_HASH_FIELDS = [''key'', ''kind'', ''statement'', ''period_type'', ''value_kind'',
     ''unit_dimension'', ''definition'', ''includes'', ''excludes'']"

definition DUPLICATE_PAYLOAD_FIELDS :: "string list" where
  "DUPLICATE_PAYLOAD_FIELDS = [''kind'', ''statement'', ''period_type'', ''value_kind'',
     ''unit_dimension'', ''definition'', ''includes'', ''excludes'']"

fun json_strings :: "json \<Rightarrow> string list" where
  "json_strings (JArr xs) = concat (map (\<lambda>x. case x of JStr s \<Rightarrow> [s] | _ \<Rightarrow> []) xs)"
| "json_strings _ = []"

definition payload :: "canonical_metric \<Rightarrow> string list \<Rightarrow> json" where
  "payload m field_names = JObj (map (\<lambda>f.
     let v = the (map_of (model_dump m) f)
     in (f, if f \<in> {''includes'', ''excludes''} then JArr (map JStr (sort (json_strings v))) else v)) field_names)"

definition definition_hash :: "(string \<Rightarrow> string) \<Rightarrow> canonical_metric \<Rightarrow> string" where
  "definition_hash sha m = sha (canonical_json_bytes (payload m DEFINITION_HASH_FIELDS))"

definition duplicate_payload_signature :: "(string \<Rightarrow> string) \<Rightarrow> canonical_metric \<Rightarrow> string" where
  "duplicate_payload_signature sha m = sha (canonical_json_bytes (payload m DUPLICATE_PAYLOAD_FIELDS))"

definition semantic_registry_hash :: "(string \<Rightarrow> string) \<Rightarrow> canonical_metric list \<Rightarrow> string" where
  "semantic_registry_hash sha ms =
     sha (canonical_json_bytes (JArr (map JStr (sort (map (definition_hash sha) ms)))))"

lemma json_strings_map [simp]: "json_strings (JArr (map JStr xs)) = xs"
  by (induction xs) auto

lemma statement_name_inject [simp]: "name_of statement_names a = name_of statement_names b \<longleftrightarrow> a = b"
  by (cases a; cases b) (simp_all add: name_of_def statement_names_def)

lemma period_type_name_inject [simp]: "name_of period_type_names a = name_of period_type_names b \<longleftrightarrow> a = b"
  by (cases a; cases b) (simp_all add: name_of_def period_type_names_def)

lemma unit_dimension_name_inject [simp]:
  "name_of unit_dimension_names a = name_of unit_dimension_names b \<longleftrightarrow> a = b"
  by (cases a; cases b) (simp_all add: name_of_def unit_dimension_names_def)

lemma sort_keys_strs [simp]: "sort_keys (JArr (map JStr xs)) = JArr (map JStr xs)"
  by (simp add: o_def)

lemma map_JStr_eq [simp]: "map JStr xs = map JStr ys \<longleftrightarrow> xs = ys"
  by (metis json_strings_map)

lemma sorted_object_eq:
  "sort_keys (JObj (map (\<lambda>f. (f, u f)) fs)) = sort_keys (JObj (map (\<lambda>f. (f, v f)) fs)) \<longleftrightarrow>
     (\<forall>f\<in>set fs. sort_keys (u f) = sort_keys (v f))"
  (is "?L \<longleftrightarrow> ?R")
proof
  assume ?L
  then have "set (sort_key fst (map (\<lambda>f. (f, sort_keys (u f))) fs)) =
    set (sort_key fst (map (\<lambda>f. (f, sort_keys (v f))) fs))" by (simp add: o_def)
  then show ?R by (simp add: set_eq_iff image_iff) (metis prod.inject)
next
  assume ?R
  then have "map (\<lambda>f. (f, sort_keys (u f))) fs = map (\<lambda>f. (f, sort_keys (v f))) fs" by simp
  then show ?L by (simp add: o_def del: map_eq_conv)
qed

text \<open>The semantic content of a definition: everything but the display name, lists up to order.\<close>

definition same_definition :: "canonical_metric \<Rightarrow> canonical_metric \<Rightarrow> bool" where
  "same_definition m n = (cm_key m = cm_key n \<and> cm_statement m = cm_statement n \<and>
     cm_period_type m = cm_period_type n \<and> cm_unit_dimension m = cm_unit_dimension n \<and>
     cm_definition m = cm_definition n \<and> mset (cm_includes m) = mset (cm_includes n) \<and>
     mset (cm_excludes m) = mset (cm_excludes n))"

lemma sort_eq_iff_mset: "sort xs = sort ys \<longleftrightarrow> mset xs = mset (ys :: 'a::linorder list)"
  by (metis mset_sort properties_for_sort sorted_sort)

lemma payload_eq_iff:
  "canonical_json_bytes (payload m fs) = canonical_json_bytes (payload n fs) \<longleftrightarrow>
    (\<forall>f\<in>set fs. sort_keys (if f \<in> {''includes'', ''excludes''}
        then JArr (map JStr (sort (json_strings (the (map_of (model_dump m) f)))))
        else the (map_of (model_dump m) f)) =
      sort_keys (if f \<in> {''includes'', ''excludes''}
        then JArr (map JStr (sort (json_strings (the (map_of (model_dump n) f)))))
        else the (map_of (model_dump n) f)))"
  unfolding canonical_json_inject payload_def Let_def by (rule sorted_object_eq)

lemma definition_payload_iff:
  "canonical_json_bytes (payload m DEFINITION_HASH_FIELDS) =
     canonical_json_bytes (payload n DEFINITION_HASH_FIELDS) \<longleftrightarrow> same_definition m n"
  unfolding payload_eq_iff DEFINITION_HASH_FIELDS_def
  by (simp add: model_dump_def sort_eq_iff_mset same_definition_def del: json_strings.simps sort_keys.simps(5) list.map)

lemma duplicate_payload_iff:
  "canonical_json_bytes (payload m DUPLICATE_PAYLOAD_FIELDS) =
     canonical_json_bytes (payload n DUPLICATE_PAYLOAD_FIELDS) \<longleftrightarrow>
   same_definition (m\<lparr>cm_key := []\<rparr>) (n\<lparr>cm_key := []\<rparr>)"
  unfolding payload_eq_iff DUPLICATE_PAYLOAD_FIELDS_def
  by (simp add: model_dump_def sort_eq_iff_mset same_definition_def del: json_strings.simps sort_keys.simps(5) list.map)

section \<open>Loading\<close>

datatype load_error =
    Not_Mapping nat
  | Invalid_Metric nat exn
  | Duplicate_Key string
  | Duplicate_Payload string string

record load_state =
  ls_metrics :: "canonical_metric list"
  ls_keys :: "string list"
  ls_payload_owners :: "(string \<times> string) list"
  ls_errors :: "load_error list"

record loaded_registry =
  lr_metrics :: "canonical_metric list"
  lr_semantic_registry_hash :: string

definition by_key :: "loaded_registry \<Rightarrow> (string \<times> canonical_metric) list" where
  "by_key r = map (\<lambda>m. (cm_key m, m)) (lr_metrics r)"

definition registry_get :: "loaded_registry \<Rightarrow> string \<Rightarrow> canonical_metric option" where
  "registry_get r key = map_of (rev (by_key r)) key"

definition load_item :: "(string \<Rightarrow> string) \<Rightarrow> nat \<Rightarrow> json \<Rightarrow> load_state \<Rightarrow> load_state" where
  "load_item sha index item st = (case item of
     JObj kvs \<Rightarrow>
       (case model_validate kvs of
          Inl e \<Rightarrow> st\<lparr>ls_errors := ls_errors st @ [Invalid_Metric index e]\<rparr>
        | Inr m \<Rightarrow>
            let errs1 = (if cm_key m \<in> set (ls_keys st) then [Duplicate_Key (cm_key m)] else []);
                sig = duplicate_payload_signature sha m
            in case map_of (ls_payload_owners st) sig of
                 Some owner \<Rightarrow> st\<lparr>ls_metrics := ls_metrics st @ [m], ls_keys := cm_key m # ls_keys st,
                   ls_errors := ls_errors st @ errs1 @ [Duplicate_Payload owner (cm_key m)]\<rparr>
               | None \<Rightarrow> st\<lparr>ls_metrics := ls_metrics st @ [m], ls_keys := cm_key m # ls_keys st,
                   ls_payload_owners := (sig, cm_key m) # ls_payload_owners st,
                   ls_errors := ls_errors st @ errs1\<rparr>)
   | _ \<Rightarrow> st\<lparr>ls_errors := ls_errors st @ [Not_Mapping index]\<rparr>)"

fun load_items :: "(string \<Rightarrow> string) \<Rightarrow> nat \<Rightarrow> json list \<Rightarrow> load_state \<Rightarrow> load_state" where
  "load_items sha index [] st = st"
| "load_items sha index (item # rest) st = load_items sha (Suc index) rest (load_item sha index item st)"

definition load_metrics :: "(string \<Rightarrow> string) \<Rightarrow> json \<Rightarrow> loaded_registry res" where
  "load_metrics sha raw = (case raw of
     JObj kvs \<Rightarrow>
       if \<exists>(k, _)\<in>set kvs. k \<noteq> ''metrics'' then Inl (RegistryValidationError ''unknown top-level fields'')
       else (case map_of kvs ''metrics'' of
          Some (JArr (item # items)) \<Rightarrow>
            let st = load_items sha 0 (item # items)
                  \<lparr>ls_metrics = [], ls_keys = [], ls_payload_owners = [], ls_errors = []\<rparr>
            in if ls_errors st \<noteq> [] then Inl (RegistryValidationError ''errors'')
               else let ordered = sort_key cm_key (ls_metrics st)
                    in Inr \<lparr>lr_metrics = ordered,
                            lr_semantic_registry_hash = semantic_registry_hash sha ordered\<rparr>
        | _ \<Rightarrow> Inl (RegistryValidationError ''metrics must be a non-empty list''))
   | _ \<Rightarrow> Inl (RegistryValidationError ''must be a mapping''))"

definition metric_item :: "json \<Rightarrow> canonical_metric res" where
  "metric_item item = (case item of JObj kvs \<Rightarrow> model_validate kvs | _ \<Rightarrow> Inl (ValueError ''not a mapping''))"

lemma load_items_errors_grow: "ls_errors st \<noteq> [] \<Longrightarrow> ls_errors (load_items sha n items st) \<noteq> []"
proof (induction items arbitrary: n st)
  case (Cons item items)
  have "ls_errors (load_item sha n item st) \<noteq> []"
    using Cons.prems by (auto simp: load_item_def Let_def split: json.splits sum.splits option.splits)
  then show ?case using Cons.IH by simp
qed simp

text \<open>While no error is recorded, the state is determined by the metrics collected so far.\<close>

definition clean_state :: "(string \<Rightarrow> string) \<Rightarrow> canonical_metric list \<Rightarrow> load_state" where
  "clean_state sha ms = \<lparr>ls_metrics = ms, ls_keys = rev (map cm_key ms),
     ls_payload_owners = rev (map (\<lambda>m. (duplicate_payload_signature sha m, cm_key m)) ms), ls_errors = []\<rparr>"

lemma map_of_rev_sig:
  "map_of (rev (map (\<lambda>m. (f m, g m)) ms)) x = None \<longleftrightarrow> x \<notin> f ` set ms"
  by (simp add: map_of_eq_None_iff image_image)

definition fresh_metric :: "(string \<Rightarrow> string) \<Rightarrow> canonical_metric list \<Rightarrow> canonical_metric \<Rightarrow> bool" where
  "fresh_metric sha ms m = (cm_key m \<notin> cm_key ` set ms \<and>
     duplicate_payload_signature sha m \<notin> duplicate_payload_signature sha ` set ms)"

lemma load_item_fresh:
  assumes "metric_item item = Inr m" and "fresh_metric sha ms m"
  shows "load_item sha n item (clean_state sha ms) = clean_state sha (ms @ [m])"
proof -
  obtain kvs where kvs: "item = JObj kvs" "model_validate kvs = Inr m"
    using assms(1) by (auto simp: metric_item_def split: json.splits)
  have "map_of (ls_payload_owners (clean_state sha ms)) (duplicate_payload_signature sha m) = None"
    using map_of_rev_sig [of "duplicate_payload_signature sha" cm_key ms] assms(2)
    by (simp add: clean_state_def fresh_metric_def)
  then show ?thesis
    using assms(2) by (simp add: kvs load_item_def Let_def clean_state_def fresh_metric_def)
qed

lemma load_item_stale:
  assumes "\<And>m. metric_item item = Inr m \<Longrightarrow> \<not> fresh_metric sha ms m"
  shows "ls_errors (load_item sha n item (clean_state sha ms)) \<noteq> []"
proof (cases "metric_item item")
  case (Inl e)
  then show ?thesis
    by (auto simp: load_item_def metric_item_def clean_state_def split: json.splits)
next
  case (Inr m)
  then obtain kvs where kvs: "item = JObj kvs" "model_validate kvs = Inr m"
    by (auto simp: metric_item_def split: json.splits)
  consider "cm_key m \<in> cm_key ` set ms"
    | "duplicate_payload_signature sha m \<in> duplicate_payload_signature sha ` set ms"
    using assms [OF Inr] by (auto simp: fresh_metric_def)
  then show ?thesis
  proof cases
    case 1
    then show ?thesis by (simp add: kvs load_item_def Let_def clean_state_def split: option.splits)
  next
    case 2
    then have "map_of (ls_payload_owners (clean_state sha ms)) (duplicate_payload_signature sha m) \<noteq> None"
      using map_of_rev_sig [of "duplicate_payload_signature sha" cm_key ms] by (simp add: clean_state_def)
    then show ?thesis by (auto simp: kvs load_item_def Let_def)
  qed
qed

definition distinct_metrics :: "(string \<Rightarrow> string) \<Rightarrow> canonical_metric list \<Rightarrow> bool" where
  "distinct_metrics sha ms =
     (distinct (map cm_key ms) \<and> distinct (map (duplicate_payload_signature sha) ms))"

lemma distinct_metrics_snoc:
  "distinct_metrics sha (ms @ [m]) \<longleftrightarrow> distinct_metrics sha ms \<and> fresh_metric sha ms m"
  by (auto simp: distinct_metrics_def fresh_metric_def)

lemma distinct_metrics_prefix: "distinct_metrics sha (ms @ ns) \<Longrightarrow> distinct_metrics sha ms"
  by (auto simp: distinct_metrics_def)

lemma load_items_clean:
  assumes "distinct_metrics sha ms"
  shows "ls_errors (load_items sha n items (clean_state sha ms)) = [] \<and>
     ls_metrics (load_items sha n items (clean_state sha ms)) = out \<longleftrightarrow>
   (\<exists>new. map_res metric_item items = Inr new \<and> out = ms @ new \<and> distinct_metrics sha (ms @ new))"
  using assms
proof (induction items arbitrary: n ms)
  case Nil
  then show ?case by (auto simp: clean_state_def)
next
  case (Cons item items)
  show ?case
  proof (cases "\<exists>m. metric_item item = Inr m \<and> fresh_metric sha ms m")
    case True
    then obtain m where m: "metric_item item = Inr m" "fresh_metric sha ms m" by blast
    have "distinct_metrics sha (ms @ [m])" using Cons.prems m(2) by (simp add: distinct_metrics_snoc)
    from Cons.IH [OF this, of "Suc n"] show ?thesis
      using m by (auto simp: load_item_fresh result_simps)
  next
    case False
    then have "ls_errors (load_item sha n item (clean_state sha ms)) \<noteq> []"
      by (intro load_item_stale) blast
    then have "ls_errors (load_items sha n (item # items) (clean_state sha ms)) \<noteq> []"
      by (simp add: load_items_errors_grow)
    moreover have "\<not> distinct_metrics sha (ms @ m # new)" if "metric_item item = Inr m" for m new
      using that False distinct_metrics_prefix [of sha "ms @ [m]" new] by (auto simp: distinct_metrics_snoc)
    ultimately show ?thesis by (auto simp: result_simps)
  qed
qed

lemma load_metrics_iff:
  "load_metrics sha raw = Inr r \<longleftrightarrow>
     (\<exists>kvs items ms. raw = JObj kvs \<and> fst ` set kvs \<subseteq> {''metrics''} \<and> map_of kvs ''metrics'' = Some (JArr items) \<and>
        items \<noteq> [] \<and> map_res metric_item items = Inr ms \<and> distinct_metrics sha ms \<and>
        r = \<lparr>lr_metrics = sort_key cm_key ms,
             lr_semantic_registry_hash = semantic_registry_hash sha (sort_key cm_key ms)\<rparr>)"
  (is "?L \<longleftrightarrow> ?R")
proof -
  have init: "\<lparr>ls_metrics = [], ls_keys = [], ls_payload_owners = [], ls_errors = []\<rparr> = clean_state sha []"
    by (simp add: clean_state_def)
  have dn: "distinct_metrics sha []" by (simp add: distinct_metrics_def)
  show ?thesis
  proof
    assume ?L
    then obtain kvs item items where raw: "raw = JObj kvs" "\<not> (\<exists>(k, _)\<in>set kvs. k \<noteq> ''metrics'')"
      "map_of kvs ''metrics'' = Some (JArr (item # items))"
      and ok: "ls_errors (load_items sha 0 (item # items) (clean_state sha [])) = []"
      and r: "r = (let ordered = sort_key cm_key (ls_metrics (load_items sha 0 (item # items) (clean_state sha [])))
          in \<lparr>lr_metrics = ordered, lr_semantic_registry_hash = semantic_registry_hash sha ordered\<rparr>)"
      unfolding load_metrics_def init
      by (auto simp: Let_def split: json.splits if_splits option.splits list.splits)
    from ok load_items_clean [OF dn, of 0 "item # items"] obtain new
      where "map_res metric_item (item # items) = Inr new" "distinct_metrics sha new"
        "ls_metrics (load_items sha 0 (item # items) (clean_state sha [])) = new" by auto
    then show ?R using raw r by (auto simp: Let_def)
  next
    assume ?R
    then obtain kvs items ms where R: "raw = JObj kvs" "fst ` set kvs \<subseteq> {''metrics''}"
      "map_of kvs ''metrics'' = Some (JArr items)" "items \<noteq> []" "map_res metric_item items = Inr ms"
      "distinct_metrics sha ms" "r = \<lparr>lr_metrics = sort_key cm_key ms,
             lr_semantic_registry_hash = semantic_registry_hash sha (sort_key cm_key ms)\<rparr>" by blast
    then have "ls_errors (load_items sha 0 items (clean_state sha [])) = [] \<and>
      ls_metrics (load_items sha 0 items (clean_state sha [])) = ms"
      using load_items_clean [OF dn, of 0 items] by simp
    moreover have "\<not> (\<exists>(k, _)\<in>set kvs. k \<noteq> ''metrics'')" using R(2) by auto
    ultimately show ?L
      using R by (cases items) (simp_all add: load_metrics_def init Let_def del: load_items.simps)
  qed
qed

section \<open>Properties\<close>

lemma metric_item_wf: "metric_item item = Inr m \<Longrightarrow> metric_wf m"
  by (cases item) (simp_all add: metric_item_def model_validate_wf)

lemma map_res_metric_wf: "map_res metric_item items = Inr ms \<Longrightarrow> m \<in> set ms \<Longrightarrow> metric_wf m"
  by (drule (1) map_res_set) (elim bexE, rule metric_item_wf)

lemma registry_get_mem:
  assumes "distinct (map cm_key (lr_metrics r))" and "m \<in> set (lr_metrics r)"
  shows "registry_get r (cm_key m) = Some m"
proof -
  have "distinct (map fst (rev (by_key r)))" using assms(1) by (simp add: by_key_def o_def rev_map [symmetric])
  then show ?thesis using assms(2) by (simp add: registry_get_def by_key_def)
qed

text \<open>
  The loader accepts a parsed metrics file exactly when its only top-level field is a
  non-empty list of metrics that all validate, with pairwise different keys and pairwise different
  definition payloads; the result is then those metrics in key order with their semantic digest.
\<close>

theorem load_metrics_accepts_iff:
  "load_metrics sha raw = Inr r \<longleftrightarrow>
     (\<exists>kvs items ms. raw = JObj kvs \<and> fst ` set kvs \<subseteq> {''metrics''} \<and> map_of kvs ''metrics'' = Some (JArr items) \<and>
        items \<noteq> [] \<and> map_res metric_item items = Inr ms \<and> distinct (map cm_key ms) \<and>
        distinct (map (duplicate_payload_signature sha) ms) \<and>
        r = \<lparr>lr_metrics = sort_key cm_key ms,
             lr_semantic_registry_hash = semantic_registry_hash sha (sort_key cm_key ms)\<rparr>)"
  unfolding load_metrics_iff distinct_metrics_def by blast

text \<open>
  In a loaded registry every metric satisfies its contract (key pattern, non-blank
  texts, duplicate-free non-empty lists, period type and unit dimension of its statement), the
  keys are strictly ascending, and looking a metric up by its key returns it.
\<close>

theorem load_metrics_sound:
  assumes "load_metrics sha raw = Inr r"
  shows "sorted (map cm_key (lr_metrics r)) \<and> distinct (map cm_key (lr_metrics r)) \<and>
    (\<forall>m\<in>set (lr_metrics r). metric_wf m \<and> registry_get r (cm_key m) = Some m)"
proof -
  obtain items ms where L: "map_res metric_item items = Inr ms" "distinct_metrics sha ms"
    "lr_metrics r = sort_key cm_key ms"
    using assms by (auto simp: load_metrics_iff)
  have "distinct (map cm_key (lr_metrics r))"
    using L by (simp add: distinct_metrics_def distinct_map)
  then show ?thesis
    using L registry_get_mem [of r] map_res_metric_wf by (auto simp: distinct_metrics_def)
qed

definition example_metric :: "string \<Rightarrow> json" where
  "example_metric key = JObj [(''key'', JStr key), (''name'', JStr ''Assets''), (''kind'', JStr ''reported''),
     (''statement'', JStr ''balance_sheet''), (''period_type'', JStr ''instant''),
     (''value_kind'', JStr ''numeric''), (''unit_dimension'', JStr ''monetary''),
     (''definition'', JStr ''total''), (''includes'', JArr [JStr ''a'']), (''excludes'', JArr [JStr ''b''])]"

definition example_assets :: canonical_metric where
  "example_assets = \<lparr>cm_key = ''assets'', cm_name = ''Assets'', cm_kind = Reported,
     cm_statement = Balance_Sheet, cm_period_type = Instant, cm_value_kind = Numeric,
     cm_unit_dimension = Monetary, cm_definition = ''total'', cm_includes = [''a''], cm_excludes = [''b'']\<rparr>"

lemma example_metric_item: "metric_item (example_metric ''assets'') = Inr example_assets"
  by code_simp

lemma example_load:
  "load_metrics sha (JObj [(''metrics'', JArr [example_metric ''assets''])]) =
     Inr \<lparr>lr_metrics = [example_assets], lr_semantic_registry_hash = semantic_registry_hash sha [example_assets]\<rparr>"
  by (subst load_metrics_iff) (simp add: example_metric_item distinct_metrics_def)

theorem load_metrics_sound_witness:
  "load_metrics id (JObj [(''metrics'', JArr [example_metric ''assets''])]) =
     Inr \<lparr>lr_metrics = [example_assets], lr_semantic_registry_hash = semantic_registry_hash id [example_assets]\<rparr> \<and>
   metric_wf example_assets"
  using load_metrics_sound [OF example_load [of id]] example_load [of id] by simp

text \<open>
  When the digest has no collisions, two metrics have the same definition hash exactly
  when they agree on everything but the display name, their include and exclude lists up to order.
\<close>

theorem definition_hash_eq_iff:
  assumes "inj sha"
  shows "definition_hash sha m = definition_hash sha n \<longleftrightarrow> same_definition m n"
  using assms by (simp add: definition_hash_def inj_eq definition_payload_iff del: canonical_json_inject)

theorem definition_hash_eq_iff_witness:
  "definition_hash id example_assets =
     definition_hash id (example_assets\<lparr>cm_name := ''Total assets''\<rparr>) \<and>
   definition_hash id example_assets \<noteq> definition_hash id (example_assets\<lparr>cm_definition := ''net''\<rparr>)"
  using definition_hash_eq_iff [of id example_assets "example_assets\<lparr>cm_name := ''Total assets''\<rparr>"]
    definition_hash_eq_iff [of id example_assets "example_assets\<lparr>cm_definition := ''net''\<rparr>"]
  by (simp add: same_definition_def example_assets_def)

definition definition_class :: "canonical_metric \<Rightarrow> canonical_metric" where
  "definition_class m = m\<lparr>cm_name := [], cm_includes := sort (cm_includes m), cm_excludes := sort (cm_excludes m)\<rparr>"

lemma definition_class_eq: "definition_class m = definition_class n \<longleftrightarrow> same_definition m n"
  by (cases m; cases n; cases "cm_kind m"; cases "cm_kind n"; cases "cm_value_kind m"; cases "cm_value_kind n")
     (auto simp: definition_class_def same_definition_def sort_eq_iff_mset)

text \<open>
  When the digest has no collisions, the semantic registry hash identifies the multiset
  of metric definitions: it ignores the order of the metrics, their display names and the order
  inside their lists, and nothing else.
\<close>

theorem semantic_registry_hash_eq_iff:
  assumes "inj sha"
  shows "semantic_registry_hash sha ms = semantic_registry_hash sha ns \<longleftrightarrow>
    mset (map definition_class ms) = mset (map definition_class ns)"
proof -
  have dh: "definition_hash sha a = definition_hash sha b \<longleftrightarrow> definition_class a = definition_class b" for a b
    using assms by (simp add: definition_hash_def inj_eq definition_payload_iff definition_class_eq
        del: canonical_json_inject)
  define g where "g h = definition_class (SOME m. definition_hash sha m = h)" for h
  define f where "f c = definition_hash sha (SOME m. definition_class m = c)" for c
  have g: "g (definition_hash sha m) = definition_class m" for m
    unfolding g_def using dh by (metis (mono_tags, lifting) someI_ex)
  have f: "f (definition_class m) = definition_hash sha m" for m
    unfolding f_def using dh by (metis (mono_tags, lifting) someI_ex)
  have "semantic_registry_hash sha ms = semantic_registry_hash sha ns \<longleftrightarrow>
    mset (map (definition_hash sha) ms) = mset (map (definition_hash sha) ns)"
    using assms by (simp add: semantic_registry_hash_def inj_eq sort_eq_iff_mset del: sort_keys.simps(5) mset_map)
  also have "\<dots> \<longleftrightarrow> mset (map definition_class ms) = mset (map definition_class ns)"
  proof
    assume "mset (map (definition_hash sha) ms) = mset (map (definition_hash sha) ns)"
    then have "image_mset g (mset (map (definition_hash sha) ms)) = image_mset g (mset (map (definition_hash sha) ns))"
      by simp
    then show "mset (map definition_class ms) = mset (map definition_class ns)"
      by (simp add: image_mset.compositionality o_def g)
  next
    assume "mset (map definition_class ms) = mset (map definition_class ns)"
    then have "image_mset f (mset (map definition_class ms)) = image_mset f (mset (map definition_class ns))"
      by simp
    then show "mset (map (definition_hash sha) ms) = mset (map (definition_hash sha) ns)"
      by (simp add: image_mset.compositionality o_def f)
  qed
  finally show ?thesis .
qed

theorem semantic_registry_hash_eq_iff_witness:
  "semantic_registry_hash id [example_assets, example_assets\<lparr>cm_key := ''equity''\<rparr>] =
     semantic_registry_hash id [example_assets\<lparr>cm_key := ''equity'', cm_name := ''Equity''\<rparr>, example_assets]"
  by (subst semantic_registry_hash_eq_iff)
     (simp_all add: definition_class_def example_assets_def add_mset_commute)

end
