(* ===== verification/Interval.thy ===== *)
theory Interval
  imports Prelude
begin

text \<open>
  \<^verbatim>\<open>src/edgar/registry/interval.py\<close>: half-bounded report-period intervals and mapping scopes, over
  calendar dates (\<^verbatim>\<open>datetime.date\<close>: years 1 to 9999, compared lexicographically).

  \<open>intervals_overlap\<close> replaces an absent endpoint by \<^verbatim>\<open>date.min\<close> or \<^verbatim>\<open>date.max\<close>; the properties show
  that it decides whether some calendar date lies in both intervals, and that \<open>scopes_overlap\<close>
  decides whether two mapping scopes can apply to one report.
\<close>

section \<open>Calendar dates\<close>

datatype date = Date (d_year: nat) (d_month: nat) (d_day: nat)

definition is_leap :: "nat \<Rightarrow> bool" where
  "is_leap y = (y mod 4 = 0 \<and> (y mod 100 \<noteq> 0 \<or> y mod 400 = 0))"

definition days_in_month :: "nat \<Rightarrow> nat \<Rightarrow> nat" where
  "days_in_month y m =
     (if m = 2 then (if is_leap y then 29 else 28) else if m \<in> {4, 6, 9, 11} then 30 else 31)"

definition valid_date :: "date \<Rightarrow> bool" where
  "valid_date d = (1 \<le> d_year d \<and> d_year d \<le> 9999 \<and> 1 \<le> d_month d \<and> d_month d \<le> 12 \<and>
     1 \<le> d_day d \<and> d_day d \<le> days_in_month (d_year d) (d_month d))"

definition date_min :: date where "date_min = Date 1 1 1"

definition date_max :: date where "date_max = Date 9999 12 31"

abbreviation date_key :: "date \<Rightarrow> nat \<times> nat \<times> nat" where
  "date_key d \<equiv> (d_year d, d_month d, d_day d)"

instantiation date :: linorder
begin

definition less_eq_date :: "date \<Rightarrow> date \<Rightarrow> bool" where
  "less_eq_date a b = (date_key a \<le> date_key b)"

definition less_date :: "date \<Rightarrow> date \<Rightarrow> bool" where
  "less_date a b = (date_key a < date_key b)"

instance
proof
  fix a b :: date
  show "(a < b) = (a \<le> b \<and> \<not> b \<le> a)" by (auto simp: less_eq_date_def less_date_def)
  show "a \<le> b \<Longrightarrow> b \<le> a \<Longrightarrow> a = b"
    by (cases a; cases b) (auto simp: less_eq_date_def split: if_splits)
  show "a \<le> b \<or> b \<le> a" by (auto simp: less_eq_date_def)
qed (auto simp: less_eq_date_def)

end

lemma valid_date_bounds: "valid_date d \<Longrightarrow> date_min \<le> d \<and> d \<le> date_max"
  by (auto simp: valid_date_def date_min_def date_max_def less_eq_date_def days_in_month_def
      split: if_splits)

lemma date_min_valid [simp]: "valid_date date_min" "valid_date date_max"
  by (simp_all add: valid_date_def date_min_def date_max_def days_in_month_def)

section \<open>Intervals and scopes\<close>

datatype scope_kind = Global | Issuer

definition interval_contains :: "date option \<Rightarrow> date option \<Rightarrow> date option \<Rightarrow> bool" where
  "interval_contains valid_from valid_to report_period_end =
     (if valid_from = None \<and> valid_to = None then True
      else case report_period_end of
        None \<Rightarrow> False
      | Some d \<Rightarrow>
          if (case valid_from of None \<Rightarrow> False | Some f \<Rightarrow> d < f) then False
          else \<not> (case valid_to of None \<Rightarrow> False | Some t \<Rightarrow> t < d))"

definition or_else :: "'a option \<Rightarrow> 'a \<Rightarrow> 'a" where
  "or_else x d = (case x of None \<Rightarrow> d | Some v \<Rightarrow> v)"

definition intervals_overlap :: "date option \<Rightarrow> date option \<Rightarrow> date option \<Rightarrow> date option \<Rightarrow> bool" where
  "intervals_overlap left_from left_to right_from right_to =
     (let left_start = or_else left_from date_min; left_end = or_else left_to date_max;
          right_start = or_else right_from date_min; right_end = or_else right_to date_max
      in left_start \<le> right_end \<and> right_start \<le> left_end)"

record scope =
  sc_kind :: scope_kind
  sc_issuer_cik :: "string option"
  sc_from :: "date option"
  sc_to :: "date option"

definition scopes_overlap :: "scope \<Rightarrow> scope \<Rightarrow> bool" where
  "scopes_overlap l r =
     (if sc_kind l = Issuer \<and> sc_kind r = Issuer \<and> sc_issuer_cik l \<noteq> sc_issuer_cik r then False
      else intervals_overlap (sc_from l) (sc_to l) (sc_from r) (sc_to r))"

text \<open>What the database constraints guarantee of a stored scope.\<close>

definition valid_interval :: "date option \<Rightarrow> date option \<Rightarrow> bool" where
  "valid_interval f t = (pred_option valid_date f \<and> pred_option valid_date t \<and>
     (case (f, t) of (Some a, Some b) \<Rightarrow> a \<le> b | _ \<Rightarrow> True))"

definition valid_scope :: "scope \<Rightarrow> bool" where
  "valid_scope s = ((sc_kind s = Global \<longleftrightarrow> sc_issuer_cik s = None) \<and> valid_interval (sc_from s) (sc_to s))"

text \<open>A scope covers a report of an issuer whose period ends on a date.\<close>

definition scope_covers :: "scope \<Rightarrow> string \<Rightarrow> date option \<Rightarrow> bool" where
  "scope_covers s cik period_end =
     ((sc_kind s = Issuer \<longrightarrow> sc_issuer_cik s = Some cik) \<and>
      interval_contains (sc_from s) (sc_to s) period_end)"

lemma interval_contains_Some:
  "interval_contains f t (Some d) \<longleftrightarrow>
     (\<forall>a. f = Some a \<longrightarrow> a \<le> d) \<and> (\<forall>b. t = Some b \<longrightarrow> d \<le> b)"
  by (cases f; cases t) (auto simp: interval_contains_def)

lemma interval_contains_bounds:
  "valid_date d \<Longrightarrow> interval_contains f t (Some d) \<longleftrightarrow> or_else f date_min \<le> d \<and> d \<le> or_else t date_max"
  using valid_date_bounds [of d] by (auto simp: interval_contains_Some or_else_def split: option.splits)

lemma valid_interval_bounds:
  assumes "valid_interval f t"
  shows "valid_date (or_else f date_min) \<and> valid_date (or_else t date_max) \<and>
         or_else f date_min \<le> or_else t date_max"
  using assms valid_date_bounds by (auto simp: valid_interval_def or_else_def split: option.splits)

lemma overlap_iff_common_date:
  assumes "valid_interval f t" and "valid_interval f' t'"
  shows "intervals_overlap f t f' t' \<longleftrightarrow>
    (\<exists>d. valid_date d \<and> interval_contains f t (Some d) \<and> interval_contains f' t' (Some d))"
proof -
  note b = valid_interval_bounds [OF assms(1)] valid_interval_bounds [OF assms(2)]
  have "valid_date (max (or_else f date_min) (or_else f' date_min))"
    using b by (simp add: max_def)
  then show ?thesis
    using b by (auto simp: intervals_overlap_def interval_contains_bounds
        intro: order_trans exI [of _ "max (or_else f date_min) (or_else f' date_min)"])
qed

text \<open>
  Two stored intervals overlap in the sense of the code exactly when some calendar
  date is contained in both, absent endpoints being unbounded.
\<close>

theorem intervals_overlap_iff:
  assumes "valid_interval f t" and "valid_interval f' t'"
  shows "intervals_overlap f t f' t' \<longleftrightarrow>
    (\<exists>d. valid_date d \<and> interval_contains f t (Some d) \<and> interval_contains f' t' (Some d))"
  using assms by (rule overlap_iff_common_date)

theorem intervals_overlap_iff_witness:
  "intervals_overlap (Some (Date 2023 1 1)) None None (Some (Date 2023 1 1)) \<and>
   (\<exists>d. valid_date d \<and> interval_contains (Some (Date 2023 1 1)) None (Some d) \<and>
      interval_contains None (Some (Date 2023 1 1)) (Some d))"
proof -
  have v: "valid_interval (Some (Date 2023 1 1)) None" "valid_interval None (Some (Date 2023 1 1))"
    by (simp_all add: valid_interval_def valid_date_def days_in_month_def)
  have "intervals_overlap (Some (Date 2023 1 1)) None None (Some (Date 2023 1 1))"
    by (simp add: intervals_overlap_def or_else_def date_min_def date_max_def less_eq_date_def)
  then show ?thesis using intervals_overlap_iff [OF v] by blast
qed

text \<open>
  Two stored mapping scopes overlap in the sense of the code exactly when some issuer
  has a report date that both scopes cover.
\<close>

theorem scopes_overlap_iff:
  assumes "valid_scope l" and "valid_scope r"
  shows "scopes_overlap l r \<longleftrightarrow>
    (\<exists>cik d. valid_date d \<and> scope_covers l cik (Some d) \<and> scope_covers r cik (Some d))"
proof -
  have v: "valid_interval (sc_from l) (sc_to l)" "valid_interval (sc_from r) (sc_to r)"
    using assms by (auto simp: valid_scope_def)
  have dates: "intervals_overlap (sc_from l) (sc_to l) (sc_from r) (sc_to r) \<longleftrightarrow>
    (\<exists>d. valid_date d \<and> interval_contains (sc_from l) (sc_to l) (Some d) \<and>
       interval_contains (sc_from r) (sc_to r) (Some d))"
    using v by (rule overlap_iff_common_date)
  have ciks: "(sc_kind l = Issuer \<and> sc_kind r = Issuer \<and> sc_issuer_cik l \<noteq> sc_issuer_cik r) \<longleftrightarrow>
    \<not> (\<exists>cik. (sc_kind l = Issuer \<longrightarrow> sc_issuer_cik l = Some cik) \<and>
           (sc_kind r = Issuer \<longrightarrow> sc_issuer_cik r = Some cik))"
    using assms unfolding valid_scope_def
    by (cases "sc_kind l"; cases "sc_kind r") auto
  show ?thesis
    unfolding scopes_overlap_def scope_covers_def dates ciks by auto
qed

theorem scopes_overlap_iff_witness:
  "\<not> scopes_overlap \<lparr>sc_kind = Issuer, sc_issuer_cik = Some ''0000320193'', sc_from = None, sc_to = None\<rparr>
        \<lparr>sc_kind = Issuer, sc_issuer_cik = Some ''0000789019'', sc_from = None, sc_to = None\<rparr> \<and>
   \<not> (\<exists>cik d. valid_date d \<and>
      scope_covers \<lparr>sc_kind = Issuer, sc_issuer_cik = Some ''0000320193'', sc_from = None, sc_to = None\<rparr> cik (Some d) \<and>
      scope_covers \<lparr>sc_kind = Issuer, sc_issuer_cik = Some ''0000789019'', sc_from = None, sc_to = None\<rparr> cik (Some d))"
  (is "\<not> scopes_overlap ?l ?r \<and> _")
proof -
  have v: "valid_scope ?l" "valid_scope ?r" by (simp_all add: valid_scope_def valid_interval_def)
  have "\<not> scopes_overlap ?l ?r" by (simp add: scopes_overlap_def)
  then show ?thesis using scopes_overlap_iff [OF v] by blast
qed

end
