(* ===== verification/Identifiers.thy ===== *)
theory Identifiers
  imports Digits
begin

text \<open>
  \<^verbatim>\<open>src/edgar/domain/identifiers.py\<close> and \<^verbatim>\<open>domain/concept_id.py\<close>: CIK, accession, UUID and logical-path
  validation, archive URLs, and Clark names; with \<^verbatim>\<open>ExpandedQName\<close> of \<^verbatim>\<open>xbrl/records.py\<close> and the
  serialized-identifier checks of \<^verbatim>\<open>domain/validation.py\<close>.

  The interface \<open>normalizer\<close> is the contract the persistence layer relies on: a validator that
  returns a canonical form is idempotent, so the "serialized value must be canonical" checks
  accept exactly the validator's range.
\<close>

section \<open>The interface of canonicalising validators\<close>

locale normalizer =
  fixes norm :: "string \<Rightarrow> string res"
  assumes norm_idem: "norm s = Inr t \<Longrightarrow> norm t = Inr t"
begin

lemma fixpoint_iff_range: "norm t = Inr t \<longleftrightarrow> (\<exists>s. norm s = Inr t)"
  using norm_idem by blast

lemma canonical_check:
  "res_bind (norm s) (\<lambda>t. if s \<noteq> t then Inl e else Inr s) = Inr u \<longleftrightarrow>
     u = s \<and> (\<exists>x. norm x = Inr s)"
  using norm_idem by (cases "norm s") auto

lemma canonical_check_of_output:
  "norm s = Inr t \<Longrightarrow> res_bind (norm t) (\<lambda>t'. if t \<noteq> t' then Inl e else Inr t) = Inr t"
  using norm_idem by simp

end

section \<open>Definitions\<close>

definition backslash :: char where
  "backslash = CHR 0x5C"

definition SUPPORTED_FORMS :: "string list" where
  "SUPPORTED_FORMS = [''10-K'', ''10-K/A'', ''10-Q'', ''10-Q/A'']"

definition is_hex :: "char \<Rightarrow> bool" where
  "is_hex c = (c \<in> set ''0123456789abcdef'')"

definition cik_digits_re :: "string \<Rightarrow> bool" where
  "cik_digits_re s = (1 \<le> length s \<and> length s \<le> 10 \<and> list_all is_digit s)"

definition accession_re :: "string \<Rightarrow> bool" where
  "accession_re s = (length s = 20 \<and> list_all is_digit (take 10 s) \<and> s ! 10 = CHR ''-'' \<and>
     list_all is_digit (take 2 (drop 11 s)) \<and> s ! 13 = CHR ''-'' \<and> list_all is_digit (drop 14 s))"

text \<open>
  \<^verbatim>\<open>uuid.UUID(hex=name).version\<close> is 4 when the variant bits are RFC 4122 (hex digit 16 is one of
  8, 9, a, b) and the version nibble (hex digit 12) is 4.
\<close>

definition validate_uuid4_hex :: "string \<Rightarrow> string res" where
  "validate_uuid4_hex name =
     (if length name \<noteq> 32 \<or> (\<exists>c\<in>set name. \<not> is_hex c)
      then Inl (ValueError ''uuid4 hex must be 32 lowercase hex chars'')
      else if \<not> (name ! 16 \<in> set ''89ab'' \<and> name ! 12 = CHR ''4'')
      then Inl (ValueError ''uuid must be version 4'')
      else Inr name)"

definition validate_cik :: "string \<Rightarrow> string res" where
  "validate_cik cik =
     (if py_strip cik \<noteq> cik \<or> cik = [] then Inl (ValueError ''CIK rejected (whitespace or empty)'')
      else if \<exists>c\<in>set cik. c \<in> {CHR ''/'', backslash, CHR ''.''}
      then Inl (ValueError ''CIK rejected (path characters)'')
      else if startswith cik ''+'' \<or> startswith cik ''-'' then Inl (ValueError ''CIK rejected (signed)'')
      else if \<not> cik_digits_re cik then Inl (ValueError ''CIK must be 1-10 decimal digits'')
      else Inr (zfill 10 (show_nat (read_digits cik))))"

definition validate_accession :: "string \<Rightarrow> string res" where
  "validate_accession acc =
     (if py_strip acc \<noteq> acc then Inl (ValueError ''accession rejected (surrounding whitespace)'')
      else if \<not> accession_re acc then Inl (ValueError ''accession must match'')
      else Inr acc)"

definition accession_to_cik :: "string \<Rightarrow> string res" where
  "accession_to_cik acc = res_bind (validate_accession acc) (\<lambda>a. Inr (before_first CHR ''-'' a))"

definition assert_cik_accession_consistent :: "string \<Rightarrow> string \<Rightarrow> unit res" where
  "assert_cik_accession_consistent cik acc =
     res_bind (validate_cik cik) (\<lambda>cik_n.
     res_bind (validate_accession acc) (\<lambda>a.
       if before_first CHR ''-'' a \<noteq> cik_n
       then Inl (ValueError ''accession CIK prefix does not match normalized CIK'') else Inr ()))"

definition cik_int :: "string \<Rightarrow> nat res" where
  "cik_int cik = res_bind (validate_cik cik) (\<lambda>c. Inr (read_digits c))"

definition accession_dashless :: "string \<Rightarrow> string res" where
  "accession_dashless acc =
     res_bind (validate_accession acc) (\<lambda>a. Inr (filter (\<lambda>c. c \<noteq> CHR ''-'') a))"

definition accession_archive_base :: "string \<Rightarrow> string \<Rightarrow> string res" where
  "accession_archive_base cik acc =
     res_bind (assert_cik_accession_consistent cik acc) (\<lambda>_.
     res_bind (cik_int cik) (\<lambda>n.
     res_bind (accession_dashless acc) (\<lambda>d.
       Inr (''https://www.sec.gov/Archives/edgar/data/'' @ show_nat n @ ''/'' @ d @ ''/''))))"

definition submissions_url :: "string \<Rightarrow> string res" where
  "submissions_url cik =
     res_bind (validate_cik cik) (\<lambda>c. Inr (''https://data.sec.gov/submissions/CIK'' @ c @ ''.json''))"

definition companyfacts_url :: "string \<Rightarrow> string res" where
  "companyfacts_url cik =
     res_bind (validate_cik cik)
       (\<lambda>c. Inr (''https://data.sec.gov/api/xbrl/companyfacts/CIK'' @ c @ ''.json''))"

definition sanitize_basename :: "string \<Rightarrow> string" where
  "sanitize_basename name =
     (let cleaned = py_strip (last (split_on CHR ''/''
                      (map (\<lambda>c. if c = backslash then CHR ''/'' else c) name)))
      in if cleaned = [] \<or> cleaned = ''.'' \<or> cleaned = ''..'' then ''unnamed''
         else let out = take 180 (map (\<lambda>c. if is_alnum c \<or> c \<in> set ''.-_'' then c else CHR ''_'') cleaned)
              in if out = [] then ''unnamed'' else out)"

definition validate_logical_path :: "string \<Rightarrow> string res" where
  "validate_logical_path p =
     (if startswith p ''/'' \<or> startswith p [backslash] then Inl (ValueError ''absolute logical path rejected'')
      else if \<exists>q\<in>set (split_on CHR ''/'' p). q = [] \<or> q = ''.'' \<or> q = ''..''
      then Inl (ValueError ''unsafe logical path rejected'')
      else Inr p)"

text \<open>
  \<^verbatim>\<open>Path.resolve\<close> consults the filesystem, so it is the argument \<open>resolve\<close>: the absolute path as
  its list of parts.  \<^verbatim>\<open>relative_to\<close> succeeds when the root's parts are a prefix.
\<close>

definition assert_path_under :: "('p \<Rightarrow> string list) \<Rightarrow> 'p \<Rightarrow> 'p \<Rightarrow> string list res" where
  "assert_path_under resolve path root =
     (let resolved = resolve path; root_resolved = resolve root
      in if take (length root_resolved) resolved \<noteq> root_resolved then Inl (ValueError ''path escapes root'')
         else if resolved = root_resolved then Inl (ValueError ''path is not a strict descendant'')
         else Inr resolved)"

text \<open>Serialized identifiers (\<^verbatim>\<open>domain/validation.py\<close>) must already be in canonical form.\<close>

definition assert_canonical_serialized_cik :: "string \<Rightarrow> string res" where
  "assert_canonical_serialized_cik cik =
     res_bind (validate_cik cik) (\<lambda>normalized.
       if cik \<noteq> normalized then Inl (BundleStructureError ''noncanonical serialized CIK'') else Inr cik)"

definition assert_canonical_serialized_accession :: "string \<Rightarrow> string res" where
  "assert_canonical_serialized_accession acc =
     res_bind (validate_accession acc) (\<lambda>normalized.
       if acc \<noteq> normalized then Inl (BundleStructureError ''noncanonical serialized accession'')
       else Inr acc)"

definition clark_qname :: "string \<Rightarrow> string \<Rightarrow> string res" where
  "clark_qname namespace_uri local_name =
     (if namespace_uri = [] then Inl (ValueError ''namespace_uri must be non-empty'')
      else if local_name = [] then Inl (ValueError ''local_name must be non-empty'')
      else if CHR ''}'' \<in> set namespace_uri then Inl (ValueError ''namespace_uri must not contain brace'')
      else Inr (''{'' @ namespace_uri @ ''}'' @ local_name))"

text \<open>\<^verbatim>\<open>uuid5\<close> is the argument: a function of the namespace UUID and the name.\<close>

definition concept_id :: "(string \<Rightarrow> string \<Rightarrow> 'u) \<Rightarrow> string \<Rightarrow> string \<Rightarrow> 'u res" where
  "concept_id uuid5 namespace_uri local_name =
     res_bind (clark_qname namespace_uri local_name)
       (\<lambda>q. Inr (uuid5 ''a7c4e2f1-9b3d-4e8a-b6c5-1d2e3f4a5b6c'' q))"

record expanded_qname =
  eq_namespace_uri :: "string option"
  eq_local_name :: string

definition mk_expanded_qname :: "string option \<Rightarrow> string \<Rightarrow> expanded_qname res" where
  "mk_expanded_qname ns loc =
     (if loc = [] then Inl (ValueError ''local_name must be non-empty'')
      else if \<exists>c\<in>set loc. c \<in> set '':{}/ '' \<or> c \<in> {CHR 0x09, CHR 0x0D, CHR 0x0A}
      then Inl (ValueError ''local_name is not an NCName'')
      else if ns = Some [] then Inl (ValueError ''namespace_uri must be None or non-empty'')
      else Inr \<lparr>eq_namespace_uri = ns, eq_local_name = loc\<rparr>)"

definition clark :: "expanded_qname \<Rightarrow> string" where
  "clark q = (case eq_namespace_uri q of
     None \<Rightarrow> eq_local_name q
   | Some ns \<Rightarrow> ''{'' @ ns @ ''}'' @ eq_local_name q)"

definition from_clark :: "string \<Rightarrow> expanded_qname res" where
  "from_clark text =
     (if startswith text ''{''
      then (let body = tl text
            in if CHR ''}'' \<notin> set body then Inl (ValueError ''malformed Clark notation'')
               else mk_expanded_qname (Some (before_first CHR ''}'' body)) (after_first CHR ''}'' body))
      else mk_expanded_qname None text)"

section \<open>CIKs and accessions\<close>

lemma validate_cik_eq:
  assumes "cik_digits_re s"
  shows "validate_cik s = Inr (replicate (10 - length s) CHR ''0'' @ s)"
proof -
  have d: "\<forall>c\<in>set s. is_digit c" "s \<noteq> []" "length s \<le> 10"
    using assms by (auto simp: cik_digits_re_def list_all_iff)
  have ns: "py_strip s = s" using d(1) digit_not_sign by (intro py_strip_id) auto
  have nodig: "\<not> is_digit (CHR ''/'')" "\<not> is_digit backslash" "\<not> is_digit (CHR ''.'')"
    "\<not> is_digit (CHR ''+'')" "\<not> is_digit (CHR ''-'')"
    by (simp_all add: is_digit_def backslash_def)
  obtain c t where s: "s = c # t" using d(2) by (cases s) auto
  then have "\<not> startswith s ''+''" "\<not> startswith s ''-''"
    using d(1) nodig by (auto simp: startswith_def)
  moreover have "\<not> (\<exists>c\<in>set s. c \<in> {CHR ''/'', backslash, CHR ''.''})"
    using d(1) nodig by auto
  ultimately show ?thesis
    using ns d assms zfill_show_read [OF d] by (simp add: validate_cik_def)
qed

lemma validate_cik_Inr_iff:
  "validate_cik s = Inr t \<longleftrightarrow> cik_digits_re s \<and> t = replicate (10 - length s) CHR ''0'' @ s"
proof (cases "cik_digits_re s")
  case True
  then show ?thesis by (simp add: validate_cik_eq) blast
next
  case False
  then show ?thesis by (simp add: validate_cik_def)
qed

lemma zeros_digits: "list_all is_digit (replicate n CHR ''0'')"
  by (auto simp: list_all_iff is_digit_def)

lemma validate_cik_shape: "validate_cik s = Inr t \<Longrightarrow> length t = 10 \<and> list_all is_digit t"
  by (auto simp: validate_cik_Inr_iff cik_digits_re_def zeros_digits)

lemma ten_digits_canonical: "length t = 10 \<Longrightarrow> list_all is_digit t \<Longrightarrow> validate_cik t = Inr t"
  by (simp add: validate_cik_Inr_iff cik_digits_re_def)

lemma validate_accession_Inr_iff:
  "validate_accession s = Inr t \<longleftrightarrow> accession_re s \<and> t = s"
proof (cases "accession_re s")
  case True
  then have s: "length s = 20" "list_all is_digit (take 10 s)" "list_all is_digit (drop 14 s)"
    by (auto simp: accession_re_def)
  have nil: "s \<noteq> []" using s by auto
  have "hd s \<in> set (take 10 s)" using nil by (cases s) auto
  moreover have "last s \<in> set (drop 14 s)"
  proof -
    have "drop 14 s \<noteq> []" "last (drop 14 s) = last s" using s(1) by simp_all
    then show ?thesis by (metis last_in_set)
  qed
  ultimately have "\<not> is_space (hd s) \<and> \<not> is_space (last s)"
    using s(2,3) digit_not_sign by (auto simp: list_all_iff)
  then have "py_strip s = s" by (simp add: py_strip_def strip_by_fixed)
  then show ?thesis using True by (auto simp: validate_accession_def)
next
  case False
  then show ?thesis by (simp add: validate_accession_def)
qed

lemma accession_prefix:
  assumes "accession_re s"
  shows "before_first CHR ''-'' s = take 10 s"
proof -
  have len: "length s = 20" "s ! 10 = CHR ''-''" using assms by (auto simp: accession_re_def)
  have split: "s = take 10 s @ CHR ''-'' # drop (Suc 10) s"
    using id_take_nth_drop [of 10 s] len by simp
  have "\<forall>c\<in>set (take 10 s). c \<noteq> CHR ''-''"
    using assms digit_not_sign by (fastforce simp: accession_re_def list_all_iff)
  then have "takeWhile (\<lambda>c. c \<noteq> CHR ''-'') (take 10 s @ CHR ''-'' # drop (Suc 10) s) = take 10 s"
    by (subst takeWhile_append2) auto
  then show ?thesis
    unfolding before_first_def by (subst split)
qed

interpretation cik: normalizer validate_cik
  by unfold_locales (metis validate_cik_shape ten_digits_canonical)

interpretation accession: normalizer validate_accession
  by unfold_locales (simp add: validate_accession_Inr_iff)

interpretation logical_path: normalizer validate_logical_path
  by unfold_locales (auto simp: validate_logical_path_def split: if_splits)

interpretation uuid4: normalizer validate_uuid4_hex
  by unfold_locales (auto simp: validate_uuid4_hex_def split: if_splits)

section \<open>Properties\<close>

lemma digits_equal_read:
  assumes "length s = length t" "\<forall>c\<in>set s. is_digit c" "\<forall>c\<in>set t. is_digit c" "read_digits s = read_digits t"
  shows "s = t"
  using assms pad_digits_read [of s 0] pad_digits_read [of t 0] by simp

lemma read_zeros: "read_digits (replicate n CHR ''0'' @ s) = read_digits s"
proof -
  have "foldl (\<lambda>a c. 10 * a + digit_val c) 0 (replicate n CHR ''0'') = (0::nat)"
    by (induction n) (simp_all add: digit_val_def)
  then show ?thesis by (simp add: read_digits_def)
qed

text \<open>
  CIK validation normalises to ten decimal digits, and two spellings of a CIK have the
  same normal form exactly when they denote the same number.
\<close>

theorem validate_cik_canonical:
  assumes "validate_cik a = Inr x" and "validate_cik b = Inr y"
  shows "length x = 10 \<and> (\<forall>c\<in>set x. is_digit c) \<and> read_digits x = read_digits a \<and>
         (x = y \<longleftrightarrow> read_digits a = read_digits b)"
proof -
  have x: "x = replicate (10 - length a) CHR ''0'' @ a" "length x = 10" "\<forall>c\<in>set x. is_digit c"
    using assms(1) validate_cik_shape [of a x] by (auto simp: validate_cik_Inr_iff list_all_iff)
  have y: "y = replicate (10 - length b) CHR ''0'' @ b" "length y = 10" "\<forall>c\<in>set y. is_digit c"
    using assms(2) validate_cik_shape [of b y] by (auto simp: validate_cik_Inr_iff list_all_iff)
  have rx: "read_digits x = read_digits a" and ry: "read_digits y = read_digits b"
    by (simp_all only: x(1) y(1) read_zeros)
  have "x = y" if "read_digits a = read_digits b"
    using digits_equal_read [of x y] x y rx ry that by simp
  then show ?thesis using x rx ry by auto
qed

theorem validate_cik_canonical_witness:
  "validate_cik ''320193'' = Inr ''0000320193'' \<and> validate_cik ''0320193'' = Inr ''0000320193'' \<and>
   read_digits ''320193'' = read_digits ''0320193''"
proof -
  have a: "validate_cik ''320193'' = Inr ''0000320193''"
    by (simp add: validate_cik_Inr_iff cik_digits_re_def is_digit_def numeral_eq_Suc)
  have b: "validate_cik ''0320193'' = Inr ''0000320193''"
    by (simp add: validate_cik_Inr_iff cik_digits_re_def is_digit_def numeral_eq_Suc)
  show ?thesis using a b validate_cik_canonical [OF a b] by blast
qed

text \<open>
  The SEC archive base exists exactly for a valid CIK and an accession whose ten-digit
  prefix is the normalised CIK; then it is the data URL of the CIK without leading zeros and the
  eighteen accession digits.
\<close>

theorem accession_archive_base_iff:
  "accession_archive_base cik acc = Inr url \<longleftrightarrow>
     (\<exists>n. validate_cik cik = Inr n \<and> accession_re acc \<and> take 10 acc = n \<and>
        url = ''https://www.sec.gov/Archives/edgar/data/'' @ show_nat (read_digits cik) @ ''/'' @
              take 10 acc @ take 2 (drop 11 acc) @ drop 14 acc @ ''/'')"
proof (cases "accession_re acc")
  case True
  then have va: "validate_accession acc = Inr acc" by (simp add: validate_accession_Inr_iff)
  have len: "length acc = 20" and d: "acc ! 10 = CHR ''-''" "acc ! 13 = CHR ''-''"
    using True by (auto simp: accession_re_def)
  have "drop 11 acc = take 2 (drop 11 acc) @ drop 13 acc"
    using append_take_drop_id [of 2 "drop 11 acc", symmetric] by simp
  then have parts: "acc = take 10 acc @ [CHR ''-''] @ take 2 (drop 11 acc) @ [CHR ''-''] @ drop 14 acc"
    using id_take_nth_drop [of 10 acc] Cons_nth_drop_Suc [of 13 acc] len d by simp
  have nodash: "filter (\<lambda>c. c \<noteq> CHR ''-'') t = t" if "list_all is_digit t" for t
    using that digit_not_sign by (auto simp: list_all_iff filter_id_conv)
  have "filter (\<lambda>c. c \<noteq> CHR ''-'') acc =
      filter (\<lambda>c. c \<noteq> CHR ''-'') (take 10 acc @ [CHR ''-''] @ take 2 (drop 11 acc) @ [CHR ''-''] @ drop 14 acc)"
    using parts by (rule arg_cong)
  also have "\<dots> = take 10 acc @ take 2 (drop 11 acc) @ drop 14 acc"
    using True nodash unfolding accession_re_def filter_append by simp
  finally have dl: "filter (\<lambda>c. c \<noteq> CHR ''-'') acc = take 10 acc @ take 2 (drop 11 acc) @ drop 14 acc" .
  have rd: "read_digits n = read_digits cik" if "validate_cik cik = Inr n" for n
    using that by (simp add: validate_cik_Inr_iff read_zeros)
  show ?thesis
  proof (cases "validate_cik cik")
    case (Inr n)
    then show ?thesis
      using True va rd [OF Inr]
      by (auto simp: accession_archive_base_def assert_cik_accession_consistent_def accession_prefix
          cik_int_def accession_dashless_def dl)
  qed (simp add: accession_archive_base_def assert_cik_accession_consistent_def)
next
  case False
  then have "\<not> is_ok (validate_accession acc)"
    by (cases "validate_accession acc") (auto simp: validate_accession_Inr_iff)
  then show ?thesis
    using False by (cases "validate_accession acc"; cases "validate_cik cik")
      (auto simp: accession_archive_base_def assert_cik_accession_consistent_def)
qed

definition safe_char :: "char \<Rightarrow> char" where
  "safe_char c = (if is_alnum c \<or> c \<in> set ''.-_'' then c else CHR ''_'')"

lemma safe_char_range: "is_alnum (safe_char c) \<or> safe_char c \<in> set ''.-_''"
  by (simp add: safe_char_def)

lemma safe_char_dot: "safe_char c = CHR ''.'' \<longleftrightarrow> c = CHR ''.''"
  by (simp add: safe_char_def is_alnum_def)

lemma sanitize_basename_cases:
  "sanitize_basename name = ''unnamed'' \<or>
   (\<exists>t. sanitize_basename name = take 180 (map safe_char t) \<and> t \<noteq> [] \<and> t \<noteq> ''.'' \<and> t \<noteq> ''..'')"
  unfolding sanitize_basename_def Let_def safe_char_def by (simp split: if_splits) blast

lemma sanitize_basename_chars: "c \<in> set (sanitize_basename name) \<Longrightarrow> is_alnum c \<or> c \<in> set ''.-_''"
proof (rule disjE [OF sanitize_basename_cases [of name]])
  assume "c \<in> set (sanitize_basename name)" "sanitize_basename name = ''unnamed''"
  then show ?thesis by (auto simp: is_alnum_def is_lower_ascii_def)
next
  assume c: "c \<in> set (sanitize_basename name)"
    and "\<exists>t. sanitize_basename name = take 180 (map safe_char t) \<and> t \<noteq> [] \<and> t \<noteq> ''.'' \<and> t \<noteq> ''..''"
  then obtain t where "c \<in> set (take 180 (map safe_char t))" by auto
  then have "c \<in> set (map safe_char t)" by (rule in_set_takeD)
  then obtain d where "c = safe_char d" by auto
  then show ?thesis using safe_char_range by simp
qed

lemma sanitize_basename_not_dots: "sanitize_basename name \<noteq> ''.'' \<and> sanitize_basename name \<noteq> ''..''"
proof (rule disjE [OF sanitize_basename_cases [of name]])
  assume "\<exists>t. sanitize_basename name = take 180 (map safe_char t) \<and> t \<noteq> [] \<and> t \<noteq> ''.'' \<and> t \<noteq> ''..''"
  then obtain t where t: "sanitize_basename name = take 180 (map safe_char t)" "t \<noteq> ''.''" "t \<noteq> ''..''"
    by auto
  have short: "length t = length u" if "take 180 (map safe_char t) = u" "length u < 180" for u
    using that by (metis length_map length_take min_def nat_less_le)
  have "take 180 (map safe_char t) \<noteq> ''.''"
  proof
    assume eq: "take 180 (map safe_char t) = ''.''"
    then have "length t = 1" using short [OF eq] by simp
    then obtain x where "t = [x]" by (cases t) auto
    then show False using eq t by (simp add: safe_char_dot)
  qed
  moreover have "take 180 (map safe_char t) \<noteq> ''..''"
  proof
    assume eq: "take 180 (map safe_char t) = ''..''"
    then have "length t = Suc (Suc 0)" using short [OF eq] by simp
    then obtain x y where "t = [x, y]" by (auto simp: length_Suc_conv)
    then show False using eq t by (simp add: safe_char_dot)
  qed
  ultimately show ?thesis using t(1) by simp
qed simp

text \<open>
  A sanitised basename is a safe path segment: one to 180 characters, none of them a
  slash, a backslash or a space, and the name is a valid logical path of one segment.
\<close>

theorem sanitize_basename_safe:
  "sanitize_basename name \<noteq> [] \<and> length (sanitize_basename name) \<le> 180 \<and>
   CHR ''/'' \<notin> set (sanitize_basename name) \<and> backslash \<notin> set (sanitize_basename name) \<and>
   \<not> (\<exists>c\<in>set (sanitize_basename name). is_space c) \<and>
   validate_logical_path (sanitize_basename name) = Inr (sanitize_basename name)"
proof -
  let ?s = "sanitize_basename name"
  have ne: "?s \<noteq> []" and len: "length ?s \<le> 180"
    by (auto simp: sanitize_basename_def Let_def)
  have bad: "c \<notin> set ?s" if "\<not> is_alnum c" "c \<notin> set ''.-_''" for c
    using that sanitize_basename_chars by blast
  have slash: "CHR ''/'' \<notin> set ?s" "backslash \<notin> set ?s"
    by (rule bad; simp add: backslash_def is_alnum_def is_digit_def is_lower_ascii_def is_upper_ascii_def)+
  have space: "\<not> (\<exists>c\<in>set ?s. is_space c)"
  proof (clarsimp)
    fix c assume "c \<in> set ?s" "is_space c"
    then show False
      using sanitize_basename_chars [of c name]
      by (auto simp: is_space_def is_alnum_def is_digit_def is_lower_ascii_def is_upper_ascii_def Let_def)
  qed
  have seg: "split_on CHR ''/'' ?s = [?s]" using slash by (simp add: split_on_no_sep)
  have dots: "?s \<noteq> ''.'' \<and> ?s \<noteq> ''..''" by (rule sanitize_basename_not_dots)
  have hd: "\<not> startswith ?s ''/'' \<and> \<not> startswith ?s [backslash]"
    using slash by (auto simp: startswith_iff)
  show ?thesis
    using ne len slash space seg dots hd by (simp add: validate_logical_path_def)
qed

lemma before_after_first:
  "c \<notin> set a \<Longrightarrow> before_first c (a @ c # b) = a \<and> after_first c (a @ c # b) = b"
  by (induction a) (auto simp: before_first_def after_first_def)

lemma join_first: "c \<in> set s \<Longrightarrow> before_first c s @ c # after_first c s = s"
  by (induction s) (auto simp: before_first_def after_first_def)

lemma mk_expanded_qname_Inr:
  "mk_expanded_qname ns loc = Inr q \<Longrightarrow>
     eq_namespace_uri q = ns \<and> eq_local_name q = loc \<and> loc \<noteq> [] \<and> CHR ''{'' \<notin> set loc"
proof -
  assume L: "mk_expanded_qname ns loc = Inr q"
  let ?bad = "\<exists>c\<in>set loc. c \<in> set '':{}/ '' \<or> c \<in> {CHR 0x09, CHR 0x0D, CHR 0x0A}"
  from L have "\<not> ?bad" and "loc \<noteq> []" and "q = \<lparr>eq_namespace_uri = ns, eq_local_name = loc\<rparr>"
    unfolding mk_expanded_qname_def by (cases ?bad, simp_all only: if_True if_False split: if_splits) simp_all
  moreover have "CHR ''{'' \<in> set '':{}/ ''" by simp
  ultimately show ?thesis by auto
qed

lemma from_clark_clark:
  assumes "\<forall>ns. eq_namespace_uri q = Some ns \<longrightarrow> CHR ''}'' \<notin> set ns"
    and "mk_expanded_qname (eq_namespace_uri q) (eq_local_name q) = Inr q"
  shows "from_clark (clark q) = Inr q"
proof (cases "eq_namespace_uri q")
  case None
  have "\<not> startswith (eq_local_name q) ''{''"
    using mk_expanded_qname_Inr [OF assms(2)] by (auto simp: startswith_iff)
  then show ?thesis using None assms(2) by (simp add: from_clark_def clark_def)
next
  case (Some ns)
  then show ?thesis
    using assms before_after_first [of "CHR ''}''" ns "eq_local_name q"]
    by (simp add: from_clark_def clark_def startswith_def)
qed

text \<open>
  Clark notation round trips: reading a printed expanded name gives the name back, and
  printing a name that was read gives the text back, so the notation is injective.
\<close>

theorem from_clark_iff:
  "from_clark text = Inr q \<longleftrightarrow>
     text = clark q \<and> (\<forall>ns. eq_namespace_uri q = Some ns \<longrightarrow> CHR ''}'' \<notin> set ns) \<and>
     mk_expanded_qname (eq_namespace_uri q) (eq_local_name q) = Inr q"
proof
  assume L: "from_clark text = Inr q"
  show "text = clark q \<and> (\<forall>ns. eq_namespace_uri q = Some ns \<longrightarrow> CHR ''}'' \<notin> set ns) \<and>
     mk_expanded_qname (eq_namespace_uri q) (eq_local_name q) = Inr q"
  proof (cases "startswith text ''{''")
    case True
    then obtain body where tx: "text = CHR ''{'' # body" by (auto simp: startswith_iff)
    then have mk: "CHR ''}'' \<in> set body"
      "mk_expanded_qname (Some (before_first CHR ''}'' body)) (after_first CHR ''}'' body) = Inr q"
      using L True by (auto simp: from_clark_def Let_def split: if_splits)
    have "CHR ''}'' \<notin> set (before_first CHR ''}'' body)"
      by (auto simp: before_first_def dest: set_takeWhileD)
    then show ?thesis
      using mk mk_expanded_qname_Inr [OF mk(2)] join_first [OF mk(1)] tx by (simp add: clark_def)
  next
    case False
    then have mk: "mk_expanded_qname None text = Inr q" using L by (simp add: from_clark_def)
    then show ?thesis using mk_expanded_qname_Inr [OF mk] by (simp add: clark_def)
  qed
qed (use from_clark_clark in blast)

theorem from_clark_iff_witness:
  "from_clark ''{http://fasb.org/us-gaap/2024}Assets''
     = Inr \<lparr>eq_namespace_uri = Some ''http://fasb.org/us-gaap/2024'', eq_local_name = ''Assets''\<rparr>"
  using from_clark_iff [of "''{http://fasb.org/us-gaap/2024}Assets''"
      "\<lparr>eq_namespace_uri = Some ''http://fasb.org/us-gaap/2024'', eq_local_name = ''Assets''\<rparr>"]
  by (simp add: clark_def mk_expanded_qname_def)

end
