(* ===== verification/Decimals.thy ===== *)
theory Decimals
  imports Identifiers Complex_Main "HOL-Library.Multiset"
begin

text \<open>
  \<^verbatim>\<open>src/edgar/financials/decimals.py\<close>: OIM duplicate-fact consistency on closed intervals, over a
  model of Python's \<^verbatim>\<open>decimal.Decimal\<close>.

  A finite \<^verbatim>\<open>Decimal\<close> is \<open>Dec c e\<close>, the number \<open>c * 10 ^ e\<close>.  Comparison and equality are numeric
  (\<^verbatim>\<open>Decimal("1.0") == Decimal("1.00")\<close>).  Arithmetic rounds the exact result to the default context's
  28 significant digits, half to even.  Not represented: NaN and infinities (the source column
  holds finite numbers), the sign of zero, and exponents beyond the context's +-999999.
\<close>

section \<open>Python's Decimal\<close>

datatype decimal = Dec (dcoef: int) (dexp: int)

definition dval :: "decimal \<Rightarrow> rat" where
  "dval d = of_int (dcoef d) * 10 powi dexp d"

definition aligned :: "decimal \<Rightarrow> decimal \<Rightarrow> int \<times> int" where
  "aligned a b = (let m = min (dexp a) (dexp b)
     in (dcoef a * 10 ^ nat (dexp a - m), dcoef b * 10 ^ nat (dexp b - m)))"

definition dec_le :: "decimal \<Rightarrow> decimal \<Rightarrow> bool" where
  "dec_le a b = (let (x, y) = aligned a b in x \<le> y)"

definition dec_eq :: "decimal \<Rightarrow> decimal \<Rightarrow> bool" where
  "dec_eq a b = (let (x, y) = aligned a b in x = y)"

fun ndigits :: "nat \<Rightarrow> nat" where
  "ndigits n = (if n < 10 then 1 else Suc (ndigits (n div 10)))"

declare ndigits.simps [simp del]

definition round_half_even :: "nat \<Rightarrow> nat \<Rightarrow> nat" where
  "round_half_even n k = (let q = n div 10 ^ k; r = n mod 10 ^ k
     in if 10 ^ k < 2 * r \<or> (2 * r = 10 ^ k \<and> odd q) then Suc q else q)"

definition dec_prec :: nat where
  "dec_prec = 28"

definition dec_fix :: "decimal \<Rightarrow> decimal" where
  "dec_fix d = (let n = nat \<bar>dcoef d\<bar>; k = ndigits n - dec_prec
     in if k = 0 then d
        else let q = round_half_even n k
             in if q = 10 ^ dec_prec then Dec (sgn (dcoef d) * 10 ^ (dec_prec - 1)) (dexp d + int k + 1)
                else Dec (sgn (dcoef d) * int q) (dexp d + int k))"

definition dec_neg :: "decimal \<Rightarrow> decimal" where
  "dec_neg d = Dec (- dcoef d) (dexp d)"

definition dec_add_exact :: "decimal \<Rightarrow> decimal \<Rightarrow> decimal" where
  "dec_add_exact a b = (let (x, y) = aligned a b in Dec (x + y) (min (dexp a) (dexp b)))"

definition dec_add :: "decimal \<Rightarrow> decimal \<Rightarrow> decimal" where
  "dec_add a b = dec_fix (dec_add_exact a b)"

definition dec_sub :: "decimal \<Rightarrow> decimal \<Rightarrow> decimal" where
  "dec_sub a b = dec_add a (dec_neg b)"

definition dec_max :: "decimal \<Rightarrow> decimal \<Rightarrow> decimal" where
  "dec_max a b = (if dec_le b a then a else b)"

definition dec_min :: "decimal \<Rightarrow> decimal \<Rightarrow> decimal" where
  "dec_min a b = (if dec_le a b then a else b)"

text \<open>\<^verbatim>\<open>int(s)\<close>: surrounding whitespace, one sign, digits with single underscores between them.\<close>

definition py_int_body :: "string \<Rightarrow> nat option" where
  "py_int_body s =
     (if list_all (\<lambda>p. p \<noteq> [] \<and> list_all is_digit p) (split_on CHR ''_'' s)
      then Some (read_digits (concat (split_on CHR ''_'' s))) else None)"

definition py_int :: "string \<Rightarrow> int res" where
  "py_int s = (let t = py_strip s
     in if startswith t ''-''
        then (case py_int_body (tl t) of Some n \<Rightarrow> Inr (- int n) | None \<Rightarrow> Inl (ValueError ''int''))
        else (case py_int_body (if startswith t ''+'' then tl t else t) of
                Some n \<Rightarrow> Inr (int n) | None \<Rightarrow> Inl (ValueError ''int'')))"

text \<open>\<^verbatim>\<open>min(xs, key=...)\<close>: the first element with the least key, nothing on an empty sequence.\<close>

fun min_by :: "('a \<Rightarrow> 'k::linorder) \<Rightarrow> 'a list \<Rightarrow> 'a option" where
  "min_by key [] = None"
| "min_by key (x # xs) = (case min_by key xs of
     None \<Rightarrow> Some x
   | Some y \<Rightarrow> Some (if key x \<le> key y then x else y))"

section \<open>Duplicate facts\<close>

record closed_interval =
  lo :: decimal
  hi :: decimal

definition intersects :: "closed_interval \<Rightarrow> closed_interval \<Rightarrow> bool" where
  "intersects i j = (dec_le (lo i) (hi j) \<and> dec_le (lo j) (hi i))"

definition interval_add :: "closed_interval \<Rightarrow> closed_interval \<Rightarrow> closed_interval" where
  "interval_add i j = \<lparr>lo = dec_add (lo i) (lo j), hi = dec_add (hi i) (hi j)\<rparr>"

record oim_resolution =
  survivor_value :: decimal
  survivor_decimals :: "string option"
  survivor_fact_id :: int
  resolved_fact_ids :: "int list"
  consistent_interval :: closed_interval

datatype precision = PNone | PInf | PInt int

definition parse_decimals :: "string option \<Rightarrow> precision res" where
  "parse_decimals d = (case d of
     None \<Rightarrow> Inr PNone
   | Some s \<Rightarrow> if py_upper s = ''INF'' then Inr PInf else res_bind (py_int s) (\<lambda>n. Inr (PInt n)))"

fun rank_of :: "precision \<Rightarrow> int \<Rightarrow> int \<times> int \<times> int" where
  "rank_of PInf fact_id = (0, 0, fact_id)"
| "rank_of PNone fact_id = (2, 0, fact_id)"
| "rank_of (PInt n) fact_id = (1, - n, fact_id)"

definition survivor_rank :: "string option \<Rightarrow> int \<Rightarrow> (int \<times> int \<times> int) res" where
  "survivor_rank d fact_id = res_bind (parse_decimals d) (\<lambda>p. Inr (rank_of p fact_id))"

fun interval_of :: "decimal \<Rightarrow> precision \<Rightarrow> closed_interval" where
  "interval_of v (PInt n) =
     (let half = Dec 5 (- 1 - n) in \<lparr>lo = dec_sub v half, hi = dec_add v half\<rparr>)"
| "interval_of v _ = \<lparr>lo = v, hi = v\<rparr>"

definition fact_interval :: "decimal \<Rightarrow> string option \<Rightarrow> closed_interval res" where
  "fact_interval v d = res_bind (parse_decimals d) (\<lambda>p. Inr (interval_of v p))"

record numeric_fact_occurrence =
  occ_fact_id :: int
  occ_value :: decimal
  occ_decimals :: "string option"

fun intersect_all :: "closed_interval \<Rightarrow> closed_interval list \<Rightarrow> closed_interval option" where
  "intersect_all acc [] = Some acc"
| "intersect_all acc (i # is) =
     (if \<not> intersects acc i then None
      else intersect_all \<lparr>lo = dec_max (lo acc) (lo i), hi = dec_min (hi acc) (hi i)\<rparr> is)"

text \<open>
  The interval pass comes first, so every \<^verbatim>\<open>decimals\<close> parses once the later passes run: they use the
  parsed precision.  The pair loop skips \<^verbatim>\<open>f is other\<close>, for which its test is false anyway.
\<close>

definition oim_reduce_group :: "numeric_fact_occurrence list \<Rightarrow> oim_resolution option res" where
  "oim_reduce_group facts =
     (if facts = [] then Inr None
      else res_bind (map_res (\<lambda>f. res_bind (parse_decimals (occ_decimals f)) (\<lambda>p. Inr (f, p))) facts) (\<lambda>ps.
        let ivals = map (\<lambda>(f, p). interval_of (occ_value f) p) ps
        in case intersect_all (hd ivals) (tl ivals) of
             None \<Rightarrow> Inr None
           | Some common \<Rightarrow>
               if \<exists>(f, p)\<in>set ps. \<exists>(g, q)\<in>set ps. p = q \<and> \<not> dec_eq (occ_value f) (occ_value g)
               then Inr None
               else (case min_by (\<lambda>(f, p). rank_of p (occ_fact_id f)) ps of
                       None \<Rightarrow> Inr None
                     | Some sp \<Rightarrow> Inr (Some \<lparr>survivor_value = occ_value (fst sp),
                         survivor_decimals = occ_decimals (fst sp), survivor_fact_id = occ_fact_id (fst sp),
                         resolved_fact_ids = sort (map occ_fact_id facts),
                         consistent_interval = common\<rparr>))))"

section \<open>Numeric reading of Decimal operations\<close>

lemma scale_powi: "m \<le> e \<Longrightarrow> of_int (c * 10 ^ nat (e - m)) * (10::rat) powi m = of_int c * 10 powi e"
proof -
  assume "m \<le> e"
  then have "(10::rat) ^ nat (e - m) * 10 powi m = 10 powi (e - m + m)"
    by (subst power_int_add) (simp_all add: power_int_def)
  then show ?thesis by (simp add: mult.assoc)
qed

lemma aligned_dval:
  assumes "aligned a b = (x, y)"
  shows "dval a = of_int x * 10 powi (min (dexp a) (dexp b))"
    and "dval b = of_int y * 10 powi (min (dexp a) (dexp b))"
  using assms scale_powi [of "min (dexp a) (dexp b)" "dexp a" "dcoef a"]
    scale_powi [of "min (dexp a) (dexp b)" "dexp b" "dcoef b"]
  by (auto simp: aligned_def Let_def dval_def)

lemma powi_10_pos: "0 < (10::rat) powi e"
  by (simp add: power_int_def)

lemma dec_le_iff: "dec_le a b \<longleftrightarrow> dval a \<le> dval b"
proof -
  obtain x y where xy: "aligned a b = (x, y)" by (cases "aligned a b")
  then show ?thesis
    using aligned_dval [OF xy] powi_10_pos [of "min (dexp a) (dexp b)"]
    by (simp add: dec_le_def)
qed

lemma dec_eq_iff: "dec_eq a b \<longleftrightarrow> dval a = dval b"
proof -
  obtain x y where xy: "aligned a b = (x, y)" by (cases "aligned a b")
  then show ?thesis
    using aligned_dval [OF xy] powi_10_pos [of "min (dexp a) (dexp b)"]
    by (simp add: dec_eq_def)
qed

lemma dval_add_exact: "dval (dec_add_exact a b) = dval a + dval b"
proof -
  obtain x y where xy: "aligned a b = (x, y)" by (cases "aligned a b")
  then show ?thesis
    using aligned_dval [OF xy] by (simp add: dec_add_exact_def dval_def algebra_simps)
qed

lemma dval_neg [simp]: "dval (dec_neg a) = - dval a"
  by (simp add: dec_neg_def dval_def)

lemma dval_max [simp]: "dval (dec_max a b) = max (dval a) (dval b)"
  by (simp add: dec_max_def dec_le_iff max_def)

lemma dval_min [simp]: "dval (dec_min a b) = min (dval a) (dval b)"
  by (simp add: dec_min_def dec_le_iff min_def)

section \<open>Rounding to 28 digits is monotone\<close>

lemma ndigits_pos [simp]: "0 < ndigits n"
  by (subst ndigits.simps) simp

lemma less_pow_ndigits: "n < 10 ^ ndigits n"
proof (induction n rule: ndigits.induct)
  case (1 n)
  show ?case
  proof (cases "n < 10")
    case True
    then show ?thesis by (subst ndigits.simps) simp
  next
    case False
    then have "n div 10 < 10 ^ ndigits (n div 10)" using "1.IH" by simp
    then show ?thesis using False by (subst ndigits.simps) (simp add: div_less_iff_less_mult mult.commute)
  qed
qed

lemma pow_ndigits_le: "0 < n \<Longrightarrow> 10 ^ (ndigits n - 1) \<le> n"
proof (induction n rule: ndigits.induct)
  case (1 n)
  show ?case
  proof (cases "n < 10")
    case True
    then show ?thesis using "1.prems" by (subst ndigits.simps) simp
  next
    case False
    then have "10 ^ (ndigits (n div 10) - 1) \<le> n div 10" using "1.IH" by simp
    then have "10 * 10 ^ (ndigits (n div 10) - 1) \<le> n" by linarith
    moreover have "(10::nat) * 10 ^ (ndigits (n div 10) - 1) = 10 ^ ndigits (n div 10)"
      by (metis One_nat_def Suc_pred ndigits_pos power_Suc)
    ultimately show ?thesis using False by (subst ndigits.simps) simp
  qed
qed

lemma ndigits_le_iff: "0 < k \<Longrightarrow> ndigits n \<le> k \<longleftrightarrow> n < 10 ^ k"
proof
  assume "ndigits n \<le> k"
  then show "n < 10 ^ k"
    using less_pow_ndigits [of n] power_increasing [of "ndigits n" k "10::nat"] by linarith
next
  assume k: "0 < k" and n: "n < 10 ^ k"
  show "ndigits n \<le> k"
  proof (cases "n = 0")
    case True
    then show ?thesis using k by (subst ndigits.simps) simp
  next
    case False
    then have "10 ^ (ndigits n - 1) < (10::nat) ^ k" using pow_ndigits_le [of n] n by linarith
    then have "ndigits n - 1 < k" by (simp only: power_strict_increasing_iff)
    then show ?thesis by simp
  qed
qed

lemma ndigits_mono: "m \<le> n \<Longrightarrow> ndigits m \<le> ndigits n"
  using less_pow_ndigits [of n] by (simp add: ndigits_le_iff)

lemma ndigits_times_10: "0 < n \<Longrightarrow> ndigits (10 * n) = Suc (ndigits n)"
  by (subst ndigits.simps) simp

definition round28 :: "nat \<Rightarrow> nat" where
  "round28 n = (let k = ndigits n - dec_prec in if k = 0 then n else round_half_even n k * 10 ^ k)"

lemma round_half_even_0 [simp]: "round_half_even n 0 = n"
  by (simp add: round_half_even_def)

lemma round28_eq: "round28 n = round_half_even n (ndigits n - dec_prec) * 10 ^ (ndigits n - dec_prec)"
  by (simp add: round28_def Let_def)

lemma round_half_even_mono: "m \<le> n \<Longrightarrow> round_half_even m k \<le> round_half_even n k"
proof -
  assume le: "m \<le> n"
  have q: "m div 10 ^ k \<le> n div 10 ^ k" using le by (rule div_le_mono)
  show ?thesis
  proof (cases "m div 10 ^ k = n div 10 ^ k")
    case True
    moreover have "m mod 10 ^ k \<le> n mod 10 ^ k"
      using le True by (metis add_le_cancel_left div_mult_mod_eq)
    ultimately show ?thesis by (auto simp: round_half_even_def Let_def)
  next
    case False
    then show ?thesis using q by (auto simp: round_half_even_def Let_def)
  qed
qed

lemma round_half_even_bounds:
  "n div 10 ^ k \<le> round_half_even n k" "round_half_even n k \<le> Suc (n div 10 ^ k)"
  by (auto simp: round_half_even_def Let_def)

lemma round28_le_pow: "round28 n \<le> 10 ^ ndigits n"
proof -
  let ?k = "ndigits n - dec_prec"
  have le: "?k \<le> ndigits n" by simp
  have "n < 10 ^ (ndigits n - ?k) * 10 ^ ?k"
    using less_pow_ndigits [of n] by (simp flip: power_add)
  then have "n div 10 ^ ?k < 10 ^ (ndigits n - ?k)"
    by (simp add: less_mult_imp_div_less)
  then have "round_half_even n ?k \<le> 10 ^ (ndigits n - ?k)"
    using round_half_even_bounds(2) [of n ?k] by linarith
  then have "round28 n \<le> 10 ^ (ndigits n - ?k) * 10 ^ ?k"
    by (simp add: round28_eq)
  then show ?thesis by (simp flip: power_add)
qed

lemma pow_le_round28: "0 < n \<Longrightarrow> 10 ^ (ndigits n - 1) \<le> round28 n"
proof -
  assume n: "0 < n"
  let ?k = "ndigits n - dec_prec"
  show ?thesis
  proof (cases "?k = 0")
    case True
    then show ?thesis using pow_ndigits_le [OF n] by (simp add: round28_def)
  next
    case False
    then have le: "?k \<le> ndigits n - 1" by (simp add: dec_prec_def)
    have eq: "ndigits n - 1 - ?k + ?k = ndigits n - 1" using le by simp
    have "10 ^ (ndigits n - 1 - ?k) * 10 ^ ?k \<le> n"
      using pow_ndigits_le [OF n] by (simp only: eq flip: power_add)
    then have "10 ^ (ndigits n - 1 - ?k) \<le> n div 10 ^ ?k"
      by (simp add: less_eq_div_iff_mult_less_eq)
    also have "\<dots> \<le> round_half_even n ?k" by (rule round_half_even_bounds)
    finally have "10 ^ (ndigits n - 1 - ?k) * 10 ^ ?k \<le> round28 n" by (simp add: round28_eq)
    then show ?thesis by (simp only: eq flip: power_add)
  qed
qed

lemma round28_mono: "m \<le> n \<Longrightarrow> round28 m \<le> round28 n"
proof -
  assume le: "m \<le> n"
  show ?thesis
  proof (cases "ndigits m = ndigits n")
    case True
    then show ?thesis using round_half_even_mono [OF le] by (simp add: round28_eq)
  next
    case False
    then have lt: "ndigits m \<le> ndigits n - 1" using ndigits_mono [OF le] by linarith
    have "0 < n" using False le by (cases n) auto
    have "round28 m \<le> 10 ^ ndigits m" by (rule round28_le_pow)
    also have "\<dots> \<le> 10 ^ (ndigits n - 1)" using lt by (simp add: power_increasing)
    also have "\<dots> \<le> round28 n" using \<open>0 < n\<close> by (rule pow_le_round28)
    finally show ?thesis .
  qed
qed

lemma round_half_even_times_10: "round_half_even (10 * n) (Suc k) = round_half_even n k"
proof -
  have "10 * n div 10 ^ Suc k = n div 10 ^ k" by simp
  moreover have "10 * n mod 10 ^ Suc k = 10 * (n mod 10 ^ k)" by simp
  ultimately show ?thesis by (simp add: round_half_even_def Let_def)
qed

lemma round28_times_10: "round28 (10 * n) = 10 * round28 n"
proof (cases "0 < n")
  case True
  show ?thesis
  proof (cases "dec_prec \<le> ndigits n")
    case le: True
    then show ?thesis
      using ndigits_times_10 [OF True] round_half_even_times_10 [of n "ndigits n - dec_prec"]
      by (simp add: round28_eq Suc_diff_le)
  next
    case False
    then show ?thesis using ndigits_times_10 [OF True] by (simp add: round28_def)
  qed
next
  case False
  then show ?thesis by (simp add: round28_def ndigits.simps dec_prec_def)
qed

lemma round28_times_pow: "round28 (10 ^ j * n) = 10 ^ j * round28 n"
  by (induction j) (simp_all add: round28_times_10 mult.assoc)

lemma round28_small: "n < 10 ^ dec_prec \<Longrightarrow> round28 n = n"
  using ndigits_le_iff [of dec_prec n] by (simp add: round28_def dec_prec_def)

definition sround28 :: "int \<Rightarrow> int" where
  "sround28 c = sgn c * int (round28 (nat \<bar>c\<bar>))"

lemma sround28_mono: "a \<le> b \<Longrightarrow> sround28 a \<le> sround28 b"
proof -
  assume "a \<le> b"
  then consider "0 \<le> a" | "a < 0" "0 \<le> b" | "b < 0" by linarith
  then show ?thesis
  proof cases
    case 1
    then show ?thesis
      using \<open>a \<le> b\<close> round28_mono [of "nat a" "nat b"]
      by (cases "a = 0") (auto simp: sround28_def sgn_if)
  next
    case 2
    then show ?thesis by (auto simp: sround28_def sgn_if)
  next
    case 3
    then show ?thesis
      using \<open>a \<le> b\<close> round28_mono [of "nat (- b)" "nat (- a)"]
      by (auto simp: sround28_def sgn_if)
  qed
qed

lemma sround28_times_pow: "sround28 (c * 10 ^ j) = sround28 c * 10 ^ j"
proof -
  have "nat \<bar>c * 10 ^ j\<bar> = 10 ^ j * nat \<bar>c\<bar>"
    by (simp add: abs_mult nat_mult_distrib nat_power_eq)
  then show ?thesis
    by (simp add: sround28_def sgn_mult round28_times_pow)
qed

lemma dval_fix: "dval (dec_fix (Dec c e)) = of_int (sround28 c) * 10 powi e"
proof -
  define n where "n = nat \<bar>c\<bar>"
  define k where "k = ndigits n - dec_prec"
  define q where "q = round_half_even n k"
  have sr: "sround28 c = sgn c * (int q * 10 ^ k)"
    by (simp add: sround28_def round28_eq q_def k_def n_def)
  have pw: "(10::rat) powi (e + int k) = 10 ^ k * 10 powi e"
    by (simp add: power_int_add)
  show ?thesis
  proof (cases "k = 0")
    case True
    then have "dec_fix (Dec c e) = Dec c e"
      by (simp add: dec_fix_def Let_def k_def n_def)
    moreover have "sround28 c = c" using True by (simp add: sr q_def n_def mult_sgn_abs)
    ultimately show ?thesis by (simp add: dval_def)
  next
    case False
    then have fx: "dec_fix (Dec c e) =
        (if q = 10 ^ dec_prec then Dec (sgn c * 10 ^ (dec_prec - 1)) (e + int k + 1)
         else Dec (sgn c * int q) (e + int k))"
      unfolding dec_fix_def Let_def decimal.sel n_def [symmetric] k_def [symmetric] q_def [symmetric]
      by simp
    show ?thesis
    proof (cases "q = 10 ^ dec_prec")
      case True
      have "(10::rat) powi (e + int k + 1) = 10 * (10 ^ k * 10 powi e)"
        using pw by (simp add: power_int_add)
      then show ?thesis
        using True by (simp add: fx sr dval_def) (simp add: dec_prec_def)
    next
      case neq: False
      then show ?thesis
        using pw by (simp add: fx sr dval_def)
    qed
  qed
qed

lemma dval_fix_mono:
  assumes "dval a \<le> dval b"
  shows "dval (dec_fix a) \<le> dval (dec_fix b)"
proof -
  obtain x y where xy: "aligned a b = (x, y)" by (cases "aligned a b")
  let ?m = "min (dexp a) (dexp b)"
  have fx: "dval (dec_fix a) = of_int (sround28 x) * 10 powi ?m"
    using xy scale_powi [of ?m "dexp a" "sround28 (dcoef a)"] dval_fix [of "dcoef a" "dexp a"]
    by (auto simp: aligned_def Let_def sround28_times_pow)
  have fy: "dval (dec_fix b) = of_int (sround28 y) * 10 powi ?m"
    using xy scale_powi [of ?m "dexp b" "sround28 (dcoef b)"] dval_fix [of "dcoef b" "dexp b"]
    by (auto simp: aligned_def Let_def sround28_times_pow)
  have "x \<le> y"
    using assms aligned_dval [OF xy] powi_10_pos [of ?m] by simp
  then show ?thesis
    using sround28_mono [of x y] powi_10_pos [of ?m] by (simp add: fx fy)
qed

section \<open>The reduction of duplicate facts\<close>

definition nonempty_interval :: "closed_interval \<Rightarrow> bool" where
  "nonempty_interval i = (dval (lo i) \<le> dval (hi i))"

abbreviation lows :: "closed_interval list \<Rightarrow> rat set" where
  "lows is \<equiv> (\<lambda>i. dval (lo i)) ` set is"

abbreviation highs :: "closed_interval list \<Rightarrow> rat set" where
  "highs is \<equiv> (\<lambda>i. dval (hi i)) ` set is"

lemma intersects_iff:
  "intersects i j \<longleftrightarrow> dval (lo i) \<le> dval (hi j) \<and> dval (lo j) \<le> dval (hi i)"
  by (simp add: intersects_def dec_le_iff)

lemma dval_half: "dval (Dec 5 e) \<ge> 0"
  using powi_10_pos [of e] by (simp add: dval_def)

lemma interval_of_nonempty: "nonempty_interval (interval_of v p)"
proof (cases p)
  case (PInt n)
  have "dval (dec_add_exact v (dec_neg (Dec 5 (- 1 - n)))) \<le> dval (dec_add_exact v (Dec 5 (- 1 - n)))"
    using dval_half [of "- 1 - n"] by (simp add: dval_add_exact)
  then show ?thesis
    using PInt dval_fix_mono
    by (simp add: nonempty_interval_def Let_def dec_sub_def dec_add_def)
qed (simp_all add: nonempty_interval_def)

lemma dec_fix_small: "\<bar>dcoef v\<bar> < 10 ^ dec_prec \<Longrightarrow> dval (dec_fix v) = dval v"
proof -
  assume "\<bar>dcoef v\<bar> < 10 ^ dec_prec"
  then have "int (nat \<bar>dcoef v\<bar>) < int (10 ^ dec_prec)" by simp
  then have "nat \<bar>dcoef v\<bar> < 10 ^ dec_prec" by (simp only: of_nat_less_iff)
  then have "sround28 (dcoef v) = dcoef v"
    by (simp add: sround28_def round28_small mult_sgn_abs)
  then show ?thesis using dval_fix [of "dcoef v" "dexp v"] by (simp add: dval_def)
qed

lemma interval_of_contains:
  assumes "\<bar>dcoef v\<bar> < 10 ^ dec_prec"
  shows "dval (lo (interval_of v p)) \<le> dval v \<and> dval v \<le> dval (hi (interval_of v p))"
proof (cases p)
  case (PInt n)
  let ?half = "Dec 5 (- 1 - n)"
  have "dval (dec_fix (dec_add_exact v (dec_neg ?half))) \<le> dval (dec_fix v)"
    by (rule dval_fix_mono) (simp add: dval_add_exact dval_half)
  moreover have "dval (dec_fix v) \<le> dval (dec_fix (dec_add_exact v ?half))"
    by (rule dval_fix_mono) (simp add: dval_add_exact dval_half)
  ultimately show ?thesis
    using PInt dec_fix_small [OF assms] by (simp add: Let_def dec_sub_def dec_add_def)
qed simp_all

lemma Max_insert_max: "finite S \<Longrightarrow> Max (insert (max a b) S) = Max (insert a (insert (b::rat) S))"
  by (cases "S = {}") (simp_all add: max.assoc)

lemma Min_insert_min: "finite S \<Longrightarrow> Min (insert (min a b) S) = Min (insert a (insert (b::rat) S))"
  by (cases "S = {}") (simp_all add: min.assoc)

lemma intersect_all_spec:
  assumes "\<forall>i\<in>set (acc # is). nonempty_interval i"
  shows "case intersect_all acc is of
           None \<Rightarrow> Min (highs (acc # is)) < Max (lows (acc # is))
         | Some r \<Rightarrow> dval (lo r) = Max (lows (acc # is)) \<and> dval (hi r) = Min (highs (acc # is))
             \<and> dval (lo r) \<le> dval (hi r)"
  using assms
proof (induction "is" arbitrary: acc)
  case Nil
  then show ?case by (simp add: nonempty_interval_def)
next
  case (Cons i "is")
  show ?case
  proof (cases "intersects acc i")
    case False
    then consider "dval (hi i) < dval (lo acc)" | "dval (hi acc) < dval (lo i)"
      by (auto simp: intersects_iff)
    then have "Min (highs (acc # i # is)) < Max (lows (acc # i # is))"
    proof cases
      case 1
      have "Min (highs (acc # i # is)) \<le> dval (hi i)" by (intro Min_le) auto
      moreover have "dval (lo acc) \<le> Max (lows (acc # i # is))" by (intro Max_ge) auto
      ultimately show ?thesis using 1 by linarith
    next
      case 2
      have "Min (highs (acc # i # is)) \<le> dval (hi acc)" by (intro Min_le) auto
      moreover have "dval (lo i) \<le> Max (lows (acc # i # is))" by (intro Max_ge) auto
      ultimately show ?thesis using 2 by linarith
    qed
    then show ?thesis using False by simp
  next
    case True
    define acc' where "acc' = \<lparr>lo = dec_max (lo acc) (lo i), hi = dec_min (hi acc) (hi i)\<rparr>"
    have "nonempty_interval acc'"
      using True Cons.prems by (auto simp: acc'_def nonempty_interval_def intersects_iff)
    then have "\<forall>j\<in>set (acc' # is). nonempty_interval j" using Cons.prems by simp
    from Cons.IH [OF this] show ?thesis
      using True by (simp add: Max_insert_max Min_insert_min acc'_def cong: option.case_cong)
  qed
qed

lemma min_by_Some: "xs \<noteq> [] \<Longrightarrow> \<exists>y. min_by key xs = Some y"
  by (induction xs) (auto split: option.splits)

lemma min_by_least:
  "min_by key xs = Some y \<Longrightarrow> y \<in> set xs \<and> (\<forall>z\<in>set xs. key y \<le> key z)"
proof (induction xs arbitrary: y)
  case (Cons x xs)
  then show ?case
    by (cases "min_by key xs"; cases xs) (auto split: if_splits option.splits intro: order_trans)
qed simp

lemma min_by_unique:
  assumes "set xs = set ys" and "inj_on key (set xs)"
  shows "min_by key xs = min_by key ys"
proof (cases "xs = []")
  case True
  then show ?thesis using assms(1) by simp
next
  case False
  then have "ys \<noteq> []" using assms(1) by auto
  obtain x y where xy: "min_by key xs = Some x" "min_by key ys = Some y"
    using min_by_Some False \<open>ys \<noteq> []\<close> by metis
  then have "key x = key y"
    using min_by_least [OF xy(1)] min_by_least [OF xy(2)] assms(1) by (intro antisym) auto
  then have "x = y"
    using min_by_least [OF xy(1)] min_by_least [OF xy(2)] assms by (auto dest: inj_onD)
  then show ?thesis using xy by simp
qed

definition parse_all :: "numeric_fact_occurrence list \<Rightarrow> (numeric_fact_occurrence \<times> precision) list res" where
  "parse_all facts = map_res (\<lambda>f. res_bind (parse_decimals (occ_decimals f)) (\<lambda>p. Inr (f, p))) facts"

lemma parse_all_Inr:
  "parse_all facts = Inr ps \<longleftrightarrow>
     map fst ps = facts \<and> (\<forall>(f, p)\<in>set ps. parse_decimals (occ_decimals f) = Inr p)"
  unfolding parse_all_def
proof (induction facts arbitrary: ps)
  case (Cons f fs)
  then show ?case by (cases ps) (auto simp: result_simps)
qed auto

lemma parse_decimals_error: "parse_decimals d = Inl e \<Longrightarrow> e = ValueError ''int''"
  by (auto simp: parse_decimals_def py_int_def result_simps Let_def split: option.splits if_splits)

lemma parse_all_Inl:
  "parse_all facts = Inl e \<longleftrightarrow>
     e = ValueError ''int'' \<and> (\<exists>f\<in>set facts. parse_decimals (occ_decimals f) = Inl e)"
  unfolding parse_all_def
proof (induction facts)
  case (Cons f fs)
  then show ?case
    by (cases "parse_decimals (occ_decimals f)") (auto simp: result_simps dest: parse_decimals_error)
qed auto

lemma parse_all_set:
  assumes "parse_all facts = Inr ps"
  shows "set ps = {(f, p). f \<in> set facts \<and> parse_decimals (occ_decimals f) = Inr p}"
proof -
  have "(f, p) \<in> set ps" if "f \<in> set facts" "parse_decimals (occ_decimals f) = Inr p" for f p
  proof -
    have "f \<in> fst ` set ps" using that(1) assms by (auto simp: parse_all_Inr)
    then obtain q where q: "(f, q) \<in> set ps" by force
    then have "q = p" using that(2) assms by (auto simp: parse_all_Inr)
    then show ?thesis using q by simp
  qed
  moreover have "f \<in> set facts \<and> parse_decimals (occ_decimals f) = Inr p" if "(f, p) \<in> set ps" for f p
    using that assms by (force simp: parse_all_Inr)
  ultimately show ?thesis by auto
qed

definition ivals_of :: "(numeric_fact_occurrence \<times> precision) list \<Rightarrow> closed_interval list" where
  "ivals_of ps = map (\<lambda>(f, p). interval_of (occ_value f) p) ps"

definition equal_precision_clash :: "(numeric_fact_occurrence \<times> precision) list \<Rightarrow> bool" where
  "equal_precision_clash ps =
     (\<exists>(f, p)\<in>set ps. \<exists>(g, q)\<in>set ps. p = q \<and> \<not> dec_eq (occ_value f) (occ_value g))"

definition prank :: "numeric_fact_occurrence \<times> precision \<Rightarrow> int \<times> int \<times> int" where
  "prank fp = rank_of (snd fp) (occ_fact_id (fst fp))"

lemma oim_reduce_unfold:
  "oim_reduce_group facts =
     (if facts = [] then Inr None
      else res_bind (parse_all facts) (\<lambda>ps.
        case intersect_all (hd (ivals_of ps)) (tl (ivals_of ps)) of
          None \<Rightarrow> Inr None
        | Some common \<Rightarrow>
            if equal_precision_clash ps then Inr None
            else (case min_by prank ps of
                    None \<Rightarrow> Inr None
                  | Some fp \<Rightarrow> Inr (Some \<lparr>survivor_value = occ_value (fst fp),
                      survivor_decimals = occ_decimals (fst fp), survivor_fact_id = occ_fact_id (fst fp),
                      resolved_fact_ids = sort (map occ_fact_id facts),
                      consistent_interval = common\<rparr>))))"
proof -
  have eq: "(\<lambda>(f, p). rank_of p (occ_fact_id f)) = prank"
    by (auto simp: prank_def fun_eq_iff)
  show ?thesis
    unfolding oim_reduce_group_def parse_all_def ivals_of_def equal_precision_clash_def eq Let_def ..
qed

lemma ivals_of_nonempty: "ps \<noteq> [] \<Longrightarrow> \<forall>i\<in>set (hd (ivals_of ps) # tl (ivals_of ps)). nonempty_interval i"
  by (cases ps) (auto simp: ivals_of_def interval_of_nonempty)

lemma oim_reduce_Some:
  assumes "oim_reduce_group facts = Inr (Some r)"
  obtains ps s p where "parse_all facts = Inr ps" "facts \<noteq> []" "(s, p) \<in> set ps"
    "min_by prank ps = Some (s, p)" "\<not> equal_precision_clash ps"
    "survivor_value r = occ_value s" "survivor_decimals r = occ_decimals s"
    "survivor_fact_id r = occ_fact_id s" "resolved_fact_ids r = sort (map occ_fact_id facts)"
    "dval (lo (consistent_interval r)) = Max (lows (ivals_of ps))"
    "dval (hi (consistent_interval r)) = Min (highs (ivals_of ps))"
    "Max (lows (ivals_of ps)) \<le> Min (highs (ivals_of ps))"
proof -
  from assms obtain ps common fp where ps: "facts \<noteq> []" "parse_all facts = Inr ps"
    "intersect_all (hd (ivals_of ps)) (tl (ivals_of ps)) = Some common"
    "\<not> equal_precision_clash ps" "min_by prank ps = Some fp"
    and r: "r = \<lparr>survivor_value = occ_value (fst fp), survivor_decimals = occ_decimals (fst fp),
      survivor_fact_id = occ_fact_id (fst fp), resolved_fact_ids = sort (map occ_fact_id facts),
      consistent_interval = common\<rparr>"
    by (cases "parse_all facts")
       (simp_all add: oim_reduce_unfold split: if_splits option.splits)
  have "ps \<noteq> []" using ps by (auto simp: parse_all_Inr)
  then have eq: "hd (ivals_of ps) # tl (ivals_of ps) = ivals_of ps"
    by (cases ps) (auto simp: ivals_of_def)
  have "dval (lo common) = Max (lows (ivals_of ps)) \<and> dval (hi common) = Min (highs (ivals_of ps))
    \<and> dval (lo common) \<le> dval (hi common)"
    using intersect_all_spec [OF ivals_of_nonempty [OF \<open>ps \<noteq> []\<close>]] unfolding eq ps(3) option.case .
  then show ?thesis
    using that [of ps "fst fp" "snd fp"] ps r min_by_least [OF ps(5)] by simp
qed

lemma oim_reduce_Some_at:
  assumes "oim_reduce_group facts = Inr (Some r)" and "parse_all facts = Inr ps"
  shows "min_by prank ps \<noteq> None \<and>
    survivor_value r = occ_value (fst (the (min_by prank ps))) \<and>
    survivor_decimals r = occ_decimals (fst (the (min_by prank ps))) \<and>
    survivor_fact_id r = occ_fact_id (fst (the (min_by prank ps))) \<and>
    resolved_fact_ids r = sort (map occ_fact_id facts) \<and>
    dval (lo (consistent_interval r)) = Max (lows (ivals_of ps)) \<and>
    dval (hi (consistent_interval r)) = Min (highs (ivals_of ps))"
  by (rule oim_reduce_Some [OF assms(1)]) (use assms(2) in simp)

lemma oim_reduce_None:
  assumes "facts \<noteq> []" and "parse_all facts = Inr ps"
  shows "oim_reduce_group facts = Inr None \<longleftrightarrow>
    Min (highs (ivals_of ps)) < Max (lows (ivals_of ps)) \<or> equal_precision_clash ps"
proof -
  have "ps \<noteq> []" using assms by (auto simp: parse_all_Inr)
  then have eq: "hd (ivals_of ps) # tl (ivals_of ps) = ivals_of ps"
    by (cases ps) (auto simp: ivals_of_def)
  obtain fp where fp: "min_by prank ps = Some fp" using min_by_Some [OF \<open>ps \<noteq> []\<close>] by metis
  show ?thesis
    using intersect_all_spec [OF ivals_of_nonempty [OF \<open>ps \<noteq> []\<close>]] assms fp
    by (auto simp: eq oim_reduce_unfold split: option.splits)
qed

lemma prank_inj:
  assumes "distinct (map occ_fact_id (map fst ps))"
  shows "inj_on prank (set ps)"
proof (rule inj_onI)
  fix a b assume ab: "a \<in> set ps" "b \<in> set ps" "prank a = prank b"
  then have "occ_fact_id (fst a) = occ_fact_id (fst b)"
    by (cases "snd a"; cases "snd b") (auto simp: prank_def)
  moreover have "inj_on (\<lambda>fp. occ_fact_id (fst fp)) (set ps)"
    using assms by (simp add: distinct_map o_def inj_on_def)
  ultimately show "a = b" using ab by (auto dest: inj_onD)
qed

lemma ndigits_numeral:
  "ndigits (numeral k) = (if (numeral k :: nat) < 10 then 1 else Suc (ndigits (numeral k div 10)))"
  "ndigits 0 = 1" "ndigits 1 = 1" "ndigits (Suc 0) = 1"
  by (subst ndigits.simps, simp)+

lemmas dec_eval = oim_reduce_group_def parse_decimals_def py_int_def py_int_body_def py_upper_def
  py_strip_def strip_by_def is_space_def startswith_def is_digit_def read_digits_def digit_val_def
  char_upper_def is_lower_ascii_def dec_sub_def dec_add_def dec_add_exact_def dec_neg_def aligned_def
  dec_fix_def dec_prec_def ndigits_numeral intersects_def dec_le_def dec_eq_def dec_max_def dec_min_def

section \<open>Properties\<close>

lemma fact_precision:
  assumes "parse_all facts = Inr ps" and "g \<in> set facts"
  obtains q where "(g, q) \<in> set ps" and "parse_decimals (occ_decimals g) = Inr q"
proof -
  have "g \<in> fst ` set ps" using assms by (metis list.set_map parse_all_Inr)
  then obtain q where "(g, q) \<in> set ps" by auto
  then show ?thesis using that parse_all_set [OF assms(1)] by auto
qed

text \<open>
  Property C23: a resolved group of duplicate facts publishes one of its facts, of the best rank (INF
  before finite decimals, more decimals first, then the smaller fact id); its consistent interval
  is non-empty and lies inside the interval of every fact; facts of equal precision have equal
  values; and the fact ids of the whole group are reported in ascending order.
\<close>

theorem oim_reduce_sound:
  assumes "oim_reduce_group facts = Inr (Some r)"
  shows "(\<exists>s\<in>set facts. survivor_value r = occ_value s \<and> survivor_decimals r = occ_decimals s \<and>
           survivor_fact_id r = occ_fact_id s \<and>
           (\<forall>g\<in>set facts. \<exists>a b. survivor_rank (occ_decimals s) (occ_fact_id s) = Inr a \<and>
              survivor_rank (occ_decimals g) (occ_fact_id g) = Inr b \<and> a \<le> b)) \<and>
         dval (lo (consistent_interval r)) \<le> dval (hi (consistent_interval r)) \<and>
         (\<forall>g\<in>set facts. \<exists>i. fact_interval (occ_value g) (occ_decimals g) = Inr i \<and>
           dval (lo i) \<le> dval (lo (consistent_interval r)) \<and>
           dval (hi (consistent_interval r)) \<le> dval (hi i)) \<and>
         (\<forall>f\<in>set facts. \<forall>g\<in>set facts.
           parse_decimals (occ_decimals f) = parse_decimals (occ_decimals g) \<longrightarrow>
           dval (occ_value f) = dval (occ_value g)) \<and>
         sorted (resolved_fact_ids r) \<and> mset (resolved_fact_ids r) = mset (map occ_fact_id facts)"
    (is "?surv \<and> ?ne \<and> ?inside \<and> ?equal \<and> ?ids1 \<and> ?ids2")
proof -
  from assms obtain ps s p where ps: "parse_all facts = Inr ps" "facts \<noteq> []" "(s, p) \<in> set ps"
    "min_by prank ps = Some (s, p)" "\<not> equal_precision_clash ps"
    and r: "survivor_value r = occ_value s" "survivor_decimals r = occ_decimals s"
    "survivor_fact_id r = occ_fact_id s" "resolved_fact_ids r = sort (map occ_fact_id facts)"
    "dval (lo (consistent_interval r)) = Max (lows (ivals_of ps))"
    "dval (hi (consistent_interval r)) = Min (highs (ivals_of ps))"
    "Max (lows (ivals_of ps)) \<le> Min (highs (ivals_of ps))"
    by (rule oim_reduce_Some)
  have s: "s \<in> set facts" "parse_decimals (occ_decimals s) = Inr p"
    using ps(3) parse_all_set [OF ps(1)] by auto
  have best: "\<exists>a b. survivor_rank (occ_decimals s) (occ_fact_id s) = Inr a \<and>
      survivor_rank (occ_decimals g) (occ_fact_id g) = Inr b \<and> a \<le> b" if "g \<in> set facts" for g
  proof -
    obtain q where q: "(g, q) \<in> set ps" "parse_decimals (occ_decimals g) = Inr q"
      using ps(1) \<open>g \<in> set facts\<close> by (rule fact_precision)
    have "prank (s, p) \<le> prank (g, q)" using min_by_least [OF ps(4)] q(1) by blast
    then show ?thesis using q s by (simp add: survivor_rank_def prank_def)
  qed
  have inside: "\<exists>i. fact_interval (occ_value g) (occ_decimals g) = Inr i \<and>
      dval (lo i) \<le> dval (lo (consistent_interval r)) \<and>
      dval (hi (consistent_interval r)) \<le> dval (hi i)" if "g \<in> set facts" for g
  proof -
    obtain q where q: "(g, q) \<in> set ps" "parse_decimals (occ_decimals g) = Inr q"
      using ps(1) \<open>g \<in> set facts\<close> by (rule fact_precision)
    then have "interval_of (occ_value g) q \<in> set (ivals_of ps)" by (force simp: ivals_of_def)
    then have "dval (lo (interval_of (occ_value g) q)) \<le> Max (lows (ivals_of ps))"
      "Min (highs (ivals_of ps)) \<le> dval (hi (interval_of (occ_value g) q))"
      by (auto intro!: Max_ge Min_le)
    then show ?thesis using q r by (auto simp: fact_interval_def)
  qed
  have equal: "dval (occ_value f) = dval (occ_value g)"
    if f: "f \<in> set facts" and g: "g \<in> set facts"
      and same: "parse_decimals (occ_decimals f) = parse_decimals (occ_decimals g)" for f g
  proof -
    obtain q where q: "(f, q) \<in> set ps" "parse_decimals (occ_decimals f) = Inr q"
      using ps(1) f by (rule fact_precision)
    obtain q' where q': "(g, q') \<in> set ps" "parse_decimals (occ_decimals g) = Inr q'"
      using ps(1) g by (rule fact_precision)
    have "q = q'" using q q' same by simp
    then have "dec_eq (occ_value f) (occ_value g)"
      using ps(5) q(1) q'(1) unfolding equal_precision_clash_def by blast
    then show ?thesis by (simp add: dec_eq_iff)
  qed
  show ?thesis
  proof (intro conjI)
    show ?surv by (rule bexI [OF _ s(1)]) (intro conjI ballI r(1-3) best)
    show ?ne using r by simp
    show ?inside by (intro ballI) (rule inside)
    show ?equal by (intro ballI impI) (rule equal)
    show ?ids1 ?ids2 using r(4) by simp_all
  qed
qed

theorem oim_reduce_sound_witness:
  "oim_reduce_group [\<lparr>occ_fact_id = 7, occ_value = Dec 1200 0, occ_decimals = Some ''-2''\<rparr>,
       \<lparr>occ_fact_id = 4, occ_value = Dec 12345 (-1), occ_decimals = Some ''1''\<rparr>]
     = Inr (Some \<lparr>survivor_value = Dec 12345 (-1), survivor_decimals = Some ''1'',
         survivor_fact_id = 4, resolved_fact_ids = [4, 7],
         consistent_interval = \<lparr>lo = Dec 123445 (-2), hi = Dec 123455 (-2)\<rparr>\<rparr>) \<and>
   sorted [4::int, 7]"
proof -
  have "oim_reduce_group [\<lparr>occ_fact_id = 7, occ_value = Dec 1200 0, occ_decimals = Some ''-2''\<rparr>,
       \<lparr>occ_fact_id = 4, occ_value = Dec 12345 (-1), occ_decimals = Some ''1''\<rparr>]
     = Inr (Some \<lparr>survivor_value = Dec 12345 (-1), survivor_decimals = Some ''1'',
         survivor_fact_id = 4, resolved_fact_ids = [4, 7],
         consistent_interval = \<lparr>lo = Dec 123445 (-2), hi = Dec 123455 (-2)\<rparr>\<rparr>)"
    by (simp add: dec_eval)
  from this oim_reduce_sound [OF this] show ?thesis by simp
qed

lemma oim_reduce_perm:
  assumes "mset fs = mset gs" and "distinct (map occ_fact_id fs)"
  shows "case oim_reduce_group fs of
           Inl e \<Rightarrow> oim_reduce_group gs = Inl e
         | Inr None \<Rightarrow> oim_reduce_group gs = Inr None
         | Inr (Some r) \<Rightarrow> (\<exists>r'. oim_reduce_group gs = Inr (Some r') \<and>
             survivor_value r' = survivor_value r \<and> survivor_decimals r' = survivor_decimals r \<and>
             survivor_fact_id r' = survivor_fact_id r \<and> resolved_fact_ids r' = resolved_fact_ids r \<and>
             dval (lo (consistent_interval r')) = dval (lo (consistent_interval r)) \<and>
             dval (hi (consistent_interval r')) = dval (hi (consistent_interval r)))"
proof (cases "fs = []")
  case True
  then show ?thesis using assms(1) by (simp add: oim_reduce_unfold)
next
  case ne: False
  have sets: "set fs = set gs" using assms(1) by (rule mset_eq_setD)
  have ne': "gs \<noteq> []" using ne sets by auto
  show ?thesis
  proof (cases "parse_all fs")
    case (Inl e)
    then have "parse_all gs = Inl e" unfolding parse_all_Inl sets .
    then show ?thesis using Inl ne ne' by (simp add: oim_reduce_unfold)
  next
    case (Inr ps)
    then obtain qs where qs: "parse_all gs = Inr qs"
      by (cases "parse_all gs") (metis Inl_Inr_False parse_all_Inl sets, blast)
    have eq: "set qs = set ps"
      using parse_all_set [OF Inr] parse_all_set [OF qs] sets by simp
    have iv: "set (ivals_of qs) = set (ivals_of ps)" by (simp add: ivals_of_def eq)
    have clash: "equal_precision_clash qs = equal_precision_clash ps"
      by (simp add: equal_precision_clash_def eq)
    have ids: "map fst ps = fs" using Inr by (simp add: parse_all_Inr)
    have "inj_on prank (set ps)" by (rule prank_inj) (simp only: ids assms(2))
    then have best: "min_by prank ps = min_by prank qs" by (intro min_by_unique) (simp_all add: eq)
    have none: "oim_reduce_group gs = Inr None \<longleftrightarrow> oim_reduce_group fs = Inr None"
      using oim_reduce_None [OF ne Inr] oim_reduce_None [OF ne' qs] by (simp only: iv clash)
    have no_err: "oim_reduce_group gs \<noteq> Inl e" "oim_reduce_group fs \<noteq> Inl e" for e
      using Inr qs by (auto simp: oim_reduce_unfold split: option.splits)
    have "mset (map occ_fact_id fs) = mset (map occ_fact_id gs)" using assms(1) by simp
    then have srt: "sort (map occ_fact_id fs) = sort (map occ_fact_id gs)"
      by (metis properties_for_sort sorted_sort mset_sort)
    have some: "\<exists>r'. oim_reduce_group gs = Inr (Some r') \<and>
        survivor_value r' = survivor_value r \<and> survivor_decimals r' = survivor_decimals r \<and>
        survivor_fact_id r' = survivor_fact_id r \<and> resolved_fact_ids r' = resolved_fact_ids r \<and>
        dval (lo (consistent_interval r')) = dval (lo (consistent_interval r)) \<and>
        dval (hi (consistent_interval r')) = dval (hi (consistent_interval r))"
      if r: "oim_reduce_group fs = Inr (Some r)" for r
    proof -
      have "oim_reduce_group gs \<noteq> Inr None" using none r by simp
      then obtain r' where r': "oim_reduce_group gs = Inr (Some r')"
        using no_err(1) by (cases "oim_reduce_group gs") auto
      show ?thesis
        using oim_reduce_Some_at [OF r Inr] oim_reduce_Some_at [OF r' qs] r' best srt
        by (auto simp: iv)
    qed
    then show ?thesis
      using none no_err by (cases "oim_reduce_group fs") (auto split: option.split)
  qed
qed

text \<open>
  Property C24: the reduction does not depend on the order of the facts: permuting a group whose fact
  ids are distinct gives the same failure, the same conflict, or the same published fact with the
  same ids and a numerically equal interval.
\<close>

theorem oim_reduce_order_independent:
  assumes "mset fs = mset gs" and "distinct (map occ_fact_id fs)"
  shows "case oim_reduce_group fs of
           Inl e \<Rightarrow> oim_reduce_group gs = Inl e
         | Inr None \<Rightarrow> oim_reduce_group gs = Inr None
         | Inr (Some r) \<Rightarrow> (\<exists>r'. oim_reduce_group gs = Inr (Some r') \<and>
             survivor_value r' = survivor_value r \<and> survivor_decimals r' = survivor_decimals r \<and>
             survivor_fact_id r' = survivor_fact_id r \<and> resolved_fact_ids r' = resolved_fact_ids r \<and>
             dval (lo (consistent_interval r')) = dval (lo (consistent_interval r)) \<and>
             dval (hi (consistent_interval r')) = dval (hi (consistent_interval r)))"
  by (rule oim_reduce_perm [OF assms])

theorem oim_reduce_order_independent_witness:
  "oim_reduce_group [\<lparr>occ_fact_id = 7, occ_value = Dec 10 0, occ_decimals = Some ''0''\<rparr>,
       \<lparr>occ_fact_id = 4, occ_value = Dec 20 0, occ_decimals = Some ''INF''\<rparr>] = Inr None \<and>
   oim_reduce_group [\<lparr>occ_fact_id = 4, occ_value = Dec 20 0, occ_decimals = Some ''INF''\<rparr>,
       \<lparr>occ_fact_id = 7, occ_value = Dec 10 0, occ_decimals = Some ''0''\<rparr>] = Inr None"
proof -
  let ?a = "\<lparr>occ_fact_id = 7, occ_value = Dec 10 0, occ_decimals = Some ''0''\<rparr>"
  let ?b = "\<lparr>occ_fact_id = 4, occ_value = Dec 20 0, occ_decimals = Some ''INF''\<rparr>"
  have "oim_reduce_group [?a, ?b] = Inr None" by code_simp
  then show ?thesis
    using oim_reduce_order_independent [of "[?a, ?b]" "[?b, ?a]"] by simp
qed

text \<open>
  The reported value of every fact, when it has at most 28 significant digits, lies in
  its own consistency interval, so a single fact is always consistent with itself.
\<close>

theorem fact_interval_contains_value:
  assumes "fact_interval v d = Inr i" and "\<bar>dcoef v\<bar> < 10 ^ 28"
  shows "dval (lo i) \<le> dval v \<and> dval v \<le> dval (hi i)"
  using assms interval_of_contains [of v]
  by (auto simp: fact_interval_def result_simps dec_prec_def)

theorem fact_interval_contains_value_witness:
  "fact_interval (Dec 5 0) (Some ''0'') = Inr \<lparr>lo = Dec 45 (-1), hi = Dec 55 (-1)\<rparr> \<and>
   dval (Dec 45 (-1)) \<le> dval (Dec 5 0)"
proof -
  have "fact_interval (Dec 5 0) (Some ''0'') = Inr \<lparr>lo = Dec 45 (-1), hi = Dec 55 (-1)\<rparr>"
    by code_simp
  from this fact_interval_contains_value [OF this] show ?thesis by simp
qed

end
