(* ===== verification/Registry_Db.thy ===== *)
theory Registry_Db
  imports Metric_Registry Interval Decimals
begin

text \<open>
  The persistent state of the registry: the contracts of mapping assertions
  (\<^verbatim>\<open>src/edgar/registry/mapping.py\<close>), the tables and constraints of \<^verbatim>\<open>db/registry_schema.py\<close>, and the
  statements of \<^verbatim>\<open>db/registry.py\<close>.

  A table is the list of its rows in insertion order.  A statement that violates a constraint
  raises \<^const>\<open>IntegrityError\<close>; the surrounding transaction is then rolled back, so a failing
  operation returns no new state.  The id column is an identity: ids are handed out in increasing
  order and never reused.  UUIDs and timestamps are opaque (strings and integers).
\<close>

section \<open>Mapping assertions (mapping.py)\<close>

datatype relation = Exact | Narrower | Broader | Related

datatype mapping_status = Candidate | Accepted | Rejected

datatype mapping_method =
    Curated
  | Deterministic_Rule
  | Lexical_Candidate
  | Structural_Candidate
  | Model_Candidate
  | Human_Review

datatype evidence_kind =
    Taxonomy_Identity | Label_Evidence | Documentation | Data_Type | Period_Type | Balance
  | Presentation_Path | Calculation_Relationship | Definition_Relationship | Unit_Usage
  | Dimension_Usage | Historical_Consistency | Value_Reconciliation | Human_Analysis | Model_Analysis

record evidence_item =
  ev_kind :: evidence_kind
  ev_summary :: "string option"
  ev_data :: "(string \<times> json) list"
  ev_accessions :: "string list"

record mapping_create =
  mc_concept :: string
  mc_target_metric_key :: string
  mc_relation :: relation
  mc_scope :: scope
  mc_method :: mapping_method
  mc_rationale :: "string option"
  mc_evidence :: "evidence_item list"
  mc_created_by :: string

record mapping_revision =
  mr_method :: mapping_method
  mr_rationale :: "string option"
  mr_evidence :: "evidence_item list"
  mr_created_by :: string

definition parse_clark_qname :: "string \<Rightarrow> (string \<times> string) res" where
  "parse_clark_qname v = (let t = py_strip v
     in if \<not> startswith t ''{'' \<or> CHR ''}'' \<notin> set t
        then Inl (ValueError ''source concept must be an exact expanded QName in Clark notation'')
        else res_bind (from_clark t) (\<lambda>parsed.
          case eq_namespace_uri parsed of
            None \<Rightarrow> Inl (ValueError ''source concept must include a non-empty namespace URI'')
          | Some ns \<Rightarrow> if ns = [] then Inl (ValueError ''source concept must include a non-empty namespace URI'')
                       else Inr (ns, eq_local_name parsed)))"

definition optional_text :: "string option \<Rightarrow> string option res" where
  "optional_text v = (case v of
     None \<Rightarrow> Inr None
   | Some s \<Rightarrow> let stripped = py_strip s
               in if stripped = [] then Inl (ValueError ''must be non-empty when provided'')
                  else Inr (Some stripped))"

definition no_fact_ids :: "(string \<times> json) list \<Rightarrow> (string \<times> json) list res" where
  "no_fact_ids v =
     (if \<exists>(key, _)\<in>set v. let lowered = py_lower key
           in contains lowered ''fact_id'' \<or> lowered \<in> {''source_fact_ids'', ''fact_ids''}
      then Inl (ValueError ''durable evidence must not contain source fact ids'') else Inr v)"

definition validate_evidence_item :: "evidence_item \<Rightarrow> evidence_item res" where
  "validate_evidence_item ev =
     res_bind (optional_text (ev_summary ev)) (\<lambda>summary.
     res_bind (no_fact_ids (ev_data ev)) (\<lambda>data.
     res_bind (map_res validate_accession (ev_accessions ev)) (\<lambda>accs.
       Inr \<lparr>ev_kind = ev_kind ev, ev_summary = summary, ev_data = data, ev_accessions = accs\<rparr>)))"

definition has_snapshot :: "evidence_item \<Rightarrow> bool" where
  "has_snapshot ev = (ev_data ev \<noteq> [])"

definition padded_cik :: "string option \<Rightarrow> string option res" where
  "padded_cik v = (case v of
     None \<Rightarrow> Inr None
   | Some c \<Rightarrow> res_bind (validate_cik c) (\<lambda>normalized.
       if c \<noteq> normalized then Inl (ValueError ''cik must be zero-padded'') else Inr (Some normalized)))"

definition scope_and_dates :: "scope \<Rightarrow> unit res" where
  "scope_and_dates s =
     (if sc_kind s = Global \<and> sc_issuer_cik s \<noteq> None
      then Inl (ValueError ''global scope requires issuer_cik to be omitted'')
      else if sc_kind s = Issuer \<and> sc_issuer_cik s = None then Inl (ValueError ''issuer scope requires issuer_cik'')
      else case (sc_from s, sc_to s) of
             (Some f, Some t) \<Rightarrow> if t < f then Inl (ValueError ''valid_from must be <= valid_to'') else Inr ()
           | _ \<Rightarrow> Inr ())"

definition validate_mapping_create :: "mapping_create \<Rightarrow> mapping_create res" where
  "validate_mapping_create c =
     res_bind (parse_clark_qname (mc_concept c)) (\<lambda>_.
     res_bind (non_empty_str (mc_target_metric_key c)) (\<lambda>key.
     res_bind (padded_cik (sc_issuer_cik (mc_scope c))) (\<lambda>cik.
     res_bind (optional_text (mc_rationale c)) (\<lambda>rationale.
     res_bind (map_res validate_evidence_item (mc_evidence c)) (\<lambda>evidence.
     res_bind (non_empty_str (mc_created_by c)) (\<lambda>created_by.
     res_bind (scope_and_dates ((mc_scope c)\<lparr>sc_issuer_cik := cik\<rparr>)) (\<lambda>_.
       Inr (c\<lparr>mc_target_metric_key := key, mc_scope := (mc_scope c)\<lparr>sc_issuer_cik := cik\<rparr>,
              mc_rationale := rationale, mc_evidence := evidence, mc_created_by := created_by\<rparr>))))))))"

definition validate_mapping_revision :: "mapping_revision \<Rightarrow> mapping_revision res" where
  "validate_mapping_revision r =
     res_bind (optional_text (mr_rationale r)) (\<lambda>rationale.
     res_bind (map_res validate_evidence_item (mr_evidence r)) (\<lambda>evidence.
     res_bind (non_empty_str (mr_created_by r)) (\<lambda>created_by.
       Inr (r\<lparr>mr_rationale := rationale, mr_evidence := evidence, mr_created_by := created_by\<rparr>))))"

section \<open>Tables (registry\_schema.py)\<close>

text \<open>The columns of a canonical metric that YAML determines, and the stored row.\<close>

record mirror =
  mp_key :: string
  mp_name :: string
  mp_kind :: string
  mp_statement :: string
  mp_period_type :: string
  mp_value_kind :: string
  mp_unit_dimension :: string
  mp_definition :: string
  mp_includes :: "string list"
  mp_excludes :: "string list"
  mp_definition_hash :: string

record metric_row =
  mw_columns :: mirror
  mw_synced_at :: int

abbreviation mw_key :: "metric_row \<Rightarrow> string" where
  "mw_key r \<equiv> mp_key (mw_columns r)"

text \<open>The claim of an assertion: the eight columns every revision copies (\<^verbatim>\<open>CLAIM_FIELDS\<close>).\<close>

record claim =
  cl_source_concept_id :: string
  cl_target_metric_key :: string
  cl_target_definition_hash :: string
  cl_relation :: relation
  cl_scope :: scope

record assertion_row =
  as_id :: int
  as_supersedes_id :: "int option"
  as_claim :: claim
  as_status :: mapping_status
  as_method :: mapping_method
  as_rationale :: "string option"
  as_evidence :: "evidence_item list"
  as_created_at :: int
  as_created_by :: string

record concept_row =
  co_id :: string
  co_namespace_uri :: string
  co_local_name :: string

record fact_source_row =
  fs_fact_id :: int
  fs_concept_id :: string
  fs_source_locator :: "json option"
  fs_raw_lexical_value :: "string option"
  fs_resolved_value_kind :: "string option"
  fs_resolved_numeric :: "decimal option"
  fs_resolved_text :: "string option"
  fs_is_nil :: bool
  fs_context_id :: int
  fs_unit_id :: "int option"
  fs_accession :: string
  fs_issuer_cik :: string
  fs_report_period_end :: "date option"
  fs_source_document :: "string option"
  fs_period_kind :: string
  fs_instant_lexical :: "string option"
  fs_start_lexical :: "string option"
  fs_end_lexical :: "string option"

record dimension_row =
  dm_context_id :: int
  dm_context_element :: string
  dm_member_kind :: string
  dm_typed_member :: "json option"
  dm_dimension_namespace_uri :: string
  dm_dimension_local_name :: string
  dm_member_namespace_uri :: "string option"
  dm_member_local_name :: "string option"

record measure_row =
  um_unit_id :: int
  um_side :: string
  um_ordinal :: int
  um_measure_namespace_uri :: "string option"
  um_measure_local_name :: string

record db =
  db_metrics :: "metric_row list"
  db_assertions :: "assertion_row list"
  db_next_id :: int
  db_concepts :: "concept_row list"
  db_issuers :: "string list"
  db_facts :: "fact_source_row list"
  db_dimensions :: "dimension_row list"
  db_measures :: "measure_row list"

definition sha256_check :: "string \<Rightarrow> bool" where
  "sha256_check s = (length s = 64 \<and> list_all is_hex s)"

text \<open>\<^verbatim>\<open>btrim(s) <> ''\<close> of SQL: trims spaces only.\<close>

definition btrim_nonempty :: "string \<Rightarrow> bool" where
  "btrim_nonempty s = (strip_by (\<lambda>c. c = CHR '' '') s \<noteq> [])"

definition metric_row_checks :: "mirror \<Rightarrow> bool" where
  "metric_row_checks r = (mp_kind r = ''reported'' \<and> mp_statement r \<in> fst ` set statement_names \<and>
     mp_period_type r \<in> fst ` set period_type_names \<and> mp_value_kind r = ''numeric'' \<and>
     mp_unit_dimension r \<in> fst ` set unit_dimension_names \<and> sha256_check (mp_definition_hash r))"

definition assertion_row_checks :: "assertion_row \<Rightarrow> bool" where
  "assertion_row_checks r = (sha256_check (cl_target_definition_hash (as_claim r)) \<and>
     btrim_nonempty (as_created_by r) \<and>
     (sc_kind (cl_scope (as_claim r)) = Global \<and> sc_issuer_cik (cl_scope (as_claim r)) = None \<or>
      sc_kind (cl_scope (as_claim r)) = Issuer \<and> sc_issuer_cik (cl_scope (as_claim r)) \<noteq> None) \<and>
     (case (sc_from (cl_scope (as_claim r)), sc_to (cl_scope (as_claim r))) of
        (Some f, Some t) \<Rightarrow> f \<le> t | _ \<Rightarrow> True) \<and>
     (as_status r = Accepted \<longrightarrow>
        (case as_rationale r of None \<Rightarrow> False | Some t \<Rightarrow> btrim_nonempty t) \<and> as_evidence r \<noteq> []) \<and>
     (as_status r = Rejected \<longrightarrow> (case as_rationale r of None \<Rightarrow> False | Some t \<Rightarrow> btrim_nonempty t)))"

definition assertion_row_keys :: "db \<Rightarrow> assertion_row \<Rightarrow> bool" where
  "assertion_row_keys db r =
     ((case as_supersedes_id r of
         None \<Rightarrow> True
       | Some p \<Rightarrow> Some p \<notin> as_supersedes_id ` set (db_assertions db) \<and> p \<in> as_id ` set (db_assertions db)) \<and>
      cl_source_concept_id (as_claim r) \<in> co_id ` set (db_concepts db) \<and>
      cl_target_metric_key (as_claim r) \<in> mw_key ` set (db_metrics db) \<and>
      (case sc_issuer_cik (cl_scope (as_claim r)) of None \<Rightarrow> True | Some c \<Rightarrow> c \<in> set (db_issuers db)))"

section \<open>Statements (db/registry.py)\<close>

definition fetch_canonical_metrics :: "db \<Rightarrow> (string \<times> metric_row) list" where
  "fetch_canonical_metrics db = map (\<lambda>r. (mw_key r, r)) (db_metrics db)"

definition referenced_metric_keys :: "db \<Rightarrow> string list" where
  "referenced_metric_keys db = map (\<lambda>r. cl_target_metric_key (as_claim r)) (db_assertions db)"

definition insert_canonical_metric :: "metric_row \<Rightarrow> db \<Rightarrow> db res" where
  "insert_canonical_metric row db =
     (if mw_key row \<in> mw_key ` set (db_metrics db) then Inl (IntegrityError ''canonical_metric_pkey'')
      else if \<not> metric_row_checks (mw_columns row) then Inl (IntegrityError ''canonical_metric check'')
      else Inr (db\<lparr>db_metrics := db_metrics db @ [row]\<rparr>))"

definition update_canonical_metric :: "string \<Rightarrow> metric_row \<Rightarrow> db \<Rightarrow> db res" where
  "update_canonical_metric key row db =
     (if key \<notin> mw_key ` set (db_metrics db) then Inr db
      else if mw_key row \<noteq> key then Inl (IntegrityError ''canonical_metric_pkey'')
      else if \<not> metric_row_checks (mw_columns row) then Inl (IntegrityError ''canonical_metric check'')
      else Inr (db\<lparr>db_metrics := map (\<lambda>r. if mw_key r = key then row else r) (db_metrics db)\<rparr>))"

definition delete_canonical_metrics :: "string list \<Rightarrow> db \<Rightarrow> db res" where
  "delete_canonical_metrics keys db =
     (if \<exists>k\<in>set keys. k \<in> mw_key ` set (db_metrics db) \<and> k \<in> set (referenced_metric_keys db)
      then Inl (IntegrityError ''mapping_assertion_target_metric_key_fkey'')
      else Inr (db\<lparr>db_metrics := filter (\<lambda>r. mw_key r \<notin> set keys) (db_metrics db)\<rparr>))"

definition fetch_canonical_metric :: "db \<Rightarrow> string \<Rightarrow> metric_row option" where
  "fetch_canonical_metric db key = find (\<lambda>r. mw_key r = key) (db_metrics db)"

definition fetch_concept_by_qname :: "db \<Rightarrow> string \<Rightarrow> string \<Rightarrow> concept_row option" where
  "fetch_concept_by_qname db ns loc =
     find (\<lambda>r. co_namespace_uri r = ns \<and> co_local_name r = loc) (db_concepts db)"

definition fetch_issuer :: "db \<Rightarrow> string \<Rightarrow> string option" where
  "fetch_issuer db cik = find (\<lambda>c. c = cik) (db_issuers db)"

definition insert_mapping_assertion :: "assertion_row \<Rightarrow> db \<Rightarrow> (db \<times> int) res" where
  "insert_mapping_assertion row db =
     (if \<not> assertion_row_checks row then Inl (IntegrityError ''mapping_assertion check'')
      else if \<not> assertion_row_keys db row then Inl (IntegrityError ''mapping_assertion key'')
      else Inr (db\<lparr>db_assertions := db_assertions db @ [row\<lparr>as_id := db_next_id db\<rparr>],
                   db_next_id := db_next_id db + 1\<rparr>, db_next_id db))"

definition fetch_mapping_assertion :: "db \<Rightarrow> int \<Rightarrow> assertion_row option" where
  "fetch_mapping_assertion db i = find (\<lambda>r. as_id r = i) (db_assertions db)"

definition lock_source_concept :: "db \<Rightarrow> string \<Rightarrow> unit res" where
  "lock_source_concept db cid =
     (if cid \<in> co_id ` set (db_concepts db) then Inr () else Inl (LookupError ''source.concept not found''))"

definition successor_id :: "db \<Rightarrow> int \<Rightarrow> int option res" where
  "successor_id db i = (case filter (\<lambda>r. as_supersedes_id r = Some i) (db_assertions db) of
     [] \<Rightarrow> Inr None
   | [r] \<Rightarrow> Inr (Some (as_id r))
   | _ \<Rightarrow> Inl MultipleResultsFound)"

definition fetch_current_assertions :: "db \<Rightarrow> assertion_row list" where
  "fetch_current_assertions db =
     filter (\<lambda>r. Some (as_id r) \<notin> as_supersedes_id ` set (db_assertions db)) (db_assertions db)"

text \<open>The two loops of \<^verbatim>\<open>fetch_chain\<close>; the first argument bounds the number of rounds.\<close>

fun chain_root :: "nat \<Rightarrow> db \<Rightarrow> assertion_row \<Rightarrow> assertion_row option" where
  "chain_root 0 db r = None"
| "chain_root (Suc n) db r = (case as_supersedes_id r of
     None \<Rightarrow> Some r
   | Some p \<Rightarrow> (case fetch_mapping_assertion db p of
        None \<Rightarrow> Some r
      | Some predecessor \<Rightarrow> chain_root n db predecessor))"

fun chain_forward :: "nat \<Rightarrow> db \<Rightarrow> assertion_row \<Rightarrow> assertion_row list option res" where
  "chain_forward 0 db r = Inr None"
| "chain_forward (Suc n) db r = res_bind (successor_id db (as_id r)) (\<lambda>nxt. case nxt of
     None \<Rightarrow> Inr (Some [r])
   | Some i \<Rightarrow> (case fetch_mapping_assertion db i of
        None \<Rightarrow> Inr (Some [r])
      | Some row \<Rightarrow> res_bind (chain_forward n db row) (\<lambda>rest. Inr (map_option (\<lambda>xs. r # xs) rest))))"

definition fetch_chain :: "db \<Rightarrow> int \<Rightarrow> assertion_row list option res" where
  "fetch_chain db i = (case fetch_mapping_assertion db i of
     None \<Rightarrow> Inr (Some [])
   | Some current \<Rightarrow>
       (let bound = Suc (length (db_assertions db))
        in case chain_root bound db current of
             None \<Rightarrow> Inr None
           | Some first \<Rightarrow> chain_forward bound db first))"

definition matches :: "'a option \<Rightarrow> 'a \<Rightarrow> bool" where
  "matches wanted x = (case wanted of None \<Rightarrow> True | Some w \<Rightarrow> x = w)"

definition list_current_assertions ::
    "db \<Rightarrow> mapping_status option \<Rightarrow> relation option \<Rightarrow> string option \<Rightarrow> string option \<Rightarrow> string option
      \<Rightarrow> assertion_row list" where
  "list_current_assertions db status rel mkey issuer_cik cid =
     filter (\<lambda>r. matches status (as_status r) \<and> matches rel (cl_relation (as_claim r)) \<and>
       matches mkey (cl_target_metric_key (as_claim r)) \<and>
       (case issuer_cik of None \<Rightarrow> True | Some c \<Rightarrow> sc_issuer_cik (cl_scope (as_claim r)) = Some c) \<and>
       matches cid (cl_source_concept_id (as_claim r))) (fetch_current_assertions db)"

definition fetch_concept_by_id :: "db \<Rightarrow> string \<Rightarrow> concept_row option" where
  "fetch_concept_by_id db cid = find (\<lambda>r. co_id r = cid) (db_concepts db)"

definition fetch_concepts_by_ids :: "db \<Rightarrow> string list \<Rightarrow> (string \<times> concept_row) list" where
  "fetch_concepts_by_ids db ids =
     map (\<lambda>r. (co_id r, r)) (filter (\<lambda>r. co_id r \<in> set ids) (db_concepts db))"

definition fetch_facts_for_concept :: "db \<Rightarrow> string \<Rightarrow> string option \<Rightarrow> fact_source_row list" where
  "fetch_facts_for_concept db cid issuer_cik =
     filter (\<lambda>f. fs_concept_id f = cid \<and> matches issuer_cik (fs_issuer_cik f)) (db_facts db)"

definition fetch_dimensions_for_contexts :: "db \<Rightarrow> int list \<Rightarrow> int \<Rightarrow> dimension_row list" where
  "fetch_dimensions_for_contexts db context_ids cid =
     (if cid \<in> set context_ids then filter (\<lambda>d. dm_context_id d = cid) (db_dimensions db) else [])"

definition fetch_measures_for_units :: "db \<Rightarrow> int list \<Rightarrow> int \<Rightarrow> measure_row list" where
  "fetch_measures_for_units db unit_ids uid =
     (if uid \<in> set unit_ids
      then sort_key (\<lambda>m. (um_side m, um_ordinal m)) (filter (\<lambda>m. um_unit_id m = uid) (db_measures db)) else [])"

end
