(* ===== verification/Ledger.thy ===== *)
theory Ledger
  imports Registry_Db
begin

text \<open>
  \<^verbatim>\<open>src/edgar/registry/service.py\<close>: the registry service.  Every operation is a transaction on the
  database: it returns the new database and its result, or an error and no new state.

  Arguments that stand for code outside: \<open>sha\<close> (SHA-256) and \<open>yaml\<close>, what \<^verbatim>\<open>load_canonical_registry\<close>
  returned when the operation read the metrics file.  Timestamps are passed in.
\<close>

section \<open>Operations\<close>

definition load_yaml :: "loaded_registry res \<Rightarrow> loaded_registry res" where
  "load_yaml yaml = (case yaml of
     Inl (OSError s) \<Rightarrow> Inl (RegistryError s)
   | Inl (RegistryValidationError s) \<Rightarrow> Inl (RegistryError s)
   | r \<Rightarrow> r)"

definition mirror_payload :: "(string \<Rightarrow> string) \<Rightarrow> canonical_metric \<Rightarrow> mirror" where
  "mirror_payload sha m = \<lparr>mp_key = cm_key m, mp_name = cm_name m, mp_kind = ''reported'',
     mp_statement = name_of statement_names (cm_statement m),
     mp_period_type = name_of period_type_names (cm_period_type m), mp_value_kind = ''numeric'',
     mp_unit_dimension = name_of unit_dimension_names (cm_unit_dimension m),
     mp_definition = cm_definition m, mp_includes = cm_includes m, mp_excludes = cm_excludes m,
     mp_definition_hash = definition_hash sha m\<rparr>"

definition row_mirror_payload :: "metric_row \<Rightarrow> mirror" where
  "row_mirror_payload row = mw_columns row"

definition require_yaml_mirror_match :: "(string \<Rightarrow> string) \<Rightarrow> canonical_metric \<Rightarrow> metric_row option \<Rightarrow> unit res" where
  "require_yaml_mirror_match sha m row = (case row of
     None \<Rightarrow> Inl RegistryOutOfSyncError
   | Some r \<Rightarrow> if mirror_payload sha m \<noteq> row_mirror_payload r then Inl RegistryOutOfSyncError else Inr ())"

definition require_current :: "db \<Rightarrow> int \<Rightarrow> assertion_row res" where
  "require_current db i = (case fetch_mapping_assertion db i of
     None \<Rightarrow> Inl (MappingDecisionError ''mapping assertion not found'')
   | Some row \<Rightarrow> res_bind (successor_id db i) (\<lambda>nxt.
       if nxt \<noteq> None then Inl (MappingDecisionError ''mapping assertion is not the current revision'')
       else Inr row))"

definition require_yaml_metric ::
    "(string \<Rightarrow> string) \<Rightarrow> loaded_registry res \<Rightarrow> db \<Rightarrow> string \<Rightarrow> canonical_metric res" where
  "require_yaml_metric sha yaml db key =
     res_bind (load_yaml yaml) (\<lambda>reg. case registry_get reg key of
       None \<Rightarrow> Inl (MappingDecisionError ''unknown canonical metric'')
     | Some metric \<Rightarrow> res_bind (require_yaml_mirror_match sha metric (fetch_canonical_metric db key))
         (\<lambda>_. Inr metric))"

definition propose_mapping ::
    "(string \<Rightarrow> string) \<Rightarrow> loaded_registry res \<Rightarrow> int \<Rightarrow> mapping_create \<Rightarrow> db \<Rightarrow> (db \<times> int) res" where
  "propose_mapping sha yaml now create db =
     res_bind (parse_clark_qname (mc_concept create)) (\<lambda>(ns, loc).
     case fetch_concept_by_qname db ns loc of
       None \<Rightarrow> Inl ConceptNotFoundError
     | Some concept \<Rightarrow>
         if (case sc_issuer_cik (mc_scope create) of None \<Rightarrow> False | Some c \<Rightarrow> fetch_issuer db c = None)
         then Inl (MappingDecisionError ''unknown issuer CIK'')
         else res_bind (require_yaml_metric sha yaml db (mc_target_metric_key create)) (\<lambda>metric.
           insert_mapping_assertion
             \<lparr>as_id = 0, as_supersedes_id = None,
              as_claim = \<lparr>cl_source_concept_id = co_id concept, cl_target_metric_key = cm_key metric,
                cl_target_definition_hash = definition_hash sha metric, cl_relation = mc_relation create,
                cl_scope = mc_scope create\<rparr>,
              as_status = Candidate, as_method = mc_method create, as_rationale = mc_rationale create,
              as_evidence = mc_evidence create, as_created_at = now, as_created_by = mc_created_by create\<rparr> db))"

definition blank_rationale :: "mapping_revision \<Rightarrow> bool" where
  "blank_rationale r = (case mr_rationale r of None \<Rightarrow> True | Some s \<Rightarrow> py_strip s = [])"

definition require_accepted_evidence :: "mapping_revision \<Rightarrow> string \<Rightarrow> string \<Rightarrow> unit res" where
  "require_accepted_evidence revision yaml_hash candidate_hash =
     (if candidate_hash \<noteq> yaml_hash then Inl MetricDefinitionChangedError
      else if blank_rationale revision
      then Inl (MappingDecisionError ''accepted mappings require a non-empty rationale'')
      else if mr_evidence revision = []
      then Inl (MappingDecisionError ''accepted mappings require non-empty evidence'')
      else if \<exists>item\<in>set (mr_evidence revision). \<not> has_snapshot item
      then Inl (MappingDecisionError ''accepted evidence must contain snapshots, not empty data'')
      else Inr ())"

definition conflicts_with :: "assertion_row \<Rightarrow> int \<Rightarrow> assertion_row \<Rightarrow> bool" where
  "conflicts_with candidate ignore_id other =
     (as_id other \<noteq> ignore_id \<and> as_status other = Accepted \<and> cl_relation (as_claim other) = Exact \<and>
      cl_source_concept_id (as_claim other) = cl_source_concept_id (as_claim candidate) \<and>
      scopes_overlap (cl_scope (as_claim candidate)) (cl_scope (as_claim other)))"

definition conflict_if_needed :: "db \<Rightarrow> assertion_row \<Rightarrow> int \<Rightarrow> unit res" where
  "conflict_if_needed db candidate ignore_id =
     (if cl_relation (as_claim candidate) \<noteq> Exact then Inr ()
      else case find (conflicts_with candidate ignore_id) (fetch_current_assertions db) of
             None \<Rightarrow> Inr ()
           | Some other \<Rightarrow> Inl (ConflictingExactMappingError (as_id other)))"

definition revise :: "assertion_row \<Rightarrow> int \<Rightarrow> mapping_status \<Rightarrow> mapping_revision \<Rightarrow> int \<Rightarrow> assertion_row" where
  "revise current i st revision now =
     \<lparr>as_id = 0, as_supersedes_id = Some i, as_claim = as_claim current, as_status = st,
      as_method = mr_method revision, as_rationale = mr_rationale revision,
      as_evidence = mr_evidence revision, as_created_at = now, as_created_by = mr_created_by revision\<rparr>"

definition accept_mapping ::
    "(string \<Rightarrow> string) \<Rightarrow> loaded_registry res \<Rightarrow> int \<Rightarrow> int \<Rightarrow> mapping_revision \<Rightarrow> db \<Rightarrow> (db \<times> int) res" where
  "accept_mapping sha yaml now i revision db =
     res_bind (require_current db i) (\<lambda>current.
       if as_status current \<noteq> Candidate
       then Inl (MappingDecisionError ''only a current candidate can be accepted'')
       else res_bind (require_yaml_metric sha yaml db (cl_target_metric_key (as_claim current))) (\<lambda>metric.
         res_bind (require_accepted_evidence revision (definition_hash sha metric)
                     (cl_target_definition_hash (as_claim current))) (\<lambda>_.
         res_bind (lock_source_concept db (cl_source_concept_id (as_claim current))) (\<lambda>_.
         res_bind (conflict_if_needed db current i) (\<lambda>_.
           insert_mapping_assertion (revise current i Accepted revision now) db)))))"

definition reject_mapping :: "int \<Rightarrow> int \<Rightarrow> mapping_revision \<Rightarrow> db \<Rightarrow> (db \<times> int) res" where
  "reject_mapping now i revision db =
     res_bind (require_current db i) (\<lambda>current.
       if as_status current \<notin> {Candidate, Accepted}
       then Inl (MappingDecisionError ''rejected assertions are terminal'')
       else if blank_rationale revision
       then Inl (MappingDecisionError ''rejected mappings require a non-empty rationale'')
       else insert_mapping_assertion (revise current i Rejected revision now) db)"

section \<open>Synchronisation\<close>

record sync_result =
  sy_added :: "string list"
  sy_changed :: "string list"
  sy_removed :: "string list"
  sy_unchanged :: "string list"

definition sync_counts :: "sync_result \<Rightarrow> nat \<times> nat \<times> nat \<times> nat" where
  "sync_counts r = (length (sy_added r), length (sy_changed r), length (sy_removed r), length (sy_unchanged r))"

definition sync_step ::
    "(string \<Rightarrow> string) \<Rightarrow> int \<Rightarrow> (string \<times> metric_row) list \<Rightarrow> string \<times> canonical_metric
      \<Rightarrow> db \<times> sync_result \<Rightarrow> (db \<times> sync_result) res" where
  "sync_step sha synced_at existing item st = (case item of (key, metric) \<Rightarrow> case st of (db, acc) \<Rightarrow>
     (let row = \<lparr>mw_columns = mirror_payload sha metric, mw_synced_at = synced_at\<rparr>
      in case map_of existing key of
           None \<Rightarrow> res_bind (insert_canonical_metric row db) (\<lambda>db'.
             Inr (db', acc\<lparr>sy_added := sy_added acc @ [key]\<rparr>))
         | Some old \<Rightarrow>
             if row_mirror_payload old = mirror_payload sha metric
             then Inr (db, acc\<lparr>sy_unchanged := sy_unchanged acc @ [key]\<rparr>)
             else res_bind (update_canonical_metric key row db) (\<lambda>db'.
               Inr (db', acc\<lparr>sy_changed := sy_changed acc @ [key]\<rparr>))))"

definition sync_canonical_metrics ::
    "(string \<Rightarrow> string) \<Rightarrow> loaded_registry res \<Rightarrow> int \<Rightarrow> db \<Rightarrow> (db \<times> sync_result) res" where
  "sync_canonical_metrics sha yaml now db =
     res_bind (load_yaml yaml) (\<lambda>reg.
     res_bind (fold_res (sync_step sha now (fetch_canonical_metrics db)) (by_key reg)
         (db, \<lparr>sy_added = [], sy_changed = [], sy_removed = [], sy_unchanged = []\<rparr>)) (\<lambda>(db1, acc).
       let removed = sort (remdups (filter (\<lambda>k. k \<notin> fst ` set (by_key reg)) (map fst (fetch_canonical_metrics db))));
           blocked = filter (\<lambda>k. k \<in> set (referenced_metric_keys db1)) removed
       in if removed \<noteq> [] \<and> blocked \<noteq> [] then Inl (UnsafeMetricDeletionError blocked)
          else res_bind (if removed = [] then Inr db1 else delete_canonical_metrics removed db1) (\<lambda>db2.
            Inr (db2, \<lparr>sy_added = sort (sy_added acc), sy_changed = sort (sy_changed acc),
                       sy_removed = removed, sy_unchanged = sort (sy_unchanged acc)\<rparr>))))"

section \<open>The ledger invariant\<close>

definition is_current :: "db \<Rightarrow> assertion_row \<Rightarrow> bool" where
  "is_current db r = (Some (as_id r) \<notin> as_supersedes_id ` set (db_assertions db))"

fun may_follow :: "mapping_status \<Rightarrow> mapping_status \<Rightarrow> bool" where
  "may_follow Candidate Accepted = True"
| "may_follow Candidate Rejected = True"
| "may_follow Accepted Rejected = True"
| "may_follow _ _ = False"

definition revision_of :: "assertion_row \<Rightarrow> assertion_row \<Rightarrow> bool" where
  "revision_of q r = (as_supersedes_id r = Some (as_id q) \<and> as_id q < as_id r \<and>
     as_claim q = as_claim r \<and> may_follow (as_status q) (as_status r))"

definition chains_inv :: "db \<Rightarrow> bool" where
  "chains_inv db =
     (distinct (map as_id (db_assertions db)) \<and>
      (\<forall>r\<in>set (db_assertions db). as_id r < db_next_id db) \<and>
      (\<forall>r\<in>set (db_assertions db). case as_supersedes_id r of
         None \<Rightarrow> as_status r = Candidate
       | Some _ \<Rightarrow> (\<exists>q\<in>set (db_assertions db). revision_of q r)) \<and>
      (\<forall>r\<in>set (db_assertions db). \<forall>s\<in>set (db_assertions db).
         as_supersedes_id r \<noteq> None \<longrightarrow> as_supersedes_id r = as_supersedes_id s \<longrightarrow> r = s))"

definition exact_conflict :: "assertion_row \<Rightarrow> assertion_row \<Rightarrow> bool" where
  "exact_conflict r s =
     (as_status r = Accepted \<and> as_status s = Accepted \<and>
      cl_relation (as_claim r) = Exact \<and> cl_relation (as_claim s) = Exact \<and>
      cl_source_concept_id (as_claim r) = cl_source_concept_id (as_claim s) \<and>
      scopes_overlap (cl_scope (as_claim r)) (cl_scope (as_claim s)))"

definition exact_inv :: "db \<Rightarrow> bool" where
  "exact_inv db = (\<forall>r\<in>set (db_assertions db). \<forall>s\<in>set (db_assertions db).
     is_current db r \<longrightarrow> is_current db s \<longrightarrow> exact_conflict r s \<longrightarrow> r = s)"

definition foreign_inv :: "db \<Rightarrow> bool" where
  "foreign_inv db =
     (distinct (map mw_key (db_metrics db)) \<and>
      (\<forall>m\<in>set (db_metrics db). metric_row_checks (mw_columns m)) \<and>
      (\<forall>r\<in>set (db_assertions db). assertion_row_checks r \<and>
         cl_source_concept_id (as_claim r) \<in> co_id ` set (db_concepts db) \<and>
         cl_target_metric_key (as_claim r) \<in> mw_key ` set (db_metrics db) \<and>
         (case sc_issuer_cik (cl_scope (as_claim r)) of None \<Rightarrow> True | Some c \<Rightarrow> c \<in> set (db_issuers db))))"

definition ledger_inv :: "db \<Rightarrow> bool" where
  "ledger_inv db = (chains_inv db \<and> exact_inv db \<and> foreign_inv db)"

end
