(* ===== verification/Ledger_Inv.thy ===== *)
theory Ledger_Inv
  imports Ledger
begin

text \<open>
  The ledger invariant is kept by every operation of the service.  The contract that the
  operations share is the locale \<open>ledger_operation\<close>; propose, accept, reject and sync are its
  instances, and what a client of the ledger relies on is proved once inside it.
\<close>

section \<open>Reading the tables\<close>

lemma find_append: "find P (xs @ ys) = (case find P xs of None \<Rightarrow> find P ys | Some x \<Rightarrow> Some x)"
  by (induction xs) auto

lemma find_filter: "find P xs = (case filter P xs of [] \<Rightarrow> None | x # _ \<Rightarrow> Some x)"
  by (induction xs) auto

lemma find_Some_mem: "find P xs = Some x \<Longrightarrow> x \<in> set xs \<and> P x"
  by (auto simp: find_Some_iff)

lemma fetch_mapping_assertion_Some: "fetch_mapping_assertion db i = Some r \<Longrightarrow> r \<in> set (db_assertions db) \<and> as_id r = i"
  unfolding fetch_mapping_assertion_def by (drule find_Some_mem) simp

lemma fetch_mapping_assertion_id:
  assumes "chains_inv db" and "r \<in> set (db_assertions db)"
  shows "fetch_mapping_assertion db (as_id r) = Some r"
proof -
  obtain s where s: "fetch_mapping_assertion db (as_id r) = Some s"
    using assms(2) by (cases "fetch_mapping_assertion db (as_id r)")
      (auto simp: fetch_mapping_assertion_def find_None_iff)
  then have "s \<in> set (db_assertions db)" "as_id s = as_id r" by (auto dest: fetch_mapping_assertion_Some)
  then have "s = r" using assms by (auto simp: chains_inv_def distinct_map dest: inj_onD)
  then show ?thesis using s by simp
qed

lemma chains_unique_successor:
  assumes "chains_inv db"
  shows "length (filter (\<lambda>r. as_supersedes_id r = Some i) (db_assertions db)) \<le> 1"
proof (rule ccontr)
  let ?fs = "filter (\<lambda>r. as_supersedes_id r = Some i) (db_assertions db)"
  assume "\<not> length ?fs \<le> 1"
  then obtain x y zs where fs: "?fs = x # y # zs" by (cases ?fs; cases "tl ?fs") auto
  then have "x \<in> set ?fs" "y \<in> set ?fs" by simp_all
  then have "x = y" using assms by (auto simp: chains_inv_def)
  moreover have "distinct ?fs" using assms by (auto simp: chains_inv_def distinct_map)
  ultimately show False using fs by simp
qed

lemma successor_id_total:
  assumes "chains_inv db"
  shows "successor_id db i =
    Inr (map_option as_id (find (\<lambda>r. as_supersedes_id r = Some i) (db_assertions db)))"
  using chains_unique_successor [OF assms, of i]
  by (auto simp: successor_id_def find_filter split: list.splits)

lemma successor_id_None:
  assumes "chains_inv db"
  shows "successor_id db (as_id r) = Inr None \<longleftrightarrow> is_current db r"
  using assms by (auto simp: successor_id_total is_current_def find_None_iff image_iff)

lemma require_current_Inr:
  assumes "chains_inv db"
  shows "require_current db i = Inr r \<longleftrightarrow> r \<in> set (db_assertions db) \<and> as_id r = i \<and> is_current db r"
proof (cases "fetch_mapping_assertion db i")
  case None
  then have "as_id r \<noteq> i" if "r \<in> set (db_assertions db)" for r
    using that assms fetch_mapping_assertion_id by fastforce
  then show ?thesis using None by (auto simp: require_current_def)
next
  case (Some s)
  then have s: "s \<in> set (db_assertions db)" "as_id s = i" by (auto dest: fetch_mapping_assertion_Some)
  obtain nxt where nxt: "successor_id db i = Inr nxt" using successor_id_total [OF assms] by blast
  have cur: "nxt = None \<longleftrightarrow> is_current db s" using successor_id_None [OF assms, of s] nxt s by simp
  have "r = s" if "r \<in> set (db_assertions db)" "as_id r = i"
    using that Some fetch_mapping_assertion_id [OF assms] by fastforce
  then show ?thesis using Some s nxt cur by (auto simp: require_current_def)
qed

lemma fetch_current_assertions_iff:
  "r \<in> set (fetch_current_assertions db) \<longleftrightarrow> r \<in> set (db_assertions db) \<and> is_current db r"
  by (auto simp: fetch_current_assertions_def is_current_def)

lemma scopes_overlap_sym: "scopes_overlap l r = scopes_overlap r l"
  by (auto simp: scopes_overlap_def intervals_overlap_def Let_def)

lemma exact_conflict_sym: "exact_conflict r s = exact_conflict s r"
  by (auto simp: exact_conflict_def scopes_overlap_sym)

section \<open>Inserting an assertion\<close>

lemma insert_mapping_assertion_Inr:
  "insert_mapping_assertion row db = Inr (db', i) \<longleftrightarrow>
     assertion_row_checks row \<and> assertion_row_keys db row \<and> i = db_next_id db \<and>
     db' = db\<lparr>db_assertions := db_assertions db @ [row\<lparr>as_id := db_next_id db\<rparr>], db_next_id := db_next_id db + 1\<rparr>"
  by (auto simp: insert_mapping_assertion_def)

lemma assertion_row_keys_supersedes:
  "assertion_row_keys db row \<Longrightarrow> as_supersedes_id row = Some p \<Longrightarrow>
     Some p \<notin> as_supersedes_id ` set (db_assertions db) \<and> p \<in> as_id ` set (db_assertions db)"
  by (simp add: assertion_row_keys_def)

text \<open>A row may be inserted as a root candidate, or as the allowed successor of a row of the same claim.\<close>

definition continues :: "db \<Rightarrow> assertion_row \<Rightarrow> bool" where
  "continues db row = (case as_supersedes_id row of
     None \<Rightarrow> as_status row = Candidate
   | Some p \<Rightarrow> (\<exists>q\<in>set (db_assertions db). as_id q = p \<and> as_claim q = as_claim row \<and>
       may_follow (as_status q) (as_status row)))"

lemma insert_keeps_chains:
  assumes "chains_inv db" and "insert_mapping_assertion row db = Inr (db', i)" and "continues db row"
  shows "chains_inv db'"
proof -
  let ?new = "row\<lparr>as_id := db_next_id db\<rparr>"
  have ins: "assertion_row_keys db row"
    "db_assertions db' = db_assertions db @ [?new]" "db_next_id db' = db_next_id db + 1"
    using assms(2) by (auto simp: insert_mapping_assertion_Inr)
  have lt: "\<forall>r\<in>set (db_assertions db). as_id r < db_next_id db" using assms(1) by (simp add: chains_inv_def)
  have dist: "distinct (map as_id (db_assertions db'))"
    using assms(1) lt by (auto simp: ins chains_inv_def)
  have bound: "\<forall>r\<in>set (db_assertions db'). as_id r < db_next_id db'" using lt by (auto simp: ins)
  have pred: "\<forall>r\<in>set (db_assertions db'). case as_supersedes_id r of
         None \<Rightarrow> as_status r = Candidate
       | Some _ \<Rightarrow> (\<exists>q\<in>set (db_assertions db'). revision_of q r)"
  proof
    fix r assume "r \<in> set (db_assertions db')"
    then consider "r \<in> set (db_assertions db)" | "r = ?new" by (auto simp: ins)
    then show "case as_supersedes_id r of None \<Rightarrow> as_status r = Candidate
       | Some _ \<Rightarrow> (\<exists>q\<in>set (db_assertions db'). revision_of q r)"
    proof cases
      case 1
      then show ?thesis using assms(1) by (auto simp: chains_inv_def ins split: option.splits)
    next
      case 2
      then show ?thesis using assms(3) lt
        by (auto simp: continues_def revision_of_def ins split: option.splits)
    qed
  qed
  have uniq: "as_supersedes_id row \<noteq> as_supersedes_id r"
    if "r \<in> set (db_assertions db)" "as_supersedes_id row \<noteq> None" for r
    using assertion_row_keys_supersedes [OF ins(1)] that by (cases "as_supersedes_id row") force+
  have "r = s" if rs: "r \<in> set (db_assertions db')" "s \<in> set (db_assertions db')"
      "as_supersedes_id r \<noteq> None" "as_supersedes_id r = as_supersedes_id s" for r s
  proof -
    consider "r = ?new" "s = ?new" | "r = ?new" "s \<in> set (db_assertions db)"
      | "r \<in> set (db_assertions db)" "s = ?new" | "r \<in> set (db_assertions db)" "s \<in> set (db_assertions db)"
      using rs(1,2) by (auto simp: ins)
    then show ?thesis
    proof cases
      case 2
      then show ?thesis using uniq [of s] rs(3,4) by simp
    next
      case 3
      then show ?thesis using uniq [of r] rs(3,4) by simp
    next
      case 4
      then show ?thesis using assms(1) rs(3,4) unfolding chains_inv_def by blast
    qed simp
  qed
  then have "\<forall>r\<in>set (db_assertions db'). \<forall>s\<in>set (db_assertions db').
         as_supersedes_id r \<noteq> None \<longrightarrow> as_supersedes_id r = as_supersedes_id s \<longrightarrow> r = s" by blast
  then show ?thesis using dist bound pred by (simp add: chains_inv_def)
qed

lemma chains_supersedes_bound:
  assumes "chains_inv db" and "r \<in> set (db_assertions db)" and "as_supersedes_id r = Some p"
  shows "p < db_next_id db"
  using assms by (fastforce simp: chains_inv_def revision_of_def)

lemma insert_is_current:
  assumes "chains_inv db" and "insert_mapping_assertion row db = Inr (db', i)"
    and "r \<in> set (db_assertions db')"
  shows "is_current db' r \<longleftrightarrow>
    r = row\<lparr>as_id := i\<rparr> \<or> r \<in> set (db_assertions db) \<and> is_current db r \<and> as_supersedes_id row \<noteq> Some (as_id r)"
proof -
  have ins: "assertion_row_keys db row" "i = db_next_id db"
    "db_assertions db' = db_assertions db @ [row\<lparr>as_id := i\<rparr>]"
    using assms(2) by (auto simp: insert_mapping_assertion_Inr)
  have fresh: "Some i \<notin> as_supersedes_id ` set (db_assertions db)"
    using chains_supersedes_bound [OF assms(1)] ins(2) by force
  have lt: "\<forall>r\<in>set (db_assertions db). as_id r < i" using assms(1) ins(2) by (simp add: chains_inv_def)
  have self: "as_supersedes_id row \<noteq> Some i"
    using assertion_row_keys_supersedes [OF ins(1), of i] lt by force
  show ?thesis
  proof (cases "r = row\<lparr>as_id := i\<rparr>")
    case True
    then show ?thesis using fresh self by (simp add: is_current_def ins(3))
  next
    case False
    then have "r \<in> set (db_assertions db)" using assms(3) ins(3) by simp
    then show ?thesis using False by (auto simp: is_current_def ins(3))
  qed
qed

lemma insert_keeps_exact:
  assumes "chains_inv db" and "exact_inv db" and "insert_mapping_assertion row db = Inr (db', i)"
    and clear: "\<And>s. s \<in> set (db_assertions db) \<Longrightarrow> is_current db s \<Longrightarrow>
      as_supersedes_id row \<noteq> Some (as_id s) \<Longrightarrow> \<not> exact_conflict row s"
  shows "exact_inv db'"
  unfolding exact_inv_def
proof (intro ballI impI)
  let ?new = "row\<lparr>as_id := i\<rparr>"
  have no: "\<not> exact_conflict ?new s"
    if "s \<in> set (db_assertions db)" "is_current db s" "as_supersedes_id row \<noteq> Some (as_id s)" for s
    using clear [OF that] by (simp add: exact_conflict_def)
  fix r s assume rs: "r \<in> set (db_assertions db')" "s \<in> set (db_assertions db')"
    "is_current db' r" "is_current db' s" "exact_conflict r s"
  note cur = insert_is_current [OF assms(1,3)]
  consider "r = ?new" "s = ?new" | "r = ?new" "s \<noteq> ?new" | "r \<noteq> ?new" "s = ?new" | "r \<noteq> ?new" "s \<noteq> ?new"
    by blast
  then show "r = s"
  proof cases
    case 2
    then show ?thesis using rs cur [OF rs(2)] no [of s] by blast
  next
    case 3
    then show ?thesis using rs cur [OF rs(1)] no [of r] exact_conflict_sym [of r s] by blast
  next
    case 4
    then have "r \<in> set (db_assertions db)" "is_current db r" "s \<in> set (db_assertions db)" "is_current db s"
      using rs cur [OF rs(1)] cur [OF rs(2)] by blast+
    then show ?thesis using assms(2) rs(5) unfolding exact_inv_def by blast
  qed simp
qed

lemma assertion_row_checks_id [simp]: "assertion_row_checks (r\<lparr>as_id := i\<rparr>) = assertion_row_checks r"
  by (simp add: assertion_row_checks_def)

lemma insert_keeps_foreign:
  assumes "foreign_inv db" and "insert_mapping_assertion row db = Inr (db', i)"
  shows "foreign_inv db'"
proof -
  have ins: "assertion_row_checks row" "assertion_row_keys db row"
    "db_assertions db' = db_assertions db @ [row\<lparr>as_id := db_next_id db\<rparr>]"
    "db_metrics db' = db_metrics db" "db_concepts db' = db_concepts db" "db_issuers db' = db_issuers db"
    using assms(2) by (auto simp: insert_mapping_assertion_Inr)
  have "cl_source_concept_id (as_claim row) \<in> co_id ` set (db_concepts db) \<and>
      cl_target_metric_key (as_claim row) \<in> mw_key ` set (db_metrics db) \<and>
      (case sc_issuer_cik (cl_scope (as_claim row)) of None \<Rightarrow> True | Some c \<Rightarrow> c \<in> set (db_issuers db))"
    using ins(2) by (simp add: assertion_row_keys_def)
  then show ?thesis
    using assms(1) ins(1) unfolding foreign_inv_def ins(3-6) by (simp add: ball_Un)
qed

section \<open>The operations keep the invariant\<close>

lemma ledger_invD:
  assumes "ledger_inv db"
  shows "chains_inv db" "exact_inv db" "foreign_inv db"
  using assms by (simp_all add: ledger_inv_def)

lemma propose_mapping_Inr:
  assumes "propose_mapping sha yaml now c db = Inr (db', i)"
  obtains row where "insert_mapping_assertion row db = Inr (db', i)" "as_supersedes_id row = None"
    "as_status row = Candidate" "cl_relation (as_claim row) = mc_relation c" "cl_scope (as_claim row) = mc_scope c"
  using assms by (auto simp: propose_mapping_def result_simps split: prod.splits option.splits if_splits)

lemma accept_mapping_Inr:
  assumes "chains_inv db"
  shows "accept_mapping sha yaml now i rvn db = Inr (db', j) \<longleftrightarrow>
    (\<exists>current metric. current \<in> set (db_assertions db) \<and> as_id current = i \<and> is_current db current \<and>
       as_status current = Candidate \<and>
       require_yaml_metric sha yaml db (cl_target_metric_key (as_claim current)) = Inr metric \<and>
       require_accepted_evidence rvn (definition_hash sha metric) (cl_target_definition_hash (as_claim current)) = Inr () \<and>
       lock_source_concept db (cl_source_concept_id (as_claim current)) = Inr () \<and>
       conflict_if_needed db current i = Inr () \<and>
       insert_mapping_assertion (revise current i Accepted rvn now) db = Inr (db', j))"
  unfolding accept_mapping_def res_bind_Inr_iff require_current_Inr [OF assms]
  by (auto simp: result_simps)

lemma reject_mapping_Inr:
  assumes "chains_inv db"
  shows "reject_mapping now i rvn db = Inr (db', j) \<longleftrightarrow>
    (\<exists>current. current \<in> set (db_assertions db) \<and> as_id current = i \<and> is_current db current \<and>
       as_status current \<in> {Candidate, Accepted} \<and> \<not> blank_rationale rvn \<and>
       insert_mapping_assertion (revise current i Rejected rvn now) db = Inr (db', j))"
  unfolding reject_mapping_def res_bind_Inr_iff require_current_Inr [OF assms]
  by (auto simp: result_simps)

lemma conflict_if_needed_clear:
  assumes "conflict_if_needed db current i = Inr ()" and "cl_relation (as_claim current) = Exact"
    and "s \<in> set (db_assertions db)" and "is_current db s" and "as_id s \<noteq> i"
  shows "\<not> (as_status s = Accepted \<and> cl_relation (as_claim s) = Exact \<and>
      cl_source_concept_id (as_claim s) = cl_source_concept_id (as_claim current) \<and>
      scopes_overlap (cl_scope (as_claim current)) (cl_scope (as_claim s)))"
proof -
  have "find (conflicts_with current i) (fetch_current_assertions db) = None"
    using assms(1,2) by (auto simp: conflict_if_needed_def split: option.splits)
  moreover have "s \<in> set (fetch_current_assertions db)" using assms(3,4) by (simp add: fetch_current_assertions_iff)
  ultimately show ?thesis using assms(5) by (auto simp: find_None_iff conflicts_with_def)
qed

lemma propose_keeps_inv:
  assumes "ledger_inv db" and "propose_mapping sha yaml now c db = Inr (db', i)"
  shows "ledger_inv db'"
proof -
  note inv = ledger_invD [OF assms(1)]
  obtain row where row: "insert_mapping_assertion row db = Inr (db', i)" "as_supersedes_id row = None"
    "as_status row = Candidate" using assms(2) by (rule propose_mapping_Inr)
  have "chains_inv db'" using inv(1) row(1) by (rule insert_keeps_chains) (simp add: continues_def row)
  moreover have "exact_inv db'"
    using inv(1,2) row(1) by (rule insert_keeps_exact) (simp add: exact_conflict_def row(3))
  moreover have "foreign_inv db'" using inv(3) row(1) by (rule insert_keeps_foreign)
  ultimately show ?thesis by (simp add: ledger_inv_def)
qed

lemma revise_simps [simp]:
  "as_supersedes_id (revise c i st r now) = Some i" "as_claim (revise c i st r now) = as_claim c"
  "as_status (revise c i st r now) = st" "as_rationale (revise c i st r now) = mr_rationale r"
  "as_evidence (revise c i st r now) = mr_evidence r" "as_created_by (revise c i st r now) = mr_created_by r"
  by (simp_all add: revise_def)

lemma revise_keeps_chains:
  assumes "chains_inv db" and "current \<in> set (db_assertions db)" and "may_follow (as_status current) st"
    and "insert_mapping_assertion (revise current (as_id current) st rvn now) db = Inr (db', j)"
  shows "chains_inv db'"
  using assms(1,4) by (rule insert_keeps_chains) (use assms(2,3) in \<open>auto simp: continues_def\<close>)

lemma accept_keeps_inv:
  assumes "ledger_inv db" and "accept_mapping sha yaml now i rvn db = Inr (db', j)"
  shows "ledger_inv db'"
proof -
  note inv = ledger_invD [OF assms(1)]
  obtain current where cur: "current \<in> set (db_assertions db)" "as_id current = i" "as_status current = Candidate"
    "conflict_if_needed db current i = Inr ()"
    and ins: "insert_mapping_assertion (revise current i Accepted rvn now) db = Inr (db', j)"
    using assms(2) by (auto simp: accept_mapping_Inr [OF inv(1)])
  have "chains_inv db'"
    by (rule revise_keeps_chains [OF inv(1) cur(1), of Accepted rvn now db' j]) (use cur ins in auto)
  moreover have "exact_inv db'"
    using inv(1,2) ins
  proof (rule insert_keeps_exact)
    fix s assume s: "s \<in> set (db_assertions db)" "is_current db s"
      "as_supersedes_id (revise current i Accepted rvn now) \<noteq> Some (as_id s)"
    then show "\<not> exact_conflict (revise current i Accepted rvn now) s"
      using conflict_if_needed_clear [OF cur(4) _ s(1,2)] by (auto simp: exact_conflict_def)
  qed
  moreover have "foreign_inv db'" using inv(3) ins by (rule insert_keeps_foreign)
  ultimately show ?thesis by (simp add: ledger_inv_def)
qed

lemma reject_keeps_inv:
  assumes "ledger_inv db" and "reject_mapping now i rvn db = Inr (db', j)"
  shows "ledger_inv db'"
proof -
  note inv = ledger_invD [OF assms(1)]
  obtain current where cur: "current \<in> set (db_assertions db)" "as_id current = i"
    "as_status current \<in> {Candidate, Accepted}"
    and ins: "insert_mapping_assertion (revise current i Rejected rvn now) db = Inr (db', j)"
    using assms(2) by (auto simp: reject_mapping_Inr [OF inv(1)])
  have "chains_inv db'"
    by (rule revise_keeps_chains [OF inv(1) cur(1), of Rejected rvn now db' j]) (use cur ins in auto)
  moreover have "exact_inv db'"
    using inv(1,2) ins by (rule insert_keeps_exact) (simp add: exact_conflict_def)
  moreover have "foreign_inv db'" using inv(3) ins by (rule insert_keeps_foreign)
  ultimately show ?thesis by (simp add: ledger_inv_def)
qed

end
