(* ===== verification/Ledger_Sync.thy ===== *)
theory Ledger_Sync
  imports Ledger_Inv
begin

text \<open>
  Synchronising the database mirror with the YAML registry
  (\<^verbatim>\<open>RegistryService.sync_canonical_metrics\<close>): a closed form of the whole transaction, from which its
  effect, its only failure and its idempotence follow.
\<close>

section \<open>A closed form of the synchronisation\<close>

definition row_for :: "(string \<Rightarrow> string) \<Rightarrow> int \<Rightarrow> canonical_metric \<Rightarrow> metric_row" where
  "row_for sha now m = \<lparr>mw_columns = mirror_payload sha m, mw_synced_at = now\<rparr>"

definition upd_row :: "(string \<Rightarrow> string) \<Rightarrow> int \<Rightarrow> canonical_metric list \<Rightarrow> metric_row \<Rightarrow> metric_row" where
  "upd_row sha now ms row = (case find (\<lambda>m. cm_key m = mw_key row) ms of
     None \<Rightarrow> row
   | Some m \<Rightarrow> if mw_columns row = mirror_payload sha m then row else row_for sha now m)"

definition new_metrics :: "metric_row list \<Rightarrow> canonical_metric list \<Rightarrow> canonical_metric list" where
  "new_metrics rows ms = filter (\<lambda>m. cm_key m \<notin> mw_key ` set rows) ms"

definition same_metrics :: "(string \<Rightarrow> string) \<Rightarrow> metric_row list \<Rightarrow> canonical_metric list \<Rightarrow> canonical_metric list" where
  "same_metrics sha rows ms =
     filter (\<lambda>m. \<exists>r\<in>set rows. mw_columns r = mirror_payload sha m) ms"

definition changed_metrics :: "(string \<Rightarrow> string) \<Rightarrow> metric_row list \<Rightarrow> canonical_metric list \<Rightarrow> canonical_metric list" where
  "changed_metrics sha rows ms =
     filter (\<lambda>m. \<exists>r\<in>set rows. mw_key r = cm_key m \<and> mw_columns r \<noteq> mirror_payload sha m) ms"

definition synced_rows :: "(string \<Rightarrow> string) \<Rightarrow> int \<Rightarrow> canonical_metric list \<Rightarrow> metric_row list \<Rightarrow> metric_row list" where
  "synced_rows sha now ms rows = map (upd_row sha now ms) rows @ map (row_for sha now) (new_metrics rows ms)"

lemma mirror_payload_key [simp]: "mp_key (mirror_payload sha m) = cm_key m"
  by (simp add: mirror_payload_def)

lemma row_for_key [simp]: "mw_key (row_for sha now m) = cm_key m"
  by (simp add: row_for_def)

lemma upd_row_key [simp]: "mw_key (upd_row sha now ms row) = mw_key row"
  by (auto simp: upd_row_def dest: find_Some_mem split: option.splits)

lemma mirror_payload_checks:
  assumes "\<And>x. sha256_check (sha x)"
  shows "metric_row_checks (mirror_payload sha m)"
  using assms
  by (cases "cm_statement m"; cases "cm_period_type m"; cases "cm_unit_dimension m")
     (simp_all add: metric_row_checks_def mirror_payload_def definition_hash_def name_of_def
       statement_names_def period_type_names_def unit_dimension_names_def)

lemma upd_row_snoc_other:
  "cm_key m \<noteq> mw_key row \<Longrightarrow> upd_row sha now (ms @ [m]) row = upd_row sha now ms row"
  by (simp add: upd_row_def find_append split: option.splits)

lemma upd_row_snoc_same:
  "cm_key m = mw_key row \<Longrightarrow> cm_key m \<notin> cm_key ` set ms \<Longrightarrow>
    upd_row sha now ms row = row \<and> upd_row sha now (ms @ [m]) row =
      (if mw_columns row = mirror_payload sha m then row else row_for sha now m)"
proof -
  assume k: "cm_key m = mw_key row" "cm_key m \<notin> cm_key ` set ms"
  then have "find (\<lambda>m. cm_key m = mw_key row) ms = None" by (force simp: find_None_iff)
  then show ?thesis using k by (simp add: upd_row_def find_append)
qed

lemma map_of_existing:
  assumes "distinct (map mw_key rows)"
  shows "map_of (map (\<lambda>r. (mw_key r, r)) rows) k = find (\<lambda>r. mw_key r = k) rows"
  using assms by (induction rows) auto

lemma key_unique:
  "distinct (map mw_key rows) \<Longrightarrow> r \<in> set rows \<Longrightarrow> s \<in> set rows \<Longrightarrow> mw_key r = mw_key s \<Longrightarrow> r = s"
  by (auto simp: distinct_map dest: inj_onD)

definition sync_acc :: "(string \<Rightarrow> string) \<Rightarrow> metric_row list \<Rightarrow> canonical_metric list \<Rightarrow> sync_result" where
  "sync_acc sha rows ms = \<lparr>sy_added = map cm_key (new_metrics rows ms),
     sy_changed = map cm_key (changed_metrics sha rows ms), sy_removed = [],
     sy_unchanged = map cm_key (same_metrics sha rows ms)\<rparr>"

lemma sync_step_eq:
  assumes sha: "\<And>x. sha256_check (sha x)" and rows: "distinct (map mw_key (db_metrics db))"
    and fresh: "cm_key m \<notin> cm_key ` set ms"
  shows "sync_step sha now (fetch_canonical_metrics db) (cm_key m, m)
      (db\<lparr>db_metrics := synced_rows sha now ms (db_metrics db)\<rparr>, sync_acc sha (db_metrics db) ms) =
    Inr (db\<lparr>db_metrics := synced_rows sha now (ms @ [m]) (db_metrics db)\<rparr>, sync_acc sha (db_metrics db) (ms @ [m]))"
proof (cases "find (\<lambda>r. mw_key r = cm_key m) (db_metrics db)")
  let ?rows = "db_metrics db"
  case None
  then have nin: "cm_key m \<notin> mw_key ` set ?rows" by (force simp: find_None_iff)
  then have upd: "map (upd_row sha now (ms @ [m])) ?rows = map (upd_row sha now ms) ?rows"
    by (auto intro!: upd_row_snoc_other)
  have "cm_key m \<notin> mw_key ` set (synced_rows sha now ms ?rows)"
    using nin fresh by (auto simp: synced_rows_def new_metrics_def image_iff)
  moreover have "synced_rows sha now (ms @ [m]) ?rows = synced_rows sha now ms ?rows @ [row_for sha now m]"
    using nin upd by (simp add: synced_rows_def new_metrics_def)
  moreover have "sync_acc sha ?rows (ms @ [m]) =
      (sync_acc sha ?rows ms)\<lparr>sy_added := sy_added (sync_acc sha ?rows ms) @ [cm_key m]\<rparr>"
  proof -
    have "\<forall>r\<in>set ?rows. mw_key r \<noteq> cm_key m" using nin by force
    moreover from this have "\<forall>r\<in>set ?rows. mw_columns r \<noteq> mirror_payload sha m"
      by (metis mirror_payload_key)
    ultimately show ?thesis
      using nin by (simp add: sync_acc_def new_metrics_def same_metrics_def changed_metrics_def)
  qed
  ultimately show ?thesis
    using None map_of_existing [OF rows] mirror_payload_checks [OF sha]
    by (simp add: sync_step_def fetch_canonical_metrics_def insert_canonical_metric_def row_for_def)
next
  let ?rows = "db_metrics db"
  case (Some old)
  then have old: "old \<in> set ?rows" "mw_key old = cm_key m" by (auto dest: find_Some_mem)
  have uniq: "r = old" if "r \<in> set ?rows" "mw_key r = cm_key m" for r
    using key_unique [OF rows that(1) old(1)] that old by simp
  have nin: "new_metrics ?rows (ms @ [m]) = new_metrics ?rows ms" using old by (force simp: new_metrics_def)
  have keys: "cm_key m \<in> mw_key ` set (synced_rows sha now ms ?rows)"
    using old by (force simp: synced_rows_def)
  show ?thesis
  proof (cases "mw_columns old = mirror_payload sha m")
    case True
    have "upd_row sha now (ms @ [m]) r = upd_row sha now ms r" if "r \<in> set ?rows" for r
      using that uniq [of r] True fresh upd_row_snoc_other [of m r sha now ms] upd_row_snoc_same [of m r ms sha now]
      by (cases "mw_key r = cm_key m") auto
    then have "synced_rows sha now (ms @ [m]) ?rows = synced_rows sha now ms ?rows"
      by (simp add: synced_rows_def nin)
    moreover have "sync_acc sha ?rows (ms @ [m]) =
        (sync_acc sha ?rows ms)\<lparr>sy_unchanged := sy_unchanged (sync_acc sha ?rows ms) @ [cm_key m]\<rparr>"
    proof -
      have "\<exists>r\<in>set ?rows. mw_columns r = mirror_payload sha m" using True old by blast
      moreover have "\<not> (\<exists>r\<in>set ?rows. mw_key r = cm_key m \<and> mw_columns r \<noteq> mirror_payload sha m)"
        using True uniq by blast
      ultimately show ?thesis using nin by (simp add: sync_acc_def same_metrics_def changed_metrics_def)
    qed
    ultimately show ?thesis
      using Some True map_of_existing [OF rows]
      by (simp add: sync_step_def fetch_canonical_metrics_def row_mirror_payload_def)
  next
    case False
    have "upd_row sha now (ms @ [m]) r =
        (if mw_key r = cm_key m then row_for sha now m else upd_row sha now ms r)" if "r \<in> set ?rows" for r
      using that uniq [of r] False fresh upd_row_snoc_other [of m r sha now ms] upd_row_snoc_same [of m r ms sha now]
      by (cases "mw_key r = cm_key m") auto
    moreover have "mw_key (row_for sha now n) \<noteq> cm_key m" if "n \<in> set (new_metrics ?rows ms)" for n
      using that old by (force simp: new_metrics_def)
    ultimately have "synced_rows sha now (ms @ [m]) ?rows =
        map (\<lambda>r. if mw_key r = cm_key m then row_for sha now m else r) (synced_rows sha now ms ?rows)"
      by (auto simp: synced_rows_def nin)
    moreover have "sync_acc sha ?rows (ms @ [m]) =
        (sync_acc sha ?rows ms)\<lparr>sy_changed := sy_changed (sync_acc sha ?rows ms) @ [cm_key m]\<rparr>"
    proof -
      have "\<not> (\<exists>r\<in>set ?rows. mw_columns r = mirror_payload sha m)"
        using False uniq by (metis mirror_payload_key)
      moreover have "\<exists>r\<in>set ?rows. mw_key r = cm_key m \<and> mw_columns r \<noteq> mirror_payload sha m"
        using False old by blast
      ultimately show ?thesis using nin by (simp add: sync_acc_def same_metrics_def changed_metrics_def)
    qed
    ultimately show ?thesis
      using Some False map_of_existing [OF rows] mirror_payload_checks [OF sha] keys
      by (simp add: sync_step_def fetch_canonical_metrics_def row_mirror_payload_def
          update_canonical_metric_def row_for_def)
  qed
qed

lemma sync_fold_eq:
  assumes sha: "\<And>x. sha256_check (sha x)" and rows: "distinct (map mw_key (db_metrics db))"
    and "distinct (map cm_key ms)"
  shows "fold_res (sync_step sha now (fetch_canonical_metrics db)) (map (\<lambda>m. (cm_key m, m)) ms)
      (db, sync_acc sha (db_metrics db) []) =
    Inr (db\<lparr>db_metrics := synced_rows sha now ms (db_metrics db)\<rparr>, sync_acc sha (db_metrics db) ms)"
  using assms(3)
proof (induction ms rule: rev_induct)
  case Nil
  have "synced_rows sha now [] (db_metrics db) = db_metrics db"
    by (simp add: synced_rows_def new_metrics_def upd_row_def map_idI)
  then show ?case by simp
next
  case (snoc m ms)
  then show ?case by (simp add: fold_res_append sync_step_eq [OF sha rows])
qed

definition removed_keys :: "canonical_metric list \<Rightarrow> metric_row list \<Rightarrow> string list" where
  "removed_keys ms rows = sort (filter (\<lambda>k. k \<notin> cm_key ` set ms) (map mw_key rows))"

definition blocked_keys :: "canonical_metric list \<Rightarrow> db \<Rightarrow> string list" where
  "blocked_keys ms db = filter (\<lambda>k. k \<in> set (referenced_metric_keys db)) (removed_keys ms (db_metrics db))"

lemma sync_closed_form:
  assumes sha: "\<And>x. sha256_check (sha x)" and rows: "distinct (map mw_key (db_metrics db))"
    and ms: "distinct (map cm_key (lr_metrics reg))" and yaml: "load_yaml yaml = Inr reg"
  shows "sync_canonical_metrics sha yaml now db =
    (if blocked_keys (lr_metrics reg) db \<noteq> [] then Inl (UnsafeMetricDeletionError (blocked_keys (lr_metrics reg) db))
     else Inr (db\<lparr>db_metrics := filter (\<lambda>r. mw_key r \<in> cm_key ` set (lr_metrics reg))
                    (synced_rows sha now (lr_metrics reg) (db_metrics db))\<rparr>,
       \<lparr>sy_added = sort (map cm_key (new_metrics (db_metrics db) (lr_metrics reg))),
        sy_changed = sort (map cm_key (changed_metrics sha (db_metrics db) (lr_metrics reg))),
        sy_removed = removed_keys (lr_metrics reg) (db_metrics db),
        sy_unchanged = sort (map cm_key (same_metrics sha (db_metrics db) (lr_metrics reg)))\<rparr>))"
proof -
  let ?ms = "lr_metrics reg" and ?rows = "db_metrics db"
  let ?rem = "removed_keys ?ms ?rows" and ?new = "synced_rows sha now ?ms ?rows"
  have keys: "fst ` set (by_key reg) = cm_key ` set ?ms" by (force simp: by_key_def)
  have rem: "sort (remdups (filter (\<lambda>k. k \<notin> fst ` set (by_key reg)) (map fst (fetch_canonical_metrics db)))) = ?rem"
    using rows by (simp add: keys removed_keys_def fetch_canonical_metrics_def o_def remdups_id_iff_distinct [THEN iffD2])
  have acc0: "\<lparr>sy_added = [], sy_changed = [], sy_removed = [], sy_unchanged = []\<rparr> = sync_acc sha ?rows []"
    by (simp add: sync_acc_def new_metrics_def same_metrics_def changed_metrics_def)
  have ref: "referenced_metric_keys (db\<lparr>db_metrics := ?new\<rparr>) = referenced_metric_keys db"
    by (simp add: referenced_metric_keys_def)
  have in_keys: "mw_key r \<in> cm_key ` set ?ms \<longleftrightarrow> mw_key r \<notin> set ?rem" if "r \<in> set ?new" for r
    using that by (auto simp: removed_keys_def synced_rows_def new_metrics_def)
  have fil: "filter (\<lambda>r. mw_key r \<notin> set ?rem) ?new = filter (\<lambda>r. mw_key r \<in> cm_key ` set ?ms) ?new"
    using in_keys by (intro filter_cong) auto
  have del: "(if ?rem = [] then Inr (db\<lparr>db_metrics := ?new\<rparr>) else delete_canonical_metrics ?rem (db\<lparr>db_metrics := ?new\<rparr>)) =
    Inr (db\<lparr>db_metrics := filter (\<lambda>r. mw_key r \<in> cm_key ` set ?ms) ?new\<rparr>)" if "blocked_keys ?ms db = []"
  proof -
    have "\<forall>k\<in>set ?rem. k \<notin> set (referenced_metric_keys db)" using that by (simp add: blocked_keys_def filter_empty_conv)
    then have "delete_canonical_metrics ?rem (db\<lparr>db_metrics := ?new\<rparr>) =
      Inr (db\<lparr>db_metrics := filter (\<lambda>r. mw_key r \<notin> set ?rem) ?new\<rparr>)"
      by (auto simp: delete_canonical_metrics_def ref)
    moreover have "?new = filter (\<lambda>r. mw_key r \<notin> set ?rem) ?new" if "?rem = []" using that by simp
    ultimately show ?thesis using fil by (cases "?rem = []") simp_all
  qed
  have blk: "filter (\<lambda>k. k \<in> set (referenced_metric_keys db)) ?rem = blocked_keys ?ms db"
    by (simp add: blocked_keys_def)
  have blk_ne: "blocked_keys ?ms db \<noteq> [] \<Longrightarrow> ?rem \<noteq> []" by (auto simp: blocked_keys_def)
  show ?thesis
    unfolding sync_canonical_metrics_def yaml res_bind.simps acc0 by_key_def [of reg] sync_fold_eq [OF sha rows ms]
      prod.case Let_def rem [unfolded by_key_def] ref blk
    using del blk_ne by (auto simp: sync_acc_def)
qed

section \<open>Effect, failure, idempotence\<close>

lemma loaded_distinct: "load_metrics sha raw = Inr reg \<Longrightarrow> distinct (map cm_key (lr_metrics reg))"
  by (auto simp: load_metrics_iff distinct_metrics_def distinct_map)

lemma loaded_get:
  assumes "load_metrics sha raw = Inr reg"
  shows "registry_get reg k = Some m \<longleftrightarrow> m \<in> set (lr_metrics reg) \<and> cm_key m = k"
proof -
  have "m \<in> set (lr_metrics reg) \<and> cm_key m = k" if "registry_get reg k = Some m"
    using that by (auto simp: registry_get_def by_key_def dest!: map_of_SomeD)
  then show ?thesis using registry_get_mem [OF loaded_distinct [OF assms]] by blast
qed

lemma load_yaml_Inr [simp]: "load_yaml (Inr reg) = Inr reg"
  by (simp add: load_yaml_def)

definition synced_table :: "(string \<Rightarrow> string) \<Rightarrow> int \<Rightarrow> canonical_metric list \<Rightarrow> metric_row list \<Rightarrow> metric_row list" where
  "synced_table sha now ms rows = filter (\<lambda>r. mw_key r \<in> cm_key ` set ms) (synced_rows sha now ms rows)"

lemma synced_table_rows:
  assumes "distinct (map cm_key ms)"
  shows "r \<in> set (synced_table sha now ms rows) \<Longrightarrow> \<exists>m\<in>set ms. mw_columns r = mirror_payload sha m"
    and "m \<in> set ms \<Longrightarrow> \<exists>r\<in>set (synced_table sha now ms rows). mw_key r = cm_key m"
proof -
  assume r: "r \<in> set (synced_table sha now ms rows)"
  then consider row where "row \<in> set rows" "r = upd_row sha now ms row" "mw_key r \<in> cm_key ` set ms"
    | n where "n \<in> set ms" "r = row_for sha now n"
    by (auto simp: synced_table_def synced_rows_def new_metrics_def)
  then show "\<exists>m\<in>set ms. mw_columns r = mirror_payload sha m"
  proof cases
    case (1 row)
    then have "mw_key row \<in> cm_key ` set ms" by simp
    then obtain m where m: "find (\<lambda>m. cm_key m = mw_key row) ms = Some m"
      by (cases "find (\<lambda>m. cm_key m = mw_key row) ms") (force simp: find_None_iff)+
    then have "m \<in> set ms" by (auto dest: find_Some_mem)
    then show ?thesis using m 1(2) by (auto simp: upd_row_def row_for_def intro!: bexI [of _ m])
  next
    case (2 n)
    then show ?thesis by (auto simp: row_for_def)
  qed
next
  assume m: "m \<in> set ms"
  show "\<exists>r\<in>set (synced_table sha now ms rows). mw_key r = cm_key m"
  proof (cases "cm_key m \<in> mw_key ` set rows")
    case True
    then obtain row where "row \<in> set rows" "mw_key row = cm_key m" by force
    then show ?thesis using m
      by (intro bexI [of _ "upd_row sha now ms row"]) (auto simp: synced_table_def synced_rows_def)
  next
    case False
    then show ?thesis using m
      by (intro bexI [of _ "row_for sha now m"]) (auto simp: synced_table_def synced_rows_def new_metrics_def)
  qed
qed

lemma synced_table_distinct:
  assumes "distinct (map mw_key rows)" and "distinct (map cm_key ms)"
  shows "distinct (map mw_key (synced_table sha now ms rows))"
proof -
  have "map mw_key (synced_rows sha now ms rows) = map mw_key rows @ map cm_key (new_metrics rows ms)"
    by (simp add: synced_rows_def o_def)
  moreover have "distinct (map cm_key (new_metrics rows ms))"
    using assms(2) by (simp add: new_metrics_def distinct_map_filter)
  moreover have "set (map mw_key rows) \<inter> set (map cm_key (new_metrics rows ms)) = {}"
    by (force simp: new_metrics_def)
  ultimately have "distinct (map mw_key (synced_rows sha now ms rows))" using assms(1) by (simp only: distinct_append)
  then show ?thesis by (simp add: synced_table_def distinct_map_filter)
qed

lemma sync_Inr:
  assumes "\<And>x. sha256_check (sha x)" and "foreign_inv db" and "load_metrics sha raw = Inr reg"
    and "sync_canonical_metrics sha (Inr reg) now db = Inr (db', r)"
  shows "db' = db\<lparr>db_metrics := synced_table sha now (lr_metrics reg) (db_metrics db)\<rparr>"
    and "blocked_keys (lr_metrics reg) db = []"
  using assms(4) assms(2)
  by (simp_all add: sync_closed_form [OF assms(1) _ loaded_distinct [OF assms(3)]] foreign_inv_def
      synced_table_def split: if_splits)

lemma synced_fetch:
  assumes "distinct (map mw_key rows)" and "load_metrics sha raw = Inr reg"
    and "db_metrics db' = synced_table sha now (lr_metrics reg) rows"
  shows "map_option row_mirror_payload (fetch_canonical_metric db' k) =
    map_option (mirror_payload sha) (registry_get reg k)"
proof (cases "registry_get reg k")
  note ms = loaded_distinct [OF assms(2)]
  case None
  have "mw_key r \<noteq> k" if r: "r \<in> set (db_metrics db')" for r
  proof -
    obtain m where "m \<in> set (lr_metrics reg)" "mw_columns r = mirror_payload sha m"
      using synced_table_rows(1) [OF ms, of r sha now rows] r assms(3) by auto
    then show ?thesis using None loaded_get [OF assms(2), of k m] by auto
  qed
  then show ?thesis using None by (auto simp: fetch_canonical_metric_def find_None_iff)
next
  note ms = loaded_distinct [OF assms(2)]
  case (Some m)
  then have m: "m \<in> set (lr_metrics reg)" "cm_key m = k" using loaded_get [OF assms(2)] by auto
  obtain r where r: "fetch_canonical_metric db' k = Some r"
    using synced_table_rows(2) [OF ms m(1), of sha now rows] m(2) assms(3)
    by (cases "fetch_canonical_metric db' k") (auto simp: fetch_canonical_metric_def find_None_iff)
  then have rk: "r \<in> set (db_metrics db')" "mw_key r = k"
    by (auto simp: fetch_canonical_metric_def dest: find_Some_mem)
  then obtain n where n: "n \<in> set (lr_metrics reg)" "mw_columns r = mirror_payload sha n"
    using synced_table_rows(1) [OF ms, of r sha now rows] assms(3) by auto
  then have "n = m" using rk(2) Some loaded_get [OF assms(2), of k n] by auto
  then show ?thesis using Some r n by (simp add: row_mirror_payload_def)
qed

lemma sync_keeps_inv:
  assumes "\<And>x. sha256_check (sha x)" and "ledger_inv db" and "load_metrics sha raw = Inr reg"
    and "sync_canonical_metrics sha (Inr reg) now db = Inr (db', r)"
  shows "ledger_inv db'"
proof -
  note inv = ledger_invD [OF assms(2)] and ms = loaded_distinct [OF assms(3)]
  note sy = sync_Inr [OF assms(1) inv(3) assms(3,4)]
  have rows: "distinct (map mw_key (db_metrics db))" using inv(3) by (simp add: foreign_inv_def)
  have frame: "db_assertions db' = db_assertions db" "db_next_id db' = db_next_id db"
    "db_concepts db' = db_concepts db" "db_issuers db' = db_issuers db" by (simp_all add: sy(1))
  have "chains_inv db'" "exact_inv db'"
    using inv(1,2) unfolding chains_inv_def exact_inv_def is_current_def frame by blast+
  moreover have "cl_target_metric_key (as_claim a) \<in> mw_key ` set (db_metrics db')"
    if a: "a \<in> set (db_assertions db)" for a
  proof -
    let ?k = "cl_target_metric_key (as_claim a)"
    have "?k \<in> mw_key ` set (db_metrics db)" using inv(3) a by (simp add: foreign_inv_def)
    moreover have "?k \<in> set (referenced_metric_keys db)" using a by (simp add: referenced_metric_keys_def)
    ultimately have "?k \<in> cm_key ` set (lr_metrics reg)"
      using sy(2) by (auto simp: blocked_keys_def removed_keys_def filter_empty_conv)
    then show ?thesis using synced_table_rows(2) [OF ms, of _ sha now "db_metrics db"] by (force simp: sy(1))
  qed
  moreover have "metric_row_checks (mw_columns m)" if "m \<in> set (db_metrics db')" for m
    using synced_table_rows(1) [OF ms] that mirror_payload_checks [OF assms(1)] by (fastforce simp: sy(1))
  moreover have "distinct (map mw_key (db_metrics db'))"
    using synced_table_distinct [OF rows ms] by (simp add: sy(1))
  ultimately show ?thesis
    using inv(3) unfolding ledger_inv_def foreign_inv_def frame by blast
qed

section \<open>Properties\<close>

text \<open>
  Property C25: a successful synchronisation makes the database mirror equal to the YAML registry, key
  by key, leaves every mapping assertion as it was, and makes every YAML metric usable by the
  mapping operations.
\<close>

theorem sync_mirrors_yaml:
  assumes "\<And>x. sha256_check (sha x)" and "ledger_inv db" and "load_metrics sha raw = Inr reg"
    and "sync_canonical_metrics sha (Inr reg) now db = Inr (db', r)"
  shows "map_option row_mirror_payload (fetch_canonical_metric db' k) = map_option (mirror_payload sha) (registry_get reg k)
    \<and> db_assertions db' = db_assertions db \<and> ledger_inv db'
    \<and> (require_yaml_metric sha (Inr reg) db' k = Inr m \<longleftrightarrow> registry_get reg k = Some m)"
proof -
  note inv = ledger_invD [OF assms(2)]
  note sy = sync_Inr [OF assms(1) inv(3) assms(3,4)]
  have rows: "distinct (map mw_key (db_metrics db))" using inv(3) by (simp add: foreign_inv_def)
  have fetch: "map_option row_mirror_payload (fetch_canonical_metric db' k) =
      map_option (mirror_payload sha) (registry_get reg k)"
    using rows assms(3) by (rule synced_fetch) (simp add: sy(1))
  then have "require_yaml_metric sha (Inr reg) db' k = Inr m \<longleftrightarrow> registry_get reg k = Some m"
    by (cases "registry_get reg k"; cases "fetch_canonical_metric db' k")
       (auto simp: require_yaml_metric_def require_yaml_mirror_match_def)
  then show ?thesis using fetch sync_keeps_inv [OF assms] by (simp add: sy(1))
qed

definition zero_sha :: "string \<Rightarrow> string" where
  "zero_sha x = replicate 64 CHR ''0''"

lemma zero_sha_check: "sha256_check (zero_sha x)"
  by (simp add: sha256_check_def zero_sha_def is_hex_def list_all_iff)

definition empty_db :: db where
  "empty_db = \<lparr>db_metrics = [], db_assertions = [], db_next_id = 1, db_concepts = [], db_issuers = [], db_facts = [],
     db_dimensions = [], db_measures = []\<rparr>"

lemma empty_db_inv: "ledger_inv empty_db"
  by (simp add: ledger_inv_def chains_inv_def exact_inv_def foreign_inv_def empty_db_def)

definition example_registry :: loaded_registry where
  "example_registry = \<lparr>lr_metrics = [example_assets],
     lr_semantic_registry_hash = semantic_registry_hash zero_sha [example_assets]\<rparr>"

lemma example_registry_metrics [simp]: "lr_metrics example_registry = [example_assets]"
  by (simp add: example_registry_def)

lemma example_assets_key [simp]: "cm_key example_assets = ''assets''"
  by (simp add: example_assets_def)

lemmas example_registry_loads = example_load [of zero_sha, folded example_registry_def]

lemma example_sync:
  "sync_canonical_metrics zero_sha (Inr example_registry) now empty_db =
     Inr (empty_db\<lparr>db_metrics := [row_for zero_sha now example_assets]\<rparr>,
          \<lparr>sy_added = [''assets''], sy_changed = [], sy_removed = [], sy_unchanged = []\<rparr>)"
  by (subst sync_closed_form [OF zero_sha_check, where reg = example_registry])
     (simp_all add: empty_db_def blocked_keys_def removed_keys_def synced_rows_def new_metrics_def
       changed_metrics_def same_metrics_def)

theorem sync_mirrors_yaml_witness:
  "require_yaml_metric zero_sha (Inr example_registry)
     (empty_db\<lparr>db_metrics := [row_for zero_sha 5 example_assets]\<rparr>) ''assets'' = Inr example_assets"
  using sync_mirrors_yaml [OF zero_sha_check empty_db_inv example_registry_loads example_sync [of 5],
      where k = "''assets''" and m = example_assets] registry_get_mem [of example_registry example_assets]
  by simp

text \<open>
  Property C26: synchronisation fails exactly when a metric that YAML no longer has is still the target
  of a mapping assertion; the error then lists exactly those metrics, and no constraint of the
  database can be violated.
\<close>

theorem sync_fails_iff:
  assumes "\<And>x. sha256_check (sha x)" and "ledger_inv db" and "load_metrics sha raw = Inr reg"
  shows "sync_canonical_metrics sha (Inr reg) now db = Inl e \<longleftrightarrow>
    (\<exists>ks. e = UnsafeMetricDeletionError ks \<and> ks \<noteq> [] \<and> sorted ks \<and> distinct ks \<and>
       set ks = {k. registry_get reg k = None \<and> (\<exists>a\<in>set (db_assertions db). cl_target_metric_key (as_claim a) = k)})"
proof -
  note inv = ledger_invD [OF assms(2)] and ms = loaded_distinct [OF assms(3)]
  let ?bad = "{k. registry_get reg k = None \<and> (\<exists>a\<in>set (db_assertions db). cl_target_metric_key (as_claim a) = k)}"
  have rows: "distinct (map mw_key (db_metrics db))" using inv(3) by (simp add: foreign_inv_def)
  have none: "registry_get reg k = None \<longleftrightarrow> k \<notin> cm_key ` set (lr_metrics reg)" for k
    using loaded_get [OF assms(3), of k] by (cases "registry_get reg k") force+
  have "set (blocked_keys (lr_metrics reg) db) = ?bad"
    using inv(3) by (force simp: blocked_keys_def removed_keys_def referenced_metric_keys_def none foreign_inv_def)
  moreover have "sorted (blocked_keys (lr_metrics reg) db)"
    by (simp add: blocked_keys_def removed_keys_def sorted_filter [of id, simplified])
  moreover have "distinct (blocked_keys (lr_metrics reg) db)"
    using rows by (simp add: blocked_keys_def removed_keys_def)
  moreover have "sync_canonical_metrics sha (Inr reg) now db = Inl e \<longleftrightarrow>
      blocked_keys (lr_metrics reg) db \<noteq> [] \<and> e = UnsafeMetricDeletionError (blocked_keys (lr_metrics reg) db)"
    by (auto simp: sync_closed_form [OF assms(1) rows ms])
  ultimately show ?thesis using sorted_distinct_set_unique by metis
qed

lemma loaded_sorted: "load_metrics sha raw = Inr reg \<Longrightarrow> sorted (map cm_key (lr_metrics reg))"
  by (auto simp: load_metrics_iff)

lemma sync_fixpoint:
  assumes ms: "distinct (map cm_key ms)" and rows: "distinct (map mw_key rows)"
    and T: "\<And>r. r \<in> set rows \<Longrightarrow> \<exists>m\<in>set ms. mw_columns r = mirror_payload sha m"
    and U: "\<And>m. m \<in> set ms \<Longrightarrow> \<exists>r\<in>set rows. mw_key r = cm_key m"
  shows "new_metrics rows ms = [] \<and> changed_metrics sha rows ms = [] \<and> same_metrics sha rows ms = ms \<and>
    removed_keys ms rows = [] \<and> filter (\<lambda>r. mw_key r \<in> cm_key ` set ms) (synced_rows sha now ms rows) = rows"
proof -
  have own: "mw_columns r = mirror_payload sha m" if rm: "r \<in> set rows" "m \<in> set ms" "mw_key r = cm_key m" for r m
  proof -
    obtain n where n: "n \<in> set ms" "mw_columns r = mirror_payload sha n" using T [OF rm(1)] by blast
    then have "n = m" using ms rm(2,3) by (auto simp: distinct_map dest: inj_onD)
    then show ?thesis using n by simp
  qed
  have new: "new_metrics rows ms = []" using U by (force simp: new_metrics_def filter_empty_conv)
  have upd: "upd_row sha now ms r = r" if "r \<in> set rows" for r
    using own [OF that] by (auto simp: upd_row_def dest: find_Some_mem split: option.splits)
  have in_ms: "mw_key r \<in> cm_key ` set ms" if "r \<in> set rows" for r
    using T [OF that] by (metis image_eqI mirror_payload_key)
  have "changed_metrics sha rows ms = []" using own by (auto simp: changed_metrics_def filter_empty_conv)
  moreover have "same_metrics sha rows ms = ms" using own U by (auto simp: same_metrics_def filter_id_conv) metis
  moreover have "removed_keys ms rows = []" using in_ms by (simp add: removed_keys_def filter_empty_conv)
  moreover have "synced_rows sha now ms rows = rows" using upd new by (simp add: synced_rows_def map_idI)
  ultimately show ?thesis using new in_ms by (simp add: filter_id_conv)
qed

text \<open>
  Synchronisation is idempotent: run again on its own result, it changes nothing and
  reports every metric as unchanged.
\<close>

theorem sync_idempotent:
  assumes "\<And>x. sha256_check (sha x)" and "ledger_inv db" and "load_metrics sha raw = Inr reg"
    and "sync_canonical_metrics sha (Inr reg) now db = Inr (db', r)"
  shows "sync_canonical_metrics sha (Inr reg) later db' = Inr (db', \<lparr>sy_added = [], sy_changed = [],
    sy_removed = [], sy_unchanged = map cm_key (lr_metrics reg)\<rparr>)"
proof -
  note inv = ledger_invD [OF assms(2)] and ms = loaded_distinct [OF assms(3)]
  note sy = sync_Inr [OF assms(1) inv(3) assms(3,4)]
  have rows: "distinct (map mw_key (db_metrics db))" using inv(3) by (simp add: foreign_inv_def)
  let ?rows = "synced_table sha now (lr_metrics reg) (db_metrics db)"
  have dist: "distinct (map mw_key (db_metrics db'))" using synced_table_distinct [OF rows ms] by (simp add: sy(1))
  have fp: "new_metrics ?rows (lr_metrics reg) = [] \<and> changed_metrics sha ?rows (lr_metrics reg) = [] \<and>
      same_metrics sha ?rows (lr_metrics reg) = lr_metrics reg \<and> removed_keys (lr_metrics reg) ?rows = [] \<and>
      filter (\<lambda>r. mw_key r \<in> cm_key ` set (lr_metrics reg)) (synced_rows sha later (lr_metrics reg) ?rows) = ?rows"
    using ms synced_table_distinct [OF rows ms] synced_table_rows [OF ms] by (rule sync_fixpoint)
  have "sort (map cm_key (lr_metrics reg)) = map cm_key (lr_metrics reg)"
    using loaded_sorted [OF assms(3)] by (rule sorted_sort_id)
  then show ?thesis
    using fp by (subst sync_closed_form [OF assms(1) dist ms]) (simp_all add: sy(1) blocked_keys_def)
qed

theorem sync_fails_iff_witness:
  "(\<exists>e. sync_canonical_metrics zero_sha (Inr example_registry) 5 empty_db = Inl e) = False"
  using sync_fails_iff [OF zero_sha_check empty_db_inv example_registry_loads, of 5]
  by (simp add: empty_db_def)

theorem sync_idempotent_witness:
  "sync_canonical_metrics zero_sha (Inr example_registry) 9
     (empty_db\<lparr>db_metrics := [row_for zero_sha 5 example_assets]\<rparr>) =
   Inr (empty_db\<lparr>db_metrics := [row_for zero_sha 5 example_assets]\<rparr>,
     \<lparr>sy_added = [], sy_changed = [], sy_removed = [], sy_unchanged = [''assets'']\<rparr>)"
  using sync_idempotent [OF zero_sha_check empty_db_inv example_registry_loads example_sync, of 9 5] by simp

end
