(* ===== verification/Ledger_Machine.thy ===== *)
theory Ledger_Machine
  imports Ledger_Sync
begin

text \<open>
  The ledger as a state machine: the transactions of the service as steps, the states reachable
  from an empty database, and what holds in all of them.  The locale \<open>ledger_operation\<close> is the
  contract of a transaction on the ledger: it keeps the invariant and only appends revisions.
\<close>

section \<open>The contract of a transaction\<close>

locale ledger_operation =
  fixes oper :: "db \<Rightarrow> (db \<times> 'r) res"
  assumes keeps_inv: "ledger_inv db \<Longrightarrow> oper db = Inr (db', r) \<Longrightarrow> ledger_inv db'"
    and appends: "ledger_inv db \<Longrightarrow> oper db = Inr (db', r) \<Longrightarrow> \<exists>rows. db_assertions db' = db_assertions db @ rows"
begin

lemma fetch_permanent:
  assumes "ledger_inv db" and "oper db = Inr (db', r)" and "fetch_mapping_assertion db i = Some a"
  shows "fetch_mapping_assertion db' i = Some a"
  using appends [OF assms(1,2)] assms(3) by (auto simp: fetch_mapping_assertion_def find_append)

lemma superseded_permanent:
  assumes "ledger_inv db" and "oper db = Inr (db', r)" and "\<not> is_current db a"
  shows "\<not> is_current db' a"
  using appends [OF assms(1,2)] assms(3) by (auto simp: is_current_def)

end

lemma insert_appends:
  "insert_mapping_assertion row db = Inr (db', i) \<Longrightarrow> \<exists>rows. db_assertions db' = db_assertions db @ rows"
  by (auto simp: insert_mapping_assertion_Inr)

interpretation propose: ledger_operation "propose_mapping sha yaml now c" for sha yaml now c
proof
  show "ledger_inv db \<Longrightarrow> propose_mapping sha yaml now c db = Inr (db', r) \<Longrightarrow> ledger_inv db'" for db db' r
    by (rule propose_keeps_inv)
  show "ledger_inv db \<Longrightarrow> propose_mapping sha yaml now c db = Inr (db', r) \<Longrightarrow> \<exists>rows. db_assertions db' = db_assertions db @ rows"
    for db db' r by (erule propose_mapping_Inr) (rule insert_appends)
qed

interpretation accept: ledger_operation "accept_mapping sha yaml now i rvn" for sha yaml now i rvn
proof
  show "ledger_inv db \<Longrightarrow> accept_mapping sha yaml now i rvn db = Inr (db', r) \<Longrightarrow> ledger_inv db'" for db db' r
    by (rule accept_keeps_inv)
  show "ledger_inv db \<Longrightarrow> accept_mapping sha yaml now i rvn db = Inr (db', r) \<Longrightarrow> \<exists>rows. db_assertions db' = db_assertions db @ rows"
    for db db' r by (auto simp: accept_mapping_def result_simps dest!: insert_appends split: if_splits)
qed

interpretation reject: ledger_operation "reject_mapping now i rvn" for now i rvn
proof
  show "ledger_inv db \<Longrightarrow> reject_mapping now i rvn db = Inr (db', r) \<Longrightarrow> ledger_inv db'" for db db' r
    by (rule reject_keeps_inv)
  show "ledger_inv db \<Longrightarrow> reject_mapping now i rvn db = Inr (db', r) \<Longrightarrow> \<exists>rows. db_assertions db' = db_assertions db @ rows"
    for db db' r by (auto simp: reject_mapping_def result_simps dest!: insert_appends split: if_splits)
qed

text \<open>
  Synchronisation keeps the invariant whatever it is given: the primary key and the checks of the
  metric table hold after every statement, and deletion respects the foreign key.
\<close>

definition only_metrics :: "db \<Rightarrow> db \<Rightarrow> bool" where
  "only_metrics db db' = (\<exists>rows. db' = db\<lparr>db_metrics := rows\<rparr>)"

lemma only_metrics_trans: "only_metrics a b \<Longrightarrow> only_metrics b c \<Longrightarrow> only_metrics a c"
  by (auto simp: only_metrics_def)

lemma only_metrics_inv:
  assumes "only_metrics db db'" and "ledger_inv db" and "foreign_inv db'"
  shows "ledger_inv db'"
proof -
  have frame: "db_assertions db' = db_assertions db" "db_next_id db' = db_next_id db"
    using assms(1) by (auto simp: only_metrics_def)
  have "chains_inv db' \<and> exact_inv db'"
    using assms(2) unfolding ledger_inv_def chains_inv_def exact_inv_def is_current_def frame by blast
  then show ?thesis using assms(3) by (simp add: ledger_inv_def)
qed

lemma foreign_invI:
  assumes "foreign_inv db" and "db' = db\<lparr>db_metrics := rows\<rparr>" and "distinct (map mw_key rows)"
    and "\<forall>m\<in>set rows. metric_row_checks (mw_columns m)"
    and "\<And>a. a \<in> set (db_assertions db) \<Longrightarrow> cl_target_metric_key (as_claim a) \<in> mw_key ` set rows"
  shows "foreign_inv db'"
proof -
  have frame: "db_assertions db' = db_assertions db" "db_concepts db' = db_concepts db"
    "db_issuers db' = db_issuers db" "db_metrics db' = rows" using assms(2) by simp_all
  show ?thesis using assms(1,3,4,5) unfolding foreign_inv_def frame by blast
qed

lemma insert_metric_keeps:
  assumes "foreign_inv db" and "insert_canonical_metric row db = Inr db'"
  shows "foreign_inv db' \<and> only_metrics db db'"
proof -
  have ins: "mw_key row \<notin> mw_key ` set (db_metrics db)" "metric_row_checks (mw_columns row)"
    "db' = db\<lparr>db_metrics := db_metrics db @ [row]\<rparr>"
    using assms(2) by (auto simp: insert_canonical_metric_def split: if_splits)
  have "foreign_inv db'"
    using assms(1) ins(3) by (rule foreign_invI) (use assms(1) ins(1,2) in \<open>auto simp: foreign_inv_def\<close>)
  then show ?thesis using ins(3) by (auto simp: only_metrics_def)
qed

lemma update_metric_keeps:
  assumes "foreign_inv db" and "update_canonical_metric key row db = Inr db'"
  shows "foreign_inv db' \<and> only_metrics db db'"
proof (cases "key \<in> mw_key ` set (db_metrics db)")
  case True
  let ?f = "\<lambda>r. if mw_key r = key then row else r"
  have upd: "mw_key row = key" "metric_row_checks (mw_columns row)"
    "db' = db\<lparr>db_metrics := map ?f (db_metrics db)\<rparr>"
    using assms(2) True by (auto simp: update_canonical_metric_def split: if_splits)
  have keys: "map mw_key (map ?f (db_metrics db)) = map mw_key (db_metrics db)" using upd(1) by auto
  then have kset: "mw_key ` set (map ?f (db_metrics db)) = mw_key ` set (db_metrics db)" by (metis set_map)
  have "foreign_inv db'"
    using assms(1) upd(3)
  proof (rule foreign_invI)
    show "distinct (map mw_key (map ?f (db_metrics db)))"
      using assms(1) unfolding keys by (simp add: foreign_inv_def)
    show "\<forall>m\<in>set (map ?f (db_metrics db)). metric_row_checks (mw_columns m)"
      using assms(1) upd(2) by (auto simp: foreign_inv_def)
    show "cl_target_metric_key (as_claim a) \<in> mw_key ` set (map ?f (db_metrics db))"
      if "a \<in> set (db_assertions db)" for a
      unfolding kset using assms(1) that by (simp add: foreign_inv_def)
  qed
  then show ?thesis using upd(3) by (auto simp: only_metrics_def)
next
  case False
  then have "db' = db" using assms(2) by (simp add: update_canonical_metric_def)
  then show ?thesis using assms(1) by (auto simp: only_metrics_def intro: exI [of _ "db_metrics db"])
qed

lemma delete_metrics_keeps:
  assumes "foreign_inv db" and "delete_canonical_metrics ks db = Inr db'"
  shows "foreign_inv db' \<and> only_metrics db db'"
proof -
  let ?keep = "filter (\<lambda>r. mw_key r \<notin> set ks) (db_metrics db)"
  have del: "\<And>k. k \<in> set ks \<Longrightarrow> k \<in> mw_key ` set (db_metrics db) \<Longrightarrow> k \<notin> set (referenced_metric_keys db)"
    "db' = db\<lparr>db_metrics := ?keep\<rparr>"
    using assms(2) by (auto simp: delete_canonical_metrics_def split: if_splits)
  have "cl_target_metric_key (as_claim a) \<in> mw_key ` set ?keep" if a: "a \<in> set (db_assertions db)" for a
  proof -
    have "cl_target_metric_key (as_claim a) \<in> mw_key ` set (db_metrics db)" using assms(1) a by (simp add: foreign_inv_def)
    moreover have "cl_target_metric_key (as_claim a) \<in> set (referenced_metric_keys db)"
      using a by (simp add: referenced_metric_keys_def)
    ultimately show ?thesis using del(1) by force
  qed
  then have "foreign_inv db'"
    by (rule foreign_invI [OF assms(1) del(2), rotated 2])
       (use assms(1) in \<open>simp_all add: foreign_inv_def distinct_map_filter\<close>)
  then show ?thesis using del(2) by (auto simp: only_metrics_def)
qed

lemma sync_step_keeps:
  assumes "foreign_inv db" and "sync_step sha now existing item (db, acc) = Inr (db', acc')"
  shows "foreign_inv db' \<and> only_metrics db db'"
proof -
  have refl: "only_metrics db db" by (auto simp: only_metrics_def intro: exI [of _ "db_metrics db"])
  obtain key m where "item = (key, m)" by (cases item)
  with assms(2) consider "db' = db" | row where "insert_canonical_metric row db = Inr db'"
    | row where "update_canonical_metric key row db = Inr db'"
    by (auto simp: sync_step_def Let_def result_simps split: option.splits if_splits)
  then show ?thesis
    using assms(1) refl insert_metric_keeps update_metric_keeps by cases blast+
qed

lemma sync_frame:
  assumes "foreign_inv db" and "sync_canonical_metrics sha yaml now db = Inr (db', r)"
  shows "foreign_inv db' \<and> only_metrics db db'"
proof -
  obtain reg db1 acc where f: "fold_res (sync_step sha now (fetch_canonical_metrics db)) (by_key reg)
         (db, \<lparr>sy_added = [], sy_changed = [], sy_removed = [], sy_unchanged = []\<rparr>) = Inr (db1, acc)"
    and d: "db' = db1 \<or> (\<exists>ks. delete_canonical_metrics ks db1 = Inr db')"
    using assms(2) by (auto simp: sync_canonical_metrics_def result_simps Let_def split: if_splits)
  have "foreign_inv (fst (db1, acc)) \<and> only_metrics db (fst (db1, acc))"
  proof (rule fold_res_invariant [OF f, where P = "\<lambda>st. foreign_inv (fst st) \<and> only_metrics db (fst st)"])
    show "foreign_inv (fst (db, \<lparr>sy_added = [], sy_changed = [], sy_removed = [], sy_unchanged = []\<rparr>)) \<and>
        only_metrics db (fst (db, \<lparr>sy_added = [], sy_changed = [], sy_removed = [], sy_unchanged = []\<rparr>))"
      using assms(1) by (auto simp: only_metrics_def intro: exI [of _ "db_metrics db"])
    fix x t t' assume t: "foreign_inv (fst t) \<and> only_metrics db (fst t)"
      "sync_step sha now (fetch_canonical_metrics db) x t = Inr t'"
    then show "foreign_inv (fst t') \<and> only_metrics db (fst t')"
      using sync_step_keeps [of "fst t" sha now _ x "snd t" "fst t'" "snd t'"] only_metrics_trans by auto
  qed
  then show ?thesis using d delete_metrics_keeps only_metrics_trans by auto
qed

interpretation sync: ledger_operation "sync_canonical_metrics sha yaml now" for sha yaml now
proof
  show "ledger_inv db \<Longrightarrow> sync_canonical_metrics sha yaml now db = Inr (db', r) \<Longrightarrow> ledger_inv db'" for db db' r
    using sync_frame only_metrics_inv ledger_invD(3) by blast
  show "ledger_inv db \<Longrightarrow> sync_canonical_metrics sha yaml now db = Inr (db', r) \<Longrightarrow> \<exists>rows. db_assertions db' = db_assertions db @ rows"
    for db db' r using sync_frame [OF ledger_invD(3)] by (fastforce simp: only_metrics_def)
qed

section \<open>Reachable ledgers\<close>

text \<open>The steps of the system: the four transactions, and filing ingestion, which only adds source rows.\<close>

inductive ledger_step :: "(string \<Rightarrow> string) \<Rightarrow> db \<Rightarrow> db \<Rightarrow> bool" for sha where
  propose: "propose_mapping sha yaml now c db = Inr (db', i) \<Longrightarrow> ledger_step sha db db'"
| accept: "accept_mapping sha yaml now i rvn db = Inr (db', j) \<Longrightarrow> ledger_step sha db db'"
| reject: "reject_mapping now i rvn db = Inr (db', j) \<Longrightarrow> ledger_step sha db db'"
| sync: "sync_canonical_metrics sha yaml now db = Inr (db', r) \<Longrightarrow> ledger_step sha db db'"
| ingest: "ledger_step sha db (db\<lparr>db_concepts := db_concepts db @ cs, db_issuers := db_issuers db @ ciks,
     db_facts := facts, db_dimensions := dims, db_measures := units\<rparr>)"

inductive ledger_reachable :: "(string \<Rightarrow> string) \<Rightarrow> db \<Rightarrow> bool" for sha where
  init: "ledger_reachable sha empty_db"
| step: "ledger_reachable sha db \<Longrightarrow> ledger_step sha db db' \<Longrightarrow> ledger_reachable sha db'"

lemma ingest_keeps_inv:
  assumes "ledger_inv db"
  shows "ledger_inv (db\<lparr>db_concepts := db_concepts db @ cs, db_issuers := db_issuers db @ ciks,
    db_facts := facts, db_dimensions := dims, db_measures := units\<rparr>)"
    (is "ledger_inv ?db'")
proof -
  have frame: "db_assertions ?db' = db_assertions db" "db_next_id ?db' = db_next_id db"
    "db_metrics ?db' = db_metrics db" by simp_all
  have "chains_inv ?db' \<and> exact_inv ?db'"
    using assms unfolding ledger_inv_def chains_inv_def exact_inv_def is_current_def frame by blast
  moreover have "foreign_inv ?db'"
    using assms unfolding ledger_inv_def foreign_inv_def frame
    by (auto simp: image_Un split: option.splits)
  ultimately show ?thesis by (simp add: ledger_inv_def)
qed

lemma ledger_step_inv: "ledger_step sha db db' \<Longrightarrow> ledger_inv db \<Longrightarrow> ledger_inv db'"
  by (induction rule: ledger_step.induct)
     (auto intro: propose.keeps_inv accept.keeps_inv reject.keeps_inv sync.keeps_inv ingest_keeps_inv)

lemma ledger_reachable_inv: "ledger_reachable sha db \<Longrightarrow> ledger_inv db"
  by (induction rule: ledger_reachable.induct) (auto intro: empty_db_inv ledger_step_inv)

lemma covers_overlap:
  assumes "scope_covers l cik pe" and "scope_covers r cik pe" and "pred_option valid_date pe"
  shows "scopes_overlap l r"
proof -
  have "\<not> (sc_kind l = Issuer \<and> sc_kind r = Issuer \<and> sc_issuer_cik l \<noteq> sc_issuer_cik r)"
    using assms(1,2) by (auto simp: scope_covers_def)
  moreover have "intervals_overlap (sc_from l) (sc_to l) (sc_from r) (sc_to r)"
  proof (cases pe)
    case None
    then have "sc_from l = None" "sc_to l = None" "sc_from r = None" "sc_to r = None"
      using assms(1,2) by (auto simp: scope_covers_def interval_contains_def split: if_splits)
    then show ?thesis using valid_date_bounds [OF date_min_valid(1)]
      by (simp add: intervals_overlap_def or_else_def)
  next
    case (Some d)
    then have "valid_date d" using assms(3) by simp
    then show ?thesis
      using assms(1,2) Some by (auto simp: scope_covers_def interval_contains_bounds intervals_overlap_def)
  qed
  ultimately show ?thesis by (simp add: scopes_overlap_def)
qed

text \<open>
  Property C1: in every reachable ledger, for every concept, issuer and report date at most one
  current accepted exact mapping applies, so exact mappings are a function of the report.
\<close>

theorem ledger_exact_unique:
  assumes "ledger_reachable sha db"
    and "r \<in> set (fetch_current_assertions db)" and "s \<in> set (fetch_current_assertions db)"
    and "as_status r = Accepted" and "as_status s = Accepted"
    and "cl_relation (as_claim r) = Exact" and "cl_relation (as_claim s) = Exact"
    and "cl_source_concept_id (as_claim r) = cl_source_concept_id (as_claim s)"
    and "scope_covers (cl_scope (as_claim r)) cik period_end"
    and "scope_covers (cl_scope (as_claim s)) cik period_end"
    and "pred_option valid_date period_end"
  shows "r = s"
proof -
  have "exact_conflict r s" using assms(4-8) covers_overlap [OF assms(9-11)] by (simp add: exact_conflict_def)
  moreover have "exact_inv db" using ledger_reachable_inv [OF assms(1)] by (simp add: ledger_inv_def)
  ultimately show ?thesis
    using assms(2,3) by (auto simp: exact_inv_def fetch_current_assertions_iff)
qed

text \<open>
  Property C28: history is append-only: no transaction changes or removes a recorded revision, and a
  superseded revision never becomes current again.
\<close>

theorem ledger_history_permanent:
  assumes "ledger_inv db" and "ledger_step sha db db'" and "fetch_mapping_assertion db i = Some a"
  shows "fetch_mapping_assertion db' i = Some a \<and> (\<not> is_current db a \<longrightarrow> \<not> is_current db' a)"
  using assms(2) assms(1,3)
proof (cases rule: ledger_step.cases)
  case (propose yaml now c j)
  then show ?thesis
    using assms(1,3) propose.fetch_permanent propose.superseded_permanent by blast
next
  case (accept yaml now j rvn k)
  then show ?thesis
    using assms(1,3) accept.fetch_permanent accept.superseded_permanent by blast
next
  case (reject now j rvn k)
  then show ?thesis
    using assms(1,3) reject.fetch_permanent reject.superseded_permanent by blast
next
  case (sync yaml now r)
  then show ?thesis
    using assms(1,3) sync.fetch_permanent sync.superseded_permanent by blast
next
  case (ingest cs ciks facts dims units)
  then show ?thesis using assms(3) by (simp add: fetch_mapping_assertion_def is_current_def)
qed

section \<open>Revision chains\<close>

definition older :: "db \<Rightarrow> assertion_row \<Rightarrow> nat" where
  "older db r = card {q \<in> set (db_assertions db). as_id q < as_id r}"

definition newer :: "db \<Rightarrow> assertion_row \<Rightarrow> nat" where
  "newer db r = card {q \<in> set (db_assertions db). as_id r < as_id q}"

lemma older_less: "q \<in> set (db_assertions db) \<Longrightarrow> as_id q < as_id r \<Longrightarrow> older db q < older db r"
  unfolding older_def by (rule psubset_card_mono) auto

lemma newer_less: "q \<in> set (db_assertions db) \<Longrightarrow> as_id r < as_id q \<Longrightarrow> newer db q < newer db r"
  unfolding newer_def by (rule psubset_card_mono) auto

lemma older_bound: "older db r \<le> length (db_assertions db)" "newer db r \<le> length (db_assertions db)"
proof -
  have "card {q \<in> set (db_assertions db). P q} \<le> length (db_assertions db)" for P
    by (rule le_trans [OF card_mono card_length]) auto
  then show "older db r \<le> length (db_assertions db)" "newer db r \<le> length (db_assertions db)"
    by (simp_all add: older_def newer_def)
qed

lemma chains_id_unique:
  "chains_inv db \<Longrightarrow> r \<in> set (db_assertions db) \<Longrightarrow> s \<in> set (db_assertions db) \<Longrightarrow> as_id r = as_id s \<Longrightarrow> r = s"
  by (auto simp: chains_inv_def distinct_map dest: inj_onD)

lemma chains_pred:
  assumes "chains_inv db" and "r \<in> set (db_assertions db)" and "as_supersedes_id r = Some p"
  obtains q where "q \<in> set (db_assertions db)" "as_id q = p" "revision_of q r" "fetch_mapping_assertion db p = Some q"
proof -
  have "case as_supersedes_id r of None \<Rightarrow> as_status r = Candidate
       | Some _ \<Rightarrow> (\<exists>q\<in>set (db_assertions db). revision_of q r)"
    using assms(1,2) unfolding chains_inv_def by blast
  then obtain q where "q \<in> set (db_assertions db)" "revision_of q r" using assms(3) by auto
  then show ?thesis
    using that fetch_mapping_assertion_id [OF assms(1), of q] assms(3) by (auto simp: revision_of_def)
qed

lemma chain_root_total:
  assumes "chains_inv db" and "r \<in> set (db_assertions db)" and "older db r < n"
  shows "\<exists>root. chain_root n db r = Some root \<and> root \<in> set (db_assertions db) \<and>
    as_supersedes_id root = None \<and> (\<lambda>a b. b \<in> set (db_assertions db) \<and> revision_of a b)\<^sup>*\<^sup>* root r"
  using assms(2,3)
proof (induction n arbitrary: r)
  case (Suc n)
  show ?case
  proof (cases "as_supersedes_id r")
    case None
    then show ?thesis using Suc.prems by auto
  next
    case (Some p)
    obtain q where q: "q \<in> set (db_assertions db)" "revision_of q r" "fetch_mapping_assertion db p = Some q"
      using assms(1) Suc.prems(1) Some by (rule chains_pred)
    have "older db q < n" using older_less [OF q(1), of r] q(2) Suc.prems(2) by (simp add: revision_of_def)
    from Suc.IH [OF q(1) this] show ?thesis
      using Some q Suc.prems(1) by (auto intro: rtranclp.rtrancl_into_rtrancl)
  qed
qed simp

lemma chain_forward_total:
  assumes "chains_inv db" and "r \<in> set (db_assertions db)" and "newer db r < n"
  shows "\<exists>xs. chain_forward n db r = Inr (Some (r # xs)) \<and> set xs \<subseteq> set (db_assertions db) \<and>
    successively revision_of (r # xs) \<and> is_current db (last (r # xs))"
  using assms(2,3)
proof (induction n arbitrary: r)
  case (Suc n)
  show ?case
  proof (cases "is_current db r")
    case True
    then show ?thesis using successor_id_None [OF assms(1), of r] by simp
  next
    case False
    then obtain s where s: "s \<in> set (db_assertions db)" "as_supersedes_id s = Some (as_id r)"
      by (force simp: is_current_def)
    obtain q where q: "q \<in> set (db_assertions db)" "revision_of q s" "as_id q = as_id r"
      using assms(1) s by (rule chains_pred)
    have "q = r" using assms(1) q(1) Suc.prems(1) q(3) by (rule chains_id_unique)
    then have rs: "revision_of r s" using q by simp
    have "successor_id db (as_id r) = Inr (Some (as_id s))"
    proof -
      obtain t where t: "find (\<lambda>x. as_supersedes_id x = Some (as_id r)) (db_assertions db) = Some t"
        using s by (cases "find (\<lambda>x. as_supersedes_id x = Some (as_id r)) (db_assertions db)")
          (auto simp: find_None_iff)
      then have "t \<in> set (db_assertions db)" "as_supersedes_id t = Some (as_id r)" by (auto dest: find_Some_mem)
      then have "t = s" using s assms(1) unfolding chains_inv_def by fastforce
      then show ?thesis using t by (simp add: successor_id_total [OF assms(1)])
    qed
    moreover have "newer db s < n" using newer_less [OF s(1), of r] rs Suc.prems(2) by (simp add: revision_of_def)
    from Suc.IH [OF s(1) this] obtain xs where xs: "chain_forward n db s = Inr (Some (s # xs))"
      "set xs \<subseteq> set (db_assertions db)" "successively revision_of (s # xs)" "is_current db (last (s # xs))" by blast
    ultimately have "chain_forward (Suc n) db r = Inr (Some (r # s # xs))"
      using fetch_mapping_assertion_id [OF assms(1) s(1)] by simp
    then show ?thesis using xs rs s by (intro exI [of _ "s # xs"]) auto
  qed
qed simp

lemma chain_closed:
  assumes "chains_inv db" and "successively revision_of xs" and "set xs \<subseteq> set (db_assertions db)"
    and "xs \<noteq> []" and "is_current db (last xs)"
    and "x \<in> set xs" and "revision_of x y" and "y \<in> set (db_assertions db)"
  shows "y \<in> set xs"
  using assms(2-6)
proof (induction xs)
  case (Cons z zs)
  show ?case
  proof (cases "x = z")
    case True
    show ?thesis
    proof (cases zs)
      case Nil
      then show ?thesis using Cons.prems(4) True assms(7,8) by (force simp: is_current_def revision_of_def)
    next
      case (Cons w ws)
      then have "revision_of z w" "w \<in> set (db_assertions db)" using Cons.prems by auto
      then have "w = y" using True assms(1,7,8) unfolding chains_inv_def revision_of_def by fastforce
      then show ?thesis using Cons by simp
    qed
  next
    case False
    then show ?thesis using Cons by (cases zs) auto
  qed
qed simp

lemma statuses_short:
  assumes "successively revision_of xs" and "xs \<noteq> []" and "as_status (hd xs) = Candidate"
  shows "length xs \<le> 3"
proof (rule ccontr)
  assume "\<not> length xs \<le> 3"
  then obtain a b c d ys where xs: "xs = a # b # c # d # ys"
    by (metis Suc_le_length_iff not_less_eq_eq numeral_3_eq_3)
  then have "may_follow (as_status a) (as_status b)" "may_follow (as_status b) (as_status c)"
    "may_follow (as_status c) (as_status d)" using assms(1) by (auto simp: revision_of_def)
  then show False by (cases "as_status a"; cases "as_status b"; cases "as_status c"; cases "as_status d") auto
qed

lemma fetch_chain_total:
  assumes "ledger_inv db" and "fetch_mapping_assertion db i = Some a"
  shows "\<exists>chain. fetch_chain db i = Inr (Some chain) \<and> a \<in> set chain \<and> length chain \<le> 3 \<and>
    as_supersedes_id (hd chain) = None \<and> as_status (hd chain) = Candidate \<and>
    successively revision_of chain \<and> is_current db (last chain) \<and> set chain \<subseteq> set (db_assertions db)"
proof -
  have ci: "chains_inv db" using assms(1) by (rule ledger_invD)
  have a: "a \<in> set (db_assertions db)" using assms(2) by (auto dest: fetch_mapping_assertion_Some)
  let ?n = "Suc (length (db_assertions db))"
  obtain root where root: "chain_root ?n db a = Some root" "root \<in> set (db_assertions db)"
    "as_supersedes_id root = None" "(\<lambda>a b. b \<in> set (db_assertions db) \<and> revision_of a b)\<^sup>*\<^sup>* root a"
    using chain_root_total [OF ci a, of ?n] older_bound(1) [of db a] by (auto simp: le_imp_less_Suc)
  obtain xs where xs: "chain_forward ?n db root = Inr (Some (root # xs))" "set xs \<subseteq> set (db_assertions db)"
    "successively revision_of (root # xs)" "is_current db (last (root # xs))"
    using chain_forward_total [OF ci root(2), of ?n] older_bound(2) [of db root] by (auto simp: le_imp_less_Suc)
  have sub: "set (root # xs) \<subseteq> set (db_assertions db)" using root(2) xs(2) by simp
  have "a \<in> set (root # xs)"
    using root(4)
  proof (induction rule: rtranclp_induct)
    case (step y z)
    then show ?case using chain_closed [OF ci xs(3) sub _ xs(4), of y z] by simp
  qed simp
  moreover have st: "as_status root = Candidate" using ci root(2,3) by (fastforce simp: chains_inv_def)
  moreover have "length (root # xs) \<le> 3" using statuses_short [OF xs(3)] st by simp
  moreover have "fetch_chain db i = Inr (Some (root # xs))"
    using assms(2) root(1) xs(1) by (simp add: fetch_chain_def Let_def del: chain_root.simps chain_forward.simps)
  ultimately show ?thesis using root(3) xs(3,4) sub by (intro exI [of _ "root # xs"]) auto
qed

text \<open>
  Property C35: the history of every recorded assertion is found and is complete: both loops end, the
  chain starts at a root candidate, every revision supersedes the one before it with the same
  claim and an allowed status change (so there are at most three), it contains the assertion asked
  for, and it ends in the current revision.
\<close>

theorem fetch_chain_complete:
  assumes "ledger_inv db" and "fetch_mapping_assertion db i = Some a"
  shows "\<exists>chain. fetch_chain db i = Inr (Some chain) \<and> a \<in> set chain \<and> length chain \<le> 3 \<and>
    as_supersedes_id (hd chain) = None \<and> as_status (hd chain) = Candidate \<and>
    successively revision_of chain \<and> is_current db (last chain)"
  using fetch_chain_total [OF assms] by blast

section \<open>Validated decisions never violate a constraint\<close>

lemma strip_by_Nil_iff: "strip_by p s = [] \<longleftrightarrow> (\<forall>x\<in>set s. p x)"
proof (cases "dropWhile p s")
  case Nil
  then have "\<forall>x\<in>set s. p x" by (simp add: dropWhile_eq_Nil_conv)
  then show ?thesis by (simp add: strip_by_def Nil)
next
  case (Cons y ys)
  then have "\<not> p y" by (metis dropWhile_eq_Cons_conv)
  moreover from this have "\<not> (\<forall>x\<in>set s. p x)" using Cons by (metis dropWhile_eq_Nil_conv list.distinct(1))
  ultimately show ?thesis unfolding strip_by_def Cons by (simp add: dropWhile_eq_Nil_conv)
qed

lemma btrim_of_strip: "py_strip s \<noteq> [] \<Longrightarrow> btrim_nonempty s"
proof -
  assume "py_strip s \<noteq> []"
  then obtain c where c: "c \<in> set s" "\<not> is_space c" by (auto simp: py_strip_def strip_by_Nil_iff)
  have "is_space CHR '' ''" by (simp add: is_space_def)
  then have "c \<noteq> CHR '' ''" using c(2) by metis
  then show ?thesis unfolding btrim_nonempty_def strip_by_Nil_iff using c(1) by blast
qed

lemma non_empty_str_stripped: "non_empty_str v = Inr s \<Longrightarrow> py_strip s \<noteq> []"
  by (auto simp: non_empty_str_Inr)

lemma optional_text_stripped: "optional_text v = Inr (Some s) \<Longrightarrow> py_strip s \<noteq> []"
  by (auto simp: optional_text_def Let_def split: option.splits if_splits)

lemma validated_revision:
  assumes "validate_mapping_revision raw = Inr rvn"
  shows "btrim_nonempty (mr_created_by rvn)"
    and "mr_rationale rvn = Some t \<Longrightarrow> btrim_nonempty t \<and> \<not> blank_rationale rvn"
  using assms btrim_of_strip
  by (auto simp: validate_mapping_revision_def result_simps blank_rationale_def
      dest!: non_empty_str_stripped optional_text_stripped)

lemma foreign_row:
  assumes "foreign_inv db" and "r \<in> set (db_assertions db)"
  shows "assertion_row_checks r" "cl_source_concept_id (as_claim r) \<in> co_id ` set (db_concepts db)"
    "cl_target_metric_key (as_claim r) \<in> mw_key ` set (db_metrics db)"
    "case sc_issuer_cik (cl_scope (as_claim r)) of None \<Rightarrow> True | Some c \<Rightarrow> c \<in> set (db_issuers db)"
  using assms by (auto simp: foreign_inv_def)

lemma revise_inserts:
  assumes "ledger_inv db" and "current \<in> set (db_assertions db)" and "is_current db current"
    and "validate_mapping_revision raw = Inr rvn" and "mr_rationale rvn \<noteq> None"
    and "st = Rejected \<or> st = Accepted \<and> mr_evidence rvn \<noteq> []"
  shows "\<exists>db' j. insert_mapping_assertion (revise current (as_id current) st rvn now) db = Inr (db', j)"
proof -
  note row = foreign_row [OF ledger_invD(3) [OF assms(1)] assms(2)]
  obtain t where t: "mr_rationale rvn = Some t" using assms(5) by blast
  have "assertion_row_checks (revise current (as_id current) st rvn now)"
    using row(1) validated_revision [OF assms(4)] t assms(6) by (auto simp: assertion_row_checks_def)
  moreover have "assertion_row_keys db (revise current (as_id current) st rvn now)"
    using row(2-4) assms(2,3) by (auto simp: assertion_row_keys_def is_current_def)
  ultimately show ?thesis by (simp add: insert_mapping_assertion_def)
qed



text \<open>
  A current candidate or accepted assertion can always be rejected with a validated
  revision that gives a rationale, and nothing else can; a rejected assertion is terminal.
\<close>

theorem reject_mapping_succeeds_iff:
  assumes "ledger_inv db" and "validate_mapping_revision raw = Inr rvn"
  shows "(\<exists>db' j. reject_mapping now i rvn db = Inr (db', j)) \<longleftrightarrow>
    (\<exists>current\<in>set (fetch_current_assertions db). as_id current = i \<and> as_status current \<noteq> Rejected) \<and>
    mr_rationale rvn \<noteq> None"
    (is "?L \<longleftrightarrow> ?R")
proof -
  note ci = ledger_invD(1) [OF assms(1)]
  have blank: "\<not> blank_rationale rvn \<longleftrightarrow> mr_rationale rvn \<noteq> None"
    using validated_revision(2) [OF assms(2)] by (cases "mr_rationale rvn") (auto simp: blank_rationale_def)
  show ?thesis
  proof
    assume ?L
    then show ?R unfolding reject_mapping_Inr [OF ci] blank by (auto simp: fetch_current_assertions_iff)
  next
    assume ?R
    then obtain current where R: "current \<in> set (db_assertions db)" "is_current db current" "as_id current = i"
      "as_status current \<noteq> Rejected" "mr_rationale rvn \<noteq> None" by (auto simp: fetch_current_assertions_iff)
    then have "as_status current \<in> {Candidate, Accepted}" by (cases "as_status current") auto
    moreover obtain db' j where "insert_mapping_assertion (revise current i Rejected rvn now) db = Inr (db', j)"
      using revise_inserts [OF assms(1) R(1,2) assms(2) R(5), of Rejected now] R(3) by auto
    ultimately show ?L unfolding reject_mapping_Inr [OF ci] using R blank by blast
  qed
qed

section \<open>A concrete ledger\<close>

definition example_concept :: concept_row where
  "example_concept = \<lparr>co_id = ''c1'', co_namespace_uri = ''http://fasb.org/us-gaap/2024'', co_local_name = ''Assets''\<rparr>"

definition example_db :: db where
  "example_db = empty_db\<lparr>db_metrics := [row_for zero_sha 5 example_assets], db_concepts := [example_concept]\<rparr>"

definition example_scope :: scope where
  "example_scope = \<lparr>sc_kind = Global, sc_issuer_cik = None, sc_from = Some (Date 2020 1 1), sc_to = None\<rparr>"

definition example_evidence :: evidence_item where
  "example_evidence = \<lparr>ev_kind = Documentation, ev_summary = None, ev_data = [(''label'', JStr ''Assets'')], ev_accessions = []\<rparr>"

definition example_create :: mapping_create where
  "example_create = \<lparr>mc_concept = ''{http://fasb.org/us-gaap/2024}Assets'', mc_target_metric_key = ''assets'',
     mc_relation = Exact, mc_scope = example_scope, mc_method = Curated, mc_rationale = None,
     mc_evidence = [], mc_created_by = ''reviewer''\<rparr>"

definition example_revision :: mapping_revision where
  "example_revision = \<lparr>mr_method = Human_Review, mr_rationale = Some ''same concept'',
     mr_evidence = [example_evidence], mr_created_by = ''reviewer''\<rparr>"

definition example_candidate :: assertion_row where
  "example_candidate = \<lparr>as_id = 1, as_supersedes_id = None,
     as_claim = \<lparr>cl_source_concept_id = ''c1'', cl_target_metric_key = ''assets'',
       cl_target_definition_hash = replicate 64 CHR ''0'', cl_relation = Exact, cl_scope = example_scope\<rparr>,
     as_status = Candidate, as_method = Curated, as_rationale = None, as_evidence = [],
     as_created_at = 7, as_created_by = ''reviewer''\<rparr>"

definition example_accepted :: assertion_row where
  "example_accepted = (revise example_candidate 1 Accepted example_revision 8)\<lparr>as_id := 2\<rparr>"

definition example_db2 :: db where
  "example_db2 = example_db\<lparr>db_assertions := [example_candidate], db_next_id := 2\<rparr>"

definition example_db3 :: db where
  "example_db3 = example_db\<lparr>db_assertions := [example_candidate, example_accepted], db_next_id := 3\<rparr>"

lemma example_propose: "propose_mapping zero_sha (Inr example_registry) 7 example_create example_db = Inr (example_db2, 1)"
  by code_simp

lemma example_accept: "accept_mapping zero_sha (Inr example_registry) 8 1 example_revision example_db2 = Inr (example_db3, 2)"
  by code_simp

lemma example_revision_validated: "validate_mapping_revision example_revision = Inr example_revision"
  by code_simp

lemma example_reachable: "ledger_reachable zero_sha example_db" "ledger_reachable zero_sha example_db2"
  "ledger_reachable zero_sha example_db3"
proof -
  have "ledger_step zero_sha empty_db (empty_db\<lparr>db_metrics := [row_for zero_sha 5 example_assets]\<rparr>)"
    using example_sync [of 5] by (rule ledger_step.sync)
  then have 1: "ledger_reachable zero_sha (empty_db\<lparr>db_metrics := [row_for zero_sha 5 example_assets]\<rparr>)"
    using ledger_reachable.init by (rule ledger_reachable.step [rotated])
  have "ledger_step zero_sha (empty_db\<lparr>db_metrics := [row_for zero_sha 5 example_assets]\<rparr>) example_db"
    using ledger_step.ingest [where sha = zero_sha and cs = "[example_concept]" and ciks = "[]" and facts = "[]"
        and dims = "[]" and units = "[]" and db = "empty_db\<lparr>db_metrics := [row_for zero_sha 5 example_assets]\<rparr>"] by (simp add: example_db_def empty_db_def)
  with 1 show 2: "ledger_reachable zero_sha example_db" by (rule ledger_reachable.step)
  then show 3: "ledger_reachable zero_sha example_db2"
    by (rule ledger_reachable.step) (rule ledger_step.propose [OF example_propose])
  then show "ledger_reachable zero_sha example_db3"
    by (rule ledger_reachable.step) (rule ledger_step.accept [OF example_accept])
qed

lemma example_current: "fetch_current_assertions example_db3 = [example_accepted]"
  by code_simp

theorem ledger_exact_unique_witness:
  "{s \<in> set (fetch_current_assertions example_db3). as_status s = Accepted \<and>
     cl_relation (as_claim s) = Exact \<and> cl_source_concept_id (as_claim s) = ''c1'' \<and>
     scope_covers (cl_scope (as_claim s)) ''0000320193'' (Some (Date 2024 9 28))} = {example_accepted}"
  (is "?S = _")
proof -
  have mem: "example_accepted \<in> ?S"
    by (simp add: example_current example_accepted_def example_candidate_def example_scope_def
        scope_covers_def interval_contains_def less_date_def)
  have "s = example_accepted" if "s \<in> ?S" for s
    by (rule ledger_exact_unique [OF example_reachable(3), of s example_accepted "''0000320193''"
          "Some (Date 2024 9 28)"])
       (use that mem in \<open>simp_all add: valid_date_def days_in_month_def\<close>)
  then show ?thesis using mem by blast
qed

theorem ledger_history_permanent_witness:
  "fetch_mapping_assertion example_db3 1 = Some example_candidate"
proof -
  have "fetch_mapping_assertion example_db2 1 = Some example_candidate" by code_simp
  then show ?thesis
    using ledger_history_permanent [OF ledger_reachable_inv [OF example_reachable(2)]
        ledger_step.accept [OF example_accept]] by blast
qed

theorem fetch_chain_complete_witness:
  "\<exists>chain. fetch_chain example_db3 1 = Inr (Some chain) \<and> example_candidate \<in> set chain \<and>
     is_current example_db3 (last chain)"
proof -
  have "fetch_mapping_assertion example_db3 1 = Some example_candidate" by code_simp
  from fetch_chain_complete [OF ledger_reachable_inv [OF example_reachable(3)] this] show ?thesis by blast
qed


theorem reject_mapping_succeeds_iff_witness:
  "\<exists>db' j. reject_mapping 9 2 example_revision example_db3 = Inr (db', j)"
  using reject_mapping_succeeds_iff [OF ledger_reachable_inv [OF example_reachable(3)] example_revision_validated,
      of 9 2]
  by (simp add: example_current example_accepted_def example_revision_def)

end
