(* ===== verification/Ledger_Concurrency.thy ===== *)
theory Ledger_Concurrency
  imports Ledger_Machine
begin

text \<open>
  Concurrent reviewers.  Each transaction of \<^verbatim>\<open>service.py\<close> runs on its own connection under
  PostgreSQL's default READ COMMITTED isolation: every statement sees what is committed when it
  starts.  The accept handler is split where other transactions can interleave: the reads
  (\<^verbatim>\<open>_require_current\<close>, \<^verbatim>\<open>_require_yaml_metric\<close>, \<^verbatim>\<open>_require_accepted_evidence\<close>), the row lock
  \<^verbatim>\<open>SELECT ... FOR UPDATE\<close> on the source concept, the conflict check, and the insert with the
  commit that ends the transaction and releases the lock.  The reject handler takes no lock: it
  reads, then inserts and commits.  An insert that would supersede a row twice fails on the unique
  constraint, so its transaction aborts; any transaction may abort at any point.
\<close>

section \<open>The phases of a decision\<close>

definition accept_read ::
    "(string \<Rightarrow> string) \<Rightarrow> loaded_registry res \<Rightarrow> int \<Rightarrow> mapping_revision \<Rightarrow> db \<Rightarrow> assertion_row res" where
  "accept_read sha yaml i revision db =
     res_bind (require_current db i) (\<lambda>current.
       if as_status current \<noteq> Candidate
       then Inl (MappingDecisionError ''only a current candidate can be accepted'')
       else res_bind (require_yaml_metric sha yaml db (cl_target_metric_key (as_claim current))) (\<lambda>metric.
         res_bind (require_accepted_evidence revision (definition_hash sha metric)
                     (cl_target_definition_hash (as_claim current))) (\<lambda>_. Inr current)))"

definition reject_read :: "int \<Rightarrow> mapping_revision \<Rightarrow> db \<Rightarrow> assertion_row res" where
  "reject_read i revision db =
     res_bind (require_current db i) (\<lambda>current.
       if as_status current \<notin> {Candidate, Accepted}
       then Inl (MappingDecisionError ''rejected assertions are terminal'')
       else if blank_rationale revision
       then Inl (MappingDecisionError ''rejected mappings require a non-empty rationale'')
       else Inr current)"

lemma accept_mapping_phases:
  "accept_mapping sha yaml now i revision db =
     res_bind (accept_read sha yaml i revision db) (\<lambda>current.
     res_bind (lock_source_concept db (cl_source_concept_id (as_claim current))) (\<lambda>_.
     res_bind (conflict_if_needed db current i) (\<lambda>_.
       insert_mapping_assertion (revise current i Accepted revision now) db)))"
  unfolding accept_mapping_def accept_read_def res_bind_assoc
  by (auto intro!: res_bind_cong simp: res_bind_assoc)

lemma reject_mapping_phases:
  "reject_mapping now i revision db =
     res_bind (reject_read i revision db) (\<lambda>current.
       insert_mapping_assertion (revise current i Rejected revision now) db)"
  unfolding reject_mapping_def reject_read_def res_bind_assoc by (auto intro!: res_bind_cong)

datatype phase =
    Idle
  | Accept_Read int mapping_revision assertion_row
  | Accept_Locked int mapping_revision assertion_row
  | Accept_Checked int mapping_revision assertion_row
  | Reject_Read int mapping_revision assertion_row

record system =
  sys_db :: db
  sys_phase :: "nat \<Rightarrow> phase"
  sys_lock :: "string \<Rightarrow> nat option"

definition release :: "nat \<Rightarrow> (string \<Rightarrow> nat option) \<Rightarrow> string \<Rightarrow> nat option" where
  "release c locks cid = (if locks cid = Some c then None else locks cid)"

abbreviation concept_of :: "assertion_row \<Rightarrow> string" where
  "concept_of r \<equiv> cl_source_concept_id (as_claim r)"

inductive system_step :: "(string \<Rightarrow> string) \<Rightarrow> system \<Rightarrow> system \<Rightarrow> bool" for sha where
  accept_begins: "sys_phase s c = Idle \<Longrightarrow> accept_read sha yaml i rvn (sys_db s) = Inr cur \<Longrightarrow>
     system_step sha s (s\<lparr>sys_phase := (sys_phase s)(c := Accept_Read i rvn cur)\<rparr>)"
| accept_locks: "sys_phase s c = Accept_Read i rvn cur \<Longrightarrow> sys_lock s (concept_of cur) = None \<Longrightarrow>
     lock_source_concept (sys_db s) (concept_of cur) = Inr () \<Longrightarrow>
     system_step sha s (s\<lparr>sys_phase := (sys_phase s)(c := Accept_Locked i rvn cur),
                          sys_lock := (sys_lock s)(concept_of cur := Some c)\<rparr>)"
| accept_checks: "sys_phase s c = Accept_Locked i rvn cur \<Longrightarrow> conflict_if_needed (sys_db s) cur i = Inr () \<Longrightarrow>
     system_step sha s (s\<lparr>sys_phase := (sys_phase s)(c := Accept_Checked i rvn cur)\<rparr>)"
| accept_commits: "sys_phase s c = Accept_Checked i rvn cur \<Longrightarrow>
     insert_mapping_assertion (revise cur i Accepted rvn now) (sys_db s) = Inr (db', j) \<Longrightarrow>
     system_step sha s (s\<lparr>sys_db := db', sys_phase := (sys_phase s)(c := Idle), sys_lock := release c (sys_lock s)\<rparr>)"
| reject_begins: "sys_phase s c = Idle \<Longrightarrow> reject_read i rvn (sys_db s) = Inr cur \<Longrightarrow>
     system_step sha s (s\<lparr>sys_phase := (sys_phase s)(c := Reject_Read i rvn cur)\<rparr>)"
| reject_commits: "sys_phase s c = Reject_Read i rvn cur \<Longrightarrow>
     insert_mapping_assertion (revise cur i Rejected rvn now) (sys_db s) = Inr (db', j) \<Longrightarrow>
     system_step sha s (s\<lparr>sys_db := db', sys_phase := (sys_phase s)(c := Idle), sys_lock := release c (sys_lock s)\<rparr>)"
| aborts: "system_step sha s (s\<lparr>sys_phase := (sys_phase s)(c := Idle), sys_lock := release c (sys_lock s)\<rparr>)"
| proposes: "propose_mapping sha yaml now create (sys_db s) = Inr (db', j) \<Longrightarrow> system_step sha s (s\<lparr>sys_db := db'\<rparr>)"
| syncs: "sync_canonical_metrics sha yaml now (sys_db s) = Inr (db', r) \<Longrightarrow> system_step sha s (s\<lparr>sys_db := db'\<rparr>)"

definition system_init :: "db \<Rightarrow> system" where
  "system_init db = \<lparr>sys_db = db, sys_phase = (\<lambda>_. Idle), sys_lock = (\<lambda>_. None)\<rparr>"

inductive system_reachable :: "(string \<Rightarrow> string) \<Rightarrow> system \<Rightarrow> bool" for sha where
  init: "ledger_reachable sha db \<Longrightarrow> system_reachable sha (system_init db)"
| step: "system_reachable sha s \<Longrightarrow> system_step sha s s' \<Longrightarrow> system_reachable sha s'"

section \<open>The invariant of the interleaved system\<close>

definition read_row :: "db \<Rightarrow> int \<Rightarrow> assertion_row \<Rightarrow> bool" where
  "read_row db i cur = (cur \<in> set (db_assertions db) \<and> as_id cur = i)"

definition clear_of :: "db \<Rightarrow> int \<Rightarrow> assertion_row \<Rightarrow> bool" where
  "clear_of db i cur = (\<forall>t\<in>set (db_assertions db). is_current db t \<longrightarrow> as_id t \<noteq> i \<longrightarrow>
     \<not> exact_conflict (cur\<lparr>as_status := Accepted\<rparr>) t)"

fun phase_ok :: "db \<Rightarrow> (string \<Rightarrow> nat option) \<Rightarrow> nat \<Rightarrow> phase \<Rightarrow> bool" where
  "phase_ok db locks c Idle = True"
| "phase_ok db locks c (Accept_Read i rvn cur) = (read_row db i cur \<and> as_status cur = Candidate)"
| "phase_ok db locks c (Accept_Locked i rvn cur) =
     (read_row db i cur \<and> as_status cur = Candidate \<and> locks (concept_of cur) = Some c)"
| "phase_ok db locks c (Accept_Checked i rvn cur) =
     (read_row db i cur \<and> as_status cur = Candidate \<and> locks (concept_of cur) = Some c \<and> clear_of db i cur)"
| "phase_ok db locks c (Reject_Read i rvn cur) = (read_row db i cur \<and> as_status cur \<noteq> Rejected)"

definition system_inv :: "system \<Rightarrow> bool" where
  "system_inv s = (ledger_inv (sys_db s) \<and> (\<forall>c. phase_ok (sys_db s) (sys_lock s) c (sys_phase s c)))"

lemma accept_read_row:
  assumes "ledger_inv db" and "accept_read sha yaml i rvn db = Inr cur"
  shows "read_row db i cur \<and> as_status cur = Candidate"
  using assms by (auto simp: accept_read_def result_simps require_current_Inr [OF ledger_invD(1)] read_row_def
      split: if_splits)

lemma reject_read_row:
  assumes "ledger_inv db" and "reject_read i rvn db = Inr cur"
  shows "read_row db i cur \<and> as_status cur \<noteq> Rejected"
  using assms by (auto simp: reject_read_def result_simps require_current_Inr [OF ledger_invD(1)] read_row_def
      split: if_splits)

text \<open>
  How a commit of another transaction may change the database under a waiting one: a new row is
  inserted that is not an accepted exact mapping of the concept whose lock the waiting one holds.
\<close>

lemma clear_of_insert:
  assumes "chains_inv db" and "insert_mapping_assertion row db = Inr (db', j)" and "clear_of db i cur"
    and "as_status row \<noteq> Accepted \<or> concept_of row \<noteq> concept_of cur"
  shows "clear_of db' i cur"
  unfolding clear_of_def
proof (intro ballI impI)
  fix t assume t: "t \<in> set (db_assertions db')" "is_current db' t" "as_id t \<noteq> i"
  then consider "t = row\<lparr>as_id := j\<rparr>" | "t \<in> set (db_assertions db)" "is_current db t"
    using insert_is_current [OF assms(1,2) t(1)] by blast
  then show "\<not> exact_conflict (cur\<lparr>as_status := Accepted\<rparr>) t"
  proof cases
    case 1
    then show ?thesis using assms(4) by (auto simp: exact_conflict_def)
  next
    case 2
    then show ?thesis using assms(3) t(3) by (simp add: clear_of_def)
  qed
qed

lemma phase_ok_insert:
  assumes "chains_inv db" and "insert_mapping_assertion row db = Inr (db', j)"
    and "phase_ok db locks c p"
    and "as_status row = Accepted \<Longrightarrow> locks (concept_of row) \<noteq> Some c"
  shows "phase_ok db' locks c p"
proof -
  have rows: "read_row db' i cur" if "read_row db i cur" for i cur
    using assms(2) that by (auto simp: insert_mapping_assertion_Inr read_row_def)
  have clr: "clear_of db' i cur" if "clear_of db i cur" "locks (concept_of cur) = Some c" for i cur
    using clear_of_insert [OF assms(1,2) that(1)] assms(4) that(2) by metis
  show ?thesis using assms(3) rows clr by (cases p) auto
qed

lemma phase_ok_release:
  assumes "phase_ok db locks c p" and "c \<noteq> c'"
  shows "phase_ok db (release c' locks) c p"
  using assms by (cases p) (auto simp: release_def)

lemma phase_ok_frame:
  assumes "phase_ok db locks c p" and "db_assertions db' = db_assertions db"
  shows "phase_ok db' locks c p"
  using assms by (cases p) (auto simp: read_row_def clear_of_def is_current_def)

lemma commit_keeps_inv:
  assumes "ledger_inv db" and "read_row db i cur" and "may_follow (as_status cur) st"
    and "insert_mapping_assertion (revise cur i st rvn now) db = Inr (db', j)"
    and "st = Accepted \<Longrightarrow> clear_of db i cur"
  shows "ledger_inv db'"
proof -
  note inv = ledger_invD [OF assms(1)]
  have cur: "cur \<in> set (db_assertions db)" "as_id cur = i" using assms(2) by (auto simp: read_row_def)
  have "chains_inv db'"
    by (rule revise_keeps_chains [OF inv(1) cur(1) assms(3), of rvn now db' j]) (use assms(4) cur in simp)
  moreover have "exact_inv db'"
    using inv(1,2) assms(4)
    by (rule insert_keeps_exact) (use assms(5) in \<open>auto simp: clear_of_def exact_conflict_def\<close>)
  moreover have "foreign_inv db'" using inv(3) assms(4) by (rule insert_keeps_foreign)
  ultimately show ?thesis by (simp add: ledger_inv_def)
qed

lemma phase_ok_lock:
  assumes "phase_ok db locks c p" and "locks cid = None"
  shows "phase_ok db (locks(cid := Some c')) c p"
  using assms by (cases p) auto

lemma commit_system_inv:
  assumes inv: "system_inv s" and read: "read_row (sys_db s) i cur" and follow: "may_follow (as_status cur) st"
    and ins: "insert_mapping_assertion (revise cur i st rvn now) (sys_db s) = Inr (db', j)"
    and mine: "st = Accepted \<Longrightarrow> clear_of (sys_db s) i cur \<and> sys_lock s (concept_of cur) = Some c"
  shows "system_inv (s\<lparr>sys_db := db', sys_phase := (sys_phase s)(c := Idle), sys_lock := release c (sys_lock s)\<rparr>)"
proof -
  have li: "ledger_inv (sys_db s)" using inv by (simp add: system_inv_def)
  have "ledger_inv db'" using li read follow ins by (rule commit_keeps_inv) (use mine in blast)
  moreover have "phase_ok db' (release c (sys_lock s)) d (sys_phase s d)" if "d \<noteq> c" for d
  proof (rule phase_ok_release [OF phase_ok_insert [OF ledger_invD(1) [OF li] ins] that])
    show "phase_ok (sys_db s) (sys_lock s) d (sys_phase s d)" using inv by (simp add: system_inv_def)
    show "sys_lock s (concept_of (revise cur i st rvn now)) \<noteq> Some d"
      if "as_status (revise cur i st rvn now) = Accepted" using mine that \<open>d \<noteq> c\<close> by simp
  qed
  ultimately show ?thesis by (simp add: system_inv_def)
qed

lemma system_step_inv:
  assumes "system_step sha s s'" and inv: "system_inv s"
  shows "system_inv s'"
proof -
  have li: "ledger_inv (sys_db s)" and ph: "phase_ok (sys_db s) (sys_lock s) d (sys_phase s d)" for d
    using inv by (auto simp: system_inv_def)
  show ?thesis
    using assms(1)
  proof cases
    case (accept_begins c yaml i rvn cur)
    then show ?thesis using li ph accept_read_row [OF li accept_begins(3)] by (simp add: system_inv_def)
  next
    case (accept_locks c i rvn cur)
    then show ?thesis using li ph ph [of c] phase_ok_lock by (auto simp: system_inv_def)
  next
    case (accept_checks c i rvn cur)
    then have "read_row (sys_db s) i cur" "as_status cur = Candidate" "sys_lock s (concept_of cur) = Some c"
      using ph [of c] by auto
    moreover have "clear_of (sys_db s) i cur"
      using conflict_if_needed_clear [OF accept_checks(3)] by (auto simp: clear_of_def exact_conflict_def)
    ultimately show ?thesis using accept_checks li ph by (simp add: system_inv_def)
  next
    case (accept_commits c i rvn cur now db' j)
    then show ?thesis
      using ph [of c] by (auto intro!: commit_system_inv [OF inv, of i cur Accepted rvn now db' j c])
  next
    case (reject_begins c i rvn cur)
    then show ?thesis using li ph reject_read_row [OF li reject_begins(3)] by (simp add: system_inv_def)
  next
    case (reject_commits c i rvn cur now db' j)
    then have "may_follow (as_status cur) Rejected" using ph [of c] by (cases "as_status cur") auto
    then show ?thesis
      using reject_commits ph [of c]
      by (auto intro!: commit_system_inv [OF inv, of i cur Rejected rvn now db' j c])
  next
    case (aborts c)
    then show ?thesis using li ph phase_ok_release by (auto simp: system_inv_def)
  next
    case (proposes yaml now create db' j)
    obtain row where row: "insert_mapping_assertion row (sys_db s) = Inr (db', j)" "as_status row = Candidate"
      using proposes(2) by (rule propose_mapping_Inr)
    have "phase_ok db' (sys_lock s) d (sys_phase s d)" for d
      using ledger_invD(1) [OF li] row(1) ph by (rule phase_ok_insert) (simp add: row(2))
    then show ?thesis using proposes propose.keeps_inv [OF li proposes(2)] by (simp add: system_inv_def)
  next
    case (syncs yaml now db' r)
    have "db_assertions db' = db_assertions (sys_db s)"
      using sync_frame [OF ledger_invD(3) [OF li] syncs(2)] by (auto simp: only_metrics_def)
    then have "phase_ok db' (sys_lock s) d (sys_phase s d)" for d using ph phase_ok_frame by blast
    then show ?thesis using syncs sync.keeps_inv [OF li syncs(2)] by (simp add: system_inv_def)
  qed
qed

lemma system_reachable_inv: "system_reachable sha s \<Longrightarrow> system_inv s"
proof (induction rule: system_reachable.induct)
  case (init db)
  then show ?case using ledger_reachable_inv by (auto simp: system_inv_def system_init_def)
next
  case (step s s')
  then show ?case using system_step_inv by blast
qed

fun holds_lock :: "phase \<Rightarrow> string option" where
  "holds_lock (Accept_Locked i rvn cur) = Some (concept_of cur)"
| "holds_lock (Accept_Checked i rvn cur) = Some (concept_of cur)"
| "holds_lock _ = None"

text \<open>
  Property C2: however the statements of concurrent reviewers interleave, the committed ledger keeps
  its invariant: ids and chains stay well formed, no assertion is superseded twice, and no two
  current accepted exact mappings of a concept overlap.
\<close>

theorem concurrent_ledger_safe:
  assumes "system_reachable sha s"
  shows "ledger_inv (sys_db s) \<and>
    (\<forall>r\<in>set (fetch_current_assertions (sys_db s)). \<forall>t\<in>set (fetch_current_assertions (sys_db s)).
       exact_conflict r t \<longrightarrow> r = t)"
  using system_reachable_inv [OF assms]
  by (auto simp: system_inv_def ledger_inv_def exact_inv_def fetch_current_assertions_iff)

text \<open>
  The row lock is exclusive: two reviewers are never past the lock on one source concept
  at the same time, so the conflict check of one cannot be invalidated by the other's commit.
\<close>

theorem concept_lock_exclusive:
  assumes "system_reachable sha s" and "holds_lock (sys_phase s c) = Some cid" and "holds_lock (sys_phase s d) = Some cid"
  shows "c = d"
proof -
  have "sys_lock s cid = Some e" if "holds_lock (sys_phase s e) = Some cid" for e
    using system_reachable_inv [OF assms(1)] that
    by (cases "sys_phase s e") (auto simp: system_inv_def dest!: spec [of _ e])
  then show ?thesis using assms(2,3) by (metis option.inject)
qed

definition example_waiting :: system where
  "example_waiting = (system_init example_db2)\<lparr>
     sys_phase := (\<lambda>_. Idle)(0 := Accept_Locked 1 example_revision example_candidate),
     sys_lock := (\<lambda>_. None)(''c1'' := Some 0)\<rparr>"

lemma example_waiting_reachable: "system_reachable zero_sha example_waiting"
proof -
  let ?s0 = "system_init example_db2"
  let ?s1 = "?s0\<lparr>sys_phase := (sys_phase ?s0)(0 := Accept_Read 1 example_revision example_candidate)\<rparr>"
  have r0: "system_reachable zero_sha ?s0" using example_reachable(2) by (rule system_reachable.init)
  have "accept_read zero_sha (Inr example_registry) 1 example_revision example_db2 = Inr example_candidate"
    by code_simp
  then have "system_step zero_sha ?s0 ?s1"
    by (intro system_step.accept_begins [where yaml = "Inr example_registry"]) (simp_all add: system_init_def)
  with r0 have r1: "system_reachable zero_sha ?s1" by (rule system_reachable.step)
  have "lock_source_concept example_db2 ''c1'' = Inr ()" by code_simp
  then have "system_step zero_sha ?s1 (?s1\<lparr>sys_phase := (sys_phase ?s1)(0 := Accept_Locked 1 example_revision example_candidate),
      sys_lock := (sys_lock ?s1)(concept_of example_candidate := Some 0)\<rparr>)"
    by (intro system_step.accept_locks) (simp_all add: system_init_def example_candidate_def)
  with r1 have "system_reachable zero_sha (?s1\<lparr>sys_phase := (sys_phase ?s1)(0 := Accept_Locked 1 example_revision example_candidate),
      sys_lock := (sys_lock ?s1)(concept_of example_candidate := Some 0)\<rparr>)" by (rule system_reachable.step)
  then show ?thesis by (simp add: example_waiting_def system_init_def example_candidate_def)
qed

theorem concurrent_ledger_safe_witness:
  "ledger_inv (sys_db example_waiting) \<and> db_assertions (sys_db example_waiting) = [example_candidate]"
  using concurrent_ledger_safe [OF example_waiting_reachable]
  by (simp add: example_waiting_def system_init_def example_db2_def)

theorem concept_lock_exclusive_witness:
  "{d. holds_lock (sys_phase example_waiting d) = Some ''c1''} = {0}"
proof -
  have h: "holds_lock (sys_phase example_waiting 0) = Some ''c1''"
    by (simp add: example_waiting_def example_candidate_def)
  then show ?thesis using concept_lock_exclusive [OF example_waiting_reachable _ h] by auto
qed

end
