(* ===== verification/Ledger_Views.thy ===== *)
theory Ledger_Views
  imports Ledger_Machine
begin

text \<open>
  The read side of \<^verbatim>\<open>src/edgar/registry/service.py\<close> with the read models of \<^verbatim>\<open>registry/views.py\<close>: views of
  assertions, listings, histories, affected facts and mapping reports.

  The evidence column holds the items themselves, so a view validates them again but need not
  parse JSON.
\<close>

section \<open>Views\<close>

definition DEFAULT_SHOW_FACT_LIMIT :: nat where
  "DEFAULT_SHOW_FACT_LIMIT = 25"

record assertion_view =
  av_id :: int
  av_supersedes_id :: "int option"
  av_is_current :: bool
  av_source_concept_id :: string
  av_source_concept :: string
  av_target_metric_key :: string
  av_target_definition_hash :: string
  av_relation :: relation
  av_scope :: scope
  av_status :: mapping_status
  av_method :: mapping_method
  av_rationale :: "string option"
  av_evidence :: "evidence_item list"
  av_created_at :: int
  av_created_by :: string

record concept_view =
  cv_id :: string
  cv_namespace_uri :: string
  cv_local_name :: string
  cv_clark_qname :: string

record target_metric_view =
  tv_metric :: canonical_metric
  tv_definition_hash :: string

record dimension_view =
  dv_dimension :: string
  dv_member :: "string option"
  dv_member_kind :: string
  dv_context_element :: string
  dv_typed_member :: "json option"

record measure_view =
  mv_side :: string
  mv_ordinal :: int
  mv_measure :: string

record fact_view =
  fv_fact_id :: int
  fv_accession :: string
  fv_issuer_cik :: string
  fv_report_period_end :: "date option"
  fv_period_kind :: string
  fv_period_instant :: "string option"
  fv_period_start :: "string option"
  fv_period_end :: "string option"
  fv_source_document :: "string option"
  fv_source_locator :: "json option"
  fv_dimensions :: "dimension_view list"
  fv_unit_measures :: "measure_view list"
  fv_raw_lexical_value :: "string option"
  fv_resolved_value_kind :: "string option"
  fv_resolved_numeric :: "decimal option"
  fv_resolved_text :: "string option"
  fv_is_nil :: bool

record affected_fact_summary =
  sm_count :: nat
  sm_shown :: nat
  sm_truncated :: bool
  sm_accession_count :: nat
  sm_issuer_count :: nat

record mapping_report =
  rp_mapping :: assertion_view
  rp_is_current :: bool
  rp_current_revision_id :: int
  rp_source_concept :: concept_view
  rp_target_metric :: target_metric_view
  rp_yaml_definition_hash :: string
  rp_definition_changed :: bool
  rp_mirror_out_of_sync :: bool
  rp_scope :: scope
  rp_rationale :: "string option"
  rp_evidence :: "evidence_item list"
  rp_history :: "assertion_view list"
  rp_summary :: affected_fact_summary
  rp_affected_facts :: "fact_view list"

definition clark_name :: "string option \<Rightarrow> string \<Rightarrow> string" where
  "clark_name ns loc = (case ns of
     None \<Rightarrow> loc
   | Some n \<Rightarrow> if n = [] then loc else ''{'' @ n @ ''}'' @ loc)"

definition view_of_concept :: "concept_row \<Rightarrow> concept_view" where
  "view_of_concept r = \<lparr>cv_id = co_id r, cv_namespace_uri = co_namespace_uri r, cv_local_name = co_local_name r,
     cv_clark_qname = clark_name (Some (co_namespace_uri r)) (co_local_name r)\<rparr>"

definition view_of_metric :: "canonical_metric \<Rightarrow> string \<Rightarrow> target_metric_view" where
  "view_of_metric m h = \<lparr>tv_metric = m, tv_definition_hash = h\<rparr>"

definition view_of_assertion :: "assertion_row \<Rightarrow> concept_row \<Rightarrow> bool \<Rightarrow> assertion_view res" where
  "view_of_assertion row concept current =
     res_bind (map_res validate_evidence_item (as_evidence row)) (\<lambda>evidence.
       Inr \<lparr>av_id = as_id row, av_supersedes_id = as_supersedes_id row, av_is_current = current,
         av_source_concept_id = cl_source_concept_id (as_claim row),
         av_source_concept = clark_name (Some (co_namespace_uri concept)) (co_local_name concept),
         av_target_metric_key = cl_target_metric_key (as_claim row),
         av_target_definition_hash = cl_target_definition_hash (as_claim row),
         av_relation = cl_relation (as_claim row), av_scope = cl_scope (as_claim row),
         av_status = as_status row, av_method = as_method row, av_rationale = as_rationale row,
         av_evidence = evidence, av_created_at = as_created_at row, av_created_by = as_created_by row\<rparr>)"

definition view_of_dimension :: "dimension_row \<Rightarrow> dimension_view" where
  "view_of_dimension r = \<lparr>dv_dimension = clark_name (Some (dm_dimension_namespace_uri r)) (dm_dimension_local_name r),
     dv_member = map_option (clark_name (dm_member_namespace_uri r)) (dm_member_local_name r),
     dv_member_kind = dm_member_kind r, dv_context_element = dm_context_element r,
     dv_typed_member = (case dm_typed_member r of Some (JObj []) \<Rightarrow> None | t \<Rightarrow> t)\<rparr>"

definition view_of_measure :: "measure_row \<Rightarrow> measure_view" where
  "view_of_measure r = \<lparr>mv_side = um_side r, mv_ordinal = um_ordinal r,
     mv_measure = clark_name (um_measure_namespace_uri r) (um_measure_local_name r)\<rparr>"

definition view_of_fact :: "fact_source_row \<Rightarrow> dimension_row list \<Rightarrow> measure_row list \<Rightarrow> fact_view" where
  "view_of_fact r dims ms = \<lparr>fv_fact_id = fs_fact_id r, fv_accession = fs_accession r,
     fv_issuer_cik = fs_issuer_cik r, fv_report_period_end = fs_report_period_end r,
     fv_period_kind = fs_period_kind r, fv_period_instant = fs_instant_lexical r,
     fv_period_start = fs_start_lexical r, fv_period_end = fs_end_lexical r,
     fv_source_document = fs_source_document r,
     fv_source_locator = (case fs_source_locator r of Some (JObj []) \<Rightarrow> None | l \<Rightarrow> l),
     fv_dimensions = map view_of_dimension dims, fv_unit_measures = map view_of_measure ms,
     fv_raw_lexical_value = fs_raw_lexical_value r, fv_resolved_value_kind = fs_resolved_value_kind r,
     fv_resolved_numeric = fs_resolved_numeric r, fv_resolved_text = fs_resolved_text r,
     fv_is_nil = fs_is_nil r\<rparr>"

fun scope_kind_name :: "scope_kind \<Rightarrow> string" where
  "scope_kind_name Global = ''global''"
| "scope_kind_name Issuer = ''issuer''"

fun relation_name :: "relation \<Rightarrow> string" where
  "relation_name Exact = ''exact''"
| "relation_name Narrower = ''narrower''"
| "relation_name Broader = ''broader''"
| "relation_name Related = ''related''"

definition assertion_sort_key ::
    "assertion_view \<Rightarrow> (string \<times> string \<times> string \<times> string \<times> string \<times> string \<times> int) res" where
  "assertion_sort_key v = res_bind (parse_clark_qname (av_source_concept v)) (\<lambda>(ns, loc).
     Inr (ns, loc, scope_kind_name (sc_kind (av_scope v)), or_else (sc_issuer_cik (av_scope v)) [],
          av_target_metric_key v, relation_name (av_relation v), av_id v))"

definition locator_sort_key :: "json option \<Rightarrow> string" where
  "locator_sort_key l = (case l of None \<Rightarrow> [] | Some j \<Rightarrow> canonical_json_bytes j)"

definition fact_sort_key :: "fact_view \<Rightarrow> string \<times> bool \<times> date \<times> string \<times> string \<times> int" where
  "fact_sort_key f = (fv_accession f, fv_report_period_end f = None, or_else (fv_report_period_end f) date_min,
     or_else (fv_source_document f) [], locator_sort_key (fv_source_locator f), fv_fact_id f)"

section \<open>Queries\<close>

definition views_for_rows :: "db \<Rightarrow> assertion_row list \<Rightarrow> assertion_view list res" where
  "views_for_rows db rows =
     (let concepts = fetch_concepts_by_ids db (map (\<lambda>r. cl_source_concept_id (as_claim r)) rows);
          current_ids = map as_id (fetch_current_assertions db)
      in map_res (\<lambda>row. case map_of concepts (cl_source_concept_id (as_claim row)) of
           None \<Rightarrow> Inl (MappingDecisionError ''source concept not found for assertion'')
         | Some concept \<Rightarrow> view_of_assertion row concept (as_id row \<in> set current_ids)) rows)"

definition list_mappings ::
    "db \<Rightarrow> mapping_status option \<Rightarrow> relation option \<Rightarrow> string option \<Rightarrow> string option \<Rightarrow> string option
      \<Rightarrow> assertion_view list res" where
  "list_mappings db status rel mkey issuer_cik concept =
     (let query = (\<lambda>cid.
        res_bind (views_for_rows db (list_current_assertions db status rel mkey issuer_cik cid)) (\<lambda>views.
        res_bind (map_res (\<lambda>v. res_bind (assertion_sort_key v) (\<lambda>k. Inr (k, v))) views) (\<lambda>keyed.
          Inr (map snd (sort_key fst keyed)))))
      in case concept of
           None \<Rightarrow> query None
         | Some c \<Rightarrow> (case parse_clark_qname c of
              Inl e \<Rightarrow> if is_value_error e then Inl (MappingDecisionError ''invalid concept'') else Inl e
            | Inr (ns, loc) \<Rightarrow> (case fetch_concept_by_qname db ns loc of
                 None \<Rightarrow> Inr []
               | Some found \<Rightarrow> query (Some (co_id found)))))"

definition affected_facts_of :: "db \<Rightarrow> assertion_row \<Rightarrow> fact_view list" where
  "affected_facts_of db a =
     (let sc = cl_scope (as_claim a);
          issuer_cik = (if sc_kind sc = Issuer then sc_issuer_cik sc else None);
          rows = fetch_facts_for_concept db (cl_source_concept_id (as_claim a)) issuer_cik;
          matching = filter (\<lambda>r. interval_contains (sc_from sc) (sc_to sc) (fs_report_period_end r)) rows;
          context_ids = map fs_context_id matching;
          unit_ids = List.map_filter fs_unit_id matching
      in sort_key fact_sort_key (map (\<lambda>r. view_of_fact r
           (fetch_dimensions_for_contexts db context_ids (fs_context_id r))
           (case fs_unit_id r of None \<Rightarrow> [] | Some u \<Rightarrow> fetch_measures_for_units db unit_ids u)) matching))"

definition affected_facts :: "db \<Rightarrow> int \<Rightarrow> fact_view list res" where
  "affected_facts db i = (case fetch_mapping_assertion db i of
     None \<Rightarrow> Inl (MappingDecisionError ''mapping assertion not found'')
   | Some row \<Rightarrow> Inr (affected_facts_of db row))"

text \<open>\<open>None\<close> inside the result of \<^const>\<open>fetch_chain\<close> means the loop bound was too small; the queries keep it visible.\<close>

definition mapping_history :: "db \<Rightarrow> int \<Rightarrow> assertion_view list option res" where
  "mapping_history db i = res_bind (fetch_chain db i) (\<lambda>c. case c of
     None \<Rightarrow> Inr None
   | Some chain \<Rightarrow>
       if chain = [] then Inl (MappingDecisionError ''mapping assertion not found'')
       else res_bind (views_for_rows db chain) (\<lambda>vs. Inr (Some vs)))"

definition get_mapping ::
    "(string \<Rightarrow> string) \<Rightarrow> loaded_registry res \<Rightarrow> db \<Rightarrow> int \<Rightarrow> nat option \<Rightarrow> mapping_report option res" where
  "get_mapping sha yaml db i fact_limit = (case fetch_mapping_assertion db i of
     None \<Rightarrow> Inl (MappingDecisionError ''mapping assertion not found'')
   | Some row \<Rightarrow> res_bind (fetch_chain db i) (\<lambda>c. case c of
       None \<Rightarrow> Inr None
     | Some chain \<Rightarrow> res_bind (views_for_rows db chain) (\<lambda>history.
         case find (\<lambda>v. av_id v = i) history of
           None \<Rightarrow> Inl (LookupError ''StopIteration'')
         | Some named \<Rightarrow> (case fetch_concept_by_id db (cl_source_concept_id (as_claim row)) of
             None \<Rightarrow> Inl (MappingDecisionError ''source concept not found for assertion'')
           | Some concept_row \<Rightarrow> res_bind (load_yaml yaml) (\<lambda>reg.
               case registry_get reg (cl_target_metric_key (as_claim row)) of
                 None \<Rightarrow> Inl (MappingDecisionError ''unknown canonical metric'')
               | Some metric \<Rightarrow>
                   (let mirror = fetch_canonical_metric db (cm_key metric);
                        yaml_hash = definition_hash sha metric;
                        facts = affected_facts_of db row;
                        shown = (case fact_limit of None \<Rightarrow> facts | Some n \<Rightarrow> take n facts)
                    in Inr (Some \<lparr>rp_mapping = named, rp_is_current = av_is_current named,
                         rp_current_revision_id = av_id (last history),
                         rp_source_concept = view_of_concept concept_row,
                         rp_target_metric = view_of_metric metric yaml_hash,
                         rp_yaml_definition_hash = yaml_hash,
                         rp_definition_changed = (cl_target_definition_hash (as_claim row) \<noteq> yaml_hash),
                         rp_mirror_out_of_sync = (case mirror of None \<Rightarrow> True
                           | Some m \<Rightarrow> row_mirror_payload m \<noteq> mirror_payload sha metric),
                         rp_scope = av_scope named, rp_rationale = av_rationale named,
                         rp_evidence = av_evidence named, rp_history = history,
                         rp_summary = \<lparr>sm_count = length facts, sm_shown = length shown,
                           sm_truncated = (length shown < length facts),
                           sm_accession_count = length (remdups (map fv_accession facts)),
                           sm_issuer_count = length (remdups (map fv_issuer_cik facts))\<rparr>,
                         rp_affected_facts = shown\<rparr>)))))))"

definition show_mapping ::
    "(string \<Rightarrow> string) \<Rightarrow> loaded_registry res \<Rightarrow> db \<Rightarrow> int \<Rightarrow> bool \<Rightarrow> mapping_report option res" where
  "show_mapping sha yaml db i include_facts =
     get_mapping sha yaml db i (if include_facts then None else Some DEFAULT_SHOW_FACT_LIMIT)"

definition export_mappings ::
    "(string \<Rightarrow> string) \<Rightarrow> loaded_registry res \<Rightarrow> db \<Rightarrow> bool \<Rightarrow> mapping_report option list res" where
  "export_mappings sha yaml db include_facts =
     res_bind (list_mappings db None None None None None) (\<lambda>views.
       map_res (\<lambda>v. get_mapping sha yaml db (av_id v) (if include_facts then None else Some 0)) views)"

section \<open>Properties\<close>

lemma checked_scope:
  "assertion_row_checks a \<Longrightarrow> sc_kind (cl_scope (as_claim a)) = Issuer \<longleftrightarrow> sc_issuer_cik (cl_scope (as_claim a)) \<noteq> None"
  by (auto simp: assertion_row_checks_def)

text \<open>
  The affected facts of a stored assertion are exactly the facts of its source concept
  whose report its scope covers, each once, in the order of the documented sort key.
\<close>

theorem affected_facts_exact:
  assumes "assertion_row_checks a"
  shows "sorted (map fact_sort_key (affected_facts_of db a)) \<and>
    mset (map fv_fact_id (affected_facts_of db a)) =
      mset (map fs_fact_id (filter (\<lambda>f. fs_concept_id f = cl_source_concept_id (as_claim a) \<and>
        scope_covers (cl_scope (as_claim a)) (fs_issuer_cik f) (fs_report_period_end f)) (db_facts db)))"
proof -
  let ?sc = "cl_scope (as_claim a)"
  let ?ic = "if sc_kind ?sc = Issuer then sc_issuer_cik ?sc else None"
  have m: "matches ?ic (fs_issuer_cik f) \<longleftrightarrow> (sc_kind ?sc = Issuer \<longrightarrow> sc_issuer_cik ?sc = Some (fs_issuer_cik f))" for f
    using checked_scope [OF assms] by (auto simp: matches_def split: option.splits)
  have "filter (\<lambda>r. interval_contains (sc_from ?sc) (sc_to ?sc) (fs_report_period_end r))
      (fetch_facts_for_concept db (cl_source_concept_id (as_claim a)) ?ic) =
    filter (\<lambda>f. fs_concept_id f = cl_source_concept_id (as_claim a) \<and>
      scope_covers ?sc (fs_issuer_cik f) (fs_report_period_end f)) (db_facts db)"
    unfolding fetch_facts_for_concept_def scope_covers_def filter_filter
    by (rule filter_cong [OF refl]) (simp only: m, blast)
  then show ?thesis
    by (simp add: affected_facts_of_def Let_def view_of_fact_def o_def image_mset.compositionality)
qed

definition example_fact :: "int \<Rightarrow> date option \<Rightarrow> fact_source_row" where
  "example_fact i d = \<lparr>fs_fact_id = i, fs_concept_id = ''c1'', fs_source_locator = None,
     fs_raw_lexical_value = Some ''1'', fs_resolved_value_kind = Some ''numeric'', fs_resolved_numeric = Some (Dec 1 0),
     fs_resolved_text = None, fs_is_nil = False, fs_context_id = 1, fs_unit_id = None,
     fs_accession = ''0000320193-24-000123'', fs_issuer_cik = ''0000320193'', fs_report_period_end = d,
     fs_source_document = None, fs_period_kind = ''instant'', fs_instant_lexical = None,
     fs_start_lexical = None, fs_end_lexical = None\<rparr>"

theorem affected_facts_exact_witness:
  "map fv_fact_id (affected_facts_of (example_db3\<lparr>db_facts := [example_fact 9 (Some (Date 2024 9 28)),
       example_fact 8 (Some (Date 2019 9 28)), example_fact 7 None]\<rparr>) example_accepted) = [9]"
proof -
  let ?db = "example_db3\<lparr>db_facts := [example_fact 9 (Some (Date 2024 9 28)),
       example_fact 8 (Some (Date 2019 9 28)), example_fact 7 None]\<rparr>"
  have "assertion_row_checks example_accepted" by code_simp
  from affected_facts_exact [OF this, of ?db]
  have "mset (map fv_fact_id (affected_facts_of ?db example_accepted)) = {#9#}"
    by (simp add: example_fact_def example_accepted_def example_candidate_def example_scope_def scope_covers_def
        interval_contains_def less_date_def)
  then show ?thesis by (metis mset_single_iff mset_map)
qed

lemma view_of_assertion_fields:
  "view_of_assertion r c b = Inr v \<Longrightarrow> av_id v = as_id r \<and> av_is_current v = b \<and> av_scope v = cl_scope (as_claim r)"
  by (auto simp: view_of_assertion_def result_simps)

lemma views_for_rows_Inr:
  assumes "views_for_rows db rows = Inr vs"
  shows "list_all2 (\<lambda>r v. av_id v = as_id r \<and> av_scope v = cl_scope (as_claim r) \<and>
    av_is_current v = (as_id r \<in> as_id ` set (fetch_current_assertions db))) rows vs"
  using assms unfolding views_for_rows_def Let_def map_res_Inr_iff
  by (rule list_all2_mono) (auto dest: view_of_assertion_fields split: option.splits)

lemma current_id_iff:
  assumes "chains_inv db" and "r \<in> set (db_assertions db)"
  shows "as_id r \<in> as_id ` set (fetch_current_assertions db) \<longleftrightarrow> is_current db r"
proof -
  have uniq: "x = r" if "x \<in> set (db_assertions db)" "as_id x = as_id r" for x
    using assms(1) that(1) assms(2) that(2) by (rule chains_id_unique)
  show ?thesis
  proof
    assume "as_id r \<in> as_id ` set (fetch_current_assertions db)"
    then obtain x where x: "x \<in> set (db_assertions db)" "is_current db x" "as_id x = as_id r"
      by (auto simp: fetch_current_assertions_iff)
    then show "is_current db r" using uniq [OF x(1,3)] by simp
  next
    assume "is_current db r"
    then show "as_id r \<in> as_id ` set (fetch_current_assertions db)"
      using assms(2) by (simp add: fetch_current_assertions_iff)
  qed
qed

lemma chain_same_claim: "successively revision_of xs \<Longrightarrow> x \<in> set xs \<Longrightarrow> y \<in> set xs \<Longrightarrow> as_claim x = as_claim y"
proof (induction xs arbitrary: x y)
  case (Cons a xs)
  have "as_claim z = as_claim a" if "z \<in> set (a # xs)" for z
    using that Cons.prems(1) Cons.IH [of z "hd xs"] by (cases xs) (auto simp: revision_of_def)
  then show ?case using Cons.prems by metis
qed simp

text \<open>
  A mapping report shows the revision that was asked for, never another one: it says
  whether that revision is current and which revision of the same claim is, it flags exactly a
  changed metric definition, and it shows at most the requested number of affected facts, flagging
  exactly a truncation.
\<close>

theorem mapping_report_faithful:
  assumes "ledger_inv db" and "get_mapping sha yaml db i limit = Inr r"
  shows "\<exists>report row metric. r = Some report \<and> fetch_mapping_assertion db i = Some row \<and>
    av_id (rp_mapping report) = i \<and> rp_scope report = cl_scope (as_claim row) \<and>
    (rp_is_current report \<longleftrightarrow> is_current db row) \<and>
    (\<exists>cur\<in>set (fetch_current_assertions db). as_id cur = rp_current_revision_id report \<and> as_claim cur = as_claim row) \<and>
    cm_key metric = cl_target_metric_key (as_claim row) \<and>
    (rp_definition_changed report \<longleftrightarrow> cl_target_definition_hash (as_claim row) \<noteq> definition_hash sha metric) \<and>
    rp_affected_facts report = (case limit of None \<Rightarrow> affected_facts_of db row | Some n \<Rightarrow> take n (affected_facts_of db row)) \<and>
    (sm_truncated (rp_summary report) \<longleftrightarrow> rp_affected_facts report \<noteq> affected_facts_of db row)"
proof -
  note ci = ledger_invD(1) [OF assms(1)]
  obtain row where row: "fetch_mapping_assertion db i = Some row"
    using assms(2) by (cases "fetch_mapping_assertion db i") (auto simp: get_mapping_def)
  then have r: "row \<in> set (db_assertions db)" "as_id row = i" by (auto dest: fetch_mapping_assertion_Some)
  obtain chain where chain: "fetch_chain db i = Inr (Some chain)" "row \<in> set chain" "successively revision_of chain"
    "is_current db (last chain)" "set chain \<subseteq> set (db_assertions db)"
    using fetch_chain_total [OF assms(1) row] by blast
  obtain history where hist: "views_for_rows db chain = Inr history"
    using assms(2) by (auto simp: get_mapping_def row chain(1) result_simps)
  note la = views_for_rows_Inr [OF hist]
  have len: "length history = length chain" using la by (simp add: list_all2_lengthD)
  have ne: "chain \<noteq> []" "history \<noteq> []" using chain(2) len by auto
  obtain named metric where rep: "find (\<lambda>v. av_id v = i) history = Some named"
    "cm_key metric = cl_target_metric_key (as_claim row)"
    and report: "\<exists>report. r = Some report \<and> rp_mapping report = named \<and> rp_is_current report = av_is_current named \<and>
      rp_current_revision_id report = av_id (last history) \<and> rp_scope report = av_scope named \<and>
      rp_definition_changed report = (cl_target_definition_hash (as_claim row) \<noteq> definition_hash sha metric) \<and>
      rp_affected_facts report = (case limit of None \<Rightarrow> affected_facts_of db row | Some n \<Rightarrow> take n (affected_facts_of db row)) \<and>
      sm_truncated (rp_summary report) = (length (rp_affected_facts report) < length (affected_facts_of db row))"
  proof -
    from assms(2) obtain named concept reg metric where g: "find (\<lambda>v. av_id v = i) history = Some named"
      "fetch_concept_by_id db (cl_source_concept_id (as_claim row)) = Some concept" "load_yaml yaml = Inr reg"
      "registry_get reg (cl_target_metric_key (as_claim row)) = Some metric"
      by (auto simp: get_mapping_def row chain(1) hist result_simps split: option.splits)
    have "cm_key metric = cl_target_metric_key (as_claim row)"
      using g(4) by (auto simp: registry_get_def by_key_def dest!: map_of_SomeD)
    moreover have "\<exists>report. r = Some report \<and> rp_mapping report = named \<and> rp_is_current report = av_is_current named \<and>
      rp_current_revision_id report = av_id (last history) \<and> rp_scope report = av_scope named \<and>
      rp_definition_changed report = (cl_target_definition_hash (as_claim row) \<noteq> definition_hash sha metric) \<and>
      rp_affected_facts report = (case limit of None \<Rightarrow> affected_facts_of db row | Some n \<Rightarrow> take n (affected_facts_of db row)) \<and>
      sm_truncated (rp_summary report) = (length (rp_affected_facts report) < length (affected_facts_of db row))"
      using assms(2) by (clarsimp simp: get_mapping_def row chain(1) hist g Let_def)
    ultimately show ?thesis using that g(1) by blast
  qed
  obtain k where k: "k < length history" "history ! k = named" "av_id named = i"
    using rep(1) unfolding find_Some_iff by blast
  have at: "av_id (history ! m) = as_id (chain ! m) \<and> av_scope (history ! m) = cl_scope (as_claim (chain ! m)) \<and>
      av_is_current (history ! m) = (as_id (chain ! m) \<in> as_id ` set (fetch_current_assertions db))"
    if "m < length history" for m using la that len by (simp add: list_all2_conv_all_nth)
  have "chain ! k \<in> set (db_assertions db)" using k(1) len chain(5) by auto
  then have ck: "chain ! k = row" using chains_id_unique [OF ci _ r(1)] at [OF k(1)] k r(2) by simp
  have last: "av_id (last history) = as_id (last chain)"
    using at [of "length history - 1"] ne len by (simp add: last_conv_nth)
  have lc: "last chain \<in> set (fetch_current_assertions db)" "as_claim (last chain) = as_claim row"
    using chain ne chain_same_claim [OF chain(3), of "last chain" row]
    by (auto simp: fetch_current_assertions_iff)
  have "(case limit of None \<Rightarrow> facts | Some n \<Rightarrow> take n facts) \<noteq> facts \<longleftrightarrow>
      length (case limit of None \<Rightarrow> facts | Some n \<Rightarrow> take n facts) < length facts" for facts :: "fact_view list"
    by (auto split: option.splits)
  then show ?thesis
    using report rep(2) row k at [OF k(1)] ck current_id_iff [OF ci r(1)] last lc by auto
qed

theorem mapping_report_faithful_witness:
  "\<exists>report. get_mapping zero_sha (Inr example_registry) example_db3 1 (Some 25) = Inr (Some report) \<and>
     \<not> rp_is_current report \<and> rp_current_revision_id report = 2"
proof -
  have ok: "is_ok (get_mapping zero_sha (Inr example_registry) example_db3 1 (Some 25))" by code_simp
  then obtain r where r: "get_mapping zero_sha (Inr example_registry) example_db3 1 (Some 25) = Inr r"
    by (auto simp: is_ok_iff)
  have row: "fetch_mapping_assertion example_db3 1 = Some example_candidate" by code_simp
  have "\<not> is_current example_db3 example_candidate" "as_id example_accepted = 2" by code_simp+
  then show ?thesis
    using mapping_report_faithful [OF ledger_reachable_inv [OF example_reachable(3)] r] r row example_current by auto
qed

end
