(* ===== verification/Urlsplit.thy ===== *)
theory Urlsplit
  imports Digits
begin

text \<open>
  The part of Python's \<^verbatim>\<open>urllib.parse\<close> the program uses: \<^verbatim>\<open>urlsplit\<close>, \<^verbatim>\<open>urlparse\<close>, the \<^verbatim>\<open>hostname\<close>,
  \<^verbatim>\<open>port\<close> and credentials of the result, and \<^verbatim>\<open>urlunsplit\<close>, on ASCII text.  Bracketed hosts are
  checked as Python 3.12 does (an IPv6 address or an IPvFuture literal).
\<close>

section \<open>Character classes and partitions\<close>

definition is_alpha :: "char \<Rightarrow> bool" where
  "is_alpha c = (is_lower_ascii c \<or> is_upper_ascii c)"

definition scheme_char :: "char \<Rightarrow> bool" where
  "scheme_char c = (is_alpha c \<or> is_digit c \<or> c \<in> set ''+-.'')"

definition is_hex_digit :: "char \<Rightarrow> bool" where
  "is_hex_digit c = (is_digit c \<or> c \<in> set ''abcdefABCDEF'')"

text \<open>\<^verbatim>\<open>s.rpartition(c)[2]\<close>: what follows the last separator, the whole string when there is none.\<close>

definition after_last :: "char \<Rightarrow> string \<Rightarrow> string" where
  "after_last c s = rev (takeWhile (\<lambda>x. x \<noteq> c) (rev s))"

section \<open>Bracketed hosts\<close>

definition octet_ok :: "string \<Rightarrow> bool" where
  "octet_ok s = (s \<noteq> [] \<and> list_all is_digit s \<and> length s \<le> 3 \<and> \<not> (s \<noteq> ''0'' \<and> hd s = CHR ''0'') \<and>
     read_digits s \<le> 255)"

definition ipv4_ok :: "string \<Rightarrow> bool" where
  "ipv4_ok s = (length (split_on CHR ''.'' s) = 4 \<and> list_all octet_ok (split_on CHR ''.'' s))"

definition hextet_ok :: "string \<Rightarrow> bool" where
  "hextet_ok s = (s \<noteq> [] \<and> list_all is_hex_digit s \<and> length s \<le> 4)"

definition ipv6_parts_ok :: "string list \<Rightarrow> bool" where
  "ipv6_parts_ok parts =
     (let n = length parts; empties = filter (\<lambda>i. parts ! i = []) [1..<n - 1]
      in n \<le> 9 \<and> length empties \<le> 1 \<and>
         (case empties of
            [] \<Rightarrow> n = 8 \<and> list_all hextet_ok parts
          | skip # _ \<Rightarrow>
              (let hi = take skip parts; lo = drop (Suc skip) parts;
                   hi' = (if hd hi = [] then tl hi else hi); lo' = (if last lo = [] then butlast lo else lo)
               in (hd hi = [] \<longrightarrow> hi' = []) \<and> (last lo = [] \<longrightarrow> lo' = []) \<and>
                  length hi' + length lo' \<le> 7 \<and> list_all hextet_ok hi' \<and> list_all hextet_ok lo')))"

definition ipv6_ok :: "string \<Rightarrow> bool" where
  "ipv6_ok s =
     (let addr = before_first CHR ''%'' s; zone = after_first CHR ''%'' s; parts = split_on CHR '':'' addr
      in (CHR ''%'' \<in> set s \<longrightarrow> zone \<noteq> [] \<and> CHR ''%'' \<notin> set zone) \<and> CHR ''/'' \<notin> set addr \<and> 3 \<le> length parts \<and>
         (if CHR ''.'' \<in> set (last parts)
          then ipv4_ok (last parts) \<and> ipv6_parts_ok (butlast parts @ [''0'', ''0''])
          else ipv6_parts_ok parts))"

definition ipvfuture_ok :: "string \<Rightarrow> bool" where
  "ipvfuture_ok s = (let digits = takeWhile is_hex_digit (tl s); rest = dropWhile is_hex_digit (tl s)
     in digits \<noteq> [] \<and> rest \<noteq> [] \<and> hd rest = CHR ''.'' \<and> tl rest \<noteq> [])"

definition bracketed_host_ok :: "string \<Rightarrow> bool" where
  "bracketed_host_ok h = (if startswith h ''v'' then ipvfuture_ok h else ipv6_ok h)"

definition bracketed_netloc_ok :: "string \<Rightarrow> bool" where
  "bracketed_netloc_ok netloc =
     (let hp = after_last CHR ''@'' netloc
      in if CHR ''['' \<in> set hp
         then (let bracketed = after_first CHR ''['' hp; port = after_first CHR '']'' bracketed
               in before_first CHR ''['' hp = [] \<and> (port = [] \<or> hd port = CHR '':'') \<and>
                  bracketed_host_ok (before_first CHR '']'' bracketed))
         else bracketed_host_ok (before_first CHR '':'' hp))"

section \<open>Splitting and joining\<close>

record url_parts =
  u_scheme :: string
  u_netloc :: string
  u_path :: string
  u_query :: string
  u_fragment :: string

definition url_clean :: "string \<Rightarrow> string" where
  "url_clean url = filter (\<lambda>c. c \<notin> {CHR 0x09, CHR 0x0D, CHR 0x0A})
     (dropWhile (\<lambda>c. (of_char c :: nat) \<le> 32) url)"

definition split_scheme :: "string \<Rightarrow> string \<times> string" where
  "split_scheme url =
     (let s = before_first CHR '':'' url
      in if CHR '':'' \<in> set url \<and> s \<noteq> [] \<and> is_alpha (hd s) \<and> list_all scheme_char s
         then (py_lower s, after_first CHR '':'' url) else ([], url))"

definition is_netloc_char :: "char \<Rightarrow> bool" where
  "is_netloc_char c = (c \<noteq> CHR ''/'' \<and> c \<noteq> CHR ''?'' \<and> c \<noteq> CHR ''#'')"

definition split_netloc :: "string \<Rightarrow> string \<times> string" where
  "split_netloc url =
     (if startswith url ''//''
      then (takeWhile is_netloc_char (drop 2 url), dropWhile is_netloc_char (drop 2 url)) else ([], url))"

definition urlsplit :: "string \<Rightarrow> url_parts res" where
  "urlsplit raw =
     (let (scheme, rest1) = split_scheme (url_clean raw);
          (netloc, rest2) = split_netloc rest1
      in if (CHR ''['' \<in> set netloc) \<noteq> (CHR '']'' \<in> set netloc) then Inl (ValueError ''Invalid IPv6 URL'')
         else if CHR ''['' \<in> set netloc \<and> \<not> bracketed_netloc_ok netloc then Inl (ValueError ''Invalid IPv6 URL'')
         else let body = before_first CHR ''#'' rest2
              in Inr \<lparr>u_scheme = scheme, u_netloc = netloc, u_path = before_first CHR ''?'' body,
                      u_query = after_first CHR ''?'' body, u_fragment = after_first CHR ''#'' rest2\<rparr>)"

definition host_port :: "string \<Rightarrow> string \<times> string" where
  "host_port netloc =
     (let hp = after_last CHR ''@'' netloc
      in if CHR ''['' \<in> set hp
         then (let bracketed = after_first CHR ''['' hp
               in (before_first CHR '']'' bracketed, after_first CHR '':'' (after_first CHR '']'' bracketed)))
         else (before_first CHR '':'' hp, after_first CHR '':'' hp))"

definition url_hostname :: "string \<Rightarrow> string option" where
  "url_hostname netloc =
     (let h = fst (host_port netloc)
      in if h = [] then None
         else Some (py_lower (before_first CHR ''%'' h) @ dropWhile (\<lambda>c. c \<noteq> CHR ''%'') h))"

definition url_port :: "string \<Rightarrow> nat option res" where
  "url_port netloc =
     (let p = snd (host_port netloc)
      in if p = [] then Inr None
         else if \<not> list_all is_digit p then Inl (ValueError ''Port could not be cast to integer value'')
         else if read_digits p > 65535 then Inl (ValueError ''Port out of range 0-65535'')
         else Inr (Some (read_digits p)))"

definition has_credentials :: "string \<Rightarrow> bool" where
  "has_credentials netloc = (CHR ''@'' \<in> set netloc)"

text \<open>\<^verbatim>\<open>urlunsplit\<close> for a non-empty authority.\<close>

definition urlunsplit :: "string \<Rightarrow> string \<Rightarrow> string \<Rightarrow> string \<Rightarrow> string" where
  "urlunsplit scheme netloc path query =
     (let p = (if path \<noteq> [] \<and> hd path \<noteq> CHR ''/'' then CHR ''/'' # path else path)
      in (if scheme = [] then [] else scheme @ '':'') @ ''//'' @ netloc @ p @
         (if query = [] then [] else CHR ''?'' # query))"

text \<open>\<^verbatim>\<open>urlparse\<close> also cuts the parameters of the last path segment.\<close>

definition uses_params :: "string list" where
  "uses_params = ['''', ''ftp'', ''hdl'', ''prospero'', ''http'', ''imap'', ''https'', ''shttp'', ''rtsp'',
     ''rtsps'', ''rtspu'', ''sip'', ''sips'', ''mms'', ''sftp'', ''tel'']"

definition split_params_path :: "string \<Rightarrow> string" where
  "split_params_path p =
     (let tail = after_last CHR ''/'' p
      in take (length p - length tail) p @ before_first CHR '';'' tail)"

definition urlparse :: "string \<Rightarrow> url_parts res" where
  "urlparse raw = res_bind (urlsplit raw) (\<lambda>u.
     Inr (if u_scheme u \<in> set uses_params then u\<lparr>u_path := split_params_path (u_path u)\<rparr> else u))"

end
