(* ===== verification/Taxonomy.thy ===== *)
theory Taxonomy
  imports Urlsplit Identifiers
begin

text \<open>
  \<^verbatim>\<open>src/edgar/xbrl/taxonomy_family.py\<close> and \<^verbatim>\<open>financials/taxonomy_release.py\<close>: the family and origin of a
  concept's namespace, and the US-GAAP release of a filing.  \<^verbatim>\<open>urlparse\<close> raises on a malformed
  bracketed host, so classification can fail.
\<close>

datatype semantic_family = US_GAAP | DEI | SRT | Other_Family

datatype taxonomy_origin = Standard | Issuer_Origin

record taxonomy_classification =
  tc_semantic_family :: semantic_family
  tc_origin :: taxonomy_origin

definition US_GAAP_PREFIXES :: "string list" where
  "US_GAAP_PREFIXES = [''http://xbrl.us/us-gaap/'', ''http://fasb.org/us-gaap/'',
     ''https://xbrl.us/us-gaap/'', ''https://fasb.org/us-gaap/'']"

definition DEI_PREFIXES :: "string list" where
  "DEI_PREFIXES = [''http://xbrl.us/dei/'', ''http://xbrl.sec.gov/dei/'',
     ''https://xbrl.us/dei/'', ''https://xbrl.sec.gov/dei/'']"

definition SRT_PREFIXES :: "string list" where
  "SRT_PREFIXES = [''http://fasb.org/srt/'', ''https://fasb.org/srt/'']"

definition STANDARD_HOSTS :: "string list" where
  "STANDARD_HOSTS = [''xbrl.sec.gov'', ''fasb.org'', ''xbrl.us'']"

definition namespace_family :: "string \<Rightarrow> semantic_family" where
  "namespace_family ns =
     (if list_ex (startswith ns) US_GAAP_PREFIXES then US_GAAP
      else if list_ex (startswith ns) DEI_PREFIXES then DEI
      else if list_ex (startswith ns) SRT_PREFIXES then SRT else Other_Family)"

definition standard_host :: "string \<Rightarrow> bool res" where
  "standard_host ns = res_bind (urlparse ns) (\<lambda>u.
     if u_scheme u \<noteq> ''http'' \<and> u_scheme u \<noteq> ''https'' then Inr False
     else Inr (case url_hostname (u_netloc u) of None \<Rightarrow> False | Some h \<Rightarrow> h \<in> set STANDARD_HOSTS))"

definition classify :: "string \<Rightarrow> taxonomy_classification res" where
  "classify ns =
     (if ns = [] then Inr \<lparr>tc_semantic_family = Other_Family, tc_origin = Issuer_Origin\<rparr>
      else if namespace_family ns \<noteq> Other_Family
      then Inr \<lparr>tc_semantic_family = namespace_family ns, tc_origin = Standard\<rparr>
      else res_bind (standard_host ns) (\<lambda>std.
        Inr \<lparr>tc_semantic_family = Other_Family, tc_origin = (if std then Standard else Issuer_Origin)\<rparr>))"

definition namespace_release_token :: "string \<Rightarrow> string option res" where
  "namespace_release_token ns = res_bind (urlparse ns) (\<lambda>u.
     let path = strip_by (\<lambda>c. c = CHR ''/'') (u_path u)
     in if path = [] then Inr None
        else let token = last (split_on CHR ''/'' path) in Inr (if token = [] then None else Some token))"

definition us_gaap_release_token :: "string \<Rightarrow> string option res" where
  "us_gaap_release_token ns = res_bind (classify ns) (\<lambda>c.
     if tc_semantic_family c \<noteq> US_GAAP then Inr None else namespace_release_token ns)"

definition filing_taxonomy_release :: "string list \<Rightarrow> string res" where
  "filing_taxonomy_release nss = res_bind (map_res us_gaap_release_token nss) (\<lambda>toks.
     let tokens = remdups (somes toks)
     in Inr (if tokens = [] then ''unknown'' else if length tokens > 1 then ''mixed'' else hd tokens))"

lemma classify_family: "classify ns = Inr c \<Longrightarrow> tc_semantic_family c = namespace_family ns"
proof (cases "ns = []")
  case True
  then show "classify ns = Inr c \<Longrightarrow> ?thesis"
    by (auto simp: classify_def namespace_family_def US_GAAP_PREFIXES_def DEI_PREFIXES_def SRT_PREFIXES_def
        startswith_def)
qed (auto simp: classify_def result_simps split: if_splits)

lemma classify_issuer: "classify ns = Inr c \<Longrightarrow> tc_origin c = Issuer_Origin \<Longrightarrow> tc_semantic_family c = Other_Family"
  by (auto simp: classify_def result_simps split: if_splits)

end
