(* ===== verification/Decisions.thy ===== *)
theory Decisions
  imports Metric_Registry Interval Taxonomy
begin

text \<open>
  \<^verbatim>\<open>src/edgar/financials/decisions.py\<close>: the reviewed mapping decisions kept in Git, their validators,
  the loading of the decision files, and the tests that say which concepts and filings a decision
  speaks about.

  YAML reading and the coercion of its values to the declared field types are outside: a file is
  its path (the components after \<^verbatim>\<open>decisions/\<close>) and a record of raw field values.  SHA-256 is the
  argument \<open>sha\<close>.
\<close>

section \<open>Records\<close>

datatype decision_family = Fam_us_gaap | Fam_dei | Fam_srt | Fam_issuer

datatype decision_relation = Rel_exact | Rel_narrower | Rel_broader | Rel_related

datatype decision_status = Dec_accepted | Dec_rejected

datatype decision_method = Curated_method | Reviewed_method

record decision_evidence =
  de_kind :: string
  de_source :: "string option"
  de_artifact_sha256 :: "string option"
  de_concept :: "string option"
  de_accession :: "string option"
  de_locator :: "string option"
  de_quote :: "string option"

record decision_reviewed =
  rv_by :: string
  rv_on :: date

record decision_source =
  ds_family :: decision_family
  ds_local_name :: string
  ds_issuer_cik :: "string option"
  ds_exclude_qnames :: "string list"

record decision_scope =
  sc_exclude_ciks :: "string list"
  sc_exclude_sic_divisions :: "string list"

record decision_record =
  dr_id :: string
  dr_metric :: string
  dr_source :: decision_source
  dr_relation :: decision_relation
  dr_scope :: decision_scope
  dr_status :: decision_status
  dr_method :: decision_method
  dr_rationale :: string
  dr_evidence :: "decision_evidence list"
  dr_reviewed :: decision_reviewed
  dr_contract_hash :: string

type_synonym path = "string list"

record loaded_decision =
  ld_record :: decision_record
  ld_path :: path
  ld_stale_inactive :: bool

record decision_registry =
  rg_decisions :: "loaded_decision list"
  rg_metrics_by_key :: "string \<rightharpoonup> canonical_metric"

definition by_id :: "decision_registry \<Rightarrow> (string \<rightharpoonup> loaded_decision)" where
  "by_id r = map_of (rev (map (\<lambda>d. (dr_id (ld_record d), d)) (rg_decisions r)))"

section \<open>Validators\<close>

text \<open>Python's truth value of an optional string.\<close>

definition truthy :: "string option \<Rightarrow> bool" where
  "truthy s = (case s of None \<Rightarrow> False | Some t \<Rightarrow> t \<noteq> [])"

definition normalize_issuer_cik :: "string option \<Rightarrow> string option res" where
  "normalize_issuer_cik v = (case v of
     None \<Rightarrow> Inr None
   | Some c \<Rightarrow> res_bind (validate_cik c) (\<lambda>n. Inr (Some n)))"

definition issuer_cik_family_rules :: "decision_source \<Rightarrow> decision_source res" where
  "issuer_cik_family_rules s =
     (if ds_family s = Fam_issuer
      then (if \<not> truthy (ds_issuer_cik s)
            then Inl (ValueError ''issuer family decisions require source.issuer_cik'') else Inr s)
      else (if ds_issuer_cik s \<noteq> None
            then Inl (ValueError ''issuer_cik is only allowed when source.family is issuer'') else Inr s))"

definition validate_source :: "decision_source \<Rightarrow> decision_source res" where
  "validate_source s = res_bind (normalize_issuer_cik (ds_issuer_cik s)) (\<lambda>c.
     issuer_cik_family_rules (s\<lparr>ds_issuer_cik := c\<rparr>))"

definition rationale_non_empty :: "string \<Rightarrow> string res" where
  "rationale_non_empty v = (if py_strip v = [] then Inl (ValueError ''rationale must be non-empty'') else Inr v)"

definition substantive_evidence :: "decision_evidence \<Rightarrow> bool" where
  "substantive_evidence ev =
     ((truthy (de_accession ev) \<and> truthy (de_locator ev)) \<or>
      (truthy (de_concept ev) \<and> (truthy (de_quote ev) \<or> truthy (de_artifact_sha256 ev))) \<or>
      de_kind ev \<in> {''filing_fact'', ''taxonomy'', ''metalinks''})"

definition evidence_when_operational :: "decision_record \<Rightarrow> decision_record res" where
  "evidence_when_operational r =
     (if dr_status r \<in> {Dec_accepted, Dec_rejected} \<and> dr_evidence r = []
      then Inl (ValueError ''operational decisions require evidence'')
      else if dr_status r \<in> {Dec_accepted, Dec_rejected} \<and> \<not> list_ex substantive_evidence (dr_evidence r)
      then Inl (ValueError ''evidence must point at filing or taxonomy facts, not metric defs alone'')
      else Inr r)"

definition validate_record :: "decision_record \<Rightarrow> decision_record res" where
  "validate_record raw =
     res_bind (validate_source (dr_source raw)) (\<lambda>src.
     res_bind (rationale_non_empty (dr_rationale raw)) (\<lambda>rat.
       evidence_when_operational (raw\<lparr>dr_source := src, dr_rationale := rat\<rparr>)))"

section \<open>Applicability\<close>

definition decision_key :: "decision_record \<Rightarrow> string \<times> decision_family \<times> string \<times> string" where
  "decision_key r = (dr_metric r, ds_family (dr_source r),
     (case ds_issuer_cik (dr_source r) of None \<Rightarrow> [] | Some c \<Rightarrow> c), ds_local_name (dr_source r))"

fun family_matches :: "decision_family \<Rightarrow> semantic_family \<Rightarrow> bool" where
  "family_matches Fam_us_gaap f = (f = US_GAAP)"
| "family_matches Fam_dei f = (f = DEI)"
| "family_matches Fam_srt f = (f = SRT)"
| "family_matches Fam_issuer f = False"

definition concept_matches_decision :: "decision_record \<Rightarrow> string \<Rightarrow> string \<Rightarrow> string \<Rightarrow> bool res" where
  "concept_matches_decision r filing_cik namespace_uri local_name =
     (if ds_local_name (dr_source r) \<noteq> local_name then Inr False
      else res_bind (clark_qname namespace_uri local_name) (\<lambda>qname.
        if qname \<in> set (ds_exclude_qnames (dr_source r)) then Inr False
        else res_bind (classify namespace_uri) (\<lambda>clf.
          if ds_family (dr_source r) \<noteq> Fam_issuer
          then Inr (family_matches (ds_family (dr_source r)) (tc_semantic_family clf))
          else (case ds_issuer_cik (dr_source r) of
                  None \<Rightarrow> Inr False
                | Some c \<Rightarrow>
                    if tc_origin clf \<noteq> Issuer_Origin then Inr False
                    else res_bind (validate_cik c) (\<lambda>a.
                         res_bind (validate_cik filing_cik) (\<lambda>b. Inr (a = b)))))))"

definition issuer_excluded :: "decision_record \<Rightarrow> string \<Rightarrow> bool res" where
  "issuer_excluded r filing_cik = res_bind (validate_cik filing_cik) (\<lambda>normalized.
     any_res (\<lambda>c. res_bind (validate_cik c) (\<lambda>n. Inr (n = normalized))) (sc_exclude_ciks (dr_scope r)))"

definition decision_applies_to_filing :: "decision_record \<Rightarrow> string \<Rightarrow> bool res" where
  "decision_applies_to_filing r filing_cik = res_bind (issuer_excluded r filing_cik) (\<lambda>ex.
     if ex then Inr False
     else if ds_family (dr_source r) = Fam_issuer
     then (case ds_issuer_cik (dr_source r) of
             None \<Rightarrow> Inl AssertionError
           | Some c \<Rightarrow> res_bind (validate_cik c) (\<lambda>a.
               res_bind (validate_cik filing_cik) (\<lambda>b. Inr (a = b))))
     else Inr True)"

definition expand_clark_qnames_for_decision :: "decision_record \<Rightarrow> string \<Rightarrow> string list \<Rightarrow> string set res" where
  "expand_clark_qnames_for_decision r filing_cik namespace_uris =
     fold_res (\<lambda>ns result.
       res_bind (concept_matches_decision r filing_cik ns (ds_local_name (dr_source r))) (\<lambda>m.
         if m
         then res_bind (clark_qname ns (ds_local_name (dr_source r))) (\<lambda>q.
           Inr (if q \<notin> set (ds_exclude_qnames (dr_source r)) then insert q result else result))
         else Inr result)) namespace_uris {}"

section \<open>Loading the decision files\<close>

definition load_decision ::
  "(string \<Rightarrow> string) \<Rightarrow> (string \<rightharpoonup> canonical_metric) \<Rightarrow> bool \<Rightarrow> path \<times> decision_record \<Rightarrow> loaded_decision res" where
  "load_decision sha metrics fatal_stale_accepted file =
     res_bind (validate_record (snd file)) (\<lambda>r.
       case metrics (dr_metric r) of
         None \<Rightarrow> Inl (ValueError ''unknown metric'')
       | Some m \<Rightarrow>
           let stale = dr_contract_hash r \<noteq> definition_hash sha m
           in if stale \<and> dr_status r = Dec_accepted \<and> fatal_stale_accepted
              then Inl StaleAcceptedDecisionError
              else Inr \<lparr>ld_record = r, ld_path = fst file, ld_stale_inactive = stale\<rparr>)"

fun check_decision_keys ::
  "loaded_decision list \<Rightarrow> (string \<times> decision_family \<times> string \<times> string) list \<Rightarrow> unit res" where
  "check_decision_keys [] keys_seen = Inr ()"
| "check_decision_keys (ld # lds) keys_seen =
     (if ld_stale_inactive ld then check_decision_keys lds keys_seen
      else if decision_key (ld_record ld) \<in> set keys_seen then Inl (ValueError ''duplicate decision key'')
      else check_decision_keys lds (decision_key (ld_record ld) # keys_seen))"

text \<open>
  \<open>metrics_yml\<close> is the parsed \<^verbatim>\<open>metrics.yml\<close> the loader falls back to when the caller gives no
  metrics; \<open>files\<close> are the \<^verbatim>\<open>*.yml\<close> files below \<^verbatim>\<open>decisions/\<close> (none when it is not a directory).
\<close>

definition load_decisions ::
  "(string \<Rightarrow> string) \<Rightarrow> json \<Rightarrow> (path \<times> decision_record) list \<Rightarrow> (string \<rightharpoonup> canonical_metric) option \<Rightarrow>
     bool \<Rightarrow> decision_registry res" where
  "load_decisions sha metrics_yml files metrics fatal_stale_accepted =
     res_bind (case metrics of
         Some ms \<Rightarrow> Inr ms
       | None \<Rightarrow> res_bind (load_metrics sha metrics_yml)
           (\<lambda>l. Inr (map_of (rev (map (\<lambda>m. (cm_key m, m)) (lr_metrics l)))))) (\<lambda>ms.
     res_bind (map_res (load_decision sha ms fatal_stale_accepted) (sort_key fst files)) (\<lambda>lds.
     res_bind (check_decision_keys lds []) (\<lambda>_.
       Inr \<lparr>rg_decisions = lds, rg_metrics_by_key = ms\<rparr>)))"

section \<open>Validated records\<close>

definition source_ok :: "decision_source \<Rightarrow> bool" where
  "source_ok s = ((ds_family s = Fam_issuer \<longleftrightarrow> ds_issuer_cik s \<noteq> None) \<and>
     (case ds_issuer_cik s of None \<Rightarrow> True | Some c \<Rightarrow> validate_cik c = Inr c))"

definition record_ok :: "decision_record \<Rightarrow> bool" where
  "record_ok r = (source_ok (dr_source r) \<and> py_strip (dr_rationale r) \<noteq> [] \<and>
     list_ex substantive_evidence (dr_evidence r))"

lemma validate_source_ok: "validate_source s = Inr t \<Longrightarrow> source_ok t"
  by (auto simp: validate_source_def normalize_issuer_cik_def issuer_cik_family_rules_def source_ok_def
      result_simps truthy_def cik.norm_idem split: option.splits if_splits)

lemma validate_source_fixed: "source_ok s \<Longrightarrow> validate_source s = Inr s"
  using validate_cik_shape
  by (fastforce simp: source_ok_def validate_source_def normalize_issuer_cik_def issuer_cik_family_rules_def
      truthy_def split: option.splits)

lemma evidence_when_operational_Inr:
  "evidence_when_operational r = Inr r' \<longleftrightarrow> r' = r \<and> list_ex substantive_evidence (dr_evidence r)"
  by (cases "dr_status r") (auto simp: evidence_when_operational_def)

lemma validate_record_ok: "validate_record raw = Inr r \<Longrightarrow> record_ok r"
  by (auto simp: validate_record_def record_ok_def result_simps rationale_non_empty_def
      evidence_when_operational_Inr dest: validate_source_ok split: if_splits)

lemma validate_record_fixed: "record_ok r \<Longrightarrow> validate_record r = Inr r"
  by (simp add: record_ok_def validate_record_def validate_source_fixed rationale_non_empty_def
      evidence_when_operational_Inr)

section \<open>Active decisions\<close>

definition active :: "decision_registry \<Rightarrow> decision_record list" where
  "active reg = map ld_record (filter (\<lambda>ld. \<not> ld_stale_inactive ld) (rg_decisions reg))"

text \<open>What loading guarantees of a registry, whatever the files were.\<close>

definition registry_ok :: "decision_registry \<Rightarrow> bool" where
  "registry_ok reg = (list_all (\<lambda>ld. record_ok (ld_record ld)) (rg_decisions reg) \<and>
     distinct (map decision_key (active reg)))"

abbreviation active_keys :: "loaded_decision list \<Rightarrow> (string \<times> decision_family \<times> string \<times> string) list" where
  "active_keys lds \<equiv> map (\<lambda>ld. decision_key (ld_record ld)) (filter (\<lambda>ld. \<not> ld_stale_inactive ld) lds)"

lemma check_decision_keys_fresh:
  "check_decision_keys lds seen = Inr u \<longleftrightarrow> distinct (active_keys lds) \<and> set (active_keys lds) \<inter> set seen = {}"
proof (induction lds arbitrary: seen)
  case (Cons ld lds)
  show ?case
  proof (cases "ld_stale_inactive ld")
    case False
    then show ?thesis using Cons.IH [of "decision_key (ld_record ld) # seen"]
      by (cases "decision_key (ld_record ld) \<in> set seen") (auto simp del: set_map)
  qed (use Cons.IH [of seen] in simp)
qed simp

lemma check_decision_keys_iff: "check_decision_keys lds [] = Inr u \<longleftrightarrow> distinct (active_keys lds)"
  by (simp add: check_decision_keys_fresh)

lemma load_decision_Inr:
  "load_decision sha ms fatal (p, raw) = Inr ld \<longleftrightarrow>
     (\<exists>r m. validate_record raw = Inr r \<and> ms (dr_metric r) = Some m \<and>
        \<not> (dr_contract_hash r \<noteq> definition_hash sha m \<and> dr_status r = Dec_accepted \<and> fatal) \<and>
        ld = \<lparr>ld_record = r, ld_path = p, ld_stale_inactive = (dr_contract_hash r \<noteq> definition_hash sha m)\<rparr>)"
  by (auto simp: load_decision_def result_simps Let_def split: option.splits)

lemma load_decisions_registry_ok:
  assumes "load_decisions sha yml files metrics fatal = Inr reg"
  shows "registry_ok reg"
proof -
  obtain ms where lds: "map_res (load_decision sha ms fatal) (sort_key fst files) = Inr (rg_decisions reg)"
    and keys: "check_decision_keys (rg_decisions reg) [] = Inr ()"
    using assms by (auto simp: load_decisions_def result_simps)
  have "record_ok (ld_record ld)" if ld: "ld \<in> set (rg_decisions reg)" for ld
  proof -
    obtain p raw where "load_decision sha ms fatal (p, raw) = Inr ld" using map_res_set [OF lds ld] by auto
    then obtain r where r: "validate_record raw = Inr r" "ld_record ld = r" by (auto simp: load_decision_Inr)
    then show ?thesis by (simp add: validate_record_ok [OF r(1)])
  qed
  then show ?thesis using keys
    by (simp add: registry_ok_def list_all_iff active_def check_decision_keys_iff o_def)
qed

section \<open>A concept has at most one active decision per metric\<close>

lemma family_matches_unique: "family_matches f s \<Longrightarrow> family_matches g s \<Longrightarrow> f = g"
  by (cases f; cases g) auto

lemma family_matches_standard: "family_matches f s \<Longrightarrow> s \<noteq> Other_Family \<and> f \<noteq> Fam_issuer"
  by (cases f) auto

lemma concept_matches_cases:
  assumes "concept_matches_decision r cik ns loc = Inr True"
  obtains (standard) c where "ds_local_name (dr_source r) = loc" "classify ns = Inr c"
      "family_matches (ds_family (dr_source r)) (tc_semantic_family c)"
  | (issuer) c a where "ds_local_name (dr_source r) = loc" "classify ns = Inr c" "tc_origin c = Issuer_Origin"
      "ds_family (dr_source r) = Fam_issuer" "ds_issuer_cik (dr_source r) = Some a"
      "validate_cik a = validate_cik cik"
  using assms
  by (auto simp: concept_matches_decision_def result_simps split: if_splits option.splits)

lemma issuer_origin_no_family:
  "classify ns = Inr c \<Longrightarrow> tc_origin c = Issuer_Origin \<Longrightarrow> \<not> family_matches f (tc_semantic_family c)"
  using classify_issuer family_matches_standard by metis

lemma concept_match_same_key:
  assumes "concept_matches_decision r cik ns loc = Inr True" "concept_matches_decision r' cik ns loc = Inr True"
    and "record_ok r" "record_ok r'" "dr_metric r = dr_metric r'"
  shows "decision_key r = decision_key r'"
  using assms(1)
proof (cases rule: concept_matches_cases)
  case r: (standard c)
  from assms(2) show ?thesis
  proof (cases rule: concept_matches_cases)
    case (standard c')
    then have "ds_family (dr_source r) = ds_family (dr_source r')"
      using r family_matches_unique by auto
    moreover have "ds_issuer_cik (dr_source r) = None" "ds_issuer_cik (dr_source r') = None"
      using r standard assms(3,4) family_matches_standard by (fastforce simp: record_ok_def source_ok_def)+
    ultimately show ?thesis using r standard assms(5) by (simp add: decision_key_def)
  next
    case (issuer c' a)
    then show ?thesis using r issuer_origin_no_family by auto
  qed
next
  case r: (issuer c a)
  from assms(2) show ?thesis
  proof (cases rule: concept_matches_cases)
    case (standard c')
    then show ?thesis using r issuer_origin_no_family by auto
  next
    case (issuer c' b)
    then have "a = b" using r assms(3,4) by (auto simp: record_ok_def source_ok_def)
    then show ?thesis using r issuer assms(5) by (simp add: decision_key_def)
  qed
qed

lemma active_unique:
  assumes "registry_ok reg" and "r \<in> set (active reg)" "r' \<in> set (active reg)"
    and "dr_metric r = dr_metric r'"
    and "concept_matches_decision r cik ns loc = Inr True" "concept_matches_decision r' cik ns loc = Inr True"
  shows "r = r'"
proof -
  have "record_ok r" "record_ok r'"
    using assms(1-3) by (auto simp: registry_ok_def active_def list_all_iff)
  then have "decision_key r = decision_key r'" using assms concept_match_same_key by blast
  then show ?thesis using assms(1-3) by (auto simp: registry_ok_def distinct_map inj_on_def)
qed

lemma distinct_active: "registry_ok reg \<Longrightarrow> distinct (active reg)"
  by (simp add: registry_ok_def distinct_map)

section \<open>Properties\<close>

text \<open>
  Property C29: the decision files load exactly when every file, in path order, validates and names a
  known metric, none is (where that is fatal) an accepted decision whose contract hash is out of date,
  and no two decisions with a current hash share metric, family, issuer and local name.  The
  registry then holds one decision per file, inactive exactly when its hash is out of date.
\<close>

theorem load_decisions_accepts_iff:
  "load_decisions sha yml files (Some ms) fatal = Inr reg \<longleftrightarrow>
     rg_metrics_by_key reg = ms \<and>
     list_all2 (\<lambda>(p, raw) ld. ld_path ld = p \<and> validate_record raw = Inr (ld_record ld) \<and>
         (\<exists>m. ms (dr_metric (ld_record ld)) = Some m \<and>
            ld_stale_inactive ld = (dr_contract_hash (ld_record ld) \<noteq> definition_hash sha m)) \<and>
         \<not> (fatal \<and> ld_stale_inactive ld \<and> dr_status (ld_record ld) = Dec_accepted))
       (sort_key fst files) (rg_decisions reg) \<and>
     distinct (map decision_key (active reg))"
proof -
  have one: "(\<lambda>(p, raw) ld. ld_path ld = p \<and> validate_record raw = Inr (ld_record ld) \<and>
      (\<exists>m. ms (dr_metric (ld_record ld)) = Some m \<and>
         ld_stale_inactive ld = (dr_contract_hash (ld_record ld) \<noteq> definition_hash sha m)) \<and>
      \<not> (fatal \<and> ld_stale_inactive ld \<and> dr_status (ld_record ld) = Dec_accepted)) =
    (\<lambda>f ld. load_decision sha ms fatal f = Inr ld)"
    by (intro ext, rename_tac f ld, case_tac f, case_tac ld) (auto simp: load_decision_Inr)
  show ?thesis
    unfolding one
    by (cases reg)
       (auto simp: load_decisions_def result_simps map_res_Inr_iff check_decision_keys_iff active_def o_def)
qed

text \<open>
  Property C30: in a loaded registry a concept of a filing has at most one decision per metric: two
  active decisions of one metric that both match the concept are the same decision.  A concept can
  therefore not be at once exact and broader for a metric.
\<close>

theorem active_decision_unique:
  assumes "load_decisions sha yml files metrics fatal = Inr reg"
    and "r \<in> set (active reg)" "r' \<in> set (active reg)" "dr_metric r = dr_metric r'"
    and "concept_matches_decision r cik ns loc = Inr True" "concept_matches_decision r' cik ns loc = Inr True"
  shows "r = r'"
  by (rule active_unique [OF load_decisions_registry_ok [OF assms(1)] assms(2-6)])

definition example_decision :: decision_record where
  "example_decision = \<lparr>dr_id = ''assets-us-gaap'', dr_metric = ''assets'',
     dr_source = \<lparr>ds_family = Fam_us_gaap, ds_local_name = ''Assets'', ds_issuer_cik = None, ds_exclude_qnames = []\<rparr>,
     dr_relation = Rel_exact, dr_scope = \<lparr>sc_exclude_ciks = [''19''], sc_exclude_sic_divisions = []\<rparr>,
     dr_status = Dec_accepted, dr_method = Reviewed_method, dr_rationale = ''same total'',
     dr_evidence = [\<lparr>de_kind = ''taxonomy'', de_source = None, de_artifact_sha256 = None, de_concept = None,
       de_accession = None, de_locator = None, de_quote = None\<rparr>],
     dr_reviewed = \<lparr>rv_by = ''a'', rv_on = Date 2024 1 31\<rparr>,
     dr_contract_hash = definition_hash id example_assets\<rparr>"

definition example_issuer_decision :: decision_record where
  "example_issuer_decision = example_decision\<lparr>dr_id := ''assets-issuer'',
     dr_source := \<lparr>ds_family = Fam_issuer, ds_local_name = ''TotalAssets'', ds_issuer_cik = Some ''0000000042'',
       ds_exclude_qnames = []\<rparr>\<rparr>"

definition example_files :: "(path \<times> decision_record) list" where
  "example_files = [([''b.yml''], example_issuer_decision), ([''a.yml''], example_decision)]"

definition example_decisions :: decision_registry where
  "example_decisions = \<lparr>rg_decisions =
      [\<lparr>ld_record = example_decision, ld_path = [''a.yml''], ld_stale_inactive = False\<rparr>,
       \<lparr>ld_record = example_issuer_decision, ld_path = [''b.yml''], ld_stale_inactive = False\<rparr>],
     rg_metrics_by_key = [''assets'' \<mapsto> example_assets]\<rparr>"

lemma example_record_ok: "record_ok example_decision" "record_ok example_issuer_decision"
  by code_simp+

lemma example_load_decisions:
  "load_decisions id JNull example_files (Some [''assets'' \<mapsto> example_assets]) True = Inr example_decisions"
proof -
  have "sort_key fst example_files = [([''a.yml''], example_decision), ([''b.yml''], example_issuer_decision)]"
    by (simp add: example_files_def)
  moreover have "dr_metric example_decision = ''assets''" "dr_metric example_issuer_decision = ''assets''"
    "dr_contract_hash example_decision = definition_hash id example_assets"
    "dr_contract_hash example_issuer_decision = definition_hash id example_assets"
    "decision_key example_decision \<noteq> decision_key example_issuer_decision"
    by (simp_all add: example_decision_def example_issuer_decision_def decision_key_def)
  ultimately show ?thesis
    by (simp add: load_decisions_def load_decision_def validate_record_fixed example_record_ok example_decisions_def)
qed

theorem active_decision_unique_witness:
  "load_decisions id JNull example_files (Some [''assets'' \<mapsto> example_assets]) True = Inr example_decisions \<and>
   concept_matches_decision example_issuer_decision ''42'' ''http://issuer.com/2024'' ''TotalAssets'' = Inr True \<and>
   {r \<in> set (active example_decisions). dr_metric r = ''assets'' \<and>
      concept_matches_decision r ''42'' ''http://issuer.com/2024'' ''TotalAssets'' = Inr True} = {example_issuer_decision}"
  (is "_ \<and> ?match \<and> ?S = _")
proof -
  have m: ?match by code_simp
  have i: "example_issuer_decision \<in> set (active example_decisions)" "dr_metric example_issuer_decision = ''assets''"
    by (simp_all add: active_def example_decisions_def example_issuer_decision_def example_decision_def)
  have "r = example_issuer_decision" if r: "r \<in> ?S" for r
    by (rule active_decision_unique [OF example_load_decisions _ i(1) _ _ m]) (use r i(2) in simp_all)
  then show ?thesis using m i example_load_decisions by blast
qed

end
