(* ===== verification/Period.thy ===== *)
theory Period
  imports Decimals Metric_Registry Taxonomy
begin

text \<open>
  \<^verbatim>\<open>src/edgar/financials/models.py\<close> (the rows read from the source database) and \<^verbatim>\<open>period.py\<close>: the
  annual reporting period of a filing, taken from its \<^verbatim>\<open>dei:DocumentPeriodEndDate\<close> contexts, and the
  test that a fact's context covers the period a metric asks for.
\<close>

section \<open>Fact rows\<close>

record unit_measure_row =
  mu_side :: string
  mu_ordinal :: int
  mu_measure_namespace_uri :: "string option"
  mu_measure_local_name :: string

record fact_row =
  fr_fact_id :: int
  fr_concept_namespace :: string
  fr_concept_local_name :: string
  fr_source_qname :: string
  fr_context_id :: int
  fr_value_status :: string
  fr_resolved_numeric :: "decimal option"
  fr_is_nil :: bool
  fr_decimals :: "string option"
  fr_lexical_value :: "string option"
  fr_entity_scheme :: string
  fr_entity_identifier :: string
  fr_period_kind :: string
  fr_instant_lexical :: "string option"
  fr_start_lexical :: "string option"
  fr_end_lexical :: "string option"
  fr_has_dimensions :: bool
  fr_unit_measures :: "unit_measure_row list"

text \<open>\<^verbatim>\<open>str(d)\<close> of a Decimal: scientific notation unless the exponent is at most 0 and small.\<close>

definition dec_str :: "decimal \<Rightarrow> string" where
  "dec_str d =
     (let digits = show_nat (nat \<bar>dcoef d\<bar>);
          leftdigits = dexp d + int (length digits);
          dotplace = (if dexp d \<le> 0 \<and> leftdigits > -6 then leftdigits else 1);
          sgn_part = (if dcoef d < 0 then ''-'' else []);
          intpart = (if dotplace \<le> 0 then ''0'' else take (nat dotplace) digits @
                       replicate (nat dotplace - length digits) CHR ''0'');
          fracpart = (if dotplace \<le> 0 then ''.'' @ replicate (nat (- dotplace)) CHR ''0'' @ digits
                      else if nat dotplace \<ge> length digits then [] else ''.'' @ drop (nat dotplace) digits);
          e = leftdigits - dotplace;
          exp_part = (if e = 0 then [] else ''E'' @ (if e < 0 then show_int e else ''+'' @ show_int e))
      in sgn_part @ intpart @ fracpart @ exp_part)"

section \<open>The reporting period\<close>

definition SEC_CIK_SCHEME :: string where
  "SEC_CIK_SCHEME = ''http://www.sec.gov/CIK''"

definition DEI_LOCAL_FISCAL_YEAR :: string where
  "DEI_LOCAL_FISCAL_YEAR = ''DocumentFiscalYearFocus''"

definition DEI_LOCAL_FISCAL_PERIOD :: string where
  "DEI_LOCAL_FISCAL_PERIOD = ''DocumentFiscalPeriodFocus''"

record reporting_period =
  rp_start :: string
  rp_end :: string
  rp_fiscal_year_focus :: "string option"
  rp_fiscal_period_focus :: "string option"

record dei_period_candidate =
  dc_context_id :: int
  dc_context_entity_scheme :: string
  dc_context_entity_identifier :: string
  dc_period_kind :: string
  dc_instant_lexical :: "string option"
  dc_start_lexical :: "string option"
  dc_end_lexical :: "string option"
  dc_document_period_end_value :: string

definition period_end_lexical :: "dei_period_candidate \<Rightarrow> string res" where
  "period_end_lexical c =
     (if dc_period_kind c = ''instant''
      then (case dc_instant_lexical c of
              None \<Rightarrow> Inl (RequiredPeriodError ''DEI context missing instant_lexical'') | Some i \<Rightarrow> Inr i)
      else (case dc_end_lexical c of
              None \<Rightarrow> Inl (RequiredPeriodError ''DEI duration context missing end_lexical'') | Some e \<Rightarrow> Inr e))"

abbreviation period_tuple ::
  "dei_period_candidate \<Rightarrow> string \<times> string option \<times> string option \<times> string option" where
  "period_tuple c \<equiv> (dc_period_kind c, dc_instant_lexical c, dc_start_lexical c, dc_end_lexical c)"

definition candidates_equivalent :: "dei_period_candidate \<Rightarrow> dei_period_candidate \<Rightarrow> bool res" where
  "candidates_equivalent a b =
     res_bind (validate_cik (dc_context_entity_identifier a)) (\<lambda>ca.
     res_bind (validate_cik (dc_context_entity_identifier b)) (\<lambda>cb.
       if ca \<noteq> cb then Inr False
       else if dc_context_entity_scheme a \<noteq> dc_context_entity_scheme b then Inr False
       else if period_tuple a \<noteq> period_tuple b then Inr False
       else if py_strip (dc_document_period_end_value a) \<noteq> py_strip (dc_document_period_end_value b) then Inr False
       else res_bind (period_end_lexical a) (\<lambda>end_a.
            res_bind (period_end_lexical b) (\<lambda>end_b.
              if end_a \<noteq> end_b then Inr False
              else Inr (py_strip (dc_document_period_end_value a) = end_a)))))"

definition dei_text_value :: "fact_row \<Rightarrow> string option" where
  "dei_text_value f = (case fr_lexical_value f of
     Some (c # cs) \<Rightarrow> Some (py_strip (c # cs))
   | _ \<Rightarrow> (case fr_resolved_numeric f of Some d \<Rightarrow> Some (dec_str d) | None \<Rightarrow> None))"

definition fiscal_focus_step ::
  "int \<Rightarrow> fact_row \<Rightarrow> string option \<times> string option \<Rightarrow> (string option \<times> string option) res" where
  "fiscal_focus_step context_id f focus =
     (if fr_context_id f \<noteq> context_id \<or> fr_has_dimensions f then Inr focus
      else res_bind (classify (fr_concept_namespace f)) (\<lambda>clf.
        if tc_semantic_family clf \<noteq> DEI then Inr focus
        else (case dei_text_value f of
                Some (c # cs) \<Rightarrow>
                  if fr_concept_local_name f = DEI_LOCAL_FISCAL_YEAR then Inr (Some (c # cs), snd focus)
                  else if fr_concept_local_name f = DEI_LOCAL_FISCAL_PERIOD then Inr (fst focus, Some (c # cs))
                  else Inr focus
              | _ \<Rightarrow> Inr focus)))"

definition fiscal_focus :: "fact_row list \<Rightarrow> int \<Rightarrow> (string option \<times> string option) res" where
  "fiscal_focus facts context_id = fold_res (fiscal_focus_step context_id) facts (None, None)"

definition own_candidate :: "string \<Rightarrow> dei_period_candidate \<Rightarrow> bool res" where
  "own_candidate normalized_filing_cik c =
     (if dc_context_entity_scheme c \<noteq> SEC_CIK_SCHEME then Inr False
      else res_bind (validate_cik (dc_context_entity_identifier c)) (\<lambda>n. Inr (n = normalized_filing_cik)))"

fun place :: "dei_period_candidate \<Rightarrow> dei_period_candidate list list \<Rightarrow> dei_period_candidate list list res" where
  "place c [] = Inr [[c]]"
| "place c (grp # groups) =
     res_bind (candidates_equivalent (hd grp) c) (\<lambda>eq.
       if eq then Inr ((grp @ [c]) # groups)
       else res_bind (place c groups) (\<lambda>rest. Inr (grp # rest)))"

definition resolve_required_reporting_period ::
  "dei_period_candidate list \<Rightarrow> string \<Rightarrow> fact_row list \<Rightarrow> reporting_period res" where
  "resolve_required_reporting_period candidates filing_cik facts =
     (if candidates = [] then Inl (RequiredPeriodError ''no undimensioned dei:DocumentPeriodEndDate fact'')
      else res_bind (validate_cik filing_cik) (\<lambda>normalized_filing_cik.
      res_bind (filter_res (own_candidate normalized_filing_cik) candidates) (\<lambda>filtered.
        if filtered = [] then Inl (RequiredPeriodError ''no DEI DocumentPeriodEndDate with SEC CIK entity'')
        else res_bind (fold_res place filtered []) (\<lambda>groups.
          if length groups > 1 then Inl (RequiredPeriodError ''conflicting DEI DocumentPeriodEndDate contexts'')
          else let chosen = hd (hd groups)
               in if dc_period_kind chosen \<noteq> ''duration''
                  then Inl (RequiredPeriodError ''required DEI context must be duration for annual 10-K'')
                  else (case dc_start_lexical chosen of
                          None \<Rightarrow> Inl (RequiredPeriodError ''DEI duration context missing start_lexical'')
                        | Some start \<Rightarrow>
                            res_bind (period_end_lexical chosen) (\<lambda>end_lex.
                            res_bind (fiscal_focus facts (dc_context_id chosen)) (\<lambda>focus.
                              Inr \<lparr>rp_start = start,
                                   rp_end = (case dc_end_lexical chosen of Some (c # cs) \<Rightarrow> c # cs | _ \<Rightarrow> end_lex),
                                   rp_fiscal_year_focus = fst focus,
                                   rp_fiscal_period_focus = snd focus\<rparr>)))))))"

definition period_matches_metric ::
  "period_type \<Rightarrow> reporting_period \<Rightarrow> string \<Rightarrow> string option \<Rightarrow> string option \<Rightarrow> string option \<Rightarrow> bool" where
  "period_matches_metric metric_period_type period context_period_kind instant_lexical start_lexical end_lexical =
     (if metric_period_type = Duration
      then (if context_period_kind \<noteq> ''duration'' then False
            else start_lexical = Some (rp_start period) \<and> end_lexical = Some (rp_end period))
      else if context_period_kind \<noteq> ''instant'' then False
      else instant_lexical = Some (rp_end period))"

section \<open>Grouping\<close>

lemma place_length: "place c gs = Inr gs' \<Longrightarrow> length gs \<le> length gs' \<and> gs' \<noteq> []"
  by (induction gs arbitrary: gs') (auto simp: result_simps split: if_splits)

lemma place_one:
  "place c [g] = Inr [g'] \<longleftrightarrow> candidates_equivalent (hd g) c = Inr True \<and> g' = g @ [c]"
  by (auto simp: result_simps split: if_splits)

lemma fold_place_length: "fold_res place cs gs = Inr gs' \<Longrightarrow> length gs \<le> length gs'"
proof (induction cs arbitrary: gs)
  case (Cons c cs)
  then obtain gs1 where "place c gs = Inr gs1" "fold_res place cs gs1 = Inr gs'" by (auto simp: result_simps)
  then show ?case using Cons.IH place_length by fastforce
qed simp

lemma fold_place_one:
  assumes "g \<noteq> []"
  shows "fold_res place cs [g] = Inr [g'] \<longleftrightarrow>
    (\<forall>c\<in>set cs. candidates_equivalent (hd g) c = Inr True) \<and> g' = g @ cs"
  using assms
proof (induction cs arbitrary: g)
  case (Cons c cs)
  have step: "fold_res place (c # cs) [g] = Inr [g'] \<longleftrightarrow>
    candidates_equivalent (hd g) c = Inr True \<and> fold_res place cs [g @ [c]] = Inr [g']"
  proof
    assume L: "fold_res place (c # cs) [g] = Inr [g']"
    then obtain gs1 where 1: "place c [g] = Inr gs1" "fold_res place cs gs1 = Inr [g']"
      by (auto simp: result_simps simp del: place.simps)
    then have "length gs1 = 1" using place_length [OF 1(1)] fold_place_length [OF 1(2)] by simp
    then obtain g1 where "gs1 = [g1]" by (auto simp: length_Suc_conv)
    then show "candidates_equivalent (hd g) c = Inr True \<and> fold_res place cs [g @ [c]] = Inr [g']"
      using 1 place_one by auto
  qed simp
  show ?case unfolding step using Cons.IH [of "g @ [c]"] Cons.prems by auto
qed auto

lemma single_group:
  assumes "fold_res place (c # cs) [] = Inr groups"
  shows "\<not> length groups > 1 \<longleftrightarrow>
    groups = [c # cs] \<and> (\<forall>d\<in>set cs. candidates_equivalent c d = Inr True)"
proof -
  have f: "fold_res place cs [[c]] = Inr groups" using assms by simp
  show ?thesis
  proof
    assume "\<not> length groups > 1"
    then have "length groups = 1" using fold_place_length [OF f] by simp
    then obtain g where "groups = [g]" by (auto simp: length_Suc_conv)
    then show "groups = [c # cs] \<and> (\<forall>d\<in>set cs. candidates_equivalent c d = Inr True)"
      using f fold_place_one [of "[c]" cs g] by simp
  qed simp
qed

section \<open>Properties\<close>

definition own_candidates :: "string \<Rightarrow> dei_period_candidate list \<Rightarrow> dei_period_candidate list" where
  "own_candidates filing_cik = filter (\<lambda>c. dc_context_entity_scheme c = SEC_CIK_SCHEME \<and>
     validate_cik (dc_context_entity_identifier c) = validate_cik filing_cik)"

lemma own_filter:
  assumes "validate_cik cik = Inr n"
  shows "filter_res (own_candidate n) cs = Inr ys \<longleftrightarrow>
    ys = own_candidates cik cs \<and>
    (\<forall>c\<in>set cs. dc_context_entity_scheme c = SEC_CIK_SCHEME \<longrightarrow> is_ok (validate_cik (dc_context_entity_identifier c)))"
  using assms
  by (induction cs arbitrary: ys)
     (auto simp: own_candidates_def own_candidate_def result_simps is_ok_iff split: if_splits)

lemma own_candidates_mem:
  "c \<in> set (own_candidates cik cs) \<Longrightarrow>
     dc_context_entity_scheme c = SEC_CIK_SCHEME \<and> validate_cik (dc_context_entity_identifier c) = validate_cik cik"
  by (simp add: own_candidates_def)

lemma equivalent_duration:
  assumes "dc_context_entity_scheme a = dc_context_entity_scheme b"
    and "validate_cik (dc_context_entity_identifier a) = Inr n" "validate_cik (dc_context_entity_identifier b) = Inr n"
    and "dc_period_kind a = ''duration''" "dc_end_lexical a = Some e"
  shows "candidates_equivalent a b = Inr True \<longleftrightarrow> period_tuple b = period_tuple a \<and>
    py_strip (dc_document_period_end_value a) = e \<and> py_strip (dc_document_period_end_value b) = e"
  using assms by (cases a; cases b) (auto simp: candidates_equivalent_def period_end_lexical_def)

lemma fold_place_all_equivalent:
  assumes "\<forall>d\<in>set cs. candidates_equivalent c d = Inr True"
  shows "fold_res place (c # cs) [] = Inr [c # cs]"
  using assms fold_place_one [of "[c]" cs "c # cs"] by simp

lemma resolve_period_iff:
  "resolve_required_reporting_period cands cik facts = Inr p \<longleftrightarrow>
   (\<exists>n c rest s e fy fp. validate_cik cik = Inr n \<and>
      (\<forall>d\<in>set cands. dc_context_entity_scheme d = SEC_CIK_SCHEME \<longrightarrow> is_ok (validate_cik (dc_context_entity_identifier d))) \<and>
      own_candidates cik cands = c # rest \<and>
      (\<forall>d\<in>set rest. period_tuple d = period_tuple c \<and>
         py_strip (dc_document_period_end_value c) = e \<and> py_strip (dc_document_period_end_value d) = e) \<and>
      dc_period_kind c = ''duration'' \<and> dc_start_lexical c = Some s \<and> dc_end_lexical c = Some e \<and>
      fiscal_focus facts (dc_context_id c) = Inr (fy, fp) \<and>
      p = \<lparr>rp_start = s, rp_end = e, rp_fiscal_year_focus = fy, rp_fiscal_period_focus = fp\<rparr>)"
  (is "?L \<longleftrightarrow> (\<exists>n c rest s e fy fp. ?R n c rest s e fy fp)")
proof
  assume ?L
  then obtain n ys groups where n: "validate_cik cik = Inr n" "filter_res (own_candidate n) cands = Inr ys"
    "ys \<noteq> []" "fold_res place ys [] = Inr groups" "\<not> length groups > 1"
    and rest: "(let chosen = hd (hd groups)
               in if dc_period_kind chosen \<noteq> ''duration''
                  then Inl (RequiredPeriodError ''required DEI context must be duration for annual 10-K'')
                  else (case dc_start_lexical chosen of
                          None \<Rightarrow> Inl (RequiredPeriodError ''DEI duration context missing start_lexical'')
                        | Some start \<Rightarrow>
                            res_bind (period_end_lexical chosen) (\<lambda>end_lex.
                            res_bind (fiscal_focus facts (dc_context_id chosen)) (\<lambda>focus.
                              Inr \<lparr>rp_start = start,
                                   rp_end = (case dc_end_lexical chosen of Some (c # cs) \<Rightarrow> c # cs | _ \<Rightarrow> end_lex),
                                   rp_fiscal_year_focus = fst focus,
                                   rp_fiscal_period_focus = snd focus\<rparr>)))) = Inr p"
    unfolding resolve_required_reporting_period_def
    by (simp only: res_bind_Inr_iff split: if_splits) blast+
  obtain c cs where ys: "ys = c # cs" using n(3) by (cases ys) auto
  have own: "own_candidates cik cands = c # cs" using own_filter [OF n(1)] n(2) ys by simp
  have g: "groups = [c # cs]" "\<forall>d\<in>set cs. candidates_equivalent c d = Inr True"
    using single_group n(4,5) ys by auto
  from rest obtain s e fy fp where c: "dc_period_kind c = ''duration''" "dc_start_lexical c = Some s"
    "dc_end_lexical c = Some e" "fiscal_focus facts (dc_context_id c) = Inr (fy, fp)"
    "p = \<lparr>rp_start = s, rp_end = e, rp_fiscal_year_focus = fy, rp_fiscal_period_focus = fp\<rparr>"
    by (auto simp: g(1) result_simps period_end_lexical_def split: if_splits option.splits list.splits)
  have "\<forall>d\<in>set cs. period_tuple d = period_tuple c \<and>
      py_strip (dc_document_period_end_value c) = e \<and> py_strip (dc_document_period_end_value d) = e"
  proof
    fix d assume d: "d \<in> set cs"
    have "c \<in> set (own_candidates cik cands)" "d \<in> set (own_candidates cik cands)" using own d by simp_all
    then show "period_tuple d = period_tuple c \<and>
      py_strip (dc_document_period_end_value c) = e \<and> py_strip (dc_document_period_end_value d) = e"
      using equivalent_duration [of c d n e] own_candidates_mem n(1) c g(2) d by metis
  qed
  then have "?R n c cs s e fy fp" using own_filter [OF n(1)] n own c by simp
  then show "\<exists>n c rest s e fy fp. ?R n c rest s e fy fp" by blast
next
  assume "\<exists>n c rest s e fy fp. ?R n c rest s e fy fp"
  then obtain n c cs s e fy fp where R: "?R n c cs s e fy fp" by blast
  then have ne: "cands \<noteq> []" by (auto simp: own_candidates_def)
  have "candidates_equivalent c d = Inr True" if d: "d \<in> set cs" for d
  proof -
    have "c \<in> set (own_candidates cik cands)" "d \<in> set (own_candidates cik cands)" using R d by simp_all
    then show ?thesis using equivalent_duration [of c d n e] own_candidates_mem R d by metis
  qed
  then have "fold_res place (c # cs) [] = Inr [c # cs]" by (intro fold_place_all_equivalent) blast
  then show ?L
    using R ne own_filter [of cik n cands "c # cs"]
    by (auto simp: resolve_required_reporting_period_def period_end_lexical_def split: list.splits)
qed

text \<open>
  Property C31: a filing has a reporting period exactly when every SEC-scheme candidate carries a
  well-formed CIK, some candidate is the filer's own, the first own one is a duration with both ends and a
  readable fiscal focus, and, where there are several own candidates, all have the same period and all, the
  first included, state that period's end date (a single one need not).  The period is then the start and
  end of the first own context with the fiscal focus of its DEI facts.
\<close>

theorem reporting_period_iff:
  "resolve_required_reporting_period cands cik facts = Inr p \<longleftrightarrow>
   (\<exists>n c rest s e fy fp. validate_cik cik = Inr n \<and>
      (\<forall>d\<in>set cands. dc_context_entity_scheme d = SEC_CIK_SCHEME \<longrightarrow> is_ok (validate_cik (dc_context_entity_identifier d))) \<and>
      own_candidates cik cands = c # rest \<and>
      (\<forall>d\<in>set rest. period_tuple d = period_tuple c \<and>
         py_strip (dc_document_period_end_value c) = e \<and> py_strip (dc_document_period_end_value d) = e) \<and>
      dc_period_kind c = ''duration'' \<and> dc_start_lexical c = Some s \<and> dc_end_lexical c = Some e \<and>
      fiscal_focus facts (dc_context_id c) = Inr (fy, fp) \<and>
      p = \<lparr>rp_start = s, rp_end = e, rp_fiscal_year_focus = fy, rp_fiscal_period_focus = fp\<rparr>)"
  by (rule resolve_period_iff)

definition example_candidate :: dei_period_candidate where
  "example_candidate = \<lparr>dc_context_id = 1, dc_context_entity_scheme = ''http://www.sec.gov/CIK'',
     dc_context_entity_identifier = ''0000000042'', dc_period_kind = ''duration'', dc_instant_lexical = None,
     dc_start_lexical = Some ''2023-01-01'', dc_end_lexical = Some ''2023-12-31'',
     dc_document_period_end_value = '' 2023-12-31''\<rparr>"

definition example_period :: reporting_period where
  "example_period = \<lparr>rp_start = ''2023-01-01'', rp_end = ''2023-12-31'', rp_fiscal_year_focus = None,
     rp_fiscal_period_focus = None\<rparr>"

theorem reporting_period_iff_witness:
  "resolve_required_reporting_period
     [example_candidate\<lparr>dc_context_entity_identifier := ''7''\<rparr>, example_candidate, example_candidate\<lparr>dc_context_id := 2\<rparr>]
     ''42'' [] = Inr example_period"
proof -
  have "own_candidates ''42'' [example_candidate\<lparr>dc_context_entity_identifier := ''7''\<rparr>, example_candidate,
      example_candidate\<lparr>dc_context_id := 2\<rparr>] = [example_candidate, example_candidate\<lparr>dc_context_id := 2\<rparr>]"
    by code_simp
  moreover have "is_ok (validate_cik ''7'')" "is_ok (validate_cik ''0000000042'')"
    "validate_cik ''42'' = Inr ''0000000042''" "py_strip '' 2023-12-31'' = ''2023-12-31''"
    by code_simp+
  ultimately show ?thesis
    by (subst reporting_period_iff) (simp add: example_candidate_def example_period_def fiscal_focus_def)
qed

end
