(* ===== verification/Select.thy ===== *)
theory Select
  imports Decisions Period
begin

text \<open>
  \<^verbatim>\<open>src/edgar/financials/resolve.py\<close> and \<^verbatim>\<open>select.py\<close>: the supports that decisions give to the facts of
  a filing, and the selection of one annual observation per metric from them.

  An observation is a value only when accepted exact decisions lead to facts that qualify for the
  slot (undimensioned, valid, in US dollars, of the filer, of the reporting period), duplicates of
  each concept are consistent, and all concepts agree numerically.
\<close>

section \<open>Supports\<close>

record support =
  su_fact_id :: int
  su_accession :: string
  su_concept_namespace :: string
  su_concept_local_name :: string
  su_source_qname :: string
  su_metric :: string
  su_relation :: decision_relation
  su_decision_id :: string
  su_application_method :: decision_method
  su_tier :: int

definition support_for ::
  "string \<Rightarrow> string \<Rightarrow> fact_row \<Rightarrow> loaded_decision \<Rightarrow> support option res" where
  "support_for accession filing_cik f ld =
     (let r = ld_record ld
      in if ld_stale_inactive ld \<or> dr_status r \<noteq> Dec_accepted then Inr None
         else res_bind (issuer_excluded r filing_cik) (\<lambda>ex.
           if ex then Inr None
           else res_bind (concept_matches_decision r filing_cik (fr_concept_namespace f) (fr_concept_local_name f)) (\<lambda>m.
             if \<not> m then Inr None
             else res_bind (clark_qname (fr_concept_namespace f) (fr_concept_local_name f)) (\<lambda>q.
               Inr (Some \<lparr>su_fact_id = fr_fact_id f, su_accession = accession,
                 su_concept_namespace = fr_concept_namespace f, su_concept_local_name = fr_concept_local_name f,
                 su_source_qname = q, su_metric = dr_metric r, su_relation = dr_relation r,
                 su_decision_id = dr_id r, su_application_method = dr_method r, su_tier = 1\<rparr>)))))"

definition resolve_supports ::
  "fact_row list \<Rightarrow> decision_registry \<Rightarrow> string \<Rightarrow> string \<Rightarrow> support list res" where
  "resolve_supports facts registry accession filing_cik =
     res_bind (map_res (\<lambda>f. map_res (support_for accession filing_cik f) (rg_decisions registry)) facts)
       (\<lambda>rows. Inr (somes (concat rows)))"

section \<open>Slots\<close>

definition ISO_USD_NS :: string where
  "ISO_USD_NS = ''http://www.xbrl.org/2003/iso4217''"

definition ANNUAL_FORMS :: "string list" where
  "ANNUAL_FORMS = [''10-K'', ''10-K/A'']"

definition is_pure_usd :: "unit_measure_row list \<Rightarrow> bool" where
  "is_pure_usd ms =
     (let nums = filter (\<lambda>m. mu_side m = ''numerator'') ms;
          dens = filter (\<lambda>m. mu_side m = ''denominator'') ms
      in case nums of
           [m] \<Rightarrow> dens = [] \<and> mu_measure_namespace_uri m = Some ISO_USD_NS \<and> mu_measure_local_name m = ''USD''
         | _ \<Rightarrow> False)"

definition entity_matches :: "fact_row \<Rightarrow> string \<Rightarrow> bool res" where
  "entity_matches f filing_cik =
     (if fr_entity_scheme f \<noteq> SEC_CIK_SCHEME then Inr False
      else res_bind (validate_cik (fr_entity_identifier f)) (\<lambda>a.
           res_bind (validate_cik filing_cik) (\<lambda>b. Inr (a = b))))"

definition fact_qualifies_slot :: "fact_row \<Rightarrow> string \<Rightarrow> reporting_period \<Rightarrow> period_type \<Rightarrow> bool res" where
  "fact_qualifies_slot f filing_cik period metric_period_type =
     (if fr_has_dimensions f then Inr False
      else if fr_value_status f \<noteq> ''valid'' \<or> fr_is_nil f \<or> fr_resolved_numeric f = None then Inr False
      else res_bind (entity_matches f filing_cik) (\<lambda>em.
        if \<not> em then Inr False
        else if \<not> is_pure_usd (fr_unit_measures f) then Inr False
        else Inr (period_matches_metric metric_period_type period (fr_period_kind f) (fr_instant_lexical f)
               (fr_start_lexical f) (fr_end_lexical f))))"

section \<open>Selection\<close>

datatype observation_status = Ob_value | Ob_missing | Ob_unsupported | Ob_conflict

datatype observation_reason = Broader_only | Decision_scope | Wrong_form

record support_ref =
  sr_fact_id :: int
  sr_decision_id :: string
  sr_relation :: decision_relation
  sr_tier :: int
  sr_source_qname :: string
  sr_application_method :: decision_method

record observation =
  ob_cik :: string
  ob_accession :: string
  ob_metric :: string
  ob_fy :: "string option"
  ob_report_focus :: "string option"
  ob_period_role :: "string option"
  ob_period_start :: "string option"
  ob_period_end :: "string option"
  ob_status :: observation_status
  ob_reason :: "observation_reason option"
  ob_numeric :: "decimal option"
  ob_decimals :: "string option"
  ob_unit :: "string option"
  ob_decision_ids :: "string list"
  ob_fact_ids :: "int list"
  ob_supports :: "support_ref list"
  ob_relation :: "decision_relation option"
  ob_tier :: "int option"
  ob_available_at :: "string option"
  ob_view :: string

definition base_observation ::
  "string \<Rightarrow> string \<Rightarrow> string \<Rightarrow> reporting_period option \<Rightarrow> string option \<Rightarrow> period_type \<Rightarrow> observation" where
  "base_observation metric filing_cik accession period available_at metric_period_type =
     \<lparr>ob_cik = filing_cik, ob_accession = accession, ob_metric = metric,
      ob_fy = Option.bind period rp_fiscal_year_focus,
      ob_report_focus = Option.bind period rp_fiscal_period_focus, ob_period_role = None,
      ob_period_start = (if metric_period_type = Duration then map_option rp_start period else None),
      ob_period_end = map_option rp_end period, ob_status = Ob_missing, ob_reason = None, ob_numeric = None,
      ob_decimals = None, ob_unit = Some ''USD'', ob_decision_ids = [], ob_fact_ids = [], ob_supports = [],
      ob_relation = None, ob_tier = None, ob_available_at = available_at, ob_view = ''as-filed''\<rparr>"

text \<open>\<^verbatim>\<open>{f.fact_id: f for f in facts}\<close>: a later row replaces an earlier one of the same id.\<close>

definition fact_by_id :: "fact_row list \<Rightarrow> (int \<rightharpoonup> fact_row)" where
  "fact_by_id facts = map_of (rev (map (\<lambda>f. (fr_fact_id f, f)) facts))"

definition exact_decisions :: "decision_registry \<Rightarrow> string \<Rightarrow> decision_record list" where
  "exact_decisions registry metric =
     map ld_record (filter (\<lambda>ld. \<not> ld_stale_inactive ld \<and> dr_status (ld_record ld) = Dec_accepted \<and>
       dr_relation (ld_record ld) = Rel_exact \<and> dr_metric (ld_record ld) = metric) (rg_decisions registry))"

text \<open>The supports of a metric and relation with their fact, those that qualify for the slot.\<close>

definition with_facts :: "fact_row list \<Rightarrow> support list \<Rightarrow> (support \<times> fact_row) list" where
  "with_facts facts sups = somes (map (\<lambda>s. map_option (\<lambda>f. (s, f)) (fact_by_id facts (su_fact_id s))) sups)"

definition supports_of :: "support list \<Rightarrow> string \<Rightarrow> decision_relation \<Rightarrow> support list" where
  "supports_of sups metric rel = filter (\<lambda>s. su_metric s = metric \<and> su_relation s = rel) sups"

definition candidates_of ::
  "string \<Rightarrow> reporting_period \<Rightarrow> period_type \<Rightarrow> fact_row list \<Rightarrow> support list \<Rightarrow> (support \<times> fact_row) list res" where
  "candidates_of filing_cik period metric_period_type facts exact_supports =
     filter_res (\<lambda>(s, f). fact_qualifies_slot f filing_cik period metric_period_type) (with_facts facts exact_supports)"

definition broader_qualified ::
  "string \<Rightarrow> reporting_period \<Rightarrow> period_type \<Rightarrow> fact_row list \<Rightarrow> support list \<Rightarrow> bool res" where
  "broader_qualified filing_cik period metric_period_type facts broader_supports =
     any_res (\<lambda>(s, f). fact_qualifies_slot f filing_cik period metric_period_type) (with_facts facts broader_supports)"

definition occurrences :: "(support \<times> fact_row) list \<Rightarrow> numeric_fact_occurrence list" where
  "occurrences grp = somes (map (\<lambda>(s, f). map_option
     (\<lambda>v. \<lparr>occ_fact_id = fr_fact_id f, occ_value = v, occ_decimals = fr_decimals f\<rparr>) (fr_resolved_numeric f)) grp)"

definition support_refs :: "(support \<times> fact_row) list \<Rightarrow> int list \<Rightarrow> support_ref list" where
  "support_refs grp fact_ids =
     (let support_by_fact = map_of (rev (map (\<lambda>(s, f). (fr_fact_id f, s)) grp))
      in somes (map (\<lambda>fid. map_option (\<lambda>s. \<lparr>sr_fact_id = fid, sr_decision_id = su_decision_id s,
           sr_relation = Rel_exact, sr_tier = 1, sr_source_qname = su_source_qname s,
           sr_application_method = su_application_method s\<rparr>) (support_by_fact fid)) fact_ids))"

type_synonym survivor = "decimal \<times> string option \<times> support_ref list"

text \<open>The loop over \<^verbatim>\<open>sorted(by_qname)\<close>; \<^term>\<open>None\<close> is its early return with a conflict.\<close>

definition group_of :: "(support \<times> fact_row) list \<Rightarrow> string \<Rightarrow> (support \<times> fact_row) list" where
  "group_of cands q = filter (\<lambda>(s, f). su_source_qname s = q) cands"

fun reduce_groups :: "(support \<times> fact_row) list \<Rightarrow> string list \<Rightarrow> survivor list option res" where
  "reduce_groups cands [] = Inr (Some [])"
| "reduce_groups cands (q # qs) =
     res_bind (oim_reduce_group (occurrences (group_of cands q))) (\<lambda>reduced.
       case reduced of
         None \<Rightarrow> Inr None
       | Some r \<Rightarrow> res_bind (reduce_groups cands qs) (\<lambda>rest. Inr (map_option
           (\<lambda>ss. (survivor_value r, survivor_decimals r, support_refs (group_of cands q) (resolved_fact_ids r)) # ss) rest)))"

definition survivor_key :: "survivor \<Rightarrow> (int \<times> int \<times> int) res" where
  "survivor_key sv = survivor_rank (fst (snd sv))
     (case map sr_fact_id (snd (snd sv)) of [] \<Rightarrow> 0 | i # is \<Rightarrow> Min (set (i # is)))"

definition published_observation :: "observation \<Rightarrow> survivor list \<Rightarrow> survivor \<Rightarrow> observation" where
  "published_observation base survivors published =
     (let all_supports = concat (map (\<lambda>(_, _, refs). refs) survivors)
      in base\<lparr>ob_status := Ob_value, ob_numeric := Some (fst published),
           ob_decimals := fst (snd published), ob_relation := Some Rel_exact, ob_tier := Some 1,
           ob_decision_ids := sorted_list_of_set (set (map sr_decision_id all_supports)),
           ob_fact_ids := sorted_list_of_set (set (map sr_fact_id all_supports)),
           ob_supports := sort_key (\<lambda>r. (sr_fact_id r, sr_decision_id r)) all_supports\<rparr>)"

definition publish :: "observation \<Rightarrow> survivor list \<Rightarrow> observation res" where
  "publish base survivors =
     (if \<exists>a\<in>set survivors. \<exists>b\<in>set survivors. \<not> dec_eq (fst a) (fst b)
      then Inr (base\<lparr>ob_status := Ob_conflict\<rparr>)
      else res_bind (map_res (\<lambda>sv. res_bind (survivor_key sv) (\<lambda>k. Inr (k, sv))) survivors) (\<lambda>ranked.
        case min_by fst ranked of
          None \<Rightarrow> Inl (ValueError ''min() arg is an empty sequence'')
        | Some (k, published) \<Rightarrow> Inr (published_observation base survivors published)))"

definition select_metric ::
  "string \<Rightarrow> string \<Rightarrow> string \<Rightarrow> string \<Rightarrow> reporting_period option \<Rightarrow> fact_row list \<Rightarrow> support list \<Rightarrow>
     decision_registry \<Rightarrow> string option \<Rightarrow> period_type \<Rightarrow> observation res" where
  "select_metric metric form filing_cik accession period facts supports registry available_at metric_period_type =
     (let base = base_observation metric filing_cik accession period available_at metric_period_type
      in if form \<notin> set ANNUAL_FORMS
         then Inr (base\<lparr>ob_status := Ob_unsupported, ob_reason := Some Wrong_form\<rparr>)
         else (case period of
           None \<Rightarrow> Inl AssertionError
         | Some p \<Rightarrow>
             let exact_all = exact_decisions registry metric
             in res_bind (filter_res (\<lambda>r. decision_applies_to_filing r filing_cik) exact_all) (\<lambda>applicable.
               if exact_all \<noteq> [] \<and> applicable = []
               then Inr (base\<lparr>ob_status := Ob_unsupported, ob_reason := Some Decision_scope\<rparr>)
               else res_bind (candidates_of filing_cik p metric_period_type facts
                                (supports_of supports metric Rel_exact)) (\<lambda>candidates.
                 res_bind (broader_qualified filing_cik p metric_period_type facts
                                (supports_of supports metric Rel_broader)) (\<lambda>broader.
                   if candidates = []
                   then Inr (base\<lparr>ob_status := Ob_missing, ob_reason := (if broader then Some Broader_only else None)\<rparr>)
                   else res_bind (reduce_groups candidates (sort (remdups (map (su_source_qname \<circ> fst) candidates))))
                     (\<lambda>reduced. case reduced of
                        None \<Rightarrow> Inr (base\<lparr>ob_status := Ob_conflict, ob_reason := None\<rparr>)
                      | Some survivors \<Rightarrow> publish base survivors))))))"

section \<open>Which supports a registry gives\<close>

text \<open>An active accepted decision of the registry that covers the concept of a fact in a filing.\<close>

definition decides :: "decision_registry \<Rightarrow> string \<Rightarrow> fact_row \<Rightarrow> decision_record \<Rightarrow> bool" where
  "decides reg cik f r = (r \<in> set (active reg) \<and> dr_status r = Dec_accepted \<and> issuer_excluded r cik = Inr False \<and>
     concept_matches_decision r cik (fr_concept_namespace f) (fr_concept_local_name f) = Inr True)"

definition mk_support :: "string \<Rightarrow> string \<Rightarrow> fact_row \<Rightarrow> decision_record \<Rightarrow> support" where
  "mk_support acc q f r = \<lparr>su_fact_id = fr_fact_id f, su_accession = acc,
     su_concept_namespace = fr_concept_namespace f, su_concept_local_name = fr_concept_local_name f,
     su_source_qname = q, su_metric = dr_metric r, su_relation = dr_relation r, su_decision_id = dr_id r,
     su_application_method = dr_method r, su_tier = 1\<rparr>"

lemma concept_matches_clark:
  "concept_matches_decision r cik ns loc = Inr True \<Longrightarrow> \<exists>q. clark_qname ns loc = Inr q"
  by (auto simp: concept_matches_decision_def result_simps split: if_splits)

lemma support_for_Some:
  "support_for acc cik f ld = Inr (Some s) \<longleftrightarrow>
     \<not> ld_stale_inactive ld \<and> dr_status (ld_record ld) = Dec_accepted \<and>
     issuer_excluded (ld_record ld) cik = Inr False \<and>
     concept_matches_decision (ld_record ld) cik (fr_concept_namespace f) (fr_concept_local_name f) = Inr True \<and>
     (\<exists>q. clark_qname (fr_concept_namespace f) (fr_concept_local_name f) = Inr q \<and> s = mk_support acc q f (ld_record ld))"
  by (auto simp: support_for_def Let_def result_simps mk_support_def split: if_splits)

lemma support_row_metrics:
  assumes "map_res (support_for acc cik f) lds = Inr row"
    and "list_all (\<lambda>ld. record_ok (ld_record ld)) lds" and "distinct (active_keys lds)"
  shows "distinct (map su_metric (somes row))"
  using assms
proof (induction lds arbitrary: row)
  case Nil
  then show ?case by simp
next
  case (Cons ld lds)
  obtain y ys where row: "row = y # ys" "support_for acc cik f ld = Inr y"
    "map_res (support_for acc cik f) lds = Inr ys"
    using Cons.prems(1) by (auto simp: result_simps)
  have IH: "distinct (map su_metric (somes ys))"
    by (rule Cons.IH [OF row(3)]) (use Cons.prems(2,3) in \<open>simp_all split: if_splits\<close>)
  show ?case
  proof (cases y)
    case None
    then show ?thesis using IH row by simp
  next
    case (Some s)
    have "su_metric s \<noteq> su_metric t" if t: "t \<in> set (somes ys)" for t
    proof
      assume eq: "su_metric s = su_metric t"
      obtain ld' where ld': "ld' \<in> set lds" "support_for acc cik f ld' = Inr (Some t)"
        using map_res_set [OF row(3)] t by (auto)
      have "decision_key (ld_record ld) = decision_key (ld_record ld')"
        by (rule concept_match_same_key [of _ cik "fr_concept_namespace f" "fr_concept_local_name f"])
           (use Cons.prems(2) ld' row(2) Some eq in \<open>auto simp: support_for_Some mk_support_def list_all_iff\<close>)
      then show False using Cons.prems(3) ld' row(2) Some by (force simp: support_for_Some)
    qed
    then have "su_metric s \<notin> su_metric ` set (somes ys)" by blast
    then show ?thesis using IH row(1) Some by simp
  qed
qed

lemma resolve_supports_mem:
  assumes "resolve_supports facts reg acc cik = Inr sups"
  shows "s \<in> set sups \<longleftrightarrow> (\<exists>f\<in>set facts. \<exists>r q. decides reg cik f r \<and>
    clark_qname (fr_concept_namespace f) (fr_concept_local_name f) = Inr q \<and> s = mk_support acc q f r)"
proof -
  obtain rows where rows: "map_res (\<lambda>f. map_res (support_for acc cik f) (rg_decisions reg)) facts = Inr rows"
    "sups = somes (concat rows)"
    using assms by (auto simp: resolve_supports_def result_simps)
  have "s \<in> set sups \<longleftrightarrow> (\<exists>f\<in>set facts. \<exists>ld\<in>set (rg_decisions reg). support_for acc cik f ld = Inr (Some s))"
  proof
    assume "s \<in> set sups"
    then obtain row where "row \<in> set rows" "Some s \<in> set row" using rows(2) by (auto)
    then show "\<exists>f\<in>set facts. \<exists>ld\<in>set (rg_decisions reg). support_for acc cik f ld = Inr (Some s)"
      using map_res_set [OF rows(1)] map_res_set by metis
  next
    assume "\<exists>f\<in>set facts. \<exists>ld\<in>set (rg_decisions reg). support_for acc cik f ld = Inr (Some s)"
    then obtain f ld where f: "f \<in> set facts" "ld \<in> set (rg_decisions reg)" "support_for acc cik f ld = Inr (Some s)"
      by blast
    obtain row where row: "row \<in> set rows" "map_res (support_for acc cik f) (rg_decisions reg) = Inr row"
      using map_res_mem [OF rows(1) f(1)] by blast
    then have "Some s \<in> set row" using map_res_mem [OF row(2) f(2)] f(3) by auto
    then show "s \<in> set sups" using rows(2) row(1) by (auto)
  qed
  then show ?thesis by (auto simp: support_for_Some decides_def active_def)
qed

lemma resolve_supports_distinct:
  assumes "registry_ok reg" and "distinct (map fr_fact_id facts)"
    and "resolve_supports facts reg acc cik = Inr sups"
  shows "distinct (map (\<lambda>s. (su_fact_id s, su_metric s)) sups)"
  using assms(2,3)
proof (induction facts arbitrary: sups)
  case Nil
  then show ?case by (simp add: resolve_supports_def)
next
  case (Cons f facts)
  obtain row rows where r: "map_res (support_for acc cik f) (rg_decisions reg) = Inr row"
    "map_res (\<lambda>f. map_res (support_for acc cik f) (rg_decisions reg)) facts = Inr rows"
    "sups = somes row @ somes (concat rows)"
    using Cons.prems(2) by (auto simp: resolve_supports_def result_simps)
  have rest: "resolve_supports facts reg acc cik = Inr (somes (concat rows))"
    using r(2) by (simp add: resolve_supports_def)
  have "distinct (map su_metric (somes row))"
    by (rule support_row_metrics [OF r(1)]) (use assms(1) in \<open>simp_all add: registry_ok_def active_def o_def\<close>)
  then have d1: "distinct (map (\<lambda>s. (su_fact_id s, su_metric s)) (somes row))"
    by (auto simp: distinct_map inj_on_def)
  have d2: "distinct (map (\<lambda>s. (su_fact_id s, su_metric s)) (somes (concat rows)))"
    using Cons.IH rest Cons.prems(1) by simp
  have here: "su_fact_id s = fr_fact_id f" if "s \<in> set (somes row)" for s
    using map_res_set [OF r(1), of "Some s"] that by (auto simp: support_for_Some mk_support_def)
  have there: "su_fact_id s \<in> fr_fact_id ` set facts" if "s \<in> set (somes (concat rows))" for s
    using resolve_supports_mem [OF rest, of s] that by (auto simp: mk_support_def)
  have "fr_fact_id f \<notin> fr_fact_id ` set facts" using Cons.prems(1) by simp
  then have "(\<lambda>s. (su_fact_id s, su_metric s)) ` set (somes row) \<inter>
    (\<lambda>s. (su_fact_id s, su_metric s)) ` set (somes (concat rows)) = {}"
    using here there by (fastforce simp: image_iff)
  then show ?case using d1 d2 r(3) by simp
qed

section \<open>Candidates of a slot\<close>

lemma fact_by_id_Some:
  "distinct (map fr_fact_id facts) \<Longrightarrow> fact_by_id facts i = Some f \<longleftrightarrow> f \<in> set facts \<and> fr_fact_id f = i"
proof -
  assume d: "distinct (map fr_fact_id facts)"
  then have "distinct (map fst (rev (map (\<lambda>f. (fr_fact_id f, f)) facts)))"
    by (simp add: rev_map [symmetric] o_def)
  then show ?thesis by (auto simp: fact_by_id_def)
qed

lemma with_facts_mem:
  "distinct (map fr_fact_id facts) \<Longrightarrow>
     (s, f) \<in> set (with_facts facts sups) \<longleftrightarrow> s \<in> set sups \<and> f \<in> set facts \<and> fr_fact_id f = su_fact_id s"
proof -
  assume d: "distinct (map fr_fact_id facts)"
  have "(s, f) \<in> set (with_facts facts sups) \<longleftrightarrow>
    (\<exists>s'\<in>set sups. map_option (\<lambda>f. (s', f)) (fact_by_id facts (su_fact_id s')) = Some (s, f))"
    by (simp add: with_facts_def image_iff eq_commute [of "Some (s, f)"])
  then show ?thesis by (auto simp: fact_by_id_Some [OF d])
qed

lemma with_facts_ids:
  assumes "distinct (map fr_fact_id facts)" and "distinct (map su_fact_id sups)"
  shows "distinct (map (\<lambda>x. fr_fact_id (snd x)) (with_facts facts sups))"
  using assms(2)
proof (induction sups)
  case (Cons s sups)
  have IH: "distinct (map (\<lambda>x. fr_fact_id (snd x)) (with_facts facts sups))" using Cons by simp
  have ids: "fr_fact_id (snd x) \<in> su_fact_id ` set sups" if "x \<in> set (with_facts facts sups)" for x
    using that with_facts_mem [OF assms(1), of "fst x" "snd x" sups] by auto
  show ?case
  proof (cases "fact_by_id facts (su_fact_id s)")
    case (Some f)
    then have "fr_fact_id f = su_fact_id s" using fact_by_id_Some [OF assms(1)] by simp
    then show ?thesis using Some IH ids Cons.prems by (fastforce simp: with_facts_def)
  qed (use IH in \<open>simp add: with_facts_def\<close>)
qed (simp add: with_facts_def)

lemma supports_of_ids:
  "distinct (map (\<lambda>s. (su_fact_id s, su_metric s)) sups) \<Longrightarrow> distinct (map su_fact_id (supports_of sups metric rel))"
  by (induction sups) (auto simp: supports_of_def)

text \<open>
  What a slot asks of a fact, said without the code's order of tests: an undimensioned valid number in
  pure US dollars of the filer itself, reported for the metric's period.
\<close>

definition slot_ready :: "fact_row \<Rightarrow> string \<Rightarrow> reporting_period \<Rightarrow> period_type \<Rightarrow> bool" where
  "slot_ready f cik p pt \<longleftrightarrow>
     \<not> fr_has_dimensions f \<and> fr_value_status f = ''valid'' \<and> \<not> fr_is_nil f \<and> fr_resolved_numeric f \<noteq> None \<and>
     fr_entity_scheme f = SEC_CIK_SCHEME \<and>
     (\<exists>c. validate_cik (fr_entity_identifier f) = Inr c \<and> validate_cik cik = Inr c) \<and>
     is_pure_usd (fr_unit_measures f) \<and>
     period_matches_metric pt p (fr_period_kind f) (fr_instant_lexical f) (fr_start_lexical f) (fr_end_lexical f)"

lemma fact_qualifies_slot_iff: "fact_qualifies_slot f cik p pt = Inr True \<longleftrightarrow> slot_ready f cik p pt"
  by (auto simp: fact_qualifies_slot_def slot_ready_def entity_matches_def result_simps)

text \<open>A fact that may back the observation: it is ready for the slot and an exact decision covers it.\<close>

definition slot_fact ::
  "decision_registry \<Rightarrow> string \<Rightarrow> string \<Rightarrow> reporting_period \<Rightarrow> period_type \<Rightarrow> decision_relation \<Rightarrow> fact_row \<Rightarrow> bool" where
  "slot_fact reg metric cik p pt rel f =
     (slot_ready f cik p pt \<and>
      (\<exists>r\<in>set (active reg). decides reg cik f r \<and> dr_metric r = metric \<and> dr_relation r = rel))"

definition candidate ::
  "decision_registry \<Rightarrow> string \<Rightarrow> string \<Rightarrow> string \<Rightarrow> reporting_period \<Rightarrow> period_type \<Rightarrow> decision_relation \<Rightarrow>
     support \<Rightarrow> fact_row \<Rightarrow> bool" where
  "candidate reg metric acc cik p pt rel s f =
     (fact_qualifies_slot f cik p pt = Inr True \<and>
      (\<exists>r q. decides reg cik f r \<and> dr_metric r = metric \<and> dr_relation r = rel \<and>
         clark_qname (fr_concept_namespace f) (fr_concept_local_name f) = Inr q \<and> s = mk_support acc q f r))"

lemma slot_fact_candidate:
  "slot_fact reg metric cik p pt rel f \<longleftrightarrow> (\<exists>s. candidate reg metric acc cik p pt rel s f)"
  using concept_matches_clark by (auto simp: slot_fact_def candidate_def decides_def fact_qualifies_slot_iff) blast

lemma candidate_mem:
  assumes "distinct (map fr_fact_id facts)" and "resolve_supports facts reg acc cik = Inr sups"
  shows "(s, f) \<in> set (with_facts facts (supports_of sups metric rel)) \<and> fact_qualifies_slot f cik p pt = Inr True \<longleftrightarrow>
    f \<in> set facts \<and> candidate reg metric acc cik p pt rel s f"
proof -
  have inj: "g = f" if "g \<in> set facts" "f \<in> set facts" "fr_fact_id g = fr_fact_id f" for g
    using assms(1) that by (auto simp: distinct_map inj_on_def)
  show ?thesis
    unfolding with_facts_mem [OF assms(1)]
    using resolve_supports_mem [OF assms(2), of s] inj
    by (auto simp: supports_of_def candidate_def mk_support_def)
qed

lemma candidates_of_spec:
  assumes "distinct (map fr_fact_id facts)" and "registry_ok reg"
    and "resolve_supports facts reg acc cik = Inr sups"
    and "candidates_of cik p pt facts (supports_of sups metric rel) = Inr cands"
  shows "set cands = {(s, f). f \<in> set facts \<and> candidate reg metric acc cik p pt rel s f}"
    and "distinct (map (\<lambda>x. fr_fact_id (snd x)) cands)"
proof -
  have c: "cands = filter (\<lambda>(s, f). fact_qualifies_slot f cik p pt = Inr True)
      (with_facts facts (supports_of sups metric rel))"
    using filter_res_Inr [OF assms(4) [unfolded candidates_of_def]] by (simp add: case_prod_unfold)
  then show "set cands = {(s, f). f \<in> set facts \<and> candidate reg metric acc cik p pt rel s f}"
    using candidate_mem [OF assms(1,3), of _ _ metric rel p pt] by auto
  show "distinct (map (\<lambda>x. fr_fact_id (snd x)) cands)"
    unfolding c
    by (intro distinct_map_filter with_facts_ids assms(1) supports_of_ids resolve_supports_distinct
        [OF assms(2,1,3)])
qed

end
