(* ===== verification/Select_Props.thy ===== *)
theory Select_Props
  imports Select
begin

text \<open>
  Properties of observation selection: where a published value comes from, which facts and decisions
  it cites, when an observation is missing, unsupported or a conflict, and that the order of the
  source rows does not matter.
\<close>

section \<open>Groups of one concept\<close>

definition occ_of :: "support \<times> fact_row \<Rightarrow> numeric_fact_occurrence" where
  "occ_of x = \<lparr>occ_fact_id = fr_fact_id (snd x), occ_value = the (fr_resolved_numeric (snd x)),
     occ_decimals = fr_decimals (snd x)\<rparr>"

definition ref_of :: "support \<times> fact_row \<Rightarrow> support_ref" where
  "ref_of x = \<lparr>sr_fact_id = fr_fact_id (snd x), sr_decision_id = su_decision_id (fst x), sr_relation = Rel_exact,
     sr_tier = 1, sr_source_qname = su_source_qname (fst x), sr_application_method = su_application_method (fst x)\<rparr>"

abbreviation cand_ids :: "(support \<times> fact_row) list \<Rightarrow> int list" where
  "cand_ids \<equiv> map (\<lambda>x. fr_fact_id (snd x))"

definition numeric_cands :: "(support \<times> fact_row) list \<Rightarrow> bool" where
  "numeric_cands cs = (\<forall>x\<in>set cs. fr_resolved_numeric (snd x) \<noteq> None)"

lemma occurrences_map: "numeric_cands cs \<Longrightarrow> occurrences cs = map occ_of cs"
  by (induction cs) (auto simp: occurrences_def numeric_cands_def occ_of_def)

lemma occ_ids [simp]: "map (\<lambda>x. occ_fact_id (occ_of x)) cs = cand_ids cs"
  by (simp add: occ_of_def)

lemma qualifies_numeric: "fact_qualifies_slot f cik p pt = Inr True \<Longrightarrow> fr_resolved_numeric f \<noteq> None"
  by (auto simp: fact_qualifies_slot_def split: if_splits)

lemma support_refs_eq:
  assumes "distinct (cand_ids grp)"
  shows "set (support_refs grp ids) = ref_of ` {x \<in> set grp. fr_fact_id (snd x) \<in> set ids}"
    and "set ids \<subseteq> set (cand_ids grp) \<Longrightarrow> map sr_fact_id (support_refs grp ids) = ids"
proof -
  let ?m = "map_of (rev (map (\<lambda>(s, f). (fr_fact_id f, s)) grp))"
  have d: "distinct (map fst (rev (map (\<lambda>(s, f). (fr_fact_id f, s)) grp)))"
    using assms by (simp add: rev_map [symmetric] o_def case_prod_unfold)
  have m: "?m i = Some s \<longleftrightarrow> (\<exists>f. (s, f) \<in> set grp \<and> fr_fact_id f = i)" for i s
    using d by auto
  have "set (support_refs grp ids) = {ref_of (s, f) | s f. (s, f) \<in> set grp \<and> fr_fact_id f \<in> set ids}"
    unfolding support_refs_def Let_def set_eq_iff set_somes
    by (auto simp: image_iff eq_commute [of "Some _"] m ref_of_def)
  then show "set (support_refs grp ids) = ref_of ` {x \<in> set grp. fr_fact_id (snd x) \<in> set ids}"
    by (force simp: image_iff)
  show "map sr_fact_id (support_refs grp ids) = ids" if "set ids \<subseteq> set (cand_ids grp)"
    using that
  proof (induction ids)
    case (Cons i ids)
    then obtain s f where "(s, f) \<in> set grp" "fr_fact_id f = i" by force
    then have "?m i = Some s" using m by blast
    then show ?case using Cons by (simp add: support_refs_def)
  qed (simp add: support_refs_def)
qed

definition reduced_to :: "(support \<times> fact_row) list \<Rightarrow> string \<Rightarrow> survivor \<Rightarrow> bool" where
  "reduced_to cands q sv = (\<exists>r. oim_reduce_group (occurrences (group_of cands q)) = Inr (Some r) \<and>
     sv = (survivor_value r, survivor_decimals r, support_refs (group_of cands q) (resolved_fact_ids r)))"

lemma reduce_groups_Cons:
  "reduce_groups cands (q # qs) = Inr (Some svs) \<longleftrightarrow>
     (\<exists>sv rest. svs = sv # rest \<and> reduced_to cands q sv \<and> reduce_groups cands qs = Inr (Some rest))"
  by (auto simp: result_simps reduced_to_def split: option.splits)

lemma reduce_groups_Some: "reduce_groups cands qs = Inr (Some svs) \<longleftrightarrow> list_all2 (reduced_to cands) qs svs"
proof (induction qs arbitrary: svs)
  case (Cons q qs)
  show ?case unfolding reduce_groups_Cons Cons.IH list_all2_Cons1 by blast
qed auto

lemma group_of_mem: "x \<in> set (group_of cands q) \<longleftrightarrow> x \<in> set cands \<and> su_source_qname (fst x) = q"
  by (auto simp: group_of_def)

lemma group_of_ids: "distinct (cand_ids cands) \<Longrightarrow> distinct (cand_ids (group_of cands q))"
  by (simp add: group_of_def distinct_map_filter)

text \<open>What the reduction of one group leaves: the survivor is one of its facts, of the best rank.\<close>

lemma group_survivor:
  assumes "oim_reduce_group (occurrences (group_of cands q)) = Inr (Some r)"
    and "numeric_cands cands" and "distinct (cand_ids cands)"
  shows "set (support_refs (group_of cands q) (resolved_fact_ids r)) = ref_of ` set (group_of cands q)"
    and "map sr_fact_id (support_refs (group_of cands q) (resolved_fact_ids r)) = sort (cand_ids (group_of cands q))"
    and "\<exists>x\<in>set (group_of cands q). fr_resolved_numeric (snd x) = Some (survivor_value r) \<and>
           fr_decimals (snd x) = survivor_decimals r \<and>
           (\<forall>y\<in>set (group_of cands q). \<exists>a b. survivor_rank (fr_decimals (snd x)) (fr_fact_id (snd x)) = Inr a \<and>
              survivor_rank (fr_decimals (snd y)) (fr_fact_id (snd y)) = Inr b \<and> a \<le> b)"
proof -
  let ?g = "group_of cands q"
  have num: "numeric_cands ?g" using assms(2) by (simp add: numeric_cands_def group_of_mem)
  have occ: "occurrences ?g = map occ_of ?g" by (rule occurrences_map [OF num])
  have d: "distinct (cand_ids ?g)" by (rule group_of_ids [OF assms(3)])
  obtain ps s p where R: "parse_all (occurrences ?g) = Inr ps" "(s, p) \<in> set ps" "min_by prank ps = Some (s, p)"
    "survivor_value r = occ_value s" "survivor_decimals r = occ_decimals s"
    "resolved_fact_ids r = sort (map occ_fact_id (occurrences ?g))"
    by (rule oim_reduce_Some [OF assms(1)]) blast
  have ids: "resolved_fact_ids r = sort (cand_ids ?g)" using R(6) by (simp add: occ o_def)
  show "set (support_refs ?g (resolved_fact_ids r)) = ref_of ` set ?g"
    unfolding support_refs_eq(1) [OF d] ids by (rule arg_cong [of _ _ "image ref_of"]) auto
  show "map sr_fact_id (support_refs ?g (resolved_fact_ids r)) = sort (cand_ids ?g)"
    unfolding ids by (rule support_refs_eq(2) [OF d]) simp
  obtain x where x: "x \<in> set ?g" "s = occ_of x"
    using parse_all_set [OF R(1)] R(2) by (auto simp: occ)
  have "\<exists>a b. survivor_rank (fr_decimals (snd x)) (fr_fact_id (snd x)) = Inr a \<and>
      survivor_rank (fr_decimals (snd y)) (fr_fact_id (snd y)) = Inr b \<and> a \<le> b" if y: "y \<in> set ?g" for y
  proof -
    have "occ_of y \<in> set (occurrences ?g)" using y by (simp add: occ)
    then obtain q' where q': "(occ_of y, q') \<in> set ps" "parse_decimals (occ_decimals (occ_of y)) = Inr q'"
      by (rule fact_precision [OF R(1)])
    have "prank (s, p) \<le> prank (occ_of y, q')" using min_by_least [OF R(3)] q'(1) by blast
    moreover have "parse_decimals (occ_decimals s) = Inr p" using parse_all_set [OF R(1)] R(2) by auto
    ultimately show ?thesis
      using q'(2) x(2) by (simp add: survivor_rank_def prank_def occ_of_def)
  qed
  moreover have "fr_resolved_numeric (snd x) = Some (survivor_value r)" "fr_decimals (snd x) = survivor_decimals r"
    using x num R(4,5) by (auto simp: numeric_cands_def occ_of_def)
  ultimately show "\<exists>x\<in>set ?g. fr_resolved_numeric (snd x) = Some (survivor_value r) \<and>
           fr_decimals (snd x) = survivor_decimals r \<and>
           (\<forall>y\<in>set ?g. \<exists>a b. survivor_rank (fr_decimals (snd x)) (fr_fact_id (snd x)) = Inr a \<and>
              survivor_rank (fr_decimals (snd y)) (fr_fact_id (snd y)) = Inr b \<and> a \<le> b)"
    by (intro bexI [OF _ x(1)] conjI ballI)
qed

section \<open>Publishing\<close>

lemma publish_all_equal:
  assumes "publish base svs = Inr ob" and "\<forall>a\<in>set svs. \<forall>b\<in>set svs. dec_eq (fst a) (fst b)"
  shows "\<exists>sv\<in>set svs. ob = published_observation base svs sv"
proof -
  let ?ranks = "map_res (\<lambda>sv. res_bind (survivor_key sv) (\<lambda>k. Inr (k, sv))) svs"
  have "\<not> (\<exists>a\<in>set svs. \<exists>b\<in>set svs. \<not> dec_eq (fst a) (fst b))" using assms(2) by blast
  then have "publish base svs = res_bind ?ranks (\<lambda>ranked. case min_by fst ranked of
          None \<Rightarrow> Inl (ValueError ''min() arg is an empty sequence'')
        | Some (k, published) \<Rightarrow> Inr (published_observation base svs published))"
    unfolding publish_def by (rule if_not_P)
  then have "\<exists>ranked. ?ranks = Inr ranked \<and> (case min_by fst ranked of
          None \<Rightarrow> Inl (ValueError ''min() arg is an empty sequence'')
        | Some (k, published) \<Rightarrow> Inr (published_observation base svs published)) = Inr ob"
    using assms(1) unfolding res_bind_Inr_iff [symmetric] by simp
  then obtain ranked k sv where R: "?ranks = Inr ranked" "min_by fst ranked = Some (k, sv)"
    "ob = published_observation base svs sv" by (auto split: option.splits)
  have "(k, sv) \<in> set ranked" using min_by_least [OF R(2)] by simp
  then obtain x where "x \<in> set svs" "res_bind (survivor_key x) (\<lambda>k. Inr (k, x)) = Inr (k, sv)"
    using map_res_set [OF R(1)] by blast
  then have "sv \<in> set svs" by (auto simp: res_bind_Inr_iff)
  then show ?thesis using R(3) by blast
qed

lemma publish_cases:
  assumes "publish base svs = Inr ob"
  obtains (conflict) "ob = base\<lparr>ob_status := Ob_conflict\<rparr>" "\<exists>a\<in>set svs. \<exists>b\<in>set svs. dval (fst a) \<noteq> dval (fst b)"
  | (published) sv where "sv \<in> set svs" "ob = published_observation base svs sv"
      "\<forall>a\<in>set svs. \<forall>b\<in>set svs. dval (fst a) = dval (fst b)"
proof (cases "\<forall>a\<in>set svs. \<forall>b\<in>set svs. dec_eq (fst a) (fst b)")
  case eq: True
  obtain sv where sv: "sv \<in> set svs" "ob = published_observation base svs sv"
    by (rule bexE [OF publish_all_equal [OF assms eq]])
  show ?thesis by (rule published [OF sv]) (use eq in \<open>simp only: dec_eq_iff\<close>)
next
  case False
  then have ne: "\<exists>a\<in>set svs. \<exists>b\<in>set svs. \<not> dec_eq (fst a) (fst b)" by (simp only: ball_simps not_not)
  have "publish base svs = Inr (base\<lparr>ob_status := Ob_conflict\<rparr>)" unfolding publish_def by (rule if_P [OF ne])
  then have "ob = base\<lparr>ob_status := Ob_conflict\<rparr>" using assms by simp
  then show ?thesis by (rule conflict) (use ne in \<open>simp only: dec_eq_iff\<close>)
qed

lemma published_observation_simps [simp]:
  "ob_status (published_observation base svs sv) = Ob_value"
  "ob_numeric (published_observation base svs sv) = Some (fst sv)"
  "ob_decimals (published_observation base svs sv) = fst (snd sv)"
  "ob_decision_ids (published_observation base svs sv) =
     sorted_list_of_set (sr_decision_id ` (\<Union>(_, _, refs)\<in>set svs. set refs))"
  "ob_fact_ids (published_observation base svs sv) =
     sorted_list_of_set (sr_fact_id ` (\<Union>(_, _, refs)\<in>set svs. set refs))"
  "set (ob_supports (published_observation base svs sv)) = (\<Union>(_, _, refs)\<in>set svs. set refs)"
proof -
  have u: "set (concat (map (\<lambda>(_, _, refs). refs) svs)) = (\<Union>(_, _, refs)\<in>set svs. set refs)" by auto
  show "ob_decision_ids (published_observation base svs sv) =
     sorted_list_of_set (sr_decision_id ` (\<Union>(_, _, refs)\<in>set svs. set refs))"
    "ob_fact_ids (published_observation base svs sv) =
     sorted_list_of_set (sr_fact_id ` (\<Union>(_, _, refs)\<in>set svs. set refs))"
    "set (ob_supports (published_observation base svs sv)) = (\<Union>(_, _, refs)\<in>set svs. set refs)"
    unfolding u [symmetric] by (simp_all add: published_observation_def Let_def)
qed (simp_all add: published_observation_def Let_def)

section \<open>The outcome of a selection\<close>

definition no_applicable_decision :: "decision_registry \<Rightarrow> string \<Rightarrow> string \<Rightarrow> bool" where
  "no_applicable_decision reg metric cik = (exact_decisions reg metric \<noteq> [] \<and>
     (\<forall>r\<in>set (exact_decisions reg metric). decision_applies_to_filing r cik \<noteq> Inr True))"

abbreviation qnames_of :: "(support \<times> fact_row) list \<Rightarrow> string list" where
  "qnames_of cands \<equiv> sort (remdups (map (su_source_qname \<circ> fst) cands))"

definition of_slot :: "string \<Rightarrow> string \<Rightarrow> string \<Rightarrow> observation \<Rightarrow> bool" where
  "of_slot metric cik acc ob = (ob_metric ob = metric \<and> ob_cik ob = cik \<and> ob_accession ob = acc)"

lemma of_slot_base [simp]:
  "of_slot metric cik acc (base_observation metric cik acc period avail pt)"
  "of_slot metric cik acc (ob\<lparr>ob_status := s\<rparr>) = of_slot metric cik acc ob"
  "of_slot metric cik acc (ob\<lparr>ob_reason := r\<rparr>) = of_slot metric cik acc ob"
  "of_slot metric cik acc (published_observation ob svs sv) = of_slot metric cik acc ob"
  by (simp_all add: of_slot_def base_observation_def published_observation_def Let_def)

text \<open>The cases of \<^verbatim>\<open>select_metric\<close> after its guards, one per return statement.\<close>

lemma select_metric_cases:
  assumes "select_metric metric form cik acc period facts sups reg avail pt = Inr ob"
  obtains (form) "form \<notin> set ANNUAL_FORMS" "ob_status ob = Ob_unsupported" "ob_reason ob = Some Wrong_form"
      "of_slot metric cik acc ob"
  | (scope) "form \<in> set ANNUAL_FORMS" "no_applicable_decision reg metric cik" "ob_status ob = Ob_unsupported"
      "ob_reason ob = Some Decision_scope" "of_slot metric cik acc ob"
  | (missing) p broader where "form \<in> set ANNUAL_FORMS" "period = Some p" "\<not> no_applicable_decision reg metric cik"
      "candidates_of cik p pt facts (supports_of sups metric Rel_exact) = Inr []"
      "broader_qualified cik p pt facts (supports_of sups metric Rel_broader) = Inr broader"
      "ob_status ob = Ob_missing" "ob_reason ob = (if broader then Some Broader_only else None)"
      "of_slot metric cik acc ob"
  | (conflict) p cands where "form \<in> set ANNUAL_FORMS" "period = Some p" "\<not> no_applicable_decision reg metric cik"
      "candidates_of cik p pt facts (supports_of sups metric Rel_exact) = Inr cands" "cands \<noteq> []"
      "reduce_groups cands (qnames_of cands) = Inr None" "ob_status ob = Ob_conflict" "ob_reason ob = None"
      "of_slot metric cik acc ob"
  | (published) p cands svs where "form \<in> set ANNUAL_FORMS" "period = Some p" "\<not> no_applicable_decision reg metric cik"
      "candidates_of cik p pt facts (supports_of sups metric Rel_exact) = Inr cands" "cands \<noteq> []"
      "reduce_groups cands (qnames_of cands) = Inr (Some svs)"
      "publish (base_observation metric cik acc period avail pt) svs = Inr ob"
proof (cases "form \<in> set ANNUAL_FORMS")
  case False
  then show ?thesis using assms form by (auto simp: select_metric_def)
next
  case True
  then have nf: "\<not> form \<notin> set ANNUAL_FORMS" by simp
  obtain p where p: "period = Some p"
    using assms True by (cases period) (auto simp: select_metric_def)
  obtain app where app: "filter_res (\<lambda>r. decision_applies_to_filing r cik) (exact_decisions reg metric) = Inr app"
    using assms True p by (auto simp: select_metric_def Let_def result_simps)
  have na: "exact_decisions reg metric \<noteq> [] \<and> app = [] \<longleftrightarrow> no_applicable_decision reg metric cik"
    using filter_res_Inr [OF app] by (auto simp: no_applicable_decision_def filter_empty_conv)
  note sel = assms [unfolded select_metric_def Let_def if_not_P [OF nf] p option.case app res_bind.simps na]
  show ?thesis
  proof (cases "no_applicable_decision reg metric cik")
    case na: True
    then show ?thesis using sel by (intro scope True) auto
  next
    case na: False
    then obtain cands broader where c:
      "candidates_of cik p pt facts (supports_of sups metric Rel_exact) = Inr cands"
      "broader_qualified cik p pt facts (supports_of sups metric Rel_broader) = Inr broader"
      using sel by (auto simp: result_simps)
    note sel' = sel [unfolded c res_bind.simps if_not_P [OF na]]
    show ?thesis
    proof (cases "cands = []")
      case ce: True
      then show ?thesis using sel' missing [OF True p na, of broader] c by auto
    next
      case ce: False
      then obtain red where red: "reduce_groups cands (qnames_of cands) = Inr red"
        using sel' by (auto simp: result_simps)
      show ?thesis
      proof (cases red)
        case None
        then have "base_observation metric cik acc (Some p) avail pt\<lparr>ob_status := Ob_conflict, ob_reason := None\<rparr> = ob"
          using red sel' ce by simp
        then show ?thesis using red None by (intro conflict [OF True p na c(1) ce]) auto
      next
        case (Some svs)
        then show ?thesis using published [OF True p na c(1) ce, of svs] red sel' ce p by simp
      qed
    qed
  qed
qed

lemma publish_slot: "publish base svs = Inr ob \<Longrightarrow> of_slot metric cik acc ob = of_slot metric cik acc base"
  by (erule publish_cases) simp_all

lemma select_slot: "select_metric metric form cik acc period facts sups reg avail pt = Inr ob \<Longrightarrow> of_slot metric cik acc ob"
  by (erule select_metric_cases) (simp_all add: publish_slot)

lemma list_all2_left: "list_all2 P xs ys \<Longrightarrow> x \<in> set xs \<Longrightarrow> \<exists>y\<in>set ys. P x y"
  by (induction xs ys rule: list_all2_induct) auto

lemma list_all2_right: "list_all2 P xs ys \<Longrightarrow> y \<in> set ys \<Longrightarrow> \<exists>x\<in>set xs. P x y"
  by (induction xs ys rule: list_all2_induct) auto

text \<open>Survivors and their references, for candidates that are numeric and have distinct fact ids.\<close>

lemma survivors_spec:
  assumes red: "reduce_groups cands (qnames_of cands) = Inr (Some svs)"
    and num: "numeric_cands cands" and d: "distinct (cand_ids cands)"
  shows survivors_refs: "(\<Union>(_, _, refs)\<in>set svs. set refs) = ref_of ` set cands"
    and survivors_facts: "sv \<in> set svs \<Longrightarrow> \<exists>x\<in>set cands. fr_resolved_numeric (snd x) = Some (fst sv) \<and>
      fr_decimals (snd x) = fst (snd sv)"
    and survivors_cover: "y \<in> set cands \<Longrightarrow> \<exists>sv\<in>set svs. \<exists>x\<in>set cands.
      su_source_qname (fst x) = su_source_qname (fst y) \<and> fr_resolved_numeric (snd x) = Some (fst sv) \<and>
      (\<exists>a b. survivor_rank (fr_decimals (snd x)) (fr_fact_id (snd x)) = Inr a \<and>
         survivor_rank (fr_decimals (snd y)) (fr_fact_id (snd y)) = Inr b \<and> a \<le> b)"
proof -
  have all: "list_all2 (reduced_to cands) (qnames_of cands) svs" using red by (simp only: reduce_groups_Some)
  have one: "\<exists>q. reduced_to cands q sv" if "sv \<in> set svs" for sv
    using list_all2_right [OF all that] by blast
  have grp: "\<exists>sv\<in>set svs. reduced_to cands (su_source_qname (fst y)) sv" if "y \<in> set cands" for y
    using list_all2_left [OF all, of "su_source_qname (fst y)"] that by force
  have refs: "set (snd (snd sv)) = ref_of ` set (group_of cands q)" if "reduced_to cands q sv" for q sv
    using that group_survivor(1) [OF _ num d] by (auto simp: reduced_to_def)
  show "(\<Union>(_, _, refs)\<in>set svs. set refs) = ref_of ` set cands"
  proof
    show "(\<Union>(_, _, refs)\<in>set svs. set refs) \<subseteq> ref_of ` set cands"
    proof
      fix r assume "r \<in> (\<Union>(_, _, refs)\<in>set svs. set refs)"
      then obtain sv where sv: "sv \<in> set svs" "r \<in> set (snd (snd sv))" by force
      then obtain q where "reduced_to cands q sv" using one by blast
      then show "r \<in> ref_of ` set cands" using refs [of q sv] sv(2) by (auto simp: group_of_mem)
    qed
    show "ref_of ` set cands \<subseteq> (\<Union>(_, _, refs)\<in>set svs. set refs)"
    proof
      fix r assume "r \<in> ref_of ` set cands"
      then obtain y where y: "y \<in> set cands" "r = ref_of y" by blast
      then obtain sv where sv: "sv \<in> set svs" "reduced_to cands (su_source_qname (fst y)) sv" using grp by blast
      then have "r \<in> set (snd (snd sv))" using refs [OF sv(2)] y by (simp add: group_of_mem)
      then show "r \<in> (\<Union>(_, _, refs)\<in>set svs. set refs)" using sv(1) by (force simp: case_prod_unfold)
    qed
  qed
  show "\<exists>x\<in>set cands. fr_resolved_numeric (snd x) = Some (fst sv) \<and> fr_decimals (snd x) = fst (snd sv)"
    if "sv \<in> set svs"
    using one [OF that] group_survivor(3) [OF _ num d] by (fastforce simp: reduced_to_def group_of_mem)
  show "\<exists>sv\<in>set svs. \<exists>x\<in>set cands.
      su_source_qname (fst x) = su_source_qname (fst y) \<and> fr_resolved_numeric (snd x) = Some (fst sv) \<and>
      (\<exists>a b. survivor_rank (fr_decimals (snd x)) (fr_fact_id (snd x)) = Inr a \<and>
         survivor_rank (fr_decimals (snd y)) (fr_fact_id (snd y)) = Inr b \<and> a \<le> b)" if y: "y \<in> set cands"
  proof -
    obtain sv r where sv: "sv \<in> set svs"
      "oim_reduce_group (occurrences (group_of cands (su_source_qname (fst y)))) = Inr (Some r)"
      "fst sv = survivor_value r" using grp [OF y] by (auto simp: reduced_to_def)
    have yg: "y \<in> set (group_of cands (su_source_qname (fst y)))" using y by (simp add: group_of_mem)
    obtain x where x: "x \<in> set (group_of cands (su_source_qname (fst y)))"
      "fr_resolved_numeric (snd x) = Some (survivor_value r)"
      "\<exists>a b. survivor_rank (fr_decimals (snd x)) (fr_fact_id (snd x)) = Inr a \<and>
         survivor_rank (fr_decimals (snd y)) (fr_fact_id (snd y)) = Inr b \<and> a \<le> b"
      using group_survivor(3) [OF sv(2) num d] yg by blast
    show ?thesis
      by (rule bexI [OF _ sv(1)], rule bexI [of _ x]) (use x sv(3) in \<open>simp_all add: group_of_mem\<close>)
  qed
qed

lemma candidates_numeric:
  "set cands = {(s, f). f \<in> set facts \<and> candidate reg metric acc cik p pt rel s f} \<Longrightarrow> numeric_cands cands"
  using qualifies_numeric by (auto simp: numeric_cands_def candidate_def)

lemma selected_candidates:
  assumes "load_decisions sha yml files metrics fatal = Inr reg"
    and "resolve_supports facts reg acc cik = Inr sups" and "distinct (map fr_fact_id facts)"
    and "candidates_of cik p pt facts (supports_of sups metric rel) = Inr cands"
  shows "set cands = {(s, f). f \<in> set facts \<and> candidate reg metric acc cik p pt rel s f} \<and>
    distinct (cand_ids cands) \<and> numeric_cands cands"
  using candidates_of_spec [OF assms(3) load_decisions_registry_ok [OF assms(1)] assms(2,4)]
    candidates_numeric by blast

lemma candidate_fact: "candidate reg metric acc cik p pt rel s f \<Longrightarrow> slot_fact reg metric cik p pt rel f"
  using slot_fact_candidate by blast

section \<open>The order of the rows does not matter\<close>

lemma map_of_set_eq:
  assumes "distinct (map fst xs)" "distinct (map fst ys)" "set xs = set ys"
  shows "map_of xs = map_of ys"
  by (rule ext) (metis assms map_of_eq_Some_iff not_Some_eq)

lemma distinct_map_perm: "mset xs = mset ys \<Longrightarrow> distinct (map f xs) \<Longrightarrow> distinct (map f ys)"
  using mset_eq_imp_distinct_iff [of "map f xs" "map f ys"] by simp

lemma map_of_rev_perm:
  assumes "mset xs = mset ys" and "distinct (map (fst \<circ> h) xs)"
  shows "map_of (rev (map h xs)) = map_of (rev (map h ys))"
proof (rule map_of_set_eq)
  have rev: "distinct (map fst (rev (map h zs))) = distinct (map (fst \<circ> h) zs)" for zs
    by (simp add: rev_map [symmetric] o_def)
  show "distinct (map fst (rev (map h xs)))" "distinct (map fst (rev (map h ys)))"
    unfolding rev using assms(2) distinct_map_perm [OF assms] by simp_all
  show "set (rev (map h xs)) = set (rev (map h ys))" using mset_eq_setD [OF assms(1)] by simp
qed

lemma fact_by_id_perm:
  "mset fs = mset gs \<Longrightarrow> distinct (map fr_fact_id fs) \<Longrightarrow> fact_by_id fs = fact_by_id gs"
  unfolding fact_by_id_def by (rule map_of_rev_perm) (simp_all add: o_def)

lemma mset_somes_map: "mset xs = mset ys \<Longrightarrow> mset (somes (map g xs)) = mset (somes (map g ys))"
proof -
  have "mset (somes zs) = image_mset the (filter_mset (\<lambda>z. z \<noteq> None) (mset zs))" for zs :: "'b option list"
    by (induction zs rule: somes.induct) auto
  moreover assume "mset xs = mset ys"
  ultimately show ?thesis by (simp add: mset_map)
qed

lemma support_refs_perm:
  assumes "mset g1 = mset g2" and "distinct (cand_ids g1)"
  shows "support_refs g1 ids = support_refs g2 ids"
proof -
  have "map_of (rev (map (\<lambda>(s, f). (fr_fact_id f, s)) g1)) = map_of (rev (map (\<lambda>(s, f). (fr_fact_id f, s)) g2))"
    by (rule map_of_rev_perm [OF assms(1)]) (use assms(2) in \<open>simp add: o_def case_prod_unfold\<close>)
  then show ?thesis by (simp add: support_refs_def)
qed

lemma reduce_groups_perm:
  assumes "mset c1 = mset c2" and "distinct (cand_ids c1)" and "numeric_cands c1"
  shows "reduce_groups c1 qs = reduce_groups c2 qs"
proof (induction qs)
  case (Cons q qs)
  let ?g1 = "group_of c1 q" and ?g2 = "group_of c2 q"
  have g: "mset ?g1 = mset ?g2" using assms(1) by (simp add: group_of_def)
  have d: "distinct (cand_ids ?g1)" by (rule group_of_ids [OF assms(2)])
  have n: "numeric_cands ?g1" "numeric_cands ?g2"
    using assms(3) mset_eq_setD [OF assms(1)] by (simp_all add: numeric_cands_def group_of_mem)
  have "mset (occurrences ?g1) = mset (occurrences ?g2)"
    using g by (simp add: occurrences_map n)
  moreover have "distinct (map occ_fact_id (occurrences ?g1))"
    using d by (simp add: occurrences_map n o_def)
  ultimately have O: "case oim_reduce_group (occurrences ?g1) of
      Inl e \<Rightarrow> oim_reduce_group (occurrences ?g2) = Inl e
    | Inr None \<Rightarrow> oim_reduce_group (occurrences ?g2) = Inr None
    | Inr (Some r) \<Rightarrow> (\<exists>r'. oim_reduce_group (occurrences ?g2) = Inr (Some r') \<and>
        survivor_value r' = survivor_value r \<and> survivor_decimals r' = survivor_decimals r \<and>
        survivor_fact_id r' = survivor_fact_id r \<and> resolved_fact_ids r' = resolved_fact_ids r \<and>
        dval (lo (consistent_interval r')) = dval (lo (consistent_interval r)) \<and>
        dval (hi (consistent_interval r')) = dval (hi (consistent_interval r)))"
    by (rule oim_reduce_perm)
  show ?case
  proof (cases "oim_reduce_group (occurrences ?g1)")
    case (Inl e)
    then show ?thesis using O by simp
  next
    case (Inr o1)
    then show ?thesis
    proof (cases o1)
      case None
      then show ?thesis using O Inr by simp
    next
      case (Some r)
      then obtain r' where "oim_reduce_group (occurrences ?g2) = Inr (Some r')"
        "survivor_value r' = survivor_value r" "survivor_decimals r' = survivor_decimals r"
        "resolved_fact_ids r' = resolved_fact_ids r" using O Inr by auto
      then show ?thesis
        using Inr Some Cons.IH support_refs_perm [OF g d] by simp
    qed
  qed
qed simp

definition identified :: "fact_row list \<Rightarrow> string \<Rightarrow> bool" where
  "identified facts cik = (is_ok (validate_cik cik) \<and> list_all (\<lambda>f. fr_entity_scheme f = SEC_CIK_SCHEME \<longrightarrow>
     is_ok (validate_cik (fr_entity_identifier f))) facts)"

lemma qualifies_total:
  assumes "identified facts cik" and "f \<in> set facts"
  shows "fact_qualifies_slot f cik p pt = Inr (fact_qualifies_slot f cik p pt = Inr True)"
  using assms
  by (auto simp: identified_def list_all_iff is_ok_iff fact_qualifies_slot_def entity_matches_def)

lemma filters_total:
  assumes "identified facts cik" and "distinct (map fr_fact_id facts)"
  shows "candidates_of cik p pt facts ss =
      Inr (filter (\<lambda>x. fact_qualifies_slot (snd x) cik p pt = Inr True) (with_facts facts ss))"
    and "broader_qualified cik p pt facts ss =
      Inr (\<exists>x\<in>set (with_facts facts ss). fact_qualifies_slot (snd x) cik p pt = Inr True)"
proof -
  have m: "snd x \<in> set facts" if "x \<in> set (with_facts facts ss)" for x
    using that with_facts_mem [OF assms(2), of "fst x" "snd x" ss] by simp
  show "candidates_of cik p pt facts ss =
      Inr (filter (\<lambda>x. fact_qualifies_slot (snd x) cik p pt = Inr True) (with_facts facts ss))"
    unfolding candidates_of_def case_prod_unfold
    by (rule filter_res_total) (rule qualifies_total [OF assms(1) m])
  show "broader_qualified cik p pt facts ss =
      Inr (\<exists>x\<in>set (with_facts facts ss). fact_qualifies_slot (snd x) cik p pt = Inr True)"
    unfolding broader_qualified_def case_prod_unfold
    by (rule any_res_total) (rule qualifies_total [OF assms(1) m])
qed

lemma supports_perm:
  assumes "registry_ok reg" and "mset facts = mset facts'" and "distinct (map fr_fact_id facts)"
    and "resolve_supports facts reg acc cik = Inr sups" and "resolve_supports facts' reg acc cik = Inr sups'"
  shows "mset sups = mset sups'"
proof -
  have d': "distinct (map fr_fact_id facts')" by (rule distinct_map_perm [OF assms(2,3)])
  have "distinct sups" "distinct sups'"
    using resolve_supports_distinct [OF assms(1,3,4)] resolve_supports_distinct [OF assms(1) d' assms(5)]
    by (simp_all add: distinct_map)
  moreover have "set sups = set sups'"
    using resolve_supports_mem [OF assms(4)] resolve_supports_mem [OF assms(5)] mset_eq_setD [OF assms(2)]
    by (simp add: set_eq_iff)
  ultimately show ?thesis by (simp add: set_eq_iff_mset_eq_distinct)
qed

lemma with_facts_perm:
  assumes "mset facts = mset facts'" and "distinct (map fr_fact_id facts)" and "mset sups = mset sups'"
  shows "mset (with_facts facts (supports_of sups metric rel)) = mset (with_facts facts' (supports_of sups' metric rel))"
proof -
  have "mset (supports_of sups metric rel) = mset (supports_of sups' metric rel)"
    using assms(3) by (simp add: supports_of_def)
  then show ?thesis
    unfolding with_facts_def fact_by_id_perm [OF assms(1,2)] by (rule mset_somes_map)
qed

lemma qnames_perm: "mset c1 = mset c2 \<Longrightarrow> qnames_of c1 = qnames_of c2"
  by (metis mset_eq_setD set_map sorted_list_of_set_sort_remdups)

lemma select_perm:
  assumes "load_decisions sha yml files metrics fatal = Inr reg" and "identified facts cik"
    and "mset facts = mset facts'" and "distinct (map fr_fact_id facts)"
    and "resolve_supports facts reg acc cik = Inr sups" and "resolve_supports facts' reg acc cik = Inr sups'"
  shows "select_metric metric form cik acc period facts sups reg avail pt =
    select_metric metric form cik acc period facts' sups' reg avail pt"
proof -
  have id': "identified facts' cik"
    using assms(2) mset_eq_setD [OF assms(3)] by (simp add: identified_def list_all_iff)
  have d': "distinct (map fr_fact_id facts')" by (rule distinct_map_perm [OF assms(3,4)])
  have sups: "mset sups = mset sups'"
    by (rule supports_perm [OF load_decisions_registry_ok [OF assms(1)] assms(3-6)])
  note wf = with_facts_perm [OF assms(3,4) sups, of metric]
  define c1 where "c1 p = filter (\<lambda>x. fact_qualifies_slot (snd x) cik p pt = Inr True)
    (with_facts facts (supports_of sups metric Rel_exact))" for p
  define c2 where "c2 p = filter (\<lambda>x. fact_qualifies_slot (snd x) cik p pt = Inr True)
    (with_facts facts' (supports_of sups' metric Rel_exact))" for p
  have cands: "candidates_of cik p pt facts (supports_of sups metric Rel_exact) = Inr (c1 p)"
    "candidates_of cik p pt facts' (supports_of sups' metric Rel_exact) = Inr (c2 p)" for p
    by (simp_all only: filters_total [OF assms(2,4)] filters_total [OF id' d'] c1_def c2_def)
  have broader: "broader_qualified cik p pt facts (supports_of sups metric Rel_broader) =
    broader_qualified cik p pt facts' (supports_of sups' metric Rel_broader)" for p
    by (simp only: filters_total [OF assms(2,4)] filters_total [OF id' d'] mset_eq_setD [OF wf])
  have m: "mset (c1 p) = mset (c2 p)" for p using wf by (simp add: c1_def c2_def)
  have e: "c1 p = [] \<longleftrightarrow> c2 p = []" for p using m [of p] by (metis mset_zero_iff)
  note sel = selected_candidates [OF assms(1,5,4) cands(1)]
  have red: "reduce_groups (c1 p) (qnames_of (c1 p)) = reduce_groups (c2 p) (qnames_of (c2 p))" for p
    unfolding qnames_perm [OF m] using sel by (intro reduce_groups_perm m) simp_all
  show ?thesis
    unfolding select_metric_def Let_def cands broader res_bind.simps red e ..
qed

lemma select_value:
  assumes "load_decisions sha yml files metrics fatal = Inr reg"
    and "resolve_supports facts reg acc cik = Inr sups" and "distinct (map fr_fact_id facts)"
    and "select_metric metric form cik acc period facts sups reg avail pt = Inr ob" and "ob_status ob = Ob_value"
  shows "form \<in> set ANNUAL_FORMS \<and> (\<exists>p v. period = Some p \<and> ob_numeric ob = Some v \<and>
    (\<exists>f\<in>set facts. slot_fact reg metric cik p pt Rel_exact f \<and> fr_resolved_numeric f = Some v \<and>
       fr_decimals f = ob_decimals ob) \<and>
    (\<forall>g\<in>set facts. slot_fact reg metric cik p pt Rel_exact g \<longrightarrow>
       (\<exists>h\<in>set facts. slot_fact reg metric cik p pt Rel_exact h \<and>
          clark_qname (fr_concept_namespace h) (fr_concept_local_name h) =
            clark_qname (fr_concept_namespace g) (fr_concept_local_name g) \<and>
          (\<exists>w. fr_resolved_numeric h = Some w \<and> dval w = dval v) \<and>
          (\<exists>a b. survivor_rank (fr_decimals h) (fr_fact_id h) = Inr a \<and>
             survivor_rank (fr_decimals g) (fr_fact_id g) = Inr b \<and> a \<le> b))))"
  using assms(4)
proof (cases rule: select_metric_cases)
  case (published p cands svs)
  from selected_candidates [OF assms(1-3) published(4)]
  have C: "set cands = {(s, f). f \<in> set facts \<and> candidate reg metric acc cik p pt Rel_exact s f}"
    "numeric_cands cands" "distinct (cand_ids cands)" by simp_all
  note S = survivors_facts [OF published(6) C(2,3)] survivors_cover [OF published(6) C(2,3)]
  from published(7) show ?thesis
  proof (cases rule: publish_cases)
    case conflict
    then show ?thesis using assms(5) by simp
  next
    case pub: (published sv)
    obtain f where f: "f \<in> set facts" "slot_fact reg metric cik p pt Rel_exact f"
      "fr_resolved_numeric f = Some (fst sv)" "fr_decimals f = fst (snd sv)"
      using S(1) [OF pub(1)] C(1) candidate_fact by fastforce
    have cover: "\<exists>h\<in>set facts. slot_fact reg metric cik p pt Rel_exact h \<and>
          clark_qname (fr_concept_namespace h) (fr_concept_local_name h) =
            clark_qname (fr_concept_namespace g) (fr_concept_local_name g) \<and>
          (\<exists>w. fr_resolved_numeric h = Some w \<and> dval w = dval (fst sv)) \<and>
          (\<exists>a b. survivor_rank (fr_decimals h) (fr_fact_id h) = Inr a \<and>
             survivor_rank (fr_decimals g) (fr_fact_id g) = Inr b \<and> a \<le> b)"
      if g: "g \<in> set facts" "slot_fact reg metric cik p pt Rel_exact g" for g
    proof -
      obtain s where s: "candidate reg metric acc cik p pt Rel_exact s g"
        using g(2) slot_fact_candidate by blast
      then have "(s, g) \<in> set cands" using g(1) C(1) by simp
      from S(2) [OF this] obtain sv' t h where h: "sv' \<in> set svs" "(t, h) \<in> set cands"
        "su_source_qname t = su_source_qname s" "fr_resolved_numeric h = Some (fst sv')"
        "\<exists>a b. survivor_rank (fr_decimals h) (fr_fact_id h) = Inr a \<and>
             survivor_rank (fr_decimals g) (fr_fact_id g) = Inr b \<and> a \<le> b" by auto
      have t: "h \<in> set facts" "candidate reg metric acc cik p pt Rel_exact t h" using h(2) C(1) by auto
      have "clark_qname (fr_concept_namespace h) (fr_concept_local_name h) =
            clark_qname (fr_concept_namespace g) (fr_concept_local_name g)"
        using s t(2) h(3) by (auto simp: candidate_def mk_support_def)
      moreover have "dval (fst sv') = dval (fst sv)" using pub(1,3) h(1) by blast
      ultimately show ?thesis using t(1) candidate_fact [OF t(2)] h(4,5) by blast
    qed
    have "ob_numeric ob = Some (fst sv)" "ob_decimals ob = fst (snd sv)" using pub(2) by simp_all
    then show ?thesis using published(1,2) f cover by (intro conjI exI [of _ p] exI [of _ "fst sv"]) auto
  qed
qed (use assms(5) in simp_all)

section \<open>Properties\<close>

text \<open>
  Property C3: a selected value comes from a fact of the filing.  The form is annual, and the value
  and decimals are those of a fact that qualifies for the slot and is covered by an active accepted
  exact decision; for every other such fact, a fact of the same concept, at least as precise,
  reports a numerically equal value.
\<close>

theorem select_value_sound:
  assumes "load_decisions sha yml files metrics fatal = Inr reg"
    and "resolve_supports facts reg acc cik = Inr sups" and "distinct (map fr_fact_id facts)"
    and "select_metric metric form cik acc period facts sups reg avail pt = Inr ob" and "ob_status ob = Ob_value"
  shows "form \<in> set ANNUAL_FORMS \<and> (\<exists>p v. period = Some p \<and> ob_numeric ob = Some v \<and>
    (\<exists>f\<in>set facts. slot_fact reg metric cik p pt Rel_exact f \<and> fr_resolved_numeric f = Some v \<and>
       fr_decimals f = ob_decimals ob) \<and>
    (\<forall>g\<in>set facts. slot_fact reg metric cik p pt Rel_exact g \<longrightarrow>
       (\<exists>h\<in>set facts. slot_fact reg metric cik p pt Rel_exact h \<and>
          clark_qname (fr_concept_namespace h) (fr_concept_local_name h) =
            clark_qname (fr_concept_namespace g) (fr_concept_local_name g) \<and>
          (\<exists>w. fr_resolved_numeric h = Some w \<and> dval w = dval v) \<and>
          (\<exists>a b. survivor_rank (fr_decimals h) (fr_fact_id h) = Inr a \<and>
             survivor_rank (fr_decimals g) (fr_fact_id g) = Inr b \<and> a \<le> b))))"
  by (rule select_value [OF assms])

text \<open>
  A selected value cites exactly its evidence: its fact ids are those of all facts that
  qualify for the slot under an exact decision, in ascending order, and its decision ids are those
  of the decisions that cover them.
\<close>

theorem select_value_provenance:
  assumes "load_decisions sha yml files metrics fatal = Inr reg"
    and "resolve_supports facts reg acc cik = Inr sups" and "distinct (map fr_fact_id facts)"
    and "select_metric metric form cik acc (Some p) facts sups reg avail pt = Inr ob" and "ob_status ob = Ob_value"
  shows "ob_fact_ids ob = sorted_list_of_set
      {fr_fact_id f | f. f \<in> set facts \<and> slot_fact reg metric cik p pt Rel_exact f} \<and>
    ob_decision_ids ob = sorted_list_of_set {dr_id r | r f. f \<in> set facts \<and> decides reg cik f r \<and>
      slot_ready f cik p pt \<and> dr_metric r = metric \<and> dr_relation r = Rel_exact}"
  using assms(4)
proof (cases rule: select_metric_cases)
  case (published p' cands svs)
  from selected_candidates [OF assms(1-3) published(4)]
  have C: "set cands = {(s, f). f \<in> set facts \<and> candidate reg metric acc cik p' pt Rel_exact s f}"
    "numeric_cands cands" "distinct (cand_ids cands)" by simp_all
  have p': "p' = p" using published(2) by simp
  have facts: "sr_fact_id ` ref_of ` set cands =
      {fr_fact_id f | f. f \<in> set facts \<and> slot_fact reg metric cik p pt Rel_exact f}"
    unfolding C(1) p' slot_fact_candidate [of _ _ _ _ _ _ _ acc] by (force simp: ref_of_def)
  have decs: "sr_decision_id ` ref_of ` set cands = {dr_id r | r f. f \<in> set facts \<and> decides reg cik f r \<and>
      slot_ready f cik p pt \<and> dr_metric r = metric \<and> dr_relation r = Rel_exact}" (is "?L = ?R")
  proof
    show "?L \<subseteq> ?R" unfolding C(1) p' by (force simp: ref_of_def candidate_def mk_support_def fact_qualifies_slot_iff)
    show "?R \<subseteq> ?L"
    proof
      fix x assume "x \<in> ?R"
      then obtain r f where r: "x = dr_id r" "f \<in> set facts" "decides reg cik f r"
        "slot_ready f cik p pt" "dr_metric r = metric" "dr_relation r = Rel_exact" by blast
      then obtain q where "clark_qname (fr_concept_namespace f) (fr_concept_local_name f) = Inr q"
        using concept_matches_clark [of r cik "fr_concept_namespace f" "fr_concept_local_name f"]
        by (auto simp: decides_def)
      then have "(mk_support acc q f r, f) \<in> set cands" using r by (auto simp: C(1) p' candidate_def fact_qualifies_slot_iff)
      then have "sr_decision_id (ref_of (mk_support acc q f r, f)) \<in> ?L" by blast
      then show "x \<in> ?L" using r(1) by (simp add: ref_of_def mk_support_def)
    qed
  qed
  from published(7) show ?thesis
  proof (cases rule: publish_cases)
    case conflict
    then show ?thesis using assms(5) by simp
  next
    case pub: (published sv)
    then show ?thesis
      using survivors_refs [OF published(6) C(2,3)] facts decs by simp
  qed
qed (use assms(5) in simp_all)

lemma no_candidates:
  assumes "load_decisions sha yml files metrics fatal = Inr reg"
    and "resolve_supports facts reg acc cik = Inr sups" and "distinct (map fr_fact_id facts)"
    and "candidates_of cik p pt facts (supports_of sups metric Rel_exact) = Inr cands"
  shows "cands = [] \<longleftrightarrow> {f \<in> set facts. slot_fact reg metric cik p pt Rel_exact f} = {}"
proof -
  have "set cands = {(s, f). f \<in> set facts \<and> candidate reg metric acc cik p pt Rel_exact s f}"
    using selected_candidates [OF assms] by simp
  then have "set cands = {} \<longleftrightarrow> {f \<in> set facts. slot_fact reg metric cik p pt Rel_exact f} = {}"
    unfolding slot_fact_candidate [of _ _ _ _ _ _ _ acc] by auto
  then show ?thesis by simp
qed

lemma any_res_iff: "any_res P xs = Inr b \<Longrightarrow> b \<longleftrightarrow> (\<exists>x\<in>set xs. P x = Inr True)"
  by (induction xs) (auto simp: result_simps split: if_splits)

lemma broader_iff:
  assumes "resolve_supports facts reg acc cik = Inr sups" and "distinct (map fr_fact_id facts)"
    and "broader_qualified cik p pt facts (supports_of sups metric Rel_broader) = Inr b"
  shows "b \<longleftrightarrow> {f \<in> set facts. slot_fact reg metric cik p pt Rel_broader f} \<noteq> {}"
proof -
  let ?w = "with_facts facts (supports_of sups metric Rel_broader)"
  have mem: "(s, f) \<in> set ?w \<and> fact_qualifies_slot f cik p pt = Inr True \<longleftrightarrow>
    f \<in> set facts \<and> candidate reg metric acc cik p pt Rel_broader s f" for s f
    by (rule candidate_mem [OF assms(2,1)])
  have "b \<longleftrightarrow> (\<exists>x\<in>set ?w. fact_qualifies_slot (snd x) cik p pt = Inr True)"
    using any_res_iff [OF assms(3) [unfolded broader_qualified_def]] by (simp only: case_prod_unfold)
  also have "\<dots> \<longleftrightarrow> (\<exists>s f. (s, f) \<in> set ?w \<and> fact_qualifies_slot f cik p pt = Inr True)"
    by (simp add: Bex_def)
  also have "\<dots> \<longleftrightarrow> (\<exists>s f. f \<in> set facts \<and> candidate reg metric acc cik p pt Rel_broader s f)"
    by (simp only: mem)
  also have "\<dots> \<longleftrightarrow> {f \<in> set facts. slot_fact reg metric cik p pt Rel_broader f} \<noteq> {}"
    unfolding slot_fact_candidate [of _ _ _ _ _ _ _ acc] by auto
  finally show ?thesis .
qed

text \<open>
  Why an observation is not a value.  For an annual form, it is unsupported exactly when
  the metric has exact decisions but none applies to the filing; otherwise it is missing exactly when
  no fact qualifies under an exact decision, and the reason then says whether a broader decision
  covers a qualifying fact; in every other case it is a value or a conflict.
\<close>

theorem select_status:
  assumes "load_decisions sha yml files metrics fatal = Inr reg"
    and "resolve_supports facts reg acc cik = Inr sups" and "distinct (map fr_fact_id facts)"
    and "select_metric metric form cik acc (Some p) facts sups reg avail pt = Inr ob" and "form \<in> set ANNUAL_FORMS"
  shows "(ob_status ob = Ob_unsupported \<longleftrightarrow> no_applicable_decision reg metric cik) \<and>
    (ob_status ob = Ob_missing \<longleftrightarrow> \<not> no_applicable_decision reg metric cik \<and>
       {f \<in> set facts. slot_fact reg metric cik p pt Rel_exact f} = {}) \<and>
    (ob_reason ob = Some Broader_only \<longleftrightarrow> ob_status ob = Ob_missing \<and>
       {f \<in> set facts. slot_fact reg metric cik p pt Rel_broader f} \<noteq> {})"
  using assms(4)
proof (cases rule: select_metric_cases)
  case form
  then show ?thesis using assms(5) by simp
next
  case scope
  then show ?thesis by simp
next
  case (missing p' broader)
  have p': "p' = p" using missing(2) by simp
  have "{f \<in> set facts. slot_fact reg metric cik p pt Rel_exact f} = {}"
    using no_candidates [OF assms(1-3) missing(4) [unfolded p']] by simp
  then show ?thesis
    using missing broader_iff [OF assms(2,3) missing(5) [unfolded p']] by auto
next
  case (conflict p' cands)
  have p': "p' = p" using conflict(2) by simp
  then show ?thesis
    using conflict no_candidates [OF assms(1-3) conflict(4) [unfolded p']] by simp
next
  case (published p' cands svs)
  have p': "p' = p" using published(2) by simp
  have ne: "{f \<in> set facts. slot_fact reg metric cik p pt Rel_exact f} \<noteq> {}"
    using published(5) no_candidates [OF assms(1-3) published(4) [unfolded p']] by simp
  have "ob_status ob \<in> {Ob_value, Ob_conflict} \<and> ob_reason ob = None"
    using published(7)
  proof (cases rule: publish_cases)
    case conflict
    then show ?thesis by (simp add: base_observation_def)
  next
    case pub: (published sv)
    then show ?thesis by (simp add: published_observation_def base_observation_def Let_def)
  qed
  then show ?thesis using ne published(3) by auto
qed

text \<open>
  Property C32: the observation does not depend on the order in which the facts of the filing are read
  (when fact ids are unique and entity identifiers well formed): any permutation gives the same
  observation, or the same failure.
\<close>

theorem select_order_independent:
  assumes "load_decisions sha yml files metrics fatal = Inr reg" and "identified facts cik"
    and "mset facts = mset facts'" and "distinct (map fr_fact_id facts)"
    and "resolve_supports facts reg acc cik = Inr sups" and "resolve_supports facts' reg acc cik = Inr sups'"
  shows "select_metric metric form cik acc period facts sups reg avail pt =
    select_metric metric form cik acc period facts' sups' reg avail pt"
  by (rule select_perm [OF assms])

section \<open>A filing with two reports of one total\<close>

definition example_fact :: "int \<Rightarrow> decimal \<Rightarrow> string \<Rightarrow> fact_row" where
  "example_fact i v d = \<lparr>fr_fact_id = i, fr_concept_namespace = ''http://fasb.org/us-gaap/2023'',
     fr_concept_local_name = ''Assets'', fr_source_qname = ''us-gaap:Assets'', fr_context_id = 3,
     fr_value_status = ''valid'', fr_resolved_numeric = Some v, fr_is_nil = False, fr_decimals = Some d,
     fr_lexical_value = None, fr_entity_scheme = ''http://www.sec.gov/CIK'', fr_entity_identifier = ''0000000042'',
     fr_period_kind = ''instant'', fr_instant_lexical = Some ''2023-12-31'', fr_start_lexical = None,
     fr_end_lexical = None, fr_has_dimensions = False,
     fr_unit_measures = [\<lparr>mu_side = ''numerator'', mu_ordinal = 0,
       mu_measure_namespace_uri = Some ''http://www.xbrl.org/2003/iso4217'', mu_measure_local_name = ''USD''\<rparr>]\<rparr>"

definition example_facts :: "fact_row list" where
  "example_facts = [example_fact 8 (Dec 12 2) ''-2'', example_fact 5 (Dec 1234 0) ''0'']"

definition example_supports :: "fact_row list \<Rightarrow> support list" where
  "example_supports fs = map (\<lambda>f. mk_support ''a'' ''{http://fasb.org/us-gaap/2023}Assets'' f example_decision) fs"

lemma example_resolve:
  "resolve_supports example_facts example_decisions ''a'' ''42'' = Inr (example_supports example_facts)"
  "resolve_supports (rev example_facts) example_decisions ''a'' ''42'' = Inr (example_supports (rev example_facts))"
  by code_simp+

abbreviation example_cands :: "(support \<times> fact_row) list" where
  "example_cands \<equiv> zip (example_supports example_facts) example_facts"

definition example_refs :: "support_ref list" where
  "example_refs = map (\<lambda>i. \<lparr>sr_fact_id = i, sr_decision_id = ''assets-us-gaap'', sr_relation = Rel_exact,
     sr_tier = 1, sr_source_qname = ''{http://fasb.org/us-gaap/2023}Assets'',
     sr_application_method = Reviewed_method\<rparr>) [5, 8]"

lemma example_filters:
  "candidates_of ''42'' example_period Instant example_facts
     (supports_of (example_supports example_facts) ''assets'' Rel_exact) = Inr example_cands"
  "broader_qualified ''42'' example_period Instant example_facts
     (supports_of (example_supports example_facts) ''assets'' Rel_broader) = Inr False"
  "filter_res (\<lambda>r. decision_applies_to_filing r ''42'') (exact_decisions example_decisions ''assets'') =
     Inr [example_decision, example_issuer_decision]"
  "qnames_of example_cands = [''{http://fasb.org/us-gaap/2023}Assets'']"
  "group_of example_cands ''{http://fasb.org/us-gaap/2023}Assets'' = example_cands"
  "occurrences example_cands = [\<lparr>occ_fact_id = 8, occ_value = Dec 12 2, occ_decimals = Some ''-2''\<rparr>,
     \<lparr>occ_fact_id = 5, occ_value = Dec 1234 0, occ_decimals = Some ''0''\<rparr>]"
  "support_refs example_cands [5, 8] = example_refs"
  by code_simp+

lemma example_reduction:
  "oim_reduce_group [\<lparr>occ_fact_id = 8, occ_value = Dec 12 2, occ_decimals = Some ''-2''\<rparr>,
     \<lparr>occ_fact_id = 5, occ_value = Dec 1234 0, occ_decimals = Some ''0''\<rparr>] =
   Inr (Some \<lparr>survivor_value = Dec 1234 0, survivor_decimals = Some ''0'', survivor_fact_id = 5,
     resolved_fact_ids = [5, 8], consistent_interval = \<lparr>lo = Dec 12335 (-1), hi = Dec 12345 (-1)\<rparr>\<rparr>)"
  by (simp add: dec_eval)

lemma example_publish:
  "publish base [(Dec 1234 0, Some ''0'', example_refs)] =
     Inr (published_observation base [(Dec 1234 0, Some ''0'', example_refs)] (Dec 1234 0, Some ''0'', example_refs))"
proof -
  have "survivor_key (Dec 1234 0, Some ''0'', example_refs) = Inr (1, 0, 5)" by code_simp
  then show ?thesis by (simp add: publish_def dec_eq_iff del: list.map)
qed

definition example_observation :: observation where
  "example_observation = published_observation
     (base_observation ''assets'' ''42'' ''a'' (Some example_period) None Instant)
     [(Dec 1234 0, Some ''0'', example_refs)] (Dec 1234 0, Some ''0'', example_refs)"

lemma example_select:
  "select_metric ''assets'' ''10-K'' ''42'' ''a'' (Some example_period) example_facts
     (example_supports example_facts) example_decisions None Instant = Inr example_observation"
proof -
  have "''10-K'' \<in> set ANNUAL_FORMS" "example_cands \<noteq> []" by code_simp+
  moreover have "reduce_groups example_cands [''{http://fasb.org/us-gaap/2023}Assets''] =
    Inr (Some [(Dec 1234 0, Some ''0'', example_refs)])"
    by (simp only: reduce_groups.simps example_filters example_reduction res_bind.simps option.case
        oim_resolution.select_convs option.map)
  ultimately show ?thesis
    by (simp only: select_metric_def Let_def example_filters res_bind.simps option.case example_publish
        example_observation_def simp_thms if_False if_True list.simps)
qed

lemma example_status: "ob_status example_observation = Ob_value"
  by (simp add: example_observation_def)

lemma example_setting:
  "distinct (map fr_fact_id example_facts)" "identified example_facts ''42''"
  "''10-K'' \<in> set ANNUAL_FORMS"
  by code_simp+

theorem select_value_sound_witness:
  "\<exists>f\<in>set example_facts. \<exists>v. ob_numeric example_observation = Some v \<and> fr_resolved_numeric f = Some v \<and>
     slot_fact example_decisions ''assets'' ''42'' example_period Instant Rel_exact f"
  using select_value_sound [OF example_load_decisions example_resolve(1) example_setting(1) example_select example_status]
  by auto

theorem select_value_provenance_witness:
  "ob_fact_ids example_observation = [5, 8] \<and>
   sorted_list_of_set {fr_fact_id f | f. f \<in> set example_facts \<and>
     slot_fact example_decisions ''assets'' ''42'' example_period Instant Rel_exact f} = [5, 8]"
proof -
  have "ob_fact_ids example_observation = [5, 8]"
    by (simp add: example_observation_def example_refs_def)
  then show ?thesis
    using select_value_provenance [OF example_load_decisions example_resolve(1) example_setting(1) example_select
        example_status] by simp
qed

theorem select_status_witness:
  "\<not> no_applicable_decision example_decisions ''assets'' ''42'' \<and>
   {f \<in> set example_facts. slot_fact example_decisions ''assets'' ''42'' example_period Instant Rel_exact f} \<noteq> {}"
  using select_status [OF example_load_decisions example_resolve(1) example_setting(1) example_select example_setting(3)]
    example_status by auto

theorem select_order_independent_witness:
  "select_metric ''assets'' ''10-K'' ''42'' ''a'' (Some example_period) (rev example_facts)
     (example_supports (rev example_facts)) example_decisions None Instant = Inr example_observation"
  using select_order_independent [OF example_load_decisions example_setting(2) _ example_setting(1) example_resolve,
      of "''assets''" "''10-K''" "Some example_period" None Instant] example_select by simp

end
