(* ===== verification/Source_Load.thy ===== *)
theory Source_Load
  imports Select_Props
begin

text \<open>
  \<^verbatim>\<open>src/edgar/financials/source_load.py\<close>: reading one filing from the \<^verbatim>\<open>source.*\<close> tables.

  A table is the list of its rows in the order the database returns them (no query but the report
  one has an \<^verbatim>\<open>ORDER BY\<close>); a join is a comprehension over the tables.  \<open>accepted_at\<close> is the ISO text
  of the timestamp.
\<close>

section \<open>Tables\<close>

record filing_row =
  fl_id :: int
  fl_accession :: string
  fl_issuer_cik :: string
  fl_form :: string
  fl_accepted_at :: "string option"
  fl_report_period_end :: "date option"
  fl_filing_date :: "date option"

record xbrl_report_row =
  xr_id :: int
  xr_filing_id :: int

record source_concept_row =
  cn_id :: string
  cn_namespace_uri :: string
  cn_local_name :: string

record source_context_row =
  cx_id :: int
  cx_entity_scheme :: string
  cx_entity_identifier :: string
  cx_period_kind :: string
  cx_instant_lexical :: "string option"
  cx_start_lexical :: "string option"
  cx_end_lexical :: "string option"

record source_unit_row =
  un_id :: int
  un_report_id :: int

record source_fact_row =
  ft_id :: int
  ft_report_id :: int
  ft_concept_id :: string
  ft_context_id :: int
  ft_unit_id :: "int option"
  ft_value_status :: string
  ft_resolved_numeric :: "decimal option"
  ft_is_nil :: bool
  ft_decimals :: "string option"
  ft_raw_lexical_value :: "string option"

record source_tables =
  st_filings :: "filing_row list"
  st_reports :: "xbrl_report_row list"
  st_concepts :: "source_concept_row list"
  st_declarations :: "(int \<times> string) list"
  st_contexts :: "source_context_row list"
  st_dimension_contexts :: "int list"
  st_units :: "source_unit_row list"
  st_unit_measures :: "(int \<times> unit_measure_row) list"
  st_facts :: "source_fact_row list"

section \<open>Loading\<close>

record filing_metadata =
  fm_accession :: string
  fm_cik :: string
  fm_form :: string
  fm_accepted_at :: "string option"
  fm_filing_id :: int

record loaded_filing =
  lf_accession :: string
  lf_cik :: string
  lf_form :: string
  lf_accepted_at :: "string option"
  lf_facts :: "fact_row list"
  lf_dei_candidates :: "dei_period_candidate list"

definition first_filing :: "source_tables \<Rightarrow> string \<Rightarrow> filing_row option" where
  "first_filing t accession = find (\<lambda>f. fl_accession f = accession) (st_filings t)"

definition load_filing_metadata :: "source_tables \<Rightarrow> string \<Rightarrow> filing_metadata option" where
  "load_filing_metadata t accession = map_option (\<lambda>f.
     \<lparr>fm_accession = accession, fm_cik = fl_issuer_cik f, fm_form = fl_form f,
      fm_accepted_at = fl_accepted_at f, fm_filing_id = fl_id f\<rparr>) (first_filing t accession)"

definition report_ids_of :: "source_tables \<Rightarrow> int \<Rightarrow> int list" where
  "report_ids_of t filing_id = sort (map xr_id (filter (\<lambda>r. xr_filing_id r = filing_id) (st_reports t)))"

definition unit_measures_of :: "source_tables \<Rightarrow> int \<Rightarrow> int option \<Rightarrow> unit_measure_row list" where
  "unit_measures_of t report_id unit_id = (case unit_id of
     None \<Rightarrow> []
   | Some u \<Rightarrow> map snd (filter (\<lambda>(i, _). i = u \<and> i \<in> un_id ` {r \<in> set (st_units t). un_report_id r = report_id})
       (st_unit_measures t)))"

text \<open>The rows of the fact query: facts of the report joined with their concept and context.\<close>

definition fact_join ::
  "source_tables \<Rightarrow> int \<Rightarrow> (source_fact_row \<times> source_concept_row \<times> source_context_row) list" where
  "fact_join t report_id = concat (map (\<lambda>f. concat (map (\<lambda>c. map (\<lambda>x. (f, c, x))
       (filter (\<lambda>x. cx_id x = ft_context_id f) (st_contexts t)))
       (filter (\<lambda>c. cn_id c = ft_concept_id f) (st_concepts t))))
     (filter (\<lambda>f. ft_report_id f = report_id) (st_facts t)))"

definition mk_fact_row ::
  "source_tables \<Rightarrow> int \<Rightarrow> source_fact_row \<times> source_concept_row \<times> source_context_row \<Rightarrow> fact_row res" where
  "mk_fact_row t report_id row = (case row of (f, c, x) \<Rightarrow>
     res_bind (clark_qname (cn_namespace_uri c) (cn_local_name c)) (\<lambda>q. Inr
       \<lparr>fr_fact_id = ft_id f, fr_concept_namespace = cn_namespace_uri c, fr_concept_local_name = cn_local_name c,
        fr_source_qname = q, fr_context_id = ft_context_id f, fr_value_status = ft_value_status f,
        fr_resolved_numeric = ft_resolved_numeric f, fr_is_nil = ft_is_nil f, fr_decimals = ft_decimals f,
        fr_lexical_value = ft_raw_lexical_value f, fr_entity_scheme = cx_entity_scheme x,
        fr_entity_identifier = cx_entity_identifier x, fr_period_kind = cx_period_kind x,
        fr_instant_lexical = cx_instant_lexical x, fr_start_lexical = cx_start_lexical x,
        fr_end_lexical = cx_end_lexical x,
        fr_has_dimensions = (ft_context_id f \<in> set (st_dimension_contexts t)),
        fr_unit_measures = unit_measures_of t report_id (ft_unit_id f)\<rparr>))"

definition mk_dei_candidate :: "fact_row \<Rightarrow> dei_period_candidate option res" where
  "mk_dei_candidate fr =
     (if fr_concept_local_name fr \<noteq> ''DocumentPeriodEndDate'' then Inr None
      else res_bind (classify (fr_concept_namespace fr)) (\<lambda>clf. Inr (case fr_lexical_value fr of
        Some (c # cs) \<Rightarrow>
          if tc_semantic_family clf = DEI \<and> \<not> fr_has_dimensions fr
          then Some \<lparr>dc_context_id = fr_context_id fr, dc_context_entity_scheme = fr_entity_scheme fr,
            dc_context_entity_identifier = fr_entity_identifier fr, dc_period_kind = fr_period_kind fr,
            dc_instant_lexical = fr_instant_lexical fr, dc_start_lexical = fr_start_lexical fr,
            dc_end_lexical = fr_end_lexical fr, dc_document_period_end_value = c # cs\<rparr>
          else None
      | _ \<Rightarrow> None)))"

definition load_filing_body :: "source_tables \<Rightarrow> filing_metadata \<Rightarrow> loaded_filing res" where
  "load_filing_body t meta = (case report_ids_of t (fm_filing_id meta) of
     [] \<Rightarrow> Inr \<lparr>lf_accession = fm_accession meta, lf_cik = fm_cik meta, lf_form = fm_form meta,
             lf_accepted_at = fm_accepted_at meta, lf_facts = [], lf_dei_candidates = []\<rparr>
   | [report_id] \<Rightarrow>
       res_bind (map_res (\<lambda>row. res_bind (mk_fact_row t report_id row) (\<lambda>fr.
           res_bind (mk_dei_candidate fr) (\<lambda>d. Inr (fr, d)))) (fact_join t report_id)) (\<lambda>rows.
         Inr \<lparr>lf_accession = fm_accession meta, lf_cik = fm_cik meta, lf_form = fm_form meta,
             lf_accepted_at = fm_accepted_at meta, lf_facts = map fst rows,
             lf_dei_candidates = somes (map snd rows)\<rparr>)
   | _ \<Rightarrow> Inl (ValueError ''P1 requires exactly one report per filing''))"

definition load_filing :: "source_tables \<Rightarrow> string \<Rightarrow> loaded_filing option res" where
  "load_filing t accession = (case load_filing_metadata t accession of
     None \<Rightarrow> Inr None
   | Some meta \<Rightarrow> res_bind (load_filing_body t meta) (\<lambda>l. Inr (Some l)))"

record quality_filing_source =
  qs_accession :: string
  qs_cik :: string
  qs_form :: string
  qs_report_period_year :: "string option"
  qs_declared_namespaces :: "string list"
  qs_declared_concepts :: "(string \<times> string) list"
  qs_fact_concepts :: "(string \<times> string) list"

definition report_year_of :: "filing_row \<Rightarrow> string option" where
  "report_year_of f = (case fl_report_period_end f of
     Some d \<Rightarrow> Some (show_nat (d_year d))
   | None \<Rightarrow> map_option (\<lambda>d. show_nat (d_year d)) (fl_filing_date f))"

definition declared_concepts_of :: "source_tables \<Rightarrow> int \<Rightarrow> (string \<times> string) list" where
  "declared_concepts_of t report_id = remdups (concat (map (\<lambda>c. map (\<lambda>_. (cn_namespace_uri c, cn_local_name c))
     (filter (\<lambda>(r, i). r = report_id \<and> i = cn_id c) (st_declarations t))) (st_concepts t)))"

definition fact_concepts_of :: "source_tables \<Rightarrow> int \<Rightarrow> (string \<times> string) list" where
  "fact_concepts_of t report_id = remdups (map (\<lambda>(f, c, x). (cn_namespace_uri c, cn_local_name c))
     (filter (\<lambda>(f, c, x). cx_id x \<notin> set (st_dimension_contexts t)) (fact_join t report_id)))"

definition load_quality_filing_source :: "source_tables \<Rightarrow> string \<Rightarrow> quality_filing_source option res" where
  "load_quality_filing_source t accession = (case load_filing_metadata t accession of
     None \<Rightarrow> Inr None
   | Some meta \<Rightarrow>
       let year = Option.bind (first_filing t accession) report_year_of;
           result = (\<lambda>declared fact_concepts. Inr (Some \<lparr>qs_accession = accession, qs_cik = fm_cik meta,
             qs_form = fm_form meta, qs_report_period_year = year, qs_declared_namespaces = map fst declared,
             qs_declared_concepts = declared, qs_fact_concepts = fact_concepts\<rparr>))
       in (case report_ids_of t (fm_filing_id meta) of
            [] \<Rightarrow> result [] []
          | [report_id] \<Rightarrow> result (declared_concepts_of t report_id) (fact_concepts_of t report_id)
          | _ \<Rightarrow> Inl (ValueError ''quality reporting requires exactly one report per filing'')))"

section \<open>Keys\<close>

text \<open>The primary keys of the tables the fact query joins.\<close>

definition source_keys :: "source_tables \<Rightarrow> bool" where
  "source_keys t = (distinct (map ft_id (st_facts t)) \<and> distinct (map cn_id (st_concepts t)) \<and>
     distinct (map cx_id (st_contexts t)))"

lemma filter_key_le_one: "distinct (map k xs) \<Longrightarrow> length (filter (\<lambda>x. k x = v) xs) \<le> 1"
  by (induction xs) (auto simp: filter_empty_conv image_iff)

lemma concat_map_short:
  assumes "\<And>x. x \<in> set xs \<Longrightarrow> length (g x) \<le> 1" and "\<And>x y. x \<in> set xs \<Longrightarrow> y \<in> set (g x) \<Longrightarrow> k y = h x"
    and "distinct (map h xs)"
  shows "distinct (map k (concat (map g xs)))"
  using assms
proof (induction xs)
  case (Cons x xs)
  have IH: "distinct (map k (concat (map g xs)))" using Cons by simp
  have "length (g x) \<le> 1" using Cons.prems(1) by simp
  then consider "g x = []" | y where "g x = [y]" by (cases "g x") auto
  then show ?case
  proof cases
    case (2 y)
    then have y: "k y = h x" using Cons.prems(2) [of x y] by simp
    have "k y \<noteq> k z" if z: "z \<in> set (concat (map g xs))" for z
    proof -
      obtain x' where "x' \<in> set xs" "z \<in> set (g x')" using z by auto
      then have "k z = h x'" "h x' \<in> h ` set xs" using Cons.prems(2) [of x' z] by auto
      then show ?thesis using y Cons.prems(3) by auto
    qed
    then show ?thesis using 2 IH by auto
  qed (use IH in simp)
qed simp

lemma fact_join_row: "(f, c, x) \<in> set (fact_join t rid) \<longleftrightarrow> f \<in> set (st_facts t) \<and> ft_report_id f = rid \<and>
    c \<in> set (st_concepts t) \<and> cn_id c = ft_concept_id f \<and> x \<in> set (st_contexts t) \<and> cx_id x = ft_context_id f"
  by (auto simp: fact_join_def)

lemma fact_join_ids: "source_keys t \<Longrightarrow> distinct (map (\<lambda>row. ft_id (fst row)) (fact_join t rid))"
  unfolding fact_join_def
proof (rule concat_map_short [where h = ft_id])
  fix f assume k: "source_keys t"
  have "length (filter (\<lambda>c. cn_id c = ft_concept_id f) (st_concepts t)) \<le> 1"
    "length (filter (\<lambda>x. cx_id x = ft_context_id f) (st_contexts t)) \<le> 1"
    using k filter_key_le_one [of cn_id "st_concepts t" "ft_concept_id f"]
      filter_key_le_one [of cx_id "st_contexts t" "ft_context_id f"] by (simp_all add: source_keys_def)
  then show "length (concat (map (\<lambda>c. map (\<lambda>x. (f, c, x))
       (filter (\<lambda>x. cx_id x = ft_context_id f) (st_contexts t)))
       (filter (\<lambda>c. cn_id c = ft_concept_id f) (st_concepts t)))) \<le> 1"
    by (cases "filter (\<lambda>c. cn_id c = ft_concept_id f) (st_concepts t)") auto
next
  assume "source_keys t"
  then show "distinct (map ft_id (filter (\<lambda>f. ft_report_id f = rid) (st_facts t)))"
    by (simp add: source_keys_def distinct_map_filter)
qed auto

lemma mk_fact_row_id: "mk_fact_row t rid row = Inr fr \<Longrightarrow> fr_fact_id fr = ft_id (fst row)"
  by (auto simp: mk_fact_row_def result_simps split: prod.splits)

lemma map_res_keys: "map_res f xs = Inr ys \<Longrightarrow> (\<And>x y. f x = Inr y \<Longrightarrow> k y = h x) \<Longrightarrow> map k ys = map h xs"
  by (induction xs arbitrary: ys) (auto simp: result_simps)

lemma load_filing_facts_distinct:
  assumes "source_keys t" and "load_filing t acc = Inr (Some l)"
  shows "distinct (map fr_fact_id (lf_facts l))"
proof -
  obtain meta where meta: "load_filing_body t meta = Inr l"
    using assms(2) by (auto simp: load_filing_def result_simps split: option.splits)
  show ?thesis
  proof (cases "report_ids_of t (fm_filing_id meta)")
    case Nil
    then show ?thesis using meta by (auto simp: load_filing_body_def)
  next
    case (Cons rid rids)
    then have "rids = []" using meta by (cases rids) (auto simp: load_filing_body_def)
    then obtain rows where rows: "map_res (\<lambda>row. res_bind (mk_fact_row t rid row) (\<lambda>fr.
           res_bind (mk_dei_candidate fr) (\<lambda>d. Inr (fr, d)))) (fact_join t rid) = Inr rows"
      and l: "lf_facts l = map fst rows"
      using meta Cons by (auto simp: load_filing_body_def result_simps)
    have "map (\<lambda>row. ft_id (fst row)) (fact_join t rid) = map fr_fact_id (map fst rows)"
      by (simp only: map_map, rule sym, rule map_res_keys [OF rows])
         (auto simp: result_simps dest: mk_fact_row_id)
    then show ?thesis using fact_join_ids [OF assms(1), of rid] l by simp
  qed
qed

end
