(* ===== verification/Validate.thy ===== *)
theory Validate
  imports Select_Props
begin

text \<open>
  \<^verbatim>\<open>src/edgar/financials/gold.py\<close>, \<^verbatim>\<open>validate.py\<close>, \<^verbatim>\<open>cohort.py\<close> and \<^verbatim>\<open>rules_check.py\<close>: hand-checked gold
  assertions and their comparison with observations, the accounting-identity diagnostics, the fixed
  metric cohort, and the check of the decision files.

  YAML reading is outside: gold assertions and the cohort come as records of field values.  A
  diagnostic text is its constant part.
\<close>

section \<open>Decimal from text\<close>

text \<open>\<^verbatim>\<open>Decimal(s)\<close>: finite numerals only; NaN and infinities are not represented.\<close>

definition split_sign :: "string \<Rightarrow> bool \<times> string" where
  "split_sign s = (if startswith s ''-'' then (True, tl s) else if startswith s ''+'' then (False, tl s) else (False, s))"

definition exponent_of :: "string \<Rightarrow> int option" where
  "exponent_of s = (case s of
     [] \<Rightarrow> Some 0
   | c # cs \<Rightarrow> (let (neg, ds) = split_sign cs
       in if ds \<noteq> [] \<and> list_all is_digit ds
          then Some (if neg then - int (read_digits ds) else int (read_digits ds)) else None))"

definition dec_of_str :: "string \<Rightarrow> decimal res" where
  "dec_of_str s =
     (let (neg, t) = split_sign (filter (\<lambda>c. c \<noteq> CHR ''_'') (py_strip s));
          mant = takeWhile (\<lambda>c. c \<noteq> CHR ''E'' \<and> c \<noteq> CHR ''e'') t;
          ip = before_first CHR ''.'' mant; fp = after_first CHR ''.'' mant
      in case exponent_of (drop (length mant) t) of
           None \<Rightarrow> Inl DecimalInvalid
         | Some e \<Rightarrow>
             if ip @ fp \<noteq> [] \<and> list_all is_digit (ip @ fp)
             then (let c = int (read_digits (ip @ fp))
                   in Inr (Dec (if neg then - c else c) (e - int (length fp))))
             else Inl DecimalInvalid)"

section \<open>Gold assertions\<close>

datatype gold_status = Gold_value | Gold_missing | Gold_unsupported

record gold_period =
  gp_kind :: period_type
  gp_start :: "string option"
  gp_end :: string

record gold_assertion =
  ga_id :: string
  ga_accession :: string
  ga_metric :: string
  ga_period :: gold_period
  ga_status :: gold_status
  ga_numeric :: "string option"
  ga_reason :: "string option"

definition FORBIDDEN_GOLD_KEYS :: "string list" where
  "FORBIDDEN_GOLD_KEYS = [''capability_state'', ''metric-v2'', ''definition_hash_scheme'', ''review_profile'']"

lemma fold_res_cong [fundef_cong]:
  "xs = ys \<Longrightarrow> s = t \<Longrightarrow> (\<And>x u. x \<in> set ys \<Longrightarrow> f x u = g x u) \<Longrightarrow> fold_res f xs s = fold_res g ys t"
proof (induction xs arbitrary: ys s t)
  case (Cons x xs)
  then show ?case by (cases "g x s") auto
qed simp

fun reject_forbidden_keys :: "json \<Rightarrow> unit res" where
  "reject_forbidden_keys (JObj kvs) =
     (if list_ex (\<lambda>(k, _). k \<in> set FORBIDDEN_GOLD_KEYS) kvs then Inl (ValueError ''forbidden gold field'')
      else fold_res (\<lambda>kv _. reject_forbidden_keys (snd kv)) kvs ())"
| "reject_forbidden_keys (JArr xs) = fold_res (\<lambda>x _. reject_forbidden_keys x) xs ()"
| "reject_forbidden_keys _ = Inr ()"

fun gold_to_status :: "gold_status \<Rightarrow> observation_status" where
  "gold_to_status Gold_value = Ob_value"
| "gold_to_status Gold_missing = Ob_missing"
| "gold_to_status Gold_unsupported = Ob_unsupported"

fun reason_text :: "observation_reason \<Rightarrow> string" where
  "reason_text Broader_only = ''broader_only''"
| "reason_text Decision_scope = ''decision_scope''"
| "reason_text Wrong_form = ''wrong_form''"

text \<open>\<^verbatim>\<open>r or None\<close>.\<close>

definition or_none :: "string option \<Rightarrow> string option" where
  "or_none r = (if r = Some [] then None else r)"

definition observation_period_matches :: "gold_assertion \<Rightarrow> observation \<Rightarrow> bool" where
  "observation_period_matches a obs =
     (if gp_kind (ga_period a) = Duration
      then ob_period_start obs = gp_start (ga_period a) \<and> ob_period_end obs = Some (gp_end (ga_period a))
      else ob_period_end obs = Some (gp_end (ga_period a)) \<and> ob_period_start obs = None)"

definition same_reason :: "gold_assertion \<Rightarrow> observation \<Rightarrow> bool" where
  "same_reason a obs = (or_none (map_option reason_text (ob_reason obs)) = or_none (ga_reason a))"

definition numeric_equal :: "decimal option \<Rightarrow> decimal option \<Rightarrow> bool" where
  "numeric_equal x y = (case (x, y) of (Some a, Some b) \<Rightarrow> dec_eq a b | (None, None) \<Rightarrow> True | _ \<Rightarrow> False)"

definition compare_gold :: "gold_assertion \<Rightarrow> observation \<Rightarrow> string option res" where
  "compare_gold a obs =
     (if ob_accession obs \<noteq> ga_accession a \<or> ob_metric obs \<noteq> ga_metric a
      then Inr (Some ''accession/metric mismatch'')
      else if ob_status obs \<noteq> gold_to_status (ga_status a) then Inr (Some ''status'')
      else (case ga_status a of
        Gold_value \<Rightarrow>
          if \<not> observation_period_matches a obs then Inr (Some ''period mismatch'')
          else res_bind (case ga_numeric a of None \<Rightarrow> Inr None | Some s \<Rightarrow> res_bind (dec_of_str s) (\<lambda>d. Inr (Some d)))
            (\<lambda>expected. if \<not> numeric_equal (ob_numeric obs) expected then Inr (Some ''numeric'') else Inr None)
      | Gold_missing \<Rightarrow>
          if \<not> observation_period_matches a obs then Inr (Some ''period mismatch'')
          else if ob_numeric obs \<noteq> None then Inr (Some ''numeric must be null for missing'')
          else if \<not> same_reason a obs then Inr (Some ''reason'')
          else Inr None
      | Gold_unsupported \<Rightarrow>
          if ga_reason a = Some ''wrong_form''
          then (if \<not> same_reason a obs then Inr (Some ''reason'') else Inr None)
          else if \<not> observation_period_matches a obs then Inr (Some ''period mismatch'')
          else if ob_numeric obs \<noteq> None then Inr (Some ''numeric must be null'')
          else if \<not> same_reason a obs then Inr (Some ''reason'')
          else Inr None))"

definition obs_index :: "observation list \<Rightarrow> (string \<times> string \<rightharpoonup> observation)" where
  "obs_index obs = map_of (rev (map (\<lambda>o'. ((ob_accession o', ob_metric o'), o')) obs))"

fun check_gold_loop ::
  "(string \<times> string \<rightharpoonup> observation) \<Rightarrow> string set \<Rightarrow> gold_assertion list \<Rightarrow> (nat \<times> (string \<times> string) list) res" where
  "check_gold_loop index build [] = Inr (0, [])"
| "check_gold_loop index build (a # as) =
     (if ga_accession a \<notin> build then check_gold_loop index build as
      else res_bind (case index (ga_accession a, ga_metric a) of
             None \<Rightarrow> Inr (Some ''no observation'')
           | Some obs \<Rightarrow> compare_gold a obs) (\<lambda>err.
        res_bind (check_gold_loop index build as) (\<lambda>(n, errs).
          Inr (Suc n, (case err of None \<Rightarrow> errs | Some e \<Rightarrow> (ga_id a, e) # errs)))))"

definition check_gold_assertions ::
  "gold_assertion list \<Rightarrow> observation list \<Rightarrow> string set \<Rightarrow> (nat \<times> (string \<times> string) list) res" where
  "check_gold_assertions assertions observations build_accessions =
     check_gold_loop (obs_index observations) build_accessions assertions"

section \<open>Accounting identities\<close>

datatype finding_status = Pass | Fail | Not_applicable

record identity_finding =
  if_name :: string
  if_accession :: string
  if_status :: finding_status
  if_detail :: "string option"

definition fact_qualifies_identity :: "string \<Rightarrow> reporting_period \<Rightarrow> string \<Rightarrow> bool \<Rightarrow> fact_row \<Rightarrow> bool res" where
  "fact_qualifies_identity filing_cik period local_name duration f =
     (if fr_concept_local_name f \<noteq> local_name then Inr False
      else res_bind (classify (fr_concept_namespace f)) (\<lambda>clf.
        if tc_semantic_family clf \<noteq> US_GAAP then Inr False
        else if fr_has_dimensions f \<or> fr_value_status f \<noteq> ''valid'' \<or> fr_is_nil f \<or> fr_resolved_numeric f = None
        then Inr False
        else res_bind (entity_matches f filing_cik) (\<lambda>em.
          if \<not> em \<or> \<not> is_pure_usd (fr_unit_measures f) then Inr False
          else Inr (period_matches_metric (if duration then Duration else Instant) period (fr_period_kind f)
                 (fr_instant_lexical f) (fr_start_lexical f) (fr_end_lexical f)))))"

definition qualifying_facts ::
  "fact_row list \<Rightarrow> string \<Rightarrow> reporting_period \<Rightarrow> string \<Rightarrow> bool \<Rightarrow> fact_row list res" where
  "qualifying_facts facts filing_cik period local_name duration =
     filter_res (fact_qualifies_identity filing_cik period local_name duration) facts"

definition fact_occurrences :: "fact_row list \<Rightarrow> numeric_fact_occurrence list" where
  "fact_occurrences grp = somes (map (\<lambda>f. map_option
     (\<lambda>v. \<lparr>occ_fact_id = fr_fact_id f, occ_value = v, occ_decimals = fr_decimals f\<rparr>) (fr_resolved_numeric f)) grp)"

definition bar_qname :: "fact_row \<Rightarrow> string" where
  "bar_qname f = fr_concept_namespace f @ ''|'' @ fr_concept_local_name f"

text \<open>Python's dictionary keeps the order in which keys were first inserted.\<close>

fun first_seen :: "'a list \<Rightarrow> 'a list" where
  "first_seen [] = []"
| "first_seen (x # xs) = x # filter (\<lambda>y. y \<noteq> x) (first_seen xs)"

fun reduce_operands :: "fact_row list \<Rightarrow> string list \<Rightarrow> (decimal \<times> closed_interval) list option res" where
  "reduce_operands facts [] = Inr (Some [])"
| "reduce_operands facts (q # qs) =
     res_bind (oim_reduce_group (fact_occurrences (filter (\<lambda>f. bar_qname f = q) facts))) (\<lambda>reduced. case reduced of
         None \<Rightarrow> Inr None
       | Some r \<Rightarrow> res_bind (reduce_operands facts qs) (\<lambda>rest.
           Inr (map_option (\<lambda>rs. (survivor_value r, consistent_interval r) # rs) rest)))"

definition operand_interval :: "fact_row list \<Rightarrow> closed_interval option res" where
  "operand_interval facts = res_bind (reduce_operands facts (first_seen (map bar_qname facts))) (\<lambda>reduced.
     Inr (case reduced of
       None \<Rightarrow> None
     | Some [] \<Rightarrow> None
     | Some (r # rs) \<Rightarrow>
         if \<exists>a\<in>set (r # rs). \<exists>b\<in>set (r # rs). \<not> dec_eq (fst a) (fst b) then None
         else if rs \<noteq> []
         then (let l = foldl dec_max (lo (snd r)) (map (lo \<circ> snd) rs);
                   h = foldl dec_min (hi (snd r)) (map (hi \<circ> snd) rs)
               in if \<not> dec_le l h then None else Some \<lparr>lo = l, hi = h\<rparr>)
         else Some (snd r)))"

definition compare_operands ::
  "string \<Rightarrow> string \<Rightarrow> fact_row list \<Rightarrow> fact_row list \<Rightarrow> fact_row list \<Rightarrow> identity_finding res" where
  "compare_operands name accession whole left right =
     res_bind (operand_interval whole) (\<lambda>i_t.
     res_bind (operand_interval left) (\<lambda>i_l.
     res_bind (operand_interval right) (\<lambda>i_r.
       Inr (case (i_t, i_l, i_r) of
              (Some t, Some l, Some r) \<Rightarrow>
                if intersects t (interval_add l r)
                then \<lparr>if_name = name, if_accession = accession, if_status = Pass, if_detail = None\<rparr>
                else \<lparr>if_name = name, if_accession = accession, if_status = Fail,
                       if_detail = Some ''intervals disjoint''\<rparr>
            | _ \<Rightarrow> \<lparr>if_name = name, if_accession = accession, if_status = Fail,
                    if_detail = Some ''inconsistent duplicate facts''\<rparr>))))"

abbreviation not_applicable :: "string \<Rightarrow> string \<Rightarrow> identity_finding" where
  "not_applicable name accession \<equiv>
     \<lparr>if_name = name, if_accession = accession, if_status = Not_applicable, if_detail = None\<rparr>"

definition NCI_LOCAL :: string where
  "NCI_LOCAL = ''NetIncomeLossAttributableToNoncontrollingInterest''"

definition nci_split :: "string \<Rightarrow> string \<Rightarrow> reporting_period \<Rightarrow> fact_row list \<Rightarrow> identity_finding res" where
  "nci_split accession filing_cik period facts =
     res_bind (qualifying_facts facts filing_cik period ''ProfitLoss'' True) (\<lambda>pl.
     res_bind (qualifying_facts facts filing_cik period ''NetIncomeLoss'' True) (\<lambda>ni.
     res_bind (qualifying_facts facts filing_cik period NCI_LOCAL True) (\<lambda>nci.
       if pl = [] \<or> ni = [] \<or> nci = [] then Inr (not_applicable ''nci_split'' accession)
       else compare_operands ''nci_split'' accession pl ni nci)))"

definition TOTAL_EQUITY_LOCAL :: string where
  "TOTAL_EQUITY_LOCAL = ''StockholdersEquityIncludingPortionAttributableToNoncontrollingInterest''"

definition equity_operand ::
  "string \<Rightarrow> reporting_period \<Rightarrow> fact_row list \<Rightarrow> fact_row list option res" where
  "equity_operand filing_cik period facts =
     res_bind (qualifying_facts facts filing_cik period TOTAL_EQUITY_LOCAL False) (\<lambda>total_eq.
       if total_eq \<noteq> [] then Inr (Some total_eq)
       else res_bind (qualifying_facts facts filing_cik period ''MinorityInterest'' False) (\<lambda>nci_balance.
            res_bind (qualifying_facts facts filing_cik period NCI_LOCAL True) (\<lambda>nci_activity.
            res_bind (qualifying_facts facts filing_cik period ''StockholdersEquity'' False) (\<lambda>parent_eq.
              if parent_eq \<noteq> [] \<and> nci_balance = [] \<and> nci_activity = [] then Inr (Some parent_eq)
              else Inr None))))"

definition balance_sheet :: "string \<Rightarrow> string \<Rightarrow> reporting_period \<Rightarrow> fact_row list \<Rightarrow> identity_finding res" where
  "balance_sheet accession filing_cik period facts =
     res_bind (qualifying_facts facts filing_cik period ''Assets'' False) (\<lambda>assets.
     res_bind (qualifying_facts facts filing_cik period ''Liabilities'' False) (\<lambda>liab.
       if assets = [] \<or> liab = [] then Inr (not_applicable ''balance_sheet'' accession)
       else res_bind (equity_operand filing_cik period facts) (\<lambda>equity. case equity of
              None \<Rightarrow> Inr (not_applicable ''balance_sheet'' accession)
            | Some equity_facts \<Rightarrow> compare_operands ''balance_sheet'' accession assets liab equity_facts)))"

definition run_identity_checks ::
  "string \<Rightarrow> string \<Rightarrow> reporting_period \<Rightarrow> fact_row list \<Rightarrow> identity_finding list res" where
  "run_identity_checks accession filing_cik period facts =
     res_bind (nci_split accession filing_cik period facts) (\<lambda>a.
     res_bind (balance_sheet accession filing_cik period facts) (\<lambda>b. Inr [a, b]))"

section \<open>The metric cohort and the check of the decision files\<close>

record m0_cohort =
  co_metrics :: "string list"
  co_slots :: "string list"

definition M0_METRICS_ORDER :: "string list" where
  "M0_METRICS_ORDER = [''revenue'', ''total_assets'', ''operating_cash_flow'', ''operating_income'',
     ''research_and_development'', ''net_income_attributable_to_parent'',
     ''cash_excluding_restricted_cash'', ''cash_purchases_of_ppe'']"

definition load_m0_cohort :: "m0_cohort \<Rightarrow> m0_cohort res" where
  "load_m0_cohort raw =
     (if co_metrics raw = [] \<or> co_slots raw = [] then Inl (ValueError ''min_length'')
      else if co_metrics raw \<noteq> M0_METRICS_ORDER
      then Inl (ValueError ''m0 cohort metrics must match frozen P1 order'') else Inr raw)"

datatype rules_finding =
    No_accepted_exact string
  | Stale_accepted string
  | Stale_rejected string

fun rules_level :: "rules_finding \<Rightarrow> string" where
  "rules_level (No_accepted_exact _) = ''error''"
| "rules_level _ = ''warning''"

definition stale_findings :: "loaded_decision \<Rightarrow> rules_finding list" where
  "stale_findings ld =
     (if ld_stale_inactive ld \<and> dr_status (ld_record ld) = Dec_accepted then [Stale_accepted (dr_id (ld_record ld))] else []) @
     (if dr_status (ld_record ld) = Dec_rejected \<and> ld_stale_inactive ld then [Stale_rejected (dr_id (ld_record ld))] else [])"

definition run_rules_check ::
  "(string \<Rightarrow> string) \<Rightarrow> json \<Rightarrow> (path \<times> decision_record) list \<Rightarrow> m0_cohort \<Rightarrow> rules_finding list res" where
  "run_rules_check sha metrics_yml files raw_cohort =
     res_bind (load_decisions sha metrics_yml files None False) (\<lambda>registry.
     res_bind (load_m0_cohort raw_cohort) (\<lambda>cohort.
       Inr (map No_accepted_exact (filter (\<lambda>m. exact_decisions registry m = []) (co_metrics cohort)) @
            concat (map stale_findings (rg_decisions registry)))))"

section \<open>Reading back a printed decimal\<close>

lemma digits_no_marks:
  "list_all is_digit s \<Longrightarrow> CHR ''_'' \<notin> set s \<and> CHR ''E'' \<notin> set s \<and> CHR ''e'' \<notin> set s \<and> CHR ''.'' \<notin> set s \<and>
     CHR ''-'' \<notin> set s \<and> CHR ''+'' \<notin> set s"
  by (auto simp: list_all_iff is_digit_def)

lemma list_all_show_nat [simp]: "list_all is_digit (show_nat n)"
  using show_nat_digits by (simp add: list_all_iff)

lemma list_all_zeros [simp]: "list_all is_digit (replicate n CHR ''0'')"
  by (simp add: list_all_iff is_digit_def)

definition plain_char :: "char \<Rightarrow> bool" where
  "plain_char c = (is_digit c \<or> c \<in> set ''.E+-'')"

lemma plain_not_space: "plain_char c \<Longrightarrow> \<not> is_space c \<and> c \<noteq> CHR ''_''"
  by (auto simp: plain_char_def is_digit_def is_space_def Let_def)

lemma plain_text: "list_all plain_char s \<Longrightarrow> filter (\<lambda>c. c \<noteq> CHR ''_'') (py_strip s) = s"
  using plain_not_space by (simp add: list_all_iff py_strip_id filter_True)

lemma digits_plain: "list_all is_digit s \<Longrightarrow> list_all plain_char s"
  by (simp add: list_all_iff plain_char_def)

lemma split_sign_sign:
  "list_all is_digit s \<Longrightarrow> s \<noteq> [] \<Longrightarrow> split_sign ((if b then ''-'' else []) @ s @ t) = (b, s @ t)"
  using digits_no_marks [of s] by (cases s) (auto simp: split_sign_def startswith_def)

lemma exponent_of_show:
  "exponent_of (if e = 0 then [] else ''E'' @ (if e < 0 then show_int e else ''+'' @ show_int e)) = Some e"
proof -
  have nd: "show_nat n \<noteq> []" for n by (subst show_nat.simps) simp
  show ?thesis
    using nd
    by (auto simp: exponent_of_def split_sign_def startswith_def show_int_def)
qed

definition exp_text :: "int \<Rightarrow> string" where
  "exp_text e = (if e = 0 then [] else ''E'' @ (if e < 0 then show_int e else ''+'' @ show_int e))"

lemma exp_text_plain: "list_all plain_char (exp_text e)"
  by (auto simp: exp_text_def show_int_def list_all_append digits_plain plain_char_def)

lemma before_first_dot:
  "CHR ''.'' \<notin> set ip \<Longrightarrow> before_first CHR ''.'' (ip @ CHR ''.'' # fp) = ip"
  "CHR ''.'' \<notin> set ip \<Longrightarrow> after_first CHR ''.'' (ip @ CHR ''.'' # fp) = fp"
  "CHR ''.'' \<notin> set ip \<Longrightarrow> before_first CHR ''.'' ip = ip"
  "CHR ''.'' \<notin> set ip \<Longrightarrow> after_first CHR ''.'' ip = []"
proof -
  assume n: "CHR ''.'' \<notin> set ip"
  then have all: "\<forall>c\<in>set ip. c \<noteq> CHR ''.''" by auto
  show "before_first CHR ''.'' (ip @ CHR ''.'' # fp) = ip" "after_first CHR ''.'' (ip @ CHR ''.'' # fp) = fp"
    "before_first CHR ''.'' ip = ip" "after_first CHR ''.'' ip = []"
    using all by (simp_all add: before_first_def after_first_def takeWhile_append2 dropWhile_append2
        takeWhile_eq_all_conv [THEN iffD2] dropWhile_eq_Nil_conv [THEN iffD2])
qed

lemma dec_of_str_shape:
  assumes "ip \<noteq> []" and ip: "list_all is_digit ip" and fp: "list_all is_digit fp"
  shows "dec_of_str ((if neg then ''-'' else []) @ ip @ (if fp = [] then [] else CHR ''.'' # fp) @ exp_text e) =
    Inr (Dec (if neg then - int (read_digits (ip @ fp)) else int (read_digits (ip @ fp))) (e - int (length fp)))"
proof -
  let ?m = "ip @ (if fp = [] then [] else CHR ''.'' # fp)"
  let ?t = "?m @ exp_text e"
  have plain: "list_all plain_char ((if neg then ''-'' else []) @ ?t)"
    using digits_plain [OF ip] digits_plain [OF fp] exp_text_plain by (simp add: plain_char_def)
  have sign: "split_sign ((if neg then ''-'' else []) @ ?t) = (neg, ?t)"
    using split_sign_sign [OF ip assms(1), of neg "(if fp = [] then [] else CHR ''.'' # fp) @ exp_text e"] by simp
  have mant: "takeWhile (\<lambda>c. c \<noteq> CHR ''E'' \<and> c \<noteq> CHR ''e'') ?t = ?m"
  proof -
    have "takeWhile (\<lambda>c. c \<noteq> CHR ''E'' \<and> c \<noteq> CHR ''e'') (exp_text e) = []" by (simp add: exp_text_def)
    moreover have "\<forall>c\<in>set ?m. c \<noteq> CHR ''E'' \<and> c \<noteq> CHR ''e''"
      using digits_no_marks [OF ip] digits_no_marks [OF fp] by auto
    ultimately show ?thesis by (subst takeWhile_append2) (blast, simp only: append_Nil2)
  qed
  have parts: "before_first CHR ''.'' ?m = ip" "after_first CHR ''.'' ?m = fp"
    using before_first_dot digits_no_marks [OF ip] by simp_all
  have "py_strip ((if neg then ''-'' else []) @ ?t) = (if neg then ''-'' else []) @ ?t"
    "filter (\<lambda>c. c \<noteq> CHR ''_'') ((if neg then ''-'' else []) @ ?t) = (if neg then ''-'' else []) @ ?t"
    using plain_text [OF plain] plain_not_space plain by (simp_all add: list_all_iff py_strip_id filter_True)
  then have clean: "filter (\<lambda>c. c \<noteq> CHR ''_'') (py_strip ((if neg then ''-'' else []) @ ?t)) = (if neg then ''-'' else []) @ ?t"
    by (simp only:)
  have drp: "drop (length ?m) ?t = exp_text e" by simp
  have "dec_of_str ((if neg then ''-'' else []) @ ?t) =
    Inr (Dec (if neg then - int (read_digits (ip @ fp)) else int (read_digits (ip @ fp))) (e - int (length fp)))"
    unfolding dec_of_str_def clean sign Let_def prod.case mant parts drp exponent_of_show [folded exp_text_def] option.case
    using assms by (simp add: Let_def)
  then show ?thesis by simp
qed

lemma show_nat_nonempty: "show_nat n \<noteq> []"
  by (subst show_nat.simps) simp

lemma read_zeros_append: "read_digits (CHR ''0'' # replicate n CHR ''0'' @ s) = read_digits s"
  using read_zeros [of "Suc n" s] by simp

lemma signed_coefficient: "(if dcoef d < 0 then - int (nat \<bar>dcoef d\<bar>) else int (nat \<bar>dcoef d\<bar>)) = dcoef d"
  by simp

lemma dec_of_str_dec_str: "dec_of_str (dec_str d) = Inr d"
proof -
  define ds where "ds = show_nat (nat \<bar>dcoef d\<bar>)"
  define left where "left = dexp d + int (length ds)"
  have ds: "ds \<noteq> []" "list_all is_digit ds" "read_digits ds = nat \<bar>dcoef d\<bar>"
    by (simp_all add: ds_def show_nat_nonempty)
  have L: "1 \<le> length ds" using ds(1) by (cases ds) auto
  have d: "Dec (dcoef d) (dexp d) = d" by simp
  consider (small) "dexp d \<le> 0" "left > -6" "left \<le> 0" | (whole) "dexp d \<le> 0" "left > -6" "left > 0" "dexp d = 0"
    | (point) "dexp d \<le> 0" "left > -6" "left > 0" "dexp d < 0" | (sci) "\<not> (dexp d \<le> 0 \<and> left > -6)"
    by linarith
  then show ?thesis
  proof cases
    case small
    let ?fp = "replicate (nat (- left)) CHR ''0'' @ ds"
    have "dec_str d = (if dcoef d < 0 then ''-'' else []) @ ''0'' @ (if ?fp = [] then [] else CHR ''.'' # ?fp) @ exp_text 0"
      using small ds(1) by (simp add: dec_str_def Let_def ds_def [symmetric] left_def [symmetric] exp_text_def)
    then have "dec_of_str (dec_str d) = Inr (Dec (if dcoef d < 0 then - int (read_digits (''0'' @ ?fp))
        else int (read_digits (''0'' @ ?fp))) (0 - int (length ?fp)))"
      using dec_of_str_shape [of "''0''" ?fp "dcoef d < 0" 0] ds(2) by (simp add: is_digit_def list_all_append)
    then show ?thesis
      using small ds(3) signed_coefficient [of d] d by (simp add: read_zeros_append left_def)
  next
    case whole
    have "dec_str d = (if dcoef d < 0 then ''-'' else []) @ ds @ (if ([]::string) = [] then [] else CHR ''.'' # []) @ exp_text 0"
      using whole L by (simp add: dec_str_def Let_def ds_def [symmetric] left_def exp_text_def)
    then have "dec_of_str (dec_str d) = Inr (Dec (if dcoef d < 0 then - int (read_digits (ds @ []))
        else int (read_digits (ds @ []))) (0 - int (length ([]::string))))"
      by (simp only: dec_of_str_shape [OF ds(1,2), of "[]"] list.pred_inject)
    then show ?thesis using whole ds(3) signed_coefficient [of d] d by simp
  next
    case point
    let ?k = "nat left"
    have k: "0 < ?k" "?k < length ds" using point by (auto simp: left_def)
    have "dec_str d = (if dcoef d < 0 then ''-'' else []) @ take ?k ds @
        (if drop ?k ds = [] then [] else CHR ''.'' # drop ?k ds) @ exp_text 0"
      using point k by (simp add: dec_str_def Let_def ds_def [symmetric] left_def [symmetric] exp_text_def)
    note eq = this
    have shape: "take ?k ds \<noteq> []" "list_all is_digit (take ?k ds)" "list_all is_digit (drop ?k ds)"
      using k ds by (auto simp: list_all_iff dest: in_set_takeD in_set_dropD)
    have "dec_of_str (dec_str d) = Inr (Dec (if dcoef d < 0 then - int (read_digits (take ?k ds @ drop ?k ds))
        else int (read_digits (take ?k ds @ drop ?k ds))) (0 - int (length (drop ?k ds))))"
      unfolding eq by (rule dec_of_str_shape [OF shape])
    then show ?thesis using point k ds(3) signed_coefficient [of d] d by (simp add: left_def)
  next
    case sci
    have dp: "(if dexp d \<le> 0 \<and> left > -6 then left else 1) = 1" using sci by auto
    have "dec_str d = (if dcoef d < 0 then ''-'' else []) @ take 1 ds @
        (if drop 1 ds = [] then [] else CHR ''.'' # drop 1 ds) @ exp_text (left - 1)"
      using L unfolding dec_str_def Let_def ds_def [symmetric] left_def [symmetric] dp
      by (auto simp: exp_text_def)
    note eq = this
    have shape: "take 1 ds \<noteq> []" "list_all is_digit (take 1 ds)" "list_all is_digit (drop 1 ds)"
      using ds by (auto simp: list_all_iff dest: in_set_takeD in_set_dropD)
    have "dec_of_str (dec_str d) = Inr (Dec (if dcoef d < 0 then - int (read_digits (take 1 ds @ drop 1 ds))
        else int (read_digits (take 1 ds @ drop 1 ds))) (left - 1 - int (length (drop 1 ds))))"
      unfolding eq by (rule dec_of_str_shape [OF shape])
    then show ?thesis using L ds(3) signed_coefficient [of d] d by (simp add: left_def)
  qed
qed

section \<open>Comparing operands\<close>

lemma interval_sum_contains:
  assumes "\<bar>dcoef a\<bar> < 10 ^ 28" and "dval a = dval x + dval y"
    and "dval (lo i) \<le> dval x" "dval x \<le> dval (hi i)" "dval (lo j) \<le> dval y" "dval y \<le> dval (hi j)"
  shows "dval (lo (interval_add i j)) \<le> dval a \<and> dval a \<le> dval (hi (interval_add i j))"
proof -
  have fix_a: "dval (dec_fix a) = dval a" using assms(1) by (intro dec_fix_small) (simp add: dec_prec_def)
  have "dval (dec_fix (dec_add_exact (lo i) (lo j))) \<le> dval (dec_fix a)"
    "dval (dec_fix a) \<le> dval (dec_fix (dec_add_exact (hi i) (hi j)))"
    using assms by (auto intro!: dval_fix_mono simp: dval_add_exact)
  then show ?thesis by (simp add: interval_add_def dec_add_def fix_a)
qed

lemma compare_operands_pass:
  assumes "operand_interval whole = Inr (Some t)" "operand_interval left = Inr (Some l)"
    and "operand_interval right = Inr (Some r)" and "intersects t (interval_add l r)"
  shows "compare_operands name acc whole left right =
    Inr \<lparr>if_name = name, if_accession = acc, if_status = Pass, if_detail = None\<rparr>"
  using assms by (simp add: compare_operands_def)

section \<open>Gold checks\<close>

lemma check_gold_loop_clean:
  "check_gold_loop index build as = Inr (n, []) \<longleftrightarrow>
     n = length (filter (\<lambda>a. ga_accession a \<in> build) as) \<and>
     list_all (\<lambda>a. ga_accession a \<in> build \<longrightarrow> (\<exists>obs. index (ga_accession a, ga_metric a) = Some obs \<and>
       compare_gold a obs = Inr None)) as"
proof (induction as arbitrary: n)
  case (Cons a as)
  show ?case
  proof (cases "ga_accession a \<in> build")
    case True
    then show ?thesis
      using Cons.IH by (auto simp: result_simps split: option.splits)
  qed (use Cons.IH in simp)
qed simp

lemma obs_index_Some:
  "obs_index obs (a, m) = Some ob \<Longrightarrow> ob \<in> set obs \<and> ob_accession ob = a \<and> ob_metric ob = m"
  by (auto simp: obs_index_def dest: map_of_SomeD)

section \<open>Strict and tolerant loading\<close>

lemma load_decision_strict:
  "load_decision sha ms False f = Inr ld \<Longrightarrow> \<not> (ld_stale_inactive ld \<and> dr_status (ld_record ld) = Dec_accepted) \<Longrightarrow>
     load_decision sha ms True f = Inr ld"
  by (cases f) (auto simp: load_decision_Inr)

lemma load_decisions_strict:
  assumes "load_decisions sha yml files metrics False = Inr reg"
    and "\<forall>ld\<in>set (rg_decisions reg). \<not> (ld_stale_inactive ld \<and> dr_status (ld_record ld) = Dec_accepted)"
  shows "load_decisions sha yml files metrics True = Inr reg"
proof -
  have strict: "map_res (load_decision sha ms False) fs = Inr lds \<Longrightarrow>
      \<forall>ld\<in>set lds. \<not> (ld_stale_inactive ld \<and> dr_status (ld_record ld) = Dec_accepted) \<Longrightarrow>
      map_res (load_decision sha ms True) fs = Inr lds" for ms fs lds
    unfolding map_res_Inr_iff by (erule list.rel_mono_strong) (use load_decision_strict in blast)
  show ?thesis using assms strict by (auto simp: load_decisions_def res_bind_Inr_iff)
qed

section \<open>Properties\<close>

text \<open>
  Property C33: an identity check raises no false alarm.  When the operands of an identity are
  internally consistent and some values inside their intervals satisfy it exactly (the total having
  at most 28 digits), the finding is a pass, although the interval sum is rounded.
\<close>

theorem identity_no_false_alarm:
  assumes "operand_interval whole = Inr (Some t)" "operand_interval left = Inr (Some l)"
    and "operand_interval right = Inr (Some r)"
    and "dval (lo t) \<le> dval x" "dval x \<le> dval (hi t)" "dval (lo l) \<le> dval y" "dval y \<le> dval (hi l)"
    and "dval (lo r) \<le> dval z" "dval z \<le> dval (hi r)"
    and "dval x = dval y + dval z" and "\<bar>dcoef x\<bar> < 10 ^ 28"
  shows "compare_operands name acc whole left right =
    Inr \<lparr>if_name = name, if_accession = acc, if_status = Pass, if_detail = None\<rparr>"
proof -
  have "dval (lo (interval_add l r)) \<le> dval x \<and> dval x \<le> dval (hi (interval_add l r))"
    by (rule interval_sum_contains [OF assms(11,10,6-9)])
  then have "intersects t (interval_add l r)" using assms(4,5) by (auto simp: intersects_iff)
  then show ?thesis by (rule compare_operands_pass [OF assms(1-3)])
qed

text \<open>
  The gold check is clean exactly when every assertion about a built filing finds its
  observation and agrees with it; the number checked is the number of those assertions, so a clean
  report never comes from assertions that were skipped.
\<close>

theorem gold_check_clean:
  "check_gold_assertions as obs build = Inr (n, []) \<longleftrightarrow>
     n = length (filter (\<lambda>a. ga_accession a \<in> build) as) \<and>
     list_all (\<lambda>a. \<exists>ob. obs_index obs (ga_accession a, ga_metric a) = Some ob \<and> compare_gold a ob = Inr None)
       (filter (\<lambda>a. ga_accession a \<in> build) as)"
  unfolding check_gold_assertions_def check_gold_loop_clean
  by (auto simp: list_all_iff)

text \<open>
  A rules check without findings guarantees the build's strict load: loading the same
  files with stale accepted decisions fatal succeeds, and in the result every cohort metric has an
  accepted exact decision with a current contract hash.
\<close>

theorem rules_check_sound:
  assumes "run_rules_check sha metrics_yml files cohort = Inr []"
  shows "\<exists>reg. load_decisions sha metrics_yml files None True = Inr reg \<and>
    list_all (\<lambda>m. exact_decisions reg m \<noteq> []) M0_METRICS_ORDER"
proof -
  obtain reg co where reg: "load_decisions sha metrics_yml files None False = Inr reg"
    and co: "load_m0_cohort cohort = Inr co"
    and none: "filter (\<lambda>m. exact_decisions reg m = []) (co_metrics co) = []"
      "concat (map stale_findings (rg_decisions reg)) = []"
    using assms by (auto simp: run_rules_check_def res_bind_Inr_iff)
  have "\<forall>ld\<in>set (rg_decisions reg). \<not> (ld_stale_inactive ld \<and> dr_status (ld_record ld) = Dec_accepted)"
    using none(2) by (auto simp: stale_findings_def split: if_splits)
  then have "load_decisions sha metrics_yml files None True = Inr reg" by (rule load_decisions_strict [OF reg])
  moreover have "co_metrics co = M0_METRICS_ORDER" using co by (auto simp: load_m0_cohort_def split: if_splits)
  ultimately show ?thesis using none(1) by (auto simp: list_all_iff filter_empty_conv)
qed

section \<open>Example: the frozen cohort\<close>

definition cohort_metric :: "string \<Rightarrow> canonical_metric" where
  "cohort_metric key = example_assets\<lparr>cm_key := key, cm_definition := key\<rparr>"

definition cohort_metrics_yml :: json where
  "cohort_metrics_yml = JObj [(''metrics'', JArr (map (\<lambda>key. JObj [(''key'', JStr key), (''name'', JStr ''Assets''),
     (''kind'', JStr ''reported''), (''statement'', JStr ''balance_sheet''), (''period_type'', JStr ''instant''),
     (''value_kind'', JStr ''numeric''), (''unit_dimension'', JStr ''monetary''), (''definition'', JStr key),
     (''includes'', JArr [JStr ''a'']), (''excludes'', JArr [JStr ''b''])]) M0_METRICS_ORDER))]"

definition cohort_files :: "(path \<times> decision_record) list" where
  "cohort_files = map (\<lambda>key. ([key], example_decision\<lparr>dr_id := key, dr_metric := key,
     dr_contract_hash := definition_hash id (cohort_metric key)\<rparr>)) M0_METRICS_ORDER"

lemma cohort_items:
  "map_res metric_item (map (\<lambda>key. JObj [(''key'', JStr key), (''name'', JStr ''Assets''),
     (''kind'', JStr ''reported''), (''statement'', JStr ''balance_sheet''), (''period_type'', JStr ''instant''),
     (''value_kind'', JStr ''numeric''), (''unit_dimension'', JStr ''monetary''), (''definition'', JStr key),
     (''includes'', JArr [JStr ''a'']), (''excludes'', JArr [JStr ''b''])]) M0_METRICS_ORDER) =
   Inr (map cohort_metric M0_METRICS_ORDER)"
  by code_simp

lemma cohort_distinct: "distinct_metrics id (map cohort_metric M0_METRICS_ORDER)"
proof -
  have "inj_on (\<lambda>k. duplicate_payload_signature id (cohort_metric k)) (set M0_METRICS_ORDER)"
    by (rule inj_onI) (simp add: duplicate_payload_signature_def duplicate_payload_iff same_definition_def
        cohort_metric_def del: canonical_json_inject)
  moreover have "distinct M0_METRICS_ORDER" by code_simp
  ultimately show ?thesis
    by (simp add: distinct_metrics_def distinct_map o_def inj_on_def cohort_metric_def)
qed

definition cohort_table :: "string \<rightharpoonup> canonical_metric" where
  "cohort_table = map_of (rev (map (\<lambda>m. (cm_key m, m)) (sort_key cm_key (map cohort_metric M0_METRICS_ORDER))))"

lemma cohort_load: "load_metrics id cohort_metrics_yml =
    Inr \<lparr>lr_metrics = sort_key cm_key (map cohort_metric M0_METRICS_ORDER),
      lr_semantic_registry_hash = semantic_registry_hash id (sort_key cm_key (map cohort_metric M0_METRICS_ORDER))\<rparr>"
proof -
  have "M0_METRICS_ORDER \<noteq> []" by code_simp
  then show ?thesis using cohort_items cohort_distinct by (simp add: load_metrics_iff cohort_metrics_yml_def)
qed

lemma cohort_table_at:
  assumes "k \<in> set M0_METRICS_ORDER"
  shows "cohort_table k = Some (cohort_metric k)"
proof -
  let ?ms = "sort_key cm_key (map cohort_metric M0_METRICS_ORDER)"
  have "distinct M0_METRICS_ORDER" by code_simp
  then have "distinct (map cm_key (map cohort_metric M0_METRICS_ORDER))" by (simp add: cohort_metric_def o_def)
  then have "distinct (map cm_key ?ms)" by (rule distinct_map_perm [rotated]) simp
  then have "distinct (map fst (rev (map (\<lambda>m. (cm_key m, m)) ?ms)))" by (simp add: rev_map [symmetric] o_def)
  then show ?thesis using assms by (auto simp: cohort_table_def cohort_metric_def image_iff)
qed

lemma map_res_total: "(\<And>x. x \<in> set xs \<Longrightarrow> f x = Inr (g x)) \<Longrightarrow> map_res f xs = Inr (map g xs)"
  by (induction xs) auto

definition cohort_loaded :: "path \<times> decision_record \<Rightarrow> loaded_decision" where
  "cohort_loaded f = \<lparr>ld_record = snd f, ld_path = fst f, ld_stale_inactive = False\<rparr>"

definition cohort_registry :: decision_registry where
  "cohort_registry = \<lparr>rg_decisions = map cohort_loaded (sort_key fst cohort_files), rg_metrics_by_key = cohort_table\<rparr>"

lemma cohort_file:
  assumes "f \<in> set cohort_files"
  shows "load_decision id cohort_table fatal f = Inr (cohort_loaded f)"
    and "dr_status (snd f) = Dec_accepted" "dr_relation (snd f) = Rel_exact"
proof -
  obtain k where k: "k \<in> set M0_METRICS_ORDER" "f = ([k], example_decision\<lparr>dr_id := k, dr_metric := k,
     dr_contract_hash := definition_hash id (cohort_metric k)\<rparr>)"
    using assms by (auto simp: cohort_files_def)
  have "record_ok (snd f)" using example_record_ok(1) k(2) by (simp add: record_ok_def)
  then show "load_decision id cohort_table fatal f = Inr (cohort_loaded f)"
    using cohort_table_at [OF k(1)] k(2) by (simp add: load_decision_def validate_record_fixed cohort_loaded_def)
  show "dr_status (snd f) = Dec_accepted" "dr_relation (snd f) = Rel_exact"
    using k(2) by (simp_all add: example_decision_def)
qed

lemma cohort_metric_names: "map (dr_metric \<circ> snd) cohort_files = M0_METRICS_ORDER"
  by (simp add: cohort_files_def o_def)

lemma cohort_load_decisions: "load_decisions id cohort_metrics_yml cohort_files None fatal = Inr cohort_registry"
proof -
  have "distinct M0_METRICS_ORDER" by code_simp
  then have "distinct (map (dr_metric \<circ> snd) (sort_key fst cohort_files))"
    using cohort_metric_names distinct_map_perm [of cohort_files "sort_key fst cohort_files" "dr_metric \<circ> snd"] by simp
  then have "distinct (map (\<lambda>f. decision_key (snd f)) (sort_key fst cohort_files))"
    by (auto simp: distinct_map inj_on_def decision_key_def)
  then have "check_decision_keys (map cohort_loaded (sort_key fst cohort_files)) [] = Inr ()"
    by (simp add: check_decision_keys_iff cohort_loaded_def o_def)
  moreover have "map_res (load_decision id cohort_table fatal) (sort_key fst cohort_files) =
    Inr (map cohort_loaded (sort_key fst cohort_files))"
    by (rule map_res_total) (simp add: cohort_file(1))
  ultimately show ?thesis
    by (simp add: load_decisions_def cohort_load cohort_table_def [symmetric] cohort_registry_def)
qed

lemma cohort_exact:
  assumes "m \<in> set M0_METRICS_ORDER"
  shows "exact_decisions cohort_registry m \<noteq> []"
proof -
  have "m \<in> set (map (dr_metric \<circ> snd) cohort_files)" unfolding cohort_metric_names by (rule assms)
  then obtain f where "f \<in> set cohort_files" "dr_metric (snd f) = m" by auto
  then show ?thesis
    using cohort_file(2,3) by (auto simp: exact_decisions_def cohort_registry_def cohort_loaded_def filter_empty_conv)
qed

lemma cohort_rules_clean:
  "run_rules_check id cohort_metrics_yml cohort_files \<lparr>co_metrics = M0_METRICS_ORDER, co_slots = [''a'']\<rparr> = Inr []"
proof -
  have "M0_METRICS_ORDER \<noteq> []" by code_simp
  moreover have "stale_findings (cohort_loaded f) = []" for f
    by (simp add: stale_findings_def cohort_loaded_def)
  ultimately show ?thesis
    using cohort_exact
    by (simp add: run_rules_check_def cohort_load_decisions load_m0_cohort_def filter_empty_conv)
       (simp add: cohort_registry_def)
qed

theorem rules_check_sound_witness:
  "\<exists>reg. load_decisions id cohort_metrics_yml cohort_files None True = Inr reg \<and>
     exact_decisions reg ''revenue'' \<noteq> []"
  using rules_check_sound [OF cohort_rules_clean] by (auto simp: M0_METRICS_ORDER_def)

lemma example_operands:
  "operand_interval [example_fact 1 (Dec 10 0) ''INF''] = Inr (Some \<lparr>lo = Dec 10 0, hi = Dec 10 0\<rparr>)"
  "operand_interval [example_fact 2 (Dec 6 0) ''0''] = Inr (Some \<lparr>lo = Dec 55 (-1), hi = Dec 65 (-1)\<rparr>)"
  "operand_interval [example_fact 3 (Dec 4 0) ''INF''] = Inr (Some \<lparr>lo = Dec 4 0, hi = Dec 4 0\<rparr>)"
  by code_simp+

theorem identity_no_false_alarm_witness:
  "compare_operands ''balance_sheet'' ''a'' [example_fact 1 (Dec 10 0) ''INF''] [example_fact 2 (Dec 6 0) ''0'']
     [example_fact 3 (Dec 4 0) ''INF''] =
   Inr \<lparr>if_name = ''balance_sheet'', if_accession = ''a'', if_status = Pass, if_detail = None\<rparr>"
  by (rule identity_no_false_alarm [OF example_operands, of "Dec 10 0" "Dec 6 0" "Dec 4 0"])
     (simp_all add: dval_def power_int_minus)

end
