(* ===== verification/Build_Run.thy ===== *)
theory Build_Run
  imports Source_Load Validate
begin

text \<open>
  \<^verbatim>\<open>src/edgar/financials/build.py\<close>: the build over a list of accessions, one observation per filing and
  cohort metric, with identity findings and the gold check; the JSON and CSV rows it writes.

  The Git state, the clock, YAML reading and the file system are outside: they are arguments.
\<close>

section \<open>The build\<close>

record build_result =
  br_observations :: "observation list"
  br_findings :: "(string \<times> string) list list"
  br_manifest :: json
  br_gold_assertions_checked :: nat
  br_gold_errors :: "(string \<times> string) list"

fun finding_status_text :: "finding_status \<Rightarrow> string" where
  "finding_status_text Pass = ''pass''"
| "finding_status_text Fail = ''fail''"
| "finding_status_text Not_applicable = ''not_applicable''"

definition finding_dict :: "identity_finding \<Rightarrow> (string \<times> string) list" where
  "finding_dict f = [(''accession'', if_accession f), (''name'', if_name f),
     (''status'', finding_status_text (if_status f)), (''detail'', case if_detail f of None \<Rightarrow> [] | Some d \<Rightarrow> d)]"

definition metric_period :: "decision_registry \<Rightarrow> string \<Rightarrow> period_type res" where
  "metric_period registry metric = (case rg_metrics_by_key registry metric of
     None \<Rightarrow> Inl (KeyError metric) | Some m \<Rightarrow> Inr (cm_period_type m))"

definition build_ineligible ::
  "decision_registry \<Rightarrow> string list \<Rightarrow> string \<Rightarrow> filing_metadata \<Rightarrow> observation list res" where
  "build_ineligible registry metrics accession meta =
     map_res (\<lambda>metric. res_bind (metric_period registry metric) (\<lambda>pt.
       select_metric metric (fm_form meta) (fm_cik meta) accession None [] [] registry (fm_accepted_at meta) pt)) metrics"

definition build_loaded ::
  "decision_registry \<Rightarrow> string list \<Rightarrow> string \<Rightarrow> loaded_filing \<Rightarrow>
     (observation list \<times> (string \<times> string) list list) res" where
  "build_loaded registry metrics accession l =
     res_bind (resolve_supports (lf_facts l) registry accession (lf_cik l)) (\<lambda>supports.
     res_bind (resolve_required_reporting_period (lf_dei_candidates l) (lf_cik l) (lf_facts l)) (\<lambda>period.
     res_bind (run_identity_checks accession (lf_cik l) period (lf_facts l)) (\<lambda>findings.
     res_bind (map_res (\<lambda>metric. res_bind (metric_period registry metric) (\<lambda>pt.
         select_metric metric (lf_form l) (lf_cik l) accession (Some period) (lf_facts l) supports registry
           (lf_accepted_at l) pt)) metrics) (\<lambda>obs.
       Inr (obs, map finding_dict findings)))))"

definition build_accession ::
  "source_tables \<Rightarrow> decision_registry \<Rightarrow> string list \<Rightarrow> string \<Rightarrow>
     (observation list \<times> (string \<times> string) list list) res" where
  "build_accession t registry metrics accession = (case load_filing_metadata t accession of
     None \<Rightarrow> Inl (ValueError ''accession not in source.*'')
   | Some meta \<Rightarrow>
       if fm_form meta \<notin> set ANNUAL_FORMS
       then res_bind (build_ineligible registry metrics accession meta) (\<lambda>obs. Inr (obs, []))
       else res_bind (load_filing t accession) (\<lambda>loaded. case loaded of
              None \<Rightarrow> Inl AssertionError
            | Some l \<Rightarrow> build_loaded registry metrics accession l))"

definition build_manifest ::
  "(string \<Rightarrow> string) \<Rightarrow> string option \<times> bool \<Rightarrow> (string \<times> string) list \<Rightarrow> string \<Rightarrow> string \<Rightarrow> string list \<Rightarrow> json" where
  "build_manifest sha git_state decision_files extractor_version built_at accessions =
     JObj [(''git_commit'', case fst git_state of None \<Rightarrow> JNull | Some c \<Rightarrow> JStr c),
       (''git_dirty'', JBool (snd git_state)), (''extractor_version'', JStr extractor_version),
       (''accessions'', JArr (map JStr accessions)),
       (''decision_file_hashes'', JObj (map (\<lambda>(rel, bytes). (rel, JStr (sha bytes))) decision_files)),
       (''built_at'', JStr built_at)]"

text \<open>\<open>manifest\<close> is \<^const>\<open>build_manifest\<close> with the environment's values filled in; \<open>gold\<close> is the content of \<^verbatim>\<open>m0-annual.yml\<close>, or \<^term>\<open>None\<close> when the file is missing.\<close>

definition run_build ::
  "(string \<Rightarrow> string) \<Rightarrow> json \<Rightarrow> (path \<times> decision_record) list \<Rightarrow> m0_cohort \<Rightarrow> gold_assertion list option \<Rightarrow>
     source_tables \<Rightarrow> string list \<Rightarrow> bool \<Rightarrow> (string list \<Rightarrow> json) \<Rightarrow> build_result res" where
  "run_build sha metrics_yml files raw_cohort gold t accessions check_gold manifest =
     res_bind (load_m0_cohort raw_cohort) (\<lambda>cohort.
     res_bind (load_decisions sha metrics_yml files None True) (\<lambda>registry.
     res_bind (guard_res (\<not> check_gold \<or> gold \<noteq> None) (ValueError ''gold file missing for --check-gold'')) (\<lambda>_.
     res_bind (map_res (build_accession t registry (co_metrics cohort)) accessions) (\<lambda>parts.
       let observations = concat (map fst parts); findings = concat (map snd parts)
       in if check_gold
          then res_bind (check_gold_assertions (the gold) observations (set accessions)) (\<lambda>(checked, errors).
                 if errors \<noteq> [] then Inl (ValueError ''gold check failed'')
                 else Inr \<lparr>br_observations = observations, br_findings = findings, br_manifest = manifest accessions,
                        br_gold_assertions_checked = checked, br_gold_errors = errors\<rparr>)
          else Inr \<lparr>br_observations = observations, br_findings = findings, br_manifest = manifest accessions,
                 br_gold_assertions_checked = 0, br_gold_errors = []\<rparr>))))"

section \<open>Output rows\<close>

fun status_text :: "observation_status \<Rightarrow> string" where
  "status_text Ob_value = ''value''"
| "status_text Ob_missing = ''missing''"
| "status_text Ob_unsupported = ''unsupported''"
| "status_text Ob_conflict = ''conflict''"

fun relation_text :: "decision_relation \<Rightarrow> string" where
  "relation_text Rel_exact = ''exact''"
| "relation_text Rel_narrower = ''narrower''"
| "relation_text Rel_broader = ''broader''"
| "relation_text Rel_related = ''related''"

fun method_text :: "decision_method \<Rightarrow> string" where
  "method_text Curated_method = ''curated''"
| "method_text Reviewed_method = ''reviewed''"

abbreviation jopt :: "string option \<Rightarrow> json" where
  "jopt s \<equiv> (case s of None \<Rightarrow> JNull | Some t \<Rightarrow> JStr t)"

definition support_dict :: "support_ref \<Rightarrow> json" where
  "support_dict s = JObj [(''fact_id'', JInt (sr_fact_id s)), (''decision_id'', JStr (sr_decision_id s)),
     (''relation'', JStr (relation_text (sr_relation s))), (''tier'', JInt (sr_tier s)),
     (''source_qname'', JStr (sr_source_qname s)), (''application_method'', JStr (method_text (sr_application_method s)))]"

definition observation_dict :: "observation \<Rightarrow> json" where
  "observation_dict o' = JObj
     [(''cik'', JStr (ob_cik o')), (''accession'', JStr (ob_accession o')), (''metric'', JStr (ob_metric o')),
      (''fy'', jopt (ob_fy o')), (''report_focus'', jopt (ob_report_focus o')), (''period_role'', jopt (ob_period_role o')),
      (''period_start'', jopt (ob_period_start o')), (''period_end'', jopt (ob_period_end o')),
      (''status'', JStr (status_text (ob_status o'))), (''reason'', jopt (map_option reason_text (ob_reason o'))),
      (''numeric'', jopt (map_option dec_str (ob_numeric o'))), (''decimals'', jopt (ob_decimals o')),
      (''unit'', jopt (ob_unit o')), (''decision_ids'', JArr (map JStr (ob_decision_ids o'))),
      (''fact_ids'', JArr (map JInt (ob_fact_ids o'))), (''supports'', JArr (map support_dict (ob_supports o'))),
      (''relation'', jopt (map_option relation_text (ob_relation o'))),
      (''tier'', case ob_tier o' of None \<Rightarrow> JNull | Some t \<Rightarrow> JInt t),
      (''available_at'', jopt (ob_available_at o')), (''view'', JStr (ob_view o'))]"

definition enumerate_index :: "string list \<Rightarrow> string \<Rightarrow> nat" where
  "enumerate_index xs x = (case map_of (rev (zip xs [0..<length xs])) x of None \<Rightarrow> 0 | Some i \<Rightarrow> i)"

definition csv_order :: "string list \<Rightarrow> string list \<Rightarrow> observation list \<Rightarrow> observation list" where
  "csv_order cohort_metrics accession_order obs =
     sort_key (\<lambda>o'. (enumerate_index accession_order (ob_accession o'), enumerate_index cohort_metrics (ob_metric o'))) obs"

definition or_empty :: "string option \<Rightarrow> string" where
  "or_empty s = (case s of None \<Rightarrow> [] | Some t \<Rightarrow> t)"

text \<open>\<^verbatim>\<open>json.dumps(list(xs))\<close> with its default separators.\<close>

definition dumps_list :: "json list \<Rightarrow> string" where
  "dumps_list xs = ''['' @ join '', '' (map dumps xs) @ '']''"

definition csv_row :: "observation \<Rightarrow> (string \<times> string) list" where
  "csv_row o' =
     [(''cik'', ob_cik o'), (''accession'', ob_accession o'), (''metric'', ob_metric o'),
      (''period_start'', or_empty (ob_period_start o')), (''period_end'', or_empty (ob_period_end o')),
      (''status'', status_text (ob_status o')), (''reason'', or_empty (map_option reason_text (ob_reason o'))),
      (''numeric'', or_empty (map_option dec_str (ob_numeric o'))), (''decimals'', or_empty (ob_decimals o')),
      (''unit'', or_empty (ob_unit o')), (''decision_ids'', dumps_list (map JStr (ob_decision_ids o'))),
      (''fact_ids'', dumps_list (map JInt (ob_fact_ids o'))), (''available_at'', or_empty (ob_available_at o')),
      (''view'', ob_view o')]"

definition observations_csv :: "build_result \<Rightarrow> string list \<Rightarrow> string list \<Rightarrow> (string \<times> string) list list" where
  "observations_csv result cohort_metrics accession_order =
     map csv_row (csv_order cohort_metrics accession_order (br_observations result))"

section \<open>Slots\<close>

lemma ineligible_slots:
  "build_ineligible reg ms acc meta = Inr obs \<Longrightarrow> map (\<lambda>x. (ob_accession x, ob_metric x)) obs = map (Pair acc) ms"
  unfolding build_ineligible_def
  by (erule map_res_keys) (auto simp: res_bind_Inr_iff of_slot_def dest!: select_slot)

lemma build_accession_slots:
  assumes "build_accession t reg ms acc = Inr part"
  shows "map (\<lambda>x. (ob_accession x, ob_metric x)) (fst part) = map (Pair acc) ms"
proof -
  obtain meta where meta: "load_filing_metadata t acc = Some meta"
    using assms by (cases "load_filing_metadata t acc") (auto simp: build_accession_def)
  show ?thesis
  proof (cases "fm_form meta \<in> set ANNUAL_FORMS")
    case False
    then show ?thesis
      using assms meta ineligible_slots by (auto simp: build_accession_def res_bind_Inr_iff)
  next
    case True
    then obtain l where "build_loaded reg ms acc l = Inr part"
      using assms meta by (auto simp: build_accession_def res_bind_Inr_iff split: option.splits)
    then obtain sups p fs where obs: "map_res (\<lambda>metric. res_bind (metric_period reg metric) (\<lambda>pt.
         select_metric metric (lf_form l) (lf_cik l) acc (Some p) (lf_facts l) sups reg
           (lf_accepted_at l) pt)) ms = Inr (fst part)"
      by (auto simp: build_loaded_def res_bind_Inr_iff)
    show ?thesis by (rule map_res_keys [OF obs]) (auto simp: res_bind_Inr_iff of_slot_def dest!: select_slot)
  qed
qed

lemma run_build_Inr:
  assumes "run_build sha yml files raw gold t accs check manifest = Inr r"
  obtains co reg parts where "load_m0_cohort raw = Inr co" "load_decisions sha yml files None True = Inr reg"
    "map_res (build_accession t reg (co_metrics co)) accs = Inr parts"
    "br_observations r = concat (map fst parts)" "br_gold_errors r = []"
    "check \<Longrightarrow> \<exists>g n. gold = Some g \<and> check_gold_assertions g (br_observations r) (set accs) = Inr (n, [])"
proof -
  obtain co reg parts where 1: "load_m0_cohort raw = Inr co" "load_decisions sha yml files None True = Inr reg"
    "\<not> check \<or> gold \<noteq> None" "map_res (build_accession t reg (co_metrics co)) accs = Inr parts"
    using assms by (auto simp: run_build_def res_bind_Inr_iff)
  note rest = assms [unfolded run_build_def 1(1,2,4) res_bind.simps guard_res_def if_P [OF 1(3)] Let_def]
  show ?thesis
  proof (cases check)
    case True
    then obtain g n where g: "gold = Some g" "check_gold_assertions g (concat (map fst parts)) (set accs) = Inr (n, [])"
      "br_observations r = concat (map fst parts)" "br_gold_errors r = []"
      using rest 1(3) by (auto simp: res_bind_Inr_iff split: if_splits)
    show ?thesis by (rule that [OF 1(1,2,4) g(3,4)]) (use g in simp)
  next
    case False
    then show ?thesis using rest by (intro that [OF 1(1,2,4)]) auto
  qed
qed

lemma parts_slots:
  "map_res (build_accession t reg ms) accs = Inr parts \<Longrightarrow>
     map (\<lambda>x. (ob_accession x, ob_metric x)) (concat (map fst parts)) = concat (map (\<lambda>a. map (Pair a) ms) accs)"
  by (induction accs arbitrary: parts) (auto simp: res_bind_Inr_iff dest!: build_accession_slots)

lemma load_m0_order: "load_m0_cohort raw = Inr co \<Longrightarrow> co_metrics co = M0_METRICS_ORDER"
  by (auto simp: load_m0_cohort_def split: if_splits)

lemma run_build_slots:
  assumes "run_build sha yml files raw gold t accs check manifest = Inr r"
  shows "map (\<lambda>x. (ob_accession x, ob_metric x)) (br_observations r) = List.product accs M0_METRICS_ORDER"
  using assms
proof (rule run_build_Inr)
  fix co reg parts
  assume "load_m0_cohort raw = Inr co" "map_res (build_accession t reg (co_metrics co)) accs = Inr parts"
    "br_observations r = concat (map fst parts)"
  then show ?thesis using parts_slots load_m0_order by (simp add: product_concat_map)
qed

section \<open>The order of the CSV rows\<close>

lemma sorted_product:
  assumes "sorted xs" and "distinct xs" and "sorted ys"
  shows "sorted (List.product xs ys)"
  using assms(1,2)
proof (induction xs)
  case (Cons x xs)
  have 1: "sorted (map (Pair x) ys)" using assms(3) by (induction ys) auto
  have 2: "p \<le> q" if "p \<in> set (map (Pair x) ys)" "q \<in> set (List.product xs ys)" for p q
    using that Cons.prems by (auto simp: less_le)
  show ?case using 1 2 Cons by (auto simp: sorted_append)
qed simp

lemma enumerate_index_nth: "distinct xs \<Longrightarrow> map (enumerate_index xs) xs = [0..<length xs]"
proof (rule nth_equalityI)
  fix i assume d: "distinct xs" and i: "i < length (map (enumerate_index xs) xs)"
  have "distinct (map fst (rev (zip xs [0..<length xs])))" using d by (simp add: rev_map [symmetric])
  moreover have "(xs ! i, i) \<in> set (rev (zip xs [0..<length xs]))" using i by (auto simp: set_zip)
  ultimately have "map_of (rev (zip xs [0..<length xs])) (xs ! i) = Some i" by (simp add: map_of_is_SomeI)
  then show "map (enumerate_index xs) xs ! i = [0..<length xs] ! i"
    using i by (simp add: enumerate_index_def)
qed simp

lemma map_product: "map (\<lambda>p. (f (fst p), g (snd p))) (List.product xs ys) = List.product (map f xs) (map g ys)"
  by (induction xs) auto

lemma csv_order_build:
  assumes "map (\<lambda>x. (ob_accession x, ob_metric x)) obs = List.product accs ms" and "distinct accs" "distinct ms"
  shows "csv_order ms accs obs = obs"
proof -
  have "map (\<lambda>x. (enumerate_index accs (ob_accession x), enumerate_index ms (ob_metric x))) obs =
    map (\<lambda>p. (enumerate_index accs (fst p), enumerate_index ms (snd p))) (List.product accs ms)"
    unfolding assms(1) [symmetric] by simp
  also have "\<dots> = List.product [0..<length accs] [0..<length ms]"
    unfolding map_product using assms(2,3) by (simp add: enumerate_index_nth)
  finally have "sorted (map (\<lambda>x. (enumerate_index accs (ob_accession x), enumerate_index ms (ob_metric x))) obs)"
    by (simp only: sorted_product sorted_upt distinct_upt)
  then show ?thesis unfolding csv_order_def by (rule sort_key_id_if_sorted)
qed

section \<open>Where the values of a build come from\<close>

lemma no_period_no_value:
  "select_metric metric form cik acc None facts sups reg avail pt = Inr ob \<Longrightarrow> ob_status ob \<noteq> Ob_value"
  by (erule select_metric_cases) simp_all

lemma build_value_source:
  assumes "build_accession t reg ms acc = Inr part" and "ob \<in> set (fst part)" and "ob_status ob = Ob_value"
  obtains l p pt sups where "load_filing t acc = Inr (Some l)"
    "resolve_supports (lf_facts l) reg acc (lf_cik l) = Inr sups"
    "resolve_required_reporting_period (lf_dei_candidates l) (lf_cik l) (lf_facts l) = Inr p"
    "metric_period reg (ob_metric ob) = Inr pt"
    "select_metric (ob_metric ob) (lf_form l) (lf_cik l) acc (Some p) (lf_facts l) sups reg (lf_accepted_at l) pt = Inr ob"
proof -
  obtain meta where meta: "load_filing_metadata t acc = Some meta"
    using assms(1) by (cases "load_filing_metadata t acc") (auto simp: build_accession_def)
  show ?thesis
  proof (cases "fm_form meta \<in> set ANNUAL_FORMS")
    case False
    then have inel: "build_ineligible reg ms acc meta = Inr (fst part)"
      using assms(1) meta by (auto simp: build_accession_def res_bind_Inr_iff)
    obtain metric where "res_bind (metric_period reg metric) (\<lambda>pt.
       select_metric metric (fm_form meta) (fm_cik meta) acc None [] [] reg (fm_accepted_at meta) pt) = Inr ob"
      using map_res_set [OF inel [unfolded build_ineligible_def] assms(2)] by blast
    then show ?thesis using no_period_no_value assms(3) by (auto simp: res_bind_Inr_iff)
  next
    case True
    then obtain l where l: "load_filing t acc = Inr (Some l)" "build_loaded reg ms acc l = Inr part"
      using assms(1) meta by (auto simp: build_accession_def res_bind_Inr_iff split: option.splits)
    then obtain sups p where B: "resolve_supports (lf_facts l) reg acc (lf_cik l) = Inr sups"
      "resolve_required_reporting_period (lf_dei_candidates l) (lf_cik l) (lf_facts l) = Inr p"
      "map_res (\<lambda>metric. res_bind (metric_period reg metric) (\<lambda>pt.
         select_metric metric (lf_form l) (lf_cik l) acc (Some p) (lf_facts l) sups reg
           (lf_accepted_at l) pt)) ms = Inr (fst part)"
      by (auto simp: build_loaded_def res_bind_Inr_iff)
    obtain metric where "res_bind (metric_period reg metric) (\<lambda>pt.
         select_metric metric (lf_form l) (lf_cik l) acc (Some p) (lf_facts l) sups reg
           (lf_accepted_at l) pt) = Inr ob"
      using map_res_set [OF B(3) assms(2)] by blast
    then obtain pt where pt: "metric_period reg metric = Inr pt"
      "select_metric metric (lf_form l) (lf_cik l) acc (Some p) (lf_facts l) sups reg (lf_accepted_at l) pt = Inr ob"
      by (auto simp: res_bind_Inr_iff)
    have "ob_metric ob = metric" using select_slot [OF pt(2)] by (simp add: of_slot_def)
    then show ?thesis using that [OF l(1) B(1,2)] pt by simp
  qed
qed

section \<open>Properties\<close>

text \<open>
  Property C34: a build that succeeds has exactly one observation for every requested accession and
  cohort metric, in that order: accessions as requested, metrics in the frozen order.
\<close>

theorem run_build_one_per_slot:
  assumes "run_build sha yml files raw gold t accs check manifest = Inr r"
  shows "map (\<lambda>x. (ob_accession x, ob_metric x)) (br_observations r) = List.product accs M0_METRICS_ORDER"
  by (rule run_build_slots [OF assms])

text \<open>
  The CSV file lists the observations of a build in the order the build made them: its
  sort by position of accession and metric changes nothing.
\<close>

theorem observations_csv_build_order:
  assumes "run_build sha yml files raw gold t accs check manifest = Inr r" and "distinct accs"
  shows "observations_csv r M0_METRICS_ORDER accs = map csv_row (br_observations r)"
proof -
  have "distinct M0_METRICS_ORDER" by code_simp
  then show ?thesis
    using csv_order_build [OF run_build_slots [OF assms(1)] assms(2)] by (simp add: observations_csv_def)
qed

text \<open>
  Property C4: every value of a build comes from the database and the decisions: there is a row of the
  filing's facts, of the reporting period its DEI facts fix, covered by an accepted exact decision of
  the strictly loaded registry, whose number is the published number.
\<close>

theorem run_build_values_sourced:
  assumes "run_build sha yml files raw gold t accs check manifest = Inr r" and "source_keys t"
    and "ob \<in> set (br_observations r)" and "ob_status ob = Ob_value"
  shows "\<exists>reg l p pt f. load_decisions sha yml files None True = Inr reg \<and> ob_accession ob \<in> set accs \<and>
    load_filing t (ob_accession ob) = Inr (Some l) \<and>
    resolve_required_reporting_period (lf_dei_candidates l) (lf_cik l) (lf_facts l) = Inr p \<and>
    metric_period reg (ob_metric ob) = Inr pt \<and> f \<in> set (lf_facts l) \<and>
    slot_fact reg (ob_metric ob) (lf_cik l) p pt Rel_exact f \<and> fr_resolved_numeric f = ob_numeric ob"
proof -
  obtain co :: m0_cohort and reg parts where reg: "load_decisions sha yml files None True = Inr reg"
    and parts: "map_res (build_accession t reg (co_metrics co)) accs = Inr parts"
    and obs: "br_observations r = concat (map fst parts)"
    by (rule run_build_Inr [OF assms(1)]) blast
  obtain part where part: "part \<in> set parts" "ob \<in> set (fst part)" using assms(3) obs by auto
  obtain acc where acc: "acc \<in> set accs" "build_accession t reg (co_metrics co) acc = Inr part"
    using map_res_set [OF parts part(1)] by blast
  obtain l p pt sups where B: "load_filing t acc = Inr (Some l)"
    "resolve_supports (lf_facts l) reg acc (lf_cik l) = Inr sups"
    "resolve_required_reporting_period (lf_dei_candidates l) (lf_cik l) (lf_facts l) = Inr p"
    "metric_period reg (ob_metric ob) = Inr pt"
    "select_metric (ob_metric ob) (lf_form l) (lf_cik l) acc (Some p) (lf_facts l) sups reg (lf_accepted_at l) pt = Inr ob"
    by (rule build_value_source [OF acc(2) part(2) assms(4)])
  have a: "ob_accession ob = acc" using select_slot [OF B(5)] by (simp add: of_slot_def)
  obtain f v where "f \<in> set (lf_facts l)" "slot_fact reg (ob_metric ob) (lf_cik l) p pt Rel_exact f"
    "fr_resolved_numeric f = Some v" "ob_numeric ob = Some v"
    using select_value [OF reg B(2) load_filing_facts_distinct [OF assms(2) B(1)] B(5) assms(4)] by auto
  then show ?thesis using reg acc(1) B a by auto
qed

text \<open>
  Property C5: a build with the gold check only succeeds when the hand-checked values hold: for every
  gold value of a built filing the result has that filing's observation of the metric, it is a value
  of the asserted period, and it is numerically the asserted number.
\<close>

theorem run_build_gold:
  assumes "run_build sha yml files raw (Some gold) t accs True manifest = Inr r"
    and "a \<in> set gold" and "ga_accession a \<in> set accs" and "ga_status a = Gold_value"
    and "ga_numeric a = Some num"
  shows "\<exists>ob\<in>set (br_observations r). ob_accession ob = ga_accession a \<and> ob_metric ob = ga_metric a \<and>
    ob_status ob = Ob_value \<and> observation_period_matches a ob \<and>
    (\<exists>v d. ob_numeric ob = Some v \<and> dec_of_str num = Inr d \<and> dval v = dval d)"
proof -
  obtain n where "check_gold_assertions gold (br_observations r) (set accs) = Inr (n, [])"
    using assms(1) by (rule run_build_Inr) auto
  then have "list_all (\<lambda>a. ga_accession a \<in> set accs \<longrightarrow> (\<exists>ob. obs_index (br_observations r) (ga_accession a, ga_metric a) = Some ob \<and>
       compare_gold a ob = Inr None)) gold"
    unfolding check_gold_assertions_def check_gold_loop_clean by simp
  then obtain ob where ob: "obs_index (br_observations r) (ga_accession a, ga_metric a) = Some ob"
    "compare_gold a ob = Inr None"
    using assms(2,3) by (auto simp: list_all_iff)
  have "ob \<in> set (br_observations r) \<and> ob_accession ob = ga_accession a \<and> ob_metric ob = ga_metric a"
    by (rule obs_index_Some [OF ob(1)])
  moreover have "ob_status ob = Ob_value \<and> observation_period_matches a ob \<and>
    (\<exists>v d. ob_numeric ob = Some v \<and> dec_of_str num = Inr d \<and> dval v = dval d)"
    using ob(2) assms(4,5)
    by (auto simp: compare_gold_def numeric_equal_def res_bind_Inr_iff dec_eq_iff split: if_splits option.splits)
  ultimately show ?thesis by blast
qed

lemma dec_str_nonempty: "dec_str d \<noteq> []"
  using dec_of_str_dec_str [of d] by (auto simp: dec_of_str_def split_sign_def startswith_def py_strip_def strip_by_def
      exponent_of_def before_first_def after_first_def Let_def)

text \<open>
  The numeric column of the CSV loses nothing: it is empty exactly when the observation has
  no number, and otherwise reads back as that very Decimal, with its coefficient and exponent, in
  plain and in scientific notation.
\<close>

theorem csv_numeric_roundtrip:
  "\<exists>s. map_of (csv_row ob) ''numeric'' = Some s \<and> (s = [] \<longleftrightarrow> ob_numeric ob = None) \<and>
     (case ob_numeric ob of None \<Rightarrow> True | Some d \<Rightarrow> dec_of_str s = Inr d)"
  by (cases "ob_numeric ob") (simp_all add: csv_row_def or_empty_def dec_str_nonempty dec_of_str_dec_str)

section \<open>Example: one filing, the frozen cohort\<close>

definition example_tables :: source_tables where
  "example_tables = \<lparr>
     st_filings = [\<lparr>fl_id = 1, fl_accession = ''a'', fl_issuer_cik = ''0000000042'', fl_form = ''10-K'',
        fl_accepted_at = None, fl_report_period_end = None, fl_filing_date = None\<rparr>],
     st_reports = [\<lparr>xr_id = 9, xr_filing_id = 1\<rparr>],
     st_concepts = [\<lparr>cn_id = ''c1'', cn_namespace_uri = ''http://fasb.org/us-gaap/2023'', cn_local_name = ''Assets''\<rparr>,
        \<lparr>cn_id = ''c2'', cn_namespace_uri = ''http://xbrl.sec.gov/dei/2023'', cn_local_name = ''DocumentPeriodEndDate''\<rparr>],
     st_declarations = [],
     st_contexts = [\<lparr>cx_id = 3, cx_entity_scheme = ''http://www.sec.gov/CIK'', cx_entity_identifier = ''0000000042'',
          cx_period_kind = ''instant'', cx_instant_lexical = Some ''2023-12-31'', cx_start_lexical = None,
          cx_end_lexical = None\<rparr>,
        \<lparr>cx_id = 4, cx_entity_scheme = ''http://www.sec.gov/CIK'', cx_entity_identifier = ''0000000042'',
          cx_period_kind = ''duration'', cx_instant_lexical = None, cx_start_lexical = Some ''2023-01-01'',
          cx_end_lexical = Some ''2023-12-31''\<rparr>],
     st_dimension_contexts = [],
     st_units = [\<lparr>un_id = 5, un_report_id = 9\<rparr>],
     st_unit_measures = [(5, \<lparr>mu_side = ''numerator'', mu_ordinal = 1,
        mu_measure_namespace_uri = Some ''http://www.xbrl.org/2003/iso4217'', mu_measure_local_name = ''USD''\<rparr>)],
     st_facts = [\<lparr>ft_id = 7, ft_report_id = 9, ft_concept_id = ''c1'', ft_context_id = 3, ft_unit_id = Some 5,
          ft_value_status = ''valid'', ft_resolved_numeric = Some (Dec 12 0), ft_is_nil = False,
          ft_decimals = Some ''INF'', ft_raw_lexical_value = Some ''12''\<rparr>,
        \<lparr>ft_id = 8, ft_report_id = 9, ft_concept_id = ''c2'', ft_context_id = 4, ft_unit_id = None,
          ft_value_status = ''valid'', ft_resolved_numeric = None, ft_is_nil = False, ft_decimals = None,
          ft_raw_lexical_value = Some ''2023-12-31''\<rparr>]\<rparr>"

definition example_loaded :: loaded_filing where
  "example_loaded = (case load_filing example_tables ''a'' of
     Inr (Some l) \<Rightarrow> l | _ \<Rightarrow> \<lparr>lf_accession = [], lf_cik = [], lf_form = [], lf_accepted_at = None, lf_facts = [], lf_dei_candidates = []\<rparr>)"

lemma example_load_filing: "load_filing example_tables ''a'' = Inr (Some example_loaded)"
  by code_simp

lemma example_loaded_period:
  "resolve_required_reporting_period (lf_dei_candidates example_loaded) (lf_cik example_loaded) (lf_facts example_loaded)
     = Inr example_period"
  by code_simp

definition build_file :: "path \<times> decision_record" where
  "build_file = ([''total_assets''], example_decision\<lparr>dr_id := ''total_assets'', dr_metric := ''total_assets'',
     dr_contract_hash := definition_hash id (cohort_metric ''total_assets'')\<rparr>)"

definition build_registry :: decision_registry where
  "build_registry = \<lparr>rg_decisions = [cohort_loaded build_file], rg_metrics_by_key = cohort_table\<rparr>"

lemma build_registry_loads: "load_decisions id cohort_metrics_yml [build_file] None True = Inr build_registry"
proof -
  have "build_file \<in> set cohort_files" by (simp add: build_file_def cohort_files_def M0_METRICS_ORDER_def)
  then have "load_decision id cohort_table True build_file = Inr (cohort_loaded build_file)" by (rule cohort_file)
  then show ?thesis
    by (simp add: load_decisions_def cohort_load cohort_table_def [symmetric] build_registry_def cohort_loaded_def)
qed

definition build_value :: observation where
  "build_value = base_observation ''total_assets'' ''0000000042'' ''a'' (Some example_period) None Instant
     \<lparr>ob_status := Ob_value, ob_numeric := Some (Dec 12 0), ob_decimals := Some ''INF'', ob_relation := Some Rel_exact,
      ob_tier := Some 1, ob_decision_ids := [''total_assets''], ob_fact_ids := [7],
      ob_supports := [\<lparr>sr_fact_id = 7, sr_decision_id = ''total_assets'', sr_relation = Rel_exact, sr_tier = 1,
        sr_source_qname = ''{http://fasb.org/us-gaap/2023}Assets'', sr_application_method = Reviewed_method\<rparr>]\<rparr>"

definition build_observations :: "observation list" where
  "build_observations = map (\<lambda>m. if m = ''total_assets'' then build_value
     else base_observation m ''0000000042'' ''a'' (Some example_period) None Instant) M0_METRICS_ORDER"

definition build_findings :: "(string \<times> string) list list" where
  "build_findings = map finding_dict [not_applicable ''nci_split'' ''a'', not_applicable ''balance_sheet'' ''a'']"

definition build_gold :: gold_assertion where
  "build_gold = \<lparr>ga_id = ''g1'', ga_accession = ''a'', ga_metric = ''total_assets'',
     ga_period = \<lparr>gp_kind = Instant, gp_start = None, gp_end = ''2023-12-31''\<rparr>, ga_status = Gold_value,
     ga_numeric = Some ''1.2E1'', ga_reason = None\<rparr>"

lemma build_evaluation:
  "build_accession example_tables build_registry M0_METRICS_ORDER ''a'' = Inr (build_observations, build_findings)"
  by code_simp

lemma build_gold_evaluation: "check_gold_assertions [build_gold] build_observations {''a''} = Inr (1, [])"
  by code_simp

definition example_result :: build_result where
  "example_result = \<lparr>br_observations = build_observations, br_findings = build_findings, br_manifest = JNull,
     br_gold_assertions_checked = 1, br_gold_errors = []\<rparr>"

lemma example_run_build:
  "run_build id cohort_metrics_yml [build_file] \<lparr>co_metrics = M0_METRICS_ORDER, co_slots = [''a'']\<rparr>
     (Some [build_gold]) example_tables [''a''] True (\<lambda>_. JNull) = Inr example_result"
proof -
  have "M0_METRICS_ORDER \<noteq> []" by code_simp
  then show ?thesis
    by (simp add: run_build_def load_m0_cohort_def build_registry_loads build_evaluation build_gold_evaluation
        example_result_def)
qed

lemma example_keys: "source_keys example_tables"
  by code_simp

lemma build_value_mem: "build_value \<in> set (br_observations example_result)" "ob_status build_value = Ob_value"
  by (simp_all add: example_result_def build_observations_def build_value_def M0_METRICS_ORDER_def)

theorem run_build_one_per_slot_witness:
  "map (\<lambda>x. (ob_accession x, ob_metric x)) build_observations = map (Pair ''a'') M0_METRICS_ORDER"
  using run_build_one_per_slot [OF example_run_build] by (simp add: example_result_def)

theorem observations_csv_build_order_witness:
  "observations_csv example_result M0_METRICS_ORDER [''a''] = map csv_row build_observations"
  using observations_csv_build_order [OF example_run_build] by (simp add: example_result_def)

theorem run_build_values_sourced_witness:
  "\<exists>l f. load_filing example_tables ''a'' = Inr (Some l) \<and> f \<in> set (lf_facts l) \<and>
     fr_resolved_numeric f = Some (Dec 12 0)"
proof -
  have "ob_accession build_value = ''a''" "ob_numeric build_value = Some (Dec 12 0)"
    by (simp_all add: build_value_def base_observation_def)
  then show ?thesis
    using run_build_values_sourced [OF example_run_build example_keys build_value_mem] by auto
qed

theorem run_build_gold_witness:
  "\<exists>ob\<in>set (br_observations example_result). ob_metric ob = ''total_assets'' \<and> ob_status ob = Ob_value"
proof -
  have "build_gold \<in> set [build_gold]" "ga_accession build_gold \<in> set [''a'']" "ga_status build_gold = Gold_value"
    "ga_numeric build_gold = Some ''1.2E1''" "ga_metric build_gold = ''total_assets''"
    by (simp_all add: build_gold_def)
  from run_build_gold [OF example_run_build this(1-4)] this(5) show ?thesis by auto
qed

end
