(* ===== verification/Census.thy ===== *)
theory Census
  imports Select
begin

text \<open>
  \<^verbatim>\<open>src/edgar/financials/census.py\<close> and \<^verbatim>\<open>financials/taxonomy_availability.py\<close>: how many filings use a
  concept name, and which US-GAAP concepts the captured schema documents of a filing declare.

  The object store and the XML parser are arguments: \<open>open_bytes\<close> gives the bytes of a digest or fails,
  \<open>parse\<close> the root of a document (nothing when it is not well-formed).  The cache of
  \<^verbatim>\<open>_cached_filing_taxonomy_availability\<close> is left out; the published bundles do not change under a report.
\<close>

section \<open>Name census\<close>

text \<open>A \<^verbatim>\<open>defaultdict(set)\<close> filled from pairs, read as its sorted items with the sizes of the sets.\<close>

definition distinct_counts :: "('k::linorder \<times> 'a) list \<Rightarrow> ('k \<times> nat) list" where
  "distinct_counts ps =
     map (\<lambda>k. (k, length (remdups (map snd (filter (\<lambda>p. fst p = k) ps))))) (sort (remdups (map fst ps)))"

definition qname_census :: "(string \<times> string \<times> string) list \<Rightarrow> (string \<times> nat) list res" where
  "qname_census facts =
     res_bind (map_res (\<lambda>(accession, namespace_uri, local_name).
       res_bind (clark_qname namespace_uri local_name) (\<lambda>q. Inr (q, accession))) facts)
     (\<lambda>ps. Inr (distinct_counts ps))"

fun semantic_family_text :: "semantic_family \<Rightarrow> string" where
  "semantic_family_text US_GAAP = ''us-gaap''"
| "semantic_family_text DEI = ''dei''"
| "semantic_family_text SRT = ''srt''"
| "semantic_family_text Other_Family = ''other''"

definition name_reuse_key :: "string \<Rightarrow> string \<Rightarrow> (string \<times> string \<times> string) res" where
  "name_reuse_key namespace_uri local_name =
     res_bind (classify namespace_uri) (\<lambda>c.
     res_bind (namespace_release_token namespace_uri) (\<lambda>token.
       Inr (semantic_family_text (tc_semantic_family c),
            (case token of None \<Rightarrow> ''unknown'' | Some t \<Rightarrow> t), local_name)))"

definition name_reuse_aggregate ::
  "(string \<times> string \<times> string) list \<Rightarrow> ((string \<times> string \<times> string) \<times> nat) list res" where
  "name_reuse_aggregate facts =
     res_bind (map_res (\<lambda>(accession, namespace_uri, local_name).
       res_bind (name_reuse_key namespace_uri local_name) (\<lambda>k. Inr (k, accession))) facts)
     (\<lambda>ps. Inr (distinct_counts ps))"

lemma distinct_counts_keys: "map fst (distinct_counts ps) = sorted_list_of_set (fst ` set ps)"
  by (simp add: distinct_counts_def o_def sorted_list_of_set_sort_remdups [symmetric])

lemma distinct_counts_mem:
  "(k, n) \<in> set (distinct_counts ps) \<longleftrightarrow> n = card {a. (k, a) \<in> set ps} \<and> n \<noteq> 0"
proof -
  have card: "length (remdups (map snd (filter (\<lambda>p. fst p = k) ps))) = card {a. (k, a) \<in> set ps}"
  proof -
    have "length (remdups (map snd (filter (\<lambda>p. fst p = k) ps))) = card (snd ` {p \<in> set ps. fst p = k})"
      by (simp add: length_remdups_card_conv)
    also have "snd ` {p \<in> set ps. fst p = k} = {a. (k, a) \<in> set ps}" by force
    finally show ?thesis .
  qed
  have fin: "finite {a. (k, a) \<in> set ps}"
    by (rule finite_subset [of _ "snd ` set ps"]) force+
  have "k \<in> fst ` set ps \<longleftrightarrow> card {a. (k, a) \<in> set ps} \<noteq> 0"
    using fin by (force simp: card_eq_0_iff)
  then show ?thesis unfolding distinct_counts_def by (auto simp: card [symmetric] image_iff)
qed

section \<open>Captured taxonomy schemas\<close>

record xml_root =
  xr_tag :: string
  xr_target_namespace :: "string option"
  xr_element_names :: "string option list"

record filing_taxonomy_availability =
  ta_filing_taxonomy_release :: string
  ta_releases :: "string list"
  ta_concepts :: "(string \<times> string) list"
  ta_schema_sha256s :: "string list"

definition SCHEMA_ROOT :: string where
  "SCHEMA_ROOT = ''{http://www.w3.org/2001/XMLSchema}schema''"

definition parse_taxonomy_schema_bytes ::
  "('b \<Rightarrow> xml_root option) \<Rightarrow> 'b \<Rightarrow> (string \<times> (string \<times> string) list) res" where
  "parse_taxonomy_schema_bytes parse data = (case parse data of
     None \<Rightarrow> Inl (TaxonomyAvailabilityError ''taxonomy schema XML is not well-formed'')
   | Some rt \<Rightarrow>
       if xr_tag rt \<noteq> SCHEMA_ROOT then Inl (TaxonomyAvailabilityError ''expected XSD schema root'')
       else (case xr_target_namespace rt of
          Some (c # cs) \<Rightarrow>
            Inr (c # cs, remdups (map (Pair (c # cs)) (filter (\<lambda>n. n \<noteq> []) (somes (xr_element_names rt)))))
        | _ \<Rightarrow> Inl (TaxonomyAvailabilityError ''taxonomy schema is missing targetNamespace'')))"

fun is_os_error :: "exn \<Rightarrow> bool" where
  "is_os_error (OSError _) = True"
| "is_os_error _ = False"

definition inspect_bound_object ::
  "(string \<Rightarrow> 'b res) \<Rightarrow> ('b \<Rightarrow> xml_root option) \<Rightarrow> string \<Rightarrow> (string \<times> (string \<times> string) list) option res" where
  "inspect_bound_object open_bytes parse sha256 = (case open_bytes sha256 of
     Inl e \<Rightarrow> Inl (if is_os_error e \<or> is_value_error e
               then TaxonomyAvailabilityError ''missing CAS object for captured DTS document'' else e)
   | Inr data \<Rightarrow> (case parse data of
       None \<Rightarrow> Inr None
     | Some rt \<Rightarrow>
         if xr_tag rt \<noteq> SCHEMA_ROOT then Inr None
         else res_bind (parse_taxonomy_schema_bytes parse data) (\<lambda>x. Inr (Some x))))"

definition us_gaap_concepts :: "(string \<times> string) list \<Rightarrow> (string \<times> string) list res" where
  "us_gaap_concepts declared =
     filter_res (\<lambda>(ns, _). res_bind (classify ns) (\<lambda>c. Inr (tc_semantic_family c = US_GAAP))) declared"

text \<open>One bound object: its digest and US-GAAP concepts when it is a schema document.\<close>

definition schema_entry ::
  "(string \<Rightarrow> 'b res) \<Rightarrow> ('b \<Rightarrow> xml_root option) \<Rightarrow> string \<Rightarrow> (string \<times> (string \<times> string) list) option res" where
  "schema_entry open_bytes parse sha256 =
     res_bind (inspect_bound_object open_bytes parse sha256) (\<lambda>parsed. case parsed of
       None \<Rightarrow> Inr None
     | Some (_, declared) \<Rightarrow> res_bind (us_gaap_concepts declared) (\<lambda>cs. Inr (Some (sha256, cs))))"

definition availability_from_bundle ::
  "(string \<Rightarrow> 'b res) \<Rightarrow> ('b \<Rightarrow> xml_root option) \<Rightarrow> string \<Rightarrow> string list \<Rightarrow> filing_taxonomy_availability res" where
  "availability_from_bundle open_bytes parse bundle_form shas =
     res_bind (map_res (schema_entry open_bytes parse) shas) (\<lambda>entries.
       let found = somes entries; concepts = remdups (concat (map snd found)); namespaces = remdups (map fst concepts)
       in if bundle_form \<in> set ANNUAL_FORMS \<and> namespaces = []
          then Inl (TaxonomyAvailabilityError ''annual filing has no captured US-GAAP taxonomy schema in the DTS closure'')
          else res_bind (map_res us_gaap_release_token namespaces) (\<lambda>tokens.
               res_bind (filing_taxonomy_release namespaces) (\<lambda>release.
                 Inr \<lparr>ta_filing_taxonomy_release = release, ta_releases = remdups (somes tokens),
                      ta_concepts = concepts, ta_schema_sha256s = map fst found\<rparr>)))"

definition uri_binding_shas :: "string list \<Rightarrow> string list" where
  "uri_binding_shas digests = fold (\<lambda>d seen. if d \<in> set seen then seen else seen @ [d]) digests []"

text \<open>\<open>published cik accession\<close> lists the published bundles: form and the digests of the URI bindings.\<close>

definition load_filing_taxonomy_availability ::
  "(string \<Rightarrow> string \<Rightarrow> (string \<times> string list) list) \<Rightarrow> (string \<Rightarrow> 'b res) \<Rightarrow> ('b \<Rightarrow> xml_root option) \<Rightarrow>
     string \<Rightarrow> string \<Rightarrow> filing_taxonomy_availability res" where
  "load_filing_taxonomy_availability published open_bytes parse cik accession =
     res_bind (validate_cik cik) (\<lambda>c.
     res_bind (validate_accession accession) (\<lambda>a.
       case published c a of
         [] \<Rightarrow> Inl (TaxonomyAvailabilityError ''no published FilingBundle for accession'')
       | [(bundle_form, digests)] \<Rightarrow> availability_from_bundle open_bytes parse bundle_form (uri_binding_shas digests)
       | _ \<Rightarrow> Inl (TaxonomyAvailabilityError ''quality reporting requires exactly one published bundle'')))"

section \<open>Properties\<close>

lemma census_pairs:
  assumes "map_res (\<lambda>(accession, namespace_uri, local_name).
    res_bind (g namespace_uri local_name) (\<lambda>q. Inr (q, accession))) facts = Inr ps"
  shows "(q, a) \<in> set ps \<longleftrightarrow> (\<exists>ns loc. (a, ns, loc) \<in> set facts \<and> g ns loc = Inr q)"
proof
  assume "(q, a) \<in> set ps"
  from map_res_set [OF assms this] show "\<exists>ns loc. (a, ns, loc) \<in> set facts \<and> g ns loc = Inr q"
    by (force simp: result_simps)
next
  assume "\<exists>ns loc. (a, ns, loc) \<in> set facts \<and> g ns loc = Inr q"
  then obtain ns loc where f: "(a, ns, loc) \<in> set facts" "g ns loc = Inr q" by blast
  from map_res_mem [OF assms f(1)] f(2) show "(q, a) \<in> set ps" by (auto simp: result_simps)
qed

text \<open>
  The name census counts filings, not occurrences.  Its rows are the expanded names of the
  facts in ascending order, each once, with the number of distinct accessions that use the name.
\<close>

theorem qname_census_exact:
  assumes "qname_census facts = Inr rows"
  shows "map fst rows = sorted_list_of_set {q. \<exists>a ns loc. (a, ns, loc) \<in> set facts \<and> clark_qname ns loc = Inr q} \<and>
    (\<forall>(q, n)\<in>set rows. n = card {a. \<exists>ns loc. (a, ns, loc) \<in> set facts \<and> clark_qname ns loc = Inr q})"
proof -
  obtain ps where ps: "map_res (\<lambda>(accession, namespace_uri, local_name).
      res_bind (clark_qname namespace_uri local_name) (\<lambda>q. Inr (q, accession))) facts = Inr ps"
    and rows: "rows = distinct_counts ps"
    using assms by (auto simp: qname_census_def result_simps)
  note mem = census_pairs [OF ps]
  have "fst ` set ps = {q. \<exists>a. (q, a) \<in> set ps}" by force
  then have keys: "map fst rows = sorted_list_of_set {q. \<exists>a ns loc. (a, ns, loc) \<in> set facts \<and> clark_qname ns loc = Inr q}"
    by (simp only: rows distinct_counts_keys mem)
  have "n = card {a. \<exists>ns loc. (a, ns, loc) \<in> set facts \<and> clark_qname ns loc = Inr q}" if "(q, n) \<in> set rows" for q n
    using that by (simp only: rows distinct_counts_mem mem)
  with keys show ?thesis by blast
qed

theorem qname_census_exact_witness:
  "card {a. \<exists>ns loc. (a, ns, loc) \<in> set [(''f'', ''u'', ''A''), (''f'', ''u'', ''A''), (''g'', ''u'', ''A'')] \<and>
     clark_qname ns loc = Inr ''{u}A''} = 2"
proof -
  have "qname_census [(''f'', ''u'', ''A''), (''f'', ''u'', ''A''), (''g'', ''u'', ''A'')] = Inr [(''{u}A'', 2)]"
    by code_simp
  from qname_census_exact [OF this] show ?thesis by simp
qed

lemma inspect_Some:
  "inspect_bound_object open_bytes parse sha = Inr (Some (ns, cs)) \<longleftrightarrow>
     (\<exists>b rt. open_bytes sha = Inr b \<and> parse b = Some rt \<and> xr_tag rt = SCHEMA_ROOT \<and>
        xr_target_namespace rt = Some ns \<and> ns \<noteq> [] \<and>
        cs = remdups (map (Pair ns) (filter (\<lambda>n. n \<noteq> []) (somes (xr_element_names rt)))))"
  by (auto simp: inspect_bound_object_def parse_taxonomy_schema_bytes_def result_simps
      split: sum.splits option.splits list.splits if_splits)

text \<open>A concept a captured schema document declares.\<close>

definition schema_declares :: "(string \<Rightarrow> 'b res) \<Rightarrow> ('b \<Rightarrow> xml_root option) \<Rightarrow> string \<Rightarrow> string \<Rightarrow> string \<Rightarrow> bool" where
  "schema_declares open_bytes parse sha ns name \<longleftrightarrow>
     (\<exists>b rt. open_bytes sha = Inr b \<and> parse b = Some rt \<and> xr_tag rt = SCHEMA_ROOT \<and>
        xr_target_namespace rt = Some ns \<and> Some name \<in> set (xr_element_names rt) \<and> name \<noteq> [])"

lemma us_gaap_concepts_mem:
  "us_gaap_concepts declared = Inr cs \<Longrightarrow> (ns, name) \<in> set cs \<longleftrightarrow> (ns, name) \<in> set declared \<and> namespace_family ns = US_GAAP"
proof -
  assume a: "us_gaap_concepts declared = Inr cs"
  let ?p = "\<lambda>(ns, _). res_bind (classify ns) (\<lambda>c. Inr (tc_semantic_family c = US_GAAP))"
  have cs: "cs = filter (\<lambda>x. ?p x = Inr True) declared" and ok: "\<forall>x\<in>set declared. \<exists>b. ?p x = Inr b"
    using filter_res_Inr [OF a [unfolded us_gaap_concepts_def]] by simp_all
  have "?p (ns, name) = Inr True \<longleftrightarrow> namespace_family ns = US_GAAP" if m: "(ns, name) \<in> set declared"
  proof -
    obtain c where c: "classify ns = Inr c" using bspec [OF ok m] by (auto simp: res_bind_Inr_iff)
    then show ?thesis by (simp add: classify_family)
  qed
  then show ?thesis unfolding cs set_filter mem_Collect_eq by blast
qed

lemma gaap_namespace_nonempty: "namespace_family ns = US_GAAP \<Longrightarrow> ns \<noteq> []"
  by (auto simp: namespace_family_def US_GAAP_PREFIXES_def DEI_PREFIXES_def SRT_PREFIXES_def startswith_def)

lemma schema_entry_mem:
  assumes "schema_entry open_bytes parse sha = Inr (Some (s, cs))"
  shows "(ns, name) \<in> set cs \<longleftrightarrow> schema_declares open_bytes parse sha ns name \<and> namespace_family ns = US_GAAP"
proof -
  obtain ns' ds where i: "inspect_bound_object open_bytes parse sha = Inr (Some (ns', ds))"
    and cs: "us_gaap_concepts ds = Inr cs"
    using assms by (auto simp: schema_entry_def result_simps split: option.splits)
  then show ?thesis
    unfolding us_gaap_concepts_mem [OF cs] using gaap_namespace_nonempty
    by (auto simp: inspect_Some schema_declares_def)
qed

text \<open>
  The availability of a filing is complete.  Its concepts are exactly the named global
  elements of the captured schema documents in US-GAAP namespaces, and an annual filing without any is
  refused rather than reported as empty.
\<close>

theorem availability_complete:
  assumes "availability_from_bundle open_bytes parse bundle_form shas = Inr ta"
  shows "set (ta_concepts ta) = {(ns, name). namespace_family ns = US_GAAP \<and>
      (\<exists>sha\<in>set shas. schema_declares open_bytes parse sha ns name)} \<and>
    (bundle_form \<in> set ANNUAL_FORMS \<longrightarrow> ta_concepts ta \<noteq> [])"
proof -
  obtain es where es: "map_res (schema_entry open_bytes parse) shas = Inr es"
    using assms by (auto simp: availability_from_bundle_def res_bind_Inr_iff)
  let ?cs = "remdups (concat (map snd (somes es)))"
  have body: "\<not> (bundle_form \<in> set ANNUAL_FORMS \<and> remdups (map fst ?cs) = [])" "ta_concepts ta = ?cs"
    using assms unfolding availability_from_bundle_def es res_bind.simps Let_def
    by (simp_all only: res_bind_Inr_iff split: if_splits) auto
  note ta = body(2)
  have ne: "bundle_form \<in> set ANNUAL_FORMS \<longrightarrow> ta_concepts ta \<noteq> []"
    using body by (simp only: remdups_eq_nil_iff map_is_Nil_conv) blast
  have "(ns, name) \<in> set (ta_concepts ta) \<longleftrightarrow> namespace_family ns = US_GAAP \<and>
      (\<exists>sha\<in>set shas. schema_declares open_bytes parse sha ns name)" for ns name
  proof
    assume "(ns, name) \<in> set (ta_concepts ta)"
    then obtain s cs where e: "Some (s, cs) \<in> set es" "(ns, name) \<in> set cs" by (auto simp: ta)
    from map_res_set [OF es e(1)] obtain sha where "sha \<in> set shas" "schema_entry open_bytes parse sha = Inr (Some (s, cs))"
      by blast
    with schema_entry_mem [OF this(2), of ns name] e(2)
    show "namespace_family ns = US_GAAP \<and> (\<exists>sha\<in>set shas. schema_declares open_bytes parse sha ns name)" by blast
  next
    assume "namespace_family ns = US_GAAP \<and> (\<exists>sha\<in>set shas. schema_declares open_bytes parse sha ns name)"
    then obtain sha where sha: "sha \<in> set shas" "schema_declares open_bytes parse sha ns name" "namespace_family ns = US_GAAP"
      by blast
    from map_res_mem [OF es sha(1)] obtain e where e: "e \<in> set es" "schema_entry open_bytes parse sha = Inr e" by blast
    have "ns \<noteq> []" using sha(3) gaap_namespace_nonempty by blast
    then have "\<exists>ds. inspect_bound_object open_bytes parse sha = Inr (Some (ns, ds))"
      using sha(2) by (auto simp: inspect_Some schema_declares_def)
    then obtain s cs where "e = Some (s, cs)" using e(2) by (auto simp: schema_entry_def result_simps)
    then have "(ns, name) \<in> set cs" "Some (s, cs) \<in> set es"
      using schema_entry_mem [of open_bytes parse sha s cs ns name] e sha by auto
    then show "(ns, name) \<in> set (ta_concepts ta)" by (force simp: ta)
  qed
  then show ?thesis using ne by auto
qed

theorem availability_complete_witness:
  "\<exists>ta. availability_from_bundle Inr (\<lambda>b. if b = ''x'' then Some \<lparr>xr_tag = SCHEMA_ROOT,
      xr_target_namespace = Some ''http://fasb.org/us-gaap/2023'', xr_element_names = [Some ''Assets'', None]\<rparr> else None)
      ''10-K'' [''x'', ''y''] = Inr ta \<and>
     set (ta_concepts ta) = {(''http://fasb.org/us-gaap/2023'', ''Assets'')}"
proof -
  let ?parse = "\<lambda>b. if b = ''x'' then Some \<lparr>xr_tag = SCHEMA_ROOT,
      xr_target_namespace = Some ''http://fasb.org/us-gaap/2023'', xr_element_names = [Some ''Assets'', None]\<rparr> else None"
  have run: "availability_from_bundle Inr ?parse ''10-K'' [''x'', ''y''] =
    Inr \<lparr>ta_filing_taxonomy_release = ''2023'', ta_releases = [''2023''],
      ta_concepts = [(''http://fasb.org/us-gaap/2023'', ''Assets'')], ta_schema_sha256s = [''x'']\<rparr>"
    by code_simp
  from availability_complete [OF run] run show ?thesis by simp
qed

end
