(* ===== verification/Oracle.thy ===== *)
theory Oracle
  imports Source_Load Validate Census
begin

text \<open>
  \<^verbatim>\<open>src/edgar/financials/oracle.py\<close>: the comparison of a published observation with the SEC's
  companyfacts document.

  A payload is the parsed document: \<^verbatim>\<open>json.loads(text, parse_float=Decimal)\<close> turns a token with a
  fraction or exponent into a \<^verbatim>\<open>Decimal\<close> and leaves a binary float only for \<^verbatim>\<open>NaN\<close> and the infinities.
  Parsing the text is an argument (\<open>loads\<close>).
\<close>

section \<open>Payloads\<close>

datatype cf_json =
    CNull
  | CBool bool
  | CInt int
  | CDec decimal
  | CFloat string
  | CStr string
  | CArr "cf_json list"
  | CObj "(string \<times> cf_json) list"

datatype companyfacts_payload = Payload_text string | Payload_mapping "(string \<times> cf_json) list"

definition cget :: "(string \<times> cf_json) list \<Rightarrow> string \<Rightarrow> cf_json option" where
  "cget kvs key = map_of kvs key"

fun reject_floats :: "cf_json \<Rightarrow> unit res" where
  "reject_floats (CFloat _) = Inl (OracleInputError ''companyfacts numbers must not pass through a binary float'')"
| "reject_floats (CObj kvs) = fold_res (\<lambda>kv _. reject_floats (snd kv)) kvs ()"
| "reject_floats (CArr xs) = fold_res (\<lambda>x _. reject_floats x) xs ()"
| "reject_floats _ = Inr ()"

definition load_payload ::
  "(string \<Rightarrow> cf_json res) \<Rightarrow> companyfacts_payload \<Rightarrow> (string \<times> cf_json) list res" where
  "load_payload loads p = (case p of
     Payload_mapping kvs \<Rightarrow> res_bind (reject_floats (CObj kvs)) (\<lambda>_. Inr kvs)
   | Payload_text text \<Rightarrow> res_bind (loads text) (\<lambda>loaded. case loaded of
       CObj kvs \<Rightarrow> Inr kvs
     | _ \<Rightarrow> Inl (OracleInputError ''companyfacts payload must be a JSON object'')))"

fun json_decimal :: "cf_json \<Rightarrow> decimal res" where
  "json_decimal (CBool _) = Inl (OracleInputError ''companyfacts numbers must not pass through a binary float'')"
| "json_decimal (CFloat _) = Inl (OracleInputError ''companyfacts numbers must not pass through a binary float'')"
| "json_decimal (CDec d) = Inr d"
| "json_decimal (CInt n) = Inr (Dec n 0)"
| "json_decimal (CStr s) = dec_of_str s"
| "json_decimal _ = Inl (OracleInputError ''unsupported companyfacts number'')"

text \<open>
  \<^verbatim>\<open>validate_cik(str(raw_cik))\<close>.  The text of a container starts with a bracket or a brace, that of a
  truth value with a letter, that of a special float with a letter or a sign: none is a CIK.
\<close>

fun payload_cik :: "cf_json \<Rightarrow> string res" where
  "payload_cik (CInt n) = validate_cik (show_int n)"
| "payload_cik (CStr s) = validate_cik s"
| "payload_cik (CDec d) = validate_cik (dec_str d)"
| "payload_cik _ = Inl (ValueError ''invalid CIK'')"

text \<open>\<^verbatim>\<open>format(d, "f")\<close>: positional notation, every digit kept.\<close>

definition decimal_text :: "decimal \<Rightarrow> string" where
  "decimal_text d =
     (let digits = show_nat (nat \<bar>dcoef d\<bar>);
          sgn_part = (if dcoef d < 0 then ''-'' else []);
          k = nat (- dexp d);
          padded = replicate (k + 1 - length digits) CHR ''0'' @ digits
      in sgn_part @
         (if dexp d \<ge> 0
          then (if dcoef d = 0 then ''0'' else digits @ replicate (nat (dexp d)) CHR ''0'')
          else take (length padded - k) padded @ ''.'' @ drop (length padded - k) padded))"

section \<open>The lookup\<close>

datatype oracle_result = Oracle_hit decimal | Oracle_absent | Oracle_ambiguous "decimal list"

definition record_period_matches :: "(string \<times> cf_json) list \<Rightarrow> string option \<Rightarrow> string \<Rightarrow> bool" where
  "record_period_matches record period_start period_end =
     (cget record ''end'' = Some (CStr period_end) \<and>
      (case period_start of
         None \<Rightarrow> cget record ''start'' \<in> {None, Some CNull}
       | Some s \<Rightarrow> cget record ''start'' = Some (CStr s)))"

text \<open>The points of one unit of one concept of the payload's own CIK; none when a level is missing.\<close>

definition dict_at :: "cf_json option \<Rightarrow> (string \<times> cf_json) list option" where
  "dict_at v = (case v of Some (CObj kvs) \<Rightarrow> Some kvs | _ \<Rightarrow> None)"

definition list_at :: "cf_json option \<Rightarrow> cf_json list option" where
  "list_at v = (case v of Some (CArr xs) \<Rightarrow> Some xs | _ \<Rightarrow> None)"

definition points_at :: "(string \<times> cf_json) list \<Rightarrow> string \<Rightarrow> string \<Rightarrow> string \<Rightarrow> cf_json list option" where
  "points_at doc family local_name unit =
     Option.bind (dict_at (cget doc ''facts'')) (\<lambda>facts.
     Option.bind (dict_at (cget facts family)) (\<lambda>family_facts.
     Option.bind (dict_at (cget family_facts local_name)) (\<lambda>concept.
     Option.bind (dict_at (cget concept ''units'')) (\<lambda>units. list_at (cget units unit)))))"

text \<open>The body of the loop over the points: the value a point contributes, if any.\<close>

definition point_value :: "string \<Rightarrow> string option \<Rightarrow> string \<Rightarrow> cf_json \<Rightarrow> decimal option res" where
  "point_value wanted_accession period_start period_end point = (case point of
     CObj kvs \<Rightarrow> (case cget kvs ''accn'' of
         Some (CStr accn) \<Rightarrow> (case validate_accession accn of
             Inl e \<Rightarrow> if is_value_error e then Inr None else Inl e
           | Inr a \<Rightarrow>
               if a \<noteq> wanted_accession then Inr None
               else if \<not> record_period_matches kvs period_start period_end then Inr None
               else (case cget kvs ''val'' of
                       None \<Rightarrow> Inr None
                     | Some v \<Rightarrow> res_bind (json_decimal v) (\<lambda>d. Inr (Some d))))
       | _ \<Rightarrow> Inr None)
   | _ \<Rightarrow> Inr None)"

text \<open>A Python set of Decimals holds the first element of every numeric value.\<close>

fun dec_set :: "decimal list \<Rightarrow> decimal list" where
  "dec_set [] = []"
| "dec_set (d # ds) = d # filter (\<lambda>x. \<not> dec_eq d x) (dec_set ds)"

definition oracle_of_values :: "decimal list \<Rightarrow> oracle_result" where
  "oracle_of_values ds = (case dec_set ds of
     [] \<Rightarrow> Oracle_absent
   | [d] \<Rightarrow> Oracle_hit d
   | xs \<Rightarrow> Oracle_ambiguous (sort_key dval xs))"

definition oracle_value ::
  "(string \<Rightarrow> cf_json res) \<Rightarrow> companyfacts_payload \<Rightarrow> string \<Rightarrow> string \<Rightarrow> string \<Rightarrow> string \<Rightarrow> string \<Rightarrow>
     string \<Rightarrow> string option \<Rightarrow> oracle_result res" where
  "oracle_value loads p cik family local_name accession period_end unit period_start =
     (if family = [] \<or> local_name = [] then Inl (OracleInputError ''taxonomy_family and local_name are required'')
      else if period_end = [] \<or> unit = [] then Inl (OracleInputError ''period_end and unit are required'')
      else res_bind (validate_cik cik) (\<lambda>wanted_cik.
           res_bind (validate_accession accession) (\<lambda>wanted_accession.
           res_bind (load_payload loads p) (\<lambda>doc.
             case cget doc ''cik'' of
               None \<Rightarrow> Inr Oracle_absent
             | Some CNull \<Rightarrow> Inr Oracle_absent
             | Some raw_cik \<Rightarrow> res_bind (payload_cik raw_cik) (\<lambda>c.
                 if c \<noteq> wanted_cik then Inr Oracle_absent
                 else (case points_at doc family local_name unit of
                         None \<Rightarrow> Inr Oracle_absent
                       | Some points \<Rightarrow>
                           res_bind (map_res (point_value wanted_accession period_start period_end) points) (\<lambda>vs.
                             Inr (oracle_of_values (somes vs)))))))))"

section \<open>The comparison of one observation\<close>

datatype oracle_label = Lab_agree | Lab_differ | Lab_absent | Lab_ambiguous | Lab_na

record oracle_comparison =
  oc_status :: oracle_label
  oc_family :: "string option"
  oc_local_name :: "string option"
  oc_observation :: "string option"
  oc_oracle_values :: "string list"

fun label_text :: "oracle_label \<Rightarrow> string" where
  "label_text Lab_agree = ''agree''"
| "label_text Lab_differ = ''differ''"
| "label_text Lab_absent = ''absent''"
| "label_text Lab_ambiguous = ''ambiguous''"
| "label_text Lab_na = ''na''"

definition comparison_na :: oracle_comparison where
  "comparison_na = \<lparr>oc_status = Lab_na, oc_family = None, oc_local_name = None, oc_observation = None,
     oc_oracle_values = []\<rparr>"

definition source_fact_oracle_eligible :: "fact_row \<Rightarrow> bool res" where
  "source_fact_oracle_eligible f = res_bind (classify (fr_concept_namespace f)) (\<lambda>c.
     Inr (tc_origin c = Standard \<and> tc_semantic_family c \<noteq> Other_Family \<and> \<not> fr_has_dimensions f \<and>
          is_pure_usd (fr_unit_measures f)))"

definition eligible_fact :: "(int \<rightharpoonup> fact_row) \<Rightarrow> decimal \<Rightarrow> int \<Rightarrow> fact_row option res" where
  "eligible_fact facts_by_id x fid = (case facts_by_id fid of
     None \<Rightarrow> Inr None
   | Some f \<Rightarrow> res_bind (source_fact_oracle_eligible f) (\<lambda>ok.
       Inr (if ok \<and> (case fr_resolved_numeric f of None \<Rightarrow> False | Some v \<Rightarrow> dec_eq v x) then Some f else None)))"

definition comparison_of :: "string \<Rightarrow> fact_row \<Rightarrow> decimal \<Rightarrow> oracle_result \<Rightarrow> oracle_comparison" where
  "comparison_of family f x result =
     (let c = (\<lambda>st vs. \<lparr>oc_status = st, oc_family = Some family, oc_local_name = Some (fr_concept_local_name f),
          oc_observation = Some (decimal_text x), oc_oracle_values = map decimal_text vs\<rparr>)
      in case result of
           Oracle_absent \<Rightarrow> c Lab_absent []
         | Oracle_ambiguous vs \<Rightarrow> c Lab_ambiguous vs
         | Oracle_hit v \<Rightarrow> if dec_eq v x then c Lab_agree [v] else c Lab_differ [v])"

definition or_usd :: "string option \<Rightarrow> string" where
  "or_usd u = (case u of Some (c # cs) \<Rightarrow> c # cs | _ \<Rightarrow> ''USD'')"

text \<open>
  \<open>facts_by_id\<close> is a mapping from fact ids, \<open>cached\<close> the cached document when there is one.  Only
  \<^verbatim>\<open>ValueError\<close>s of the lookup are caught.
\<close>

definition oracle_comparison_for_observation ::
  "(string \<Rightarrow> cf_json res) \<Rightarrow> observation \<Rightarrow> (int \<rightharpoonup> fact_row) \<Rightarrow> companyfacts_payload option \<Rightarrow>
     oracle_comparison res" where
  "oracle_comparison_for_observation loads ob facts_by_id cached =
     (case (ob_status ob, ob_numeric ob, ob_period_end ob) of
        (Ob_value, Some x, Some (ch # rest)) \<Rightarrow>
          res_bind (map_res (eligible_fact facts_by_id x) (ob_fact_ids ob)) (\<lambda>fs.
            case (min_by fr_fact_id (somes fs), cached) of
              (Some f, Some p) \<Rightarrow>
                res_bind (classify (fr_concept_namespace f)) (\<lambda>clf.
                let family = semantic_family_text (tc_semantic_family clf)
                in case oracle_value loads p (ob_cik ob) family (fr_concept_local_name f) (ob_accession ob)
                          (ch # rest) (or_usd (ob_unit ob)) (ob_period_start ob) of
                     Inl e \<Rightarrow> if is_value_error e then Inr comparison_na else Inl e
                   | Inr result \<Rightarrow> Inr (comparison_of family f x result))
            | _ \<Rightarrow> Inr comparison_na)
      | _ \<Rightarrow> Inr comparison_na)"

definition oracle_label_for_observation ::
  "(string \<Rightarrow> cf_json res) \<Rightarrow> observation \<Rightarrow> (int \<rightharpoonup> fact_row) \<Rightarrow> companyfacts_payload option \<Rightarrow> string res" where
  "oracle_label_for_observation loads ob facts_by_id cached =
     res_bind (oracle_comparison_for_observation loads ob facts_by_id cached) (\<lambda>c. Inr (label_text (oc_status c)))"

text \<open>\<^verbatim>\<open>OracleComparison.finding\<close>.\<close>

record oracle_finding =
  of_accession :: string
  of_metric :: string
  of_status :: string
  of_family :: string
  of_local_name :: string
  of_observation :: string
  of_oracle_values :: "string list"

definition or_blank :: "string option \<Rightarrow> string" where
  "or_blank s = (case s of None \<Rightarrow> [] | Some t \<Rightarrow> t)"

definition comparison_finding :: "oracle_comparison \<Rightarrow> observation \<Rightarrow> oracle_finding" where
  "comparison_finding c ob = \<lparr>of_accession = ob_accession ob, of_metric = ob_metric ob,
     of_status = label_text (oc_status c), of_family = or_blank (oc_family c),
     of_local_name = or_blank (oc_local_name c), of_observation = or_blank (oc_observation c),
     of_oracle_values = oc_oracle_values c\<rparr>"

section \<open>What the lookup returns\<close>

lemma dec_set_vals: "dval ` set (dec_set ds) = dval ` set ds"
proof (induction ds)
  case (Cons d ds)
  have "dval ` set (dec_set (d # ds)) = insert (dval d) (dval ` set (dec_set ds))"
    by (auto simp: dec_eq_iff)
  then show ?case using Cons by simp
qed simp

lemma dec_set_distinct: "distinct (map dval (dec_set ds))"
proof (induction ds)
  case (Cons d ds)
  have "distinct (map dval (filter (\<lambda>x. \<not> dec_eq d x) (dec_set ds)))" by (rule distinct_map_filter [OF Cons])
  then show ?case by (auto simp: dec_eq_iff)
qed simp

text \<open>The label of an observation of value \<open>x\<close> when the document reports the set \<open>V\<close> of numbers.\<close>

definition label_of :: "rat set \<Rightarrow> rat \<Rightarrow> oracle_label" where
  "label_of V x = (if V = {} then Lab_absent else if V = {x} then Lab_agree
     else if \<exists>y. V = {y} then Lab_differ else Lab_ambiguous)"

lemma label_of_simps [simp]: "label_of {} x = Lab_absent" "label_of {y} x = (if y = x then Lab_agree else Lab_differ)"
  by (auto simp: label_of_def)

lemma comparison_label:
  "oc_status (comparison_of family f x (oracle_of_values ds)) = label_of (dval ` set ds) (dval x)"
proof (cases "dec_set ds")
  case Nil
  then show ?thesis using dec_set_vals [of ds] by (simp add: oracle_of_values_def comparison_of_def Let_def)
next
  case (Cons a as)
  show ?thesis
  proof (cases as)
    case Nil
    then show ?thesis using Cons dec_set_vals [of ds, symmetric]
      by (simp add: oracle_of_values_def comparison_of_def Let_def dec_eq_iff)
  next
    case two: (Cons b bs)
    have "dval a \<noteq> dval b" using dec_set_distinct [of ds] Cons two by simp
    moreover have "dval a \<in> dval ` set ds" "dval b \<in> dval ` set ds"
      unfolding dec_set_vals [of ds, symmetric] by (simp_all add: Cons two)
    ultimately have "label_of (dval ` set ds) (dval x) = Lab_ambiguous"
      unfolding label_of_def by (metis empty_iff singletonD)
    then show ?thesis by (simp add: Cons two oracle_of_values_def comparison_of_def Let_def)
  qed
qed

text \<open>The number a point of the document reports for an accession and a period.\<close>

definition point_reports :: "string \<Rightarrow> string option \<Rightarrow> string \<Rightarrow> cf_json \<Rightarrow> decimal \<Rightarrow> bool" where
  "point_reports acc period_start period_end point d \<longleftrightarrow>
     (\<exists>kvs accn v. point = CObj kvs \<and> cget kvs ''accn'' = Some (CStr accn) \<and> validate_accession accn = Inr acc \<and>
        record_period_matches kvs period_start period_end \<and> cget kvs ''val'' = Some v \<and> json_decimal v = Inr d)"

lemma point_value_Some:
  "point_value acc period_start period_end point = Inr (Some d) \<longleftrightarrow> point_reports acc period_start period_end point d"
  by (auto simp: point_value_def point_reports_def result_simps split: cf_json.splits option.splits sum.splits if_splits)

text \<open>
  The numbers a document reports for a concept, unit, accession and period of its own filer: the set a
  label is about.
\<close>

definition reported ::
  "(string \<times> cf_json) list \<Rightarrow> string \<Rightarrow> string \<Rightarrow> string \<Rightarrow> string \<Rightarrow> string \<Rightarrow> string \<Rightarrow> string option \<Rightarrow> rat set" where
  "reported doc cik family local_name acc period_end unit period_start =
     {dval d | d raw points point. cget doc ''cik'' = Some raw \<and> raw \<noteq> CNull \<and> payload_cik raw = Inr cik \<and>
        points_at doc family local_name unit = Some points \<and> point \<in> set points \<and>
        point_reports acc period_start period_end point d}"

lemma points_reported:
  assumes "map_res (point_value acc period_start period_end) points = Inr vs"
  shows "set (somes vs) = {d. \<exists>point\<in>set points. point_reports acc period_start period_end point d}"
proof -
  have "d \<in> set (somes vs) \<longleftrightarrow> (\<exists>point\<in>set points. point_value acc period_start period_end point = Inr (Some d))" for d
    using map_res_set [OF assms, of "Some d"] map_res_mem [OF assms] by (auto) force
  then show ?thesis by (auto simp: point_value_Some)
qed

lemma oracle_value_reported:
  assumes "oracle_value loads p cik family local_name accession period_end unit period_start = Inr r"
  obtains c acc doc ds where "validate_cik cik = Inr c" "validate_accession accession = Inr acc"
    "load_payload loads p = Inr doc" "r = oracle_of_values ds"
    "dval ` set ds = reported doc c family local_name acc period_end unit period_start"
proof -
  obtain c acc doc where A: "validate_cik cik = Inr c" "validate_accession accession = Inr acc"
    "load_payload loads p = Inr doc"
    using assms by (auto simp: oracle_value_def result_simps split: if_splits)
  have absent: "dval ` set [] = reported doc c family local_name acc period_end unit period_start \<Longrightarrow>
      r = Oracle_absent \<Longrightarrow> ?thesis"
    by (rule that [OF A, of "[]"]) (simp_all add: oracle_of_values_def)
  have none: "cget doc ''cik'' = None \<or> cget doc ''cik'' = Some CNull \<Longrightarrow> ?thesis"
    by (rule absent) (use assms A in \<open>auto simp: oracle_value_def reported_def split: if_splits\<close>)
  show ?thesis
  proof (cases "cget doc ''cik'' = None \<or> cget doc ''cik'' = Some CNull")
    case False
    then obtain raw where raw: "cget doc ''cik'' = Some raw" "raw \<noteq> CNull" by auto
    then obtain k where k: "payload_cik raw = Inr k"
      and body: "(if k \<noteq> c then Inr Oracle_absent
        else case points_at doc family local_name unit of None \<Rightarrow> Inr Oracle_absent
          | Some points \<Rightarrow> res_bind (map_res (point_value acc period_start period_end) points)
              (\<lambda>vs. Inr (oracle_of_values (somes vs)))) = Inr r"
      using assms A by (cases raw) (auto simp: oracle_value_def result_simps split: if_splits)
    show ?thesis
    proof (cases "k = c \<and> points_at doc family local_name unit \<noteq> None")
      case False
      then show ?thesis
        by (intro absent) (use raw k body in \<open>auto simp: reported_def split: if_splits\<close>)
    next
      case True
      then obtain points where points: "points_at doc family local_name unit = Some points" "k = c" by auto
      then obtain vs where vs: "map_res (point_value acc period_start period_end) points = Inr vs"
        "r = oracle_of_values (somes vs)"
        using body by (auto simp: result_simps)
      have "dval ` set (somes vs) = reported doc c family local_name acc period_end unit period_start"
        unfolding points_reported [OF vs(1)] using raw k points by (auto simp: reported_def)
      then show ?thesis by (rule that [OF A vs(2)])
    qed
  qed (rule none)
qed

section \<open>The label\<close>

text \<open>A fact that may carry the comparison: a standard undimensioned US dollar fact of the published number.\<close>

definition oracle_fact :: "observation \<Rightarrow> (int \<rightharpoonup> fact_row) \<Rightarrow> decimal \<Rightarrow> fact_row \<Rightarrow> bool" where
  "oracle_fact ob facts_by_id x f \<longleftrightarrow>
     (\<exists>fid\<in>set (ob_fact_ids ob). facts_by_id fid = Some f) \<and> namespace_family (fr_concept_namespace f) \<noteq> Other_Family \<and>
     \<not> fr_has_dimensions f \<and> is_pure_usd (fr_unit_measures f) \<and>
     (\<exists>v. fr_resolved_numeric f = Some v \<and> dval v = dval x)"

lemma eligible_oracle_fact:
  assumes "map_res (eligible_fact facts_by_id x) (ob_fact_ids ob) = Inr fs" and "f \<in> set (somes fs)"
  shows "oracle_fact ob facts_by_id x f"
proof -
  obtain fid where fid: "fid \<in> set (ob_fact_ids ob)" "eligible_fact facts_by_id x fid = Inr (Some f)"
    using map_res_set [OF assms(1), of "Some f"] assms(2) by auto
  then have "facts_by_id fid = Some f" "source_fact_oracle_eligible f = Inr True"
    "\<exists>v. fr_resolved_numeric f = Some v \<and> dec_eq v x"
    by (auto simp: eligible_fact_def result_simps split: option.splits if_splits)
  then show ?thesis
    using fid(1) by (auto simp: oracle_fact_def source_fact_oracle_eligible_def result_simps dec_eq_iff classify_family)
qed

lemma min_by_mem: "min_by k xs = Some x \<Longrightarrow> x \<in> set xs"
  by (induction xs arbitrary: x) (auto split: option.splits if_splits)

lemma comparison_label_reported:
  assumes "oracle_comparison_for_observation loads ob facts_by_id cached = Inr c" and "oc_status c \<noteq> Lab_na"
  shows "\<exists>x f p doc cik acc e. ob_status ob = Ob_value \<and> ob_numeric ob = Some x \<and> oracle_fact ob facts_by_id x f \<and>
    cached = Some p \<and> load_payload loads p = Inr doc \<and> validate_cik (ob_cik ob) = Inr cik \<and>
    validate_accession (ob_accession ob) = Inr acc \<and> ob_period_end ob = Some e \<and>
    oc_status c = label_of (reported doc cik (semantic_family_text (namespace_family (fr_concept_namespace f)))
      (fr_concept_local_name f) acc e (or_usd (ob_unit ob)) (ob_period_start ob)) (dval x)"
proof -
  have na: "oc_status comparison_na = Lab_na" by (simp add: comparison_na_def)
  obtain x ch rest where ob: "ob_status ob = Ob_value" "ob_numeric ob = Some x" "ob_period_end ob = Some (ch # rest)"
    using assms na by (auto simp: oracle_comparison_for_observation_def split: observation_status.splits
        option.splits list.splits)
  obtain fs where fs: "map_res (eligible_fact facts_by_id x) (ob_fact_ids ob) = Inr fs"
    using assms(1) ob by (auto simp: oracle_comparison_for_observation_def result_simps)
  obtain f p where fp: "min_by fr_fact_id (somes fs) = Some f" "cached = Some p"
    using assms ob fs na by (auto simp: oracle_comparison_for_observation_def split: option.splits)
  obtain clf where clf: "classify (fr_concept_namespace f) = Inr clf"
    using assms(1) ob fs fp by (auto simp: oracle_comparison_for_observation_def result_simps)
  obtain result where res: "oracle_value loads p (ob_cik ob) (semantic_family_text (tc_semantic_family clf))
      (fr_concept_local_name f) (ob_accession ob) (ch # rest) (or_usd (ob_unit ob)) (ob_period_start ob) = Inr result"
    "c = comparison_of (semantic_family_text (tc_semantic_family clf)) f x result"
    using assms ob fs fp clf na
    by (auto simp: oracle_comparison_for_observation_def Let_def split: sum.splits if_splits)
  obtain k acc doc ds where V: "validate_cik (ob_cik ob) = Inr k" "validate_accession (ob_accession ob) = Inr acc"
    "load_payload loads p = Inr doc" "result = oracle_of_values ds"
    "dval ` set ds = reported doc k (semantic_family_text (tc_semantic_family clf)) (fr_concept_local_name f) acc
       (ch # rest) (or_usd (ob_unit ob)) (ob_period_start ob)"
    by (rule oracle_value_reported [OF res(1)])
  have f: "oracle_fact ob facts_by_id x f" by (rule eligible_oracle_fact [OF fs min_by_mem [OF fp(1)]])
  show ?thesis
    using ob f fp(2) V res(2) classify_family [OF clf] by (auto simp: comparison_label)
qed

text \<open>
  An oracle label says what the companyfacts document reports.  Unless it is the na label, there is a
  standard undimensioned US dollar fact of the observation with the published number, and for the set
  of numbers the document reports for that fact's concept, accession, period and unit the label is
  absent for the empty set, agree for exactly the published number, differ for exactly one other
  number, ambiguous otherwise.
\<close>

theorem oracle_label_exact:
  assumes "oracle_comparison_for_observation loads ob facts_by_id cached = Inr c" and "oc_status c \<noteq> Lab_na"
  shows "\<exists>x f p doc cik acc e. ob_status ob = Ob_value \<and> ob_numeric ob = Some x \<and> oracle_fact ob facts_by_id x f \<and>
    cached = Some p \<and> load_payload loads p = Inr doc \<and> validate_cik (ob_cik ob) = Inr cik \<and>
    validate_accession (ob_accession ob) = Inr acc \<and> ob_period_end ob = Some e \<and>
    oc_status c = label_of (reported doc cik (semantic_family_text (namespace_family (fr_concept_namespace f)))
      (fr_concept_local_name f) acc e (or_usd (ob_unit ob)) (ob_period_start ob)) (dval x)"
  by (rule comparison_label_reported [OF assms])

section \<open>Example: one document\<close>

definition oracle_doc :: "cf_json \<Rightarrow> (string \<times> cf_json) list" where
  "oracle_doc v = [(''cik'', CInt 42), (''facts'', CObj [(''us-gaap'', CObj [(''Assets'', CObj [(''units'',
     CObj [(''USD'', CArr [CObj [(''accn'', CStr ''0000000042-24-000001''), (''end'', CStr ''2023-12-31''), (''val'', v)],
       CObj [(''accn'', CStr ''other''), (''end'', CStr ''2023-12-31''), (''val'', CInt 7)]])])])])])]"

definition oracle_example_fact :: fact_row where
  "oracle_example_fact = \<lparr>fr_fact_id = 5, fr_concept_namespace = ''http://fasb.org/us-gaap/2023'',
     fr_concept_local_name = ''Assets'', fr_source_qname = ''{http://fasb.org/us-gaap/2023}Assets'', fr_context_id = 1,
     fr_value_status = ''valid'', fr_resolved_numeric = Some (Dec 120 (-1)), fr_is_nil = False, fr_decimals = Some ''0'',
     fr_lexical_value = None, fr_entity_scheme = SEC_CIK_SCHEME, fr_entity_identifier = ''42'',
     fr_period_kind = ''instant'', fr_instant_lexical = Some ''2023-12-31'', fr_start_lexical = None,
     fr_end_lexical = None, fr_has_dimensions = False,
     fr_unit_measures = [\<lparr>mu_side = ''numerator'', mu_ordinal = 0, mu_measure_namespace_uri = Some ISO_USD_NS,
       mu_measure_local_name = ''USD''\<rparr>]\<rparr>"

definition oracle_example_observation :: observation where
  "oracle_example_observation = (base_observation ''assets'' ''42'' ''0000000042-24-000001''
      (Some \<lparr>rp_start = ''2023-01-01'', rp_end = ''2023-12-31'', rp_fiscal_year_focus = None,
        rp_fiscal_period_focus = None\<rparr>) None Instant)
     \<lparr>ob_status := Ob_value, ob_numeric := Some (Dec 12 0), ob_fact_ids := [5]\<rparr>"

abbreviation oracle_example_label :: "cf_json \<Rightarrow> oracle_label res" where
  "oracle_example_label v \<equiv> res_bind (oracle_comparison_for_observation (\<lambda>_. Inr CNull) oracle_example_observation
     [5 \<mapsto> oracle_example_fact] (Some (Payload_mapping (oracle_doc v)))) (\<lambda>c. Inr (oc_status c))"

lemma oracle_example_agree: "oracle_example_label (CStr ''1.20e1'') = Inr Lab_agree"
  by code_simp

lemma oracle_example_differ: "oracle_example_label (CInt 13) = Inr Lab_differ"
  by code_simp

text \<open>A value that is text but no number ends the report: \<^verbatim>\<open>decimal.InvalidOperation\<close> is no \<^verbatim>\<open>ValueError\<close>.\<close>

lemma oracle_unreadable_text_escapes: "oracle_example_label (CStr ''n/a'') = Inl DecimalInvalid"
  by code_simp

theorem oracle_label_exact_witness:
  "\<exists>f x doc e. oracle_fact oracle_example_observation [5 \<mapsto> oracle_example_fact] x f \<and>
     label_of (reported doc ''0000000042'' (semantic_family_text (namespace_family (fr_concept_namespace f)))
       (fr_concept_local_name f) ''0000000042-24-000001'' e ''USD'' None) (dval x) = Lab_agree"
proof -
  obtain c where c: "oracle_comparison_for_observation (\<lambda>_. Inr CNull) oracle_example_observation
      [5 \<mapsto> oracle_example_fact] (Some (Payload_mapping (oracle_doc (CStr ''1.20e1'')))) = Inr c" "oc_status c = Lab_agree"
    using oracle_example_agree by (auto simp: res_bind_Inr_iff)
  have ob: "validate_cik (ob_cik oracle_example_observation) = Inr ''0000000042''"
    "validate_accession (ob_accession oracle_example_observation) = Inr ''0000000042-24-000001''"
    "or_usd (ob_unit oracle_example_observation) = ''USD''" "ob_period_start oracle_example_observation = None"
    by code_simp+
  have "oc_status c \<noteq> Lab_na" using c(2) by simp
  from oracle_label_exact [OF c(1) this] show ?thesis
    unfolding ob c(2) by (metis Inr_inject)
qed

end
