(* ===== verification/Quality.thy ===== *)
theory Quality
  imports Build_Run Oracle Census
begin

text \<open>
  \<^verbatim>\<open>src/edgar/financials/quality.py\<close>: the quality report over filing and metric slots, one cell per
  metric, fiscal year, taxonomy release and industry.

  The sample file, the captured taxonomy of a filing and the cached companyfacts documents are
  arguments; the fixed descriptive strings of the document are left out.  A \<^verbatim>\<open>frozenset\<close> of concepts is
  the list of its elements in iteration order.
\<close>

section \<open>Cells\<close>

record quality_cell =
  qc_metric :: string
  qc_fiscal_year :: string
  qc_filing_taxonomy_release :: string
  qc_industry_bucket :: string
  qc_n_slots :: nat
  qc_n_slot_eligible :: nat
  qc_n_ineligible_wrong_form :: nat
  qc_n_value :: nat
  qc_n_missing :: nat
  qc_n_conflict :: nat
  qc_n_unsupported :: nat
  qc_n_reason_decision_scope :: nat
  qc_n_reason_other_unsupported :: nat
  qc_n_decision_applicable :: nat
  qc_n_no_applicable_decision :: nat
  qc_identity_pass :: nat
  qc_identity_fail :: nat
  qc_identity_na :: nat
  qc_oracle_agree :: nat
  qc_oracle_differ :: nat
  qc_oracle_absent :: nat
  qc_oracle_ambiguous :: nat
  qc_oracle_na :: nat
  qc_publication_rate :: "string option"
  qc_selector_yield :: "string option"

type_synonym qcell_key = "string \<times> string \<times> string \<times> string"

definition new_cell :: "qcell_key \<Rightarrow> quality_cell" where
  "new_cell key = (case key of (metric, fiscal_year, release, bucket) \<Rightarrow>
     \<lparr>qc_metric = metric, qc_fiscal_year = fiscal_year, qc_filing_taxonomy_release = release,
      qc_industry_bucket = bucket, qc_n_slots = 0, qc_n_slot_eligible = 0, qc_n_ineligible_wrong_form = 0,
      qc_n_value = 0, qc_n_missing = 0, qc_n_conflict = 0, qc_n_unsupported = 0, qc_n_reason_decision_scope = 0,
      qc_n_reason_other_unsupported = 0, qc_n_decision_applicable = 0, qc_n_no_applicable_decision = 0,
      qc_identity_pass = 0, qc_identity_fail = 0, qc_identity_na = 0, qc_oracle_agree = 0, qc_oracle_differ = 0,
      qc_oracle_absent = 0, qc_oracle_ambiguous = 0, qc_oracle_na = 0, qc_publication_rate = None,
      qc_selector_yield = None\<rparr>)"

text \<open>
  \<^verbatim>\<open>Decimal(n) / Decimal(d)\<close>: the quotient to 29 or more digits with a sticky last digit, trailing zeros
  of an exact quotient removed, then rounded to the context's 28 digits.
\<close>

fun drop_zeros :: "nat \<Rightarrow> nat \<Rightarrow> nat \<times> nat" where
  "drop_zeros c 0 = (c, 0)"
| "drop_zeros c (Suc k) = (if c mod 10 = 0 then drop_zeros (c div 10) k else (c, Suc k))"

definition dec_quotient :: "nat \<Rightarrow> nat \<Rightarrow> decimal" where
  "dec_quotient n d =
     (if n = 0 then Dec 0 0
      else let shift = int (ndigits d) - int (ndigits n) + int dec_prec + 1;
               num = n * 10 ^ nat shift; den = d * 10 ^ nat (- shift);
               q = num div den; r = num mod den
           in if r \<noteq> 0 then dec_fix (Dec (int (if q mod 5 = 0 then q + 1 else q)) (- shift))
              else (let (c, k) = drop_zeros q (nat shift)
                    in dec_fix (Dec (int c) (if shift \<ge> 0 then - int k else - shift))))"

definition rate :: "nat \<Rightarrow> nat \<Rightarrow> string option" where
  "rate numerator denominator =
     (if denominator = 0 then None else Some (decimal_text (dec_quotient numerator denominator)))"

section \<open>Filing frames\<close>

record filing_frame =
  ff_accession :: string
  ff_cik :: string
  ff_form :: string
  ff_fiscal_year :: string
  ff_industry_bucket :: string
  ff_filing_taxonomy_release :: string
  ff_declared_concepts :: "(string \<times> string) list"
  ff_taxonomy_concepts :: "(string \<times> string) list"

definition gaap_exact_decisions :: "decision_registry \<Rightarrow> string \<Rightarrow> string \<Rightarrow> decision_record list res" where
  "gaap_exact_decisions registry metric cik =
     filter_res (\<lambda>r. if ds_family (dr_source r) = Fam_us_gaap then decision_applies_to_filing r cik else Inr False)
       (exact_decisions registry metric)"

definition slot_decision_applicable :: "filing_frame \<Rightarrow> string \<Rightarrow> decision_registry \<Rightarrow> bool res" where
  "slot_decision_applicable frame metric registry =
     (if ff_form frame \<notin> set ANNUAL_FORMS then Inr False
      else if ff_filing_taxonomy_release frame = ''unknown'' then Inr False
      else res_bind (gaap_exact_decisions registry metric (ff_cik frame)) (\<lambda>exact.
        any_res (\<lambda>r. any_res (\<lambda>(ns, loc). res_bind (us_gaap_release_token ns) (\<lambda>token. case token of
            None \<Rightarrow> Inr False
          | Some t \<Rightarrow>
              if ff_filing_taxonomy_release frame \<noteq> ''mixed'' \<and> t \<noteq> ff_filing_taxonomy_release frame then Inr False
              else concept_matches_decision r (ff_cik frame) ns loc))
          (ff_taxonomy_concepts frame)) exact))"

definition fiscal_year_of :: "string option list \<Rightarrow> string option \<Rightarrow> string" where
  "fiscal_year_of observation_years report_period_year =
     (let years = remdups (filter (\<lambda>y. y \<noteq> []) (somes observation_years))
      in if length years = 1 then hd years
         else if length years > 1 then ''mixed''
         else if truthy report_period_year then the report_period_year else ''unknown'')"

definition filing_frame_for_source ::
  "string \<Rightarrow> string \<Rightarrow> string \<Rightarrow> string option list \<Rightarrow> string option \<Rightarrow> string \<Rightarrow> (string \<times> string) list \<Rightarrow>
     filing_taxonomy_availability option \<Rightarrow> (string \<times> string) list option \<Rightarrow> filing_frame res" where
  "filing_frame_for_source accession cik form observation_years report_period_year industry_bucket
     declared_concepts availability taxonomy_concepts =
     res_bind (case availability of
         Some ta \<Rightarrow> Inr (ta_filing_taxonomy_release ta, ta_concepts ta)
       | None \<Rightarrow>
           let cs = (case taxonomy_concepts of None \<Rightarrow> [] | Some xs \<Rightarrow> remdups xs)
           in res_bind (filing_taxonomy_release (map fst cs)) (\<lambda>release. Inr (release, cs)))
     (\<lambda>(release, cs). Inr
       \<lparr>ff_accession = accession, ff_cik = cik, ff_form = form,
        ff_fiscal_year = fiscal_year_of observation_years report_period_year,
        ff_industry_bucket = (if industry_bucket = [] then ''unknown'' else industry_bucket),
        ff_filing_taxonomy_release = release, ff_declared_concepts = remdups declared_concepts,
        ff_taxonomy_concepts = cs\<rparr>)"

section \<open>The document\<close>

text \<open>Identity counts: passed, failed and not applicable per accession, from the build's finding rows.\<close>

definition identity_step :: "(string \<times> string) list \<Rightarrow> (string \<rightharpoonup> nat \<times> nat \<times> nat) \<Rightarrow> (string \<rightharpoonup> nat \<times> nat \<times> nat) res" where
  "identity_step finding counts = (case map_of finding ''accession'' of
     Some (ch # rest) \<Rightarrow>
       let a = ch # rest; (p, f, n) = (case counts a of None \<Rightarrow> (0, 0, 0) | Some c \<Rightarrow> c)
       in (case map_of finding ''status'' of
            None \<Rightarrow> Inl (QualityReportError ''unknown identity status'')
          | Some st \<Rightarrow>
              if st = ''pass'' then Inr (counts(a \<mapsto> (Suc p, f, n)))
              else if st = ''fail'' then Inr (counts(a \<mapsto> (p, Suc f, n)))
              else if st = ''not_applicable'' then Inr (counts(a \<mapsto> (p, f, Suc n)))
              else Inl (QualityReportError ''unknown identity status''))
   | _ \<Rightarrow> Inl (QualityReportError ''identity finding is missing accession''))"

definition identity_counts :: "(string \<times> string) list list \<Rightarrow> (string \<rightharpoonup> nat \<times> nat \<times> nat) res" where
  "identity_counts findings = fold_res identity_step findings Map.empty"

definition finding_order :: "oracle_finding \<Rightarrow> string \<times> string \<times> string" where
  "finding_order f = (of_accession f, of_metric f, of_status f)"

definition normalize_oracle_findings :: "oracle_finding list \<Rightarrow> oracle_finding list res" where
  "normalize_oracle_findings findings =
     (if \<exists>f\<in>set findings. of_status f \<notin> {''differ'', ''ambiguous''}
      then Inl (QualityReportError ''oracle finding status must be differ or ambiguous'')
      else Inr (sort_key finding_order findings))"

definition default_frame :: "observation \<Rightarrow> filing_frame" where
  "default_frame ob = \<lparr>ff_accession = ob_accession ob, ff_cik = ob_cik ob, ff_form = [],
     ff_fiscal_year = (if truthy (ob_fy ob) then the (ob_fy ob) else ''unknown''), ff_industry_bucket = ''unknown'',
     ff_filing_taxonomy_release = ''unknown'', ff_declared_concepts = [], ff_taxonomy_concepts = []\<rparr>"

definition frame_of :: "(string \<rightharpoonup> filing_frame) \<Rightarrow> observation \<Rightarrow> filing_frame" where
  "frame_of filings ob = (case filings (ob_accession ob) of None \<Rightarrow> default_frame ob | Some f \<Rightarrow> f)"

definition cell_key :: "filing_frame \<Rightarrow> string \<Rightarrow> qcell_key" where
  "cell_key frame metric =
     (metric, ff_fiscal_year frame, ff_filing_taxonomy_release frame, ff_industry_bucket frame)"

definition count_status :: "filing_frame \<Rightarrow> observation \<Rightarrow> quality_cell \<Rightarrow> quality_cell" where
  "count_status frame ob c =
     (if ff_form frame \<in> set ANNUAL_FORMS
      then (let c = c\<lparr>qc_n_slot_eligible := Suc (qc_n_slot_eligible c)\<rparr>
            in case ob_status ob of
                 Ob_value \<Rightarrow> c\<lparr>qc_n_value := Suc (qc_n_value c)\<rparr>
               | Ob_missing \<Rightarrow> c\<lparr>qc_n_missing := Suc (qc_n_missing c)\<rparr>
               | Ob_unsupported \<Rightarrow>
                   let c = c\<lparr>qc_n_unsupported := Suc (qc_n_unsupported c)\<rparr>
                   in if ob_reason ob = Some Decision_scope
                      then c\<lparr>qc_n_reason_decision_scope := Suc (qc_n_reason_decision_scope c)\<rparr>
                      else c\<lparr>qc_n_reason_other_unsupported := Suc (qc_n_reason_other_unsupported c)\<rparr>
               | Ob_conflict \<Rightarrow> c\<lparr>qc_n_conflict := Suc (qc_n_conflict c)\<rparr>)
      else c\<lparr>qc_n_ineligible_wrong_form := Suc (qc_n_ineligible_wrong_form c)\<rparr>)"

definition count_label :: "string \<Rightarrow> quality_cell \<Rightarrow> quality_cell res" where
  "count_label label c =
     (if label = ''agree'' then Inr (c\<lparr>qc_oracle_agree := Suc (qc_oracle_agree c)\<rparr>)
      else if label = ''differ'' then Inr (c\<lparr>qc_oracle_differ := Suc (qc_oracle_differ c)\<rparr>)
      else if label = ''absent'' then Inr (c\<lparr>qc_oracle_absent := Suc (qc_oracle_absent c)\<rparr>)
      else if label = ''ambiguous'' then Inr (c\<lparr>qc_oracle_ambiguous := Suc (qc_oracle_ambiguous c)\<rparr>)
      else if label = ''na'' then Inr (c\<lparr>qc_oracle_na := Suc (qc_oracle_na c)\<rparr>)
      else Inl (QualityReportError ''unknown oracle label''))"

text \<open>The dictionaries \<^verbatim>\<open>cells\<close> and \<^verbatim>\<open>members\<close> have the same keys: one association list holds both.\<close>

type_synonym cell_table = "(qcell_key \<times> quality_cell \<times> string list) list"

definition cell_at :: "cell_table \<Rightarrow> qcell_key \<Rightarrow> quality_cell \<times> string list" where
  "cell_at table key = (case map_of table key of None \<Rightarrow> (new_cell key, []) | Some x \<Rightarrow> x)"

fun put_cell :: "qcell_key \<Rightarrow> quality_cell \<times> string list \<Rightarrow> cell_table \<Rightarrow> cell_table" where
  "put_cell key x [] = [(key, x)]"
| "put_cell key x ((k, y) # table) = (if k = key then (k, x) # table else (k, y) # put_cell key x table)"

definition quality_step ::
  "(string \<rightharpoonup> filing_frame) \<Rightarrow> decision_registry \<Rightarrow> (string \<times> string \<rightharpoonup> string) \<Rightarrow> observation \<Rightarrow> cell_table \<Rightarrow>
     cell_table res" where
  "quality_step filings registry oracle_by_slot ob table =
     (let frame = frame_of filings ob; key = cell_key frame (ob_metric ob);
          (cell, accs) = cell_at table key;
          cell = count_status frame ob (cell\<lparr>qc_n_slots := Suc (qc_n_slots cell)\<rparr>)
      in res_bind (slot_decision_applicable frame (ob_metric ob) registry) (\<lambda>applicable.
         let cell = (if applicable then cell\<lparr>qc_n_decision_applicable := Suc (qc_n_decision_applicable cell)\<rparr> else cell)
         in if ob_status ob = Ob_value \<and> \<not> applicable
            then Inl (QualityReportError ''published value without an applicable decision'')
            else res_bind (count_label (case oracle_by_slot (ob_accession ob, ob_metric ob) of
                     None \<Rightarrow> ''na'' | Some label \<Rightarrow> label) cell) (\<lambda>cell.
                   Inr (put_cell key (cell, List.insert (ob_accession ob) accs) table))))"

definition add_identity :: "(string \<rightharpoonup> nat \<times> nat \<times> nat) \<Rightarrow> string \<Rightarrow> quality_cell \<Rightarrow> quality_cell" where
  "add_identity counts accession c =
     (let (p, f, n) = (case counts accession of None \<Rightarrow> (0, 0, 0) | Some x \<Rightarrow> x)
      in c\<lparr>qc_identity_pass := qc_identity_pass c + p, qc_identity_fail := qc_identity_fail c + f,
           qc_identity_na := qc_identity_na c + n\<rparr>)"

definition with_identity :: "(string \<rightharpoonup> nat \<times> nat \<times> nat) \<Rightarrow> quality_cell \<times> string list \<Rightarrow> quality_cell" where
  "with_identity counts x = fold (add_identity counts) (snd x) (fst x)"

definition finish_cell :: "quality_cell \<Rightarrow> quality_cell res" where
  "finish_cell c =
     (let status_sum = qc_n_value c + qc_n_missing c + qc_n_unsupported c + qc_n_conflict c;
          reason_sum = qc_n_reason_decision_scope c + qc_n_reason_other_unsupported c;
          oracle_sum = qc_oracle_agree c + qc_oracle_differ c + qc_oracle_absent c + qc_oracle_ambiguous c + qc_oracle_na c
      in if \<not> (status_sum = qc_n_slot_eligible c \<and> qc_n_ineligible_wrong_form c + qc_n_slot_eligible c = qc_n_slots c \<and>
               oracle_sum = qc_n_slots c \<and> reason_sum = qc_n_unsupported c)
         then Inl (QualityReportError ''cell does not partition its denominators'')
         else if \<not> (qc_n_decision_applicable c \<le> qc_n_slot_eligible c \<and> qc_n_slot_eligible c \<le> qc_n_slots c)
         then Inl (QualityReportError ''cell breaks eligibility bounds'')
         else if qc_n_value c > qc_n_decision_applicable c
         then Inl (QualityReportError ''cell publishes more values than applicable decisions'')
         else Inr (c\<lparr>qc_n_no_applicable_decision := qc_n_slot_eligible c - qc_n_decision_applicable c,
                     qc_publication_rate := rate (qc_n_value c) (qc_n_slot_eligible c),
                     qc_selector_yield := rate (qc_n_value c) (qc_n_decision_applicable c)\<rparr>))"

record quality_document =
  qd_cells :: "quality_cell list"
  qd_oracle_findings :: "oracle_finding list"
  qd_oracle_sources :: "(string \<times> string) list"
  qd_filing_taxonomy_sources :: "(string \<times> string \<times> string list) list"
  qd_by_qname :: "(string \<times> nat) list"
  qd_name_reuse_aggregate :: "((string \<times> string \<times> string) \<times> nat) list"

definition build_quality_document ::
  "observation list \<Rightarrow> (string \<rightharpoonup> filing_frame) \<Rightarrow> decision_registry \<Rightarrow> (string \<times> string \<rightharpoonup> string) \<Rightarrow>
     (string \<times> string \<times> string) list \<Rightarrow> (string \<times> string) list list \<Rightarrow> oracle_finding list \<Rightarrow>
     (string \<times> string) list \<Rightarrow> (string \<times> string \<times> string list) list \<Rightarrow> quality_document res" where
  "build_quality_document observations filings registry oracle_by_slot census_facts identity_findings
     oracle_findings oracle_sources taxonomy_sources =
     res_bind (fold_res (quality_step filings registry oracle_by_slot) observations []) (\<lambda>table.
     res_bind (identity_counts identity_findings) (\<lambda>identity.
     res_bind (map_res (\<lambda>(key, x). finish_cell (with_identity identity x)) (sort_key fst table)) (\<lambda>rows.
     res_bind (normalize_oracle_findings oracle_findings) (\<lambda>found.
     res_bind (qname_census census_facts) (\<lambda>by_qname.
     res_bind (name_reuse_aggregate census_facts) (\<lambda>reuse. Inr
       \<lparr>qd_cells = rows, qd_oracle_findings = found, qd_oracle_sources = sort_key fst oracle_sources,
        qd_filing_taxonomy_sources = sort_key fst taxonomy_sources, qd_by_qname = by_qname,
        qd_name_reuse_aggregate = reuse\<rparr>))))))"

end
