(* ===== verification/Quality_Props.thy ===== *)
theory Quality_Props
  imports Quality "HOL-Library.Code_Target_Nat"
begin

text \<open>
  What the quality report counts: every cell holds the counts of its own slots, the report's three
  consistency errors cannot occur, and a value published under a decision of another family than
  US-GAAP stops the report.
\<close>

section \<open>Counts of a list of observations\<close>

definition slot_key :: "(string \<rightharpoonup> filing_frame) \<Rightarrow> observation \<Rightarrow> qcell_key" where
  "slot_key filings ob = cell_key (frame_of filings ob) (ob_metric ob)"

definition slot_eligible :: "(string \<rightharpoonup> filing_frame) \<Rightarrow> observation \<Rightarrow> bool" where
  "slot_eligible filings ob \<longleftrightarrow> ff_form (frame_of filings ob) \<in> set ANNUAL_FORMS"

definition slot_label :: "(string \<times> string \<rightharpoonup> string) \<Rightarrow> observation \<Rightarrow> string" where
  "slot_label oracle ob = (case oracle (ob_accession ob, ob_metric ob) of None \<Rightarrow> ''na'' | Some l \<Rightarrow> l)"

definition slot_applicable :: "(string \<rightharpoonup> filing_frame) \<Rightarrow> decision_registry \<Rightarrow> observation \<Rightarrow> bool" where
  "slot_applicable filings registry ob \<longleftrightarrow>
     slot_decision_applicable (frame_of filings ob) (ob_metric ob) registry = Inr True"

definition count_in ::
  "(string \<rightharpoonup> filing_frame) \<Rightarrow> qcell_key \<Rightarrow> observation list \<Rightarrow> (observation \<Rightarrow> bool) \<Rightarrow> nat" where
  "count_in filings key obs P = length (filter (\<lambda>ob. slot_key filings ob = key \<and> P ob) obs)"

lemma count_in_Nil [simp]: "count_in filings key [] P = 0"
  by (simp add: count_in_def)

lemma count_in_snoc:
  "count_in filings key (obs @ [ob]) P = count_in filings key obs P + of_bool (slot_key filings ob = key \<and> P ob)"
  by (simp add: count_in_def)

lemma count_in_Cons:
  "count_in filings key (ob # obs) P = of_bool (slot_key filings ob = key \<and> P ob) + count_in filings key obs P"
  by (simp add: count_in_def)

text \<open>The cell of a key over a list of observations, before identities and rates.\<close>

definition tally ::
  "(string \<rightharpoonup> filing_frame) \<Rightarrow> decision_registry \<Rightarrow> (string \<times> string \<rightharpoonup> string) \<Rightarrow> qcell_key \<Rightarrow> observation list \<Rightarrow>
     quality_cell" where
  "tally filings registry oracle key obs = (new_cell key)
     \<lparr>qc_n_slots := count_in filings key obs (\<lambda>_. True),
      qc_n_slot_eligible := count_in filings key obs (slot_eligible filings),
      qc_n_ineligible_wrong_form := count_in filings key obs (\<lambda>ob. \<not> slot_eligible filings ob),
      qc_n_value := count_in filings key obs (\<lambda>ob. slot_eligible filings ob \<and> ob_status ob = Ob_value),
      qc_n_missing := count_in filings key obs (\<lambda>ob. slot_eligible filings ob \<and> ob_status ob = Ob_missing),
      qc_n_conflict := count_in filings key obs (\<lambda>ob. slot_eligible filings ob \<and> ob_status ob = Ob_conflict),
      qc_n_unsupported := count_in filings key obs (\<lambda>ob. slot_eligible filings ob \<and> ob_status ob = Ob_unsupported),
      qc_n_reason_decision_scope := count_in filings key obs (\<lambda>ob. slot_eligible filings ob \<and>
        ob_status ob = Ob_unsupported \<and> ob_reason ob = Some Decision_scope),
      qc_n_reason_other_unsupported := count_in filings key obs (\<lambda>ob. slot_eligible filings ob \<and>
        ob_status ob = Ob_unsupported \<and> ob_reason ob \<noteq> Some Decision_scope),
      qc_n_decision_applicable := count_in filings key obs (slot_applicable filings registry),
      qc_oracle_agree := count_in filings key obs (\<lambda>ob. slot_label oracle ob = ''agree''),
      qc_oracle_differ := count_in filings key obs (\<lambda>ob. slot_label oracle ob = ''differ''),
      qc_oracle_absent := count_in filings key obs (\<lambda>ob. slot_label oracle ob = ''absent''),
      qc_oracle_ambiguous := count_in filings key obs (\<lambda>ob. slot_label oracle ob = ''ambiguous''),
      qc_oracle_na := count_in filings key obs (\<lambda>ob. slot_label oracle ob = ''na'')\<rparr>"

lemma tally_Nil: "tally filings registry oracle key [] = new_cell key"
  by (cases key) (simp add: tally_def new_cell_def)

lemma tally_other: "slot_key filings ob \<noteq> key \<Longrightarrow>
    tally filings registry oracle key (obs @ [ob]) = tally filings registry oracle key obs"
  by (simp add: tally_def count_in_snoc)

section \<open>One step counts one slot\<close>

lemma count_status_eq:
  "count_status frame ob c = (let e = (ff_form frame \<in> set ANNUAL_FORMS); st = ob_status ob in
     c\<lparr>qc_n_slot_eligible := qc_n_slot_eligible c + of_bool e,
       qc_n_ineligible_wrong_form := qc_n_ineligible_wrong_form c + of_bool (\<not> e),
       qc_n_value := qc_n_value c + of_bool (e \<and> st = Ob_value),
       qc_n_missing := qc_n_missing c + of_bool (e \<and> st = Ob_missing),
       qc_n_conflict := qc_n_conflict c + of_bool (e \<and> st = Ob_conflict),
       qc_n_unsupported := qc_n_unsupported c + of_bool (e \<and> st = Ob_unsupported),
       qc_n_reason_decision_scope := qc_n_reason_decision_scope c +
         of_bool (e \<and> st = Ob_unsupported \<and> ob_reason ob = Some Decision_scope),
       qc_n_reason_other_unsupported := qc_n_reason_other_unsupported c +
         of_bool (e \<and> st = Ob_unsupported \<and> ob_reason ob \<noteq> Some Decision_scope)\<rparr>)"
  by (cases "ff_form frame \<in> set ANNUAL_FORMS"; cases "ob_status ob"; cases "ob_reason ob = Some Decision_scope")
    (simp_all add: count_status_def Let_def)

lemma count_label_Inr:
  "count_label l c = Inr c' \<longleftrightarrow> l \<in> {''agree'', ''differ'', ''absent'', ''ambiguous'', ''na''} \<and> c' =
     c\<lparr>qc_oracle_agree := qc_oracle_agree c + of_bool (l = ''agree''),
       qc_oracle_differ := qc_oracle_differ c + of_bool (l = ''differ''),
       qc_oracle_absent := qc_oracle_absent c + of_bool (l = ''absent''),
       qc_oracle_ambiguous := qc_oracle_ambiguous c + of_bool (l = ''ambiguous''),
       qc_oracle_na := qc_oracle_na c + of_bool (l = ''na'')\<rparr>"
  by (auto simp: count_label_def)

lemma cell_at_Nil [simp]: "cell_at [] k = (new_cell k, [])"
  by (simp add: cell_at_def)

lemma cell_at_put [simp]: "cell_at (put_cell key x table) k = (if k = key then x else cell_at table k)"
  by (induction key x table rule: put_cell.induct) (auto simp: cell_at_def)

lemma put_cell_key_set: "fst ` set (put_cell key x table) = insert key (fst ` set table)"
  by (induction key x table rule: put_cell.induct) auto

lemma put_cell_keys:
  "map fst (put_cell key x table) = (if key \<in> fst ` set table then map fst table else map fst table @ [key])"
  by (induction key x table rule: put_cell.induct) auto

text \<open>The table after a list of observations.\<close>

definition table_of ::
  "(string \<rightharpoonup> filing_frame) \<Rightarrow> decision_registry \<Rightarrow> (string \<times> string \<rightharpoonup> string) \<Rightarrow> observation list \<Rightarrow> cell_table \<Rightarrow> bool" where
  "table_of filings registry oracle obs table \<longleftrightarrow>
     distinct (map fst table) \<and> fst ` set table = slot_key filings ` set obs \<and>
     (\<forall>k. fst (cell_at table k) = tally filings registry oracle k obs \<and> distinct (snd (cell_at table k)) \<and>
        set (snd (cell_at table k)) = ob_accession ` {ob \<in> set obs. slot_key filings ob = k})"

lemma table_of_cell:
  assumes "table_of filings registry oracle obs table"
  shows "fst (cell_at table k) = tally filings registry oracle k obs" "distinct (snd (cell_at table k))"
    "set (snd (cell_at table k)) = ob_accession ` {ob \<in> set obs. slot_key filings ob = k}"
  using assms [unfolded table_of_def, THEN conjunct2, THEN conjunct2, rule_format, of k] by blast+

definition slot_fine ::
  "(string \<rightharpoonup> filing_frame) \<Rightarrow> decision_registry \<Rightarrow> (string \<times> string \<rightharpoonup> string) \<Rightarrow> observation \<Rightarrow> bool" where
  "slot_fine filings registry oracle ob \<longleftrightarrow>
     is_ok (slot_decision_applicable (frame_of filings ob) (ob_metric ob) registry) \<and>
     (ob_status ob = Ob_value \<longrightarrow> slot_applicable filings registry ob) \<and>
     slot_label oracle ob \<in> {''agree'', ''differ'', ''absent'', ''ambiguous'', ''na''}"

lemma quality_step_Inr:
  "(\<exists>table'. quality_step filings registry oracle ob table = Inr table') \<longleftrightarrow> slot_fine filings registry oracle ob"
proof (cases "slot_decision_applicable (frame_of filings ob) (ob_metric ob) registry")
  case (Inl e)
  then show ?thesis by (simp add: quality_step_def slot_fine_def Let_def case_prod_unfold)
next
  case (Inr b)
  then show ?thesis
    by (cases b) (auto simp: quality_step_def slot_fine_def slot_applicable_def slot_label_def Let_def case_prod_unfold
        result_simps count_label_Inr)
qed

lemma quality_step_table:
  assumes step: "quality_step filings registry oracle ob table = Inr table'"
    and T: "table_of filings registry oracle obs table"
  shows "table_of filings registry oracle (obs @ [ob]) table'"
proof -
  let ?k = "slot_key filings ob"
  let ?c = "tally filings registry oracle ?k obs"
  obtain accs where at: "cell_at table ?k = (?c, accs)" "distinct accs"
    "set accs = ob_accession ` {ob' \<in> set obs. slot_key filings ob' = ?k}"
    using table_of_cell [OF T, of ?k] by (metis fst_conv snd_conv surj_pair)
  obtain app c where app: "slot_decision_applicable (frame_of filings ob) (ob_metric ob) registry = Inr app"
    and c: "count_label (slot_label oracle ob)
        (let c = count_status (frame_of filings ob) ob (?c\<lparr>qc_n_slots := Suc (qc_n_slots ?c)\<rparr>)
         in if app then c\<lparr>qc_n_decision_applicable := Suc (qc_n_decision_applicable c)\<rparr> else c) = Inr c"
    and table': "table' = put_cell ?k (c, List.insert (ob_accession ob) accs) table"
    using step at(1) unfolding quality_step_def Let_def slot_key_def [symmetric]
    by (auto simp: result_simps slot_label_def split: if_splits)
  have new: "c = tally filings registry oracle ?k (obs @ [ob])"
    using c app unfolding count_label_Inr count_status_eq Let_def
    by (cases app) (simp_all add: tally_def count_in_snoc slot_eligible_def slot_applicable_def)
  have keys: "distinct (map fst table')" "fst ` set table' = slot_key filings ` set (obs @ [ob])"
    using T by (simp_all add: table_of_def table' put_cell_keys put_cell_key_set image_set [symmetric] del: image_set)
  have cells: "fst (cell_at table' k) = tally filings registry oracle k (obs @ [ob]) \<and> distinct (snd (cell_at table' k)) \<and>
      set (snd (cell_at table' k)) = ob_accession ` {o' \<in> set (obs @ [ob]). slot_key filings o' = k}" for k
  proof (cases "k = ?k")
    case True
    then show ?thesis using at by (auto simp: table' new)
  next
    case False
    then have "{o' \<in> set (obs @ [ob]). slot_key filings o' = k} = {o' \<in> set obs. slot_key filings o' = k}" by auto
    then show ?thesis using table_of_cell [OF T, of k] False by (simp add: table' tally_other)
  qed
  show ?thesis unfolding table_of_def using keys cells by blast
qed

lemma quality_fold_table:
  assumes "fold_res (quality_step filings registry oracle) obs [] = Inr table"
  shows "table_of filings registry oracle obs table" and "list_all (slot_fine filings registry oracle) obs"
proof -
  have "table_of filings registry oracle obs table \<and> list_all (slot_fine filings registry oracle) obs"
    using assms
  proof (induction obs arbitrary: table rule: rev_induct)
    case Nil
    then show ?case by (simp add: table_of_def tally_Nil)
  next
    case (snoc ob obs)
    then obtain t where t: "fold_res (quality_step filings registry oracle) obs [] = Inr t"
      "quality_step filings registry oracle ob t = Inr table"
      by (auto simp: fold_res_append result_simps)
    then show ?case
      using snoc.IH [OF t(1)] quality_step_table [OF t(2)] quality_step_Inr [THEN iffD1, OF exI, OF t(2)] by simp
  qed
  then show "table_of filings registry oracle obs table" and "list_all (slot_fine filings registry oracle) obs" by simp_all
qed

lemma quality_fold_ok:
  assumes "list_all (slot_fine filings registry oracle) obs"
  shows "\<exists>table. fold_res (quality_step filings registry oracle) obs t = Inr table"
  using assms
proof (induction obs arbitrary: t)
  case (Cons ob obs)
  then obtain t' where "quality_step filings registry oracle ob t = Inr t'"
    using quality_step_Inr by fastforce
  then show ?case using Cons by simp
qed simp

section \<open>The consistency checks cannot fail\<close>

lemma count_in_statuses:
  "count_in filings key obs (\<lambda>ob. e ob \<and> ob_status ob = Ob_value) +
   count_in filings key obs (\<lambda>ob. e ob \<and> ob_status ob = Ob_missing) +
   count_in filings key obs (\<lambda>ob. e ob \<and> ob_status ob = Ob_unsupported) +
   count_in filings key obs (\<lambda>ob. e ob \<and> ob_status ob = Ob_conflict) = count_in filings key obs e"
proof (induction obs)
  case (Cons ob obs)
  then show ?case by (cases "ob_status ob") (simp_all add: count_in_Cons)
qed simp

lemma count_in_compl:
  "count_in filings key obs (\<lambda>ob. P ob \<and> Q ob) + count_in filings key obs (\<lambda>ob. P ob \<and> \<not> Q ob) =
   count_in filings key obs P"
proof (induction obs)
  case (Cons ob obs)
  then show ?case by (cases "Q ob") (simp_all add: count_in_Cons)
qed simp

lemma count_in_labels:
  "(\<And>ob. ob \<in> set obs \<Longrightarrow> slot_label oracle ob \<in> {''agree'', ''differ'', ''absent'', ''ambiguous'', ''na''}) \<Longrightarrow>
   count_in filings key obs (\<lambda>ob. slot_label oracle ob = ''agree'') +
   count_in filings key obs (\<lambda>ob. slot_label oracle ob = ''differ'') +
   count_in filings key obs (\<lambda>ob. slot_label oracle ob = ''absent'') +
   count_in filings key obs (\<lambda>ob. slot_label oracle ob = ''ambiguous'') +
   count_in filings key obs (\<lambda>ob. slot_label oracle ob = ''na'') = count_in filings key obs (\<lambda>_. True)"
proof (induction obs)
  case (Cons ob obs)
  then have "slot_label oracle ob \<in> {''agree'', ''differ'', ''absent'', ''ambiguous'', ''na''}" by simp
  then show ?case using Cons by (elim insertE) (simp_all add: count_in_Cons)
qed simp

lemma count_in_mono:
  "(\<And>ob. ob \<in> set obs \<Longrightarrow> P ob \<Longrightarrow> Q ob) \<Longrightarrow> count_in filings key obs P \<le> count_in filings key obs Q"
proof (induction obs)
  case (Cons ob obs)
  then have "count_in filings key obs P \<le> count_in filings key obs Q" by simp
  then show ?case using Cons.prems [of ob] by (simp add: count_in_Cons)
qed simp

definition consistent_cell :: "quality_cell \<Rightarrow> bool" where
  "consistent_cell c \<longleftrightarrow>
     qc_n_value c + qc_n_missing c + qc_n_unsupported c + qc_n_conflict c = qc_n_slot_eligible c \<and>
     qc_n_ineligible_wrong_form c + qc_n_slot_eligible c = qc_n_slots c \<and>
     qc_oracle_agree c + qc_oracle_differ c + qc_oracle_absent c + qc_oracle_ambiguous c + qc_oracle_na c = qc_n_slots c \<and>
     qc_n_reason_decision_scope c + qc_n_reason_other_unsupported c = qc_n_unsupported c \<and>
     qc_n_value c \<le> qc_n_decision_applicable c \<and> qc_n_decision_applicable c \<le> qc_n_slot_eligible c"

lemma finish_consistent:
  "consistent_cell c \<Longrightarrow> finish_cell c = Inr (c
     \<lparr>qc_n_no_applicable_decision := qc_n_slot_eligible c - qc_n_decision_applicable c,
      qc_publication_rate := rate (qc_n_value c) (qc_n_slot_eligible c),
      qc_selector_yield := rate (qc_n_value c) (qc_n_decision_applicable c)\<rparr>)"
  by (simp add: finish_cell_def consistent_cell_def Let_def)

lemma applicable_eligible: "slot_applicable filings registry ob \<Longrightarrow> slot_eligible filings ob"
  by (auto simp: slot_applicable_def slot_eligible_def slot_decision_applicable_def split: if_splits)

lemma tally_consistent:
  assumes "list_all (slot_fine filings registry oracle) obs"
  shows "consistent_cell (tally filings registry oracle key obs)"
proof -
  have fine: "ob_status ob = Ob_value \<Longrightarrow> slot_applicable filings registry ob"
    "slot_label oracle ob \<in> {''agree'', ''differ'', ''absent'', ''ambiguous'', ''na''}" if "ob \<in> set obs" for ob
    using assms that by (auto simp: list_all_iff slot_fine_def)
  have fms: "count_in filings key obs (\<lambda>ob. \<not> slot_eligible filings ob) + count_in filings key obs (slot_eligible filings) =
      count_in filings key obs (\<lambda>_. True)"
    using count_in_compl [of filings key obs "\<lambda>_. True" "slot_eligible filings"] by simp
  have rsn: "count_in filings key obs (\<lambda>ob. slot_eligible filings ob \<and> ob_status ob = Ob_unsupported \<and>
        ob_reason ob = Some Decision_scope) +
      count_in filings key obs (\<lambda>ob. slot_eligible filings ob \<and> ob_status ob = Ob_unsupported \<and>
        ob_reason ob \<noteq> Some Decision_scope) =
      count_in filings key obs (\<lambda>ob. slot_eligible filings ob \<and> ob_status ob = Ob_unsupported)"
    using count_in_compl [of filings key obs "\<lambda>ob. slot_eligible filings ob \<and> ob_status ob = Ob_unsupported"
        "\<lambda>ob. ob_reason ob = Some Decision_scope"] by (simp add: conj_assoc)
  have vals: "count_in filings key obs (\<lambda>ob. slot_eligible filings ob \<and> ob_status ob = Ob_value) \<le>
      count_in filings key obs (slot_applicable filings registry)"
    by (rule count_in_mono) (use fine(1) in blast)
  have app: "count_in filings key obs (slot_applicable filings registry) \<le> count_in filings key obs (slot_eligible filings)"
    by (rule count_in_mono) (rule applicable_eligible)
  show ?thesis
    unfolding consistent_cell_def
    using count_in_statuses [of filings key obs "slot_eligible filings"] fms rsn vals app
      count_in_labels [of obs "oracle" filings key, OF fine(2)]
    by (simp add: tally_def)
qed

section \<open>Identity counts\<close>

definition finding_count :: "(string \<times> string) list list \<Rightarrow> string \<Rightarrow> string \<Rightarrow> nat" where
  "finding_count findings status accession =
     length (filter (\<lambda>f. map_of f ''accession'' = Some accession \<and> map_of f ''status'' = Some status) findings)"

definition finding_fine :: "(string \<times> string) list \<Rightarrow> bool" where
  "finding_fine f \<longleftrightarrow> truthy (map_of f ''accession'') \<and>
     map_of f ''status'' \<in> {Some ''pass'', Some ''fail'', Some ''not_applicable''}"

definition counts_at :: "(string \<rightharpoonup> nat \<times> nat \<times> nat) \<Rightarrow> string \<Rightarrow> nat \<times> nat \<times> nat" where
  "counts_at counts a = (case counts a of None \<Rightarrow> (0, 0, 0) | Some x \<Rightarrow> x)"

lemma finding_count_snoc:
  "finding_count (fs @ [f]) st a = finding_count fs st a +
     of_bool (map_of f ''accession'' = Some a \<and> map_of f ''status'' = Some st)"
  by (simp add: finding_count_def)

lemma identity_step_fine: "(\<exists>c'. identity_step f c = Inr c') \<longleftrightarrow> finding_fine f"
  by (auto simp: identity_step_def finding_fine_def truthy_def Let_def case_prod_unfold split: option.splits list.splits)

lemma identity_step_counts:
  assumes "identity_step f c = Inr c'"
  shows "counts_at c' a = (case counts_at c a of (p, x, n) \<Rightarrow>
     (p + of_bool (map_of f ''accession'' = Some a \<and> map_of f ''status'' = Some ''pass''),
      x + of_bool (map_of f ''accession'' = Some a \<and> map_of f ''status'' = Some ''fail''),
      n + of_bool (map_of f ''accession'' = Some a \<and> map_of f ''status'' = Some ''not_applicable'')))"
proof -
  obtain b where b: "map_of f ''accession'' = Some b"
    using assms by (auto simp: identity_step_def split: option.splits)
  obtain st where st: "map_of f ''status'' = Some st"
    using assms by (auto simp: identity_step_def Let_def case_prod_unfold split: option.splits list.splits)
  show ?thesis
    using assms b st
    by (auto simp: identity_step_def counts_at_def Let_def case_prod_unfold split: option.splits list.splits if_splits)
qed

lemma identity_counts_exact:
  assumes "identity_counts fs = Inr c"
  shows "counts_at c a = (finding_count fs ''pass'' a, finding_count fs ''fail'' a, finding_count fs ''not_applicable'' a)"
  using assms unfolding identity_counts_def
proof (induction fs arbitrary: c rule: rev_induct)
  case Nil
  then show ?case by (auto simp: counts_at_def finding_count_def)
next
  case (snoc f fs)
  then obtain c0 where "fold_res identity_step fs Map.empty = Inr c0" "identity_step f c0 = Inr c"
    by (auto simp: fold_res_append result_simps)
  then show ?case using snoc.IH by (simp add: identity_step_counts finding_count_snoc)
qed

lemma fold_res_ok:
  assumes "\<And>x s. x \<in> set xs \<Longrightarrow> (\<exists>s'. f x s = Inr s') \<longleftrightarrow> P x"
  shows "is_ok (fold_res f xs s) \<longleftrightarrow> list_all P xs"
  using assms
proof (induction xs arbitrary: s)
  case (Cons x xs)
  have here: "(\<exists>s'. f x s = Inr s') \<longleftrightarrow> P x" by (rule Cons.prems) simp
  have rest: "is_ok (fold_res f xs s') \<longleftrightarrow> list_all P xs" for s'
    by (rule Cons.IH) (rule Cons.prems, simp)
  show ?case
  proof (cases "f x s")
    case (Inl e)
    then show ?thesis using here by simp
  next
    case (Inr s')
    then show ?thesis using here rest by simp
  qed
qed simp

lemma identity_counts_ok: "is_ok (identity_counts fs) \<longleftrightarrow> list_all finding_fine fs"
  unfolding identity_counts_def by (rule fold_res_ok) (rule identity_step_fine)

lemma fold_add_identity:
  "fold (add_identity counts) accs c = c
     \<lparr>qc_identity_pass := qc_identity_pass c + (\<Sum>a\<leftarrow>accs. fst (counts_at counts a)),
      qc_identity_fail := qc_identity_fail c + (\<Sum>a\<leftarrow>accs. fst (snd (counts_at counts a))),
      qc_identity_na := qc_identity_na c + (\<Sum>a\<leftarrow>accs. snd (snd (counts_at counts a)))\<rparr>"
proof (induction accs arbitrary: c)
  case (Cons a accs)
  have "add_identity counts a c = c\<lparr>qc_identity_pass := qc_identity_pass c + fst (counts_at counts a),
      qc_identity_fail := qc_identity_fail c + fst (snd (counts_at counts a)),
      qc_identity_na := qc_identity_na c + snd (snd (counts_at counts a))\<rparr>"
    unfolding add_identity_def counts_at_def [symmetric] by (simp add: case_prod_unfold Let_def)
  then show ?case by (simp add: Cons.IH)
qed simp

section \<open>The document\<close>

definition slot_accessions :: "(string \<rightharpoonup> filing_frame) \<Rightarrow> qcell_key \<Rightarrow> observation list \<Rightarrow> string set" where
  "slot_accessions filings key obs = ob_accession ` {ob \<in> set obs. slot_key filings ob = key}"

text \<open>The cell the report owes a key: counts of its slots, and identity findings once per accession.\<close>

definition report_cell ::
  "(string \<rightharpoonup> filing_frame) \<Rightarrow> decision_registry \<Rightarrow> (string \<times> string \<rightharpoonup> string) \<Rightarrow> (string \<times> string) list list \<Rightarrow>
     observation list \<Rightarrow> qcell_key \<Rightarrow> quality_cell" where
  "report_cell filings registry oracle findings obs key =
     (let c = tally filings registry oracle key obs; accs = slot_accessions filings key obs
      in c\<lparr>qc_identity_pass := (\<Sum>a\<in>accs. finding_count findings ''pass'' a),
           qc_identity_fail := (\<Sum>a\<in>accs. finding_count findings ''fail'' a),
           qc_identity_na := (\<Sum>a\<in>accs. finding_count findings ''not_applicable'' a),
           qc_n_no_applicable_decision := qc_n_slot_eligible c - qc_n_decision_applicable c,
           qc_publication_rate := rate (qc_n_value c) (qc_n_slot_eligible c),
           qc_selector_yield := rate (qc_n_value c) (qc_n_decision_applicable c)\<rparr>)"

lemma finish_table_cell:
  assumes T: "table_of filings registry oracle obs table" and fine: "list_all (slot_fine filings registry oracle) obs"
    and id: "identity_counts findings = Inr counts"
  shows "finish_cell (with_identity counts (cell_at table key)) = Inr (report_cell filings registry oracle findings obs key)"
proof -
  note cell = table_of_cell [OF T, of key]
  let ?t = "tally filings registry oracle key obs"
  have zero: "qc_identity_pass ?t = 0" "qc_identity_fail ?t = 0" "qc_identity_na ?t = 0"
    by (cases key, simp add: tally_def new_cell_def)+
  have sums: "(\<Sum>a\<leftarrow>snd (cell_at table key). g a) = (\<Sum>a\<in>slot_accessions filings key obs. g a)" for g :: "string \<Rightarrow> nat"
    using cell(2,3) by (simp add: sum_list_distinct_conv_sum_set slot_accessions_def)
  have w: "with_identity counts (cell_at table key) = ?t
    \<lparr>qc_identity_pass := (\<Sum>a\<in>slot_accessions filings key obs. finding_count findings ''pass'' a),
     qc_identity_fail := (\<Sum>a\<in>slot_accessions filings key obs. finding_count findings ''fail'' a),
     qc_identity_na := (\<Sum>a\<in>slot_accessions filings key obs. finding_count findings ''not_applicable'' a)\<rparr>"
    unfolding with_identity_def fold_add_identity cell(1) zero sums identity_counts_exact [OF id] by simp
  have "consistent_cell (with_identity counts (cell_at table key))"
    using tally_consistent [OF fine, of key] unfolding w by (simp add: consistent_cell_def)
  then show ?thesis unfolding finish_consistent w by (simp add: finish_consistent w report_cell_def Let_def)
qed

lemma sorted_table:
  assumes "distinct (map fst table)"
  shows "sort_key fst table = map (\<lambda>k. (k, cell_at table k)) (sorted_list_of_set (fst ` set table))"
proof -
  have "map fst (sort_key fst table) = sorted_list_of_set (fst ` set table)"
    using assms by (intro sorted_distinct_set_unique) (simp_all add: distinct_map)
  moreover have "x = (fst x, cell_at table (fst x))" if "x \<in> set table" for x
    using assms that by (cases x) (simp add: cell_at_def)
  then have "map (\<lambda>x. (fst x, cell_at table (fst x))) (sort_key fst table) = sort_key fst table"
    by (intro map_idI) simp
  then have "sort_key fst table = map (\<lambda>k. (k, cell_at table k)) (map fst (sort_key fst table))"
    by (simp add: comp_def)
  ultimately show ?thesis by simp
qed

lemma quality_rows:
  assumes T: "table_of filings registry oracle obs table" and fine: "list_all (slot_fine filings registry oracle) obs"
    and id: "identity_counts findings = Inr counts"
  shows "map_res (\<lambda>(key, x). finish_cell (with_identity counts x)) (sort_key fst table) =
    Inr (map (report_cell filings registry oracle findings obs) (sorted_list_of_set (slot_key filings ` set obs)))"
proof -
  have k: "distinct (map fst table)" "fst ` set table = slot_key filings ` set obs" using T by (simp_all add: table_of_def)
  have "map_res (\<lambda>(key, x). finish_cell (with_identity counts x)) (map (\<lambda>k. (k, cell_at table k)) ks) =
      Inr (map (report_cell filings registry oracle findings obs) ks)" for ks
    by (induction ks) (simp_all add: finish_table_cell [OF T fine id])
  then show ?thesis unfolding sorted_table [OF k(1)] k(2) by simp
qed

section \<open>Properties\<close>

text \<open>
  Property C19: the report is exact.  Its cells are those of the slots' keys in ascending order, each key
  once; every counter is the number of the key's slots it names, the identity columns are the sums of
  the build's findings over the distinct accessions of the cell, and the rates follow from the counters.
\<close>

theorem quality_counts_exact:
  assumes "build_quality_document obs filings registry oracle census findings found sources taxonomy = Inr d"
  shows "qd_cells d = map (report_cell filings registry oracle findings obs)
      (sorted_list_of_set (slot_key filings ` set obs))"
proof -
  obtain table where table: "fold_res (quality_step filings registry oracle) obs [] = Inr table"
    using assms by (auto simp: build_quality_document_def res_bind_Inr_iff)
  obtain counts where counts: "identity_counts findings = Inr counts"
    using assms table by (auto simp: build_quality_document_def res_bind_Inr_iff)
  show ?thesis
    using assms unfolding build_quality_document_def table counts res_bind.simps
      quality_rows [OF quality_fold_table [OF table] counts]
    by (auto simp: res_bind_Inr_iff)
qed

lemma quality_built:
  "is_ok (build_quality_document obs filings registry oracle census findings found sources taxonomy) \<longleftrightarrow>
     list_all (slot_fine filings registry oracle) obs \<and> list_all finding_fine findings \<and>
     list_all (\<lambda>f. of_status f \<in> {''differ'', ''ambiguous''}) found \<and>
     is_ok (qname_census census) \<and> is_ok (name_reuse_aggregate census)"
proof (cases "list_all (slot_fine filings registry oracle) obs \<and> list_all finding_fine findings")
  case True
  then obtain table counts where table: "fold_res (quality_step filings registry oracle) obs [] = Inr table"
    and counts: "identity_counts findings = Inr counts"
    using quality_fold_ok identity_counts_ok is_ok_iff by metis
  have "is_ok (normalize_oracle_findings found) \<longleftrightarrow> list_all (\<lambda>f. of_status f \<in> {''differ'', ''ambiguous''}) found"
    by (auto simp: normalize_oracle_findings_def list_all_iff)
  then show ?thesis
    using True unfolding build_quality_document_def table counts res_bind.simps
      quality_rows [OF quality_fold_table [OF table] counts]
    by (auto simp: is_ok_iff res_bind_Inr_iff)
next
  case False
  then have "\<not> is_ok (build_quality_document obs filings registry oracle census findings found sources taxonomy)"
    using quality_fold_table(2) [of filings registry "oracle" obs] identity_counts_ok [of findings]
    by (auto simp: build_quality_document_def is_ok_iff res_bind_Inr_iff)
  then show ?thesis using False by blast
qed

text \<open>
  Property C20: the report fails only for bad inputs.  It is built exactly when every slot can be judged and
  carries a known label, every published value has an applicable US-GAAP decision, every identity and
  oracle finding is well formed and the census names can be read; the three errors about cells that do
  not partition, break their bounds or publish too much are unreachable.
\<close>

theorem quality_report_built_iff:
  "is_ok (build_quality_document obs filings registry oracle census findings found sources taxonomy) \<longleftrightarrow>
     list_all (slot_fine filings registry oracle) obs \<and> list_all finding_fine findings \<and>
     list_all (\<lambda>f. of_status f \<in> {''differ'', ''ambiguous''}) found \<and>
     is_ok (qname_census census) \<and> is_ok (name_reuse_aggregate census)"
  by (rule quality_built)

text \<open>
  Property C38: a value published through a decision of another family stops the report.  When an
  observation is a value and the registry has no active accepted exact US-GAAP decision for its metric,
  the quality report cannot be built.  Selection publishes such values: the witness has one from a decision
  of the issuer's own taxonomy.
\<close>

theorem quality_rejects_other_families:
  assumes "ob \<in> set obs" and "ob_status ob = Ob_value"
    and "\<forall>r\<in>set (exact_decisions registry (ob_metric ob)). ds_family (dr_source r) \<noteq> Fam_us_gaap"
  shows "\<not> is_ok (build_quality_document obs filings registry oracle census findings found sources taxonomy)"
proof -
  have "gaap_exact_decisions registry (ob_metric ob) cik = Inr []" for cik
    using assms(3) filter_res_total [of "exact_decisions registry (ob_metric ob)" _ "\<lambda>_. False"]
    by (simp add: gaap_exact_decisions_def)
  then have "\<not> slot_applicable filings registry ob"
    by (auto simp: slot_applicable_def slot_decision_applicable_def split: if_splits)
  then have "\<not> slot_fine filings registry oracle ob" using assms(2) by (simp add: slot_fine_def)
  then have "\<not> list_all (slot_fine filings registry oracle) obs" using assms(1) by (auto simp: list_all_iff)
  then show ?thesis
    using quality_fold_table(2) [of filings registry "oracle" obs]
    by (auto simp: build_quality_document_def is_ok_iff res_bind_Inr_iff)
qed

section \<open>Example: two filings and an issuer decision\<close>

definition issuer_only_registry :: decision_registry where
  "issuer_only_registry = \<lparr>rg_decisions =
      [\<lparr>ld_record = example_issuer_decision, ld_path = [''b.yml''], ld_stale_inactive = False\<rparr>],
     rg_metrics_by_key = [''assets'' \<mapsto> example_assets]\<rparr>"

definition issuer_fact :: fact_row where
  "issuer_fact = oracle_example_fact\<lparr>fr_concept_namespace := ''http://issuer.com/2024'',
     fr_concept_local_name := ''TotalAssets'', fr_source_qname := ''{http://issuer.com/2024}TotalAssets'',
     fr_decimals := Some ''INF''\<rparr>"

definition issuer_observation :: "observation res" where
  "issuer_observation =
     res_bind (resolve_supports [issuer_fact] issuer_only_registry ''f'' ''42'') (\<lambda>sups.
       select_metric ''assets'' ''10-K'' ''42'' ''f'' (Some \<lparr>rp_start = ''2023-01-01'', rp_end = ''2023-12-31'',
         rp_fiscal_year_focus = None, rp_fiscal_period_focus = None\<rparr>) [issuer_fact] sups issuer_only_registry None Instant)"

lemma issuer_observation_value: "res_bind issuer_observation (\<lambda>ob. Inr (ob_status ob, ob_metric ob)) = Inr (Ob_value, ''assets'')"
  by code_simp

theorem quality_rejects_other_families_witness:
  "\<exists>ob. issuer_observation = Inr ob \<and> ob_status ob = Ob_value \<and>
     \<not> is_ok (build_quality_document [ob] Map.empty issuer_only_registry Map.empty [] [] [] [] [])"
proof -
  obtain ob where ob: "issuer_observation = Inr ob" "ob_status ob = Ob_value" "ob_metric ob = ''assets''"
    using issuer_observation_value by (auto simp: res_bind_Inr_iff)
  have "\<forall>r\<in>set (exact_decisions issuer_only_registry ''assets''). ds_family (dr_source r) \<noteq> Fam_us_gaap"
    by code_simp
  then have "\<not> is_ok (build_quality_document [ob] Map.empty issuer_only_registry Map.empty [] [] [] [] [])"
    by (intro quality_rejects_other_families [of ob]) (simp_all add: ob)
  then show ?thesis using ob by blast
qed

definition quality_example_frame :: filing_frame where
  "quality_example_frame = \<lparr>ff_accession = ''f'', ff_cik = ''42'', ff_form = ''10-K'', ff_fiscal_year = ''2023'',
     ff_industry_bucket = ''x'', ff_filing_taxonomy_release = ''2023'', ff_declared_concepts = [],
     ff_taxonomy_concepts = [(''http://fasb.org/us-gaap/2023'', ''A'')]\<rparr>"

definition quality_example_registry :: decision_registry where
  "quality_example_registry = \<lparr>rg_decisions = [\<lparr>ld_record = \<lparr>dr_id = ''d'', dr_metric = ''m'',
     dr_source = \<lparr>ds_family = Fam_us_gaap, ds_local_name = ''A'', ds_issuer_cik = None, ds_exclude_qnames = []\<rparr>,
     dr_relation = Rel_exact, dr_scope = \<lparr>sc_exclude_ciks = [], sc_exclude_sic_divisions = []\<rparr>,
     dr_status = Dec_accepted, dr_method = Reviewed_method, dr_rationale = ''r'', dr_evidence = [],
     dr_reviewed = \<lparr>rv_by = ''a'', rv_on = Date 2024 1 31\<rparr>, dr_contract_hash = ''h''\<rparr>,
     ld_path = [], ld_stale_inactive = False\<rparr>], rg_metrics_by_key = Map.empty\<rparr>"

definition quality_example_observations :: "observation list" where
  "quality_example_observations =
     (let b = base_observation ''m'' ''42'' ''f'' None None Instant in [b\<lparr>ob_status := Ob_value\<rparr>, b])"

lemma quality_example_document:
  "is_ok (build_quality_document quality_example_observations [''f'' \<mapsto> quality_example_frame] quality_example_registry Map.empty []
     [[(''accession'', ''f''), (''status'', ''fail'')]] [] [] [])"
  by (subst quality_built) code_simp

lemma quality_example_cell:
  "report_cell [''f'' \<mapsto> quality_example_frame] quality_example_registry Map.empty
      [[(''accession'', ''f''), (''status'', ''fail'')]] quality_example_observations (''m'', ''2023'', ''2023'', ''x'') = c \<Longrightarrow>
    qc_n_slots c = 2 \<and> qc_n_value c = 1 \<and> qc_n_missing c = 1 \<and> qc_identity_fail c = 1 \<and>
    qc_publication_rate c = Some ''0.5''"
  by (code_simp, auto)

theorem quality_counts_exact_witness:
  "\<exists>d. build_quality_document quality_example_observations [''f'' \<mapsto> quality_example_frame] quality_example_registry Map.empty []
     [[(''accession'', ''f''), (''status'', ''fail'')]] [] [] [] = Inr d \<and>
     map (\<lambda>c. (qc_n_slots c, qc_n_value c, qc_n_missing c, qc_identity_fail c, qc_publication_rate c)) (qd_cells d) =
       [(2, 1, 1, 1, Some ''0.5'')]"
proof -
  obtain d where d: "build_quality_document quality_example_observations [''f'' \<mapsto> quality_example_frame] quality_example_registry
      Map.empty [] [[(''accession'', ''f''), (''status'', ''fail'')]] [] [] [] = Inr d"
    using quality_example_document by (auto simp: is_ok_iff)
  have keys: "sorted_list_of_set (slot_key [''f'' \<mapsto> quality_example_frame] ` set quality_example_observations) =
      [(''m'', ''2023'', ''2023'', ''x'')]"
    by code_simp
  have row: "qd_cells d = [report_cell [''f'' \<mapsto> quality_example_frame] quality_example_registry Map.empty
      [[(''accession'', ''f''), (''status'', ''fail'')]] quality_example_observations (''m'', ''2023'', ''2023'', ''x'')]"
    unfolding quality_counts_exact [OF d] keys by (simp only: list.map)
  show ?thesis
    by (rule exI [of _ d], rule conjI [OF d]) (simp only: row list.map quality_example_cell [OF refl])
qed

end
