(* ===== verification/Quality_Report.thy ===== *)
theory Quality_Report
  imports Quality_Props
begin

text \<open>
  The rest of \<^verbatim>\<open>src/edgar/financials/quality.py\<close>: the oracle labels of a build, the frames read from the
  source tables, the report of a build and its Markdown rendering; and the sample index of
  \<^verbatim>\<open>financials/sample_index.py\<close>.

  The rows of the sample CSV are an argument (\<^verbatim>\<open>csv.DictReader\<close>: field names and one row per line), as are
  the captured taxonomies and the cached companyfacts documents.  Writing the two files is left out.
\<close>

section \<open>The sample index\<close>

record sample_row =
  sm_accession :: string
  sm_cik :: string
  sm_form :: string
  sm_fiscal_year :: string
  sm_sic :: string
  sm_industry_bucket :: string
  sm_taxonomy_era_note :: string

definition SAMPLE_COLUMNS :: "string list" where
  "SAMPLE_COLUMNS = [''accession'', ''cik'', ''form'', ''fiscal_year'', ''sic'', ''industry_bucket'', ''taxonomy_era_note'']"

definition csv_cell :: "(string \<times> string option) list \<Rightarrow> string \<Rightarrow> string" where
  "csv_cell raw name = py_strip (case map_of raw name of Some (Some s) \<Rightarrow> s | _ \<Rightarrow> [])"

definition mk_sample_row :: "(string \<times> string option) list \<Rightarrow> sample_row" where
  "mk_sample_row raw = \<lparr>sm_accession = csv_cell raw ''accession'', sm_cik = csv_cell raw ''cik'',
     sm_form = csv_cell raw ''form'', sm_fiscal_year = csv_cell raw ''fiscal_year'', sm_sic = csv_cell raw ''sic'',
     sm_industry_bucket = (if csv_cell raw ''industry_bucket'' = [] then ''unknown'' else csv_cell raw ''industry_bucket''),
     sm_taxonomy_era_note = csv_cell raw ''taxonomy_era_note''\<rparr>"

definition load_sample_csv ::
  "string list option \<Rightarrow> (string \<times> string option) list list \<Rightarrow> (string \<times> sample_row) list res" where
  "load_sample_csv fieldnames raws = (case fieldnames of
     None \<Rightarrow> Inl (ValueError ''sample csv has no header'')
   | Some names \<Rightarrow>
       if \<exists>c\<in>set SAMPLE_COLUMNS. c \<notin> set names then Inl (ValueError ''sample csv missing columns'')
       else fold_res (\<lambda>raw rows.
         let a = csv_cell raw ''accession''
         in if a = [] then Inl (ValueError ''sample csv row missing accession'')
            else if a \<in> fst ` set rows then Inl (ValueError ''duplicate sample accession'')
            else Inr (rows @ [(a, mk_sample_row raw)])) raws [])"

section \<open>Oracle labels of every slot\<close>

definition by_slot :: "(observation \<times> oracle_comparison) list \<Rightarrow> (string \<times> string \<rightharpoonup> string)" where
  "by_slot pairs = map_of (rev (map (\<lambda>(ob, c). ((ob_accession ob, ob_metric ob), label_text (oc_status c))) pairs))"

definition oracle_slot_reports ::
  "(string \<Rightarrow> cf_json res) \<Rightarrow> observation list \<Rightarrow> (string \<rightharpoonup> (int \<rightharpoonup> fact_row)) \<Rightarrow>
     (string \<rightharpoonup> companyfacts_payload option) \<Rightarrow> ((string \<times> string \<rightharpoonup> string) \<times> oracle_finding list) res" where
  "oracle_slot_reports loads observations facts_by_accession payloads_by_cik =
     res_bind (map_res (\<lambda>ob. res_bind (oracle_comparison_for_observation loads ob
         (case facts_by_accession (ob_accession ob) of None \<Rightarrow> Map.empty | Some m \<Rightarrow> m)
         (case payloads_by_cik (ob_cik ob) of None \<Rightarrow> None | Some p \<Rightarrow> p)) (\<lambda>c. Inr (ob, c))) observations) (\<lambda>pairs.
       Inr (by_slot pairs,
            sort_key finding_order (map (\<lambda>(ob, c). comparison_finding c ob)
              (filter (\<lambda>(ob, c). oc_status c \<in> {Lab_differ, Lab_ambiguous}) pairs))))"

section \<open>The report of a build\<close>

definition fiscal_years_by_accession :: "observation list \<Rightarrow> string \<Rightarrow> string option list" where
  "fiscal_years_by_accession observations accession =
     map ob_fy (filter (\<lambda>ob. ob_accession ob = accession) observations)"

definition filing_facts_for_oracle :: "loaded_filing option \<Rightarrow> (int \<rightharpoonup> fact_row)" where
  "filing_facts_for_oracle loaded = (case loaded of None \<Rightarrow> Map.empty | Some l \<Rightarrow> fact_by_id (lf_facts l))"

record quality_inputs =
  qi_facts :: "(string \<times> (int \<rightharpoonup> fact_row)) list"
  qi_sources :: "(string \<times> string \<times> string list) list"
  qi_frames :: "(string \<times> filing_frame) list"
  qi_census :: "(string \<times> string \<times> string) list"

text \<open>The loop body over the accessions; a taxonomy error becomes a report error.\<close>

definition gather_filing ::
  "source_tables \<Rightarrow> (string \<rightharpoonup> sample_row) \<Rightarrow> (string \<Rightarrow> string \<Rightarrow> filing_taxonomy_availability res) \<Rightarrow>
     observation list \<Rightarrow> string \<Rightarrow> quality_inputs \<Rightarrow> quality_inputs res" where
  "gather_filing t sample availability observations accession acc =
     res_bind (load_quality_filing_source t accession) (\<lambda>source.
     res_bind (load_filing t accession) (\<lambda>loaded.
       let acc = (case loaded of None \<Rightarrow> acc
                  | Some l \<Rightarrow> acc\<lparr>qi_facts := qi_facts acc @ [(accession, fact_by_id (lf_facts l))]\<rparr>)
       in case source of
            None \<Rightarrow> Inr acc
          | Some s \<Rightarrow>
              res_bind (case availability (qs_cik s) (qs_accession s) of
                  Inl (TaxonomyAvailabilityError m) \<Rightarrow> Inl (QualityReportError m) | r \<Rightarrow> r) (\<lambda>ta.
              res_bind (filing_frame_for_source (qs_accession s) (qs_cik s) (qs_form s)
                  (fiscal_years_by_accession observations accession) (qs_report_period_year s)
                  (case sample accession of None \<Rightarrow> ''unknown''
                   | Some row \<Rightarrow> if sm_industry_bucket row = [] then ''unknown'' else sm_industry_bucket row)
                  (qs_declared_concepts s) (Some ta) None) (\<lambda>frame.
                Inr (acc\<lparr>qi_sources := qi_sources acc @
                         [(accession, ta_filing_taxonomy_release ta, ta_schema_sha256s ta)],
                       qi_frames := qi_frames acc @ [(accession, frame)],
                       qi_census := qi_census acc @ map (Pair accession) (qs_fact_concepts s)\<rparr>)))))"

text \<open>One pass over the observations fetches the cached document of every CIK once.\<close>

definition payload_step ::
  "(string \<Rightarrow> (string \<times> string) option res) \<Rightarrow> observation \<Rightarrow>
     (string \<times> companyfacts_payload option) list \<times> (string \<times> string) list \<Rightarrow>
     ((string \<times> companyfacts_payload option) list \<times> (string \<times> string) list) res" where
  "payload_step cached ob st = (case st of (payloads, digests) \<Rightarrow>
     if ob_cik ob \<in> fst ` set payloads then Inr (payloads, digests)
     else res_bind (cached (ob_cik ob)) (\<lambda>hit. case hit of
       None \<Rightarrow> Inr (payloads @ [(ob_cik ob, None)], digests)
     | Some (digest, text) \<Rightarrow>
         Inr (payloads @ [(ob_cik ob, Some (Payload_text text))], digests @ [(ob_cik ob, digest)])))"

definition quality_report ::
  "(string \<Rightarrow> cf_json res) \<Rightarrow> source_tables \<Rightarrow> (string \<rightharpoonup> sample_row) \<Rightarrow>
     (string \<Rightarrow> string \<Rightarrow> filing_taxonomy_availability res) \<Rightarrow> (string \<Rightarrow> (string \<times> string) option res) \<Rightarrow>
     observation list \<Rightarrow> decision_registry \<Rightarrow> (string \<times> string) list list \<Rightarrow> quality_document res" where
  "quality_report loads t sample availability cached observations registry identity_findings =
     res_bind (fold_res (gather_filing t sample availability observations)
         (rev (remdups (rev (map ob_accession observations))))
         \<lparr>qi_facts = [], qi_sources = [], qi_frames = [], qi_census = []\<rparr>) (\<lambda>inp.
     res_bind (fold_res (payload_step cached) observations ([], [])) (\<lambda>(payloads, digests).
     res_bind (oracle_slot_reports loads observations (map_of (qi_facts inp)) (map_of payloads)) (\<lambda>(labels, found).
       build_quality_document observations (map_of (qi_frames inp)) registry labels (qi_census inp)
         identity_findings found digests (qi_sources inp))))"

section \<open>Markdown\<close>

definition cell_text :: "string option \<Rightarrow> string" where
  "cell_text r = (case r of None \<Rightarrow> ''None'' | Some s \<Rightarrow> s)"

definition bar_row :: "string list \<Rightarrow> string" where
  "bar_row cols = ''| '' @ concat (map (\<lambda>c. c @ '' |'') [hd cols]) @ concat (map (\<lambda>c. '' '' @ c @ '' |'') (tl cols))"

definition markdown_cell :: "quality_cell \<Rightarrow> string" where
  "markdown_cell c = bar_row [qc_metric c, qc_fiscal_year c, qc_filing_taxonomy_release c, qc_industry_bucket c,
     show_nat (qc_n_slots c), show_nat (qc_n_slot_eligible c), show_nat (qc_n_ineligible_wrong_form c),
     show_nat (qc_n_value c), show_nat (qc_n_missing c), show_nat (qc_n_unsupported c), show_nat (qc_n_conflict c),
     show_nat (qc_n_decision_applicable c), cell_text (qc_publication_rate c), cell_text (qc_selector_yield c),
     show_nat (qc_identity_pass c), show_nat (qc_identity_fail c), show_nat (qc_identity_na c),
     show_nat (qc_oracle_agree c), show_nat (qc_oracle_differ c), show_nat (qc_oracle_absent c),
     show_nat (qc_oracle_ambiguous c), show_nat (qc_oracle_na c)]"

definition markdown_finding :: "oracle_finding \<Rightarrow> string" where
  "markdown_finding f = ''- '' @ of_accession f @ '' '' @ of_metric f @ '' '' @ of_status f @ '' '' @ of_family f @ '':'' @
     of_local_name f @ '' observation='' @ of_observation f @ '' oracle=['' @
     join '', '' (of_oracle_values f) @ '']''"

definition MARKDOWN_HEAD :: "string list" where
  "MARKDOWN_HEAD = [''# Quality report'', [],
     ''Taxonomy release is from captured US-GAAP XSD namespaces in the DTS closure.'',
     ''Status counts partition eligible slots. Wrong-form slots are n_ineligible_wrong_form.'',
     ''Identity columns copy build findings once per accession in the cell.'', [],
     bar_row [''metric'', ''fiscal_year'', ''taxonomy_release'', ''industry'', ''n_slots'', ''n_slot_eligible'',
       ''n_ineligible_wrong_form'', ''n_value'', ''n_missing'', ''n_unsupported'', ''n_conflict'', ''n_decision_applicable'',
       ''publication_rate'', ''selector_yield'', ''identity_pass'', ''identity_fail'', ''identity_na'', ''oracle_agree'',
       ''oracle_differ'', ''oracle_absent'', ''oracle_ambiguous'', ''oracle_na''],
     ''|---|---|---|---|---:|---:|---:|---:|---:|---:|---:|---:|---:|---:|---:|---:|---:|---:|---:|---:|---:|---:|'']"

definition render_quality_markdown :: "quality_document \<Rightarrow> string" where
  "render_quality_markdown d = join [CHR 0x0A]
     (MARKDOWN_HEAD @ map markdown_cell (qd_cells d) @ [[], ''## Oracle findings'', []] @
      (if qd_oracle_findings d = [] then [''None.''] else map markdown_finding (qd_oracle_findings d)) @ [[]])"

section \<open>A build and its report\<close>

lemma compare_operands_accession: "compare_operands name acc w l r = Inr f \<Longrightarrow> if_accession f = acc"
proof -
  assume "compare_operands name acc w l r = Inr f"
  then obtain i j k where "f = (case (i, j, k) of (Some t, Some l, Some r) \<Rightarrow>
      if intersects t (interval_add l r)
      then \<lparr>if_name = name, if_accession = acc, if_status = Pass, if_detail = None\<rparr>
      else \<lparr>if_name = name, if_accession = acc, if_status = Fail, if_detail = Some ''intervals disjoint''\<rparr>
    | _ \<Rightarrow> \<lparr>if_name = name, if_accession = acc, if_status = Fail, if_detail = Some ''inconsistent duplicate facts''\<rparr>)"
    unfolding compare_operands_def res_bind_Inr_iff by blast
  then show ?thesis by (cases i; cases j; cases k) simp_all
qed

lemma identity_checks_accession:
  assumes "run_identity_checks acc cik p facts = Inr fs" and "f \<in> set fs"
  shows "if_accession f = acc"
proof -
  obtain a b where ab: "nci_split acc cik p facts = Inr a" "balance_sheet acc cik p facts = Inr b" "f = a \<or> f = b"
    using assms by (auto simp: run_identity_checks_def res_bind_Inr_iff)
  have "if_accession a = acc"
    using ab(1) by (auto simp: nci_split_def res_bind_Inr_iff compare_operands_accession split: if_splits)
  moreover have "if_accession b = acc"
    using ab(2) by (auto simp: balance_sheet_def res_bind_Inr_iff compare_operands_accession split: if_splits option.splits)
  ultimately show ?thesis using ab(3) by auto
qed

lemma finding_dict_fine: "if_accession f \<noteq> [] \<Longrightarrow> finding_fine (finding_dict f)"
  by (cases "if_status f") (auto simp: finding_fine_def finding_dict_def truthy_def split: list.splits)

lemma build_accession_findings:
  assumes "build_accession t reg ms acc = Inr part" and "acc \<noteq> []"
  shows "list_all finding_fine (snd part)"
proof (cases "snd part = []")
  case False
  obtain meta where meta: "load_filing_metadata t acc = Some meta"
    using assms(1) by (auto simp: build_accession_def split: option.splits)
  then have annual: "fm_form meta \<in> set ANNUAL_FORMS"
    using assms(1) False by (auto simp: build_accession_def res_bind_Inr_iff split: if_splits)
  obtain l where "build_loaded reg ms acc l = Inr part"
    using assms(1) meta annual by (auto simp: build_accession_def res_bind_Inr_iff split: option.splits)
  then obtain p fs where fs: "run_identity_checks acc (lf_cik l) p (lf_facts l) = Inr fs" "snd part = map finding_dict fs"
    by (auto simp: build_loaded_def res_bind_Inr_iff)
  then show ?thesis
    using identity_checks_accession [OF fs(1)] finding_dict_fine assms(2) by (auto simp: list_all_iff)
qed simp

lemma run_build_findings_fine:
  assumes "run_build sha yml files raw gold t accs check manifest = Inr r" and "[] \<notin> set accs"
  shows "list_all finding_fine (br_findings r)"
proof -
  obtain co reg parts where 1: "load_m0_cohort raw = Inr co" "load_decisions sha yml files None True = Inr reg"
    "\<not> check \<or> gold \<noteq> None" "map_res (build_accession t reg (co_metrics co)) accs = Inr parts"
    using assms(1) by (auto simp: run_build_def res_bind_Inr_iff)
  note rest = assms(1) [unfolded run_build_def 1(1,2,4) res_bind.simps guard_res_def if_P [OF 1(3)] Let_def]
  have br: "br_findings r = concat (map snd parts)"
    using rest by (cases check) (auto simp: res_bind_Inr_iff split: if_splits)
  have "list_all finding_fine (snd part)" if part: "part \<in> set parts" for part
  proof -
    obtain acc where "acc \<in> set accs" "build_accession t reg (co_metrics co) acc = Inr part"
      using map_res_set [OF 1(4) part] by blast
    then show ?thesis using build_accession_findings assms(2) by metis
  qed
  then show ?thesis by (auto simp: br list_all_iff)
qed

lemma label_text_known: "label_text l \<in> {''agree'', ''differ'', ''absent'', ''ambiguous'', ''na''}"
  by (cases l) simp_all

lemma slot_label_known:
  assumes "oracle_slot_reports loads obs facts payloads = Inr (labels, found)"
  shows "slot_label labels ob \<in> {''agree'', ''differ'', ''absent'', ''ambiguous'', ''na''}"
proof -
  obtain pairs where "labels = by_slot pairs"
    using assms by (auto simp: oracle_slot_reports_def res_bind_Inr_iff)
  then have "labels k = Some l \<Longrightarrow> \<exists>c. l = label_text c" for k l
    by (auto simp: by_slot_def dest!: map_of_SomeD)
  then show ?thesis using label_text_known by (auto simp: slot_label_def split: option.splits)
qed

lemma slot_findings_known:
  assumes "oracle_slot_reports loads obs facts payloads = Inr (labels, found)"
  shows "list_all (\<lambda>f. of_status f \<in> {''differ'', ''ambiguous''}) found"
  using assms by (auto simp: oracle_slot_reports_def res_bind_Inr_iff list_all_iff comparison_finding_def)

text \<open>
  For the observations and findings of a build, with the labels and findings the oracle pass
  computes, the report depends on nothing but the decisions and the readable names.  It is built exactly
  when the applicability of every slot can be judged, every published value has an applicable US-GAAP
  decision and the census names can be read.
\<close>

theorem build_report_iff:
  assumes "run_build sha yml files raw gold t accs check manifest = Inr r" and "[] \<notin> set accs"
    and "oracle_slot_reports loads (br_observations r) facts payloads = Inr (labels, found)"
  shows "is_ok (build_quality_document (br_observations r) filings reg labels census (br_findings r) found sources taxonomy) \<longleftrightarrow>
    list_all (\<lambda>ob. is_ok (slot_decision_applicable (frame_of filings ob) (ob_metric ob) reg)) (br_observations r) \<and>
    list_all (slot_applicable filings reg) (filter (\<lambda>ob. ob_status ob = Ob_value) (br_observations r)) \<and>
    is_ok (qname_census census) \<and> is_ok (name_reuse_aggregate census)"
proof -
  have "list_all (slot_fine filings reg labels) (br_observations r) \<longleftrightarrow>
    list_all (\<lambda>ob. is_ok (slot_decision_applicable (frame_of filings ob) (ob_metric ob) reg)) (br_observations r) \<and>
    list_all (slot_applicable filings reg) (filter (\<lambda>ob. ob_status ob = Ob_value) (br_observations r))"
    using slot_label_known [OF assms(3)] by (auto simp: list_all_iff slot_fine_def)
  then show ?thesis
    unfolding quality_built using run_build_findings_fine [OF assms(1,2)] slot_findings_known [OF assms(3)] by blast
qed

lemma example_slot_reports: "\<exists>labels found. oracle_slot_reports (\<lambda>_. Inr CNull) (br_observations example_result)
    Map.empty Map.empty = Inr (labels, found)"
proof -
  have "\<exists>c. oracle_comparison_for_observation (\<lambda>_. Inr CNull) ob Map.empty None = Inr c" for ob
  proof -
    have "map_res (eligible_fact Map.empty x) ids = Inr (map (\<lambda>_. None) ids)" for x ids
      by (induction ids) (simp_all add: eligible_fact_def)
    then show ?thesis
      by (auto simp: oracle_comparison_for_observation_def split: observation_status.splits option.splits list.splits)
  qed
  then obtain g where g: "oracle_comparison_for_observation (\<lambda>_. Inr CNull) ob Map.empty None = Inr (g ob)" for ob
    by metis
  have "map_res (\<lambda>ob. res_bind (oracle_comparison_for_observation (\<lambda>_. Inr CNull) ob Map.empty None)
      (\<lambda>c. Inr (ob, c))) obs = Inr (map (\<lambda>ob. (ob, g ob)) obs)" for obs
    by (induction obs) (simp_all add: g)
  then show ?thesis by (auto simp: oracle_slot_reports_def)
qed

theorem build_report_iff_witness:
  "\<exists>labels found. oracle_slot_reports (\<lambda>_. Inr CNull) (br_observations example_result) Map.empty Map.empty = Inr (labels, found) \<and>
     \<not> is_ok (build_quality_document (br_observations example_result) Map.empty build_registry labels []
        (br_findings example_result) found [] [])"
proof -
  obtain labels found where lf: "oracle_slot_reports (\<lambda>_. Inr CNull) (br_observations example_result)
      Map.empty Map.empty = Inr (labels, found)"
    using example_slot_reports by blast
  have "slot_decision_applicable (frame_of Map.empty build_value) (ob_metric build_value) build_registry = Inr False"
    by (simp add: slot_decision_applicable_def frame_of_def default_frame_def ANNUAL_FORMS_def)
  then have "\<not> list_all (slot_applicable Map.empty build_registry) (filter (\<lambda>ob. ob_status ob = Ob_value) (br_observations example_result))"
    using build_value_mem by (auto simp: list_all_iff slot_applicable_def)
  then have "\<not> is_ok (build_quality_document (br_observations example_result) Map.empty build_registry labels []
        (br_findings example_result) found [] [])"
    using build_report_iff [OF example_run_build _ lf, of Map.empty build_registry "[]" "[]" "[]"] by simp
  then show ?thesis using lf by blast
qed

end
