(* ===== verification/Iso_Time.thy ===== *)
theory Iso_Time
  imports Interval Digits
begin

text \<open>
  The part of Python's \<^verbatim>\<open>datetime\<close> the filing bundles use: \<^verbatim>\<open>date\<close> and \<^verbatim>\<open>datetime\<close> values, their
  \<^verbatim>\<open>isoformat\<close>, reading the canonical text back, and \<^verbatim>\<open>astimezone(UTC)\<close>.

  A \<^verbatim>\<open>datetime\<close> is a date, the microsecond of the day and an optional offset from UTC in microseconds.
  The readers take the fields at the positions of the canonical text; the callers compare the text
  of the value with the input, as the code does, so nothing else is accepted.
\<close>

section \<open>Text of dates and datetimes\<close>

record datetime =
  dt_date :: date
  dt_us :: nat
  dt_offset :: "int option"

definition day_us :: nat where "day_us = 86400000000"

definition valid_datetime :: "datetime \<Rightarrow> bool" where
  "valid_datetime t = (valid_date (dt_date t) \<and> dt_us t < day_us \<and>
     (case dt_offset t of None \<Rightarrow> True | Some z \<Rightarrow> \<bar>z\<bar> < int day_us))"

definition iso_date :: "date \<Rightarrow> string" where
  "iso_date d = pad_digits 4 (d_year d) @ ''-'' @ pad_digits 2 (d_month d) @ ''-'' @ pad_digits 2 (d_day d)"

definition iso_minutes :: "nat \<Rightarrow> string" where
  "iso_minutes us =
     (let m = us div 1000000 div 60 in pad_digits 2 (m div 60) @ '':'' @ pad_digits 2 (m mod 60))"

definition iso_fraction :: "nat \<Rightarrow> string" where
  "iso_fraction us = (if us mod 1000000 = 0 then [] else CHR ''.'' # pad_digits 6 (us mod 1000000))"

definition iso_seconds :: "nat \<Rightarrow> string" where
  "iso_seconds us = CHR '':'' # pad_digits 2 (us div 1000000 mod 60) @ iso_fraction us"

definition iso_offset :: "int \<Rightarrow> string" where
  "iso_offset z =
     (let us = nat \<bar>z\<bar>
      in (if z < 0 then CHR ''-'' else CHR ''+'') # iso_minutes us @
         (if us mod 60000000 = 0 then [] else iso_seconds us))"

definition isoformat :: "datetime \<Rightarrow> string" where
  "isoformat t = iso_date (dt_date t) @ ''T'' @ iso_minutes (dt_us t) @ iso_seconds (dt_us t) @
     (case dt_offset t of None \<Rightarrow> [] | Some z \<Rightarrow> iso_offset z)"

section \<open>Reading the canonical text\<close>

definition read_iso_date :: "string \<Rightarrow> date" where
  "read_iso_date s = Date (read_digits (take 4 s)) (read_digits (take 2 (drop 5 s))) (read_digits (take 2 (drop 8 s)))"

definition read_minutes :: "string \<Rightarrow> nat" where
  "read_minutes s = (read_digits (take 2 s) * 60 + read_digits (take 2 (drop 3 s))) * 60000000"

text \<open>The seconds after their colon, with an optional fraction, and the text behind them.\<close>

definition read_seconds :: "string \<Rightarrow> nat \<times> string" where
  "read_seconds s =
     (let sec = read_digits (take 2 (drop 1 s)) * 1000000; r = drop 3 s
      in if startswith r ''.'' then (sec + read_digits (take 6 (drop 1 r)), drop 7 r) else (sec, r))"

definition read_offset :: "string \<Rightarrow> int" where
  "read_offset s =
     (let a = read_minutes (drop 1 s); r = drop 6 s; us = a + (if r = [] then 0 else fst (read_seconds r))
      in if startswith s ''-'' then - int us else int us)"

definition read_isoformat :: "string \<Rightarrow> datetime" where
  "read_isoformat s =
     (let (sec, r) = read_seconds (drop 16 s)
      in \<lparr>dt_date = read_iso_date (take 10 s), dt_us = read_minutes (drop 11 s) + sec,
          dt_offset = (if r = [] then None else Some (read_offset r))\<rparr>)"

lemma valid_date_fields: "valid_date d \<Longrightarrow> d_year d < 10 ^ 4 \<and> d_month d < 10 ^ 2 \<and> d_day d < 10 ^ 2"
  by (auto simp: valid_date_def days_in_month_def split: if_splits)

lemma read_iso_date [simp]: "valid_date d \<Longrightarrow> read_iso_date (iso_date d) = d"
  using valid_date_fields [of d] by (cases d) (simp add: read_iso_date_def iso_date_def read_pad_digits)

lemma length_iso_date [simp]: "length (iso_date d) = 10"
  by (simp add: iso_date_def)

lemma length_iso_minutes [simp]: "length (iso_minutes us) = 5"
  by (simp add: iso_minutes_def Let_def)

lemma minutes_seconds: "us div 1000000 div 60 * 60000000 + us div 1000000 mod 60 * 1000000 + us mod 1000000 = (us :: nat)"
proof -
  define s where "s = us div 1000000"
  have "60 * (s div 60) + s mod 60 = s" "1000000 * s + us mod 1000000 = us" by (simp_all add: s_def)
  then show ?thesis unfolding s_def [symmetric] by linarith
qed

lemma hours_minutes: "us < day_us \<Longrightarrow> us div 1000000 div 60 div 60 < 10 ^ 2" for us :: nat
  by (simp add: day_us_def less_mult_imp_div_less)

lemma read_iso_minutes [simp]:
  "us < day_us \<Longrightarrow> read_minutes (iso_minutes us @ r) = us div 1000000 div 60 * 60000000"
  using hours_minutes [of us]
  by (simp add: read_minutes_def iso_minutes_def Let_def read_pad_digits less_imp_le_nat)

lemma read_iso_seconds [simp]:
  assumes "\<not> startswith r ''.''"
  shows "read_seconds (iso_seconds us @ r) = (us div 1000000 mod 60 * 1000000 + us mod 1000000, r)"
proof -
  have "us div 1000000 mod 60 < 10 ^ 2" "us mod 1000000 < 10 ^ 6" by (simp_all add: order.strict_trans2)
  then show ?thesis using assms
    by (simp add: read_seconds_def iso_seconds_def iso_fraction_def Let_def read_pad_digits startswith_def)
qed

lemma read_iso_offset [simp]:
  assumes "\<bar>z\<bar> < int day_us"
  shows "read_offset (iso_offset z) = z"
proof -
  define us where "us = nat \<bar>z\<bar>"
  have us: "us < day_us" using assms by (simp add: us_def)
  define r where "r = (if us mod 60000000 = 0 then [] else iso_seconds us)"
  have whole: "us div 1000000 mod 60 * 1000000 + us mod 1000000 = us mod 60000000"
    using mod_mult2_eq [of us 1000000 60] by (simp add: mult.commute)
  have sec: "(if r = [] then 0 else fst (read_seconds r)) = us mod 60000000"
    using read_iso_seconds [of "[]" us] whole by (auto simp: r_def startswith_def iso_seconds_def)
  have "us div 1000000 div 60 * 60000000 + us mod 60000000 = us"
    using minutes_seconds [of us] whole by linarith
  then have "read_minutes (iso_minutes us @ r) + (if r = [] then 0 else fst (read_seconds r)) = us"
    using us sec by simp
  moreover have "iso_offset z = (if z < 0 then CHR ''-'' else CHR ''+'') # iso_minutes us @ r"
    by (simp add: iso_offset_def us_def r_def Let_def)
  ultimately show ?thesis by (auto simp: read_offset_def Let_def us_def startswith_def)
qed

lemma iso_offset_head: "\<not> startswith (iso_offset z) ''.''" "iso_offset z \<noteq> []"
  by (simp_all add: iso_offset_def startswith_def Let_def)

lemma read_isoformat [simp]:
  assumes "valid_datetime t"
  shows "read_isoformat (isoformat t) = t"
proof -
  have d: "valid_date (dt_date t)" "dt_us t < day_us" using assms by (simp_all add: valid_datetime_def)
  define r where "r = (case dt_offset t of None \<Rightarrow> [] | Some z \<Rightarrow> iso_offset z)"
  have r: "\<not> startswith r ''.''" "(if r = [] then None else Some (read_offset r)) = dt_offset t"
    using assms iso_offset_head by (auto simp: r_def valid_datetime_def startswith_def split: option.splits)
  have eq: "isoformat t = iso_date (dt_date t) @ ''T'' @ iso_minutes (dt_us t) @ iso_seconds (dt_us t) @ r"
    by (simp add: isoformat_def r_def)
  have "drop 16 (isoformat t) = iso_seconds (dt_us t) @ r" "take 10 (isoformat t) = iso_date (dt_date t)"
    "drop 11 (isoformat t) = iso_minutes (dt_us t) @ iso_seconds (dt_us t) @ r"
    by (simp_all add: eq)
  then show ?thesis
    using d r read_iso_seconds [OF r(1), of "dt_us t"] minutes_seconds [of "dt_us t"]
    by (simp add: read_isoformat_def algebra_simps)
qed

lemma isoformat_inject: "valid_datetime s \<Longrightarrow> valid_datetime t \<Longrightarrow> isoformat s = isoformat t \<longleftrightarrow> s = t"
  by (metis read_isoformat)

lemma iso_date_inject: "valid_date s \<Longrightarrow> valid_date t \<Longrightarrow> iso_date s = iso_date t \<longleftrightarrow> s = t"
  by (metis read_iso_date)

section \<open>The proleptic calendar\<close>

fun next_day :: "date \<Rightarrow> date option" where
  "next_day (Date y m d) =
     (if d < days_in_month y m then Some (Date y m (d + 1))
      else if m < 12 then Some (Date y (m + 1) 1)
      else if y < 9999 then Some (Date (y + 1) 1 1) else None)"

fun prev_day :: "date \<Rightarrow> date option" where
  "prev_day (Date y m d) =
     (if 1 < d then Some (Date y m (d - 1))
      else if 1 < m then Some (Date y (m - 1) (days_in_month y (m - 1)))
      else if 1 < y then Some (Date (y - 1) 12 31) else None)"

text \<open>\<^verbatim>\<open>date.toordinal\<close>: the day's number, with 1 January of year 1 the first.\<close>

definition days_before_year :: "nat \<Rightarrow> nat" where
  "days_before_year y = (y - 1) * 365 + (y - 1) div 4 - (y - 1) div 100 + (y - 1) div 400"

definition days_before_month :: "nat \<Rightarrow> nat \<Rightarrow> nat" where
  "days_before_month y m = (\<Sum>i\<leftarrow>[1..<m]. days_in_month y i)"

definition ordinal :: "date \<Rightarrow> nat" where
  "ordinal d = days_before_year (d_year d) + days_before_month (d_year d) (d_month d) + d_day d"

lemma div_Suc_step: "Suc n div k = n div k + (if Suc n mod k = 0 then 1 else 0)"
  by (simp add: div_Suc)

lemma days_before_year_Suc:
  assumes "1 \<le> y"
  shows "days_before_year (Suc y) = days_before_year y + (if is_leap y then 366 else 365)"
proof -
  obtain n where y: "y = Suc n" using assms by (cases y) auto
  have "n div 100 \<le> n div 4" by (simp add: div_le_mono2)
  then obtain k where k: "n div 4 = n div 100 + k" by (metis le_Suc_ex)
  have m: "Suc n mod 400 = 0 \<Longrightarrow> Suc n mod 100 = 0" "Suc n mod 100 = 0 \<Longrightarrow> Suc n mod 4 = 0" by presburger+
  show ?thesis
    using m unfolding days_before_year_def y is_leap_def
    by (simp add: div_Suc_step [of n 4] div_Suc_step [of n 100] div_Suc_step [of n 400] k)
qed

lemma days_before_month_Suc: "1 \<le> m \<Longrightarrow> days_before_month y (Suc m) = days_before_month y m + days_in_month y m"
  by (simp add: days_before_month_def)

lemma days_in_month_31: "days_in_month y 12 = 31" "days_in_month y m \<ge> 28" "days_in_month y m \<le> 31"
  by (simp_all add: days_in_month_def)

lemma days_before_month_year: "days_before_month y 13 = (if is_leap y then 366 else 365)"
  by (simp add: days_before_month_def days_in_month_def upt_rec)

lemma next_day_ordinal:
  assumes "valid_date d" and "next_day d = Some e"
  shows "valid_date e \<and> ordinal e = ordinal d + 1"
proof (cases d)
  case (Date y m k)
  then have v: "1 \<le> y" "y \<le> 9999" "1 \<le> m" "m \<le> 12" "1 \<le> k" "k \<le> days_in_month y m"
    using assms(1) by (simp_all add: valid_date_def)
  consider "k < days_in_month y m" "e = Date y m (k + 1)"
    | "k = days_in_month y m" "m < 12" "e = Date y (m + 1) 1"
    | "k = days_in_month y m" "m = 12" "y < 9999" "e = Date (y + 1) 1 1"
    using assms(2) v Date by (auto split: if_splits)
  then show ?thesis
  proof cases
    case 1
    then show ?thesis using v Date by (simp add: valid_date_def ordinal_def)
  next
    case 2
    then show ?thesis using v Date days_in_month_31(2) [of y "m + 1"]
      by (simp add: valid_date_def ordinal_def days_before_month_Suc)
  next
    case 3
    have "days_before_month y 12 + 31 = (if is_leap y then 366 else 365)"
      using days_before_month_year [of y] days_before_month_Suc [of 12 y] by (simp add: days_in_month_31)
    then show ?thesis using 3 v Date days_before_year_Suc [of y]
      by (simp add: valid_date_def ordinal_def days_in_month_def days_before_month_def split: if_splits)
  qed
qed

lemma prev_next_day:
  assumes "valid_date d" and "prev_day d = Some e"
  shows "valid_date e \<and> next_day e = Some d"
proof (cases d)
  case (Date y m k)
  then have v: "1 \<le> y" "y \<le> 9999" "1 \<le> m" "m \<le> 12" "1 \<le> k" "k \<le> days_in_month y m"
    using assms(1) by (simp_all add: valid_date_def)
  consider "1 < k" "e = Date y m (k - 1)"
    | "k = 1" "1 < m" "e = Date y (m - 1) (days_in_month y (m - 1))"
    | "k = 1" "m = 1" "1 < y" "e = Date (y - 1) 12 31"
    using assms(2) v Date by (auto split: if_splits)
  then show ?thesis
    using v Date order_trans [OF _ days_in_month_31(2) [of y "m - 1"], of 1] by cases (auto simp: valid_date_def days_in_month_31)
qed

lemma prev_day_ordinal:
  assumes "valid_date d" and "prev_day d = Some e"
  shows "valid_date e \<and> ordinal e + 1 = ordinal d"
  using prev_next_day [OF assms] next_day_ordinal [of e d] by simp

lemma ordinal_month_mono: "1 \<le> m \<Longrightarrow> days_before_month y m + days_in_month y m \<le> days_before_month y (m + 1 + j)"
proof (induction j)
  case (Suc j)
  then show ?case using days_before_month_Suc [of "m + 1 + j" y] by simp
qed (simp add: days_before_month_Suc)

lemma ordinal_year_mono: "1 \<le> y \<Longrightarrow> days_before_year y + (if is_leap y then 366 else 365) \<le> days_before_year (y + 1 + j)"
proof (induction j)
  case (Suc j)
  then show ?case using days_before_year_Suc [of "y + 1 + j"] by (simp split: if_splits)
qed (simp add: days_before_year_Suc)

text \<open>The day number orders the valid dates as the calendar does.\<close>

lemma ordinal_less:
  assumes "valid_date a" and "valid_date b" and "a < b"
  shows "ordinal a < ordinal b"
proof -
  obtain y m d where a: "a = Date y m d" by (cases a)
  obtain y' m' d' where b: "b = Date y' m' d'" by (cases b)
  have v: "1 \<le> y" "1 \<le> m" "m \<le> 12" "d \<le> days_in_month y m" "1 \<le> d'" "1 \<le> m'"
    using assms(1,2) by (simp_all add: valid_date_def a b)
  consider "y < y'" | "y = y'" "m < m'" | "y = y'" "m = m'" "d < d'"
    using assms(3) by (simp add: a b less_date_def) (metis order_le_less)
  then show ?thesis
  proof cases
    case 1
    then obtain j where j: "y' = y + 1 + j" by (metis add.commute le_Suc_ex plus_1_eq_Suc Suc_leI)
    have "days_before_month y m + days_in_month y m \<le> days_before_month y 13"
      using ordinal_month_mono [OF v(2), of y "12 - m"] v(3) by simp
    then show ?thesis
      using ordinal_year_mono [OF v(1), of j] days_before_month_year [of y] v j by (simp add: ordinal_def a b split: if_splits)
  next
    case 2
    then obtain j where "m' = m + 1 + j" by (metis add.commute le_Suc_ex plus_1_eq_Suc Suc_leI)
    then show ?thesis using 2(1) ordinal_month_mono [OF v(2), of y j] v by (simp add: ordinal_def a b)
  next
    case 3
    then show ?thesis by (simp add: ordinal_def a b)
  qed
qed

lemma ordinal_inject: "valid_date a \<Longrightarrow> valid_date b \<Longrightarrow> ordinal a = ordinal b \<longleftrightarrow> a = b"
  using ordinal_less [of a b] ordinal_less [of b a] by (metis less_irrefl linorder_neqE)

section \<open>UTC\<close>

text \<open>\<^verbatim>\<open>astimezone(UTC)\<close> of an aware datetime.  Past the first or the last day it raises \<^verbatim>\<open>OverflowError\<close>.\<close>

definition astimezone_utc :: "datetime \<Rightarrow> int \<Rightarrow> datetime option" where
  "astimezone_utc t z =
     (let us = int (dt_us t) - z;
          shift = (\<lambda>d us. map_option (\<lambda>d. \<lparr>dt_date = d, dt_us = nat us, dt_offset = Some 0\<rparr>) d)
      in if us < 0 then shift (prev_day (dt_date t)) (us + int day_us)
         else if us \<ge> int day_us then shift (next_day (dt_date t)) (us - int day_us)
         else shift (Some (dt_date t)) us)"

text \<open>The instant of an aware datetime: microseconds of UTC.\<close>

definition instant :: "datetime \<Rightarrow> int" where
  "instant t = int (ordinal (dt_date t)) * int day_us + int (dt_us t) - (case dt_offset t of None \<Rightarrow> 0 | Some z \<Rightarrow> z)"

lemma astimezone_utc_instant:
  assumes "valid_datetime t" and "dt_offset t = Some z" and "astimezone_utc t z = Some u"
  shows "valid_datetime u \<and> dt_offset u = Some 0 \<and> instant u = instant t"
proof -
  have v: "valid_date (dt_date t)" "dt_us t < day_us" "\<bar>z\<bar> < int day_us" using assms by (simp_all add: valid_datetime_def)
  consider d where "int (dt_us t) - z < 0" "prev_day (dt_date t) = Some d" "u = \<lparr>dt_date = d, dt_us = nat (int (dt_us t) - z + int day_us), dt_offset = Some 0\<rparr>"
    | d where "int (dt_us t) - z \<ge> int day_us" "next_day (dt_date t) = Some d" "u = \<lparr>dt_date = d, dt_us = nat (int (dt_us t) - z - int day_us), dt_offset = Some 0\<rparr>"
    | "0 \<le> int (dt_us t) - z" "int (dt_us t) - z < int day_us" "u = \<lparr>dt_date = dt_date t, dt_us = nat (int (dt_us t) - z), dt_offset = Some 0\<rparr>"
    using assms(3) by (auto simp: astimezone_utc_def Let_def split: if_splits)
  then show ?thesis
  proof cases
    case 1
    have o: "ordinal (dt_date t) = ordinal d + 1" "valid_date d" using prev_day_ordinal [OF v(1) 1(2)] by simp_all
    have "instant u = instant t" using 1 v assms(2) by (simp add: instant_def o(1) algebra_simps)
    moreover have "dt_us u < day_us" using 1 v by simp
    ultimately show ?thesis using 1(3) o(2) by (simp add: valid_datetime_def day_us_def)
  next
    case 2
    have o: "ordinal d = ordinal (dt_date t) + 1" "valid_date d" using next_day_ordinal [OF v(1) 2(2)] by simp_all
    have "instant u = instant t" using 2 v assms(2) by (simp add: instant_def o(1) algebra_simps)
    moreover have "dt_us u < day_us" using 2 v by simp
    ultimately show ?thesis using 2(3) o(2) by (simp add: valid_datetime_def day_us_def)
  next
    case 3
    then show ?thesis using v assms(2) by (simp add: valid_datetime_def instant_def)
  qed
qed

lemma instant_inject_utc:
  assumes "valid_datetime s" "valid_datetime t" "dt_offset s = Some 0" "dt_offset t = Some 0" "instant s = instant t"
  shows "s = t"
proof -
  have b: "dt_us s < day_us" "dt_us t < day_us" "valid_date (dt_date s)" "valid_date (dt_date t)"
    using assms(1,2) by (simp_all add: valid_datetime_def)
  have "ordinal (dt_date s) * day_us + dt_us s = ordinal (dt_date t) * day_us + dt_us t"
    using assms(3-5) by (simp add: instant_def) (metis of_nat_add of_nat_eq_iff of_nat_mult)
  then have "ordinal (dt_date s) = ordinal (dt_date t)" "dt_us s = dt_us t"
    using b by (metis add.commute div_mult_self3 div_less add_0 less_nat_zero_code, metis mod_mult_self3 mod_less)
  then show ?thesis using assms(3,4) b ordinal_inject by simp
qed

text \<open>The UTC texts of two aware datetimes agree exactly when they are one instant.\<close>

lemma utc_text_iff:
  assumes "valid_datetime s" "dt_offset s = Some y" "astimezone_utc s y = Some s'"
    and "valid_datetime t" "dt_offset t = Some z" "astimezone_utc t z = Some t'"
  shows "isoformat s' = isoformat t' \<longleftrightarrow> instant s = instant t"
  using astimezone_utc_instant [OF assms(1-3)] astimezone_utc_instant [OF assms(4-6)] instant_inject_utc isoformat_inject
  by metis

end
