(* ===== verification/Bundle.thy ===== *)
theory Bundle
  imports Identifiers Iso_Time Json
begin

text \<open>
  Filing bundles (\<^verbatim>\<open>domain/bundle.py\<close>) and the strict decoding of their persisted descriptors
  (\<^verbatim>\<open>domain/decode.py\<close>).

  Each frozen data class is a record with its \<^verbatim>\<open>__post_init__\<close> as a checking constructor \<open>mk_\<dots>\<close>, its
  \<^verbatim>\<open>to_dict\<close> a JSON object with the code's key order and its \<^verbatim>\<open>from_dict\<close> a function into results whose
  checks run in the order of the code.  A date text that is not the canonical one raises either in
  \<^verbatim>\<open>fromisoformat\<close> or in the comparison behind it; both exceptions are \<^verbatim>\<open>ValueError\<close>s, and the model
  raises that class.
\<close>

section \<open>Strict decoding\<close>

definition require_object :: "json \<Rightarrow> (string \<times> json) list res" where
  "require_object v = (case v of JObj kvs \<Rightarrow> Inr kvs | _ \<Rightarrow> Inl (BundleDecodeError ''must be a JSON object''))"

definition require_exact_keys :: "(string \<times> json) list \<Rightarrow> string list \<Rightarrow> unit res" where
  "require_exact_keys obj ks =
     (if \<not> set ks \<subseteq> fst ` set obj then Inl (BundleDecodeError ''missing fields'')
      else if \<not> fst ` set obj \<subseteq> set ks then Inl (BundleDecodeError ''unknown fields'') else Inr ())"

definition require_str :: "json \<Rightarrow> string res" where
  "require_str v = (case v of JStr s \<Rightarrow> Inr s | _ \<Rightarrow> Inl (BundleDecodeError ''must be a JSON string''))"

definition require_bool :: "json \<Rightarrow> bool res" where
  "require_bool v = (case v of JBool b \<Rightarrow> Inr b | _ \<Rightarrow> Inl (BundleDecodeError ''must be a JSON boolean''))"

definition require_int :: "json \<Rightarrow> int res" where
  "require_int v = (case v of JInt i \<Rightarrow> Inr i | _ \<Rightarrow> Inl (BundleDecodeError ''must be a JSON integer''))"

definition require_list :: "json \<Rightarrow> json list res" where
  "require_list v = (case v of JArr vs \<Rightarrow> Inr vs | _ \<Rightarrow> Inl (BundleDecodeError ''must be a JSON array''))"

definition require_list_of_str :: "json \<Rightarrow> string list res" where
  "require_list_of_str v = res_bind (require_list v) (map_res require_str)"

definition require_canonical_date :: "json \<Rightarrow> date res" where
  "require_canonical_date v = res_bind (require_str v) (\<lambda>raw.
     if raw = [] then Inl (BundleDecodeError ''must not be empty'')
     else let parsed = read_iso_date raw
          in if valid_date parsed \<and> iso_date parsed = raw then Inr parsed
             else Inl (ValueError ''not a canonical ISO date''))"

definition require_canonical_datetime :: "json \<Rightarrow> datetime res" where
  "require_canonical_datetime v = res_bind (require_str v) (\<lambda>raw.
     if raw = [] then Inl (BundleDecodeError ''must not be empty'')
     else let parsed = read_isoformat raw
          in if valid_datetime parsed \<and> isoformat parsed = raw then Inr parsed
             else Inl (ValueError ''not a canonical ISO datetime''))"

definition nullable :: "(json \<Rightarrow> 'a res) \<Rightarrow> json \<Rightarrow> 'a option res" where
  "nullable f v = (if v = JNull then Inr None else res_bind (f v) (\<lambda>x. Inr (Some x)))"

text \<open>\<^verbatim>\<open>obj[key]\<close>.\<close>

definition field :: "(string \<times> json) list \<Rightarrow> string \<Rightarrow> json res" where
  "field obj k = (case map_of obj k of None \<Rightarrow> Inl (KeyError k) | Some v \<Rightarrow> Inr v)"

definition with_field :: "(string \<times> json) list \<Rightarrow> string \<Rightarrow> (json \<Rightarrow> 'a res) \<Rightarrow> ('a \<Rightarrow> 'b res) \<Rightarrow> 'b res" where
  "with_field obj k f g = res_bind (field obj k) (\<lambda>v. res_bind (f v) g)"

section \<open>The data of a bundle\<close>

record content_object =
  co_sha256 :: string
  co_byte_size :: int

record filing_identity =
  fi_cik :: string
  fi_accession :: string
  fi_form_type :: string
  fi_filing_date :: date
  fi_accepted_at :: "datetime option"
  fi_report_period_end :: "date option"
  fi_primary_document :: string

record bundle_artifact =
  ba_logical_path :: string
  ba_content :: content_object
  ba_artifact_kind :: string
  ba_required :: bool

record uri_binding =
  ub_document_uri :: string
  ub_artifact_path :: string
  ub_content_sha256 :: string
  ub_replay_aliases :: "string list"

datatype report_input =
    InstanceReportInput (ri_document_uris: "string list")
  | IxdsReportInput (ri_document_uris: "string list") (ri_target: string)

record filing_bundle =
  fb_filing :: filing_identity
  fb_payload_hash :: string
  fb_artifacts :: "bundle_artifact list"
  fb_report_inputs :: "report_input list"
  fb_uri_bindings :: "uri_binding list"
  fb_schema_version :: int
  fb_acquisition_policy_version :: string

definition ARTIFACT_KINDS :: "string list" where
  "ARTIFACT_KINDS = [''accession'', ''metadata'', ''external'', ''complete_submission'', ''primary_document'',
     ''taxonomy_schema'', ''linkbase'', ''attachment'', ''index_json'', ''index_html'', ''index_headers'',
     ''discovery'', ''sec_generated'', ''other'']"

definition hex64 :: "string \<Rightarrow> bool" where
  "hex64 s = (length s = 64 \<and> list_all is_hex s)"

definition mk_content_object :: "string \<Rightarrow> int \<Rightarrow> content_object res" where
  "mk_content_object sha byte_size =
     (if py_lower sha \<noteq> sha \<or> \<not> hex64 (py_lower sha) then Inl (ValueError ''sha256 must be 64 lowercase hex chars'')
      else if byte_size < 0 then Inl (ValueError ''byte_size must be non-negative'')
      else Inr \<lparr>co_sha256 = sha, co_byte_size = byte_size\<rparr>)"

definition mk_filing_identity :: "filing_identity \<Rightarrow> filing_identity res" where
  "mk_filing_identity f =
     res_bind (validate_cik (fi_cik f)) (\<lambda>cik.
     res_bind (validate_accession (fi_accession f)) (\<lambda>accession.
     res_bind (assert_cik_accession_consistent cik accession) (\<lambda>_.
       if fi_form_type f \<notin> set SUPPORTED_FORMS then Inl (ValueError ''unsupported form_type'')
       else if fi_primary_document f = [] \<or> CHR ''/'' \<in> set (fi_primary_document f) \<or>
               backslash \<in> set (fi_primary_document f) then Inl (ValueError ''invalid primary_document'')
       else (case fi_accepted_at f of
           Some t \<Rightarrow> if dt_offset t = None then Inl (ValueError ''accepted_at must be timezone-aware when set'')
                    else Inr (f\<lparr>fi_cik := cik, fi_accession := accession\<rparr>)
         | None \<Rightarrow> Inr (f\<lparr>fi_cik := cik, fi_accession := accession\<rparr>)))))"

definition mk_bundle_artifact :: "bundle_artifact \<Rightarrow> bundle_artifact res" where
  "mk_bundle_artifact a = res_bind (validate_logical_path (ba_logical_path a)) (\<lambda>p. Inr (a\<lparr>ba_logical_path := p\<rparr>))"

definition mk_uri_binding :: "uri_binding \<Rightarrow> uri_binding res" where
  "mk_uri_binding b = res_bind (validate_logical_path (ub_artifact_path b)) (\<lambda>p.
     let digest = ub_content_sha256 b
     in if digest \<noteq> py_lower digest \<or> \<not> hex64 digest then Inl (ValueError ''content_sha256 must be 64 lowercase hex chars'')
        else if \<not> distinct (ub_replay_aliases b) then Inl (ValueError ''replay_aliases contains duplicates'')
        else Inr (b\<lparr>ub_artifact_path := p\<rparr>))"

fun mk_report_input :: "report_input \<Rightarrow> report_input res" where
  "mk_report_input (InstanceReportInput uris) =
     (if length uris \<noteq> 1 then Inl (ValueError ''InstanceReportInput requires exactly one document URI'')
      else if hd uris = [] then Inl (ValueError ''document URI must be non-empty'')
      else Inr (InstanceReportInput uris))"
| "mk_report_input (IxdsReportInput uris target) =
     (if uris = [] then Inl (ValueError ''IxdsReportInput requires at least one document URI'')
      else if \<not> distinct uris then Inl (ValueError ''IxdsReportInput document_uris must be unique'')
      else if target \<noteq> ''default'' then Inl (ValueError ''Phase 1 only supports target=default'')
      else Inr (IxdsReportInput uris target))"

definition mk_filing_bundle :: "filing_bundle \<Rightarrow> filing_bundle res" where
  "mk_filing_bundle b =
     (if fb_schema_version b \<noteq> 1 then Inl (ValueError ''unsupported schema_version'')
      else if fb_report_inputs b = [] then Inl (ValueError ''FilingBundle requires at least one report input'')
      else if \<not> distinct (map ba_logical_path (fb_artifacts b)) then Inl (ValueError ''duplicate artifact logical_path'')
      else Inr b)"

definition artifact_by_path :: "filing_bundle \<Rightarrow> string \<Rightarrow> bundle_artifact option" where
  "artifact_by_path b p = find (\<lambda>a. ba_logical_path a = p) (fb_artifacts b)"

section \<open>To and from dictionaries\<close>

definition jopt :: "('a \<Rightarrow> string) \<Rightarrow> 'a option \<Rightarrow> json" where
  "jopt f x = (case x of None \<Rightarrow> JNull | Some y \<Rightarrow> JStr (f y))"

definition jstrs :: "string list \<Rightarrow> json" where
  "jstrs xs = JArr (map JStr xs)"

definition filing_to_dict :: "filing_identity \<Rightarrow> (string \<times> json) list" where
  "filing_to_dict f =
     [(''cik'', JStr (fi_cik f)), (''accession'', JStr (fi_accession f)), (''form_type'', JStr (fi_form_type f)),
      (''filing_date'', JStr (iso_date (fi_filing_date f))), (''accepted_at'', jopt isoformat (fi_accepted_at f)),
      (''report_period_end'', jopt iso_date (fi_report_period_end f)),
      (''primary_document'', JStr (fi_primary_document f))]"

definition artifact_to_dict :: "bundle_artifact \<Rightarrow> (string \<times> json) list" where
  "artifact_to_dict a =
     [(''logical_path'', JStr (ba_logical_path a)), (''sha256'', JStr (co_sha256 (ba_content a))),
      (''byte_size'', JInt (co_byte_size (ba_content a))), (''artifact_kind'', JStr (ba_artifact_kind a)),
      (''required'', JBool (ba_required a))]"

definition binding_to_dict :: "uri_binding \<Rightarrow> (string \<times> json) list" where
  "binding_to_dict b =
     [(''document_uri'', JStr (ub_document_uri b)), (''artifact_path'', JStr (ub_artifact_path b)),
      (''content_sha256'', JStr (ub_content_sha256 b)), (''replay_aliases'', jstrs (ub_replay_aliases b))]"

fun report_input_to_dict :: "report_input \<Rightarrow> (string \<times> json) list" where
  "report_input_to_dict (InstanceReportInput uris) = [(''kind'', JStr ''instance''), (''document_uris'', jstrs uris)]"
| "report_input_to_dict (IxdsReportInput uris target) =
     [(''kind'', JStr ''ixds''), (''document_uris'', jstrs uris), (''target'', JStr target)]"

definition bundle_to_dict :: "filing_bundle \<Rightarrow> (string \<times> json) list" where
  "bundle_to_dict b =
     [(''schema_version'', JInt (fb_schema_version b)),
      (''acquisition_policy_version'', JStr (fb_acquisition_policy_version b)),
      (''filing'', JObj (filing_to_dict (fb_filing b))), (''payload_hash'', JStr (fb_payload_hash b)),
      (''artifacts'', JArr (map (\<lambda>a. JObj (artifact_to_dict a)) (fb_artifacts b))),
      (''report_inputs'', JArr (map (\<lambda>r. JObj (report_input_to_dict r)) (fb_report_inputs b))),
      (''uri_bindings'', JArr (map (\<lambda>u. JObj (binding_to_dict u)) (fb_uri_bindings b)))]"

definition filing_from_dict :: "json \<Rightarrow> filing_identity res" where
  "filing_from_dict v =
     res_bind (require_object v) (\<lambda>obj.
     res_bind (require_exact_keys obj [''cik'', ''accession'', ''form_type'', ''filing_date'', ''accepted_at'',
         ''report_period_end'', ''primary_document'']) (\<lambda>_.
     with_field obj ''cik'' (\<lambda>j. res_bind (require_str j) assert_canonical_serialized_cik) (\<lambda>cik.
     with_field obj ''accession'' (\<lambda>j. res_bind (require_str j) assert_canonical_serialized_accession) (\<lambda>accession.
     with_field obj ''form_type'' require_str (\<lambda>form_type.
     with_field obj ''filing_date'' require_canonical_date (\<lambda>filing_date.
     with_field obj ''accepted_at'' (nullable require_canonical_datetime) (\<lambda>accepted_at.
     with_field obj ''report_period_end'' (nullable require_canonical_date) (\<lambda>report_period_end.
     with_field obj ''primary_document'' require_str (\<lambda>primary_document.
       mk_filing_identity \<lparr>fi_cik = cik, fi_accession = accession, fi_form_type = form_type,
         fi_filing_date = filing_date, fi_accepted_at = accepted_at, fi_report_period_end = report_period_end,
         fi_primary_document = primary_document\<rparr>)))))))))"

definition artifact_from_dict :: "json \<Rightarrow> bundle_artifact res" where
  "artifact_from_dict v =
     res_bind (require_object v) (\<lambda>obj.
     res_bind (require_exact_keys obj [''logical_path'', ''sha256'', ''byte_size'', ''artifact_kind'', ''required'']) (\<lambda>_.
     with_field obj ''artifact_kind'' require_str (\<lambda>kind.
       if kind \<notin> set ARTIFACT_KINDS then Inl (BundleDecodeError ''invalid artifact_kind'')
       else with_field obj ''logical_path'' require_str (\<lambda>logical_path.
         with_field obj ''sha256'' require_str (\<lambda>sha.
         with_field obj ''byte_size'' require_int (\<lambda>byte_size.
         res_bind (mk_content_object sha byte_size) (\<lambda>content.
         with_field obj ''required'' require_bool (\<lambda>required.
           mk_bundle_artifact \<lparr>ba_logical_path = logical_path, ba_content = content, ba_artifact_kind = kind,
             ba_required = required\<rparr>))))))))"

definition binding_from_dict :: "json \<Rightarrow> uri_binding res" where
  "binding_from_dict v =
     res_bind (require_object v) (\<lambda>obj.
     res_bind (require_exact_keys obj [''document_uri'', ''artifact_path'', ''content_sha256'', ''replay_aliases'']) (\<lambda>_.
     with_field obj ''replay_aliases'' require_list_of_str (\<lambda>aliases.
     with_field obj ''document_uri'' require_str (\<lambda>document_uri.
     with_field obj ''artifact_path'' require_str (\<lambda>artifact_path.
     with_field obj ''content_sha256'' require_str (\<lambda>content_sha256.
       mk_uri_binding \<lparr>ub_document_uri = document_uri, ub_artifact_path = artifact_path,
         ub_content_sha256 = content_sha256, ub_replay_aliases = aliases\<rparr>))))))"

definition report_input_from_dict :: "json \<Rightarrow> report_input res" where
  "report_input_from_dict v =
     res_bind (require_object v) (\<lambda>obj.
       if ''kind'' \<notin> fst ` set obj then Inl (BundleDecodeError ''report_input missing fields: kind'')
       else with_field obj ''kind'' require_str (\<lambda>kind.
         if kind = ''instance'' then
           res_bind (require_exact_keys obj [''kind'', ''document_uris'']) (\<lambda>_.
           with_field obj ''document_uris'' require_list_of_str (\<lambda>uris. mk_report_input (InstanceReportInput uris)))
         else if kind = ''ixds'' then
           res_bind (require_exact_keys obj [''kind'', ''document_uris'', ''target'']) (\<lambda>_.
           with_field obj ''document_uris'' require_list_of_str (\<lambda>uris.
           with_field obj ''target'' require_str (\<lambda>target.
             if target \<noteq> ''default'' then Inl (BundleDecodeError ''unsupported IXDS target'')
             else mk_report_input (IxdsReportInput uris ''default''))))
         else Inl (BundleDecodeError ''unknown report input kind'')))"

definition bundle_from_dict :: "json \<Rightarrow> filing_bundle res" where
  "bundle_from_dict v =
     res_bind (require_object v) (\<lambda>obj.
     res_bind (require_exact_keys obj [''schema_version'', ''acquisition_policy_version'', ''filing'', ''payload_hash'',
         ''artifacts'', ''report_inputs'', ''uri_bindings'']) (\<lambda>_.
     with_field obj ''schema_version'' require_int (\<lambda>schema_version.
     with_field obj ''payload_hash'' require_str (\<lambda>payload_hash.
       if \<not> hex64 payload_hash then Inl (BundleDecodeError ''invalid payload_hash syntax'')
       else with_field obj ''artifacts'' require_list (\<lambda>artifacts.
         with_field obj ''report_inputs'' require_list (\<lambda>report_inputs.
         with_field obj ''uri_bindings'' require_list (\<lambda>uri_bindings.
         with_field obj ''acquisition_policy_version'' require_str (\<lambda>acquisition.
         with_field obj ''filing'' filing_from_dict (\<lambda>filing.
         res_bind (map_res artifact_from_dict artifacts) (\<lambda>as.
         res_bind (map_res report_input_from_dict report_inputs) (\<lambda>rs.
         res_bind (map_res binding_from_dict uri_bindings) (\<lambda>bs.
           mk_filing_bundle \<lparr>fb_filing = filing, fb_payload_hash = payload_hash, fb_artifacts = as,
             fb_report_inputs = rs, fb_uri_bindings = bs, fb_schema_version = schema_version,
             fb_acquisition_policy_version = acquisition\<rparr>))))))))))))"

section \<open>Evidence identity\<close>

text \<open>\<^verbatim>\<open>accepted_at\<close> of the equality state: the UTC text; a datetime without an offset would be read as local time.\<close>

definition utc_text :: "datetime \<Rightarrow> string res" where
  "utc_text t = (case dt_offset t of None \<Rightarrow> Inl (ValueError ''naive datetime'')
     | Some z \<Rightarrow> (case astimezone_utc t z of None \<Rightarrow> Inl OverflowError | Some u \<Rightarrow> Inr (isoformat u)))"

definition bundle_equality_state :: "filing_bundle \<Rightarrow> json res" where
  "bundle_equality_state b =
     res_bind (case fi_accepted_at (fb_filing b) of None \<Rightarrow> Inr JNull
       | Some t \<Rightarrow> res_bind (utc_text t) (\<lambda>s. Inr (JStr s))) (\<lambda>accepted_at.
     Inr (JObj
       [(''schema_version'', JInt (fb_schema_version b)),
        (''acquisition_policy_version'', JStr (fb_acquisition_policy_version b)),
        (''filing'', JObj (map (\<lambda>(k, v). (k, if k = ''accepted_at'' then accepted_at else v)) (filing_to_dict (fb_filing b)))),
        (''payload_hash'', JStr (fb_payload_hash b)),
        (''artifacts'', JArr (map (\<lambda>a. JObj (artifact_to_dict a)) (sort_key ba_logical_path (fb_artifacts b)))),
        (''report_inputs'', JArr (map (\<lambda>r. JObj (report_input_to_dict r)) (fb_report_inputs b))),
        (''uri_bindings'', JArr (map (\<lambda>u. JObj (binding_to_dict (u\<lparr>ub_replay_aliases := sort (ub_replay_aliases u)\<rparr>)))
           (sort_key ub_document_uri (fb_uri_bindings b))))]))"

definition bundles_equivalent :: "filing_bundle \<Rightarrow> filing_bundle \<Rightarrow> bool res" where
  "bundles_equivalent left right =
     res_bind (bundle_equality_state left) (\<lambda>l. res_bind (bundle_equality_state right) (\<lambda>r. Inr (l = r)))"

definition bundle_fingerprint :: "(string \<Rightarrow> string) \<Rightarrow> filing_bundle \<Rightarrow> string res" where
  "bundle_fingerprint sha b = res_bind (bundle_equality_state b) (\<lambda>state. Inr (sha (canonical_json_bytes state)))"

end
