(* ===== verification/Bundle_Props.thy ===== *)
theory Bundle_Props
  imports Bundle "HOL-Library.Multiset"
begin

text \<open>
  What the strict decoders of \<^verbatim>\<open>domain/bundle.py\<close> promise.  The locale \<open>strict_codec\<close> is the contract of
  a pair \<^verbatim>\<open>to_dict\<close> and \<^verbatim>\<open>from_dict\<close>: a JSON value decodes to an object exactly when the object is
  well formed and the value is its dictionary up to the order of keys.  It is interpreted for each class
  of the bundle; the lemmas on lists, round trips and lossless decoding are proved once.

  The second part is evidence identity: what \<^verbatim>\<open>bundles_equivalent\<close> and \<^verbatim>\<open>bundle_fingerprint\<close> compare.
\<close>

section \<open>Dictionaries up to the order of their keys\<close>

text \<open>A Python dictionary has distinct keys, at every level of a parsed JSON document.\<close>

primrec distinct_keys :: "json \<Rightarrow> bool" where
  "distinct_keys JNull = True"
| "distinct_keys (JBool b) = True"
| "distinct_keys (JInt i) = True"
| "distinct_keys (JStr s) = True"
| "distinct_keys (JArr vs) = list_all (\<lambda>b. b) (map distinct_keys vs)"
| "distinct_keys (JObj kvs) =
     (distinct (map fst kvs) \<and> list_all (\<lambda>(k, b). b) (map (map_prod id distinct_keys) kvs))"

lemma sort_key_set_eq:
  fixes f :: "'a \<Rightarrow> 'b :: linorder"
  assumes "distinct (map f xs)" and "distinct (map f ys)" and "set xs = set ys"
  shows "sort_key f xs = sort_key f ys"
proof (rule map_sorted_distinct_set_unique [of f])
  show "inj_on f (set (sort_key f xs) \<union> set (sort_key f ys))" using assms by (simp add: distinct_map)
  have "distinct (map f (sort_key f zs)) = distinct (map f zs)" for zs
    by (rule mset_eq_imp_distinct_iff) simp
  then show "distinct (map f (sort_key f xs))" "distinct (map f (sort_key f ys))" using assms by simp_all
qed (use assms in simp_all)

lemma sort_keys_obj_iff:
  assumes "distinct (map fst xs)" and "distinct (map fst ys)"
  shows "sort_keys (JObj xs) = sort_keys (JObj ys) \<longleftrightarrow>
    (\<forall>k. map_option sort_keys (map_of xs k) = map_option sort_keys (map_of ys k))"
proof -
  let ?g = "\<lambda>xs. map (\<lambda>(k, v). (k, sort_keys v)) xs"
  have g: "map (map_prod id sort_keys) zs = ?g zs" for zs by auto
  have d: "distinct (map fst (?g zs)) = distinct (map fst zs)" for zs by (simp add: o_def case_prod_beta)
  have "sort_keys (JObj xs) = sort_keys (JObj ys) \<longleftrightarrow> set (?g xs) = set (?g ys)"
  proof
    assume "sort_keys (JObj xs) = sort_keys (JObj ys)"
    then have "sort_key fst (?g xs) = sort_key fst (?g ys)" by (simp add: g)
    then show "set (?g xs) = set (?g ys)" by (metis set_sort)
  next
    assume s: "set (?g xs) = set (?g ys)"
    have "sort_key fst (?g xs) = sort_key fst (?g ys)"
      by (rule sort_key_set_eq) (simp_all only: assms d s)
    then show "sort_keys (JObj xs) = sort_keys (JObj ys)" by (simp add: g)
  qed
  also have "\<dots> \<longleftrightarrow> map_of (?g xs) = map_of (?g ys)"
    using assms d by (metis map_of_inject_set)
  also have "\<dots> \<longleftrightarrow> (\<forall>k. map_option sort_keys (map_of xs k) = map_option sort_keys (map_of ys k))"
    by (simp add: map_of_map fun_eq_iff)
  finally show ?thesis .
qed

text \<open>A value against the dictionary of a record: the same keys, and equal values field by field.\<close>

lemma sort_keys_record_iff:
  assumes "distinct (map fst kvs)" and "distinct (map fst items)"
  shows "sort_keys (JObj kvs) = sort_keys (JObj items) \<longleftrightarrow>
    fst ` set kvs = fst ` set items \<and>
    list_all (\<lambda>(k, w). \<exists>v. map_of kvs k = Some v \<and> sort_keys v = sort_keys w) items"
proof -
  have dom: "map_of zs k = None \<longleftrightarrow> k \<notin> fst ` set zs" for zs :: "(string \<times> json) list" and k by (rule map_of_eq_None_iff)
  have "(\<forall>k. map_option sort_keys (map_of kvs k) = map_option sort_keys (map_of items k)) \<longleftrightarrow>
    fst ` set kvs = fst ` set items \<and>
    (\<forall>k w. map_of items k = Some w \<longrightarrow> (\<exists>v. map_of kvs k = Some v \<and> sort_keys v = sort_keys w))" (is "?l \<longleftrightarrow> ?r")
  proof
    assume l: ?l
    have "k \<in> fst ` set kvs \<longleftrightarrow> k \<in> fst ` set items" for k
      using l dom by (metis option.map_disc_iff)
    moreover have "\<exists>v. map_of kvs k = Some v \<and> sort_keys v = sort_keys w" if "map_of items k = Some w" for k w
      using l [rule_format, of k] that by (auto simp: map_option_eq_Some)
    ultimately show ?r by blast
  next
    assume r: ?r
    show ?l
    proof
      fix k
      show "map_option sort_keys (map_of kvs k) = map_option sort_keys (map_of items k)"
        using r dom [of kvs k] dom [of items k] by (cases "map_of items k") auto
    qed
  qed
  moreover have "(\<forall>k w. map_of items k = Some w \<longrightarrow> Q k w) \<longleftrightarrow> list_all (\<lambda>(k, w). Q k w) items" for Q
    using assms(2) by (auto simp: list_all_iff)
  ultimately show ?thesis using sort_keys_obj_iff [OF assms] by simp
qed

section \<open>The contract of a strict codec\<close>

locale strict_codec =
  fixes decode :: "json \<Rightarrow> 'a res" and encode :: "'a \<Rightarrow> (string \<times> json) list" and ok :: "'a \<Rightarrow> bool"
  assumes decode_iff:
    "distinct_keys v \<Longrightarrow> decode v = Inr x \<longleftrightarrow> ok x \<and> sort_keys v = sort_keys (JObj (encode x))"
    and encode_distinct: "distinct_keys (JObj (encode x))"
begin

lemma round_trip: "ok x \<Longrightarrow> decode (JObj (encode x)) = Inr x"
  using decode_iff [OF encode_distinct] by simp

lemma decoded_ok: "distinct_keys v \<Longrightarrow> decode v = Inr x \<Longrightarrow> ok x"
  by (simp add: decode_iff)

lemma encode_inject:
  assumes "ok x" and "ok y" and "sort_keys (JObj (encode x)) = sort_keys (JObj (encode y))"
  shows "x = y"
  using round_trip [OF assms(1)] decode_iff [OF encode_distinct, of x y] assms(2,3) by simp

lemma encode_list_inject:
  assumes "list_all ok xs" and "list_all ok ys"
    and "map (\<lambda>x. sort_keys (JObj (encode x))) xs = map (\<lambda>x. sort_keys (JObj (encode x))) ys"
  shows "xs = ys"
proof (rule map_inj_on [OF assms(3)])
  show "inj_on (\<lambda>x. sort_keys (JObj (encode x))) (set xs \<union> set ys)"
    by (rule inj_onI, rule encode_inject) (use assms(1,2) in \<open>auto simp: list_all_iff\<close>)
qed

lemma decode_list_iff:
  "list_all distinct_keys vs \<Longrightarrow> map_res decode vs = Inr xs \<longleftrightarrow>
     list_all ok xs \<and> map sort_keys vs = map (\<lambda>x. sort_keys (JObj (encode x))) xs"
proof (induction vs arbitrary: xs)
  case (Cons v vs)
  then show ?case by (cases xs) (auto simp: res_bind_Inr_iff decode_iff simp del: sort_keys.simps(6))
qed auto

lemma encode_list_distinct: "distinct_keys (JArr (map (\<lambda>x. JObj (encode x)) xs))"
  using encode_distinct by (auto simp: list_all_iff simp del: distinct_keys.simps(6))

end

section \<open>Well-formed bundles\<close>

definition wf_content :: "content_object \<Rightarrow> bool" where
  "wf_content c = (hex64 (co_sha256 c) \<and> 0 \<le> co_byte_size c)"

definition wf_filing :: "filing_identity \<Rightarrow> bool" where
  "wf_filing f =
     (validate_cik (fi_cik f) = Inr (fi_cik f) \<and> validate_accession (fi_accession f) = Inr (fi_accession f) \<and>
      before_first CHR ''-'' (fi_accession f) = fi_cik f \<and> fi_form_type f \<in> set SUPPORTED_FORMS \<and>
      fi_primary_document f \<noteq> [] \<and> CHR ''/'' \<notin> set (fi_primary_document f) \<and>
      backslash \<notin> set (fi_primary_document f) \<and> valid_date (fi_filing_date f) \<and>
      (\<forall>d. fi_report_period_end f = Some d \<longrightarrow> valid_date d) \<and>
      (\<forall>t. fi_accepted_at f = Some t \<longrightarrow> valid_datetime t \<and> dt_offset t \<noteq> None))"

definition wf_artifact :: "bundle_artifact \<Rightarrow> bool" where
  "wf_artifact a = (wf_content (ba_content a) \<and> ba_artifact_kind a \<in> set ARTIFACT_KINDS \<and>
     validate_logical_path (ba_logical_path a) = Inr (ba_logical_path a))"

definition wf_binding :: "uri_binding \<Rightarrow> bool" where
  "wf_binding b = (hex64 (ub_content_sha256 b) \<and> distinct (ub_replay_aliases b) \<and>
     validate_logical_path (ub_artifact_path b) = Inr (ub_artifact_path b))"

fun wf_report_input :: "report_input \<Rightarrow> bool" where
  "wf_report_input (InstanceReportInput uris) = (\<exists>u. uris = [u] \<and> u \<noteq> [])"
| "wf_report_input (IxdsReportInput uris target) = (uris \<noteq> [] \<and> distinct uris \<and> target = ''default'')"

definition wf_bundle :: "filing_bundle \<Rightarrow> bool" where
  "wf_bundle b =
     (wf_filing (fb_filing b) \<and> hex64 (fb_payload_hash b) \<and> list_all wf_artifact (fb_artifacts b) \<and>
      distinct (map ba_logical_path (fb_artifacts b)) \<and> fb_report_inputs b \<noteq> [] \<and>
      list_all wf_report_input (fb_report_inputs b) \<and> list_all wf_binding (fb_uri_bindings b) \<and> fb_schema_version b = 1)"

named_theorems decode_simps \<open>what the decoders of leaf values accept\<close>

lemma require_object_iff [decode_simps]: "require_object v = Inr kvs \<longleftrightarrow> v = JObj kvs"
  by (cases v) (auto simp: require_object_def)

lemma require_leaf_iff [decode_simps]:
  "require_str v = Inr s \<longleftrightarrow> v = JStr s" "require_bool v = Inr b \<longleftrightarrow> v = JBool b"
  "require_int v = Inr i \<longleftrightarrow> v = JInt i" "require_list v = Inr vs \<longleftrightarrow> v = JArr vs"
  by (cases v; auto simp: require_str_def require_bool_def require_int_def require_list_def)+

lemma require_strs_iff [decode_simps]: "require_list_of_str v = Inr ss \<longleftrightarrow> v = jstrs ss"
proof -
  have "map_res require_str vs = Inr ss \<longleftrightarrow> vs = map JStr ss" for vs
    by (induction vs arbitrary: ss) (auto simp: res_bind_Inr_iff require_leaf_iff Cons_eq_map_conv)
  then show ?thesis by (auto simp: require_list_of_str_def jstrs_def res_bind_Inr_iff require_leaf_iff)
qed

lemma isoformat_not_Nil [simp]: "isoformat t \<noteq> []" "iso_date d \<noteq> []"
  using length_iso_date [of d] by (auto simp: isoformat_def simp del: length_iso_date)

lemma require_date_iff [decode_simps]:
  "require_canonical_date v = Inr d \<longleftrightarrow> v = JStr (iso_date d) \<and> valid_date d"
proof
  assume "require_canonical_date v = Inr d"
  then obtain raw where "v = JStr raw" "d = read_iso_date raw" "valid_date d" "iso_date d = raw"
    by (auto simp: require_canonical_date_def res_bind_Inr_iff require_leaf_iff Let_def split: if_splits)
  then show "v = JStr (iso_date d) \<and> valid_date d" by simp
qed (simp add: require_canonical_date_def require_str_def)

lemma require_datetime_iff [decode_simps]:
  "require_canonical_datetime v = Inr t \<longleftrightarrow> v = JStr (isoformat t) \<and> valid_datetime t"
proof
  assume "require_canonical_datetime v = Inr t"
  then obtain raw where "v = JStr raw" "t = read_isoformat raw" "valid_datetime t" "isoformat t = raw"
    by (auto simp: require_canonical_datetime_def res_bind_Inr_iff require_leaf_iff Let_def split: if_splits)
  then show "v = JStr (isoformat t) \<and> valid_datetime t" by simp
qed (simp add: require_canonical_datetime_def require_str_def)

lemma nullable_iff [decode_simps]:
  "(\<And>v x. f v = Inr x \<longleftrightarrow> v = JStr (g x) \<and> P x) \<Longrightarrow>
     nullable f v = Inr x \<longleftrightarrow> v = jopt g x \<and> (\<forall>y. x = Some y \<longrightarrow> P y)"
  by (cases x) (auto simp: nullable_def jopt_def res_bind_Inr_iff)

lemma require_exact_keys_iff [decode_simps]: "require_exact_keys obj ks = Inr u \<longleftrightarrow> fst ` set obj = set ks"
  by (auto simp: require_exact_keys_def)

lemma with_field_iff [decode_simps]:
  "with_field obj k f g = Inr y \<longleftrightarrow> (\<exists>v x. map_of obj k = Some v \<and> f v = Inr x \<and> g x = Inr y)"
  by (auto simp: with_field_def field_def res_bind_Inr_iff split: option.splits)

text \<open>The same facts as evaluation rules.\<close>

lemma leaf_eval [simp]:
  "valid_date d \<Longrightarrow> require_canonical_date (JStr (iso_date d)) = Inr d"
  "\<forall>d. x = Some d \<longrightarrow> valid_date d \<Longrightarrow> nullable require_canonical_date (jopt iso_date x) = Inr x"
  "\<forall>t. y = Some t \<longrightarrow> valid_datetime t \<Longrightarrow> nullable require_canonical_datetime (jopt isoformat y) = Inr y"
  "require_str (JStr s) = Inr s" "require_bool (JBool b) = Inr b" "require_int (JInt i) = Inr i"
  "require_list (JArr vs) = Inr vs" "require_list_of_str (jstrs ss) = Inr ss" "require_object (JObj kvs) = Inr kvs"
  by (simp_all add: require_date_iff require_strs_iff nullable_iff [OF require_date_iff] nullable_iff [OF require_datetime_iff]
      require_leaf_iff require_object_iff)

lemma with_field_eval: "map_of obj k = Some v \<Longrightarrow> with_field obj k f g = res_bind (f v) g"
  by (simp add: with_field_def field_def)

text \<open>Leaf values are their own normal form.\<close>

lemma sort_keys_leaf [decode_simps]:
  "sort_keys v = JNull \<longleftrightarrow> v = JNull" "sort_keys v = JBool b \<longleftrightarrow> v = JBool b"
  "sort_keys v = JInt i \<longleftrightarrow> v = JInt i" "sort_keys v = JStr s \<longleftrightarrow> v = JStr s"
  "sort_keys v = jopt g x \<longleftrightarrow> v = jopt g x" "sort_keys v = jstrs ss \<longleftrightarrow> v = jstrs ss"
proof -
  show leaf: "sort_keys v = JNull \<longleftrightarrow> v = JNull" "sort_keys v = JBool b \<longleftrightarrow> v = JBool b"
    "sort_keys v = JInt i \<longleftrightarrow> v = JInt i" "sort_keys v = JStr s \<longleftrightarrow> v = JStr s" for v s
    by (cases v; simp)+
  show "sort_keys v = jopt g x \<longleftrightarrow> v = jopt g x" by (cases x) (simp_all add: jopt_def leaf)
  have "map sort_keys vs = map JStr ss \<longleftrightarrow> vs = map JStr ss" for vs
    by (induction vs arbitrary: ss) (auto simp: Cons_eq_map_conv leaf)
  then show "sort_keys v = jstrs ss \<longleftrightarrow> v = jstrs ss" by (cases v) (auto simp: jstrs_def)
qed

lemma sort_keys_leaf' [simp]: "sort_keys (jopt g x) = jopt g x" "sort_keys (jstrs ss) = jstrs ss"
  by (simp_all add: decode_simps)

lemma distinct_keys_leaf [simp]: "distinct_keys (jopt g x)" "distinct_keys (jstrs ss)"
  by (auto simp: jopt_def jstrs_def list_all_iff split: option.splits)

lemma is_hex_lower: "is_hex c \<Longrightarrow> char_lower c = c"
proof -
  have "list_all (\<lambda>c. char_lower c = c) ''0123456789abcdef''" by code_simp
  then show "is_hex c \<Longrightarrow> char_lower c = c" by (auto simp: is_hex_def list_all_iff)
qed

lemma hex64_lower: "hex64 s \<Longrightarrow> py_lower s = s"
  by (auto simp: hex64_def py_lower_def list_all_iff is_hex_lower intro: map_idI)

lemma mk_content_object_iff [decode_simps]:
  "mk_content_object s n = Inr c \<longleftrightarrow> c = \<lparr>co_sha256 = s, co_byte_size = n\<rparr> \<and> wf_content c"
  using hex64_lower by (auto simp: mk_content_object_def wf_content_def)

lemma mk_content_eval: "wf_content c \<Longrightarrow> mk_content_object (co_sha256 c) (co_byte_size c) = Inr c"
  by (simp add: mk_content_object_iff)

lemma validate_logical_path_same: "validate_logical_path p = Inr q \<Longrightarrow> q = p"
  by (auto simp: validate_logical_path_def split: if_splits)

lemma canonical_ids:
  "assert_canonical_serialized_cik s = Inr t \<longleftrightarrow> t = s \<and> validate_cik s = Inr s"
  "assert_canonical_serialized_accession s = Inr t \<longleftrightarrow> t = s \<and> validate_accession s = Inr s"
  by (auto simp: assert_canonical_serialized_cik_def assert_canonical_serialized_accession_def res_bind_Inr_iff split: if_splits)

text \<open>The common step of the codecs: a decoder of objects only, compared with its dictionary field by field.\<close>

lemma codec_of_record:
  assumes "\<And>v x. decode v = Inr x \<Longrightarrow> \<exists>kvs. v = JObj kvs"
    and "distinct (map fst (encode x))"
    and "\<And>kvs. distinct_keys (JObj kvs) \<Longrightarrow> decode (JObj kvs) = Inr x \<longleftrightarrow>
      ok x \<and> fst ` set kvs = fst ` set (encode x) \<and>
      list_all (\<lambda>(k, w). \<exists>v. map_of kvs k = Some v \<and> sort_keys v = sort_keys w) (encode x)"
    and "distinct_keys v"
  shows "decode v = Inr x \<longleftrightarrow> ok x \<and> sort_keys v = sort_keys (JObj (encode x))"
proof (cases "\<exists>kvs. v = JObj kvs")
  case True
  then obtain kvs where v: "v = JObj kvs" by blast
  then have "distinct (map fst kvs)" using assms(4) by simp
  then show ?thesis using assms(3) [of kvs] sort_keys_record_iff [OF _ assms(2)] assms(4) v by simp
next
  case False
  then have "sort_keys v \<noteq> sort_keys (JObj (encode x))" by (cases v) simp_all
  then show ?thesis using assms(1) [of v x] False by blast
qed

lemma filing_decode:
  assumes "distinct_keys (JObj kvs)"
  shows "filing_from_dict (JObj kvs) = Inr f \<longleftrightarrow> wf_filing f \<and> fst ` set kvs = fst ` set (filing_to_dict f) \<and>
    list_all (\<lambda>(k, w). \<exists>v. map_of kvs k = Some v \<and> sort_keys v = sort_keys w) (filing_to_dict f)"
proof -
  have mk: "mk_filing_identity g = Inr f \<and> valid_date (fi_filing_date g) \<and>
      (\<forall>d. fi_report_period_end g = Some d \<longrightarrow> valid_date d) \<and> (\<forall>t. fi_accepted_at g = Some t \<longrightarrow> valid_datetime t) \<and>
      validate_cik (fi_cik g) = Inr (fi_cik g) \<and> validate_accession (fi_accession g) = Inr (fi_accession g) \<longleftrightarrow>
      f = g \<and> wf_filing g" for g
    by (cases "fi_accepted_at g")
       (auto simp: mk_filing_identity_def wf_filing_def res_bind_Inr_iff assert_cik_accession_consistent_def split: if_splits)
  have "filing_from_dict (JObj kvs) = Inr f \<longleftrightarrow> fst ` set kvs = fst ` set (filing_to_dict f) \<and> wf_filing f \<and>
      map_of kvs ''cik'' = Some (JStr (fi_cik f)) \<and> map_of kvs ''accession'' = Some (JStr (fi_accession f)) \<and>
      map_of kvs ''form_type'' = Some (JStr (fi_form_type f)) \<and> map_of kvs ''filing_date'' = Some (JStr (iso_date (fi_filing_date f))) \<and>
      map_of kvs ''accepted_at'' = Some (jopt isoformat (fi_accepted_at f)) \<and>
      map_of kvs ''report_period_end'' = Some (jopt iso_date (fi_report_period_end f)) \<and>
      map_of kvs ''primary_document'' = Some (JStr (fi_primary_document f))" (is "_ \<longleftrightarrow> ?r")
  proof
    assume "filing_from_dict (JObj kvs) = Inr f"
    then obtain cik acc form d t p prim where k: "fst ` set kvs = fst ` set (filing_to_dict f)"
        "map_of kvs ''cik'' = Some (JStr cik)" "map_of kvs ''accession'' = Some (JStr acc)" "map_of kvs ''form_type'' = Some (JStr form)"
        "map_of kvs ''filing_date'' = Some (JStr (iso_date d))" "map_of kvs ''accepted_at'' = Some (jopt isoformat t)"
        "map_of kvs ''report_period_end'' = Some (jopt iso_date p)" "map_of kvs ''primary_document'' = Some (JStr prim)"
        "validate_cik cik = Inr cik" "validate_accession acc = Inr acc" "valid_date d"
        "\<forall>y. t = Some y \<longrightarrow> valid_datetime y" "\<forall>y. p = Some y \<longrightarrow> valid_date y"
        "mk_filing_identity \<lparr>fi_cik = cik, fi_accession = acc, fi_form_type = form, fi_filing_date = d, fi_accepted_at = t,
           fi_report_period_end = p, fi_primary_document = prim\<rparr> = Inr f"
      by (auto simp: filing_from_dict_def filing_to_dict_def res_bind_Inr_iff decode_simps canonical_ids
          nullable_iff [OF require_date_iff] nullable_iff [OF require_datetime_iff])
    then show ?r using mk [of "\<lparr>fi_cik = cik, fi_accession = acc, fi_form_type = form, fi_filing_date = d, fi_accepted_at = t,
           fi_report_period_end = p, fi_primary_document = prim\<rparr>"] by auto
  next
    assume r: ?r
    then have "mk_filing_identity f = Inr f" "valid_date (fi_filing_date f)" "validate_cik (fi_cik f) = Inr (fi_cik f)"
      "validate_accession (fi_accession f) = Inr (fi_accession f)"
      "\<forall>d. fi_report_period_end f = Some d \<longrightarrow> valid_date d" "\<forall>t. fi_accepted_at f = Some t \<longrightarrow> valid_datetime t"
      using mk [of f] by auto
    then show "filing_from_dict (JObj kvs) = Inr f" using r
      by (cases f) (simp add: filing_from_dict_def filing_to_dict_def require_exact_keys_def with_field_eval
          assert_canonical_serialized_cik_def assert_canonical_serialized_accession_def)
  qed
  then show ?thesis by (auto simp: filing_to_dict_def decode_simps)
qed

interpretation filing_codec: strict_codec filing_from_dict filing_to_dict wf_filing
proof
  fix v f
  show "distinct_keys v \<Longrightarrow> filing_from_dict v = Inr f \<longleftrightarrow> wf_filing f \<and> sort_keys v = sort_keys (JObj (filing_to_dict f))"
    by (rule codec_of_record [OF _ _ filing_decode]) (auto simp: filing_from_dict_def filing_to_dict_def res_bind_Inr_iff decode_simps)
  show "distinct_keys (JObj (filing_to_dict f))" by (simp add: filing_to_dict_def)
qed

lemma mk_bundle_artifact_iff:
  "mk_bundle_artifact a = Inr b \<longleftrightarrow> b = a \<and> validate_logical_path (ba_logical_path a) = Inr (ba_logical_path a)"
proof (cases "validate_logical_path (ba_logical_path a)")
  case (Inr p)
  then have "p = ba_logical_path a" by (rule validate_logical_path_same)
  then show ?thesis using Inr by (auto simp: mk_bundle_artifact_def)
qed (simp add: mk_bundle_artifact_def)

lemma artifact_decode:
  assumes "distinct_keys (JObj kvs)"
  shows "artifact_from_dict (JObj kvs) = Inr a \<longleftrightarrow> wf_artifact a \<and> fst ` set kvs = fst ` set (artifact_to_dict a) \<and>
    list_all (\<lambda>(k, w). \<exists>v. map_of kvs k = Some v \<and> sort_keys v = sort_keys w) (artifact_to_dict a)"
proof
  assume "artifact_from_dict (JObj kvs) = Inr a"
  then obtain kind p sha n r where k: "fst ` set kvs = fst ` set (artifact_to_dict a)"
      "map_of kvs ''artifact_kind'' = Some (JStr kind)" "kind \<in> set ARTIFACT_KINDS" "map_of kvs ''logical_path'' = Some (JStr p)"
      "map_of kvs ''sha256'' = Some (JStr sha)" "map_of kvs ''byte_size'' = Some (JInt n)" "map_of kvs ''required'' = Some (JBool r)"
      "wf_content \<lparr>co_sha256 = sha, co_byte_size = n\<rparr>" "validate_logical_path p = Inr p"
      "a = \<lparr>ba_logical_path = p, ba_content = \<lparr>co_sha256 = sha, co_byte_size = n\<rparr>, ba_artifact_kind = kind, ba_required = r\<rparr>"
    by (auto simp: artifact_from_dict_def artifact_to_dict_def mk_bundle_artifact_iff res_bind_Inr_iff decode_simps
        split: if_splits)
  then show "wf_artifact a \<and> fst ` set kvs = fst ` set (artifact_to_dict a) \<and>
    list_all (\<lambda>(k, w). \<exists>v. map_of kvs k = Some v \<and> sort_keys v = sort_keys w) (artifact_to_dict a)"
    by (simp add: wf_artifact_def artifact_to_dict_def)
next
  assume "wf_artifact a \<and> fst ` set kvs = fst ` set (artifact_to_dict a) \<and>
    list_all (\<lambda>(k, w). \<exists>v. map_of kvs k = Some v \<and> sort_keys v = sort_keys w) (artifact_to_dict a)"
  then show "artifact_from_dict (JObj kvs) = Inr a"
    by (cases a) (simp add: artifact_from_dict_def artifact_to_dict_def wf_artifact_def mk_bundle_artifact_def
        require_exact_keys_def with_field_eval sort_keys_leaf mk_content_eval)
qed

interpretation artifact_codec: strict_codec artifact_from_dict artifact_to_dict wf_artifact
proof
  fix v a
  show "distinct_keys v \<Longrightarrow> artifact_from_dict v = Inr a \<longleftrightarrow> wf_artifact a \<and> sort_keys v = sort_keys (JObj (artifact_to_dict a))"
    by (rule codec_of_record [OF _ _ artifact_decode]) (auto simp: artifact_from_dict_def artifact_to_dict_def res_bind_Inr_iff decode_simps)
  show "distinct_keys (JObj (artifact_to_dict a))" by (simp add: artifact_to_dict_def)
qed

lemma mk_uri_binding_iff:
  "mk_uri_binding b = Inr c \<longleftrightarrow> c = b \<and> wf_binding b"
  using hex64_lower by (auto simp: mk_uri_binding_def wf_binding_def res_bind_Inr_iff Let_def dest: validate_logical_path_same split: if_splits)

lemma binding_decode:
  assumes "distinct_keys (JObj kvs)"
  shows "binding_from_dict (JObj kvs) = Inr b \<longleftrightarrow> wf_binding b \<and> fst ` set kvs = fst ` set (binding_to_dict b) \<and>
    list_all (\<lambda>(k, w). \<exists>v. map_of kvs k = Some v \<and> sort_keys v = sort_keys w) (binding_to_dict b)"
  by (cases b) (auto simp: binding_from_dict_def binding_to_dict_def res_bind_Inr_iff decode_simps mk_uri_binding_iff)

interpretation binding_codec: strict_codec binding_from_dict binding_to_dict wf_binding
proof
  fix v b
  show "distinct_keys v \<Longrightarrow> binding_from_dict v = Inr b \<longleftrightarrow> wf_binding b \<and> sort_keys v = sort_keys (JObj (binding_to_dict b))"
    by (rule codec_of_record [OF _ _ binding_decode]) (auto simp: binding_from_dict_def binding_to_dict_def res_bind_Inr_iff decode_simps)
  show "distinct_keys (JObj (binding_to_dict b))" by (simp add: binding_to_dict_def)
qed

lemma mk_report_input_iff: "mk_report_input r = Inr s \<longleftrightarrow> s = r \<and> wf_report_input r"
proof (cases r)
  case (InstanceReportInput uris)
  then show ?thesis by (cases uris rule: remdups_adj.cases) auto
qed auto

lemma report_input_decode:
  assumes "distinct_keys (JObj kvs)"
  shows "report_input_from_dict (JObj kvs) = Inr r \<longleftrightarrow> wf_report_input r \<and> fst ` set kvs = fst ` set (report_input_to_dict r) \<and>
    list_all (\<lambda>(k, w). \<exists>v. map_of kvs k = Some v \<and> sort_keys v = sort_keys w) (report_input_to_dict r)"
proof
  assume "report_input_from_dict (JObj kvs) = Inr r"
  then obtain kind where kind: "map_of kvs ''kind'' = Some (JStr kind)" and
      r: "(if kind = ''instance'' then
           res_bind (require_exact_keys kvs [''kind'', ''document_uris'']) (\<lambda>_.
           with_field kvs ''document_uris'' require_list_of_str (\<lambda>uris. mk_report_input (InstanceReportInput uris)))
         else if kind = ''ixds'' then
           res_bind (require_exact_keys kvs [''kind'', ''document_uris'', ''target'']) (\<lambda>_.
           with_field kvs ''document_uris'' require_list_of_str (\<lambda>uris.
           with_field kvs ''target'' require_str (\<lambda>target.
             if target \<noteq> ''default'' then Inl (BundleDecodeError ''unsupported IXDS target'')
             else mk_report_input (IxdsReportInput uris ''default''))))
         else Inl (BundleDecodeError ''unknown report input kind'')) = Inr r"
    by (simp add: report_input_from_dict_def with_field_iff require_leaf_iff split: if_splits)
  consider uris where "kind = ''instance''" "fst ` set kvs = {''kind'', ''document_uris''}"
      "map_of kvs ''document_uris'' = Some (jstrs uris)" "r = InstanceReportInput uris" "wf_report_input r"
    | uris where "kind = ''ixds''" "fst ` set kvs = {''kind'', ''document_uris'', ''target''}"
      "map_of kvs ''document_uris'' = Some (jstrs uris)" "map_of kvs ''target'' = Some (JStr ''default'')"
      "r = IxdsReportInput uris ''default''" "wf_report_input r"
    using r by (auto simp: res_bind_Inr_iff decode_simps mk_report_input_iff simp del: mk_report_input.simps wf_report_input.simps
        split: if_splits)
  then show "wf_report_input r \<and> fst ` set kvs = fst ` set (report_input_to_dict r) \<and>
    list_all (\<lambda>(k, w). \<exists>v. map_of kvs k = Some v \<and> sort_keys v = sort_keys w) (report_input_to_dict r)"
    using kind by cases simp_all
next
  assume "wf_report_input r \<and> fst ` set kvs = fst ` set (report_input_to_dict r) \<and>
    list_all (\<lambda>(k, w). \<exists>v. map_of kvs k = Some v \<and> sort_keys v = sort_keys w) (report_input_to_dict r)"
  moreover have "mk_report_input r = Inr r" if "wf_report_input r" using that by (simp add: mk_report_input_iff)
  ultimately show "report_input_from_dict (JObj kvs) = Inr r"
    by (cases r) (simp_all add: report_input_from_dict_def require_exact_keys_def with_field_eval decode_simps)
qed

interpretation report_input_codec: strict_codec report_input_from_dict report_input_to_dict wf_report_input
proof
  fix v r
  have d: "distinct (map fst (report_input_to_dict r))" by (cases r) simp_all
  have obj: "report_input_from_dict v = Inr x \<Longrightarrow> \<exists>kvs. v = JObj kvs" for v x
    by (cases v) (simp_all add: report_input_from_dict_def require_object_def)
  show "distinct_keys v \<Longrightarrow> report_input_from_dict v = Inr r \<longleftrightarrow>
      wf_report_input r \<and> sort_keys v = sort_keys (JObj (report_input_to_dict r))"
    by (rule codec_of_record [OF obj _ report_input_decode]) (use d in simp_all)
  show "distinct_keys (JObj (report_input_to_dict r))" by (cases r) simp_all
qed

lemma with_fieldE:
  assumes "with_field obj k f g = Inr y"
  obtains v x where "map_of obj k = Some v" and "f v = Inr x" and "g x = Inr y"
  using assms by (auto simp: with_field_iff)

lemma res_bindE:
  assumes "res_bind m f = Inr y"
  obtains x where "m = Inr x" and "f x = Inr y"
  using assms by (auto simp: res_bind_Inr_iff)

lemma res_ifE:
  assumes "(if c then Inl e else r) = Inr y"
  obtains "\<not> c" and "r = Inr y"
  using assms by (auto split: if_splits)

lemma distinct_keys_field:
  assumes "distinct_keys (JObj kvs)" and "map_of kvs k = Some v"
  shows "distinct_keys v"
  using assms map_of_SomeD [OF assms(2)] by (auto simp: list_all_iff)

lemma sort_keys_arr_iff: "sort_keys v = JArr ws \<longleftrightarrow> (\<exists>vs. v = JArr vs \<and> map sort_keys vs = ws)"
  by (cases v) auto

lemma mk_filing_bundle_iff:
  "mk_filing_bundle b = Inr c \<longleftrightarrow> c = b \<and> fb_schema_version b = 1 \<and> fb_report_inputs b \<noteq> [] \<and>
     distinct (map ba_logical_path (fb_artifacts b))"
  by (auto simp: mk_filing_bundle_def)

lemma bundle_decode:
  assumes K: "distinct_keys (JObj kvs)"
  shows "bundle_from_dict (JObj kvs) = Inr b \<longleftrightarrow> wf_bundle b \<and> fst ` set kvs = fst ` set (bundle_to_dict b) \<and>
    list_all (\<lambda>(k, w). \<exists>v. map_of kvs k = Some v \<and> sort_keys v = sort_keys w) (bundle_to_dict b)"
proof -
  have sub: "list_all distinct_keys vs" if "map_of kvs k = Some (JArr vs)" for k vs
    using distinct_keys_field [OF K that] by (simp add: list_all_iff)
  note lists = artifact_codec.decode_list_iff report_input_codec.decode_list_iff binding_codec.decode_list_iff
  have "bundle_from_dict (JObj kvs) = Inr b \<longleftrightarrow> fst ` set kvs = fst ` set (bundle_to_dict b) \<and>
      (\<exists>v as rs bs. map_of kvs ''schema_version'' = Some (JInt (fb_schema_version b)) \<and>
        map_of kvs ''payload_hash'' = Some (JStr (fb_payload_hash b)) \<and> hex64 (fb_payload_hash b) \<and>
        map_of kvs ''artifacts'' = Some (JArr as) \<and> map_of kvs ''report_inputs'' = Some (JArr rs) \<and>
        map_of kvs ''uri_bindings'' = Some (JArr bs) \<and>
        map_of kvs ''acquisition_policy_version'' = Some (JStr (fb_acquisition_policy_version b)) \<and>
        map_of kvs ''filing'' = Some v \<and> filing_from_dict v = Inr (fb_filing b) \<and>
        map_res artifact_from_dict as = Inr (fb_artifacts b) \<and> map_res report_input_from_dict rs = Inr (fb_report_inputs b) \<and>
        map_res binding_from_dict bs = Inr (fb_uri_bindings b) \<and> mk_filing_bundle b = Inr b)" (is "?l \<longleftrightarrow> ?r")
  proof
    assume ?l
    then obtain u v1 n v2 h v3 as v4 rs v5 bs v6 acq v f A R B where e:
        "require_exact_keys kvs [''schema_version'', ''acquisition_policy_version'', ''filing'', ''payload_hash'',
           ''artifacts'', ''report_inputs'', ''uri_bindings''] = Inr u"
        "map_of kvs ''schema_version'' = Some v1" "require_int v1 = Inr n" "map_of kvs ''payload_hash'' = Some v2" "require_str v2 = Inr h"
        "\<not> \<not> hex64 h" "map_of kvs ''artifacts'' = Some v3" "require_list v3 = Inr as" "map_of kvs ''report_inputs'' = Some v4"
        "require_list v4 = Inr rs" "map_of kvs ''uri_bindings'' = Some v5" "require_list v5 = Inr bs"
        "map_of kvs ''acquisition_policy_version'' = Some v6" "require_str v6 = Inr acq" "map_of kvs ''filing'' = Some v"
        "filing_from_dict v = Inr f" "map_res artifact_from_dict as = Inr A"
        "map_res report_input_from_dict rs = Inr R" "map_res binding_from_dict bs = Inr B"
        "mk_filing_bundle \<lparr>fb_filing = f, fb_payload_hash = h, fb_artifacts = A, fb_report_inputs = R, fb_uri_bindings = B,
          fb_schema_version = n, fb_acquisition_policy_version = acq\<rparr> = Inr b"
      unfolding bundle_from_dict_def require_object_def json.case res_bind.simps
      apply -
      by (erule res_bindE, erule with_fieldE, erule with_fieldE, erule res_ifE, erule with_fieldE, erule with_fieldE,
          erule with_fieldE, erule with_fieldE, erule with_fieldE, erule res_bindE, erule res_bindE, erule res_bindE,
          rule that, assumption+)
    have r: "fst ` set kvs = fst ` set (bundle_to_dict b)"
        "map_of kvs ''schema_version'' = Some (JInt n)" "map_of kvs ''payload_hash'' = Some (JStr h)" "hex64 h"
        "map_of kvs ''artifacts'' = Some (JArr as)" "map_of kvs ''report_inputs'' = Some (JArr rs)"
        "map_of kvs ''uri_bindings'' = Some (JArr bs)" "map_of kvs ''acquisition_policy_version'' = Some (JStr acq)"
      using e by (simp_all add: require_leaf_iff require_exact_keys_iff bundle_to_dict_def)
    have "b = \<lparr>fb_filing = f, fb_payload_hash = h, fb_artifacts = A, fb_report_inputs = R, fb_uri_bindings = B,
          fb_schema_version = n, fb_acquisition_policy_version = acq\<rparr>"
      using e(20) by (simp add: mk_filing_bundle_iff)
    then show ?r using r e(15-20) by simp
  next
    assume ?r
    then obtain v as rs bs where r: "fst ` set kvs = fst ` set (bundle_to_dict b)"
        "map_of kvs ''schema_version'' = Some (JInt (fb_schema_version b))"
        "map_of kvs ''payload_hash'' = Some (JStr (fb_payload_hash b))" "hex64 (fb_payload_hash b)"
        "map_of kvs ''artifacts'' = Some (JArr as)" "map_of kvs ''report_inputs'' = Some (JArr rs)"
        "map_of kvs ''uri_bindings'' = Some (JArr bs)"
        "map_of kvs ''acquisition_policy_version'' = Some (JStr (fb_acquisition_policy_version b))"
        "map_of kvs ''filing'' = Some v" "filing_from_dict v = Inr (fb_filing b)"
        "map_res artifact_from_dict as = Inr (fb_artifacts b)" "map_res report_input_from_dict rs = Inr (fb_report_inputs b)"
        "map_res binding_from_dict bs = Inr (fb_uri_bindings b)" "mk_filing_bundle b = Inr b" by blast
    have "require_exact_keys kvs [''schema_version'', ''acquisition_policy_version'', ''filing'', ''payload_hash'',
           ''artifacts'', ''report_inputs'', ''uri_bindings''] = Inr ()"
      using r(1) by (simp add: require_exact_keys_iff bundle_to_dict_def)
    then show ?l using r(2-) by (cases b) (simp add: bundle_from_dict_def with_field_eval)
  qed
  also have "\<dots> \<longleftrightarrow> wf_bundle b \<and> fst ` set kvs = fst ` set (bundle_to_dict b) \<and>
    list_all (\<lambda>(k, w). \<exists>v. map_of kvs k = Some v \<and> sort_keys v = sort_keys w) (bundle_to_dict b)" (is "?r \<longleftrightarrow> ?s")
  proof
    assume ?r
    then obtain v as rs bs where r: "fst ` set kvs = fst ` set (bundle_to_dict b)"
        "map_of kvs ''schema_version'' = Some (JInt (fb_schema_version b))"
        "map_of kvs ''payload_hash'' = Some (JStr (fb_payload_hash b))" "hex64 (fb_payload_hash b)"
        "map_of kvs ''artifacts'' = Some (JArr as)" "map_of kvs ''report_inputs'' = Some (JArr rs)"
        "map_of kvs ''uri_bindings'' = Some (JArr bs)"
        "map_of kvs ''acquisition_policy_version'' = Some (JStr (fb_acquisition_policy_version b))"
        "map_of kvs ''filing'' = Some v" "filing_from_dict v = Inr (fb_filing b)"
        "map_res artifact_from_dict as = Inr (fb_artifacts b)" "map_res report_input_from_dict rs = Inr (fb_report_inputs b)"
        "map_res binding_from_dict bs = Inr (fb_uri_bindings b)" "mk_filing_bundle b = Inr b" by blast
    note f = filing_codec.decode_iff [OF distinct_keys_field [OF K r(9)]]
    show ?s
      using r f lists(1) [OF sub [OF r(5)]] lists(2) [OF sub [OF r(6)]] lists(3) [OF sub [OF r(7)]]
      by (simp add: wf_bundle_def bundle_to_dict_def mk_filing_bundle_iff o_def del: sort_keys.simps(6))
  next
    assume s: ?s
    then obtain v as rs bs where r: "map_of kvs ''artifacts'' = Some (JArr as)"
        "map sort_keys as = map (\<lambda>a. sort_keys (JObj (artifact_to_dict a))) (fb_artifacts b)"
        "map_of kvs ''report_inputs'' = Some (JArr rs)"
        "map sort_keys rs = map (\<lambda>a. sort_keys (JObj (report_input_to_dict a))) (fb_report_inputs b)"
        "map_of kvs ''uri_bindings'' = Some (JArr bs)"
        "map sort_keys bs = map (\<lambda>a. sort_keys (JObj (binding_to_dict a))) (fb_uri_bindings b)"
        "map_of kvs ''filing'' = Some v" "sort_keys v = sort_keys (JObj (filing_to_dict (fb_filing b)))"
      by (auto simp: bundle_to_dict_def o_def sort_keys_arr_iff simp del: sort_keys.simps(6))
    note f = filing_codec.decode_iff [OF distinct_keys_field [OF K r(7)]]
    show ?r
      using s r f lists(1) [OF sub [OF r(1)]] lists(2) [OF sub [OF r(3)]] lists(3) [OF sub [OF r(5)]]
      by (simp add: wf_bundle_def bundle_to_dict_def mk_filing_bundle_iff sort_keys_leaf del: sort_keys.simps(6))
  qed
  finally show ?thesis .
qed

interpretation bundle_codec: strict_codec bundle_from_dict bundle_to_dict wf_bundle
proof
  fix v b
  have obj: "bundle_from_dict v = Inr x \<Longrightarrow> \<exists>kvs. v = JObj kvs" for v x
    by (cases v) (simp_all add: bundle_from_dict_def require_object_def)
  show "distinct_keys v \<Longrightarrow> bundle_from_dict v = Inr b \<longleftrightarrow> wf_bundle b \<and> sort_keys v = sort_keys (JObj (bundle_to_dict b))"
    by (rule codec_of_record [OF obj _ bundle_decode]) (simp_all add: bundle_to_dict_def)
  show "distinct_keys (JObj (bundle_to_dict b))"
    using filing_codec.encode_distinct [of "fb_filing b"] artifact_codec.encode_list_distinct [of "fb_artifacts b"]
      report_input_codec.encode_list_distinct [of "fb_report_inputs b"] binding_codec.encode_list_distinct [of "fb_uri_bindings b"]
    by (simp add: bundle_to_dict_def)
qed

section \<open>Evidence identity\<close>

text \<open>
  The declarative reading of \<^verbatim>\<open>bundle_equality_state\<close>: the order of artifacts, bindings and aliases and the
  offset in which the acceptance time is written do not count, everything else does.
\<close>

definition same_filing :: "filing_identity \<Rightarrow> filing_identity \<Rightarrow> bool" where
  "same_filing f g =
     (fi_cik f = fi_cik g \<and> fi_accession f = fi_accession g \<and> fi_form_type f = fi_form_type g \<and>
      fi_filing_date f = fi_filing_date g \<and> fi_report_period_end f = fi_report_period_end g \<and>
      fi_primary_document f = fi_primary_document g \<and>
      map_option instant (fi_accepted_at f) = map_option instant (fi_accepted_at g))"

definition binding_evidence :: "uri_binding \<Rightarrow> string \<times> string \<times> string \<times> string set" where
  "binding_evidence b = (ub_document_uri b, ub_artifact_path b, ub_content_sha256 b, set (ub_replay_aliases b))"

definition same_evidence :: "filing_bundle \<Rightarrow> filing_bundle \<Rightarrow> bool" where
  "same_evidence l r =
     (fb_acquisition_policy_version l = fb_acquisition_policy_version r \<and> fb_schema_version l = fb_schema_version r \<and>
      same_filing (fb_filing l) (fb_filing r) \<and> fb_payload_hash l = fb_payload_hash r \<and>
      set (fb_artifacts l) = set (fb_artifacts r) \<and> fb_report_inputs l = fb_report_inputs r \<and>
      binding_evidence ` set (fb_uri_bindings l) = binding_evidence ` set (fb_uri_bindings r))"

definition sorted_binding :: "uri_binding \<Rightarrow> uri_binding" where
  "sorted_binding b = b\<lparr>ub_replay_aliases := sort (ub_replay_aliases b)\<rparr>"

text \<open>The acceptance time of the equality state.\<close>

definition accepted_state :: "filing_identity \<Rightarrow> json res" where
  "accepted_state f = (case fi_accepted_at f of None \<Rightarrow> Inr JNull | Some t \<Rightarrow> res_bind (utc_text t) (\<lambda>s. Inr (JStr s)))"

definition state_with :: "filing_bundle \<Rightarrow> json \<Rightarrow> (string \<times> json) list" where
  "state_with b accepted =
     [(''schema_version'', JInt (fb_schema_version b)),
      (''acquisition_policy_version'', JStr (fb_acquisition_policy_version b)),
      (''filing'', JObj (map (\<lambda>(k, v). (k, if k = ''accepted_at'' then accepted else v)) (filing_to_dict (fb_filing b)))),
      (''payload_hash'', JStr (fb_payload_hash b)),
      (''artifacts'', JArr (map (\<lambda>a. JObj (artifact_to_dict a)) (sort_key ba_logical_path (fb_artifacts b)))),
      (''report_inputs'', JArr (map (\<lambda>r. JObj (report_input_to_dict r)) (fb_report_inputs b))),
      (''uri_bindings'', JArr (map (\<lambda>u. JObj (binding_to_dict u)) (map sorted_binding (sort_key ub_document_uri (fb_uri_bindings b)))))]"

lemma equality_state_eq:
  "bundle_equality_state b = Inr s \<longleftrightarrow> (\<exists>j. accepted_state (fb_filing b) = Inr j \<and> s = JObj (state_with b j))"
  by (auto simp: bundle_equality_state_def accepted_state_def state_with_def sorted_binding_def o_def res_bind_Inr_iff)

lemma accepted_state_iff:
  assumes "wf_filing f" and "wf_filing g" and "accepted_state f = Inr i" and "accepted_state g = Inr j"
  shows "i = j \<longleftrightarrow> map_option instant (fi_accepted_at f) = map_option instant (fi_accepted_at g)"
proof (cases "fi_accepted_at f = None \<or> fi_accepted_at g = None")
  case True
  then show ?thesis using assms(3,4) by (auto simp: accepted_state_def res_bind_Inr_iff split: option.splits)
next
  case False
  then obtain s t where st: "fi_accepted_at f = Some s" "fi_accepted_at g = Some t" by auto
  then obtain y z s' t' where "valid_datetime s" "dt_offset s = Some y" "astimezone_utc s y = Some s'" "i = JStr (isoformat s')"
      "valid_datetime t" "dt_offset t = Some z" "astimezone_utc t z = Some t'" "j = JStr (isoformat t')"
    using assms by (auto simp: wf_filing_def accepted_state_def utc_text_def res_bind_Inr_iff split: option.splits)
  then show ?thesis using utc_text_iff [of s y s' t z t'] st by simp
qed

lemma accepted_state_leaf: "accepted_state f = Inr j \<Longrightarrow> sort_keys v = j \<longleftrightarrow> v = j"
  by (auto simp: accepted_state_def decode_simps res_bind_Inr_iff split: option.splits)

lemma sort_distinct_iff:
  fixes xs :: "'a :: linorder list"
  assumes "distinct xs" and "distinct ys"
  shows "sort xs = sort ys \<longleftrightarrow> set xs = set ys"
proof
  assume "sort xs = sort ys"
  then show "set xs = set ys" by (metis set_sort)
next
  assume "set xs = set ys"
  then show "sort xs = sort ys" using assms by (intro sorted_distinct_set_unique) simp_all
qed

lemma sorted_binding_evidence:
  "wf_binding a \<Longrightarrow> wf_binding b \<Longrightarrow> sorted_binding a = sorted_binding b \<longleftrightarrow> binding_evidence a = binding_evidence b"
  by (cases a; cases b) (simp add: wf_binding_def sorted_binding_def binding_evidence_def sort_distinct_iff)

lemma wf_sorted_binding: "wf_binding b \<Longrightarrow> wf_binding (sorted_binding b)"
  by (simp add: wf_binding_def sorted_binding_def)

lemma sort_keyed_iff:
  fixes f :: "'a \<Rightarrow> 'b :: linorder"
  assumes "distinct (map f xs)" and "distinct (map f ys)"
  shows "sort_key f xs = sort_key f ys \<longleftrightarrow> set xs = set ys"
  using sort_key_set_eq [OF assms] by (metis set_sort)

lemma image_eq_iff_of_eq:
  assumes "\<And>a b. a \<in> A \<Longrightarrow> b \<in> B \<Longrightarrow> f a = f b \<longleftrightarrow> g a = g b"
  shows "f ` A = f ` B \<longleftrightarrow> g ` A = g ` B"
proof -
  have sub: "h ` C \<subseteq> h ` D \<longleftrightarrow> (\<forall>c\<in>C. \<exists>d\<in>D. h c = h d)" for h :: "'x \<Rightarrow> 'y" and C D
    by (simp add: image_subset_iff image_iff)
  have "(\<forall>a\<in>A. \<exists>b\<in>B. f a = f b) \<longleftrightarrow> (\<forall>a\<in>A. \<exists>b\<in>B. g a = g b)" "(\<forall>b\<in>B. \<exists>a\<in>A. f b = f a) \<longleftrightarrow> (\<forall>b\<in>B. \<exists>a\<in>A. g b = g a)"
    using assms by (metis, metis)
  then show ?thesis unfolding set_eq_subset sub by blast
qed

text \<open>The bindings of the state, for bindings with distinct URIs: their evidence is compared as a set.\<close>

lemma sorted_bindings_iff:
  assumes "list_all wf_binding xs" "list_all wf_binding ys"
    and "distinct (map ub_document_uri xs)" "distinct (map ub_document_uri ys)"
  shows "map sorted_binding (sort_key ub_document_uri xs) = map sorted_binding (sort_key ub_document_uri ys) \<longleftrightarrow>
    binding_evidence ` set xs = binding_evidence ` set ys"
proof -
  have push: "map sorted_binding (sort_key ub_document_uri zs) = sort_key ub_document_uri (map sorted_binding zs)" for zs
  proof -
    have "map sorted_binding (insort_key ub_document_uri b bs) = insort_key ub_document_uri (sorted_binding b) (map sorted_binding bs)" for b bs
      by (induction bs) (simp_all add: sorted_binding_def)
    then show ?thesis by (induction zs) simp_all
  qed
  have d: "distinct (map ub_document_uri (map sorted_binding zs)) = distinct (map ub_document_uri zs)" for zs
    by (simp add: sorted_binding_def o_def)
  have "map sorted_binding (sort_key ub_document_uri xs) = map sorted_binding (sort_key ub_document_uri ys) \<longleftrightarrow>
      sorted_binding ` set xs = sorted_binding ` set ys"
    using sort_keyed_iff [of ub_document_uri "map sorted_binding xs" "map sorted_binding ys"] assms(3,4) d
    by (simp add: push)
  also have "\<dots> \<longleftrightarrow> binding_evidence ` set xs = binding_evidence ` set ys"
  proof -
    have "wf_binding a" "wf_binding b" if "a \<in> set xs" "b \<in> set ys" for a b
      using assms(1,2) that by (simp_all add: list_all_iff)
    then show ?thesis by (intro image_eq_iff_of_eq sorted_binding_evidence)
  qed
  finally show ?thesis .
qed

lemma state_with_iff:
  assumes wf: "wf_bundle l" "wf_bundle r"
    and acc: "accepted_state (fb_filing l) = Inr i" "accepted_state (fb_filing r) = Inr j"
    and uris: "distinct (map ub_document_uri (fb_uri_bindings l))" "distinct (map ub_document_uri (fb_uri_bindings r))"
  shows "(same_evidence l r \<longrightarrow> state_with l i = state_with r j) \<and>
    (sort_keys (JObj (state_with l i)) = sort_keys (JObj (state_with r j)) \<longrightarrow> same_evidence l r)"
proof -
  note W = wf [unfolded wf_bundle_def]
  have a: "i = j \<longleftrightarrow> map_option instant (fi_accepted_at (fb_filing l)) = map_option instant (fi_accepted_at (fb_filing r))"
    using accepted_state_iff W acc by blast
  have arts: "sort_key ba_logical_path (fb_artifacts l) = sort_key ba_logical_path (fb_artifacts r) \<longleftrightarrow>
      set (fb_artifacts l) = set (fb_artifacts r)"
    using W by (intro sort_keyed_iff) simp_all
  have binds: "map sorted_binding (sort_key ub_document_uri (fb_uri_bindings l)) = map sorted_binding (sort_key ub_document_uri (fb_uri_bindings r)) \<longleftrightarrow>
      binding_evidence ` set (fb_uri_bindings l) = binding_evidence ` set (fb_uri_bindings r)"
    using W uris by (intro sorted_bindings_iff) simp_all
  have "state_with l i = state_with r j" if "same_evidence l r"
    using that a arts binds
    by (simp add: same_evidence_def same_filing_def state_with_def filing_to_dict_def)
  moreover have "same_evidence l r" if s: "sort_keys (JObj (state_with l i)) = sort_keys (JObj (state_with r j))"
  proof -
    define F where "F b k = JObj (map (\<lambda>(k', v). (k', if k' = ''accepted_at'' then k else v)) (filing_to_dict (fb_filing b)))" for b :: filing_bundle and k
    have "list_all (\<lambda>(k, w). \<exists>v. map_of (state_with l i) k = Some v \<and> sort_keys v = sort_keys w) (state_with r j)"
      using s sort_keys_record_iff [of "state_with l i" "state_with r j"] by (simp add: state_with_def)
    then have f: "fb_schema_version l = fb_schema_version r" "fb_acquisition_policy_version l = fb_acquisition_policy_version r"
        "sort_keys (F l i) = sort_keys (F r j)" "fb_payload_hash l = fb_payload_hash r"
        "map (\<lambda>x. sort_keys (JObj (artifact_to_dict x))) (sort_key ba_logical_path (fb_artifacts l)) =
         map (\<lambda>x. sort_keys (JObj (artifact_to_dict x))) (sort_key ba_logical_path (fb_artifacts r))"
        "map (\<lambda>x. sort_keys (JObj (report_input_to_dict x))) (fb_report_inputs l) =
         map (\<lambda>x. sort_keys (JObj (report_input_to_dict x))) (fb_report_inputs r)"
        "map (\<lambda>x. sort_keys (JObj (binding_to_dict x))) (map sorted_binding (sort_key ub_document_uri (fb_uri_bindings l))) =
         map (\<lambda>x. sort_keys (JObj (binding_to_dict x))) (map sorted_binding (sort_key ub_document_uri (fb_uri_bindings r)))"
      by (simp_all add: state_with_def F_def o_def del: sort_keys.simps(6))
    have "list_all (\<lambda>(k, w). \<exists>v. map_of (map (\<lambda>(k', v). (k', if k' = ''accepted_at'' then i else v)) (filing_to_dict (fb_filing l))) k = Some v \<and>
        sort_keys v = sort_keys w) (map (\<lambda>(k', v). (k', if k' = ''accepted_at'' then j else v)) (filing_to_dict (fb_filing r)))"
      using f(3) unfolding F_def by (subst (asm) sort_keys_record_iff) (simp_all add: filing_to_dict_def)
    then have "fi_cik (fb_filing l) = fi_cik (fb_filing r)" "fi_accession (fb_filing l) = fi_accession (fb_filing r)"
        "fi_form_type (fb_filing l) = fi_form_type (fb_filing r)" "iso_date (fi_filing_date (fb_filing l)) = iso_date (fi_filing_date (fb_filing r))"
        "sort_keys i = sort_keys j" "jopt iso_date (fi_report_period_end (fb_filing l)) = jopt iso_date (fi_report_period_end (fb_filing r))"
        "fi_primary_document (fb_filing l) = fi_primary_document (fb_filing r)"
      by (simp_all add: filing_to_dict_def)
    moreover have "i = j" using calculation(5) accepted_state_leaf [OF acc(1)] accepted_state_leaf [OF acc(2)] by metis
    moreover have "fi_filing_date (fb_filing l) = fi_filing_date (fb_filing r)"
      using calculation(4) W iso_date_inject by (auto simp: wf_filing_def)
    moreover have "fi_report_period_end (fb_filing l) = fi_report_period_end (fb_filing r)"
      using calculation(6) W iso_date_inject by (auto simp: wf_filing_def jopt_def split: option.splits)
    ultimately have "same_filing (fb_filing l) (fb_filing r)" using a by (simp add: same_filing_def)
    moreover have "sort_key ba_logical_path (fb_artifacts l) = sort_key ba_logical_path (fb_artifacts r)"
      by (rule artifact_codec.encode_list_inject [OF _ _ f(5)]) (use W in \<open>simp_all add: list_all_iff\<close>)
    moreover have "fb_report_inputs l = fb_report_inputs r"
      by (rule report_input_codec.encode_list_inject [OF _ _ f(6)]) (use W in simp_all)
    moreover have "map sorted_binding (sort_key ub_document_uri (fb_uri_bindings l)) = map sorted_binding (sort_key ub_document_uri (fb_uri_bindings r))"
      by (rule binding_codec.encode_list_inject [OF _ _ f(7)]) (use W wf_sorted_binding in \<open>auto simp: list_all_iff\<close>)
    ultimately show ?thesis using f(1,2,4) arts binds by (simp add: same_evidence_def)
  qed
  ultimately show ?thesis by blast
qed

section \<open>Properties\<close>

text \<open>
  Property C36: descriptors are decoded strictly and without loss.  A JSON document decodes to a bundle
  exactly when the bundle is well formed (canonical identifiers, dates and paths, known kinds, distinct
  paths, a report input) and the document is byte for byte its canonical serialisation up to key order;
  in particular a well-formed bundle is read back from its dictionary, and no descriptor is repaired.
\<close>

theorem bundle_descriptor_exact:
  assumes "distinct_keys v"
  shows "bundle_from_dict v = Inr b \<longleftrightarrow>
    wf_bundle b \<and> canonical_json_bytes v = canonical_json_bytes (JObj (bundle_to_dict b))"
  using bundle_codec.decode_iff [OF assms] by simp

definition example_filing :: "int \<Rightarrow> nat \<Rightarrow> filing_identity" where
  "example_filing z us = \<lparr>fi_cik = ''0000000042'', fi_accession = ''0000000042-24-000001'', fi_form_type = ''10-K'',
     fi_filing_date = Date 2024 2 29, fi_accepted_at = Some \<lparr>dt_date = Date 2024 2 29, dt_us = us, dt_offset = Some z\<rparr>,
     fi_report_period_end = None, fi_primary_document = ''a.htm''\<rparr>"

definition example_bundle :: "int \<Rightarrow> nat \<Rightarrow> bundle_artifact list \<Rightarrow> filing_bundle" where
  "example_bundle z us arts = \<lparr>fb_filing = example_filing z us, fb_payload_hash = replicate 64 CHR ''0'', fb_artifacts = arts,
     fb_report_inputs = [InstanceReportInput [''http://h/a'']], fb_uri_bindings = [], fb_schema_version = 1,
     fb_acquisition_policy_version = ''acq-v1''\<rparr>"

definition example_artifact :: "string \<Rightarrow> bundle_artifact" where
  "example_artifact path = \<lparr>ba_logical_path = path, ba_content = \<lparr>co_sha256 = replicate 64 CHR ''a'', co_byte_size = 3\<rparr>,
     ba_artifact_kind = ''other'', ba_required = True\<rparr>"

lemma example_hex: "hex64 (replicate 64 CHR ''0'')" "hex64 (replicate 64 CHR ''a'')"
  by (simp_all add: hex64_def is_hex_def list_all_iff)

lemma example_ids:
  "validate_cik ''0000000042'' = Inr ''0000000042''" "validate_accession ''0000000042-24-000001'' = Inr ''0000000042-24-000001''"
  "before_first CHR ''-'' ''0000000042-24-000001'' = ''0000000042''" "''10-K'' \<in> set SUPPORTED_FORMS"
  "''other'' \<in> set ARTIFACT_KINDS" "validate_logical_path ''a'' = Inr ''a''" "validate_logical_path ''b'' = Inr ''b''"
  by code_simp+

lemma example_wf:
  assumes "us < day_us" and "\<bar>z\<bar> < int day_us" and "set arts \<subseteq> {example_artifact ''a'', example_artifact ''b''}"
    and "distinct (map ba_logical_path arts)"
  shows "wf_bundle (example_bundle z us arts)"
  using assms example_ids example_hex
  by (auto simp: wf_bundle_def example_bundle_def wf_filing_def example_filing_def valid_date_def days_in_month_def is_leap_def
      valid_datetime_def backslash_def example_artifact_def wf_artifact_def wf_content_def list_all_iff)

theorem bundle_descriptor_exact_witness:
  "bundle_from_dict (JObj (bundle_to_dict (example_bundle 0 5 [example_artifact ''b'', example_artifact ''a'']))) =
     Inr (example_bundle 0 5 [example_artifact ''b'', example_artifact ''a''])"
proof -
  have "wf_bundle (example_bundle 0 5 [example_artifact ''b'', example_artifact ''a''])"
    by (rule example_wf) (simp_all add: day_us_def example_artifact_def)
  then show ?thesis
    using bundle_descriptor_exact [OF bundle_codec.encode_distinct [of "example_bundle 0 5 [example_artifact ''b'', example_artifact ''a'']"]]
    by blast
qed

text \<open>
  Property C22: the fingerprint identifies the evidence.  For well-formed bundles with distinct binding
  URIs and a collision-free digest, two fingerprints agree exactly when the bundles hold the same
  evidence: artifacts and bindings as sets, aliases as sets, the acceptance time as an instant of UTC,
  everything else literally; and the equivalence test decides the same relation.
\<close>

theorem bundle_fingerprint_iff:
  assumes "inj sha" and "wf_bundle l" and "wf_bundle r"
    and "distinct (map ub_document_uri (fb_uri_bindings l))" and "distinct (map ub_document_uri (fb_uri_bindings r))"
    and "bundle_fingerprint sha l = Inr x" and "bundle_fingerprint sha r = Inr y"
  shows "(x = y \<longleftrightarrow> same_evidence l r) \<and> bundles_equivalent l r = Inr (same_evidence l r)"
proof -
  obtain i j where acc: "accepted_state (fb_filing l) = Inr i" "accepted_state (fb_filing r) = Inr j"
      and x: "x = sha (canonical_json_bytes (JObj (state_with l i)))" and y: "y = sha (canonical_json_bytes (JObj (state_with r j)))"
    using assms(6,7) by (auto simp: bundle_fingerprint_def res_bind_Inr_iff equality_state_eq)
  note S = state_with_iff [OF assms(2,3) acc assms(4,5)]
  have "bundle_equality_state l = Inr (JObj (state_with l i))" "bundle_equality_state r = Inr (JObj (state_with r j))"
    using acc equality_state_eq by blast+
  then have "bundles_equivalent l r = Inr (JObj (state_with l i) = JObj (state_with r j))"
    by (simp add: bundles_equivalent_def)
  moreover have "state_with l i = state_with r j \<longleftrightarrow> same_evidence l r" using S by metis
  moreover have "x = y \<longleftrightarrow> same_evidence l r"
    using S assms(1) x y by (metis canonical_json_inject inj_eq)
  ultimately show ?thesis by simp
qed

definition example_utc :: json where
  "example_utc = JStr (isoformat \<lparr>dt_date = Date 2024 2 29, dt_us = 5, dt_offset = Some 0\<rparr>)"

lemma example_accepted:
  "accepted_state (example_filing 3600000000 3600000005) = Inr example_utc"
  "accepted_state (example_filing 0 5) = Inr example_utc"
  by (simp_all add: accepted_state_def example_filing_def utc_text_def astimezone_utc_def day_us_def example_utc_def)

theorem bundle_fingerprint_iff_witness:
  "bundles_equivalent (example_bundle 3600000000 3600000005 [example_artifact ''b'', example_artifact ''a''])
     (example_bundle 0 5 [example_artifact ''a'', example_artifact ''b'']) = Inr True"
proof -
  let ?l = "example_bundle 3600000000 3600000005 [example_artifact ''b'', example_artifact ''a'']"
  let ?r = "example_bundle 0 5 [example_artifact ''a'', example_artifact ''b'']"
  have wf: "wf_bundle ?l" "wf_bundle ?r" by (rule example_wf; simp add: day_us_def example_artifact_def)+
  have d: "distinct (map ub_document_uri (fb_uri_bindings ?l))" "distinct (map ub_document_uri (fb_uri_bindings ?r))"
    by (simp_all add: example_bundle_def)
  have "bundle_equality_state ?l = Inr (JObj (state_with ?l example_utc))"
    "bundle_equality_state ?r = Inr (JObj (state_with ?r example_utc))"
    using example_accepted by (simp_all add: equality_state_eq example_bundle_def)
  then have "bundle_fingerprint id ?l = Inr (id (canonical_json_bytes (JObj (state_with ?l example_utc))))"
    "bundle_fingerprint id ?r = Inr (id (canonical_json_bytes (JObj (state_with ?r example_utc))))"
    by (simp_all add: bundle_fingerprint_def)
  from bundle_fingerprint_iff [OF inj_on_id wf d this]
  have "bundles_equivalent ?l ?r = Inr (same_evidence ?l ?r)" by blast
  moreover have "same_evidence ?l ?r"
    by (auto simp: same_evidence_def example_bundle_def same_filing_def example_filing_def instant_def)
  ultimately show ?thesis by simp
qed

end
