(* ===== verification/Uri.thy ===== *)
theory Uri
  imports Urlsplit Json
begin

text \<open>
  URI identity (\<^verbatim>\<open>domain/uri.py\<close>, version \<^verbatim>\<open>uri-identity-v1\<close>): the normal form of an absolute URI and
  the check that a serialised binding URI already is in it.

  The loops of the code are kept: \<open>decode_unreserved\<close> walks over the text three characters at an
  escape, \<open>remove_dots\<close> consumes the input buffer of RFC 3986, section 5.2.4.  The lemmas compare the
  buffer loop with a stack of segments and describe the normal forms, which are exactly the accepted
  binding URIs among those whose escapes are well formed.
\<close>

section \<open>Percent escapes\<close>

definition is_unreserved :: "char \<Rightarrow> bool" where
  "is_unreserved c = (is_alpha c \<or> is_digit c \<or> c \<in> set ''-._~'')"

definition hex_digit_val :: "char \<Rightarrow> nat" where
  "hex_digit_val c = (if is_digit c then of_char c - 48 else of_char (char_upper c) - 55)"

definition escaped_char :: "char \<Rightarrow> char \<Rightarrow> char" where
  "escaped_char a b = char_of (16 * hex_digit_val a + hex_digit_val b)"

fun uppercase_percent_escapes :: "string \<Rightarrow> string" where
  "uppercase_percent_escapes (c # a # b # s) =
     (if c = CHR ''%'' \<and> is_hex_digit a \<and> is_hex_digit b
      then c # char_upper a # char_upper b # uppercase_percent_escapes s
      else c # uppercase_percent_escapes (a # b # s))"
| "uppercase_percent_escapes s = s"

fun decode_unreserved :: "string \<Rightarrow> string" where
  "decode_unreserved (c # a # b # s) =
     (if c = CHR ''%''
      then (if is_hex_digit a \<and> is_hex_digit b \<and> is_unreserved (escaped_char a b)
            then escaped_char a b # decode_unreserved s
            else c # char_upper a # char_upper b # decode_unreserved s)
      else c # decode_unreserved (a # b # s))"
| "decode_unreserved s = s"

definition normalize_component :: "string \<Rightarrow> string" where
  "normalize_component s = decode_unreserved (uppercase_percent_escapes s)"

section \<open>Dot segments\<close>

text \<open>The segment at the front of the buffer, with its leading slash.\<close>

definition first_segment :: "string \<Rightarrow> string" where
  "first_segment buf =
     (if startswith buf ''/'' then CHR ''/'' # before_first CHR ''/'' (drop 1 buf) else before_first CHR ''/'' buf)"

lemma startswith_length: "startswith s p \<Longrightarrow> length p \<le> length s"
  by (auto simp: startswith_iff)

lemma before_first_Nil_iff: "before_first c s = [] \<longleftrightarrow> s = [] \<or> hd s = c"
  by (cases s) (auto simp: before_first_def)

lemma first_segment_Nil_iff [simp]: "first_segment buf = [] \<longleftrightarrow> buf = []"
  by (cases buf) (auto simp: first_segment_def startswith_def before_first_Nil_iff)

function remove_dots :: "string \<Rightarrow> string list \<Rightarrow> string list" where
  "remove_dots buf out =
     (if buf = [] then out
      else if startswith buf ''../'' then remove_dots (drop 3 buf) out
      else if startswith buf ''./'' then remove_dots (drop 2 buf) out
      else if startswith buf ''/./'' then remove_dots (CHR ''/'' # drop 3 buf) out
      else if buf = ''/.'' then remove_dots ''/'' out
      else if startswith buf ''/../'' then remove_dots (CHR ''/'' # drop 4 buf) (butlast out)
      else if buf = ''/..'' then remove_dots ''/'' (butlast out)
      else if buf = ''.'' \<or> buf = ''..'' then remove_dots [] out
      else remove_dots (drop (length (first_segment buf)) buf) (out @ [first_segment buf]))"
  by pat_completeness auto

termination remove_dots
  by (relation "measure (length \<circ> fst)") (auto dest: startswith_length)

declare remove_dots.simps [simp del]

definition remove_dot_segments :: "string \<Rightarrow> string" where
  "remove_dot_segments path = concat (remove_dots path [])"

section \<open>The normal form\<close>

definition ALLOWED_SCHEMES :: "string list" where
  "ALLOWED_SCHEMES = [''http'', ''https'']"

definition DEFAULT_PORTS :: "string \<rightharpoonup> nat" where
  "DEFAULT_PORTS = [''http'' \<mapsto> 80, ''https'' \<mapsto> 443]"

definition normal_netloc :: "string \<Rightarrow> string \<Rightarrow> nat option \<Rightarrow> string" where
  "normal_netloc scheme host port =
     (case port of None \<Rightarrow> host
      | Some n \<Rightarrow> if DEFAULT_PORTS scheme = Some n then host else host @ '':'' @ show_nat n)"

definition normal_path :: "string \<Rightarrow> string" where
  "normal_path path =
     (let p = normalize_component path in remove_dot_segments (if p = [] then ''/'' else p))"

definition keep_empty_query :: "bool \<Rightarrow> string \<Rightarrow> string \<Rightarrow> string" where
  "keep_empty_query has_query query result =
     (if has_query \<and> query = [] \<and> CHR ''?'' \<notin> set (before_first CHR ''#'' result)
      then (let frag = after_first CHR ''#'' result
            in before_first CHR ''#'' result @ ''?'' @ (if frag = [] then [] else CHR ''#'' # frag))
      else result)"

definition normalize_uri :: "string list \<Rightarrow> string \<Rightarrow> string res" where
  "normalize_uri allowed_schemes uri =
     (if uri \<noteq> py_strip uri \<or> list_ex is_space uri then Inl (UriIdentityError ''whitespace'')
      else res_bind (urlsplit uri) (\<lambda>split.
        let scheme = py_lower (u_scheme split)
        in if scheme = [] then Inl (UriIdentityError ''relative'')
           else if scheme \<notin> set allowed_schemes then Inl (UriIdentityError ''scheme'')
           else if has_credentials (u_netloc split) then Inl (UriIdentityError ''credentials'')
           else (case url_hostname (u_netloc split) of
               None \<Rightarrow> Inl (UriIdentityError ''host'')
             | Some host \<Rightarrow>
                 if host = [] then Inl (UriIdentityError ''host'')
                 else if \<not> list_all is_ascii host then Inl (UriIdentityError ''non-ASCII host'')
                 else if CHR '':'' \<in> set host then Inl (UriIdentityError ''IPv6'')
                 else res_bind (url_port (u_netloc split)) (\<lambda>port.
                   let has_query = (CHR ''?'' \<in> set (before_first CHR ''#'' uri));
                       kept = (u_query split \<noteq> [] \<or> has_query);
                       query = (if kept then normalize_component (u_query split) else [])
                   in Inr (keep_empty_query has_query (u_query split)
                        (urlunsplit scheme (normal_netloc scheme (py_lower host) port)
                           (normal_path (u_path split)) query))))))"

definition assert_serialized_binding_uri :: "string \<Rightarrow> string res" where
  "assert_serialized_binding_uri uri = res_bind (normalize_uri ALLOWED_SCHEMES uri) (\<lambda>normalized.
     if normalized \<noteq> uri then Inl (UriIdentityError ''not canonical'') else Inr uri)"

definition sha256_of_uri :: "(string \<Rightarrow> string) \<Rightarrow> string \<Rightarrow> string" where
  "sha256_of_uri sha uri = sha uri"


section \<open>The buffer loop is a stack of segments\<close>

text \<open>
  The reference: the segments between the slashes are read from left to right, \<^verbatim>\<open>.\<close> is skipped, \<^verbatim>\<open>..\<close>
  removes the segment before it, and a dot segment at the end leaves an empty one.
\<close>

fun resolve_segments :: "string list \<Rightarrow> string list \<Rightarrow> string list" where
  "resolve_segments out [] = out"
| "resolve_segments out (s # ss) =
     (let out' = (if s = ''.'' then out else if s = ''..'' then butlast out else out @ [s])
      in if ss = [] \<and> (s = ''.'' \<or> s = ''..'') then out' @ [[]] else resolve_segments out' ss)"

definition no_slash :: "string \<Rightarrow> bool" where
  "no_slash s = (CHR ''/'' \<notin> set s)"

definition dot_segment :: "string \<Rightarrow> bool" where
  "dot_segment s = (s = ''.'' \<or> s = ''..'')"

lemma join_slash_Cons: "ss \<noteq> [] \<Longrightarrow> join ''/'' (s # ss) = s @ CHR ''/'' # join ''/'' ss"
  by (cases ss) simp_all

lemma join_split_slash [simp]: "join ''/'' (split_on CHR ''/'' p) = p"
proof (induction p)
  case (Cons x p)
  obtain s ss where "split_on CHR ''/'' p = s # ss" by (cases "split_on CHR ''/'' p") auto
  then show ?case using Cons by (cases "ss = []") (auto simp: join_slash_Cons)
qed simp

lemma before_first_append: "c \<notin> set s \<Longrightarrow> before_first c (s @ c # t) = s"
  by (simp add: before_first_def takeWhile_append)

lemma before_first_id: "c \<notin> set s \<Longrightarrow> before_first c s = s"
  by (simp add: before_first_def takeWhile_eq_all_conv) metis

lemma drop_Suc_append [simp]: "drop (Suc (length s)) (s @ c # t) = t"
  by simp

lemma remove_dots_slash: "remove_dots ''/'' out = out @ [''/'']"
  by (subst remove_dots.simps, simp add: startswith_def first_segment_def before_first_def)
     (subst remove_dots.simps, simp)

lemma remove_dots_skip: "remove_dots (''/./'' @ r) out = remove_dots (CHR ''/'' # r) out"
  by (subst remove_dots.simps) (simp add: startswith_def)

lemma remove_dots_up: "remove_dots (''/../'' @ r) out = remove_dots (CHR ''/'' # r) (butlast out)"
  by (subst remove_dots.simps) (simp add: startswith_def)

lemma startswith_Cons [str_simps]:
  "startswith s []" "\<not> startswith [] (c # p)" "startswith (d # s) (c # p) \<longleftrightarrow> d = c \<and> startswith s p"
  by (simp_all add: startswith_def)

lemma startswith_segment:
  "no_slash s \<Longrightarrow> no_slash p \<Longrightarrow> startswith (s @ CHR ''/'' # r) (p @ ''/'') \<longleftrightarrow> s = p"
  "no_slash s \<Longrightarrow> \<not> startswith s (p @ ''/'')"
proof (induction s arbitrary: p)
  case (Cons c s)
  {
    case 1
    then show ?case using Cons.IH(1) by (cases p) (auto simp: str_simps no_slash_def)
  next
    case 2
    then show ?case using Cons.IH(2) by (cases p) (auto simp: str_simps no_slash_def)
  }
next
  case Nil
  {
    case 1
    then show ?case by (cases p) (auto simp: str_simps no_slash_def)
  next
    case 2
    then show ?case by (cases p) (auto simp: str_simps no_slash_def)
  }
qed

lemma startswith_dot_slash:
  assumes "no_slash s"
  shows "startswith (CHR ''/'' # s @ CHR ''/'' # r) ''/./'' \<longleftrightarrow> s = ''.''"
    and "startswith (CHR ''/'' # s @ CHR ''/'' # r) ''/../'' \<longleftrightarrow> s = ''..''"
    and "\<not> startswith (CHR ''/'' # s) ''/./''" and "\<not> startswith (CHR ''/'' # s) ''/../''"
  using startswith_segment [OF assms, of "''.''"] startswith_segment [OF assms, of "''..''"]
  by (simp_all add: str_simps no_slash_def)

lemma remove_dots_push:
  assumes "no_slash s" and "\<not> dot_segment s"
  shows "remove_dots (CHR ''/'' # s @ CHR ''/'' # r) out = remove_dots (CHR ''/'' # r) (out @ [CHR ''/'' # s])"
    and "remove_dots (CHR ''/'' # s) out = out @ [CHR ''/'' # s]"
proof -
  have f: "first_segment (CHR ''/'' # s @ CHR ''/'' # r) = CHR ''/'' # s" "first_segment (CHR ''/'' # s) = CHR ''/'' # s"
    using assms(1) by (simp_all add: first_segment_def startswith_def no_slash_def before_first_append before_first_id)
  have n: "\<not> startswith (CHR ''/'' # x) ''../''" "\<not> startswith (CHR ''/'' # x) ''./''" for x
    by (simp_all add: startswith_def)
  note d = startswith_dot_slash [OF assms(1)]
  show "remove_dots (CHR ''/'' # s @ CHR ''/'' # r) out = remove_dots (CHR ''/'' # r) (out @ [CHR ''/'' # s])"
    using assms(2) by (subst remove_dots.simps) (simp add: n d f dot_segment_def append_eq_Cons_conv)
  show "remove_dots (CHR ''/'' # s) out = out @ [CHR ''/'' # s]"
    using assms(2) by (subst remove_dots.simps) (simp add: n d f dot_segment_def remove_dots.simps [of "[]"])
qed

lemma remove_dots_resolve:
  assumes "ss \<noteq> []" and "\<forall>s\<in>set ss. no_slash s"
  shows "remove_dots (CHR ''/'' # join ''/'' ss) (map (Cons CHR ''/'') out) =
    map (Cons CHR ''/'') (resolve_segments out ss)"
  using assms
proof (induction ss arbitrary: out)
  case (Cons s ss)
  have up: "butlast (map (Cons CHR ''/'') out) = map (Cons CHR ''/'') (butlast out)"
    by (simp add: map_butlast)
  show ?case
  proof (cases "ss = []")
    case True
    have "remove_dots ''/.'' (map (Cons CHR ''/'') out) = map (Cons CHR ''/'') out @ [''/'']"
      by (subst remove_dots.simps) (simp add: startswith_def remove_dots_slash)
    moreover have "remove_dots ''/..'' (map (Cons CHR ''/'') out) = map (Cons CHR ''/'') (butlast out) @ [''/'']"
      by (subst remove_dots.simps) (simp add: startswith_def remove_dots_slash up)
    ultimately show ?thesis using True Cons.prems remove_dots_push(2) [of s]
      by (auto simp: dot_segment_def)
  next
    case False
    then show ?thesis
      using Cons.prems Cons.IH [of out] Cons.IH [of "butlast out"] Cons.IH [of "out @ [s]"]
        remove_dots_skip [of "join ''/'' ss"] remove_dots_up [of "join ''/'' ss"] remove_dots_push(1) [of s "join ''/'' ss"]
      by (auto simp: join_slash_Cons up dot_segment_def)
  qed
qed simp

lemma remove_dot_segments_stack:
  "remove_dot_segments (CHR ''/'' # p) = concat (map (Cons CHR ''/'') (resolve_segments [] (split_on CHR ''/'' p)))"
  using remove_dots_resolve [of "split_on CHR ''/'' p" "[]"] split_on_parts [of _ "CHR ''/''" p]
  by (simp add: remove_dot_segments_def no_slash_def)

lemma resolve_segments_clean:
  "\<forall>s\<in>set out. \<not> dot_segment s \<Longrightarrow> s \<in> set (resolve_segments out ss) \<Longrightarrow> \<not> dot_segment s \<and> s \<in> insert [] (set out \<union> set ss)"
proof (induction ss arbitrary: out)
  case (Cons t ss)
  have "set (butlast out) \<subseteq> set out" by (auto dest: in_set_butlastD)
  then show ?case
    using Cons.prems Cons.IH [of out] Cons.IH [of "butlast out"] Cons.IH [of "out @ [t]"]
    by (auto simp: dot_segment_def Let_def split: if_splits)
qed auto

lemma resolve_segments_not_Nil: "out \<noteq> [] \<or> ss \<noteq> [] \<Longrightarrow> resolve_segments out ss \<noteq> []"
proof (induction ss arbitrary: out)
  case (Cons s ss)
  show ?case
  proof (cases "ss = []")
    case False
    then show ?thesis using Cons.IH by (auto simp: Let_def)
  qed (auto simp: Let_def)
qed simp

lemma resolve_segments_id: "\<forall>s\<in>set ss. \<not> dot_segment s \<Longrightarrow> resolve_segments out ss = out @ ss"
  by (induction ss arbitrary: out) (auto simp: dot_segment_def)

section \<open>Escapes in normal form\<close>

fun well_escaped :: "string \<Rightarrow> bool" where
  "well_escaped [] = True"
| "well_escaped (c # s) =
     (if c = CHR ''%''
      then (case s of a # b # t \<Rightarrow> is_hex_digit a \<and> is_hex_digit b \<and> well_escaped t | _ \<Rightarrow> False)
      else well_escaped s)"

text \<open>Escapes are upper case, and an unreserved character is never escaped.\<close>

fun normal_escapes :: "string \<Rightarrow> bool" where
  "normal_escapes [] = True"
| "normal_escapes (c # s) =
     (if c = CHR ''%''
      then (case s of
          a # b # t \<Rightarrow> is_hex_digit a \<and> is_hex_digit b \<and> char_upper a = a \<and> char_upper b = b \<and>
            \<not> is_unreserved (escaped_char a b) \<and> normal_escapes t
        | _ \<Rightarrow> False)
      else normal_escapes s)"

lemma char_upper_idem [simp]: "char_upper (char_upper c) = char_upper c"
  by (auto simp: char_upper_def is_lower_ascii_def Let_def)

lemma hex_digit_upper:
  assumes "is_hex_digit c"
  shows "is_hex_digit (char_upper c)"
proof (cases "is_digit c")
  case True
  then have "char_upper c = c" by (auto simp: char_upper_def is_digit_def is_lower_ascii_def Let_def)
  then show ?thesis using assms by simp
next
  case False
  then have "c \<in> set ''abcdefABCDEF''" using assms by (simp add: is_hex_digit_def)
  moreover have "char_upper CHR ''a'' = CHR ''A''" "char_upper CHR ''b'' = CHR ''B''" "char_upper CHR ''c'' = CHR ''C''"
    "char_upper CHR ''d'' = CHR ''D''" "char_upper CHR ''e'' = CHR ''E''" "char_upper CHR ''f'' = CHR ''F''"
    "char_upper CHR ''A'' = CHR ''A''" "char_upper CHR ''B'' = CHR ''B''" "char_upper CHR ''C'' = CHR ''C''"
    "char_upper CHR ''D'' = CHR ''D''" "char_upper CHR ''E'' = CHR ''E''" "char_upper CHR ''F'' = CHR ''F''"
    by code_simp+
  ultimately show ?thesis by (auto simp: is_hex_digit_def)
qed

lemma hex_digit_not_slash: "\<not> is_hex_digit CHR ''/''" "\<not> is_unreserved CHR ''%''"
  by code_simp+

lemma decode_plain: "c \<noteq> CHR ''%'' \<Longrightarrow> decode_unreserved (c # s) = c # decode_unreserved s"
  by (cases s rule: remdups_adj.cases) simp_all

lemma uppercase_plain: "c \<noteq> CHR ''%'' \<Longrightarrow> uppercase_percent_escapes (c # s) = c # uppercase_percent_escapes s"
  by (cases s rule: remdups_adj.cases) simp_all

lemma normalize_plain: "c \<noteq> CHR ''%'' \<Longrightarrow> normalize_component (c # s) = c # normalize_component s"
  by (simp add: normalize_component_def decode_plain uppercase_plain)

lemma normalize_escape:
  assumes "is_hex_digit a" and "is_hex_digit b"
  shows "normalize_component (CHR ''%'' # a # b # s) =
    (let A = char_upper a; B = char_upper b
     in if is_unreserved (escaped_char A B) then escaped_char A B # normalize_component s
        else CHR ''%'' # A # B # normalize_component s)"
  using assms hex_digit_upper by (simp add: normalize_component_def Let_def)

lemma normalize_Nil [simp]: "normalize_component [] = []"
  by (simp add: normalize_component_def)

lemma normalize_normal: "well_escaped s \<Longrightarrow> normal_escapes (normalize_component s)"
proof (induction s rule: well_escaped.induct)
  case (2 c s)
  show ?case
  proof (cases "c = CHR ''%''")
    case True
    then obtain a b t where s: "s = a # b # t" "is_hex_digit a" "is_hex_digit b" "well_escaped t"
      using "2.prems" by (auto split: list.splits)
    moreover have "normal_escapes (normalize_component t)" using "2.IH"(1) True s by blast
    ultimately show ?thesis
      using True hex_digit_upper hex_digit_not_slash(2) by (auto simp: normalize_escape Let_def)
  next
    case False
    then show ?thesis using "2.IH"(2) "2.prems" by (simp add: normalize_plain)
  qed
qed simp

lemma normal_fixed: "normal_escapes s \<Longrightarrow> normalize_component s = s"
proof (induction s rule: normal_escapes.induct)
  case (2 c s)
  show ?case
  proof (cases "c = CHR ''%''")
    case True
    then obtain a b t where s: "s = a # b # t" "is_hex_digit a" "is_hex_digit b" "char_upper a = a" "char_upper b = b"
        "\<not> is_unreserved (escaped_char a b)" "normal_escapes t"
      using "2.prems" by (auto split: list.splits)
    moreover have "normalize_component t = t" using "2.IH"(1) True s by blast
    ultimately show ?thesis using True by (simp add: normalize_escape Let_def)
  next
    case False
    then show ?thesis using "2.IH"(2) "2.prems" by (simp add: normalize_plain)
  qed
qed simp

lemma normal_append_slash: "normal_escapes (s @ CHR ''/'' # t) \<longleftrightarrow> normal_escapes s \<and> normal_escapes t"
proof (induction s rule: normal_escapes.induct)
  case (2 c s)
  show ?case
  proof (cases "c = CHR ''%''")
    case True
    then show ?thesis using "2.IH"(1) hex_digit_not_slash(1)
      by (cases s rule: remdups_adj.cases; cases t) auto
  next
    case False
    then show ?thesis using "2.IH"(2) by simp
  qed
qed simp

lemma normal_join_slash: "normal_escapes (join ''/'' ss) \<longleftrightarrow> (\<forall>s\<in>set ss. normal_escapes s)"
proof (induction ss)
  case (Cons s ss)
  then show ?case by (cases "ss = []") (simp_all add: join_slash_Cons normal_append_slash)
qed simp

lemma normalize_chars:
  assumes "\<And>c. P c \<Longrightarrow> P (char_upper c)" and "\<And>c. is_unreserved c \<Longrightarrow> P c" and "list_all P s"
  shows "list_all P (normalize_component s)"
proof -
  have u: "list_all P (uppercase_percent_escapes s)"
    using assms(3) by (induction s rule: uppercase_percent_escapes.induct) (auto simp: assms(1))
  have "list_all P t \<Longrightarrow> list_all P (decode_unreserved t)" for t
    by (induction t rule: decode_unreserved.induct) (auto simp: assms(1,2))
  then show ?thesis using u by (simp add: normalize_component_def)
qed

section \<open>The normal forms are the accepted URIs\<close>

definition query_char :: "char \<Rightarrow> bool" where
  "query_char c = (\<not> is_space c \<and> c \<noteq> CHR ''#'')"

definition path_char :: "char \<Rightarrow> bool" where
  "path_char c = (query_char c \<and> c \<noteq> CHR ''?'')"

definition host_char :: "char \<Rightarrow> bool" where
  "host_char c = (is_ascii c \<and> \<not> is_space c \<and> c \<notin> set ''/?#@:[]'')"

text \<open>
  The declarative normal form: an allowed scheme, a lower-case host, no port or one that is not the
  default, an absolute path without dot segments, and normal escapes in path and query.
\<close>

definition canonical_parts :: "string \<Rightarrow> string \<Rightarrow> nat option \<Rightarrow> string \<Rightarrow> string option \<Rightarrow> bool" where
  "canonical_parts scheme host port path query =
     (scheme \<in> set ALLOWED_SCHEMES \<and> host \<noteq> [] \<and> py_lower host = host \<and> list_all host_char host \<and>
      (case port of None \<Rightarrow> True | Some n \<Rightarrow> n \<le> 65535 \<and> DEFAULT_PORTS scheme \<noteq> Some n) \<and>
      startswith path ''/'' \<and> list_all path_char path \<and> normal_escapes path \<and>
      list_all (\<lambda>s. \<not> dot_segment s) (split_on CHR ''/'' path) \<and>
      (case query of None \<Rightarrow> True | Some q \<Rightarrow> list_all query_char q \<and> normal_escapes q))"

definition port_text :: "nat option \<Rightarrow> string" where
  "port_text port = (case port of None \<Rightarrow> [] | Some n \<Rightarrow> CHR '':'' # show_nat n)"

definition query_text :: "string option \<Rightarrow> string" where
  "query_text query = (case query of None \<Rightarrow> [] | Some q \<Rightarrow> CHR ''?'' # q)"

definition render_uri :: "string \<Rightarrow> string \<Rightarrow> nat option \<Rightarrow> string \<Rightarrow> string option \<Rightarrow> string" where
  "render_uri scheme host port path query =
     scheme @ ''://'' @ host @ port_text port @ path @ query_text query"

lemma after_first_append: "c \<notin> set s \<Longrightarrow> after_first c (s @ c # t) = t"
  by (simp add: after_first_def dropWhile_append)

lemma after_first_id: "c \<notin> set s \<Longrightarrow> after_first c s = []"
  by (induction s) (auto simp: after_first_def)

lemma after_last_id:
  assumes "c \<notin> set s"
  shows "after_last c s = s"
proof -
  have "takeWhile (\<lambda>x. x \<noteq> c) t = t" if "c \<notin> set t" for t using that by (induction t) auto
  from this [of "rev s"] show ?thesis using assms by (simp only: after_last_def set_rev rev_rev_ident simp_thms)
qed

lemma digits_not_special: "c \<in> set (show_nat n) \<Longrightarrow> is_digit c"
  using show_nat_digits by blast

lemma digit_not_special: "is_digit c \<Longrightarrow> is_netloc_char c \<and> \<not> is_space c \<and> c \<notin> set ''@[]:%''"
  using digit_not_sign [of c] by (auto simp: is_digit_def is_netloc_char_def Let_def)

lemma port_text_chars: "c \<in> set (port_text port) \<Longrightarrow> is_netloc_char c \<and> \<not> is_space c \<and> c \<notin> set ''@[]''"
  using digit_not_special digits_not_special
  by (auto simp: port_text_def is_netloc_char_def is_space_def split: option.splits)

lemma host_chars: "list_all host_char host \<Longrightarrow> c \<in> set host \<Longrightarrow> is_netloc_char c \<and> \<not> is_space c \<and> c \<notin> set ''@[]:''"
  by (auto simp: list_all_iff host_char_def is_netloc_char_def)

lemma takeWhile_netloc:
  assumes "\<forall>c\<in>set s. P c" and "t = [] \<or> \<not> P (hd t)"
  shows "takeWhile P (s @ t) = s" and "dropWhile P (s @ t) = t"
proof -
  have "takeWhile P t = []" "dropWhile P t = t" using assms(2) by (cases t; simp)+
  then show "takeWhile P (s @ t) = s" "dropWhile P (s @ t) = t"
    using assms(1) by (simp_all add: takeWhile_append2 dropWhile_append2)
qed

lemma url_clean_id:
  assumes "url \<noteq> []" and "is_alpha (hd url)" and "\<forall>c\<in>set url. \<not> is_space c"
  shows "url_clean url = url"
proof -
  have "\<not> (of_char (hd url) :: nat) \<le> 32"
    using assms(2) by (auto simp: is_alpha_def is_lower_ascii_def is_upper_ascii_def Let_def)
  then have "dropWhile (\<lambda>c. (of_char c :: nat) \<le> 32) url = url" using assms(1) by (cases url) auto
  moreover have "filter (\<lambda>c. c \<notin> {CHR 0x09, CHR 0x0D, CHR 0x0A}) url = url"
    using assms(3) by (auto simp: filter_id_conv is_space_def)
  ultimately show ?thesis by (simp add: url_clean_def)
qed

lemma split_scheme_allowed:
  assumes "scheme \<in> set ALLOWED_SCHEMES"
  shows "split_scheme (scheme @ '':'' @ r) = (scheme, r)" and "py_lower scheme = scheme" and "scheme \<noteq> []"
    and "is_alpha (hd scheme)" and "CHR '':'' \<notin> set scheme" and "\<forall>c\<in>set scheme. \<not> is_space c \<and> c \<notin> set ''?#[%''"
proof -
  have "list_all (\<lambda>s. list_all scheme_char s \<and> py_lower s = s \<and> s \<noteq> [] \<and> is_alpha (hd s) \<and> CHR '':'' \<notin> set s \<and>
      list_all (\<lambda>c. \<not> is_space c \<and> c \<notin> set ''?#[%'') s) ALLOWED_SCHEMES"
    by code_simp
  then have "list_all scheme_char scheme \<and> py_lower scheme = scheme \<and> scheme \<noteq> [] \<and> is_alpha (hd scheme) \<and>
      CHR '':'' \<notin> set scheme \<and> list_all (\<lambda>c. \<not> is_space c \<and> c \<notin> set ''?#[%'') scheme"
    using assms unfolding list_all_iff [of _ ALLOWED_SCHEMES] by (rule bspec)
  then show "split_scheme (scheme @ '':'' @ r) = (scheme, r)" "py_lower scheme = scheme" "scheme \<noteq> []"
    "is_alpha (hd scheme)" "CHR '':'' \<notin> set scheme" "\<forall>c\<in>set scheme. \<not> is_space c \<and> c \<notin> set ''?#[%''"
    by (auto simp: split_scheme_def before_first_append after_first_append list_all_iff)
qed

lemma canonical_parts_D:
  assumes "canonical_parts scheme host port path query"
  shows "scheme \<in> set ALLOWED_SCHEMES" and "host \<noteq> []" and "py_lower host = host" and "list_all host_char host"
    and "port = Some n \<Longrightarrow> n \<le> 65535 \<and> DEFAULT_PORTS scheme \<noteq> Some n"
    and "\<exists>p. path = CHR ''/'' # p" and "list_all path_char path" and "normal_escapes path"
    and "\<forall>s\<in>set (split_on CHR ''/'' path). \<not> dot_segment s"
    and "query = Some q \<Longrightarrow> list_all query_char q \<and> normal_escapes q"
  using assms by (auto simp: canonical_parts_def startswith_iff list_all_iff [of "\<lambda>s. \<not> dot_segment s"])

lemma render_chars:
  assumes "canonical_parts scheme host port path query"
  shows "\<forall>c\<in>set (render_uri scheme host port path query). \<not> is_space c"
    and "CHR ''#'' \<notin> set (render_uri scheme host port path query)"
    and "CHR ''?'' \<notin> set (scheme @ ''://'' @ host @ port_text port @ path)"
proof -
  note C = canonical_parts_D [OF assms]
  have s: "c \<in> set scheme \<Longrightarrow> \<not> is_space c \<and> c \<notin> set ''?#''" for c
    using split_scheme_allowed(6) [OF C(1)] by auto
  have n: "c \<in> set (host @ port_text port) \<Longrightarrow> \<not> is_space c \<and> c \<notin> set ''?#''" for c
    using host_chars [OF C(4)] port_text_chars by (auto simp: is_netloc_char_def)
  have p: "c \<in> set path \<Longrightarrow> \<not> is_space c \<and> c \<notin> set ''?#''" for c
    using C(7) by (auto simp: list_all_iff path_char_def query_char_def)
  have "\<not> is_space CHR ''?'' \<and> \<not> is_space CHR '':'' \<and> \<not> is_space CHR ''/''" by code_simp
  then have q: "c \<in> set (query_text query) \<Longrightarrow> \<not> is_space c \<and> c \<noteq> CHR ''#''" for c
    using C(10) by (auto simp: query_text_def list_all_iff query_char_def split: option.splits)
  note sep = \<open>\<not> is_space CHR ''?'' \<and> \<not> is_space CHR '':'' \<and> \<not> is_space CHR ''/''\<close>
  show "\<forall>c\<in>set (render_uri scheme host port path query). \<not> is_space c"
    using s n p q sep by (auto simp: render_uri_def)
  show "CHR ''#'' \<notin> set (render_uri scheme host port path query)"
    using s n p q by (fastforce simp: render_uri_def)
  show "CHR ''?'' \<notin> set (scheme @ ''://'' @ host @ port_text port @ path)"
    using s n p by fastforce
qed

lemma urlsplit_render:
  assumes C: "canonical_parts scheme host port path query"
  shows "urlsplit (render_uri scheme host port path query) =
    Inr \<lparr>u_scheme = scheme, u_netloc = host @ port_text port, u_path = path,
         u_query = (case query of None \<Rightarrow> [] | Some q \<Rightarrow> q), u_fragment = []\<rparr>"
proof -
  note D = canonical_parts_D [OF C]
  note S = split_scheme_allowed [OF D(1)]
  let ?u = "render_uri scheme host port path query"
  have u: "?u = scheme @ '':'' @ (''//'' @ (host @ port_text port) @ (path @ query_text query))"
    by (simp add: render_uri_def)
  have hd: "?u \<noteq> []" "is_alpha (hd ?u)" using S(3,4) by (auto simp: render_uri_def)
  obtain p where p: "path = CHR ''/'' # p" using D(6) by blast
  have n: "\<forall>c\<in>set (host @ port_text port). is_netloc_char c"
    using host_chars [OF D(4)] port_text_chars by auto
  have "split_scheme (url_clean ?u) = (scheme, ''//'' @ (host @ port_text port) @ (path @ query_text query))"
    using url_clean_id [OF hd render_chars(1) [OF C]] S(1) u by simp
  moreover have "split_netloc (''//'' @ (host @ port_text port) @ (path @ query_text query)) =
      (host @ port_text port, path @ query_text query)"
  proof -
    have "\<not> is_netloc_char (hd (path @ query_text query))" using p by (simp add: is_netloc_char_def)
    note t = takeWhile_netloc [OF n, OF disjI2, OF this]
    show ?thesis by (simp add: split_netloc_def startswith_def t del: append_assoc)
  qed
  moreover have "CHR ''['' \<notin> set (host @ port_text port)" "CHR '']'' \<notin> set (host @ port_text port)"
    using host_chars [OF D(4)] port_text_chars by fastforce+
  moreover have "CHR ''#'' \<notin> set (path @ query_text query)"
    using render_chars(2) [OF C] by (auto simp: render_uri_def)
  moreover have "CHR ''?'' \<notin> set path" using render_chars(3) [OF C] by auto
  ultimately show ?thesis
    by (cases query)
       (auto simp: urlsplit_def Let_def before_first_id after_first_id before_first_append after_first_append query_text_def)
qed

lemma concat_slash: "ss \<noteq> [] \<Longrightarrow> concat (map (Cons CHR ''/'') ss) = CHR ''/'' # join ''/'' ss"
proof (induction ss)
  case (Cons s ss)
  then show ?case by (cases "ss = []") (simp_all add: join_slash_Cons)
qed simp

lemma split_join_slash: "ss \<noteq> [] \<Longrightarrow> \<forall>s\<in>set ss. no_slash s \<Longrightarrow> split_on CHR ''/'' (join ''/'' ss) = ss"
proof (induction ss)
  case (Cons s ss)
  then show ?case
    by (cases "ss = []") (simp_all add: join_slash_Cons split_on_append_sep split_on_no_sep no_slash_def)
qed simp

lemma set_join_slash: "c \<in> set (join ''/'' ss) \<Longrightarrow> c = CHR ''/'' \<or> (\<exists>s\<in>set ss. c \<in> set s)"
proof (induction ss)
  case (Cons s ss)
  then show ?case by (cases "ss = []") (auto simp: join_slash_Cons)
qed simp

lemma normal_path_fixed:
  assumes "normal_escapes (CHR ''/'' # p)" and "\<forall>s\<in>set (split_on CHR ''/'' (CHR ''/'' # p)). \<not> dot_segment s"
  shows "normal_path (CHR ''/'' # p) = CHR ''/'' # p"
  using assms normal_fixed [OF assms(1)] resolve_segments_id [of "split_on CHR ''/'' p" "[]"]
  by (simp add: normal_path_def remove_dot_segments_stack concat_slash)

text \<open>Dot-segment removal keeps the character classes, the escapes and yields no dot segment.\<close>

lemma remove_dot_segments_canonical:
  assumes "normal_escapes p" and "list_all P p" and "P CHR ''/''"
  defines "r \<equiv> remove_dot_segments (CHR ''/'' # p)"
  shows "startswith r ''/''" and "normal_escapes r" and "list_all P r"
    and "\<forall>s\<in>set (split_on CHR ''/'' r). \<not> dot_segment s"
proof -
  define ss where "ss = resolve_segments [] (split_on CHR ''/'' p)"
  have ne: "ss \<noteq> []" by (simp add: ss_def resolve_segments_not_Nil)
  have r: "r = CHR ''/'' # join ''/'' ss"
    using concat_slash [OF ne] by (simp add: r_def remove_dot_segments_stack ss_def)
  have mem: "\<not> dot_segment s \<and> (s = [] \<or> s \<in> set (split_on CHR ''/'' p))" if "s \<in> set ss" for s
    using resolve_segments_clean [of "[]" s "split_on CHR ''/'' p"] that by (auto simp: ss_def)
  have slash: "no_slash s" "set s \<subseteq> set p" if "s \<in> set ss" for s
    using mem [OF that] split_on_parts [of s "CHR ''/''" p] by (auto simp: no_slash_def)
  have "normal_escapes s" if "s \<in> set ss" for s
  proof -
    have "\<forall>s\<in>set (split_on CHR ''/'' p). normal_escapes s"
      using assms(1) normal_join_slash [of "split_on CHR ''/'' p"] by simp
    then show ?thesis using mem [OF that] by auto
  qed
  then show "normal_escapes r" by (simp add: r normal_join_slash)
  show "startswith r ''/''" by (simp add: r startswith_def)
  show "list_all P r" using assms(2,3) slash(2) set_join_slash [of _ ss] by (fastforce simp: r list_all_iff)
  have "split_on CHR ''/'' r = [] # ss" using split_join_slash [OF ne] slash(1) by (simp add: r)
  then show "\<forall>s\<in>set (split_on CHR ''/'' r). \<not> dot_segment s" using mem by (auto simp: dot_segment_def)
qed

lemma char_upper_cases: "char_upper c = c \<or> is_lower_ascii c \<and> is_upper_ascii (char_upper c)"
  by (auto simp: char_upper_def is_lower_ascii_def is_upper_ascii_def Let_def)

lemma alpha_not_special: "is_alpha c \<Longrightarrow> \<not> is_space c \<and> c \<notin> set ''/?#@:[]%'' \<and> is_ascii c"
  by (auto simp: is_alpha_def is_lower_ascii_def is_upper_ascii_def is_space_def is_ascii_def Let_def)

lemma path_char_closed: "path_char c \<Longrightarrow> path_char (char_upper c)" "query_char c \<Longrightarrow> query_char (char_upper c)"
  using char_upper_cases [of c] alpha_not_special [of "char_upper c"]
  by (auto simp: path_char_def query_char_def is_alpha_def)

lemma unreserved_path_char: "is_unreserved c \<Longrightarrow> path_char c"
proof -
  have "list_all path_char ''-._~''" by code_simp
  then show "is_unreserved c \<Longrightarrow> path_char c"
    using alpha_not_special [of c] digit_not_special [of c]
    by (auto simp: is_unreserved_def path_char_def query_char_def is_netloc_char_def list_all_iff)
qed

lemma unreserved_query_char: "is_unreserved c \<Longrightarrow> query_char c"
  using unreserved_path_char by (simp add: path_char_def)

lemma normal_path_canonical:
  assumes "well_escaped path" and "list_all path_char path" and "path = [] \<or> hd path = CHR ''/''"
  shows "startswith (normal_path path) ''/''" and "normal_escapes (normal_path path)"
    and "list_all path_char (normal_path path)" and "\<forall>s\<in>set (split_on CHR ''/'' (normal_path path)). \<not> dot_segment s"
proof -
  obtain p where p: "well_escaped p" "list_all path_char p"
      "(let q = normalize_component path in if q = [] then ''/'' else q) = CHR ''/'' # normalize_component p"
    using assms by (cases path) (auto simp: normalize_plain intro: that [of "[]"])
  have "normal_path path = remove_dot_segments (CHR ''/'' # normalize_component p)"
    using p(3) by (simp add: normal_path_def Let_def)
  moreover have "list_all path_char (normalize_component p)"
    by (rule normalize_chars) (use path_char_closed unreserved_path_char p(2) in auto)
  moreover have "path_char CHR ''/''" by code_simp
  ultimately show "startswith (normal_path path) ''/''" "normal_escapes (normal_path path)"
    "list_all path_char (normal_path path)" "\<forall>s\<in>set (split_on CHR ''/'' (normal_path path)). \<not> dot_segment s"
    using remove_dot_segments_canonical [OF normalize_normal [OF p(1)]] by simp_all
qed

lemma host_port_plain:
  assumes "CHR ''@'' \<notin> set netloc" and "CHR ''['' \<notin> set netloc"
  shows "host_port netloc = (before_first CHR '':'' netloc, after_first CHR '':'' netloc)"
  using assms by (simp add: host_port_def after_last_id)

lemma read_canonical_netloc:
  assumes C: "canonical_parts scheme host port path query"
  shows "url_hostname (host @ port_text port) = Some host" and "url_port (host @ port_text port) = Inr port"
    and "\<not> has_credentials (host @ port_text port)" and "normal_netloc scheme host port = host @ port_text port"
proof -
  note D = canonical_parts_D [OF C]
  have c: "CHR ''@'' \<notin> set (host @ port_text port)" "CHR ''['' \<notin> set (host @ port_text port)" "CHR '':'' \<notin> set host"
    using host_chars [OF D(4)] port_text_chars by fastforce+
  have hp: "host_port (host @ port_text port) = (host, case port of None \<Rightarrow> [] | Some n \<Rightarrow> show_nat n)"
    using c host_port_plain [OF c(1,2)]
    by (cases port) (simp_all add: port_text_def before_first_append after_first_append before_first_id after_first_id)
  have "py_lower (before_first CHR ''%'' host) = before_first CHR ''%'' host"
  proof -
    have "\<forall>c\<in>set host. char_lower c = c" using D(3) by (simp add: py_lower_def map_idI map_eq_conv [of _ _ id, simplified])
    then show ?thesis by (auto simp: py_lower_def before_first_def intro!: map_idI dest: set_takeWhileD)
  qed
  then show "url_hostname (host @ port_text port) = Some host"
    using hp D(2) by (simp add: url_hostname_def before_first_def)
  show "url_port (host @ port_text port) = Inr port"
  proof (cases port)
    case (Some n)
    then show ?thesis using hp D(5) show_nat_digits [of n] by (simp add: url_port_def list_all_iff)
  next
    case None
    then show ?thesis using hp by (simp add: url_port_def)
  qed
  show "\<not> has_credentials (host @ port_text port)" using c(1) by (simp add: has_credentials_def)
  show "normal_netloc scheme host port = host @ port_text port"
    using D(5) by (auto simp: normal_netloc_def port_text_def split: option.splits)
qed

lemma normalize_render:
  assumes C: "canonical_parts scheme host port path query"
  shows "normalize_uri ALLOWED_SCHEMES (render_uri scheme host port path query) =
    Inr (render_uri scheme host port path query)"
proof -
  let ?u = "render_uri scheme host port path query"
  note D = canonical_parts_D [OF C]
  note S = split_scheme_allowed [OF D(1)]
  note N = read_canonical_netloc [OF C]
  obtain p where p: "path = CHR ''/'' # p" using D(6) by blast
  have hosts: "list_all is_ascii host" "CHR '':'' \<notin> set host"
    using D(4) host_chars [OF D(4)] by (auto simp: list_all_iff host_char_def)
  have path: "normal_path path = path" using normal_path_fixed [of p] D(8,9) p by simp
  have sp: "py_strip ?u = ?u" "\<not> list_ex is_space ?u"
    using render_chars(1) [OF C] by (auto simp: py_strip_id list_ex_iff)
  have q: "CHR ''?'' \<in> set ?u \<longleftrightarrow> query \<noteq> None" "before_first CHR ''#'' ?u = ?u" "after_first CHR ''#'' ?u = []"
    using render_chars(2,3) [OF C]
    by (auto simp: render_uri_def query_text_def before_first_id after_first_id split: option.splits)
  have qn: "normalize_component x = x" if "query = Some x" for x using D(10) [OF that] normal_fixed by simp
  have un: "urlunsplit scheme (host @ port_text port) path x = scheme @ ''://'' @ host @ port_text port @ path @
      (if x = [] then [] else CHR ''?'' # x)" for x
    using S(3) p by (simp add: urlunsplit_def)
  have nq: "before_first CHR ''#'' (scheme @ ''://'' @ host @ port_text port @ path) = scheme @ ''://'' @ host @ port_text port @ path"
    "after_first CHR ''#'' (scheme @ ''://'' @ host @ port_text port @ path) = []"
    using render_chars(2) [OF C] by (auto simp: render_uri_def intro!: before_first_id after_first_id)
  have "normalize_uri ALLOWED_SCHEMES ?u = Inr (keep_empty_query (query \<noteq> None) (case query of None \<Rightarrow> [] | Some x \<Rightarrow> x)
      (urlunsplit scheme (host @ port_text port) path (case query of None \<Rightarrow> [] | Some x \<Rightarrow> x)))"
    using D(1,2,3) hosts qn
    by (simp add: normalize_uri_def sp urlsplit_render [OF C] S(2,3) N path q Let_def split: option.splits)
  also have "\<dots> = Inr ?u"
  proof (cases query)
    case None
    then show ?thesis by (simp add: keep_empty_query_def un render_uri_def query_text_def)
  next
    case (Some x)
    then show ?thesis using nq render_chars(3) [OF C]
      by (simp add: keep_empty_query_def un render_uri_def query_text_def)
  qed
  finally show ?thesis .
qed

lemma well_escaped_split:
  "well_escaped (s @ t) \<Longrightarrow> t = [] \<or> \<not> is_hex_digit (hd t) \<Longrightarrow> well_escaped s \<and> well_escaped t"
proof (induction s rule: well_escaped.induct)
  case (2 c s)
  show ?case
  proof (cases "c = CHR ''%''")
    case True
    consider "s = []" | a where "s = [a]" | a b r where "s = a # b # r" by (cases s rule: remdups_adj.cases) auto
    then show ?thesis
      using True "2.prems" "2.IH"(1) by cases (auto split: list.splits)
  next
    case False
    then show ?thesis using "2.prems" "2.IH"(2) by simp
  qed
qed simp

lemma well_escaped_drop: "CHR ''%'' \<notin> set s \<Longrightarrow> well_escaped (s @ t) = well_escaped t"
  by (induction s) auto

text \<open>A text without blanks and brackets whose escapes are well formed: every part \<^verbatim>\<open>urlsplit\<close> cuts out is one.\<close>

definition plain_text :: "string \<Rightarrow> bool" where
  "plain_text s = (well_escaped s \<and> (\<forall>c\<in>set s. \<not> is_space c \<and> c \<noteq> CHR ''[''))"

lemma plain_text_split:
  "plain_text (s @ t) \<Longrightarrow> t = [] \<or> \<not> is_hex_digit (hd t) \<Longrightarrow> plain_text s \<and> plain_text t"
  using well_escaped_split [of s t] by (auto simp: plain_text_def)

lemma plain_text_drop: "plain_text (s @ t) \<Longrightarrow> CHR ''%'' \<notin> set s \<Longrightarrow> plain_text t"
  by (auto simp: plain_text_def well_escaped_drop)

lemma first_decomp: "s = before_first c s @ (if c \<in> set s then c # after_first c s else [])"
  by (induction s) (auto simp: before_first_def after_first_def)

lemma plain_text_first:
  assumes "plain_text s" and "\<not> is_hex_digit c" and "c \<noteq> CHR ''%''"
  shows "plain_text (before_first c s)" and "plain_text (after_first c s)"
proof -
  have *: "plain_text (before_first c s @ (if c \<in> set s then c # after_first c s else []))"
    using assms(1) first_decomp [of s c] by simp
  then show "plain_text (before_first c s)" using plain_text_split [OF *] assms(2) by (simp split: if_splits)
  show "plain_text (after_first c s)"
  proof (cases "c \<in> set s")
    case True
    then have "plain_text (c # after_first c s)" using plain_text_split [OF *] assms(2) by simp
    then show ?thesis using plain_text_drop [of "[c]"] assms(3) by simp
  qed (simp add: after_first_id plain_text_def)
qed

lemma plain_text_clean:
  assumes "plain_text url"
  shows "plain_text (url_clean url)" and "set (url_clean url) \<subseteq> set url"
proof -
  let ?P = "\<lambda>c. (of_char c :: nat) \<le> 32"
  have "filter (\<lambda>c. c \<notin> {CHR 0x09, CHR 0x0D, CHR 0x0A}) (dropWhile ?P url) = dropWhile ?P url"
  proof -
    have "c \<notin> {CHR 0x09, CHR 0x0D, CHR 0x0A}" if "c \<in> set (dropWhile ?P url)" for c
    proof -
      from that have "c \<in> set url" by (rule set_dropWhileD)
      then have "\<not> is_space c" using assms by (simp add: plain_text_def)
      then show ?thesis by (auto simp: is_space_def)
    qed
    then show ?thesis unfolding filter_id_conv by (rule ballI)
  qed
  then have c: "url_clean url = dropWhile ?P url" by (simp add: url_clean_def)
  have "CHR ''%'' \<notin> set (takeWhile ?P url)" by (auto dest: set_takeWhileD)
  then show "plain_text (url_clean url)"
    using plain_text_drop [of "takeWhile ?P url" "dropWhile ?P url"] assms by (simp add: c)
  show "set (url_clean url) \<subseteq> set url" by (auto simp: c dest: set_dropWhileD)
qed

lemma sep_not_hex: "\<not> is_hex_digit CHR ''/''" "\<not> is_hex_digit CHR ''?''" "\<not> is_hex_digit CHR ''#''" "\<not> is_hex_digit CHR '':''"
  by code_simp+

lemma plain_text_scheme: "plain_text x \<Longrightarrow> split_scheme x = (s, r) \<Longrightarrow> plain_text r"
  using plain_text_first(2) [of x "CHR '':''"] sep_not_hex by (auto simp: split_scheme_def Let_def split: if_splits)

lemma plain_text_netloc:
  assumes "plain_text x" and "split_netloc x = (n, r)"
  shows "plain_text n" and "plain_text r" and "\<forall>c\<in>set n. is_netloc_char c"
    and "n \<noteq> [] \<Longrightarrow> r = [] \<or> \<not> is_netloc_char (hd r)"
proof -
  have h: "\<not> is_netloc_char c \<Longrightarrow> \<not> is_hex_digit c" for c using sep_not_hex by (auto simp: is_netloc_char_def)
  show "\<forall>c\<in>set n. is_netloc_char c" using assms(2) by (auto simp: split_netloc_def split: if_splits dest: set_takeWhileD)
  show "r = [] \<or> \<not> is_netloc_char (hd r)" if "n \<noteq> []"
    using assms(2) that hd_dropWhile [of is_netloc_char "drop 2 x"] by (cases "startswith x ''//''") (auto simp: split_netloc_def)
  show "plain_text n" "plain_text r"
  proof -
    have "plain_text n \<and> plain_text r"
    proof (cases "startswith x ''//''")
      case True
      then have x: "x = ''//'' @ drop 2 x" by (auto simp: startswith_iff)
      have "plain_text (drop 2 x)" using plain_text_drop [of "''//''" "drop 2 x"] x assms(1) by simp
      moreover have "n = takeWhile is_netloc_char (drop 2 x)" "r = dropWhile is_netloc_char (drop 2 x)"
        using True assms(2) by (simp_all add: split_netloc_def)
      ultimately show ?thesis
        using plain_text_split [of n r] h hd_dropWhile [of is_netloc_char "drop 2 x"] by auto
    next
      case False
      then show ?thesis using assms by (simp add: split_netloc_def plain_text_def)
    qed
    then show "plain_text n" "plain_text r" by simp_all
  qed
qed

lemma urlsplit_plain:
  assumes "urlsplit u = Inr sp" and "plain_text u"
  shows "plain_text (u_netloc sp)" and "\<forall>c\<in>set (u_netloc sp). is_netloc_char c \<and> c \<noteq> CHR '']''"
    and "plain_text (u_path sp)" and "list_all path_char (u_path sp)" and "plain_text (u_query sp)"
    and "list_all query_char (u_query sp)" and "u_netloc sp \<noteq> [] \<Longrightarrow> u_path sp = [] \<or> hd (u_path sp) = CHR ''/''"
proof -
  obtain s r n r2 where r: "split_scheme (url_clean u) = (s, r)" "split_netloc r = (n, r2)" by (metis surj_pair)
  define body where "body = before_first CHR ''#'' r2"
  have sp: "(CHR '']'' \<in> set n) = (CHR ''['' \<in> set n)" "u_netloc sp = n" "u_path sp = before_first CHR ''?'' body"
    "u_query sp = after_first CHR ''?'' body"
    using assms(1) r by (auto simp: urlsplit_def Let_def body_def split: if_splits)
  have "plain_text r" using plain_text_scheme [OF plain_text_clean(1) [OF assms(2)] r(1)] .
  note n = plain_text_netloc [OF this r(2)]
  have b: "plain_text body" "CHR ''#'' \<notin> set body"
    using plain_text_first(1) [OF n(2)] sep_not_hex by (auto simp: body_def before_first_def dest: set_takeWhileD)
  note pq = plain_text_first [OF b(1) sep_not_hex(2)]
  show "plain_text (u_netloc sp)" "plain_text (u_path sp)" "plain_text (u_query sp)"
    using n(1) pq by (simp_all add: sp)
  show "\<forall>c\<in>set (u_netloc sp). is_netloc_char c \<and> c \<noteq> CHR '']''"
    using n(1,3) sp(1) by (auto simp: sp(2) plain_text_def)
  have "set (after_first c t) \<subseteq> set t" for c t by (auto simp: after_first_def dest: in_set_dropD set_dropWhileD)
  then show "list_all query_char (u_query sp)"
    using b by (auto simp: sp(4) list_all_iff query_char_def plain_text_def)
  show "list_all path_char (u_path sp)"
    using b by (auto simp: sp(3) list_all_iff path_char_def query_char_def plain_text_def before_first_def dest: set_takeWhileD)
  show "u_path sp = [] \<or> hd (u_path sp) = CHR ''/''" if "u_netloc sp \<noteq> []"
    using n(4) that by (cases r2) (auto simp: sp body_def before_first_def is_netloc_char_def)
qed

lemma char_lower_facts: "char_lower (char_lower c) = char_lower c" "host_char c \<Longrightarrow> host_char (char_lower c)"
proof -
  have up: "is_upper_ascii c \<Longrightarrow> is_lower_ascii (char_lower c)" by (auto simp: char_lower_def is_upper_ascii_def is_lower_ascii_def Let_def)
  have lo: "is_lower_ascii c \<Longrightarrow> \<not> is_upper_ascii c" for c by (auto simp: is_upper_ascii_def is_lower_ascii_def Let_def)
  show "char_lower (char_lower c) = char_lower c" using up lo by (metis char_lower_def)
  show "host_char c \<Longrightarrow> host_char (char_lower c)"
    using up alpha_not_special [of "char_lower c"] by (cases "is_upper_ascii c") (auto simp: host_char_def is_alpha_def char_lower_def)
qed

lemma normal_host:
  assumes "url_hostname netloc = Some h" and "list_all is_ascii h" and "CHR '':'' \<notin> set h"
    and "\<not> has_credentials netloc" and "plain_text netloc" and "\<forall>c\<in>set netloc. is_netloc_char c \<and> c \<noteq> CHR '']''"
  shows "py_lower h \<noteq> []" and "py_lower (py_lower h) = py_lower h" and "list_all host_char (py_lower h)"
proof -
  let ?h = "before_first CHR '':'' netloc"
  have "CHR ''['' \<notin> set netloc" "CHR ''@'' \<notin> set netloc"
    using assms(4,5) by (auto simp: plain_text_def has_credentials_def)
  then have h: "?h \<noteq> []" "h = py_lower (before_first CHR ''%'' ?h) @ dropWhile (\<lambda>c. c \<noteq> CHR ''%'') ?h"
    using assms(1) by (auto simp: url_hostname_def host_port_plain Let_def split: if_splits)
  have e: "py_lower h = py_lower ?h"
  proof -
    have "py_lower (py_lower x) = py_lower x" for x by (simp add: py_lower_def char_lower_facts)
    moreover have "?h = before_first CHR ''%'' ?h @ dropWhile (\<lambda>c. c \<noteq> CHR ''%'') ?h" by (simp add: before_first_def)
    moreover have "py_lower (x @ y) = py_lower x @ py_lower y" for x y by (simp add: py_lower_def)
    ultimately show ?thesis using h(2) by metis
  qed
  show "py_lower h \<noteq> []" using h(1) by (simp add: e) (simp add: py_lower_def)
  show "py_lower (py_lower h) = py_lower h" by (simp add: py_lower_def char_lower_facts)
  have low: "c \<in> set h \<Longrightarrow> is_ascii c" for c using assms(2) by (simp add: list_all_iff)
  have "host_char c \<or> \<not> is_ascii (char_lower c)" if "c \<in> set ?h" for c
  proof -
    have "c \<in> set netloc" "c \<noteq> CHR '':''" using that by (auto simp: before_first_def dest: set_takeWhileD)
    then have "c \<notin> set ''/?#@:[]'' \<and> \<not> is_space c"
      using assms(4,5,6) by (auto simp: is_netloc_char_def plain_text_def has_credentials_def)
    moreover have "is_ascii (char_lower c) \<Longrightarrow> is_ascii c"
      by (cases "is_upper_ascii c") (simp add: is_ascii_def is_upper_ascii_def Let_def, simp add: char_lower_def)
    ultimately show ?thesis by (auto simp: host_char_def)
  qed
  moreover have "is_ascii (char_lower c)" if "c \<in> set ?h" for c
  proof -
    have "char_lower c \<in> set (py_lower h)" using that by (simp add: e) (simp add: py_lower_def)
    then obtain d where "d \<in> set h" "char_lower c = char_lower d" by (auto simp: py_lower_def)
    then show ?thesis using low [of d] by (auto simp: char_lower_def is_ascii_def is_upper_ascii_def Let_def)
  qed
  ultimately show "list_all host_char (py_lower h)"
    using char_lower_facts(2) by (simp add: e) (auto simp: py_lower_def list_all_iff)
qed

lemma normalize_not_Nil: "s \<noteq> [] \<Longrightarrow> normalize_component s \<noteq> []"
proof -
  have u: "t \<noteq> [] \<Longrightarrow> uppercase_percent_escapes t \<noteq> []" for t
    by (cases t rule: uppercase_percent_escapes.cases) auto
  have "t \<noteq> [] \<Longrightarrow> decode_unreserved t \<noteq> []" for t by (cases t rule: decode_unreserved.cases) auto
  then show "s \<noteq> [] \<Longrightarrow> normalize_component s \<noteq> []" using u by (simp add: normalize_component_def)
qed

lemma normalize_uri_parts:
  assumes "normalize_uri ALLOWED_SCHEMES u = Inr v" and "well_escaped u" and "CHR ''['' \<notin> set u"
  obtains scheme host port path query
  where "canonical_parts scheme host port path query" and "v = render_uri scheme host port path query"
proof -
  from assms(1) obtain sp h port where u: "\<not> list_ex is_space u" "urlsplit u = Inr sp" "py_lower (u_scheme sp) \<in> set ALLOWED_SCHEMES"
      "\<not> has_credentials (u_netloc sp)" "url_hostname (u_netloc sp) = Some h" "list_all is_ascii h" "CHR '':'' \<notin> set h"
      "url_port (u_netloc sp) = Inr port"
      "v = (let has_query = (CHR ''?'' \<in> set (before_first CHR ''#'' u)); kept = (u_query sp \<noteq> [] \<or> has_query)
         in keep_empty_query has_query (u_query sp) (urlunsplit (py_lower (u_scheme sp))
              (normal_netloc (py_lower (u_scheme sp)) (py_lower h) port) (normal_path (u_path sp))
              (if kept then normalize_component (u_query sp) else [])))"
    by (auto simp: normalize_uri_def Let_def res_bind_Inr_iff split: if_splits option.splits)
  define hq where "hq = (CHR ''?'' \<in> set (before_first CHR ''#'' u))"
  define scheme where "scheme = py_lower (u_scheme sp)"
  define port' where "port' = (if port = DEFAULT_PORTS scheme then None else port)"
  define query where "query = (if u_query sp \<noteq> [] \<or> hq then Some (normalize_component (u_query sp)) else None)"
  have pl: "plain_text u" using assms(2,3) u(1) by (auto simp: plain_text_def list_ex_iff)
  note P = urlsplit_plain [OF u(2) pl]
  have "u_netloc sp \<noteq> []"
    using u(5) by (auto simp: url_hostname_def host_port_def after_last_def before_first_def)
  note path = normal_path_canonical [OF _ P(4) P(7) [OF this]]
  note host = normal_host [OF u(5-7) u(4) P(1,2)]
  have n: "normal_netloc scheme (py_lower h) port = py_lower h @ port_text port'"
    by (auto simp: normal_netloc_def port'_def port_text_def split: option.splits)
  have "n \<le> 65535" if "port = Some n" for n using u(8) that by (auto simp: url_port_def Let_def split: if_splits)
  then have "canonical_parts scheme (py_lower h) port' (normal_path (u_path sp)) query"
    using u(3) host path P(3,5,6) normalize_normal [of "u_query sp"]
      normalize_chars [of query_char "u_query sp"] path_char_closed(2) unreserved_query_char
    by (auto simp: canonical_parts_def scheme_def port'_def query_def plain_text_def list_all_iff [of "\<lambda>s. \<not> dot_segment s"]
        split: option.splits)
  note C = this
  obtain p where p: "normal_path (u_path sp) = CHR ''/'' # p" using canonical_parts_D(6) [OF C] by blast
  have un: "urlunsplit scheme (py_lower h @ port_text port') (normal_path (u_path sp)) x =
      scheme @ ''://'' @ py_lower h @ port_text port' @ normal_path (u_path sp) @ (if x = [] then [] else CHR ''?'' # x)" for x
    using split_scheme_allowed(3) [OF canonical_parts_D(1) [OF C]] p by (simp add: urlunsplit_def)
  have nq: "before_first CHR ''#'' (scheme @ ''://'' @ py_lower h @ port_text port' @ normal_path (u_path sp)) =
        scheme @ ''://'' @ py_lower h @ port_text port' @ normal_path (u_path sp)"
      "after_first CHR ''#'' (scheme @ ''://'' @ py_lower h @ port_text port' @ normal_path (u_path sp)) = []"
    using render_chars(2) [OF C] by (auto simp: render_uri_def intro!: before_first_id after_first_id)
  have "v = keep_empty_query hq (u_query sp) (urlunsplit scheme (py_lower h @ port_text port') (normal_path (u_path sp))
      (case query of None \<Rightarrow> [] | Some x \<Rightarrow> x))"
    using u(9) n by (simp add: Let_def hq_def scheme_def query_def)
  also have "\<dots> = render_uri scheme (py_lower h) port' (normal_path (u_path sp)) query"
    using nq render_chars(3) [OF C] normalize_not_Nil
    by (auto simp: keep_empty_query_def un render_uri_def query_text_def query_def)
  finally show thesis using that C by blast
qed

text \<open>
  Property C37: the URI normal form.  For text without brackets whose percent escapes are well formed,
  a URI normalises to itself, so that it is accepted as a serialised binding URI, exactly when it is
  an allowed scheme, a lower-case host, an optional non-default port, a path without dot segments and
  an optional query, with upper-case escapes of reserved characters only; and whatever normalises at
  all normalises to such a URI, so that normalising again changes nothing.
\<close>

theorem normalize_uri_canonical:
  assumes "well_escaped u" and "CHR ''['' \<notin> set u"
  shows "(assert_serialized_binding_uri u = Inr u \<longleftrightarrow>
        (\<exists>scheme host port path query. canonical_parts scheme host port path query \<and>
           u = render_uri scheme host port path query)) \<and>
      (\<forall>v. normalize_uri ALLOWED_SCHEMES u = Inr v \<longrightarrow> assert_serialized_binding_uri v = Inr v)"
proof -
  have fixed: "assert_serialized_binding_uri x = Inr x \<longleftrightarrow> normalize_uri ALLOWED_SCHEMES x = Inr x" for x
    by (auto simp: assert_serialized_binding_uri_def res_bind_Inr_iff split: if_splits)
  have "(\<exists>scheme host port path query. canonical_parts scheme host port path query \<and>
      u = render_uri scheme host port path query)" if "normalize_uri ALLOWED_SCHEMES u = Inr v" "v = u" for v
    using normalize_uri_parts [OF that(1) assms] that(2) by metis
  moreover have "assert_serialized_binding_uri v = Inr v" if "normalize_uri ALLOWED_SCHEMES u = Inr v" for v
    using normalize_uri_parts [OF that assms] normalize_render fixed by metis
  ultimately show ?thesis using normalize_render fixed by metis
qed

theorem normalize_uri_canonical_witness:
  "assert_serialized_binding_uri ''http://h/a?'' = Inr ''http://h/a?''"
proof -
  have w: "well_escaped ''http://h/a?''" "CHR ''['' \<notin> set ''http://h/a?''" by simp_all
  have c: "canonical_parts ''http'' ''h'' None ''/a'' (Some [])" by code_simp
  have r: "''http://h/a?'' = render_uri ''http'' ''h'' None ''/a'' (Some [])"
    by (simp add: render_uri_def port_text_def query_text_def)
  from normalize_uri_canonical [OF w] c r show ?thesis by blast
qed

text \<open>
  Without the hypothesis on the escapes the normal form is not stable: the three characters after a
  stray percent sign are skipped, so that removing a dot segment brings other characters behind it,
  and the next pass turns them to upper case.
\<close>

lemma normalize_uri_stray_percent:
  "normalize_uri ALLOWED_SCHEMES ''http://h/%/./a'' = Inr ''http://h/%/a''"
  "normalize_uri ALLOWED_SCHEMES ''http://h/%/a'' = Inr ''http://h/%/A''"
  by code_simp+

text \<open>A port out of range is a plain \<^verbatim>\<open>ValueError\<close> of \<^verbatim>\<open>urlsplit\<close>, not a \<^verbatim>\<open>UriIdentityError\<close>.\<close>

lemma normalize_uri_bad_port:
  "normalize_uri ALLOWED_SCHEMES ''http://h:x/'' = Inl (ValueError ''Port could not be cast to integer value'')"
  by code_simp

text \<open>
  Dot segments are removed as RFC 3986 asks: the loop over the input buffer, which pushes and
  pops output segments, computes the segment stack of the path between its slashes.
\<close>

theorem remove_dot_segments_is_stack:
  "remove_dot_segments (CHR ''/'' # p) =
     concat (map (Cons CHR ''/'') (resolve_segments [] (split_on CHR ''/'' p)))"
  by (rule remove_dot_segments_stack)

end
