(* ===== verification/Bundle_Check.thy ===== *)
theory Bundle_Check
  imports Bundle_Props Uri
begin

text \<open>
  What is computed and checked over a bundle: the payload hash (\<^verbatim>\<open>domain/payload.py\<close>), the structural
  validation (\<^verbatim>\<open>domain/validation.py\<close>) and the identity of a report input (\<^verbatim>\<open>domain/report_key.py\<close>).
  SHA-256 is the argument \<open>sha\<close>, the \<^verbatim>\<open>str\<close> of a JSON value that is no string the argument \<open>py_str\<close>.
\<close>

section \<open>Payload hash\<close>

datatype payload_item = Payload_artifact bundle_artifact | Payload_triple string string int

fun payload_record :: "payload_item \<Rightarrow> string \<times> string \<times> int" where
  "payload_record (Payload_artifact a) =
     (ba_logical_path a, py_lower (co_sha256 (ba_content a)), co_byte_size (ba_content a))"
| "payload_record (Payload_triple path digest n) = (path, py_lower digest, n)"

fun payload_records :: "payload_item list \<Rightarrow> string set \<Rightarrow> (string \<times> string \<times> int) list res" where
  "payload_records [] seen = Inr []"
| "payload_records (item # items) seen =
     (let (path, digest, n) = payload_record item
      in if path \<in> seen then Inl (ValueError ''duplicate logical_path in payload'')
         else res_bind (payload_records items (insert path seen)) (\<lambda>rs. Inr ((path, digest, n) # rs)))"

fun payload_json :: "string \<times> string \<times> int \<Rightarrow> (string \<times> json) list" where
  "payload_json (path, digest, n) = [(''byte_size'', JInt n), (''logical_path'', JStr path), (''sha256'', JStr digest)]"

definition payload_hash_bytes :: "payload_item list \<Rightarrow> string res" where
  "payload_hash_bytes items = res_bind (payload_records items {}) (\<lambda>rs.
     Inr (canonical_json_bytes (JObj
       [(''artifacts'', JArr (map (\<lambda>r. JObj (payload_json r)) (sort_key fst rs))), (''schema'', JStr ''payload-hash-v1'')])))"

definition compute_payload_hash :: "(string \<Rightarrow> string) \<Rightarrow> payload_item list \<Rightarrow> string res" where
  "compute_payload_hash sha items = res_bind (payload_hash_bytes items) (\<lambda>b. Inr (sha b))"

section \<open>Structural validation\<close>

definition assert_digest :: "string \<Rightarrow> unit res" where
  "assert_digest digest = (if hex64 digest then Inr () else Inl (BundleStructureError ''invalid digest''))"

text \<open>\<^verbatim>\<open>except UriIdentityError as exc: raise BundleStructureError(str(exc))\<close>; other exceptions pass.\<close>

fun as_structure_error :: "'a res \<Rightarrow> 'a res" where
  "as_structure_error (Inl (UriIdentityError m)) = Inl (BundleStructureError m)"
| "as_structure_error r = r"

record binding_state =
  primary_uris :: "string set"
  alias_to_primary :: "string \<rightharpoonup> string"

fun check_aliases :: "string \<Rightarrow> string list \<Rightarrow> string set \<Rightarrow> binding_state \<Rightarrow> binding_state res" where
  "check_aliases uri [] seen st = Inr st"
| "check_aliases uri (al # als) seen st =
     (if al \<in> seen then Inl (BundleStructureError ''duplicate replay alias within binding'')
      else res_bind (as_structure_error (assert_serialized_binding_uri al)) (\<lambda>_.
        if al = uri then Inl (BundleStructureError ''alias equals primary URI'')
        else if al \<in> primary_uris st then Inl (BundleStructureError ''alias collides with primary URI'')
        else if alias_to_primary st al \<noteq> None then Inl (BundleStructureError ''alias shared across bindings'')
        else check_aliases uri als (insert al seen) (st\<lparr>alias_to_primary := (alias_to_primary st)(al \<mapsto> uri)\<rparr>)))"

definition validate_binding :: "(string \<rightharpoonup> bundle_artifact) \<Rightarrow> uri_binding \<Rightarrow> binding_state \<Rightarrow> binding_state res" where
  "validate_binding artifacts b st =
     (let uri = ub_document_uri b
      in res_bind (as_structure_error (assert_serialized_binding_uri uri)) (\<lambda>_.
         res_bind (assert_digest (ub_content_sha256 b)) (\<lambda>_.
         if uri \<in> primary_uris st then Inl (BundleStructureError ''duplicate primary binding URI'')
         else if alias_to_primary st uri \<noteq> None then Inl (BundleStructureError ''primary URI collides with alias'')
         else let st' = st\<lparr>primary_uris := insert uri (primary_uris st)\<rparr>
              in (case artifacts (ub_artifact_path b) of
                  None \<Rightarrow> Inl (BundleStructureError ''binding artifact_path not in payload'')
                | Some a \<Rightarrow>
                    if co_sha256 (ba_content a) \<noteq> ub_content_sha256 b then Inl (BundleStructureError ''binding SHA mismatch'')
                    else check_aliases uri (ub_replay_aliases b) {} st'))))"

definition check_report_uri :: "string set \<Rightarrow> string \<Rightarrow> unit \<Rightarrow> unit res" where
  "check_report_uri primaries uri _ =
     res_bind (as_structure_error (assert_serialized_binding_uri uri)) (\<lambda>_.
       if uri \<notin> primaries then Inl (BundleStructureError ''report-input URI missing authoritative primary binding'')
       else Inr ())"

definition validate_bundle_structure :: "(string \<Rightarrow> string) \<Rightarrow> filing_bundle \<Rightarrow> unit res" where
  "validate_bundle_structure sha b =
     res_bind (assert_digest (fb_payload_hash b)) (\<lambda>_.
     res_bind (compute_payload_hash sha (map Payload_artifact (fb_artifacts b))) (\<lambda>expected.
     if expected \<noteq> fb_payload_hash b then Inl (BundleStructureError ''payload_hash mismatch'')
     else if \<not> distinct (map ba_logical_path (fb_artifacts b)) then Inl (BundleStructureError ''duplicate artifact logical_path'')
     else res_bind (fold_res (validate_binding (map_of (rev (map (\<lambda>a. (ba_logical_path a, a)) (fb_artifacts b)))))
            (fb_uri_bindings b) \<lparr>primary_uris = {}, alias_to_primary = (\<lambda>_. None)\<rparr>) (\<lambda>st.
          fold_res (check_report_uri (primary_uris st)) (concat (map ri_document_uris (fb_report_inputs b))) ())))"

section \<open>Report identity\<close>

definition text_of :: "(json \<Rightarrow> string) \<Rightarrow> json \<Rightarrow> string" where
  "text_of py_str v = (case v of JStr s \<Rightarrow> s | _ \<Rightarrow> py_str v)"

definition report_input_payload :: "(json \<Rightarrow> string) \<Rightarrow> (string \<times> json) list \<Rightarrow> (string \<times> json) list res" where
  "report_input_payload py_str payload =
     (let uris = map_of payload ''document_uris''
      in if map_of payload ''kind'' = Some (JStr ''instance'')
         then (case uris of
             Some (JArr [u]) \<Rightarrow> Inr [(''kind'', JStr ''instance''), (''document_uris'', jstrs [text_of py_str u])]
           | _ \<Rightarrow> Inl (ValueError ''instance report_input requires exactly one document_uri''))
         else if map_of payload ''kind'' = Some (JStr ''ixds'')
         then (case uris of
             Some (JArr (u # us)) \<Rightarrow>
               if map_of payload ''target'' \<noteq> None \<and> map_of payload ''target'' \<noteq> Some (JStr ''default'')
               then Inl (ValueError ''unsupported IXDS target'')
               else Inr [(''kind'', JStr ''ixds''), (''document_uris'', jstrs (map (text_of py_str) (u # us))),
                         (''target'', JStr ''default'')]
           | _ \<Rightarrow> Inl (ValueError ''ixds report_input requires at least one document_uri''))
         else Inl (ValueError ''unknown report_input kind''))"

definition canonical_report_input_json :: "(json \<Rightarrow> string) \<Rightarrow> (string \<times> json) list \<Rightarrow> string res" where
  "canonical_report_input_json py_str payload =
     res_bind (report_input_payload py_str payload) (\<lambda>p. Inr (canonical_json_bytes (JObj p)))"

definition report_key :: "(string \<Rightarrow> string) \<Rightarrow> (json \<Rightarrow> string) \<Rightarrow> (string \<times> json) list \<Rightarrow> string res" where
  "report_key sha py_str payload = res_bind (canonical_report_input_json py_str payload) (\<lambda>b. Inr (sha b))"

section \<open>The payload hash identifies the payload\<close>

lemma payload_records_iff:
  "payload_records items seen = Inr rs \<longleftrightarrow>
     rs = map payload_record items \<and> distinct (map fst rs) \<and> seen \<inter> fst ` set rs = {}"
proof (induction items arbitrary: seen rs)
  case (Cons item items)
  obtain path digest n where r: "payload_record item = (path, digest, n)" by (metis prod_cases3)
  have step: "payload_records (item # items) seen = Inr rs \<longleftrightarrow>
      path \<notin> seen \<and> (\<exists>rs'. payload_records items (insert path seen) = Inr rs' \<and> rs = (path, digest, n) # rs')"
    by (auto simp: r res_bind_Inr_iff)
  define ms where "ms = map payload_record items"
  have m: "map payload_record (item # items) = (path, digest, n) # ms" by (simp add: r ms_def)
  show ?case unfolding step Cons.IH m ms_def [symmetric] by (cases "rs = (path, digest, n) # ms") auto
qed auto

lemma payload_json_inject: "sort_keys (JObj (payload_json r)) = sort_keys (JObj (payload_json s)) \<longleftrightarrow> r = s"
  by (cases r; cases s; subst sort_keys_record_iff) auto

lemma payload_bytes_iff:
  assumes "payload_hash_bytes xs = Inr a" and "payload_hash_bytes ys = Inr b"
  shows "a = b \<longleftrightarrow> payload_record ` set xs = payload_record ` set ys"
proof -
  let ?rs = "\<lambda>items. sort_key fst (map payload_record items)"
  let ?env = "\<lambda>items. [(''artifacts'', JArr (map (\<lambda>r. JObj (payload_json r)) (?rs items))), (''schema'', JStr ''payload-hash-v1'')]"
  have d: "distinct (map fst (map payload_record xs))" "distinct (map fst (map payload_record ys))"
    and ab: "a = canonical_json_bytes (JObj (?env xs))" "b = canonical_json_bytes (JObj (?env ys))"
    using assms by (auto simp: payload_hash_bytes_def res_bind_Inr_iff payload_records_iff)
  have "a = b \<longleftrightarrow> sort_keys (JObj (?env xs)) = sort_keys (JObj (?env ys))"
    by (simp only: ab canonical_json_inject)
  also have "\<dots> \<longleftrightarrow> map (\<lambda>r. sort_keys (JObj (payload_json r))) (?rs xs) = map (\<lambda>r. sort_keys (JObj (payload_json r))) (?rs ys)"
    by (subst sort_keys_record_iff) (auto simp: o_def simp del: sort_keys.simps(6))
  also have "\<dots> \<longleftrightarrow> ?rs xs = ?rs ys"
    by (rule inj_map_eq_map, rule injI) (simp only: payload_json_inject)
  also have "\<dots> \<longleftrightarrow> payload_record ` set xs = payload_record ` set ys"
    using sort_keyed_iff [OF d] by simp
  finally show ?thesis .
qed

lemma canonical_uri_check:
  "as_structure_error (assert_serialized_binding_uri uri) = Inr u \<longleftrightarrow> assert_serialized_binding_uri uri = Inr uri \<and> u = uri"
proof -
  have "as_structure_error r = Inr u \<longleftrightarrow> r = Inr u" for r :: "string res"
    by (cases r rule: as_structure_error.cases) auto
  moreover have "assert_serialized_binding_uri uri = Inr u \<Longrightarrow> u = uri"
    by (auto simp: assert_serialized_binding_uri_def res_bind_Inr_iff split: if_splits)
  ultimately show ?thesis by auto
qed

text \<open>The loops: when they succeed, and which URIs the state then knows.\<close>

lemma check_aliases_step:
  "check_aliases uri (al # als) seen st = Inr st' \<longleftrightarrow>
    al \<notin> seen \<and> assert_serialized_binding_uri al = Inr al \<and> al \<noteq> uri \<and> al \<notin> primary_uris st \<and>
    alias_to_primary st al = None \<and>
    check_aliases uri als (insert al seen) (st\<lparr>alias_to_primary := (alias_to_primary st)(al \<mapsto> uri)\<rparr>) = Inr st'"
  by (auto simp: res_bind_Inr_iff canonical_uri_check split: if_splits)

lemma check_aliases_state:
  "check_aliases uri als seen st = Inr st' \<Longrightarrow>
     primary_uris st' = primary_uris st \<and> dom (alias_to_primary st') = dom (alias_to_primary st) \<union> set als"
proof (induction als arbitrary: seen st)
  case (Cons al als)
  then have "check_aliases uri als (insert al seen) (st\<lparr>alias_to_primary := (alias_to_primary st)(al \<mapsto> uri)\<rparr>) = Inr st'"
    unfolding check_aliases_step by blast
  from Cons.IH [OF this] show ?case by auto
qed auto

lemma check_aliases_ok:
  "(\<exists>st'. check_aliases uri als seen st = Inr st') \<longleftrightarrow>
     distinct als \<and> seen \<inter> set als = {} \<and> (\<forall>al\<in>set als. assert_serialized_binding_uri al = Inr al) \<and>
     uri \<notin> set als \<and> primary_uris st \<inter> set als = {} \<and> dom (alias_to_primary st) \<inter> set als = {}"
proof (induction als arbitrary: seen st)
  case (Cons al als)
  have "(\<exists>st'. check_aliases uri (al # als) seen st = Inr st') \<longleftrightarrow>
    al \<notin> seen \<and> assert_serialized_binding_uri al = Inr al \<and> al \<noteq> uri \<and> al \<notin> primary_uris st \<and>
    alias_to_primary st al = None \<and>
    (\<exists>st'. check_aliases uri als (insert al seen) (st\<lparr>alias_to_primary := (alias_to_primary st)(al \<mapsto> uri)\<rparr>) = Inr st')"
    using check_aliases_step by blast
  then show ?case unfolding Cons.IH by auto
qed auto

text \<open>What is asked of one binding on its own.\<close>

definition binding_ok :: "(string \<rightharpoonup> bundle_artifact) \<Rightarrow> uri_binding \<Rightarrow> bool" where
  "binding_ok artifacts b =
     (assert_serialized_binding_uri (ub_document_uri b) = Inr (ub_document_uri b) \<and> hex64 (ub_content_sha256 b) \<and>
      (\<exists>a. artifacts (ub_artifact_path b) = Some a \<and> co_sha256 (ba_content a) = ub_content_sha256 b) \<and>
      (\<forall>al\<in>set (ub_replay_aliases b). assert_serialized_binding_uri al = Inr al))"

lemma validate_binding_step:
  "validate_binding artifacts b st = Inr st' \<longleftrightarrow>
     assert_serialized_binding_uri (ub_document_uri b) = Inr (ub_document_uri b) \<and> hex64 (ub_content_sha256 b) \<and>
     (\<exists>a. artifacts (ub_artifact_path b) = Some a \<and> co_sha256 (ba_content a) = ub_content_sha256 b) \<and>
     ub_document_uri b \<notin> primary_uris st \<and> alias_to_primary st (ub_document_uri b) = None \<and>
     check_aliases (ub_document_uri b) (ub_replay_aliases b) {}
       (st\<lparr>primary_uris := insert (ub_document_uri b) (primary_uris st)\<rparr>) = Inr st'"
  by (auto simp: validate_binding_def Let_def res_bind_Inr_iff canonical_uri_check assert_digest_def split: if_splits option.splits)

lemma validate_binding_state:
  "validate_binding artifacts b st = Inr st' \<Longrightarrow>
     primary_uris st' = insert (ub_document_uri b) (primary_uris st) \<and>
     dom (alias_to_primary st') = dom (alias_to_primary st) \<union> set (ub_replay_aliases b)"
proof -
  assume "validate_binding artifacts b st = Inr st'"
  then have "check_aliases (ub_document_uri b) (ub_replay_aliases b) {}
      (st\<lparr>primary_uris := insert (ub_document_uri b) (primary_uris st)\<rparr>) = Inr st'"
    unfolding validate_binding_step by blast
  from check_aliases_state [OF this] show ?thesis by simp
qed

lemma validate_binding_ok:
  "(\<exists>st'. validate_binding artifacts b st = Inr st') \<longleftrightarrow>
     binding_ok artifacts b \<and> distinct (ub_document_uri b # ub_replay_aliases b) \<and>
     (primary_uris st \<union> dom (alias_to_primary st)) \<inter> set (ub_document_uri b # ub_replay_aliases b) = {}"
  unfolding validate_binding_step binding_ok_def ex_simps check_aliases_ok by (auto simp: domIff)

lemma validate_bindings_state:
  "fold_res (validate_binding artifacts) bs st = Inr st' \<Longrightarrow>
     primary_uris st' = primary_uris st \<union> ub_document_uri ` set bs \<and>
     dom (alias_to_primary st') = dom (alias_to_primary st) \<union> (\<Union>b\<in>set bs. set (ub_replay_aliases b))"
proof (induction bs arbitrary: st)
  case (Cons b bs)
  then obtain t where t: "validate_binding artifacts b st = Inr t" "fold_res (validate_binding artifacts) bs t = Inr st'"
    by (auto simp: res_bind_Inr_iff)
  show ?case using Cons.IH [OF t(2)] validate_binding_state [OF t(1)] by auto
qed auto

lemma validate_bindings_ok:
  "(\<exists>st'. fold_res (validate_binding artifacts) bs st = Inr st') \<longleftrightarrow>
     list_all (binding_ok artifacts) bs \<and>
     distinct (concat (map (\<lambda>b. ub_document_uri b # ub_replay_aliases b) bs)) \<and>
     (primary_uris st \<union> dom (alias_to_primary st)) \<inter> set (concat (map (\<lambda>b. ub_document_uri b # ub_replay_aliases b) bs)) = {}"
proof (induction bs arbitrary: st)
  case (Cons b bs)
  show ?case
  proof (cases "validate_binding artifacts b st")
    case (Inl e)
    then have "\<not> (\<exists>st'. validate_binding artifacts b st = Inr st')" by simp
    then show ?thesis unfolding validate_binding_ok using Inl by auto
  next
    case (Inr t)
    then have ok: "\<exists>st'. validate_binding artifacts b st = Inr st'" by blast
    define new where "new = ub_document_uri b # ub_replay_aliases b"
    define later where "later = concat (map (\<lambda>b. ub_document_uri b # ub_replay_aliases b) bs)"
    have known: "primary_uris t \<union> dom (alias_to_primary t) = (primary_uris st \<union> dom (alias_to_primary st)) \<union> set new"
      using validate_binding_state [OF Inr] by (auto simp: new_def)
    have "(\<exists>st'. fold_res (validate_binding artifacts) (b # bs) st = Inr st') \<longleftrightarrow>
        list_all (binding_ok artifacts) bs \<and> distinct later \<and>
        ((primary_uris st \<union> dom (alias_to_primary st)) \<union> set new) \<inter> set later = {}"
      using Cons.IH [of t] unfolding known by (simp add: Inr later_def)
    moreover have "concat (map (\<lambda>b. ub_document_uri b # ub_replay_aliases b) (b # bs)) = new @ later"
      by (simp add: new_def later_def)
    moreover have "binding_ok artifacts b" "distinct new" "(primary_uris st \<union> dom (alias_to_primary st)) \<inter> set new = {}"
      using ok unfolding validate_binding_ok new_def by blast+
    ultimately show ?thesis by auto
  qed
qed auto

lemma map_of_paths: "distinct (map ba_logical_path as) \<Longrightarrow>
  map_of (rev (map (\<lambda>a. (ba_logical_path a, a)) as)) p = find (\<lambda>a. ba_logical_path a = p) as"
proof -
  assume d: "distinct (map ba_logical_path as)"
  have "map_of (map (\<lambda>a. (ba_logical_path a, a)) as) p = find (\<lambda>a. ba_logical_path a = p) as"
    by (induction as) auto
  moreover have k: "distinct (map fst (map (\<lambda>a. (ba_logical_path a, a)) as))" using d by (simp add: o_def)
  have "map_of (rev (map (\<lambda>a. (ba_logical_path a, a)) as)) = map_of (map (\<lambda>a. (ba_logical_path a, a)) as)"
    by (rule map_of_inject_set [THEN iffD2]) (simp_all only: k rev_map [symmetric] distinct_rev set_rev)
  ultimately show ?thesis by simp
qed

lemma check_report_uris_ok:
  "fold_res (check_report_uri primaries) uris () = Inr () \<longleftrightarrow>
     (\<forall>uri\<in>set uris. assert_serialized_binding_uri uri = Inr uri \<and> uri \<in> primaries)"
  by (induction uris) (auto simp: check_report_uri_def res_bind_Inr_iff canonical_uri_check split: if_splits)

lemma bundle_structure_valid:
  "validate_bundle_structure sha b = Inr () \<longleftrightarrow>
     hex64 (fb_payload_hash b) \<and>
     compute_payload_hash sha (map Payload_artifact (fb_artifacts b)) = Inr (fb_payload_hash b) \<and>
     list_all (binding_ok (artifact_by_path b)) (fb_uri_bindings b) \<and>
     distinct (concat (map (\<lambda>u. ub_document_uri u # ub_replay_aliases u) (fb_uri_bindings b))) \<and>
     list_all (\<lambda>uri. assert_serialized_binding_uri uri = Inr uri \<and> uri \<in> ub_document_uri ` set (fb_uri_bindings b))
       (concat (map ri_document_uris (fb_report_inputs b)))"
proof -
  define start :: binding_state where "start = \<lparr>primary_uris = {}, alias_to_primary = (\<lambda>_. None)\<rparr>"
  let ?items = "map Payload_artifact (fb_artifacts b)"
  have paths: "distinct (map ba_logical_path (fb_artifacts b))" if "compute_payload_hash sha ?items = Inr h" for h
    using that by (auto simp: compute_payload_hash_def payload_hash_bytes_def res_bind_Inr_iff payload_records_iff o_def)
  have loop: "(\<exists>st. fold_res (validate_binding arts) (fb_uri_bindings b) start = Inr st \<and>
        fold_res (check_report_uri (primary_uris st)) uris () = Inr ()) \<longleftrightarrow>
      (\<exists>st. fold_res (validate_binding arts) (fb_uri_bindings b) start = Inr st) \<and>
      list_all (\<lambda>uri. assert_serialized_binding_uri uri = Inr uri \<and> uri \<in> ub_document_uri ` set (fb_uri_bindings b)) uris"
    for arts uris
  proof -
    have "primary_uris st = ub_document_uri ` set (fb_uri_bindings b)"
      if "fold_res (validate_binding arts) (fb_uri_bindings b) start = Inr st" for st
      using validate_bindings_state [OF that] by (simp add: start_def)
    then show ?thesis unfolding check_report_uris_ok list_all_iff
      by (cases "fold_res (validate_binding arts) (fb_uri_bindings b) start") simp_all
  qed
  have "validate_bundle_structure sha b = Inr () \<longleftrightarrow>
      hex64 (fb_payload_hash b) \<and> compute_payload_hash sha ?items = Inr (fb_payload_hash b) \<and>
      (\<exists>st. fold_res (validate_binding (map_of (rev (map (\<lambda>a. (ba_logical_path a, a)) (fb_artifacts b)))))
           (fb_uri_bindings b) start = Inr st \<and>
         fold_res (check_report_uri (primary_uris st)) (concat (map ri_document_uris (fb_report_inputs b))) () = Inr ())"
    using paths by (auto simp: validate_bundle_structure_def res_bind_Inr_iff assert_digest_def start_def split: if_splits)
  also have "\<dots> \<longleftrightarrow> hex64 (fb_payload_hash b) \<and> compute_payload_hash sha ?items = Inr (fb_payload_hash b) \<and>
      (\<exists>st. fold_res (validate_binding (artifact_by_path b)) (fb_uri_bindings b) start = Inr st) \<and>
      list_all (\<lambda>uri. assert_serialized_binding_uri uri = Inr uri \<and> uri \<in> ub_document_uri ` set (fb_uri_bindings b))
        (concat (map ri_document_uris (fb_report_inputs b)))"
  proof -
    have "map_of (rev (map (\<lambda>a. (ba_logical_path a, a)) (fb_artifacts b))) = artifact_by_path b"
      if "compute_payload_hash sha ?items = Inr (fb_payload_hash b)"
      using map_of_paths [OF paths [OF that]] by (intro ext) (simp add: artifact_by_path_def)
    then show ?thesis unfolding loop
      by (cases "compute_payload_hash sha ?items = Inr (fb_payload_hash b)") simp_all
  qed
  finally show ?thesis by (simp add: validate_bindings_ok start_def)
qed

section \<open>Properties\<close>

text \<open>
  Property C21: structural validation accepts exactly the sound bundles.  The stored payload hash is the
  hash of the artifacts (whose paths are then distinct), every binding names an artifact of the payload
  with its digest, all primary URIs and replay aliases of all bindings are canonical and pairwise
  different, and every URI of a report input has an authoritative primary binding.
\<close>

theorem bundle_structure_iff:
  "validate_bundle_structure sha b = Inr () \<longleftrightarrow>
     hex64 (fb_payload_hash b) \<and>
     compute_payload_hash sha (map Payload_artifact (fb_artifacts b)) = Inr (fb_payload_hash b) \<and>
     list_all (binding_ok (artifact_by_path b)) (fb_uri_bindings b) \<and>
     distinct (concat (map (\<lambda>u. ub_document_uri u # ub_replay_aliases u) (fb_uri_bindings b))) \<and>
     list_all (\<lambda>uri. assert_serialized_binding_uri uri = Inr uri \<and> uri \<in> ub_document_uri ` set (fb_uri_bindings b))
       (concat (map ri_document_uris (fb_report_inputs b)))"
  by (rule bundle_structure_valid)

text \<open>
  For a collision-free digest the payload hash identifies the payload: two lists of
  artifacts hash to the same text exactly when they hold the same paths with the same digests and
  sizes, in whatever order.
\<close>

theorem payload_hash_iff:
  assumes "inj sha" and "compute_payload_hash sha xs = Inr h" and "compute_payload_hash sha ys = Inr k"
  shows "h = k \<longleftrightarrow> payload_record ` set xs = payload_record ` set ys"
proof -
  obtain a b where ab: "payload_hash_bytes xs = Inr a" "payload_hash_bytes ys = Inr b" "h = sha a" "k = sha b"
    using assms(2,3) unfolding compute_payload_hash_def res_bind_Inr_iff by auto
  then show ?thesis using payload_bytes_iff [OF ab(1,2)] inj_eq [OF assms(1)] by simp
qed

theorem payload_hash_iff_witness:
  "compute_payload_hash id [Payload_triple ''b'' ''AA'' 1, Payload_triple ''a'' ''bb'' 2] =
     compute_payload_hash id [Payload_triple ''a'' ''BB'' 2, Payload_triple ''b'' ''aa'' 1]"
proof -
  let ?xs = "[Payload_triple ''b'' ''AA'' 1, Payload_triple ''a'' ''bb'' 2]"
  let ?ys = "[Payload_triple ''a'' ''BB'' 2, Payload_triple ''b'' ''aa'' 1]"
  obtain h k where hk: "compute_payload_hash id ?xs = Inr h" "compute_payload_hash id ?ys = Inr k"
    by (auto simp: compute_payload_hash_def payload_hash_bytes_def)
  have "payload_record ` set ?xs = payload_record ` set ?ys"
    by (simp add: insert_commute) code_simp
  then have "h = k" using payload_hash_iff [OF inj_on_id hk] by blast
  then show ?thesis using hk by simp
qed

text \<open>The report key identifies the report input.\<close>

lemma report_key_inject:
  assumes "inj sha" and "wf_report_input a" and "wf_report_input b"
  shows "report_key sha py_str (report_input_to_dict a) = report_key sha py_str (report_input_to_dict b) \<longleftrightarrow> a = b"
proof -
  have "report_input_payload py_str (report_input_to_dict r) = Inr (report_input_to_dict r)" if "wf_report_input r" for r
  proof (cases r)
    case (InstanceReportInput uris)
    then show ?thesis using that by (auto simp: report_input_payload_def jstrs_def text_of_def)
  next
    case (IxdsReportInput uris target)
    then show ?thesis using that by (cases uris) (auto simp: report_input_payload_def jstrs_def text_of_def)
  qed
  then have "report_key sha py_str (report_input_to_dict r) = Inr (sha (canonical_json_bytes (JObj (report_input_to_dict r))))"
    if "wf_report_input r" for r
    using that by (simp add: report_key_def canonical_report_input_json_def)
  then have "report_key sha py_str (report_input_to_dict a) = report_key sha py_str (report_input_to_dict b) \<longleftrightarrow>
      sort_keys (JObj (report_input_to_dict a)) = sort_keys (JObj (report_input_to_dict b))"
    using assms by (simp add: inj_eq del: sort_keys.simps(6))
  then show ?thesis using report_input_codec.encode_inject [OF assms(2,3)] by blast
qed

end
