(* ===== verification/Store.thy ===== *)
theory Store
  imports Bundle_Check
begin

text \<open>
  The content-addressed object store (\<^verbatim>\<open>storage/objects.py\<close>) and the publication of filing bundles
  (\<^verbatim>\<open>storage/bundles.py\<close>).

  The store is the map from digests to the bytes of the file at \<^verbatim>\<open>objects/sha256/aa/digest\<close>; temporary
  files are gone when an operation returns and are left out.  The repository keeps, for an accession, the
  children of its directory: a directory holds \<^verbatim>\<open>bundle.json\<close> or not, and its content is the value
  \<^verbatim>\<open>json.loads\<close> reads, if it reads one.  An operation that changes files returns the new state beside its
  result, also when it raises.  The fresh \<^verbatim>\<open>uuid4\<close> is an argument.
\<close>

section \<open>Objects\<close>

type_synonym store = "string \<rightharpoonup> string"

record stored_object =
  so_sha256 :: string
  so_byte_size :: nat
  so_storage_path :: "string list"

definition path_for :: "string \<Rightarrow> string list res" where
  "path_for digest =
     (if hex64 digest then Inr [''objects'', ''sha256'', take 2 digest, digest]
      else Inl (ValueError ''digest must be 64 lowercase hex chars''))"

definition put_bytes :: "(string \<Rightarrow> string) \<Rightarrow> string \<Rightarrow> store \<Rightarrow> (stored_object \<times> store) res" where
  "put_bytes sha data st =
     (let digest = sha data
      in res_bind (path_for digest) (\<lambda>dest.
         let obj = \<lparr>so_sha256 = digest, so_byte_size = length data, so_storage_path = dest\<rparr>
         in (case st digest of
               Some existing \<Rightarrow>
                 if existing \<noteq> data then Inl (ValueError ''content-address collision'') else Inr (obj, st)
             | None \<Rightarrow> Inr (obj, st(digest \<mapsto> data)))))"

text \<open>The loop over the chunks: what has been written so far, or the limit.\<close>

fun write_chunks :: "nat \<Rightarrow> string list \<Rightarrow> string \<Rightarrow> string res" where
  "write_chunks max_bytes [] written = Inr written"
| "write_chunks max_bytes (chunk # chunks) written =
     (if chunk = [] then write_chunks max_bytes chunks written
      else if length written + length chunk > max_bytes then Inl SizeLimitExceeded
      else write_chunks max_bytes chunks (written @ chunk))"

definition put_stream :: "(string \<Rightarrow> string) \<Rightarrow> nat \<Rightarrow> string list \<Rightarrow> store \<Rightarrow> (stored_object \<times> store) res" where
  "put_stream sha max_bytes chunks st =
     res_bind (write_chunks max_bytes chunks []) (\<lambda>data.
       let digest = sha data
       in res_bind (path_for digest) (\<lambda>dest.
          let obj = \<lparr>so_sha256 = digest, so_byte_size = length data, so_storage_path = dest\<rparr>
          in (case st digest of
                Some existing \<Rightarrow>
                  if existing \<noteq> data then Inl (ValueError ''content-address collision'') else Inr (obj, st)
              | None \<Rightarrow> Inr (obj, st(digest \<mapsto> data)))))"

definition open_bytes :: "(string \<Rightarrow> string) \<Rightarrow> store \<Rightarrow> string \<Rightarrow> string res" where
  "open_bytes sha st digest =
     res_bind (path_for digest) (\<lambda>_.
       case st digest of
         None \<Rightarrow> Inl (OSError ''no such file'')
       | Some data \<Rightarrow> if sha data \<noteq> py_lower digest then Inl (ValueError ''CAS integrity failure'') else Inr data)"

definition object_exists :: "store \<Rightarrow> string \<Rightarrow> bool res" where
  "object_exists st digest = res_bind (path_for digest) (\<lambda>_. Inr (st digest \<noteq> None))"

section \<open>Integrity of a bundle\<close>

fun as_storage_error :: "'a res \<Rightarrow> 'a res" where
  "as_storage_error (Inl (BundleStructureError m)) = Inl (BundleStorageError m)"
| "as_storage_error r = r"

text \<open>\<^verbatim>\<open>except (OSError, ValueError)\<close> around the read.\<close>

definition read_for_check :: "(string \<Rightarrow> string) \<Rightarrow> store \<Rightarrow> string \<Rightarrow> string res" where
  "read_for_check sha st digest = (case open_bytes sha st digest of
      Inl (OSError _) \<Rightarrow> Inl (BundleStorageError ''cannot validate CAS object'')
    | Inl e \<Rightarrow> if is_value_error e then Inl (BundleStorageError ''cannot validate CAS object'') else Inl e
    | Inr data \<Rightarrow> Inr data)"

definition check_artifact ::
  "(string \<Rightarrow> string) \<Rightarrow> store \<Rightarrow> bundle_artifact \<Rightarrow> (string \<rightharpoonup> nat) \<Rightarrow> (string \<rightharpoonup> nat) res" where
  "check_artifact sha st a measured =
     (let digest = co_sha256 (ba_content a)
      in res_bind (case measured digest of
             Some n \<Rightarrow> Inr n
           | None \<Rightarrow> res_bind (object_exists st digest) (\<lambda>ex.
               if \<not> ex then Inl (BundleStorageError ''missing CAS object'')
               else res_bind (read_for_check sha st digest) (\<lambda>data. Inr (length data)))) (\<lambda>n.
         if int n \<noteq> co_byte_size (ba_content a) then Inl (BundleStorageError ''CAS size mismatch'')
         else Inr (measured(digest \<mapsto> n))))"

definition validate_bundle_integrity :: "(string \<Rightarrow> string) \<Rightarrow> store \<Rightarrow> filing_bundle \<Rightarrow> unit res" where
  "validate_bundle_integrity sha st b =
     res_bind (as_storage_error (validate_bundle_structure sha b)) (\<lambda>_.
     res_bind (fold_res (check_artifact sha st) (fb_artifacts b) (\<lambda>_. None)) (\<lambda>_. Inr ()))"

section \<open>The repository\<close>

datatype child = Plain_file | Special_file | Directory "json option option"

type_synonym listing = "(string \<times> child) list"

record repo =
  rp_store :: store
  rp_root :: "string \<times> string \<rightharpoonup> listing"

definition is_uuid4_hex :: "string \<Rightarrow> bool" where
  "is_uuid4_hex name = is_ok (validate_uuid4_hex name)"

definition staging_name :: "string \<Rightarrow> bool" where
  "staging_name name = startswith name ''.staging-''"

text \<open>One directory entry of an accession: nothing, or the bundle published there.\<close>

definition read_published ::
  "(string \<Rightarrow> string) \<Rightarrow> store \<Rightarrow> string \<Rightarrow> string \<Rightarrow> string \<times> child \<Rightarrow> (string \<times> filing_bundle) option res" where
  "read_published sha st cik accession entry =
     (case snd entry of
        Plain_file \<Rightarrow> Inr None
      | Special_file \<Rightarrow> Inr None
      | Directory descriptor \<Rightarrow>
          if staging_name (fst entry) then Inr None
          else if \<not> is_uuid4_hex (fst entry) then Inl (BundleStorageError ''unexpected directory under published accession path'')
          else (case descriptor of
              None \<Rightarrow> Inl (BundleStorageError ''canonical publish directory missing bundle.json'')
            | Some None \<Rightarrow> Inl (BundleStorageError ''corrupt published bundle descriptor'')
            | Some (Some data) \<Rightarrow>
                (case bundle_from_dict data of
                   Inl _ \<Rightarrow> Inl (BundleStorageError ''corrupt published bundle descriptor'')
                 | Inr b \<Rightarrow>
                     if fi_cik (fb_filing b) \<noteq> cik \<or> fi_accession (fb_filing b) \<noteq> accession
                     then Inl (BundleStorageError ''bundle filing identity does not match directory path'')
                     else res_bind (validate_bundle_integrity sha st b) (\<lambda>_. Inr (Some (fst entry, b))))))"

definition list_published ::
  "(string \<Rightarrow> string) \<Rightarrow> repo \<Rightarrow> string \<Rightarrow> string \<Rightarrow> (string \<times> filing_bundle) list res" where
  "list_published sha r cik accession =
     (case rp_root r (cik, accession) of
        None \<Rightarrow> Inr []
      | Some entries \<Rightarrow>
          res_bind (map_res (read_published sha (rp_store r) cik accession) (sort_key fst entries)) (\<lambda>xs. Inr (somes xs)))"

text \<open>The first published bundle with the evidence of the new one.\<close>

fun find_equivalent :: "filing_bundle \<Rightarrow> (string \<times> filing_bundle) list \<Rightarrow> (string \<times> filing_bundle) option res" where
  "find_equivalent b [] = Inr None"
| "find_equivalent b ((name, existing) # rest) =
     res_bind (bundles_equivalent existing b) (\<lambda>same. if same then Inr (Some (name, existing)) else find_equivalent b rest)"

definition make_root :: "string \<times> string \<Rightarrow> repo \<Rightarrow> repo" where
  "make_root key r = (case rp_root r key of None \<Rightarrow> r\<lparr>rp_root := (rp_root r)(key \<mapsto> [])\<rparr> | Some _ \<Rightarrow> r)"

fun orphan_staging :: "string \<times> child \<Rightarrow> bool" where
  "orphan_staging (name, Directory _) = staging_name name"
| "orphan_staging (name, _) = False"

definition on_listing :: "string \<times> string \<Rightarrow> (listing \<Rightarrow> listing) \<Rightarrow> repo \<Rightarrow> repo" where
  "on_listing key f r = r\<lparr>rp_root := (\<lambda>k. if k = key then map_option f (rp_root r key) else rp_root r k)\<rparr>"

definition clean_orphan_staging :: "string \<times> string \<Rightarrow> repo \<Rightarrow> repo" where
  "clean_orphan_staging key r = on_listing key (filter (\<lambda>e. \<not> orphan_staging e)) r"

definition names_of :: "string \<times> string \<Rightarrow> repo \<Rightarrow> string set" where
  "names_of key r = (case rp_root r key of None \<Rightarrow> {} | Some entries \<Rightarrow> fst ` set entries)"

definition add_child :: "string \<times> string \<Rightarrow> string \<Rightarrow> child \<Rightarrow> repo \<Rightarrow> repo" where
  "add_child key name c r = on_listing key (\<lambda>entries. entries @ [(name, c)]) r"

definition remove_child :: "string \<times> string \<Rightarrow> string \<Rightarrow> repo \<Rightarrow> repo" where
  "remove_child key name r = on_listing key (filter (\<lambda>e. fst e \<noteq> name)) r"

definition bundle_key :: "filing_bundle \<Rightarrow> string \<times> string" where
  "bundle_key b = (fi_cik (fb_filing b), fi_accession (fb_filing b))"

definition descriptor_of :: "filing_bundle \<Rightarrow> json" where
  "descriptor_of b = sort_keys (JObj (bundle_to_dict b))"

record publish_result =
  pr_bundle :: filing_bundle
  pr_opaque_id :: string
  pr_reused :: bool

text \<open>Under the lock, before anything is staged: the existing bundle, or none and a checked new one.\<close>

definition publish_check :: "(string \<Rightarrow> string) \<Rightarrow> filing_bundle \<Rightarrow> repo \<Rightarrow> (string \<times> filing_bundle) option res" where
  "publish_check sha b r =
     res_bind (list_published sha r (fi_cik (fb_filing b)) (fi_accession (fb_filing b))) (\<lambda>published.
     res_bind (find_equivalent b published) (\<lambda>found.
       case found of
         Some e \<Rightarrow> Inr (Some e)
       | None \<Rightarrow> res_bind (validate_bundle_integrity sha (rp_store r) b) (\<lambda>_. Inr None)))"

text \<open>\<^verbatim>\<open>write_json_atomic(staging / "bundle.json", \<dots>)\<close>.\<close>

definition write_descriptor :: "string \<times> string \<Rightarrow> string \<Rightarrow> filing_bundle \<Rightarrow> repo \<Rightarrow> repo" where
  "write_descriptor key name b r =
     on_listing key (map (\<lambda>(n, c). (n, if n = name then Directory (Some (Some (descriptor_of b))) else c))) r"

text \<open>\<^verbatim>\<open>Path.rename\<close> onto an existing directory that holds a file fails, and the staging directory is removed.\<close>

definition rename_staging :: "string \<times> string \<Rightarrow> string \<Rightarrow> repo \<Rightarrow> repo" where
  "rename_staging key opaque_id r =
     on_listing key (map (\<lambda>(n, c). (if n = ''.staging-'' @ opaque_id then opaque_id else n, c))) r"

definition publish :: "(string \<Rightarrow> string) \<Rightarrow> string \<Rightarrow> filing_bundle \<Rightarrow> repo \<Rightarrow> publish_result res \<times> repo" where
  "publish sha opaque_id b r =
     (case validate_bundle_structure sha b of
        Inl e \<Rightarrow> (Inl e, r)
      | Inr _ \<Rightarrow>
          (let key = bundle_key b; r1 = clean_orphan_staging key (make_root key r); staging = ''.staging-'' @ opaque_id
           in case publish_check sha b r1 of
                Inl e \<Rightarrow> (Inl e, r1)
              | Inr (Some (name, existing)) \<Rightarrow> (Inr \<lparr>pr_bundle = existing, pr_opaque_id = name, pr_reused = True\<rparr>, r1)
              | Inr None \<Rightarrow>
                  if staging \<in> names_of key r1 then (Inl (BundleStorageError ''staging directory already exists''), r1)
                  else (let r2 = write_descriptor key staging b (add_child key staging (Directory None) r1)
                        in if opaque_id \<in> names_of key r2 then (Inl (OSError ''rename''), remove_child key staging r2)
                           else (Inr \<lparr>pr_bundle = b, pr_opaque_id = opaque_id, pr_reused = False\<rparr>,
                                 rename_staging key opaque_id r2))))"

text \<open>Loading one bundle directory; \<open>parts\<close> are the components of the resolved path.\<close>

definition load_bundle ::
  "(string \<Rightarrow> string) \<Rightarrow> store \<Rightarrow> string list \<Rightarrow> json option option \<Rightarrow> filing_bundle res" where
  "load_bundle sha st parts descriptor =
     (case descriptor of
        None \<Rightarrow> Inl (OSError ''no such file'')
      | Some None \<Rightarrow> Inl (ValueError ''invalid JSON'')
      | Some (Some data) \<Rightarrow>
          res_bind (bundle_from_dict data) (\<lambda>b.
            if 3 \<le> length parts \<and> (fi_cik (fb_filing b) \<noteq> parts ! (length parts - 3) \<or>
                 fi_accession (fb_filing b) \<noteq> parts ! (length parts - 2))
            then Inl (BundleStorageError ''bundle filing identity does not match directory path'')
            else res_bind (validate_bundle_integrity sha st b) (\<lambda>_. Inr b)))"

text \<open>\<open>relative\<close>: the parts of the resolved path below the bundles root, as \<open>assert_path_under\<close> finds them.\<close>

definition validate_published_bundle_path ::
  "('p \<Rightarrow> string list) \<Rightarrow> 'p \<Rightarrow> 'p \<Rightarrow> (string \<times> string \<times> string) res" where
  "validate_published_bundle_path resolve bundles_root bundle_dir =
     res_bind (assert_path_under resolve bundle_dir bundles_root) (\<lambda>resolved.
       case drop (length (resolve bundles_root)) resolved of
         [cik, accession, opaque_id] \<Rightarrow>
           res_bind (validate_cik cik) (\<lambda>canonical.
             if canonical \<noteq> cik then Inl (ValueError ''noncanonical CIK in publication path'')
             else res_bind (validate_accession accession) (\<lambda>_.
                  res_bind (validate_uuid4_hex opaque_id) (\<lambda>_. Inr (opaque_id, cik, accession))))
       | _ \<Rightarrow> Inl (ValueError ''bundle_dir must be bundles/cik/accession/opaque_id''))"

section \<open>What the store keeps\<close>

definition store_ok :: "(string \<Rightarrow> string) \<Rightarrow> store \<Rightarrow> bool" where
  "store_ok sha st = (\<forall>d x. st d = Some x \<longrightarrow> sha x = d)"

lemma write_chunks_iff:
  "length written \<le> max_bytes \<Longrightarrow>
     write_chunks max_bytes chunks written =
       (if length written + length (concat chunks) \<le> max_bytes then Inr (written @ concat chunks) else Inl SizeLimitExceeded)"
  by (induction chunks arbitrary: written) auto

lemma put_bytes_ok:
  assumes "store_ok sha st" and "put_bytes sha data st = Inr (obj, st')"
  shows "store_ok sha st'" and "st' (sha data) = Some data" and "so_sha256 obj = sha data"
    and "so_byte_size obj = length data" and "\<And>d x. st d = Some x \<Longrightarrow> st' d = Some x"
proof -
  have "(st (sha data) = Some data \<and> st' = st \<or> st (sha data) = None \<and> st' = st(sha data \<mapsto> data)) \<and>
      so_sha256 obj = sha data \<and> so_byte_size obj = length data"
    using assms(2) by (cases "st (sha data)") (auto simp: put_bytes_def Let_def res_bind_Inr_iff split: if_splits)
  then show "store_ok sha st'" "st' (sha data) = Some data" "so_sha256 obj = sha data"
    "so_byte_size obj = length data" "\<And>d x. st d = Some x \<Longrightarrow> st' d = Some x"
    using assms(1) by (auto simp: store_ok_def split: if_splits)
qed

lemma open_bytes_ok:
  assumes "hex64 d"
  shows "open_bytes sha st d = Inr x \<longleftrightarrow> st d = Some x \<and> sha x = d"
  using assms hex64_lower [OF assms] by (auto simp: open_bytes_def path_for_def split: option.splits if_splits)

end
