(* ===== verification/Publication.thy ===== *)
theory Publication
  imports Store
begin

text \<open>
  Properties of the object store and of publication.  Publication is a small-step machine: under the
  accession lock a publisher checks, makes a staging directory, writes the descriptor and renames the
  directory; it may die between any two of these steps, and objects may be stored meanwhile.  The
  invariant of its reachable states is that every canonical directory holds the descriptor of a valid
  bundle and no two hold the same evidence; from every reachable state a publication succeeds.
\<close>

section \<open>Integrity\<close>

lemma check_artifact_iff:
  assumes "hex64 (co_sha256 (ba_content a))" and "\<forall>d n. measured d = Some n \<longrightarrow> (\<exists>x. st d = Some x \<and> sha x = d \<and> length x = n)"
  shows "check_artifact sha st a measured = Inr m \<longleftrightarrow>
    (\<exists>x. st (co_sha256 (ba_content a)) = Some x \<and> sha x = co_sha256 (ba_content a) \<and>
         int (length x) = co_byte_size (ba_content a) \<and> m = measured(co_sha256 (ba_content a) \<mapsto> length x))"
proof -
  let ?d = "co_sha256 (ba_content a)"
  have rd: "read_for_check sha st ?d = Inr x \<longleftrightarrow> st ?d = Some x \<and> sha x = ?d" for x
    using open_bytes_ok [OF assms(1), of sha st x] by (auto simp: read_for_check_def split: sum.splits exn.splits if_splits)
  show ?thesis
  proof (cases "measured ?d")
    case None
    then show ?thesis using rd assms(1)
      by (auto simp: check_artifact_def object_exists_def path_for_def res_bind_Inr_iff Let_def split: if_splits)
  next
    case (Some n)
    then obtain x where "st ?d = Some x" "sha x = ?d" "length x = n" using assms(2) by blast
    then show ?thesis using Some by (auto simp: check_artifact_def Let_def)
  qed
qed

definition stored :: "(string \<Rightarrow> string) \<Rightarrow> store \<Rightarrow> bundle_artifact \<Rightarrow> bool" where
  "stored sha st a = (\<exists>x. st (co_sha256 (ba_content a)) = Some x \<and> sha x = co_sha256 (ba_content a) \<and>
     int (length x) = co_byte_size (ba_content a))"

lemma check_artifacts_iff:
  assumes "\<forall>a\<in>set as. hex64 (co_sha256 (ba_content a))"
    and "\<forall>d n. measured d = Some n \<longrightarrow> (\<exists>x. st d = Some x \<and> sha x = d \<and> length x = n)"
  shows "(\<exists>m. fold_res (check_artifact sha st) as measured = Inr m) \<longleftrightarrow> list_all (stored sha st) as"
  using assms
proof (induction as arbitrary: measured)
  case (Cons a as)
  have hex: "hex64 (co_sha256 (ba_content a))" using Cons.prems by simp
  note step = check_artifact_iff [OF hex Cons.prems(2)]
  show ?case
  proof (cases "stored sha st a")
    case True
    then obtain x where x: "st (co_sha256 (ba_content a)) = Some x" "sha x = co_sha256 (ba_content a)"
        "int (length x) = co_byte_size (ba_content a)" by (auto simp: stored_def)
    have "check_artifact sha st a measured = Inr (measured(co_sha256 (ba_content a) \<mapsto> length x))"
      using step x by blast
    moreover have "\<forall>d n. (measured(co_sha256 (ba_content a) \<mapsto> length x)) d = Some n \<longrightarrow> (\<exists>x. st d = Some x \<and> sha x = d \<and> length x = n)"
      using Cons.prems(2) x by simp
    ultimately show ?thesis using True Cons.IH Cons.prems(1) by simp
  next
    case False
    then have "\<not> (\<exists>m. check_artifact sha st a measured = Inr m)" using step by (auto simp: stored_def)
    then show ?thesis using False by (cases "check_artifact sha st a measured") auto
  qed
qed simp

lemma integrity_iff:
  assumes "wf_bundle b"
  shows "validate_bundle_integrity sha st b = Inr () \<longleftrightarrow>
    validate_bundle_structure sha b = Inr () \<and> list_all (stored sha st) (fb_artifacts b)"
proof -
  have hex: "\<forall>a\<in>set (fb_artifacts b). hex64 (co_sha256 (ba_content a))"
    using assms by (simp add: wf_bundle_def list_all_iff wf_artifact_def wf_content_def)
  have "as_storage_error r = Inr () \<longleftrightarrow> r = Inr ()" for r :: "unit res"
    by (cases r rule: as_storage_error.cases) auto
  then show ?thesis
    using check_artifacts_iff [OF hex, of "\<lambda>_. None" st sha]
    by (auto simp: validate_bundle_integrity_def res_bind_Inr_iff)
qed

section \<open>Reading descriptors back\<close>

lemma map_sort_key_fst:
  assumes "\<And>x. fst (g x) = fst x"
  shows "map g (sort_key fst xs) = sort_key fst (map g xs)"
proof -
  have ins: "map g (insort_key fst x xs) = insort_key fst (g x) (map g xs)" for x xs
    by (induction xs) (simp_all add: assms)
  show ?thesis by (induction xs) (simp_all add: ins)
qed

lemma sort_keys_idem [simp]: "sort_keys (sort_keys v) = sort_keys v"
proof (induction v)
  case (JArr vs)
  then show ?case by simp
next
  case (JObj kvs)
  have "map (map_prod id sort_keys) (map (map_prod id sort_keys) kvs) = map (map_prod id sort_keys) kvs"
    using JObj by (auto intro: snds.intros)
  moreover have "map (map_prod id sort_keys) (sort_key fst (map (map_prod id sort_keys) kvs)) =
      sort_key fst (map (map_prod id sort_keys) (map (map_prod id sort_keys) kvs))"
    by (rule map_sort_key_fst) simp
  ultimately have "map (map_prod id sort_keys) (sort_key fst (map (map_prod id sort_keys) kvs)) = sort_key fst (map (map_prod id sort_keys) kvs)"
    by (simp only:)
  then show ?case by (simp add: sort_key_id_if_sorted)
qed simp_all

lemma distinct_keys_sort: "distinct_keys v \<Longrightarrow> distinct_keys (sort_keys v)"
proof (induction v)
  case (JArr vs)
  then show ?case by (simp add: list_all_iff)
next
  case (JObj kvs)
  have "distinct (map fst (sort_key fst (map (map_prod id sort_keys) kvs))) = distinct (map fst (map (map_prod id sort_keys) kvs))"
  proof (rule mset_eq_imp_distinct_iff)
    show "mset (map fst (sort_key fst ys)) = mset (map fst ys)" for ys :: "(string \<times> json) list" by simp
  qed
  then have "distinct (map fst (sort_key fst (map (map_prod id sort_keys) kvs)))" using JObj.prems by simp
  moreover have "list_all (\<lambda>(k, b). b) (map (map_prod id distinct_keys) (sort_key fst (map (map_prod id sort_keys) kvs)))"
    using JObj by (auto simp: list_all_iff intro: snds.intros)
  ultimately show ?case by simp
qed simp_all

lemma descriptor_decodes: "wf_bundle b \<Longrightarrow> bundle_from_dict (descriptor_of b) = Inr b"
  using bundle_codec.decode_iff [OF distinct_keys_sort [OF bundle_codec.encode_distinct]]
  by (simp add: descriptor_of_def del: sort_keys.simps(6))

section \<open>The publication machine\<close>

datatype phase = Idle | Checked filing_bundle | Staged filing_bundle string | Written filing_bundle string

record config =
  cf_phase :: phase
  cf_repo :: repo

text \<open>A bundle the machine publishes.\<close>

definition publishable :: "(string \<Rightarrow> string) \<Rightarrow> store \<Rightarrow> string \<times> string \<Rightarrow> filing_bundle \<Rightarrow> bool" where
  "publishable sha st key b = (wf_bundle b \<and> bundle_key b = key \<and> validate_bundle_integrity sha st b = Inr ())"

definition opened :: "string \<times> string \<Rightarrow> repo \<Rightarrow> repo" where
  "opened key r = clean_orphan_staging key (make_root key r)"

inductive publish_step :: "(string \<Rightarrow> string) \<Rightarrow> string \<times> string \<Rightarrow> config \<Rightarrow> config \<Rightarrow> bool" for sha key where
  step_check: "wf_bundle b \<Longrightarrow> bundle_key b = key \<Longrightarrow>
     validate_bundle_structure sha b = Inr () \<Longrightarrow> publish_check sha b (opened key r) = Inr None \<Longrightarrow>
     publish_step sha key \<lparr>cf_phase = Idle, cf_repo = r\<rparr> \<lparr>cf_phase = Checked b, cf_repo = opened key r\<rparr>"
| step_reuse_or_fail: "publish_step sha key \<lparr>cf_phase = Idle, cf_repo = r\<rparr> \<lparr>cf_phase = Idle, cf_repo = opened key r\<rparr>"
| step_stage: "is_uuid4_hex name \<Longrightarrow> ''.staging-'' @ name \<notin> names_of key r \<Longrightarrow>
     publish_step sha key \<lparr>cf_phase = Checked b, cf_repo = r\<rparr>
       \<lparr>cf_phase = Staged b name, cf_repo = add_child key (''.staging-'' @ name) (Directory None) r\<rparr>"
| step_write: "publish_step sha key \<lparr>cf_phase = Staged b name, cf_repo = r\<rparr>
     \<lparr>cf_phase = Written b name, cf_repo = write_descriptor key (''.staging-'' @ name) b r\<rparr>"
| step_rename: "name \<notin> names_of key r \<Longrightarrow>
     publish_step sha key \<lparr>cf_phase = Written b name, cf_repo = r\<rparr>
       \<lparr>cf_phase = Idle, cf_repo = rename_staging key name r\<rparr>"
| step_rename_fails: "name \<in> names_of key r \<Longrightarrow>
     publish_step sha key \<lparr>cf_phase = Written b name, cf_repo = r\<rparr>
       \<lparr>cf_phase = Idle, cf_repo = remove_child key (''.staging-'' @ name) r\<rparr>"
| step_crash: "publish_step sha key \<lparr>cf_phase = ph, cf_repo = r\<rparr> \<lparr>cf_phase = Idle, cf_repo = r\<rparr>"
| step_put: "put_bytes sha data (rp_store r) = Inr (obj, st) \<Longrightarrow>
     publish_step sha key \<lparr>cf_phase = ph, cf_repo = r\<rparr> \<lparr>cf_phase = ph, cf_repo = r\<lparr>rp_store := st\<rparr>\<rparr>"

inductive reachable :: "(string \<Rightarrow> string) \<Rightarrow> string \<times> string \<Rightarrow> config \<Rightarrow> bool" for sha key where
  reachable_start: "rp_store r = (\<lambda>_. None) \<Longrightarrow> rp_root r key = None \<Longrightarrow> reachable sha key \<lparr>cf_phase = Idle, cf_repo = r\<rparr>"
| reachable_step: "reachable sha key c \<Longrightarrow> publish_step sha key c c' \<Longrightarrow> reachable sha key c'"

text \<open>The invariant of a listing: staging directories, and canonical directories with a descriptor of their own evidence.\<close>

definition holds_bundle :: "string \<times> child \<Rightarrow> filing_bundle \<Rightarrow> bool" where
  "holds_bundle e b = (is_uuid4_hex (fst e) \<and> snd e = Directory (Some (Some (descriptor_of b))) \<and> wf_bundle b)"

definition entry_ok :: "(string \<Rightarrow> string) \<Rightarrow> store \<Rightarrow> string \<times> string \<Rightarrow> string \<times> child \<Rightarrow> bool" where
  "entry_ok sha st key e = (orphan_staging e \<or> (\<exists>b. holds_bundle e b \<and> publishable sha st key b))"

definition listing_of :: "string \<times> string \<Rightarrow> repo \<Rightarrow> listing" where
  "listing_of key r = (case rp_root r key of None \<Rightarrow> [] | Some es \<Rightarrow> es)"

text \<open>
  Two bundles have been compared and found different.  A bundle whose acceptance time has no instant of the
  UTC calendar (year 1 with a positive offset, say) differs from no bundle: every comparison with it raises.
\<close>

definition differs :: "filing_bundle \<Rightarrow> filing_bundle \<Rightarrow> bool" where
  "differs a b = (bundles_equivalent a b = Inr False)"

lemma differs_iff:
  "differs a b \<longleftrightarrow> is_ok (bundle_equality_state a) \<and> is_ok (bundle_equality_state b) \<and>
     bundle_equality_state a \<noteq> bundle_equality_state b"
  by (auto simp: differs_def bundles_equivalent_def res_bind_Inr_iff is_ok_iff)

lemma differs_sym: "differs a b \<longleftrightarrow> differs b a"
  by (auto simp: differs_iff)

text \<open>Every published bundle of a listing has been compared with all others.\<close>

definition evidence_unique :: "listing \<Rightarrow> bool" where
  "evidence_unique es = (\<forall>e\<in>set es. \<forall>f\<in>set es. \<forall>a b. holds_bundle e a \<longrightarrow> holds_bundle f b \<longrightarrow>
     \<not> differs a b \<longrightarrow> e = f)"

definition new_evidence :: "listing \<Rightarrow> filing_bundle \<Rightarrow> bool" where
  "new_evidence es b = (\<forall>e\<in>set es. \<forall>a. holds_bundle e a \<longrightarrow> differs a b)"

definition repo_inv :: "(string \<Rightarrow> string) \<Rightarrow> string \<times> string \<Rightarrow> repo \<Rightarrow> bool" where
  "repo_inv sha key r =
     (store_ok sha (rp_store r) \<and> distinct (map fst (listing_of key r)) \<and>
      list_all (entry_ok sha (rp_store r) key) (listing_of key r) \<and> evidence_unique (listing_of key r))"

definition config_inv :: "(string \<Rightarrow> string) \<Rightarrow> string \<times> string \<Rightarrow> config \<Rightarrow> bool" where
  "config_inv sha key c =
     (let r = cf_repo c; pending = (\<lambda>b. publishable sha (rp_store r) key b \<and> new_evidence (listing_of key r) b \<and> rp_root r key \<noteq> None)
      in repo_inv sha key r \<and>
         (case cf_phase c of
            Idle \<Rightarrow> True
          | Checked b \<Rightarrow> pending b
          | Staged b name \<Rightarrow> pending b \<and> is_uuid4_hex name \<and> (''.staging-'' @ name, Directory None) \<in> set (listing_of key r)
          | Written b name \<Rightarrow> pending b \<and> is_uuid4_hex name \<and>
              (''.staging-'' @ name, Directory (Some (Some (descriptor_of b)))) \<in> set (listing_of key r)))"

section \<open>Listing the published bundles\<close>

lemma uuid_not_staging: "is_uuid4_hex name \<Longrightarrow> \<not> staging_name name"
  by (cases name) (auto simp: is_uuid4_hex_def staging_name_def startswith_def validate_uuid4_hex_def is_hex_def is_ok_iff split: if_splits)

lemma staging_prefix [simp]: "staging_name (''.staging-'' @ name)"
  unfolding staging_name_def by (rule startswith_append)

lemma holds_not_orphan: "holds_bundle e b \<Longrightarrow> \<not> orphan_staging e"
  using uuid_not_staging by (cases e) (auto simp: holds_bundle_def)

lemma holds_unique:
  assumes "holds_bundle e a" and "holds_bundle e b"
  shows "a = b"
proof -
  have "descriptor_of a = descriptor_of b" "wf_bundle a" "wf_bundle b" using assms by (simp_all add: holds_bundle_def)
  then have "(Inr a :: filing_bundle res) = Inr b" using descriptor_decodes by metis
  then show ?thesis by simp
qed

lemma read_ok:
  assumes "entry_ok sha st key e"
  shows "(orphan_staging e \<longrightarrow> read_published sha st (fst key) (snd key) e = Inr None) \<and>
    (\<forall>b. holds_bundle e b \<longrightarrow> publishable sha st key b \<and> read_published sha st (fst key) (snd key) e = Inr (Some (fst e, b)))"
proof (intro conjI impI allI)
  assume "orphan_staging e"
  then show "read_published sha st (fst key) (snd key) e = Inr None"
    by (cases e rule: orphan_staging.cases) (simp_all add: read_published_def)
next
  fix b assume h: "holds_bundle e b"
  then show p: "publishable sha st key b"
    using assms holds_not_orphan [OF h] holds_unique [OF h] unfolding entry_ok_def by blast
  show "read_published sha st (fst key) (snd key) e = Inr (Some (fst e, b))"
    using h p uuid_not_staging [of "fst e"] descriptor_decodes [of b]
    by (auto simp: read_published_def holds_bundle_def publishable_def bundle_key_def)
qed

lemma list_published_ok:
  assumes "repo_inv sha key r"
  shows "\<exists>xs. list_published sha r (fst key) (snd key) = Inr xs \<and> distinct (map fst xs) \<and>
    (\<forall>name b. (name, b) \<in> set xs \<longleftrightarrow> (\<exists>e\<in>set (listing_of key r). holds_bundle e b \<and> name = fst e))"
proof (cases "rp_root r key")
  case None
  then show ?thesis by (simp add: list_published_def listing_of_def)
next
  case (Some es)
  let ?st = "rp_store r"
  let ?read = "read_published sha ?st (fst key) (snd key)"
  have ok: "\<forall>e\<in>set es. entry_ok sha ?st key e" and d: "distinct (map fst es)"
    using assms Some by (simp_all add: repo_inv_def listing_of_def list_all_iff)
  define f where "f e = (if orphan_staging e then None else Some (fst e, SOME b. holds_bundle e b))" for e
  have f: "?read e = Inr (f e)" if "e \<in> set es" for e
  proof (cases "orphan_staging e")
    case True
    then show ?thesis using ok that read_ok by (simp add: f_def)
  next
    case False
    then obtain b where b: "holds_bundle e b" using ok \<open>e \<in> set es\<close> unfolding entry_ok_def by blast
    then have "(SOME b. holds_bundle e b) = b" by (metis holds_unique someI)
    then show ?thesis using False b ok that read_ok by (simp add: f_def)
  qed
  have "map_res ?read (sort_key fst es) = Inr (map f (sort_key fst es))"
  proof -
    have "\<forall>x\<in>set zs. ?read x = Inr (f x) \<Longrightarrow> map_res ?read zs = Inr (map f zs)" for zs
      by (induction zs) auto
    moreover have "\<forall>x\<in>set (sort_key fst es). ?read x = Inr (f x)" using f by simp
    ultimately show ?thesis by blast
  qed
  then have l: "list_published sha r (fst key) (snd key) = Inr (somes (map f (sort_key fst es)))"
    using Some by (simp add: list_published_def)
  have "distinct (map fst (somes (map f zs))) \<and> fst ` set (somes (map f zs)) \<subseteq> fst ` set zs" if "distinct (map fst zs)" for zs
    using that by (induction zs) (auto simp: f_def image_iff)
  moreover have "distinct (map fst (sort_key fst es)) = distinct (map fst es)"
    by (rule mset_eq_imp_distinct_iff) simp
  ultimately have "distinct (map fst (somes (map f (sort_key fst es))))" using d by blast
  moreover have "Some (name, b) \<in> f ` set es \<longleftrightarrow> (\<exists>e\<in>set es. holds_bundle e b \<and> name = fst e)" for name b
  proof
    assume "Some (name, b) \<in> f ` set es"
    then obtain e where e: "e \<in> set es" "f e = Some (name, b)" by (metis imageE)
    then have no: "\<not> orphan_staging e" "name = fst e" "b = (SOME b. holds_bundle e b)" by (auto simp: f_def split: if_splits)
    then have "holds_bundle e b" using ok e(1) by (metis entry_ok_def someI)
    then show "\<exists>e\<in>set es. holds_bundle e b \<and> name = fst e" using e(1) no(2) by blast
  next
    assume "\<exists>e\<in>set es. holds_bundle e b \<and> name = fst e"
    then obtain e where e: "e \<in> set es" "holds_bundle e b" "name = fst e" by blast
    then have "(SOME b. holds_bundle e b) = b" by (metis holds_unique someI)
    then have "f e = Some (name, b)" using e holds_not_orphan by (simp add: f_def)
    then show "Some (name, b) \<in> f ` set es" using e(1) by (metis imageI)
  qed
  ultimately show ?thesis using l Some by (auto simp: listing_of_def)
qed

lemma find_equivalent_none: "find_equivalent b xs = Inr None \<longleftrightarrow> (\<forall>(name, a)\<in>set xs. differs a b)"
  by (induction b xs rule: find_equivalent.induct) (auto simp: differs_def res_bind_Inr_iff split: if_splits)

lemma find_equivalent_some:
  "find_equivalent b xs = Inr (Some (name, a)) \<Longrightarrow> (name, a) \<in> set xs \<and> bundles_equivalent a b = Inr True"
proof (induction xs)
  case (Cons x xs)
  obtain n c same where "x = (n, c)" "bundles_equivalent c b = Inr same"
    using Cons.prems by (cases x) (auto simp: res_bind_Inr_iff)
  then show ?case using Cons by (cases same) auto
qed simp

lemma equivalent_iff:
  "bundles_equivalent a b = Inr True \<longleftrightarrow> is_ok (bundle_equality_state b) \<and> bundle_equality_state a = bundle_equality_state b"
  by (auto simp: bundles_equivalent_def res_bind_Inr_iff is_ok_iff)

text \<open>A comparison returns exactly when both sides have a state; the first one that does not stops the search.\<close>

lemma find_equivalent_returns:
  assumes "list_all (\<lambda>(name, a). is_ok (bundle_equality_state a)) xs" and "is_ok (bundle_equality_state b)"
  shows "is_ok (find_equivalent b xs)"
  using assms by (induction b xs rule: find_equivalent.induct) (auto simp: bundles_equivalent_def is_ok_iff)

lemma find_equivalent_raises:
  assumes "\<not> (is_ok (bundle_equality_state (snd x)) \<and> is_ok (bundle_equality_state b))"
  shows "\<not> is_ok (find_equivalent b (x # xs))"
  using assms by (cases x) (auto simp: bundles_equivalent_def is_ok_iff res_bind_Inr_iff)

lemma publish_check_ok:
  assumes "repo_inv sha key r" and "wf_bundle b" and "bundle_key b = key"
  shows "publish_check sha b r = Inr None \<longleftrightarrow> new_evidence (listing_of key r) b \<and> publishable sha (rp_store r) key b"
    and "publish_check sha b r = Inr (Some (name, a)) \<Longrightarrow>
      is_ok (bundle_equality_state b) \<and> bundle_equality_state a = bundle_equality_state b \<and>
      (\<exists>e\<in>set (listing_of key r). holds_bundle e a \<and> name = fst e)"
proof -
  obtain xs where xs: "list_published sha r (fst key) (snd key) = Inr xs"
      "\<And>name a. (name, a) \<in> set xs \<longleftrightarrow> (\<exists>e\<in>set (listing_of key r). holds_bundle e a \<and> name = fst e)"
    using list_published_ok [OF assms(1)] by blast
  have check: "publish_check sha b r = res_bind (find_equivalent b xs) (\<lambda>found. case found of Some e \<Rightarrow> Inr (Some e)
      | None \<Rightarrow> res_bind (validate_bundle_integrity sha (rp_store r) b) (\<lambda>_. Inr None))"
    using xs(1) assms(3) by (auto simp: publish_check_def bundle_key_def)
  have none: "find_equivalent b xs = Inr None \<longleftrightarrow> new_evidence (listing_of key r) b"
    using xs(2) unfolding find_equivalent_none new_evidence_def by fast
  show "publish_check sha b r = Inr None \<longleftrightarrow> new_evidence (listing_of key r) b \<and> publishable sha (rp_store r) key b"
    using none assms(2,3) by (auto simp: check publishable_def res_bind_Inr_iff split: option.splits)
  show "is_ok (bundle_equality_state b) \<and> bundle_equality_state a = bundle_equality_state b \<and>
      (\<exists>e\<in>set (listing_of key r). holds_bundle e a \<and> name = fst e)"
    if "publish_check sha b r = Inr (Some (name, a))"
  proof -
    have "find_equivalent b xs = Inr (Some (name, a))" using that by (auto simp: check res_bind_Inr_iff split: option.splits)
    from find_equivalent_some [OF this] show ?thesis using xs(2) by (auto simp: equivalent_iff)
  qed
qed

lemma sole_member:
  assumes "distinct xs" and "x \<in> set xs" and "\<And>y. y \<in> set xs \<Longrightarrow> y = x"
  shows "xs = [x]"
proof -
  have "set xs = {x}" using assms(2,3) by blast
  then have "length xs = 1" using assms(1) distinct_card by fastforce
  then show ?thesis using assms(2) by (auto simp: length_Suc_conv)
qed

text \<open>The check returns exactly on an empty listing and where all bundles, the new one too, have a state.\<close>

lemma publish_check_returns:
  assumes "repo_inv sha key r" and "publishable sha (rp_store r) key b" and "list_published sha r (fst key) (snd key) = Inr xs"
  shows "is_ok (publish_check sha b r) \<longleftrightarrow> xs = [] \<or> list_all (is_ok \<circ> bundle_equality_state) (b # map snd xs)"
proof -
  obtain ys where ys: "list_published sha r (fst key) (snd key) = Inr ys" "distinct (map fst ys)"
      "\<And>name a. (name, a) \<in> set ys \<longleftrightarrow> (\<exists>e\<in>set (listing_of key r). holds_bundle e a \<and> name = fst e)"
    using list_published_ok [OF assms(1)] by blast
  then have xs: "distinct (map fst xs)" "\<And>name a. (name, a) \<in> set xs \<Longrightarrow> \<exists>e\<in>set (listing_of key r). holds_bundle e a \<and> name = fst e"
    using assms(3) by auto
  have P: "validate_bundle_integrity sha (rp_store r) b = Inr ()" "bundle_key b = key" using assms(2) by (simp_all add: publishable_def)
  have check: "is_ok (publish_check sha b r) \<longleftrightarrow> is_ok (find_equivalent b xs)"
    using assms(3) P
    by (cases "find_equivalent b xs") (auto simp: publish_check_def bundle_key_def is_ok_iff split: option.splits)
  have sole: "xs = [x]" if x: "x \<in> set xs" "\<not> is_ok (bundle_equality_state (snd x))" for x
  proof -
    have "y = x" if "y \<in> set xs" for y
    proof -
      have "(fst x, snd x) \<in> set xs" "(fst y, snd y) \<in> set xs" using x(1) that by simp_all
      then obtain e f where ef: "e \<in> set (listing_of key r)" "holds_bundle e (snd x)" "fst x = fst e"
          "f \<in> set (listing_of key r)" "holds_bundle f (snd y)" "fst y = fst f"
        using xs(2) by metis
      moreover have "\<not> differs (snd x) (snd y)" using x(2) by (simp add: differs_iff)
      ultimately have "e = f" using assms(1) unfolding repo_inv_def evidence_unique_def by blast
      then show ?thesis using ef holds_unique by (metis prod_eqI)
    qed
    moreover have "distinct xs" using xs(1) by (simp add: distinct_map)
    ultimately show ?thesis using x(1) by (intro sole_member)
  qed
  show ?thesis
  proof (cases "list_all (is_ok \<circ> bundle_equality_state) (b # map snd xs)")
    case True
    then have "list_all (\<lambda>(name, a). is_ok (bundle_equality_state a)) xs" by (auto simp: list_all_iff)
    then show ?thesis using find_equivalent_returns [of xs b] True check by simp
  next
    case False
    have "\<not> is_ok (find_equivalent b xs)" if "xs \<noteq> []"
    proof (cases "is_ok (bundle_equality_state b)")
      case True
      then obtain x where "x \<in> set xs" "\<not> is_ok (bundle_equality_state (snd x))" using False by (auto simp: list_all_iff)
      then show ?thesis using sole find_equivalent_raises [of x b "[]"] by metis
    next
      case False
      then show ?thesis using that find_equivalent_raises [of "hd xs" b "tl xs"] by simp
    qed
    moreover have "is_ok (find_equivalent b [])" by (simp add: is_ok_iff)
    ultimately show ?thesis using False check by auto
  qed
qed

section \<open>The operations on a listing\<close>

lemma listing_ops [simp]:
  "rp_store (on_listing key f r) = rp_store r"
  "rp_root (on_listing key f r) key = map_option f (rp_root r key)"
  "rp_root r key \<noteq> None \<Longrightarrow> listing_of key (on_listing key f r) = f (listing_of key r)"
  by (auto simp: on_listing_def listing_of_def split: option.splits)

lemma opened_ops:
  "rp_store (opened key r) = rp_store r" "rp_root (opened key r) key \<noteq> None"
  "listing_of key (opened key r) = filter (\<lambda>e. \<not> orphan_staging e) (listing_of key r)"
  by (auto simp: opened_def clean_orphan_staging_def make_root_def on_listing_def listing_of_def split: option.splits)

lemma repo_inv_subset:
  assumes "repo_inv sha key r" and "rp_store r' = rp_store r" and "listing_of key r' = filter P (listing_of key r)"
  shows "repo_inv sha key r'"
  using assms by (auto simp: repo_inv_def list_all_iff evidence_unique_def distinct_map_filter)

lemma opened_inv: "repo_inv sha key r \<Longrightarrow> repo_inv sha key (opened key r)"
  by (rule repo_inv_subset) (simp_all add: opened_ops)

lemma removed_inv: "repo_inv sha key r \<Longrightarrow> rp_root r key \<noteq> None \<Longrightarrow> repo_inv sha key (remove_child key name r)"
  by (rule repo_inv_subset [of sha key r]) (simp_all add: remove_child_def)

lemma names_listing: "names_of key r = fst ` set (listing_of key r)"
  by (simp add: names_of_def listing_of_def split: option.splits)

text \<open>More objects do not invalidate what is published.\<close>

lemma publishable_mono:
  assumes "publishable sha st key b" and "\<And>d x. st d = Some x \<Longrightarrow> st' d = Some x"
  shows "publishable sha st' key b"
proof -
  have "stored sha st a \<Longrightarrow> stored sha st' a" for a using assms(2) by (fastforce simp: stored_def)
  then show ?thesis using assms(1) by (auto simp: publishable_def integrity_iff list_all_iff)
qed

lemma entry_ok_mono:
  "entry_ok sha st key e \<Longrightarrow> (\<And>d x. st d = Some x \<Longrightarrow> st' d = Some x) \<Longrightarrow> entry_ok sha st' key e"
  using publishable_mono unfolding entry_ok_def by blast

section \<open>The invariant\<close>

lemma orphan_holds_nothing: "orphan_staging e \<Longrightarrow> \<not> holds_bundle e b"
  using holds_not_orphan by blast

lemma staged_inv:
  assumes I: "repo_inv sha key r" and root: "rp_root r key \<noteq> None" and new: "''.staging-'' @ name \<notin> names_of key r"
  shows "repo_inv sha key (add_child key (''.staging-'' @ name) (Directory None) r)"
    and "new_evidence (listing_of key r) b \<Longrightarrow>
      new_evidence (listing_of key (add_child key (''.staging-'' @ name) (Directory None) r)) b"
proof -
  let ?e = "(''.staging-'' @ name, Directory None)"
  have o: "orphan_staging ?e" unfolding orphan_staging.simps by (rule staging_prefix)
  have l: "listing_of key (add_child key (''.staging-'' @ name) (Directory None) r) = listing_of key r @ [?e]"
    using root by (simp add: add_child_def)
  show "repo_inv sha key (add_child key (''.staging-'' @ name) (Directory None) r)"
    using I new o orphan_holds_nothing [OF o]
    unfolding repo_inv_def l names_listing evidence_unique_def entry_ok_def by (auto simp: add_child_def)
  show "new_evidence (listing_of key r) b \<Longrightarrow>
      new_evidence (listing_of key (add_child key (''.staging-'' @ name) (Directory None) r)) b"
    using orphan_holds_nothing [OF o] unfolding new_evidence_def l by auto
qed

text \<open>Rewriting the content of the staging directory keeps what is published.\<close>

lemma written_inv:
  fixes b :: filing_bundle
  assumes I: "repo_inv sha key r" and root: "rp_root r key \<noteq> None" and dir: "(''.staging-'' @ name, Directory d) \<in> set (listing_of key r)"
  defines "r' \<equiv> write_descriptor key (''.staging-'' @ name) b r"
  shows "repo_inv sha key r'" and "new_evidence (listing_of key r) c \<Longrightarrow> new_evidence (listing_of key r') c"
    and "(''.staging-'' @ name, Directory (Some (Some (descriptor_of b)))) \<in> set (listing_of key r')"
proof -
  let ?n = "''.staging-'' @ name"
  define g where "g = (\<lambda>(n, c). (n, if n = ?n then Directory (Some (Some (descriptor_of b))) else c :: child))"
  have l: "listing_of key r' = map g (listing_of key r)"
    using root by (simp add: r'_def write_descriptor_def g_def)
  have sn: "\<not> is_uuid4_hex ?n" using uuid_not_staging [of ?n] staging_prefix by blast
  have h: "holds_bundle (g e) a \<longleftrightarrow> holds_bundle e a" for e a using sn by (cases e) (auto simp: g_def holds_bundle_def)
  have d: "distinct (map fst (listing_of key r))" using I by (simp add: repo_inv_def)
  have g: "g e = e" if "e \<in> set (listing_of key r)" "fst e \<noteq> ?n" for e using that(2) by (cases e) (simp add: g_def)
  have ok: "entry_ok sha (rp_store r) key (g e)" if "e \<in> set (listing_of key r)" for e
  proof (cases "fst e = ?n")
    case True
    then have "orphan_staging (g e)" using staging_prefix [of name] by (cases e) (simp add: g_def)
    then show ?thesis by (simp add: entry_ok_def)
  next
    case False
    then show ?thesis using I that g by (simp add: repo_inv_def list_all_iff)
  qed
  have "distinct (map fst (map g (listing_of key r)))"
  proof -
    have "map fst (map g (listing_of key r)) = map fst (listing_of key r)" by (auto simp: g_def)
    then show ?thesis using d by (simp only:)
  qed
  moreover have "evidence_unique (map g (listing_of key r))"
    unfolding evidence_unique_def
  proof (intro ballI allI impI)
    fix x y a c assume "x \<in> set (map g (listing_of key r))" "y \<in> set (map g (listing_of key r))"
      and hold: "holds_bundle x a" "holds_bundle y c" "\<not> differs a c"
    then obtain u v where "u \<in> set (listing_of key r)" "v \<in> set (listing_of key r)" "x = g u" "y = g v" by auto
    moreover from this hold have "holds_bundle u a" "holds_bundle v c" by (simp_all only: h)
    ultimately have "u = v" using I hold(3) unfolding repo_inv_def evidence_unique_def by blast
    then show "x = y" using \<open>x = g u\<close> \<open>y = g v\<close> by simp
  qed
  moreover have "list_all (entry_ok sha (rp_store r) key) (map g (listing_of key r))" using ok by (simp add: list_all_iff)
  moreover have "rp_store r' = rp_store r" by (simp add: r'_def write_descriptor_def)
  ultimately show "repo_inv sha key r'" using I unfolding repo_inv_def l by simp
  show "new_evidence (listing_of key r) c \<Longrightarrow> new_evidence (listing_of key r') c"
    using h by (auto simp: new_evidence_def l)
  have "g (?n, Directory d) = (?n, Directory (Some (Some (descriptor_of b))))" by (simp add: g_def)
  then show "(?n, Directory (Some (Some (descriptor_of b)))) \<in> set (listing_of key r')"
    using dir unfolding l by (metis image_eqI set_map)
qed

text \<open>The rename makes exactly one new canonical entry, the written bundle.\<close>

lemma renamed_inv:
  assumes I: "repo_inv sha key r" and root: "rp_root r key \<noteq> None" and p: "publishable sha (rp_store r) key b"
    and new: "new_evidence (listing_of key r) b" and uuid: "is_uuid4_hex name" and free: "name \<notin> names_of key r"
    and dir: "(''.staging-'' @ name, Directory (Some (Some (descriptor_of b)))) \<in> set (listing_of key r)"
  defines "r' \<equiv> rename_staging key name r"
  shows "repo_inv sha key r'" and "(name, Directory (Some (Some (descriptor_of b)))) \<in> set (listing_of key r')"
    and "holds_bundle (name, Directory (Some (Some (descriptor_of b)))) b"
proof -
  let ?n = "''.staging-'' @ name"
  let ?e = "(?n, Directory (Some (Some (descriptor_of b))))"
  let ?f = "(name, Directory (Some (Some (descriptor_of b))))"
  define g where "g = (\<lambda>(n, c :: child). (if n = ?n then name else n, c))"
  have l: "listing_of key r' = map g (listing_of key r)"
    using root by (simp add: r'_def rename_staging_def g_def)
  have d: "distinct (map fst (listing_of key r))" using I by (simp add: repo_inv_def)
  have split: "g e = ?f \<and> e = ?e \<or> g e = e \<and> fst e \<noteq> ?n \<and> fst e \<noteq> name" if "e \<in> set (listing_of key r)" for e
  proof (cases "fst e = ?n")
    case True
    then have "e = ?e" using d dir that by (metis eq_key_imp_eq_value fst_conv prod.collapse)
    then show ?thesis by (simp add: g_def)
  next
    case False
    moreover have "fst e \<noteq> name" using that free by (auto simp: names_listing)
    ultimately show ?thesis by (simp add: g_def split_beta)
  qed
  show hb: "holds_bundle ?f b" using uuid p by (simp add: holds_bundle_def publishable_def)
  show "?f \<in> set (listing_of key r')" using dir unfolding l by (force simp: g_def)
  have "inj_on fst (set (map g (listing_of key r)))" and dd: "distinct (map g (listing_of key r))"
  proof -
    show "inj_on fst (set (map g (listing_of key r)))"
    proof (rule inj_onI)
      fix x y assume xy: "x \<in> set (map g (listing_of key r))" "y \<in> set (map g (listing_of key r))" "fst x = fst y"
      then obtain u v where uv: "u \<in> set (listing_of key r)" "v \<in> set (listing_of key r)" "x = g u" "y = g v" by auto
      have inj: "inj_on fst (set (listing_of key r))" using d by (simp add: distinct_map)
      show "x = y" using split [OF uv(1)] split [OF uv(2)] uv xy(3) inj by (auto dest: inj_onD)
    qed
    have "inj_on g (set (listing_of key r))"
    proof (rule inj_onI)
      fix u v assume "u \<in> set (listing_of key r)" "v \<in> set (listing_of key r)" "g u = g v"
      then show "u = v" using split [of u] split [of v] by auto
    qed
    then show "distinct (map g (listing_of key r))" using d by (simp add: distinct_map)
  qed
  then have "distinct (map fst (map g (listing_of key r)))" by (simp only: distinct_map simp_thms)
  moreover have "list_all (entry_ok sha (rp_store r) key) (map g (listing_of key r))"
  proof -
    have "entry_ok sha (rp_store r) key (g e)" if "e \<in> set (listing_of key r)" for e
      using split [OF that] I that hb p unfolding repo_inv_def list_all_iff entry_ok_def by metis
    then show ?thesis by (simp add: list_all_iff)
  qed
  moreover have "evidence_unique (map g (listing_of key r))"
  proof -
    have only: "holds_bundle ?f c \<Longrightarrow> c = b" for c using holds_unique hb by blast
    show ?thesis unfolding evidence_unique_def
    proof (intro ballI allI impI)
      fix x y a c assume "x \<in> set (map g (listing_of key r))" "y \<in> set (map g (listing_of key r))"
        and h: "holds_bundle x a" "holds_bundle y c" and st: "\<not> differs a c"
      then obtain u v where uv: "u \<in> set (listing_of key r)" "v \<in> set (listing_of key r)" "x = g u" "y = g v" by auto
      consider "x = ?f" "y = ?f" | "x = ?f" "y = v" | "x = u" "y = ?f" | "x = u" "y = v"
        using split [OF uv(1)] split [OF uv(2)] uv by auto
      then show "x = y"
      proof cases
        case 2
        then show ?thesis using new h st uv only differs_sym unfolding new_evidence_def by metis
      next
        case 3
        then show ?thesis using new h st uv only unfolding new_evidence_def by metis
      next
        case 4
        then show ?thesis using I h st uv unfolding repo_inv_def evidence_unique_def by metis
      qed simp
    qed
  qed
  moreover have "rp_store r' = rp_store r" by (simp add: r'_def rename_staging_def)
  ultimately show "repo_inv sha key r'" using I unfolding repo_inv_def l by simp
qed

section \<open>Reachable states\<close>

lemma write_rename_ops [simp]:
  "rp_store (add_child key n c r) = rp_store r" "rp_store (write_descriptor key n b r) = rp_store r"
  "rp_store (rename_staging key n r) = rp_store r" "rp_store (remove_child key n r) = rp_store r"
  "rp_root (add_child key n c r) key = None \<longleftrightarrow> rp_root r key = None"
  "rp_root (write_descriptor key n b r) key = None \<longleftrightarrow> rp_root r key = None"
  "rp_root (rename_staging key n r) key = None \<longleftrightarrow> rp_root r key = None"
  "rp_root (remove_child key n r) key = None \<longleftrightarrow> rp_root r key = None"
  by (simp_all add: add_child_def write_descriptor_def rename_staging_def remove_child_def)

lemma listing_of_store [simp]: "listing_of key (r\<lparr>rp_store := st\<rparr>) = listing_of key r"
  by (simp add: listing_of_def)

lemma stored_more_inv:
  assumes "config_inv sha key \<lparr>cf_phase = ph, cf_repo = r\<rparr>" and "put_bytes sha data (rp_store r) = Inr (obj, st)"
  shows "config_inv sha key \<lparr>cf_phase = ph, cf_repo = r\<lparr>rp_store := st\<rparr>\<rparr>"
proof -
  have I: "repo_inv sha key r" using assms(1) by (simp add: config_inv_def Let_def)
  then have ok: "store_ok sha (rp_store r)" by (simp add: repo_inv_def)
  note mono = put_bytes_ok(5) [OF ok assms(2)]
  have "repo_inv sha key (r\<lparr>rp_store := st\<rparr>)"
    using I put_bytes_ok(1) [OF ok assms(2)] entry_ok_mono [of sha "rp_store r" key _ st, OF _ mono]
    by (auto simp: repo_inv_def list_all_iff)
  moreover have "publishable sha st key b" if "publishable sha (rp_store r) key b" for b
    by (rule publishable_mono [OF that mono])
  ultimately show ?thesis using assms(1) by (auto simp: config_inv_def Let_def split: phase.splits)
qed

lemma idle_inv: "config_inv sha key \<lparr>cf_phase = Idle, cf_repo = r\<rparr> \<longleftrightarrow> repo_inv sha key r"
  by (simp add: config_inv_def Let_def)

lemma publish_step_inv:
  assumes "publish_step sha key c c'" and "config_inv sha key c"
  shows "config_inv sha key c'"
  using assms
proof (cases rule: publish_step.cases)
  case (step_check b r)
  then have "repo_inv sha key (opened key r)" using assms(2) opened_inv by (simp add: idle_inv)
  then show ?thesis using step_check publish_check_ok(1) [of sha key "opened key r" b] opened_ops(2) [of key r]
    by (simp add: config_inv_def Let_def)
next
  case (step_reuse_or_fail r)
  then show ?thesis using assms(2) opened_inv by (simp add: idle_inv)
next
  case (step_stage name r b)
  then show ?thesis using assms(2) staged_inv [of sha key r name]
    by (simp add: config_inv_def Let_def add_child_def)
next
  case (step_write b name r)
  then have pre: "repo_inv sha key r" "rp_root r key \<noteq> None" "(''.staging-'' @ name, Directory None) \<in> set (listing_of key r)"
    "publishable sha (rp_store r) key b" "new_evidence (listing_of key r) b" "is_uuid4_hex name"
    using assms(2) by (simp_all add: config_inv_def Let_def)
  note W = written_inv [OF pre(1-3), where b = b]
  show ?thesis using W(1) W(2) [OF pre(5)] W(3) pre(2,4,6) by (simp add: config_inv_def Let_def local.step_write(2) del: not_None_eq)
next
  case (step_rename name r b)
  then show ?thesis using assms(2) renamed_inv(1) [of sha key r b name]
    by (simp add: config_inv_def Let_def)
next
  case (step_rename_fails name r b)
  then show ?thesis using assms(2) removed_inv [of sha key r]
    by (simp add: config_inv_def Let_def)
next
  case (step_crash ph r)
  then show ?thesis using assms(2) by (simp add: config_inv_def Let_def)
next
  case (step_put data r obj st ph)
  then show ?thesis using assms(2) stored_more_inv by simp
qed

lemma reachable_inv: "reachable sha key c \<Longrightarrow> config_inv sha key c"
proof (induction rule: reachable.induct)
  case (reachable_start r)
  then show ?case by (simp add: idle_inv repo_inv_def store_ok_def listing_of_def evidence_unique_def)
next
  case (reachable_step c c')
  then show ?case using publish_step_inv by blast
qed

lemma reachable_repo_inv: "reachable sha key c \<Longrightarrow> repo_inv sha key (cf_repo c)"
  using reachable_inv [of sha key c] by (simp add: config_inv_def Let_def)

section \<open>A publication succeeds\<close>

lemma opened_clean:
  assumes "rp_root r key \<noteq> None" and "\<forall>e\<in>set (listing_of key r). \<not> orphan_staging e"
  shows "opened key r = r"
proof -
  obtain es where es: "rp_root r key = Some es" using assms(1) by blast
  then have "filter (\<lambda>e. \<not> orphan_staging e) es = es" using assms(2) by (simp add: listing_of_def filter_id_conv)
  then have "(\<lambda>k. if k = key then map_option (filter (\<lambda>e. \<not> orphan_staging e)) (rp_root r key) else rp_root r k) = rp_root r"
    using es by auto
  then show ?thesis using es by (simp add: opened_def make_root_def clean_orphan_staging_def on_listing_def)
qed

lemma published_listing:
  assumes "rp_root r key \<noteq> None" and "''.staging-'' @ name \<notin> names_of key r"
  shows "listing_of key (rename_staging key name (write_descriptor key (''.staging-'' @ name) b
      (add_child key (''.staging-'' @ name) (Directory None) r))) =
    listing_of key r @ [(name, Directory (Some (Some (descriptor_of b))))]"
proof -
  let ?n = "''.staging-'' @ name"
  define w where "w = (\<lambda>(n, c). (n, if n = ?n then Directory (Some (Some (descriptor_of b))) else c :: child))"
  define g where "g = (\<lambda>(n, c :: child). (if n = ?n then name else n, c))"
  have "fst e \<noteq> ?n" if "e \<in> set (listing_of key r)" for e using assms(2) that by (metis image_eqI names_listing)
  then have "map (g \<circ> w) (listing_of key r) = listing_of key r"
    by (intro map_idI) (auto simp: g_def w_def)
  moreover have "g (w (?n, Directory None)) = (name, Directory (Some (Some (descriptor_of b))))"
    by (simp add: g_def w_def)
  moreover have "listing_of key (rename_staging key name (write_descriptor key ?n b (add_child key ?n (Directory None) r))) =
      map g (map w (listing_of key r @ [(?n, Directory None)]))"
    using assms(1) unfolding rename_staging_def write_descriptor_def g_def w_def by (simp add: add_child_def)
  ultimately show ?thesis by simp
qed

text \<open>One call of \<^verbatim>\<open>publish\<close> is a run of the machine back to \<open>Idle\<close>, and its bundle is then published.\<close>

lemma publish_run:
  assumes I: "repo_inv sha key r" and P: "publishable sha (rp_store r) key b" and U: "is_uuid4_hex name" "name \<notin> names_of key r"
    and ret: "is_ok (publish_check sha b (opened key r))"
  obtains res r' e where "publish sha name b r = (Inr res, r')"
    and "(publish_step sha key)\<^sup>*\<^sup>* \<lparr>cf_phase = Idle, cf_repo = r\<rparr> \<lparr>cf_phase = Idle, cf_repo = r'\<rparr>"
    and "e \<in> set (listing_of key r')" and "holds_bundle e (pr_bundle res)" and "fst e = pr_opaque_id res"
    and "bundle_equality_state (pr_bundle res) = bundle_equality_state b"
    and "opened key r' = r'" and "rp_store r' = rp_store r"
proof -
  let ?r1 = "opened key r"
  have b: "wf_bundle b" "bundle_key b = key" "validate_bundle_structure sha b = Inr ()"
    using P integrity_iff by (auto simp: publishable_def)
  have I1: "repo_inv sha key ?r1" by (rule opened_inv [OF I])
  have clean: "\<not> orphan_staging e" if "e \<in> set (listing_of key ?r1)" for e using that by (simp add: opened_ops(3))
  have root: "rp_root ?r1 key \<noteq> None" by (rule opened_ops(2))
  note C = publish_check_ok [OF I1 b(1,2)]
  have start: "publish sha name b r = (case publish_check sha b ?r1 of
       Inl e \<Rightarrow> (Inl e, ?r1)
     | Inr (Some (n, a)) \<Rightarrow> (Inr \<lparr>pr_bundle = a, pr_opaque_id = n, pr_reused = True\<rparr>, ?r1)
     | Inr None \<Rightarrow>
         (let staging = ''.staging-'' @ name; r2 = write_descriptor key staging b (add_child key staging (Directory None) ?r1)
          in if staging \<in> names_of key ?r1 then (Inl (BundleStorageError ''staging directory already exists''), ?r1)
             else if name \<in> names_of key r2 then (Inl (OSError ''rename''), remove_child key staging r2)
             else (Inr \<lparr>pr_bundle = b, pr_opaque_id = name, pr_reused = False\<rparr>, rename_staging key name r2)))"
    unfolding publish_def opened_def Let_def b(2,3) sum.case by (rule refl)
  show ?thesis
  proof (cases "new_evidence (listing_of key ?r1) b")
    case False
    then have "publish_check sha b ?r1 \<noteq> Inr None" using C(1) by simp
    then obtain n a where pc: "publish_check sha b ?r1 = Inr (Some (n, a))" using ret by (auto simp: is_ok_iff)
    then obtain e where e: "e \<in> set (listing_of key ?r1)" "holds_bundle e a" "n = fst e" "bundle_equality_state a = bundle_equality_state b"
      using C(2) by blast
    have run: "publish sha name b r = (Inr \<lparr>pr_bundle = a, pr_opaque_id = n, pr_reused = True\<rparr>, ?r1)" using pc by (simp add: start)
    have "publish_step sha key \<lparr>cf_phase = Idle, cf_repo = r\<rparr> \<lparr>cf_phase = Idle, cf_repo = ?r1\<rparr>" by (rule step_reuse_or_fail)
    then have steps: "(publish_step sha key)\<^sup>*\<^sup>* \<lparr>cf_phase = Idle, cf_repo = r\<rparr> \<lparr>cf_phase = Idle, cf_repo = ?r1\<rparr>" by blast
    show ?thesis
      by (rule that [OF run steps e(1)])
        (use e clean in \<open>simp_all add: opened_ops(1) opened_clean [OF root]\<close>)
  next
    case True
    let ?n = "''.staging-'' @ name"
    let ?ra = "add_child key ?n (Directory None) ?r1"
    let ?r2 = "write_descriptor key ?n b ?ra"
    let ?r' = "rename_staging key name ?r2"
    let ?e = "(name, Directory (Some (Some (descriptor_of b))))"
    have pc: "publish_check sha b ?r1 = Inr None" using C(1) True P by (simp add: opened_ops(1))
    have free: "?n \<notin> names_of key ?r1"
    proof
      assume "?n \<in> names_of key ?r1"
      then obtain e where e: "e \<in> set (listing_of key ?r1)" "fst e = ?n" by (auto simp: names_listing)
      then have "entry_ok sha (rp_store ?r1) key e" using I1 by (simp add: repo_inv_def list_all_iff)
      then have "is_uuid4_hex ?n" using clean [OF e(1)] e(2) by (auto simp: entry_ok_def holds_bundle_def)
      then show False using uuid_not_staging staging_prefix by blast
    qed
    have "name \<noteq> ?n" using uuid_not_staging [OF U(1)] staging_prefix [of name] by metis
    moreover have "name \<notin> names_of key ?r1" using U(2) by (auto simp: names_listing opened_ops(3))
    moreover have "names_of key ?r2 = insert ?n (names_of key ?r1)"
      using root unfolding names_listing write_descriptor_def add_child_def by (simp add: image_image split_beta)
    ultimately have free': "name \<notin> names_of key ?r2" by simp
    have run: "publish sha name b r = (Inr \<lparr>pr_bundle = b, pr_opaque_id = name, pr_reused = False\<rparr>, ?r')"
      using pc free free' by (simp add: start Let_def)
    have l: "listing_of key ?r' = listing_of key ?r1 @ [?e]" by (rule published_listing [OF root free])
    have "publish_step sha key \<lparr>cf_phase = Idle, cf_repo = r\<rparr> \<lparr>cf_phase = Checked b, cf_repo = ?r1\<rparr>"
      by (rule step_check [OF b pc])
    moreover have "(publish_step sha key) \<lparr>cf_phase = Checked b, cf_repo = ?r1\<rparr> \<lparr>cf_phase = Staged b name, cf_repo = ?ra\<rparr>"
      by (rule step_stage [OF U(1) free])
    moreover have "publish_step sha key \<lparr>cf_phase = Staged b name, cf_repo = ?ra\<rparr> \<lparr>cf_phase = Written b name, cf_repo = ?r2\<rparr>"
      by (rule step_write)
    moreover have "publish_step sha key \<lparr>cf_phase = Written b name, cf_repo = ?r2\<rparr> \<lparr>cf_phase = Idle, cf_repo = ?r'\<rparr>"
      by (rule step_rename [OF free'])
    ultimately have steps: "(publish_step sha key)\<^sup>*\<^sup>* \<lparr>cf_phase = Idle, cf_repo = r\<rparr> \<lparr>cf_phase = Idle, cf_repo = ?r'\<rparr>"
      by (meson converse_rtranclp_into_rtranclp r_into_rtranclp)
    have hb: "holds_bundle ?e b" using U(1) b(1) by (simp add: holds_bundle_def)
    have "opened key ?r' = ?r'"
      by (rule opened_clean) (use root l clean holds_not_orphan [OF hb] in auto)
    then show ?thesis
      by (intro that [OF run steps, of ?e]) (use l hb in \<open>simp_all add: opened_ops(1)\<close>)
  qed
qed

text \<open>A publication that raises in its check changes no more than the staging directories left behind.\<close>

lemma opened_published:
  assumes "repo_inv sha key r" and "list_published sha r (fst key) (snd key) = Inr xs"
  obtains ys where "list_published sha (opened key r) (fst key) (snd key) = Inr ys" and "set ys = set xs"
proof -
  obtain ys where ys: "list_published sha (opened key r) (fst key) (snd key) = Inr ys"
      "\<And>name b. (name, b) \<in> set ys \<longleftrightarrow> (\<exists>e\<in>set (listing_of key (opened key r)). holds_bundle e b \<and> name = fst e)"
    using list_published_ok [OF opened_inv [OF assms(1)]] by blast
  moreover have "(\<exists>e\<in>set (listing_of key (opened key r)). holds_bundle e b \<and> name = fst e) \<longleftrightarrow>
      (\<exists>e\<in>set (listing_of key r). holds_bundle e b \<and> name = fst e)" for name b
    using holds_not_orphan by (auto simp: opened_ops(3))
  moreover obtain zs where "list_published sha r (fst key) (snd key) = Inr zs"
      "\<And>name b. (name, b) \<in> set zs \<longleftrightarrow> (\<exists>e\<in>set (listing_of key r). holds_bundle e b \<and> name = fst e)"
    using list_published_ok [OF assms(1)] by blast
  ultimately have "(name, b) \<in> set ys \<longleftrightarrow> (name, b) \<in> set xs" for name b using assms(2) by simp
  then show thesis using that ys(1) by (simp add: set_eq_iff split_paired_all)
qed

lemma opened_check_returns:
  assumes "repo_inv sha key r" and "publishable sha (rp_store r) key b" and "list_published sha r (fst key) (snd key) = Inr xs"
  shows "is_ok (publish_check sha b (opened key r)) \<longleftrightarrow> xs = [] \<or> list_all (is_ok \<circ> bundle_equality_state) (b # map snd xs)"
proof -
  obtain ys where ys: "list_published sha (opened key r) (fst key) (snd key) = Inr ys" and same: "set ys = set xs"
    by (rule opened_published [OF assms(1,3)])
  have "publishable sha (rp_store (opened key r)) key b" using assms(2) by (simp only: opened_ops(1))
  from publish_check_returns [OF opened_inv [OF assms(1)] this ys] show ?thesis
    using same by (auto simp: list_all_iff)
qed

lemma publish_blocked:
  assumes "repo_inv sha key r" and "publishable sha (rp_store r) key b" and "list_published sha r (fst key) (snd key) = Inr xs"
    and "xs \<noteq> []" and "\<not> list_all (is_ok \<circ> bundle_equality_state) (b # map snd xs)"
  shows "\<exists>e. publish sha name b r = (Inl e, opened key r)"
proof -
  have b: "bundle_key b = key" "validate_bundle_structure sha b = Inr ()"
    using assms(2) integrity_iff by (auto simp: publishable_def)
  have "\<not> is_ok (publish_check sha b (opened key r))"
    unfolding opened_check_returns [OF assms(1-3)] using assms(4,5) by blast
  then obtain e where "publish_check sha b (opened key r) = Inl e"
    by (cases "publish_check sha b (opened key r)") (simp_all add: is_ok_iff)
  then show ?thesis using b by (simp add: publish_def opened_def Let_def)
qed

lemma publish_again:
  assumes I: "repo_inv sha key r" and P: "publishable sha (rp_store r) key b"
    and e: "e \<in> set (listing_of key r)" "holds_bundle e (pr_bundle res)" "fst e = pr_opaque_id res"
    and same: "bundle_equality_state (pr_bundle res) = bundle_equality_state b" and clean: "opened key r = r"
  shows "\<exists>xs. list_published sha r (fst key) (snd key) = Inr xs \<and> (pr_opaque_id res, pr_bundle res) \<in> set xs \<and>
    bundle_equality_state (pr_bundle res) = bundle_equality_state b \<and>
    (if is_ok (bundle_equality_state b) then publish sha again b r = (Inr (res\<lparr>pr_reused := True\<rparr>), r)
     else \<exists>e. publish sha again b r = (Inl e, r))"
proof -
  obtain xs where xs: "list_published sha r (fst key) (snd key) = Inr xs"
      "\<And>name b. (name, b) \<in> set xs \<longleftrightarrow> (\<exists>e\<in>set (listing_of key r). holds_bundle e b \<and> name = fst e)"
    using list_published_ok [OF I] by blast
  have b: "wf_bundle b" "bundle_key b = key" "validate_bundle_structure sha b = Inr ()"
    using P integrity_iff by (auto simp: publishable_def)
  have listed: "(pr_opaque_id res, pr_bundle res) \<in> set xs" using e xs(2) by auto
  have "if is_ok (bundle_equality_state b) then publish sha again b r = (Inr (res\<lparr>pr_reused := True\<rparr>), r)
     else \<exists>e. publish sha again b r = (Inl e, r)"
  proof (cases "is_ok (bundle_equality_state b)")
    case True
    have ok: "is_ok (bundle_equality_state a)" if member: "(n, a) \<in> set xs" for n a
    proof (cases "differs (pr_bundle res) a")
      case False
      obtain f where f: "f \<in> set (listing_of key r)" "holds_bundle f a" using member xs(2) by blast
      have "evidence_unique (listing_of key r)" using I by (simp add: repo_inv_def)
      then have "e = f" using e(1,2) f False unfolding evidence_unique_def by metis
      then have "holds_bundle e a" using f(2) by simp
      then have "a = pr_bundle res" by (rule holds_unique [OF _ e(2)])
      then show ?thesis using same True by simp
    qed (simp add: differs_iff)
    then have "is_ok (publish_check sha b r)"
      unfolding publish_check_returns [OF I P xs(1)] using True by (auto simp: list_all_iff)
    moreover have "\<not> new_evidence (listing_of key r) b" using e same by (auto simp: new_evidence_def differs_iff)
    ultimately obtain n a where pc: "publish_check sha b r = Inr (Some (n, a))"
      using publish_check_ok(1) [OF I b(1,2)] by (auto simp: is_ok_iff)
    then obtain f where f: "f \<in> set (listing_of key r)" "holds_bundle f a" "n = fst f" "bundle_equality_state a = bundle_equality_state b"
      using publish_check_ok(2) [OF I b(1,2)] by blast
    then have "\<not> differs (pr_bundle res) a" using same by (simp add: differs_iff)
    then have "e = f" using I e f unfolding repo_inv_def evidence_unique_def by blast
    then have "a = pr_bundle res" "n = pr_opaque_id res" using e f holds_unique by blast+
    then show ?thesis using True pc b clean by (simp add: publish_def Let_def opened_def)
  next
    case False
    then have "\<not> list_all (is_ok \<circ> bundle_equality_state) (b # map snd xs)" by simp
    moreover have "xs \<noteq> []" using listed by auto
    ultimately have "\<exists>e. publish sha again b r = (Inl e, r)" using publish_blocked [OF I P xs(1)] clean by metis
    then show ?thesis using False by simp
  qed
  then show ?thesis using xs(1) listed same by blast
qed

section \<open>An example\<close>

definition example_sha :: "string \<Rightarrow> string" where
  "example_sha _ = replicate 64 CHR ''0''"

definition example_published :: filing_bundle where
  "example_published = \<lparr>fb_filing = example_filing 0 5, fb_payload_hash = replicate 64 CHR ''0'',
     fb_artifacts = [\<lparr>ba_logical_path = ''a'', ba_content = \<lparr>co_sha256 = replicate 64 CHR ''0'', co_byte_size = 3\<rparr>,
       ba_artifact_kind = ''other'', ba_required = True\<rparr>],
     fb_report_inputs = [InstanceReportInput [''http://h/a'']],
     fb_uri_bindings = [\<lparr>ub_document_uri = ''http://h/a'', ub_artifact_path = ''a'',
       ub_content_sha256 = replicate 64 CHR ''0'', ub_replay_aliases = []\<rparr>],
     fb_schema_version = 1, fb_acquisition_policy_version = ''acq-v1''\<rparr>"

definition example_key :: "string \<times> string" where
  "example_key = (''0000000042'', ''0000000042-24-000001'')"

definition example_repo :: repo where
  "example_repo = \<lparr>rp_store = [replicate 64 CHR ''0'' \<mapsto> ''abc''], rp_root = (\<lambda>_. None)\<rparr>"

definition example_uuid :: string where
  "example_uuid = replicate 12 CHR ''0'' @ ''4'' @ replicate 3 CHR ''0'' @ ''8'' @ replicate 15 CHR ''0''"

lemma example_uuid: "is_uuid4_hex example_uuid"
  by code_simp

lemma example_uri: "assert_serialized_binding_uri ''http://h/a'' = Inr ''http://h/a''"
  by code_simp

text \<open>The example with another acceptance time.\<close>

definition example_accepted_at :: "datetime \<Rightarrow> filing_bundle" where
  "example_accepted_at t = example_published\<lparr>fb_filing := (example_filing 0 5)\<lparr>fi_accepted_at := Some t\<rparr>\<rparr>"

lemma example_accepted_at_publishable:
  assumes "valid_datetime t" and "dt_offset t \<noteq> None"
  shows "publishable example_sha (rp_store example_repo) example_key (example_accepted_at t)"
proof -
  have "wf_filing (fb_filing (example_bundle 0 5 []))"
    using example_wf [of 5 0 "[]"] by (simp add: wf_bundle_def day_us_def)
  then have "wf_filing ((example_filing 0 5)\<lparr>fi_accepted_at := Some t\<rparr>)"
    using assms by (simp add: wf_filing_def example_bundle_def)
  then have wf: "wf_bundle (example_accepted_at t)"
    using example_wf [of 5 0 "[]"] example_ids example_hex
    by (simp add: wf_bundle_def example_bundle_def example_published_def example_accepted_at_def wf_artifact_def wf_content_def
        wf_binding_def day_us_def)
  have "validate_bundle_structure example_sha (example_accepted_at t) = Inr ()"
    using example_hex example_uri
    by (simp add: bundle_structure_valid example_published_def example_accepted_at_def compute_payload_hash_def
        payload_hash_bytes_def example_sha_def binding_ok_def artifact_by_path_def)
  moreover have "list_all (stored example_sha (rp_store example_repo)) (fb_artifacts (example_accepted_at t))"
    by (simp add: stored_def example_published_def example_accepted_at_def example_repo_def example_sha_def)
  ultimately show ?thesis
    using wf integrity_iff [OF wf]
    by (simp add: publishable_def bundle_key_def example_published_def example_accepted_at_def example_filing_def example_key_def)
qed

lemma example_publishable: "publishable example_sha (rp_store example_repo) example_key example_published"
proof -
  have eq: "example_published = example_accepted_at \<lparr>dt_date = Date 2024 2 29, dt_us = 5, dt_offset = Some 0\<rparr>"
    by (simp add: example_accepted_at_def example_published_def example_filing_def)
  have "valid_datetime \<lparr>dt_date = Date 2024 2 29, dt_us = 5, dt_offset = Some 0\<rparr>"
    by (simp add: valid_datetime_def valid_date_def days_in_month_def is_leap_def day_us_def)
  from example_accepted_at_publishable [OF this] show ?thesis unfolding eq by simp
qed

lemma example_dated: "is_ok (bundle_equality_state example_published)"
  using example_accepted by (simp add: equality_state_eq example_published_def is_ok_iff)

lemma example_repo_reachable: "reachable example_sha example_key \<lparr>cf_phase = Idle, cf_repo = example_repo\<rparr>"
proof -
  let ?r = "\<lparr>rp_store = (\<lambda>_. None), rp_root = (\<lambda>_. None)\<rparr> :: repo"
  have "reachable example_sha example_key \<lparr>cf_phase = Idle, cf_repo = ?r\<rparr>" by (rule reachable_start) simp_all
  moreover obtain obj where "put_bytes example_sha ''abc'' (rp_store ?r) = Inr (obj, rp_store example_repo)"
    using example_hex by (simp add: put_bytes_def path_for_def example_sha_def example_repo_def Let_def)
  from step_put [OF this] have "publish_step example_sha example_key \<lparr>cf_phase = Idle, cf_repo = ?r\<rparr> \<lparr>cf_phase = Idle, cf_repo = example_repo\<rparr>"
    by (simp add: example_repo_def)
  ultimately show ?thesis by (rule reachable_step)
qed

lemma example_free: "name \<notin> names_of example_key example_repo"
  by (simp add: names_of_def example_repo_def)

lemma reachable_steps: "(publish_step sha key)\<^sup>*\<^sup>* c d \<Longrightarrow> reachable sha key c \<Longrightarrow> reachable sha key d"
  by (induction rule: rtranclp_induct) (auto intro: reachable_step)

lemma example_listing: "list_published example_sha example_repo (fst example_key) (snd example_key) = Inr []"
  by (simp add: list_published_def example_repo_def)

lemma example_check: "is_ok (publish_check example_sha example_published (opened example_key example_repo))"
proof -
  note I = reachable_repo_inv [OF example_repo_reachable, unfolded config.simps]
  show ?thesis unfolding opened_check_returns [OF I example_publishable example_listing] by simp
qed

text \<open>
  A bundle accepted in the first hour of the calendar, an hour east of Greenwich, can be published.  After
  that no bundle of the accession can be published again.
\<close>

definition example_undated :: filing_bundle where
  "example_undated = example_accepted_at \<lparr>dt_date = Date 1 1 1, dt_us = 0, dt_offset = Some 3600000000\<rparr>"

lemma example_undated: "\<not> is_ok (bundle_equality_state example_undated)"
  by (auto simp: is_ok_iff equality_state_eq example_undated_def example_accepted_at_def accepted_state_def utc_text_def
      astimezone_utc_def day_us_def res_bind_Inr_iff)

lemma example_undated_publishable: "publishable example_sha (rp_store example_repo) example_key example_undated"
  unfolding example_undated_def
  by (rule example_accepted_at_publishable) (simp_all add: valid_datetime_def valid_date_def days_in_month_def day_us_def)

lemma undated_blocks:
  "\<exists>res r' e. publish example_sha example_uuid example_undated example_repo = (Inr res, r') \<and>
     publish example_sha name example_published r' = (Inl e, r')"
proof -
  note I = reachable_repo_inv [OF example_repo_reachable, unfolded config.simps]
  note P = example_undated_publishable
  have "is_ok (publish_check example_sha example_undated (opened example_key example_repo))"
    unfolding opened_check_returns [OF I P example_listing] by simp
  from publish_run [OF I P example_uuid example_free this]
  obtain res r' e where run: "publish example_sha example_uuid example_undated example_repo = (Inr res, r')"
      "(publish_step example_sha example_key)\<^sup>*\<^sup>* \<lparr>cf_phase = Idle, cf_repo = example_repo\<rparr> \<lparr>cf_phase = Idle, cf_repo = r'\<rparr>"
      "e \<in> set (listing_of example_key r')" "holds_bundle e (pr_bundle res)"
      "bundle_equality_state (pr_bundle res) = bundle_equality_state example_undated"
      "opened example_key r' = r'" "rp_store r' = rp_store example_repo" by metis
  have I': "repo_inv example_sha example_key r'"
    using reachable_repo_inv [OF reachable_steps [OF run(2) example_repo_reachable]] by simp
  obtain xs where xs: "list_published example_sha r' (fst example_key) (snd example_key) = Inr xs"
      "\<And>name b. (name, b) \<in> set xs \<longleftrightarrow> (\<exists>e\<in>set (listing_of example_key r'). holds_bundle e b \<and> name = fst e)"
    using list_published_ok [OF I'] by blast
  have "(fst e, pr_bundle res) \<in> set xs" using run(3,4) xs(2) by blast
  then have "xs \<noteq> []" "\<not> list_all (is_ok \<circ> bundle_equality_state) (example_published # map snd xs)"
    using run(5) example_undated by (force simp: list_all_iff)+
  moreover have "publishable example_sha (rp_store r') example_key example_published" using example_publishable run(7) by simp
  ultimately show ?thesis using publish_blocked [OF I' _ xs(1)] run(1,6) by metis
qed

section \<open>Properties\<close>

text \<open>
  Property C11: published evidence is unique.  In every state that publishers reach, dying between any two
  of their steps while objects are stored, the published bundles of an accession can be listed, each
  passes its structural and storage integrity check and belongs to the accession, and no two of them
  hold the same evidence.
\<close>

theorem published_unique:
  assumes "reachable sha key c"
  shows "\<exists>xs. list_published sha (cf_repo c) (fst key) (snd key) = Inr xs \<and> distinct (map fst xs) \<and>
    distinct (map (bundle_equality_state \<circ> snd) xs) \<and>
    list_all (\<lambda>(name, b). bundle_key b = key \<and> validate_bundle_integrity sha (rp_store (cf_repo c)) b = Inr ()) xs"
proof -
  have I: "repo_inv sha key (cf_repo c)" by (rule reachable_repo_inv [OF assms])
  obtain xs where xs: "list_published sha (cf_repo c) (fst key) (snd key) = Inr xs" "distinct (map fst xs)"
      "\<And>name b. (name, b) \<in> set xs \<longleftrightarrow> (\<exists>e\<in>set (listing_of key (cf_repo c)). holds_bundle e b \<and> name = fst e)"
    using list_published_ok [OF I] by blast
  have "inj_on (bundle_equality_state \<circ> snd) (set xs)"
  proof (rule inj_onI)
    fix x y assume "x \<in> set xs" "y \<in> set xs" and same: "(bundle_equality_state \<circ> snd) x = (bundle_equality_state \<circ> snd) y"
    then obtain e f where ef: "e \<in> set (listing_of key (cf_repo c))" "holds_bundle e (snd x)" "fst x = fst e"
        "f \<in> set (listing_of key (cf_repo c))" "holds_bundle f (snd y)" "fst y = fst f"
      using xs(3) [of "fst x" "snd x"] xs(3) [of "fst y" "snd y"] by auto
    moreover have "\<not> differs (snd x) (snd y)" using same by (simp add: differs_iff)
    ultimately have "e = f" using I unfolding repo_inv_def evidence_unique_def by blast
    then show "x = y" using ef holds_unique by (metis prod_eqI)
  qed
  moreover have "distinct xs" using xs(2) by (simp add: distinct_map)
  moreover have "publishable sha (rp_store (cf_repo c)) key b" if "(name, b) \<in> set xs" for name b
    using that xs(3) I read_ok by (metis list_all_iff repo_inv_def)
  ultimately show ?thesis using xs(1,2) by (auto simp: distinct_map list_all_iff publishable_def)
qed

theorem published_unique_witness:
  "\<exists>r xs. list_published example_sha r (fst example_key) (snd example_key) = Inr xs \<and>
     (\<exists>name b. (name, b) \<in> set xs \<and> bundle_equality_state b = bundle_equality_state example_published) \<and>
     distinct (map (bundle_equality_state \<circ> snd) xs)"
proof -
  note I = reachable_repo_inv [OF example_repo_reachable, unfolded config.simps]
  obtain res r' e where "publish example_sha example_uuid example_published example_repo = (Inr res, r')" and run:
      "(publish_step example_sha example_key)\<^sup>*\<^sup>* \<lparr>cf_phase = Idle, cf_repo = example_repo\<rparr> \<lparr>cf_phase = Idle, cf_repo = r'\<rparr>"
      and e: "e \<in> set (listing_of example_key r')" "holds_bundle e (pr_bundle res)" and "fst e = pr_opaque_id res"
      and same: "bundle_equality_state (pr_bundle res) = bundle_equality_state example_published"
      and "opened example_key r' = r'" and "rp_store r' = rp_store example_repo"
    by (rule publish_run [OF I example_publishable example_uuid example_free example_check])
  have reach: "reachable example_sha example_key \<lparr>cf_phase = Idle, cf_repo = r'\<rparr>" by (rule reachable_steps [OF run example_repo_reachable])
  obtain xs where xs: "list_published example_sha r' (fst example_key) (snd example_key) = Inr xs"
      "distinct (map (bundle_equality_state \<circ> snd) xs)"
    using published_unique [OF reach] by auto
  obtain ys where ys: "list_published example_sha r' (fst example_key) (snd example_key) = Inr ys"
      "\<And>name b. (name, b) \<in> set ys \<longleftrightarrow> (\<exists>e\<in>set (listing_of example_key r'). holds_bundle e b \<and> name = fst e)"
    using list_published_ok [OF reachable_repo_inv [OF reach]] by auto
  then have "(fst e, pr_bundle res) \<in> set xs" using xs(1) e by auto
  then show ?thesis using xs same by blast
qed

text \<open>
  Property C12: publication recovers, unless an acceptance time stands in its way.  From every reachable
  state, whatever earlier publishers left behind, the published bundles can be listed.  A well-formed bundle
  whose objects are stored is published under a fresh identifier or found to be published exactly when
  nothing is listed yet or it and all listed bundles have an acceptance time within the UTC calendar (or none).
  One publication is then a run of the machine, and the bundle it returns is listed with the evidence asked
  for; publishing once more changes nothing and returns the same bundle, or raises when its acceptance time
  lies outside the calendar.  Otherwise the publication raises and only staging directories are removed.
\<close>

theorem publish_recovers:
  assumes "reachable sha key c" and "cf_phase c = Idle" and "publishable sha (rp_store (cf_repo c)) key b"
    and "is_uuid4_hex name" and "name \<notin> names_of key (cf_repo c)" and "is_uuid4_hex again"
  shows "\<exists>xs. list_published sha (cf_repo c) (fst key) (snd key) = Inr xs \<and>
    (if xs = [] \<or> list_all (is_ok \<circ> bundle_equality_state) (b # map snd xs)
     then \<exists>res r' ys. publish sha name b (cf_repo c) = (Inr res, r') \<and>
       (publish_step sha key)\<^sup>*\<^sup>* c \<lparr>cf_phase = Idle, cf_repo = r'\<rparr> \<and>
       list_published sha r' (fst key) (snd key) = Inr ys \<and> (pr_opaque_id res, pr_bundle res) \<in> set ys \<and>
       bundle_equality_state (pr_bundle res) = bundle_equality_state b \<and>
       (if is_ok (bundle_equality_state b) then publish sha again b r' = (Inr (res\<lparr>pr_reused := True\<rparr>), r')
        else \<exists>e. publish sha again b r' = (Inl e, r'))
     else \<exists>e. publish sha name b (cf_repo c) = (Inl e, opened key (cf_repo c)))"
proof -
  have c: "c = \<lparr>cf_phase = Idle, cf_repo = cf_repo c\<rparr>" using assms(2) by simp
  note I = reachable_repo_inv [OF assms(1)] and P = assms(3)
  obtain xs where xs: "list_published sha (cf_repo c) (fst key) (snd key) = Inr xs" using list_published_ok [OF I] by blast
  show ?thesis
  proof (cases "xs = [] \<or> list_all (is_ok \<circ> bundle_equality_state) (b # map snd xs)")
    case True
    then have ret: "is_ok (publish_check sha b (opened key (cf_repo c)))" unfolding opened_check_returns [OF I P xs] .
    obtain res r' e where run: "publish sha name b (cf_repo c) = (Inr res, r')"
        and steps: "(publish_step sha key)\<^sup>*\<^sup>* c \<lparr>cf_phase = Idle, cf_repo = r'\<rparr>"
        and e: "e \<in> set (listing_of key r')" "holds_bundle e (pr_bundle res)" "fst e = pr_opaque_id res"
        and same: "bundle_equality_state (pr_bundle res) = bundle_equality_state b"
        and clean: "opened key r' = r'" and st: "rp_store r' = rp_store (cf_repo c)"
      using publish_run [OF I P assms(4,5) ret] c by metis
    have reach: "reachable sha key \<lparr>cf_phase = Idle, cf_repo = r'\<rparr>" by (rule reachable_steps [OF steps assms(1)])
    have "publishable sha (rp_store r') key b" using P st by simp
    from publish_again [OF reachable_repo_inv [OF reach, unfolded config.simps] this e same clean, of again]
    obtain ys where "list_published sha r' (fst key) (snd key) = Inr ys" "(pr_opaque_id res, pr_bundle res) \<in> set ys"
        "if is_ok (bundle_equality_state b) then publish sha again b r' = (Inr (res\<lparr>pr_reused := True\<rparr>), r')
         else \<exists>e. publish sha again b r' = (Inl e, r')" by blast
    with run steps same have "\<exists>res r' ys. publish sha name b (cf_repo c) = (Inr res, r') \<and>
       (publish_step sha key)\<^sup>*\<^sup>* c \<lparr>cf_phase = Idle, cf_repo = r'\<rparr> \<and>
       list_published sha r' (fst key) (snd key) = Inr ys \<and> (pr_opaque_id res, pr_bundle res) \<in> set ys \<and>
       bundle_equality_state (pr_bundle res) = bundle_equality_state b \<and>
       (if is_ok (bundle_equality_state b) then publish sha again b r' = (Inr (res\<lparr>pr_reused := True\<rparr>), r')
        else \<exists>e. publish sha again b r' = (Inl e, r'))" by blast
    with True show ?thesis by (intro exI [of _ xs] conjI xs) (simp only: if_P)
  next
    case False
    then have "\<exists>e. publish sha name b (cf_repo c) = (Inl e, opened key (cf_repo c))" using publish_blocked [OF I P xs] by blast
    with False show ?thesis by (intro exI [of _ xs] conjI xs) (simp only: if_False simp_thms)
  qed
qed

theorem publish_recovers_witness:
  "\<exists>res r'. publish example_sha example_uuid example_published example_repo = (Inr res, r') \<and>
     publish example_sha example_uuid example_published r' = (Inr (res\<lparr>pr_reused := True\<rparr>), r')"
proof -
  have "cf_phase \<lparr>cf_phase = Idle, cf_repo = example_repo\<rparr> = Idle"
    and "publishable example_sha (rp_store (cf_repo \<lparr>cf_phase = Idle, cf_repo = example_repo\<rparr>)) example_key example_published"
    and "example_uuid \<notin> names_of example_key (cf_repo \<lparr>cf_phase = Idle, cf_repo = example_repo\<rparr>)"
    using example_publishable example_free by (simp_all only: config.simps simp_thms)
  from publish_recovers [OF example_repo_reachable this(1,2) example_uuid this(3) example_uuid]
  show ?thesis unfolding config.simps using example_listing example_dated by auto
qed

text \<open>
  What is stored is read back.  A stream within its limit is stored under the digest of its
  concatenated chunks, empty chunks and the division into chunks aside, and opening the digest returns
  exactly those bytes; a longer one is refused before it is stored.
\<close>

theorem put_stream_roundtrip:
  assumes "store_ok sha st" and "hex64 (sha (concat chunks))" and "\<forall>x. st (sha (concat chunks)) = Some x \<longrightarrow> x = concat chunks"
  shows "if length (concat chunks) \<le> max_bytes
    then \<exists>obj st'. put_stream sha max_bytes chunks st = Inr (obj, st') \<and> store_ok sha st' \<and>
      so_sha256 obj = sha (concat chunks) \<and> so_byte_size obj = length (concat chunks) \<and>
      open_bytes sha st' (so_sha256 obj) = Inr (concat chunks) \<and>
      (\<forall>d x. st d = Some x \<longrightarrow> st' d = Some x)
    else put_stream sha max_bytes chunks st = Inl SizeLimitExceeded"
proof (cases "length (concat chunks) \<le> max_bytes")
  case True
  have w: "write_chunks max_bytes chunks [] = Inr (concat chunks)"
    using write_chunks_iff [of "[]" max_bytes chunks] True by simp
  have "put_stream sha max_bytes chunks st = put_bytes sha (concat chunks) st"
    by (simp add: put_stream_def put_bytes_def w)
  moreover obtain obj st' where put: "put_bytes sha (concat chunks) st = Inr (obj, st')"
    using assms by (cases "st (sha (concat chunks))") (simp_all add: put_bytes_def path_for_def Let_def)
  moreover note put_bytes_ok [OF assms(1) put]
  ultimately show ?thesis using True assms(2) by (simp add: open_bytes_ok)
next
  case False
  then show ?thesis using write_chunks_iff [of "[]" max_bytes chunks] by (simp add: put_stream_def)
qed

theorem put_stream_roundtrip_witness:
  "\<exists>obj st'. put_stream example_sha 4 [''ab'', [], ''c''] (\<lambda>_. None) = Inr (obj, st') \<and> open_bytes example_sha st' (so_sha256 obj) = Inr ''abc''"
  using put_stream_roundtrip [of example_sha "\<lambda>_. None" "[''ab'', [], ''c'']" 4] example_hex
  by (auto simp: store_ok_def example_sha_def)

end
