(* ===== verification/Address.thy ===== *)
theory Address
  imports Urlsplit "HOL-Library.Word"
begin

text \<open>
  IP addresses as Python's \<^verbatim>\<open>ipaddress\<close> reads and classifies them (3.12): an IPv4 address is a 32-bit
  word, an IPv6 address a 128-bit word and a scope.  The networks are the tables of the standard
  library; membership compares the leading bits.
\<close>

section \<open>Reading\<close>

type_synonym ipv4 = "32 word"
type_synonym ipv6 = "128 word"

datatype ip = IPv4 ipv4 | IPv6 ipv6 "string option"

fun of_parts :: "int \<Rightarrow> int list \<Rightarrow> int" where
  "of_parts base [] = 0"
| "of_parts base (p # ps) = p * base ^ length ps + of_parts base ps"

definition ipv4_value :: "string \<Rightarrow> int" where
  "ipv4_value s = of_parts 256 (map (\<lambda>p. int (read_digits p)) (split_on CHR ''.'' s))"

definition hex_val :: "char \<Rightarrow> nat" where
  "hex_val c = (if is_digit c then digit_val c
     else if is_lower_ascii c then of_char c - of_char (CHR ''a'') + 10 else of_char c - of_char (CHR ''A'') + 10)"

definition read_hex :: "string \<Rightarrow> int" where
  "read_hex s = of_parts 16 (map (\<lambda>c. int (hex_val c)) s)"

text \<open>The eight groups of a text whose groups are valid; an empty inner group stands for zeros.\<close>

definition hextets :: "string list \<Rightarrow> int list" where
  "hextets parts =
     (case filter (\<lambda>i. parts ! i = []) [1..<length parts - 1] of
        [] \<Rightarrow> map read_hex parts
      | skip # _ \<Rightarrow>
          (let hi = filter (\<lambda>p. p \<noteq> []) (take skip parts); lo = filter (\<lambda>p. p \<noteq> []) (drop (Suc skip) parts)
           in map read_hex hi @ replicate (8 - length hi - length lo) 0 @ map read_hex lo))"

definition ipv6_value :: "string \<Rightarrow> int" where
  "ipv6_value addr =
     (let parts = split_on CHR '':'' addr
      in if CHR ''.'' \<in> set (last parts)
         then of_parts 65536 (hextets (butlast parts @ [''0'', ''0''])) + ipv4_value (last parts)
         else of_parts 65536 (hextets parts))"

text \<open>\<^verbatim>\<open>ipaddress.ip_address(text)\<close>: none where it raises \<^verbatim>\<open>ValueError\<close>.\<close>

definition ip_address :: "string \<Rightarrow> ip option" where
  "ip_address s =
     (if ipv4_ok s then Some (IPv4 (word_of_int (ipv4_value s)))
      else if ipv6_ok s
      then Some (IPv6 (word_of_int (ipv6_value (before_first CHR ''%'' s)))
             (if CHR ''%'' \<in> set s then Some (after_first CHR ''%'' s) else None))
      else None)"

section \<open>Networks\<close>

definition in_net :: "'a::len word \<Rightarrow> nat \<Rightarrow> 'a word \<Rightarrow> bool" where
  "in_net base prefix a = (drop_bit (LENGTH('a) - prefix) a = drop_bit (LENGTH('a) - prefix) base)"

definition in_nets :: "('a::len word \<times> nat) list \<Rightarrow> 'a word \<Rightarrow> bool" where
  "in_nets nets a = list_ex (\<lambda>(base, prefix). in_net base prefix a) nets"

definition ipv4_private :: "(ipv4 \<times> nat) list" where
  "ipv4_private = [(0, 8), (0x0A000000, 8), (0x7F000000, 8), (0xA9FE0000, 16), (0xAC100000, 12), (0xC0000000, 24),
     (0xC00000AA, 31), (0xC0000200, 24), (0xC0A80000, 16), (0xC6120000, 15), (0xC6336400, 24), (0xCB007100, 24),
     (0xF0000000, 4), (0xFFFFFFFF, 32)]"

definition ipv4_private_exceptions :: "(ipv4 \<times> nat) list" where
  "ipv4_private_exceptions = [(0xC0000009, 32), (0xC000000A, 32)]"

text \<open>Loopback, link-local, multicast, reserved and unspecified.\<close>

definition ipv4_special :: "(ipv4 \<times> nat) list" where
  "ipv4_special = [(0x7F000000, 8), (0xA9FE0000, 16), (0xE0000000, 4), (0xF0000000, 4), (0, 32)]"

definition ipv6_private :: "(ipv6 \<times> nat) list" where
  "ipv6_private = [(1, 128), (0, 128), (0xFFFF00000000, 96), (0x0064FF9B000100000000000000000000, 48),
     (0x01000000000000000000000000000000, 64), (0x20010000000000000000000000000000, 23),
     (0x20010DB8000000000000000000000000, 32), (0x20020000000000000000000000000000, 16),
     (0xFC000000000000000000000000000000, 7), (0xFE800000000000000000000000000000, 10)]"

definition ipv6_private_exceptions :: "(ipv6 \<times> nat) list" where
  "ipv6_private_exceptions = [(0x20010001000000000000000000000001, 128), (0x20010001000000000000000000000002, 128),
     (0x20010003000000000000000000000000, 32), (0x20010004011200000000000000000000, 48),
     (0x20010020000000000000000000000000, 28), (0x20010030000000000000000000000000, 28)]"

text \<open>Loopback, unspecified, link-local and multicast; then the reserved networks.\<close>

definition ipv6_special :: "(ipv6 \<times> nat) list" where
  "ipv6_special = [(1, 128), (0, 128), (0xFE800000000000000000000000000000, 10), (0xFF000000000000000000000000000000, 8),
     (0, 8), (0x01000000000000000000000000000000, 8), (0x02000000000000000000000000000000, 7),
     (0x04000000000000000000000000000000, 6), (0x08000000000000000000000000000000, 5),
     (0x10000000000000000000000000000000, 4), (0x40000000000000000000000000000000, 3),
     (0x60000000000000000000000000000000, 3), (0x80000000000000000000000000000000, 3),
     (0xA0000000000000000000000000000000, 3), (0xC0000000000000000000000000000000, 3),
     (0xE0000000000000000000000000000000, 4), (0xF0000000000000000000000000000000, 5),
     (0xF8000000000000000000000000000000, 6), (0xFE000000000000000000000000000000, 9)]"

definition ipv4_is_private :: "ipv4 \<Rightarrow> bool" where
  "ipv4_is_private a = (in_nets ipv4_private a \<and> \<not> in_nets ipv4_private_exceptions a)"

text \<open>An IPv4-mapped IPv6 address is private when the IPv4 address is.\<close>

definition ipv6_is_private :: "ipv6 \<Rightarrow> bool" where
  "ipv6_is_private a =
     (if in_net 0xFFFF00000000 96 a then ipv4_is_private (ucast a)
      else in_nets ipv6_private a \<and> \<not> in_nets ipv6_private_exceptions a)"

fun forbidden_address :: "ip \<Rightarrow> bool" where
  "forbidden_address (IPv4 a) = (ipv4_is_private a \<or> in_nets ipv4_special a)"
| "forbidden_address (IPv6 a _) = (ipv6_is_private a \<or> in_nets ipv6_special a)"

section \<open>Networks are intervals\<close>

lemma in_net_range:
  fixes a base :: "'a::len word"
  assumes "prefix \<le> LENGTH('a)" and "uint base mod 2 ^ (LENGTH('a) - prefix) = 0"
  shows "in_net base prefix a \<longleftrightarrow> uint base \<le> uint a \<and> uint a < uint base + 2 ^ (LENGTH('a) - prefix)"
proof -
  let ?m = "2 ^ (LENGTH('a) - prefix) :: int"
  have "in_net base prefix a \<longleftrightarrow> uint a div ?m = uint base div ?m"
  proof -
    have "uint (drop_bit n w) = uint w div 2 ^ n" for n and w :: "'a word"
    proof -
      have "take_bit LENGTH('a) (uint w) = uint w" using uint_bounded [of w] by (simp add: take_bit_eq_mod)
      moreover have "uint (drop_bit n w) = drop_bit n (take_bit LENGTH('a) (uint w))" by (rule unsigned_drop_bit_eq)
      ultimately show ?thesis by (simp only: drop_bit_eq_div)
    qed
    then show ?thesis unfolding in_net_def word_uint_eq_iff by simp
  qed
  also have "\<dots> \<longleftrightarrow> uint base \<le> uint a \<and> uint a < uint base + ?m"
  proof -
    have b: "uint base = ?m * (uint base div ?m)" using assms(2) by (metis add.right_neutral mult_div_mod_eq)
    have "x div m = y div m \<longleftrightarrow> m * (y div m) \<le> x \<and> x < m * (y div m) + m" if "0 < m" for x y m :: int
    proof
      assume "x div m = y div m"
      then show "m * (y div m) \<le> x \<and> x < m * (y div m) + m"
        using pos_mod_bound [OF that, of x] pos_mod_sign [OF that, of x] mult_div_mod_eq [of m x] by auto
    next
      assume "m * (y div m) \<le> x \<and> x < m * (y div m) + m"
      then show "x div m = y div m"
        by (intro int_div_pos_eq [of x m "y div m" "x - m * (y div m)"]) linarith+
    qed
    then show ?thesis using b by (metis zero_less_numeral zero_less_power)
  qed
  finally show ?thesis .
qed

lemma in_nets_simps [simp]:
  "in_nets [] a = False" "in_nets ((base, prefix) # nets) a = (in_net base prefix a \<or> in_nets nets a)"
  by (simp_all add: in_nets_def)

text \<open>What the tests let through: of IPv6 the global unicast block and the site-local block.\<close>

lemma beyond_net:
  fixes a base :: "'a::len word"
  assumes "\<not> in_net base prefix a" and "uint base \<le> uint a"
    and "prefix \<le> LENGTH('a)" and "uint base mod 2 ^ (LENGTH('a) - prefix) = 0"
  shows "uint base + 2 ^ (LENGTH('a) - prefix) \<le> uint a"
  using assms in_net_range [of prefix base a] by linarith

lemma ipv6_special_complement:
  assumes "\<not> in_nets ipv6_special a" and "\<not> in_net 0xFC000000000000000000000000000000 7 a"
  shows "0x20000000000000000000000000000000 \<le> uint a \<and> uint a < 0x40000000000000000000000000000000 \<or>
     0xFEC00000000000000000000000000000 \<le> uint a \<and> uint a < 0xFF000000000000000000000000000000"
proof -
  note n = assms(1) [unfolded ipv6_special_def in_nets_simps de_Morgan_disj]
  have low: "0x20000000000000000000000000000000 \<le> uint a"
  proof -
    have "0x01000000000000000000000000000000 \<le> uint a" using n beyond_net [of 0 8 a] by simp
    then have "0x02000000000000000000000000000000 \<le> uint a"
      using n beyond_net [of "0x01000000000000000000000000000000" 8 a] by simp
    then have "0x04000000000000000000000000000000 \<le> uint a"
      using n beyond_net [of "0x02000000000000000000000000000000" 7 a] by simp
    then have "0x08000000000000000000000000000000 \<le> uint a"
      using n beyond_net [of "0x04000000000000000000000000000000" 6 a] by simp
    then have "0x10000000000000000000000000000000 \<le> uint a"
      using n beyond_net [of "0x08000000000000000000000000000000" 5 a] by simp
    then show ?thesis using n beyond_net [of "0x10000000000000000000000000000000" 4 a] by simp
  qed
  have high: "uint a < 0xFF000000000000000000000000000000"
    using n in_net_range [of 8 "0xFF000000000000000000000000000000" a] uint_bounded [of a] by simp
  show ?thesis
  proof (cases "uint a < 0x40000000000000000000000000000000")
    case False
    then have "0x60000000000000000000000000000000 \<le> uint a"
      using n beyond_net [of "0x40000000000000000000000000000000" 3 a] by simp
    then have "0x80000000000000000000000000000000 \<le> uint a"
      using n beyond_net [of "0x60000000000000000000000000000000" 3 a] by simp
    then have "0xA0000000000000000000000000000000 \<le> uint a"
      using n beyond_net [of "0x80000000000000000000000000000000" 3 a] by simp
    then have "0xC0000000000000000000000000000000 \<le> uint a"
      using n beyond_net [of "0xA0000000000000000000000000000000" 3 a] by simp
    then have "0xE0000000000000000000000000000000 \<le> uint a"
      using n beyond_net [of "0xC0000000000000000000000000000000" 3 a] by simp
    then have "0xF0000000000000000000000000000000 \<le> uint a"
      using n beyond_net [of "0xE0000000000000000000000000000000" 4 a] by simp
    then have "0xF8000000000000000000000000000000 \<le> uint a"
      using n beyond_net [of "0xF0000000000000000000000000000000" 5 a] by simp
    then have "0xFC000000000000000000000000000000 \<le> uint a"
      using n beyond_net [of "0xF8000000000000000000000000000000" 6 a] by simp
    then have "0xFE000000000000000000000000000000 \<le> uint a"
      using assms(2) beyond_net [of "0xFC000000000000000000000000000000" 7 a] by simp
    then have "0xFE800000000000000000000000000000 \<le> uint a"
      using n beyond_net [of "0xFE000000000000000000000000000000" 9 a] by simp
    then have "0xFEC00000000000000000000000000000 \<le> uint a"
      using n beyond_net [of "0xFE800000000000000000000000000000" 10 a] by simp
    then show ?thesis using high by blast
  qed (use low in blast)
qed

section \<open>What the address tests let through\<close>

text \<open>
  The addresses that pass: IPv4 outside the unspecified, private, loopback, link-local, multicast and reserved
  networks; IPv6 inside global unicast or the old site-local block.
\<close>

definition permitted_ip :: "ip \<Rightarrow> bool" where
  "permitted_ip ip = (case ip of
      IPv4 a \<Rightarrow> \<not> in_nets [(0, 8), (0x0A000000, 8), (0x7F000000, 8), (0xA9FE0000, 16), (0xAC100000, 12),
        (0xC0A80000, 16), (0xE0000000, 4), (0xF0000000, 4)] a
    | IPv6 a _ \<Rightarrow> 0x20000000000000000000000000000000 \<le> uint a \<and> uint a < 0x40000000000000000000000000000000 \<or>
        0xFEC00000000000000000000000000000 \<le> uint a \<and> uint a < 0xFF000000000000000000000000000000)"

lemma not_forbidden_permitted:
  assumes "\<not> forbidden_address ip"
  shows "permitted_ip ip"
proof (cases ip)
  case (IPv4 a)
  have n: "\<not> in_nets ipv4_special a" "\<not> in_nets ipv4_private a \<or> in_nets ipv4_private_exceptions a"
    using assms IPv4 by (auto simp: ipv4_is_private_def)
  show ?thesis
  proof (cases "in_nets ipv4_private_exceptions a")
    case False
    then show ?thesis using n IPv4 by (auto simp: permitted_ip_def ipv4_special_def ipv4_private_def)
  next
    case True
    then have "uint a = 0xC0000009 \<or> uint a = 0xC000000A" by (simp add: ipv4_private_exceptions_def in_net_range) linarith
    then show ?thesis using IPv4 by (auto simp: permitted_ip_def in_net_range)
  qed
next
  case (IPv6 a scope)
  have n: "\<not> in_nets ipv6_special a" "\<not> ipv6_is_private a" using assms IPv6 by auto
  have "\<not> in_net 0xFC000000000000000000000000000000 7 a"
  proof
    assume fc: "in_net 0xFC000000000000000000000000000000 7 a"
    then have high: "0xFC000000000000000000000000000000 \<le> uint a" by (simp add: in_net_range)
    have "\<not> in_net 0xFFFF00000000 96 a" "\<not> in_nets ipv6_private_exceptions a"
      using high by (auto simp: in_net_range ipv6_private_exceptions_def)
    then show False using n(2) fc by (simp add: ipv6_is_private_def ipv6_private_def)
  qed
  then show ?thesis using ipv6_special_complement [OF n(1)] IPv6 by (simp add: permitted_ip_def)
qed

text \<open>The policy names private, loopback, link-local, multicast, reserved and unspecified addresses; shared
  (carrier-grade NAT) IPv4 and deprecated site-local IPv6 addresses are none of these for \<^verbatim>\<open>ipaddress\<close>.\<close>

lemma addresses_not_refused:
  "\<not> forbidden_address (IPv4 0x64400001)" "\<not> forbidden_address (IPv6 0xFEC00000000000000000000000000001 None)"
  by (simp_all add: ipv4_is_private_def ipv4_private_def ipv4_special_def ipv6_is_private_def ipv6_private_def
      ipv6_special_def in_net_range)

lemma addresses_read:
  "ip_address ''100.64.0.1'' = Some (IPv4 0x64400001)" "ip_address ''fec0::1'' = Some (IPv6 0xFEC00000000000000000000000000001 None)"
  "ip_address ''::ffff:10.0.0.1'' = Some (IPv6 0xFFFF0A000001 None)" "ip_address ''fe80::1%eth0'' = Some (IPv6 0xFE800000000000000000000000000001 (Some ''eth0''))"
  "ip_address ''010.0.0.1'' = None" "ip_address ''1:2:3::4:5:6:7:8'' = None"
  by code_simp+

end
