(* ===== verification/Urljoin.thy ===== *)
theory Urljoin
  imports Uri
begin

text \<open>
  \<^verbatim>\<open>urllib.parse.urljoin\<close> and the functions it is made of, on ASCII text as in Python 3.12, and the
  resolution of a reference against a canonical base in \<^verbatim>\<open>domain/uri.py\<close>.
\<close>

section \<open>Parsing and unparsing with parameters\<close>

record parse_result = url_parts +
  u_params :: string

definition uses_relative :: "string list" where
  "uses_relative = ['''', ''ftp'', ''http'', ''gopher'', ''nntp'', ''imap'', ''wais'', ''file'', ''https'', ''shttp'', ''mms'',
     ''prospero'', ''rtsp'', ''rtsps'', ''rtspu'', ''sftp'', ''svn'', ''svn+ssh'', ''ws'', ''wss'']"

definition uses_netloc :: "string list" where
  "uses_netloc = ['''', ''ftp'', ''http'', ''gopher'', ''nntp'', ''telnet'', ''imap'', ''wais'', ''file'', ''mms'', ''https'', ''shttp'',
     ''snews'', ''prospero'', ''rtsp'', ''rtsps'', ''rtspu'', ''rsync'', ''svn'', ''svn+ssh'', ''sftp'', ''nfs'', ''git'', ''git+ssh'', ''ws'', ''wss'']"

text \<open>\<^verbatim>\<open>urlparse(url, scheme)\<close> with a default scheme.\<close>

definition parse_url :: "string \<Rightarrow> string \<Rightarrow> parse_result res" where
  "parse_url default_scheme raw = res_bind (urlsplit raw) (\<lambda>u.
     let scheme = (if u_scheme u = [] then default_scheme else u_scheme u);
         cut = (scheme \<in> set uses_params)
     in Inr \<lparr>u_scheme = scheme, u_netloc = u_netloc u,
             u_path = (if cut then split_params_path (u_path u) else u_path u), u_query = u_query u,
             u_fragment = u_fragment u,
             u_params = (if cut then after_first CHR '';'' (after_last CHR ''/'' (u_path u)) else [])\<rparr>)"

definition unparse_url :: "parse_result \<Rightarrow> string" where
  "unparse_url r =
     (let path = u_path r @ (if u_params r = [] then [] else CHR '';'' # u_params r);
          url = (if u_netloc r \<noteq> [] \<or> (u_scheme r \<noteq> [] \<and> u_scheme r \<in> set uses_netloc \<and> \<not> startswith path ''//'')
                 then ''//'' @ u_netloc r @ (if path \<noteq> [] \<and> hd path \<noteq> CHR ''/'' then CHR ''/'' # path else path)
                 else path)
      in (if u_scheme r = [] then [] else u_scheme r @ '':'') @ url @
         (if u_query r = [] then [] else CHR ''?'' # u_query r) @
         (if u_fragment r = [] then [] else CHR ''#'' # u_fragment r))"

section \<open>Joining\<close>

fun resolve_path :: "string list \<Rightarrow> string list \<Rightarrow> string list" where
  "resolve_path [] resolved = resolved"
| "resolve_path (seg # segs) resolved =
     (if seg = ''..'' then resolve_path segs (butlast resolved)
      else if seg = ''.'' then resolve_path segs resolved
      else resolve_path segs (resolved @ [seg]))"

text \<open>\<^verbatim>\<open>segments[1:-1] = filter(None, segments[1:-1])\<close>.\<close>

definition drop_empty_inner :: "string list \<Rightarrow> string list" where
  "drop_empty_inner segs =
     (if length segs \<le> 1 then segs
      else hd segs # filter (\<lambda>s. s \<noteq> []) (butlast (tl segs)) @ [last segs])"

definition joined_path :: "string \<Rightarrow> string \<Rightarrow> string" where
  "joined_path base_path path =
     (let base_parts = split_on CHR ''/'' base_path;
          kept = (if last base_parts \<noteq> [] then butlast base_parts else base_parts);
          segments = (if startswith path ''/'' then split_on CHR ''/'' path
                      else drop_empty_inner (kept @ split_on CHR ''/'' path));
          resolved = resolve_path segments [];
          resolved' = (if last segments \<in> {''.'', ''..''} then resolved @ [[]] else resolved);
          text = join ''/'' resolved'
      in if text = [] then ''/'' else text)"

definition urljoin :: "string \<Rightarrow> string \<Rightarrow> string res" where
  "urljoin base url =
     (if base = [] then Inr url
      else if url = [] then Inr base
      else res_bind (parse_url [] base) (\<lambda>b. res_bind (parse_url (u_scheme b) url) (\<lambda>r.
        if u_scheme r \<noteq> u_scheme b \<or> u_scheme r \<notin> set uses_relative then Inr url
        else if u_scheme r \<in> set uses_netloc \<and> u_netloc r \<noteq> [] then Inr (unparse_url r)
        else let r = (if u_scheme r \<in> set uses_netloc then r\<lparr>u_netloc := u_netloc b\<rparr> else r)
             in if u_path r = [] \<and> u_params r = []
                then Inr (unparse_url (r\<lparr>u_path := u_path b, u_params := u_params b,
                       u_query := (if u_query r = [] then u_query b else u_query r)\<rparr>))
                else Inr (unparse_url (r\<lparr>u_path := joined_path (u_path b) (u_path r)\<rparr>)))))"

text \<open>\<^verbatim>\<open>resolve_document_uri\<close>.\<close>

definition resolve_document_uri :: "string \<Rightarrow> string \<Rightarrow> string res" where
  "resolve_document_uri base_uri reference =
     res_bind (normalize_uri ALLOWED_SCHEMES base_uri) (\<lambda>base.
     res_bind (urljoin base reference) (\<lambda>joined. normalize_uri ALLOWED_SCHEMES joined))"

section \<open>Joining keeps what it must\<close>

lemma urljoin_examples:
  "urljoin ''http://h/a/b/c'' ''../d?x'' = Inr ''http://h/a/d?x''"
  "urljoin ''http://h/a/b'' ''//k/d'' = Inr ''http://k/d''"
  "urljoin ''http://h/a/b'' ''https://k'' = Inr ''https://k''"
  "urljoin ''http://h/a/b?q'' ''#f'' = Inr ''http://h/a/b?q#f''"
  "urljoin ''http://h'' ''..'' = Inr ''http://h/''"
  "resolve_document_uri ''http://h/a/b'' ''./c/../d#f'' = Inr ''http://h/a/d''"
  by code_simp+

end
