(* ===== verification/Fetch.thy ===== *)
theory Fetch
  imports Address Urljoin Store
begin

text \<open>
  The destination policy (\<^verbatim>\<open>sec/ssrf.py\<close>) and the HTTP client (\<^verbatim>\<open>sec/client.py\<close>).

  The network is an argument: the name server and the peers answer the \<open>n\<close>-th attempt as they like, so
  their answers may change from one attempt to the next.  The state of the fetcher is the trace under
  construction, the number of attempts made (it stands for the clock), the requests sent, the object
  store and the traces the observation sink has received.  An exception is a value; the handlers of the
  code are the cases of \<open>attempt_once\<close>.  Waiting (the throttle and the backoff) has no effect on this
  state and is left out.
\<close>

section \<open>Destinations\<close>

definition is_forbidden_ip :: "string \<Rightarrow> bool" where
  "is_forbidden_ip ip = (case ip_address ip of None \<Rightarrow> False | Some a \<Rightarrow> forbidden_address a)"

definition default_port :: "string \<Rightarrow> nat" where
  "default_port scheme = (if scheme = ''https'' then 443 else 80)"

definition validate_url_syntax :: "string \<Rightarrow> (string \<times> string \<times> nat \<times> string) res" where
  "validate_url_syntax url =
     (if py_strip url = [] then Inl (DestinationForbidden ''empty URL'')
      else res_bind (parse_url [] url) (\<lambda>parsed.
        let scheme = py_lower (u_scheme parsed)
        in if scheme \<notin> set ALLOWED_SCHEMES then Inl (DestinationForbidden ''disallowed scheme'')
           else if has_credentials (u_netloc parsed) then Inl (DestinationForbidden ''URL credentials are forbidden'')
           else (case url_hostname (u_netloc parsed) of
               None \<Rightarrow> Inl (DestinationForbidden ''URL missing hostname'')
             | Some hostname \<Rightarrow>
                 if hostname = [] then Inl (DestinationForbidden ''URL missing hostname'')
                 else if \<not> list_all is_ascii hostname then Inl (DestinationForbidden ''non-ASCII hostname unsupported'')
                 else if ip_address hostname \<noteq> None \<and> is_forbidden_ip hostname
                 then Inl (DestinationForbidden ''forbidden destination address'')
                 else res_bind (url_port (u_netloc parsed)) (\<lambda>port.
                   let p = (case port of None \<Rightarrow> 0 | Some n \<Rightarrow> n);
                       path = (if u_path parsed = [] then ''/'' else u_path parsed);
                       unhashed = rev (dropWhile (\<lambda>c. c = CHR ''#'') (rev url));
                       path' = (if u_query parsed \<noteq> [] then path @ ''?'' @ u_query parsed
                                else if endswith unhashed ''?'' \<or> CHR ''?'' \<in> set (before_first CHR ''#'' url) then path @ ''?''
                                else path)
                   in Inr (scheme, py_lower hostname, if p = 0 then default_port scheme else p, path')))))"

text \<open>The loop over the answers of the name server: the public and the forbidden addresses, without repetition.\<close>

fun sort_addresses :: "string list \<Rightarrow> string list \<Rightarrow> string list \<Rightarrow> string list \<Rightarrow> string list \<times> string list" where
  "sort_addresses [] seen ips forbidden = (ips, forbidden)"
| "sort_addresses (ip # rest) seen ips forbidden =
     (if ip \<in> set seen then sort_addresses rest seen ips forbidden
      else if is_forbidden_ip ip then sort_addresses rest (ip # seen) ips (forbidden @ [ip])
      else sort_addresses rest (ip # seen) (ips @ [ip]) forbidden)"

text \<open>
  What \<^verbatim>\<open>getaddrinfo\<close> does: it answers addresses, raises \<^verbatim>\<open>gaierror\<close>, or raises the \<^verbatim>\<open>UnicodeError\<close> of the
  idna codec (an empty or overlong label), which no clause here catches.
\<close>

datatype dns_answer = Addresses "string list" | Gai_error | Idna_error

type_synonym dns = "string \<Rightarrow> nat \<Rightarrow> dns_answer"

definition resolve_public_ips :: "dns \<Rightarrow> string \<Rightarrow> nat \<Rightarrow> string list res" where
  "resolve_public_ips getaddrinfo hostname port =
     (case getaddrinfo hostname port of
        Gai_error \<Rightarrow> Inl (DestinationForbidden ''DNS resolution failed'')
      | Idna_error \<Rightarrow> Inl (ValueError ''label empty or too long'')
      | Addresses infos \<Rightarrow>
          (let (ips, forbidden) = sort_addresses infos [] [] []
           in if forbidden \<noteq> [] then Inl (DestinationForbidden ''mixed or private DNS'')
              else if ips = [] then Inl (DestinationForbidden ''no public addresses'')
              else Inr ips))"

record destination =
  ds_hostname :: string
  ds_port :: nat
  ds_scheme :: string
  ds_pinned_ip :: string
  ds_candidates :: "string list"

text \<open>The refusal of a forbidden literal is a \<^verbatim>\<open>ValueError\<close> and is caught by the clause beside it.\<close>

definition resolve_destination :: "dns \<Rightarrow> string \<Rightarrow> destination res" where
  "resolve_destination getaddrinfo url =
     res_bind (validate_url_syntax url) (\<lambda>(scheme, hostname, port, _).
     res_bind (if ip_address hostname \<noteq> None \<and> \<not> is_forbidden_ip hostname then Inr [hostname]
               else resolve_public_ips getaddrinfo hostname port) (\<lambda>candidates.
       Inr \<lparr>ds_hostname = hostname, ds_port = port, ds_scheme = scheme, ds_pinned_ip = hd candidates,
            ds_candidates = candidates\<rparr>))"

definition peers_match :: "string \<Rightarrow> string \<Rightarrow> bool res" where
  "peers_match pinned peer =
     (case (ip_address pinned, ip_address peer) of
        (Some a, Some b) \<Rightarrow> Inr (a = b)
      | _ \<Rightarrow> Inl (ValueError ''does not appear to be an IPv4 or IPv6 address''))"

section \<open>Requests, responses and traces\<close>

record http_request =
  rq_url :: string
  rq_ip :: string
  rq_host :: string
  rq_sni :: string

record http_response =
  rs_status :: nat
  rs_peer :: "string option"
  rs_location :: "string option"
  rs_content_length :: "string option"
  rs_headers :: "(string \<times> string) list"
  rs_chunks :: "string list"
  rs_broken :: bool

text \<open>\<open>None\<close>: the transport raises.  A broken response raises after its chunks.\<close>

record network =
  nw_dns :: "nat \<Rightarrow> dns"
  nw_respond :: "nat \<Rightarrow> http_request \<Rightarrow> http_response option"

datatype hop_error = Hop_exception exn | Retryable_status nat

record fetch_hop =
  fh_uri :: string
  fh_candidates :: "string list"
  fh_pinned_ip :: "string option"
  fh_peer_ip :: "string option"
  fh_status :: "nat option"
  fh_error :: "hop_error option"
  fh_observed_at :: nat

record fetch_trace =
  ft_requested_uri :: string
  ft_hops :: "fetch_hop list"
  ft_final_uri :: "string option"
  ft_content_sha256 :: "string option"
  ft_byte_size :: "nat option"
  ft_error :: "hop_error option"
  ft_redirect_count :: nat

record fetch_result =
  fx_requested_uri :: string
  fx_final_uri :: string
  fx_status_code :: nat
  fx_headers :: "(string \<times> string) list"
  fx_redirect_count :: nat
  fx_sha256 :: string
  fx_byte_size :: nat
  fx_pinned_ip :: string
  fx_observed_at :: nat
  fx_peer_ip :: "string option"
  fx_trace :: fetch_trace

record fetcher =
  max_redirects :: nat
  max_retries :: nat
  has_sink :: bool

record fetch_state =
  fs_trace :: fetch_trace
  fs_emitted :: bool
  fs_tick :: nat
  fs_requests :: "http_request list"
  fs_store :: store
  fs_sink :: "fetch_trace list"

definition RETRY_STATUS :: "nat list" where
  "RETRY_STATUS = [429, 500, 502, 503, 504]"

definition REDIRECT_STATUS :: "nat list" where
  "REDIRECT_STATUS = [301, 302, 303, 307, 308]"

definition emit :: "fetcher \<Rightarrow> fetch_state \<Rightarrow> fetch_state" where
  "emit f st =
     (if \<not> fs_emitted st \<and> has_sink f then st\<lparr>fs_sink := fs_sink st @ [fs_trace st], fs_emitted := True\<rparr> else st)"

definition add_hop :: "fetch_hop \<Rightarrow> fetch_state \<Rightarrow> fetch_state" where
  "add_hop h st = st\<lparr>fs_trace := (fs_trace st)\<lparr>ft_hops := ft_hops (fs_trace st) @ [h]\<rparr>\<rparr>"

text \<open>\<^verbatim>\<open>builder.error = hop_error; self._emit(builder)\<close>.\<close>

definition fail_with :: "fetcher \<Rightarrow> exn \<Rightarrow> fetch_state \<Rightarrow> fetch_state" where
  "fail_with f e st = emit f (st\<lparr>fs_trace := (fs_trace st)\<lparr>ft_error := Some (Hop_exception e)\<rparr>\<rparr>)"

section \<open>One attempt\<close>

definition host_header :: "string \<Rightarrow> nat \<Rightarrow> string \<Rightarrow> string" where
  "host_header hostname port scheme = (if port \<noteq> default_port scheme then hostname @ '':'' @ show_nat port else hostname)"

definition pinned_request :: "dns \<Rightarrow> string \<Rightarrow> (http_request \<times> string list) res" where
  "pinned_request getaddrinfo url =
     res_bind (resolve_destination getaddrinfo url) (\<lambda>dest.
     res_bind (parse_url [] url) (\<lambda>parsed.
       let ip = ds_pinned_ip dest;
           host = (if CHR '':'' \<in> set ip \<and> \<not> startswith ip ''['' then ''['' @ ip @ '']'' else ip);
           netloc = (if ds_port dest \<noteq> default_port (ds_scheme dest) then host @ '':'' @ show_nat (ds_port dest) else host)
       in Inr (\<lparr>rq_url = unparse_url (parsed\<lparr>u_scheme := ds_scheme dest, u_netloc := netloc,
                   u_path := (if u_path parsed = [] then ''/'' else u_path parsed), u_fragment := []\<rparr>),
                rq_ip = ip, rq_host = host_header (ds_hostname dest) (ds_port dest) (ds_scheme dest),
                rq_sni = ds_hostname dest\<rparr>, ds_candidates dest)))"

text \<open>\<^verbatim>\<open>int(text)\<close> on ASCII text: none where it raises \<^verbatim>\<open>ValueError\<close>.\<close>

definition int_text :: "string \<Rightarrow> int option" where
  "int_text s =
     (let t = py_strip s; neg = (t \<noteq> [] \<and> hd t = CHR ''-'');
          body = (if t \<noteq> [] \<and> hd t \<in> {CHR ''-'', CHR ''+''} then tl t else t);
          digits = filter (\<lambda>c. c \<noteq> CHR ''_'') body
      in if list_all (\<lambda>p. p \<noteq> [] \<and> list_all is_digit p) (split_on CHR ''_'' body) \<and> length digits \<le> 4300
         then Some (if neg then - int (read_digits digits) else int (read_digits digits)) else None)"

definition content_length_exceeds :: "nat \<Rightarrow> string option \<Rightarrow> bool" where
  "content_length_exceeds max_bytes cl =
     (case cl of None \<Rightarrow> False | Some s \<Rightarrow> (case int_text s of None \<Rightarrow> False | Some n \<Rightarrow> n > int max_bytes))"

text \<open>\<^verbatim>\<open>store.put_stream(chunks())\<close> with a stream that may break.\<close>

definition put_response :: "(string \<Rightarrow> string) \<Rightarrow> nat \<Rightarrow> http_response \<Rightarrow> store \<Rightarrow> (stored_object \<times> store) res" where
  "put_response sha max_bytes rs st =
     res_bind (write_chunks max_bytes (rs_chunks rs) []) (\<lambda>_.
       if rs_broken rs then Inl (TransportError ''stream'') else put_stream sha max_bytes (rs_chunks rs) st)"

definition peer_check :: "string \<Rightarrow> string option \<Rightarrow> unit res" where
  "peer_check pinned peer =
     (case peer of None \<Rightarrow> Inr ()
      | Some p \<Rightarrow> res_bind (peers_match pinned p) (\<lambda>same.
          if same then Inr () else Inl (DestinationForbidden ''peer differs from pinned'')))"

datatype attempt_end = Redirect string | Try_again | Return fetch_result stored_object

definition hop_of :: "string \<Rightarrow> nat \<Rightarrow> fetch_hop" where
  "hop_of current tick = \<lparr>fh_uri = current, fh_candidates = [], fh_pinned_ip = None, fh_peer_ip = None,
     fh_status = None, fh_error = None, fh_observed_at = tick\<rparr>"

text \<open>What follows a response whose peer is the pinned one.  \<open>h\<close> is the hop seen so far.\<close>

definition handle_response ::
  "(string \<Rightarrow> string) \<Rightarrow> fetcher \<Rightarrow> string \<Rightarrow> nat \<Rightarrow> nat \<Rightarrow> string \<Rightarrow> http_response \<Rightarrow> fetch_hop \<Rightarrow> fetch_state \<Rightarrow>
   attempt_end res \<times> fetch_state" where
  "handle_response sha f pinned attempt max_bytes current rs h st =
     (if rs_status rs \<in> set REDIRECT_STATUS
      then (case rs_location rs of
          None \<Rightarrow> (Inl (RuntimeError ''redirect without Location''), st)
        | Some location \<Rightarrow>
            if location = [] then (Inl (RuntimeError ''redirect without Location''), st)
            else (let st = add_hop h st; n = Suc (ft_redirect_count (fs_trace st));
                      st = st\<lparr>fs_trace := (fs_trace st)\<lparr>ft_redirect_count := n\<rparr>\<rparr>
                  in if n > max_redirects f then (Inl MaxRedirectsExceeded, st)
                     else (res_bind (urljoin current location) (\<lambda>u. Inr (Redirect u)), st)))
      else if rs_status rs \<in> set RETRY_STATUS \<and> attempt < max_retries f
      then (Inr Try_again, add_hop (h\<lparr>fh_error := Some (Retryable_status (rs_status rs))\<rparr>) st)
      else if rs_status rs < 200 \<or> 300 \<le> rs_status rs then (Inl (HTTPStatusError (rs_status rs)), st)
      else if content_length_exceeds max_bytes (rs_content_length rs) then (Inl SizeLimitExceeded, st)
      else (case put_response sha max_bytes rs (fs_store st) of
          Inl e \<Rightarrow> (Inl e, st)
        | Inr (obj, store) \<Rightarrow>
            (let st = add_hop h (st\<lparr>fs_store := store\<rparr>);
                 st = st\<lparr>fs_trace := (fs_trace st)\<lparr>ft_final_uri := Some current, ft_content_sha256 := Some (so_sha256 obj),
                        ft_byte_size := Some (so_byte_size obj)\<rparr>\<rparr>;
                 trace = fs_trace st
             in (Inr (Return \<lparr>fx_requested_uri = ft_requested_uri trace, fx_final_uri = current,
                    fx_status_code = rs_status rs, fx_headers = rs_headers rs, fx_redirect_count = ft_redirect_count trace,
                    fx_sha256 = so_sha256 obj, fx_byte_size = so_byte_size obj, fx_pinned_ip = pinned,
                    fx_observed_at = fh_observed_at h, fx_peer_ip = fh_peer_ip h, fx_trace = trace\<rparr> obj),
                 emit f st))))"

text \<open>The body of the \<^verbatim>\<open>try\<close>: its end or exception, the hop it has seen, the state.\<close>

definition attempt_body ::
  "(string \<Rightarrow> string) \<Rightarrow> fetcher \<Rightarrow> network \<Rightarrow> nat \<Rightarrow> nat \<Rightarrow> string \<Rightarrow> fetch_state \<Rightarrow>
   attempt_end res \<times> fetch_hop \<times> fetch_state" where
  "attempt_body sha f nw attempt max_bytes current st =
     (let tick = fs_tick st; h = hop_of current tick; st = st\<lparr>fs_tick := Suc tick\<rparr>
      in case validate_url_syntax current of
           Inl e \<Rightarrow> (Inl e, h, st)
         | Inr _ \<Rightarrow>
       (case pinned_request (nw_dns nw tick) current of
           Inl e \<Rightarrow> (Inl e, h, st)
         | Inr (rq, candidates) \<Rightarrow>
             (let h = h\<lparr>fh_candidates := candidates, fh_pinned_ip := Some (rq_ip rq)\<rparr>;
                  st = st\<lparr>fs_requests := fs_requests st @ [rq]\<rparr>
              in case nw_respond nw tick rq of
                   None \<Rightarrow> (Inl (TransportError ''request''), h, st)
                 | Some rs \<Rightarrow>
                     (let h = h\<lparr>fh_status := Some (rs_status rs), fh_peer_ip := rs_peer rs\<rparr>
                      in case peer_check (rq_ip rq) (rs_peer rs) of
                           Inl e \<Rightarrow> (Inl e, h, st)
                         | Inr _ \<Rightarrow>
                             (let (r, st) = handle_response sha f (rq_ip rq) attempt max_bytes current rs h st in (r, h, st))))))"

text \<open>The exceptions the code raises at once, whatever the number of attempts.\<close>

fun raised_at_once :: "exn \<Rightarrow> bool" where
  "raised_at_once SizeLimitExceeded = True"
| "raised_at_once MaxRedirectsExceeded = True"
| "raised_at_once (DestinationForbidden _) = True"
| "raised_at_once (HTTPStatusError status) = (status \<notin> set RETRY_STATUS)"
| "raised_at_once _ = False"

definition attempt_once ::
  "(string \<Rightarrow> string) \<Rightarrow> fetcher \<Rightarrow> network \<Rightarrow> nat \<Rightarrow> string \<Rightarrow> nat \<Rightarrow> fetch_state \<Rightarrow> attempt_end res \<times> fetch_state" where
  "attempt_once sha f nw max_bytes current attempt st =
     (case attempt_body sha f nw attempt max_bytes current st of
        (Inr r, h, st) \<Rightarrow> (Inr r, st)
      | (Inl e, h, st) \<Rightarrow>
          (let st = add_hop (h\<lparr>fh_error := Some (Hop_exception e)\<rparr>) st
           in if raised_at_once e \<or> max_retries f \<le> attempt then (Inl e, fail_with f e st) else (Inr Try_again, st)))"

section \<open>Retries and redirects\<close>

fun retry_loop ::
  "(string \<Rightarrow> string) \<Rightarrow> fetcher \<Rightarrow> network \<Rightarrow> nat \<Rightarrow> string \<Rightarrow> nat list \<Rightarrow> fetch_state \<Rightarrow> attempt_end res \<times> fetch_state" where
  "retry_loop sha f nw max_bytes current [] st =
     (let e = RuntimeError ''failed to fetch after retries'' in (Inl e, fail_with f e st))"
| "retry_loop sha f nw max_bytes current (attempt # attempts) st =
     (case attempt_once sha f nw max_bytes current attempt st of
        (Inr Try_again, st) \<Rightarrow> retry_loop sha f nw max_bytes current attempts st
      | r \<Rightarrow> r)"

section \<open>Resolving\<close>

definition remdups_first :: "'a list \<Rightarrow> 'a list" where
  "remdups_first xs = rev (remdups (rev xs))"

lemma sort_addresses_eq:
  "sort_addresses infos seen ips forbidden =
     (ips @ filter (\<lambda>ip. \<not> is_forbidden_ip ip \<and> ip \<notin> set seen) (remdups_first infos),
      forbidden @ filter (\<lambda>ip. is_forbidden_ip ip \<and> ip \<notin> set seen) (remdups_first infos))"
proof (induction infos arbitrary: seen ips forbidden)
  case (Cons ip infos)
  have cons: "remdups_first (ip # infos) = ip # filter (\<lambda>x. x \<noteq> ip) (remdups_first infos)"
  proof -
    have "remdups (ys @ [y]) = filter (\<lambda>x. x \<noteq> y) (remdups ys) @ [y]" for ys and y :: string
      by (induction ys) auto
    then show ?thesis by (simp add: remdups_first_def rev_filter)
  qed
  have "filter (\<lambda>x. P x \<and> x \<notin> set seen) (filter (\<lambda>x. x \<noteq> ip) xs) = filter (\<lambda>x. P x \<and> x \<notin> set seen) xs" if "ip \<in> set seen" for P xs
    using that by (induction xs) auto
  moreover have "filter (\<lambda>x. P x \<and> x \<notin> set seen) (filter (\<lambda>x. x \<noteq> ip) xs) = filter (\<lambda>x. P x \<and> x \<notin> set (ip # seen)) xs" for P xs
    by (induction xs) auto
  ultimately show ?case by (simp add: Cons.IH cons)
qed (simp add: remdups_first_def)

lemma set_remdups_first [simp]: "set (remdups_first xs) = set xs"
  by (simp add: remdups_first_def)

lemma remdups_first_Nil [simp]: "remdups_first xs = [] \<longleftrightarrow> xs = []"
  by (simp add: remdups_first_def)

lemma resolve_public_ips_Inr:
  "resolve_public_ips getaddrinfo hostname port = Inr ips \<longleftrightarrow>
     (\<exists>infos. getaddrinfo hostname port = Addresses infos \<and> infos \<noteq> [] \<and> list_all (\<lambda>ip. \<not> is_forbidden_ip ip) infos \<and>
        ips = remdups_first infos)"
proof -
  have "filter is_forbidden_ip (remdups_first infos) = [] \<longleftrightarrow> list_all (\<lambda>ip. \<not> is_forbidden_ip ip) infos" for infos
    by (simp add: filter_empty_conv list_all_iff)
  moreover have "filter (\<lambda>ip. \<not> is_forbidden_ip ip) (remdups_first infos) = remdups_first infos"
    if "list_all (\<lambda>ip. \<not> is_forbidden_ip ip) infos" for infos
    using that by (simp add: filter_id_conv list_all_iff)
  ultimately show ?thesis
    by (auto simp: resolve_public_ips_def sort_addresses_eq split: dns_answer.splits if_splits)
qed

lemma pinned_request_public:
  assumes "pinned_request getaddrinfo url = Inr (rq, candidates)"
  shows "rq_ip rq = hd candidates" and "candidates \<noteq> []" and "list_all (\<lambda>ip. \<not> is_forbidden_ip ip) candidates"
proof -
  obtain dest where d: "resolve_destination getaddrinfo url = Inr dest" "rq_ip rq = ds_pinned_ip dest" "candidates = ds_candidates dest"
    using assms by (auto simp: pinned_request_def res_bind_Inr_iff Let_def)
  then have "rq_ip rq = hd candidates \<and> candidates \<noteq> [] \<and> list_all (\<lambda>ip. \<not> is_forbidden_ip ip) candidates"
    by (auto simp: resolve_destination_def res_bind_Inr_iff resolve_public_ips_Inr list_all_iff split: if_splits)
  then show "rq_ip rq = hd candidates" "candidates \<noteq> []" "list_all (\<lambda>ip. \<not> is_forbidden_ip ip) candidates" by auto
qed

section \<open>What one attempt changes\<close>

definition redirects :: "fetch_state \<Rightarrow> nat" where
  "redirects st = ft_redirect_count (fs_trace st)"

text \<open>The requests of a run, the redirects counted, the store and whether a trace has gone out.\<close>

definition public_request :: "http_request \<Rightarrow> bool" where
  "public_request rq = (\<not> is_forbidden_ip (rq_ip rq))"

definition grown :: "fetch_state \<Rightarrow> fetch_state \<Rightarrow> nat \<Rightarrow> bool" where
  "grown st st' n =
     (redirects st \<le> redirects st' \<and>
      ft_requested_uri (fs_trace st') = ft_requested_uri (fs_trace st) \<and>
      (\<exists>rqs. fs_requests st' = fs_requests st @ rqs \<and> length rqs \<le> n \<and> list_all public_request rqs))"

lemma grown_refl: "grown st st 0"
  by (simp add: grown_def)

lemma grown_trans: "grown a b m \<Longrightarrow> grown b c n \<Longrightarrow> grown a c (m + n)"
  by (fastforce simp: grown_def)

lemma grown_le: "grown a b m \<Longrightarrow> m \<le> n \<Longrightarrow> grown a b n"
  by (auto simp: grown_def)

lemmas state_defs = redirects_def grown_def add_hop_def emit_def fail_with_def Let_def

lemma handle_response_grown:
  assumes "handle_response sha f pinned attempt max_bytes current rs h st = (r, st')"
  shows "grown st st' 0" and "r = Inr (Redirect u) \<Longrightarrow> redirects st < redirects st' \<and> redirects st' \<le> max_redirects f"
    and "r = Inr Try_again \<Longrightarrow> attempt < max_retries f"
  using assms unfolding handle_response_def state_defs
  by (auto split: if_splits option.splits sum.splits prod.splits simp: res_bind_Inr_iff)

lemma attempt_body_grown:
  assumes "attempt_body sha f nw attempt max_bytes current st = (r, h, st')"
  shows "grown st st' 1" and "r = Inr (Redirect u) \<Longrightarrow> redirects st < redirects st' \<and> redirects st' \<le> max_redirects f"
    and "r = Inr Try_again \<Longrightarrow> attempt < max_retries f"
proof -
  let ?st = "st\<lparr>fs_tick := Suc (fs_tick st)\<rparr>"
  have g: "grown st ?st 0" by (simp add: state_defs)
  have "grown st st' 1 \<and> (r = Inr (Redirect u) \<longrightarrow> redirects st < redirects st' \<and> redirects st' \<le> max_redirects f) \<and>
      (r = Inr Try_again \<longrightarrow> attempt < max_retries f)"
  proof (cases "\<exists>rq candidates. validate_url_syntax current \<noteq> Inl undefined \<and> is_ok (validate_url_syntax current) \<and>
      pinned_request (nw_dns nw (fs_tick st)) current = Inr (rq, candidates)")
    case False
    then have "st' = ?st" "\<exists>e. r = Inl e" using assms
      by (auto simp: attempt_body_def Let_def is_ok_iff split: sum.splits prod.splits)
    then show ?thesis using grown_le [OF g] by auto
  next
    case True
    then obtain rq candidates x where p: "validate_url_syntax current = Inr x"
        "pinned_request (nw_dns nw (fs_tick st)) current = Inr (rq, candidates)" by (auto simp: is_ok_iff)
    let ?sent = "?st\<lparr>fs_requests := fs_requests st @ [rq]\<rparr>"
    have pub: "public_request rq" using pinned_request_public [OF p(2)] by (cases candidates) (auto simp: public_request_def)
    then have g1: "grown st ?sent 1" "redirects ?sent = redirects st" by (simp_all add: state_defs)
    show ?thesis
    proof (cases "\<exists>e. r = Inl e \<and> st' = ?sent")
      case True
      then show ?thesis using g1 by auto
    next
      case False
      then obtain rs h' where hr: "handle_response sha f (rq_ip rq) attempt max_bytes current rs h' ?sent = (r, st')"
        using assms p by (auto simp: attempt_body_def Let_def split: option.splits sum.splits prod.splits)
      show ?thesis using handle_response_grown [OF hr] g1 grown_trans [of st ?sent 1 st' 0] by auto
    qed
  qed
  then show "grown st st' 1" "r = Inr (Redirect u) \<Longrightarrow> redirects st < redirects st' \<and> redirects st' \<le> max_redirects f"
    "r = Inr Try_again \<Longrightarrow> attempt < max_retries f" by auto
qed

lemma attempt_once_grown:
  assumes "attempt_once sha f nw max_bytes current attempt st = (r, st')"
  shows "grown st st' 1" and "r = Inr (Redirect u) \<Longrightarrow> redirects st < redirects st' \<and> redirects st' \<le> max_redirects f"
    and "r = Inr Try_again \<Longrightarrow> attempt < max_retries f"
proof -
  obtain r1 h st1 where b: "attempt_body sha f nw attempt max_bytes current st = (r1, h, st1)" by (metis prod_cases3)
  note g = attempt_body_grown [OF b]
  have step: "grown st1 (add_hop k st1) 0" "grown st1 (fail_with f e (add_hop k st1)) 0" for k e by (simp_all add: state_defs)
  show "grown st st' 1" "r = Inr (Redirect u) \<Longrightarrow> redirects st < redirects st' \<and> redirects st' \<le> max_redirects f"
    "r = Inr Try_again \<Longrightarrow> attempt < max_retries f"
    using assms b g grown_trans [OF g(1) step(1)] grown_trans [OF g(1) step(2)]
    by (auto simp: attempt_once_def Let_def split: sum.splits if_splits)
qed

lemma retry_loop_grown:
  assumes "retry_loop sha f nw max_bytes current attempts st = (r, st')"
  shows "grown st st' (length attempts) \<and> r \<noteq> Inr Try_again \<and>
    (r = Inr (Redirect u) \<longrightarrow> redirects st < redirects st' \<and> redirects st' \<le> max_redirects f)"
  using assms
proof (induction attempts arbitrary: st)
  case Nil
  then show ?case by (auto simp: state_defs)
next
  case (Cons attempt attempts)
  obtain r1 st1 where a: "attempt_once sha f nw max_bytes current attempt st = (r1, st1)" by (metis surj_pair)
  note g = attempt_once_grown [OF a]
  show ?case
  proof (cases "r1 = Inr Try_again")
    case True
    then have "retry_loop sha f nw max_bytes current attempts st1 = (r, st')" using Cons.prems a by simp
    from Cons.IH [OF this] show ?thesis using grown_trans [OF g(1)] g(1) by (fastforce simp: grown_def [of st st1])
  next
    case False
    then have "r = r1" "st' = st1" using Cons.prems a by (auto split: sum.splits attempt_end.splits)
    then show ?thesis using g False grown_le [OF g(1)] by auto
  qed
qed

section \<open>The loop over the redirects\<close>

lemma redirect_progress:
  assumes "(Inr (Redirect u), st') = retry_loop sha f nw max_bytes current attempts st"
  shows "Suc (max_redirects f) - redirects st' < Suc (max_redirects f) - redirects st"
  using retry_loop_grown [OF assms [symmetric], of u] by auto

function fetch_loop ::
  "(string \<Rightarrow> string) \<Rightarrow> fetcher \<Rightarrow> network \<Rightarrow> nat \<Rightarrow> string \<Rightarrow> fetch_state \<Rightarrow> (fetch_result \<times> stored_object) res \<times> fetch_state" where
  "fetch_loop sha f nw max_bytes current st =
     (case retry_loop sha f nw max_bytes current [0..<Suc (max_retries f)] st of
        (Inl e, st) \<Rightarrow> (Inl e, st)
      | (Inr (Return result obj), st) \<Rightarrow> (Inr (result, obj), st)
      | (Inr (Redirect next), st) \<Rightarrow> fetch_loop sha f nw max_bytes next st
      | (Inr Try_again, st) \<Rightarrow> (Inl (RuntimeError ''failed to fetch after retries''), st))"
  by pat_completeness auto

termination fetch_loop
  by (relation "measure (\<lambda>(sha, f, nw, max_bytes, current, st). Suc (max_redirects f) - redirects st)")
    (auto simp del: upt_Suc dest: redirect_progress)

declare fetch_loop.simps [simp del]

text \<open>The outer handler, for an exception that has not been reported.\<close>

definition report_unhandled :: "fetcher \<Rightarrow> string \<Rightarrow> exn \<Rightarrow> fetch_state \<Rightarrow> fetch_state" where
  "report_unhandled f url e st =
     (if fs_emitted st then st
      else let t = fs_trace st; err = (case ft_error t of None \<Rightarrow> Some (Hop_exception e) | Some x \<Rightarrow> Some x);
               hops = (if ft_hops t = [] then [(hop_of url (fs_tick st))\<lparr>fh_error := err\<rparr>] else ft_hops t)
           in emit f (st\<lparr>fs_trace := t\<lparr>ft_error := err, ft_hops := hops\<rparr>\<rparr>))"

definition start_trace :: "string \<Rightarrow> fetch_trace" where
  "start_trace url = \<lparr>ft_requested_uri = url, ft_hops = [], ft_final_uri = None, ft_content_sha256 = None,
     ft_byte_size = None, ft_error = None, ft_redirect_count = 0\<rparr>"

definition fetch_to_store ::
  "(string \<Rightarrow> string) \<Rightarrow> fetcher \<Rightarrow> network \<Rightarrow> string \<Rightarrow> nat \<Rightarrow> fetch_state \<Rightarrow> (fetch_result \<times> stored_object) res \<times> fetch_state" where
  "fetch_to_store sha f nw url max_bytes st =
     (case fetch_loop sha f nw max_bytes url (st\<lparr>fs_trace := start_trace url, fs_emitted := False\<rparr>) of
        (Inl e, st) \<Rightarrow> (Inl e, report_unhandled f url e st)
      | r \<Rightarrow> r)"

end
