(* ===== verification/Fetch_Props.thy ===== *)
theory Fetch_Props
  imports Fetch
begin

text \<open>
  What a fetch guarantees whatever the network answers: it stops within its attempts, every request
  goes to an address the policy allows, a stored body is the body of one successful response of the
  pinned peer, and exactly one trace reaches the observation sink.
\<close>

section \<open>Runs that report nothing\<close>

definition quiet :: "fetch_state \<Rightarrow> fetch_state \<Rightarrow> bool" where
  "quiet st st' =
     (fs_sink st' = fs_sink st \<and> fs_emitted st' = fs_emitted st \<and> ft_error (fs_trace st') = ft_error (fs_trace st))"

lemma quiet_refl [simp]: "quiet st st"
  by (simp add: quiet_def)

lemma quiet_trans [trans]: "quiet a b \<Longrightarrow> quiet b c \<Longrightarrow> quiet a c"
  by (simp add: quiet_def)

lemma quiet_steps [simp]:
  "quiet st (add_hop h st)" "quiet st (st\<lparr>fs_tick := n\<rparr>)" "quiet st (st\<lparr>fs_requests := rqs\<rparr>)" "quiet st (st\<lparr>fs_store := s\<rparr>)"
  by (simp_all add: quiet_def add_hop_def)

text \<open>The end of a run with a stored body.\<close>

definition delivered ::
  "(string \<Rightarrow> string) \<Rightarrow> network \<Rightarrow> nat \<Rightarrow> fetch_result \<Rightarrow> stored_object \<Rightarrow> fetch_state \<Rightarrow> bool" where
  "delivered sha nw max_bytes fx obj st' =
     (\<exists>rq rs. rq \<in> set (fs_requests st') \<and> rq_ip rq = fx_pinned_ip fx \<and> nw_respond nw (fx_observed_at fx) rq = Some rs \<and>
        200 \<le> rs_status rs \<and> rs_status rs < 300 \<and> rs_status rs = fx_status_code fx \<and> \<not> rs_broken rs \<and>
        (rs_peer rs = None \<or> (\<exists>p. rs_peer rs = Some p \<and> peers_match (rq_ip rq) p = Inr True)) \<and>
        fx_sha256 fx = so_sha256 obj \<and> fx_byte_size fx = so_byte_size obj \<and> so_byte_size obj = length (concat (rs_chunks rs)) \<and>
        so_byte_size obj \<le> max_bytes \<and> so_sha256 obj = sha (concat (rs_chunks rs)) \<and>
        open_bytes sha (fs_store st') (so_sha256 obj) = Inr (concat (rs_chunks rs)))"

lemma put_response_stored:
  assumes "put_response sha max_bytes rs st = Inr (obj, st')"
  shows "\<not> rs_broken rs \<and> so_byte_size obj = length (concat (rs_chunks rs)) \<and> so_byte_size obj \<le> max_bytes \<and>
    so_sha256 obj = sha (concat (rs_chunks rs)) \<and> open_bytes sha st' (so_sha256 obj) = Inr (concat (rs_chunks rs))"
proof -
  let ?data = "concat (rs_chunks rs)"
  have w: "write_chunks max_bytes (rs_chunks rs) [] = (if length ?data \<le> max_bytes then Inr ?data else Inl SizeLimitExceeded)"
    using write_chunks_iff [of "[]" max_bytes "rs_chunks rs"] by simp
  then have put: "\<not> rs_broken rs" "length ?data \<le> max_bytes" "put_stream sha max_bytes (rs_chunks rs) st = Inr (obj, st')"
    using assms by (auto simp: put_response_def res_bind_Inr_iff split: if_splits)
  then have hex: "hex64 (sha ?data)"
    by (auto simp: put_stream_def w path_for_def res_bind_Inr_iff Let_def split: if_splits)
  then have "so_byte_size obj = length ?data" "so_sha256 obj = sha ?data" "st' (sha ?data) = Some ?data"
    using put by (auto simp: put_stream_def w path_for_def Let_def split: option.splits if_splits)
  then show ?thesis using put hex open_bytes_ok [OF hex] by simp
qed

lemma handle_response_ends:
  assumes "handle_response sha f pinned attempt max_bytes current rs h st = (r, st')"
  shows "(\<forall>fx obj. r \<noteq> Inr (Return fx obj)) \<Longrightarrow> quiet st st'"
    and "r = Inr (Return fx obj) \<Longrightarrow> \<exists>st1. quiet st st1 \<and> st' = emit f st1 \<and> fx_trace fx = fs_trace st1 \<and>
      ft_hops (fs_trace st1) \<noteq> [] \<and> fs_requests st1 = fs_requests st \<and> fx_pinned_ip fx = pinned \<and>
      fx_observed_at fx = fh_observed_at h \<and> fx_status_code fx = rs_status rs \<and> 200 \<le> rs_status rs \<and> rs_status rs < 300 \<and>
      fx_sha256 fx = so_sha256 obj \<and> fx_byte_size fx = so_byte_size obj \<and>
      ft_content_sha256 (fs_trace st1) = Some (so_sha256 obj) \<and> ft_final_uri (fs_trace st1) = Some (fx_final_uri fx) \<and>
      fx_redirect_count fx = redirects st1 \<and> redirects st1 = redirects st \<and>
      put_response sha max_bytes rs (fs_store st) = Inr (obj, fs_store st1)"
    and "r = Inr x \<Longrightarrow> redirects st \<le> max_redirects f \<Longrightarrow> redirects st' \<le> max_redirects f"
    and "r = Inl e \<Longrightarrow> e \<noteq> MaxRedirectsExceeded \<Longrightarrow> redirects st \<le> max_redirects f \<Longrightarrow> redirects st' \<le> max_redirects f"
  using assms unfolding handle_response_def Let_def
  subgoal by (auto simp: quiet_def add_hop_def split: if_splits option.splits sum.splits prod.splits)
  subgoal
    using assms unfolding handle_response_def Let_def
    by (intro exI [of _ "(add_hop h (st\<lparr>fs_store := fs_store st'\<rparr>))\<lparr>fs_trace := (fs_trace (add_hop h st))\<lparr>ft_final_uri := Some current,
          ft_content_sha256 := Some (so_sha256 obj), ft_byte_size := Some (so_byte_size obj)\<rparr>\<rparr>"])
      (auto simp: quiet_def add_hop_def emit_def redirects_def res_bind_Inr_iff split: if_splits option.splits sum.splits prod.splits)
  subgoal
    using assms unfolding handle_response_def Let_def redirects_def add_hop_def emit_def
    by (auto simp: res_bind_Inr_iff split: if_splits option.splits sum.splits prod.splits)
  subgoal
    using assms unfolding handle_response_def Let_def redirects_def add_hop_def emit_def
    by (auto simp: res_bind_Inr_iff split: if_splits option.splits sum.splits prod.splits)
  done

section \<open>How a run ends\<close>

definition reported ::
  "(string \<Rightarrow> string) \<Rightarrow> fetcher \<Rightarrow> network \<Rightarrow> nat \<Rightarrow> fetch_state \<Rightarrow> (fetch_result \<times> stored_object) res \<Rightarrow> fetch_state \<Rightarrow> bool" where
  "reported sha f nw max_bytes st r st' =
     (\<exists>st1. quiet st st1 \<and> ft_hops (fs_trace st1) \<noteq> [] \<and>
        (case r of
           Inl e \<Rightarrow> st' = fail_with f e st1
         | Inr (fx, obj) \<Rightarrow> st' = emit f st1 \<and> fx_trace fx = fs_trace st1 \<and> delivered sha nw max_bytes fx obj st1 \<and>
             ft_content_sha256 (fs_trace st1) = Some (so_sha256 obj) \<and> ft_final_uri (fs_trace st1) = Some (fx_final_uri fx) \<and>
             fx_redirect_count fx = redirects st1 \<and> (redirects st \<le> max_redirects f \<longrightarrow> redirects st1 \<le> max_redirects f)))"

lemma attempt_body_cases:
  assumes "attempt_body sha f nw attempt max_bytes current st = (r, h, st')"
  obtains e rqs where "r = Inl e" "st' = st\<lparr>fs_tick := Suc (fs_tick st), fs_requests := fs_requests st @ rqs\<rparr>"
  | rq rs h' where "handle_response sha f (rq_ip rq) attempt max_bytes current rs h'
      (st\<lparr>fs_tick := Suc (fs_tick st), fs_requests := fs_requests st @ [rq]\<rparr>) = (r, st')" "fh_observed_at h' = fs_tick st"
      "nw_respond nw (fs_tick st) rq = Some rs" "peer_check (rq_ip rq) (rs_peer rs) = Inr ()"
proof (cases "validate_url_syntax current")
  case (Inl e)
  then show ?thesis using assms by (intro that(1) [of e "[]"]) (auto simp: attempt_body_def Let_def)
next
  case (Inr x)
  note V = Inr
  show ?thesis
  proof (cases "pinned_request (nw_dns nw (fs_tick st)) current")
    case (Inl e)
    then show ?thesis using assms V by (intro that(1) [of e "[]"]) (auto simp: attempt_body_def Let_def)
  next
    case (Inr p)
    obtain rq candidates where p: "p = (rq, candidates)" by (cases p)
    show ?thesis
    proof (cases "nw_respond nw (fs_tick st) rq")
      case None
      then show ?thesis using assms V Inr p by (intro that(1) [of _ "[rq]"]) (auto simp: attempt_body_def Let_def)
    next
      case (Some rs)
      show ?thesis
      proof (cases "peer_check (rq_ip rq) (rs_peer rs)")
        case (Inl e)
        then show ?thesis using assms V Inr p Some by (intro that(1) [of e "[rq]"]) (auto simp: attempt_body_def Let_def)
      next
        case (Inr u)
        then show ?thesis using assms V \<open>pinned_request _ _ = Inr p\<close> p Some
          by (intro that(2) [of rq rs h]) (auto simp: attempt_body_def Let_def hop_of_def split: prod.splits)
      qed
    qed
  qed
qed

lemma attempt_body_ends:
  assumes "attempt_body sha f nw attempt max_bytes current st = (r, h, st')"
  shows "(\<forall>fx obj. r \<noteq> Inr (Return fx obj)) \<Longrightarrow> quiet st st'"
    and "r = Inr (Return fx obj) \<Longrightarrow> reported sha f nw max_bytes st (Inr (fx, obj)) st'"
    and "r = Inr x \<Longrightarrow> redirects st \<le> max_redirects f \<Longrightarrow> redirects st' \<le> max_redirects f"
    and "r = Inl e \<Longrightarrow> e \<noteq> MaxRedirectsExceeded \<Longrightarrow> redirects st \<le> max_redirects f \<Longrightarrow> redirects st' \<le> max_redirects f"
proof -
  let ?st = "st\<lparr>fs_tick := Suc (fs_tick st)\<rparr>"
  have "((\<forall>fx obj. r \<noteq> Inr (Return fx obj)) \<longrightarrow> quiet st st') \<and>
      (\<forall>fx obj. r = Inr (Return fx obj) \<longrightarrow> reported sha f nw max_bytes st (Inr (fx, obj)) st') \<and>
      (redirects st \<le> max_redirects f \<longrightarrow> r \<noteq> Inl MaxRedirectsExceeded \<longrightarrow> redirects st' \<le> max_redirects f)"
  proof (cases "\<exists>rq rs h'. handle_response sha f (rq_ip rq) attempt max_bytes current rs h'
      (?st\<lparr>fs_requests := fs_requests st @ [rq]\<rparr>) = (r, st') \<and> fh_observed_at h' = fs_tick st \<and>
      nw_respond nw (fs_tick st) rq = Some rs \<and> peer_check (rq_ip rq) (rs_peer rs) = Inr ()")
    case False
    from assms show ?thesis
    proof (cases rule: attempt_body_cases)
      case (1 e rqs)
      then have "quiet st st'" "redirects st' = redirects st" by (simp_all add: quiet_def redirects_def)
      then show ?thesis using 1 by simp
    next
      case (2 rq rs h')
      then show ?thesis using False by blast
    qed
  next
    case True
    then obtain rq rs h' where hr: "handle_response sha f (rq_ip rq) attempt max_bytes current rs h'
        (?st\<lparr>fs_requests := fs_requests st @ [rq]\<rparr>) = (r, st')" and tick: "fh_observed_at h' = fs_tick st"
        and rs: "nw_respond nw (fs_tick st) rq = Some rs" "peer_check (rq_ip rq) (rs_peer rs) = Inr ()" by blast
    note E = handle_response_ends [OF hr]
    have q: "quiet st (?st\<lparr>fs_requests := fs_requests st @ [rq]\<rparr>)" "redirects (?st\<lparr>fs_requests := fs_requests st @ [rq]\<rparr>) = redirects st"
      by (simp_all add: quiet_def redirects_def)
    have peer: "rs_peer rs = None \<or> (\<exists>p. rs_peer rs = Some p \<and> peers_match (rq_ip rq) p = Inr True)"
      using rs(2) by (auto simp: peer_check_def res_bind_Inr_iff split: option.splits if_splits)
    have "reported sha f nw max_bytes st (Inr (fx, obj)) st'" if ret: "r = Inr (Return fx obj)" for fx obj
    proof -
      from E(2) [OF ret] obtain st1 where st1: "quiet (?st\<lparr>fs_requests := fs_requests st @ [rq]\<rparr>) st1" "st' = emit f st1"
          "fx_trace fx = fs_trace st1" "ft_hops (fs_trace st1) \<noteq> []" "fs_requests st1 = fs_requests st @ [rq]"
          "fx_pinned_ip fx = rq_ip rq" "fx_observed_at fx = fs_tick st" "fx_status_code fx = rs_status rs" "200 \<le> rs_status rs"
          "rs_status rs < 300" "fx_sha256 fx = so_sha256 obj" "fx_byte_size fx = so_byte_size obj"
          "ft_content_sha256 (fs_trace st1) = Some (so_sha256 obj)" "ft_final_uri (fs_trace st1) = Some (fx_final_uri fx)"
          "fx_redirect_count fx = redirects st1" "redirects st1 = redirects st"
          "put_response sha max_bytes rs (fs_store st) = Inr (obj, fs_store st1)"
        using tick q(2) by (auto simp: redirects_def)
      have "delivered sha nw max_bytes fx obj st1"
        unfolding delivered_def using st1(5-12) rs(1) peer put_response_stored [OF st1(17)]
        by (intro exI [of _ rq] exI [of _ rs]) (simp del: fun_upd_apply, metis)
      then show ?thesis unfolding reported_def using st1 quiet_trans [OF q(1) st1(1)] by (intro exI [of _ st1]) simp
    qed
    moreover have "redirects st' \<le> max_redirects f" if "redirects st \<le> max_redirects f" "r \<noteq> Inl MaxRedirectsExceeded"
      using E(3,4) q(2) that by (cases r) auto
    ultimately show ?thesis using E(1) quiet_trans [OF q(1)] by blast
  qed
  then show "(\<forall>fx obj. r \<noteq> Inr (Return fx obj)) \<Longrightarrow> quiet st st'"
    "r = Inr (Return fx obj) \<Longrightarrow> reported sha f nw max_bytes st (Inr (fx, obj)) st'"
    "r = Inr x \<Longrightarrow> redirects st \<le> max_redirects f \<Longrightarrow> redirects st' \<le> max_redirects f"
    "r = Inl e \<Longrightarrow> e \<noteq> MaxRedirectsExceeded \<Longrightarrow> redirects st \<le> max_redirects f \<Longrightarrow> redirects st' \<le> max_redirects f"
    by auto
qed

lemma reported_later:
  "quiet a b \<Longrightarrow> (redirects a \<le> max_redirects f \<longrightarrow> redirects b \<le> max_redirects f) \<Longrightarrow>
     reported sha f nw max_bytes b r c \<Longrightarrow> reported sha f nw max_bytes a r c"
  unfolding reported_def by (elim exE conjE, rule exI, intro conjI, erule (1) quiet_trans, assumption) (auto split: sum.splits)

lemma attempt_once_ends:
  assumes "attempt_once sha f nw max_bytes current attempt st = (r, st')"
  shows "case r of Inl e \<Rightarrow> reported sha f nw max_bytes st (Inl e) st'
    | Inr (Return fx obj) \<Rightarrow> reported sha f nw max_bytes st (Inr (fx, obj)) st'
    | Inr _ \<Rightarrow> quiet st st' \<and> (redirects st \<le> max_redirects f \<longrightarrow> redirects st' \<le> max_redirects f)"
proof -
  obtain r1 h st1 where b: "attempt_body sha f nw attempt max_bytes current st = (r1, h, st1)" by (metis prod_cases3)
  note E = attempt_body_ends [OF b]
  show ?thesis
  proof (cases r1)
    case (Inr x)
    then have "r = Inr x" "st' = st1" using assms b by (simp_all add: attempt_once_def)
    then show ?thesis using E(1-3) Inr by (auto split: attempt_end.splits)
  next
    case (Inl e)
    let ?st2 = "add_hop (h\<lparr>fh_error := Some (Hop_exception e)\<rparr>) st1"
    have q: "quiet st ?st2" using E(1) Inl quiet_steps(1) quiet_trans by blast
    have hops: "ft_hops (fs_trace ?st2) \<noteq> []" by (simp add: add_hop_def)
    show ?thesis
    proof (cases "raised_at_once e \<or> max_retries f \<le> attempt")
      case True
      then have "r = Inl e" "st' = fail_with f e ?st2" using assms b Inl by (simp_all add: attempt_once_def)
      then show ?thesis using q hops by (auto simp: reported_def)
    next
      case False
      then have r: "r = Inr Try_again" "st' = ?st2" using assms b Inl by (simp_all add: attempt_once_def)
      have "e \<noteq> MaxRedirectsExceeded" using False by auto
      then show ?thesis using r q E(4) [OF Inl] by (simp add: redirects_def add_hop_def)
    qed
  qed
qed

lemma retry_loop_ends:
  assumes "retry_loop sha f nw max_bytes current attempts st = (r, st')" and "attempts \<noteq> []"
    and "max_retries f \<le> last attempts"
  shows "case r of Inl e \<Rightarrow> reported sha f nw max_bytes st (Inl e) st'
    | Inr (Return fx obj) \<Rightarrow> reported sha f nw max_bytes st (Inr (fx, obj)) st'
    | Inr _ \<Rightarrow> quiet st st' \<and> (redirects st \<le> max_redirects f \<longrightarrow> redirects st' \<le> max_redirects f)"
  using assms
proof (induction attempts arbitrary: st)
  case (Cons attempt attempts)
  obtain r1 st1 where a: "attempt_once sha f nw max_bytes current attempt st = (r1, st1)" by (metis surj_pair)
  note E = attempt_once_ends [OF a]
  show ?case
  proof (cases "r1 = Inr Try_again")
    case True
    have "attempts \<noteq> []" using attempt_once_grown(3) [OF a] True Cons.prems(3) by auto
    moreover have "retry_loop sha f nw max_bytes current attempts st1 = (r, st')" using Cons.prems(1) a True by simp
    ultimately have IH: "case r of Inl e \<Rightarrow> reported sha f nw max_bytes st1 (Inl e) st'
        | Inr (Return fx obj) \<Rightarrow> reported sha f nw max_bytes st1 (Inr (fx, obj)) st'
        | Inr _ \<Rightarrow> quiet st1 st' \<and> (redirects st1 \<le> max_redirects f \<longrightarrow> redirects st' \<le> max_redirects f)"
      using Cons.IH Cons.prems(3) by simp
    have q: "quiet st st1" "redirects st \<le> max_redirects f \<longrightarrow> redirects st1 \<le> max_redirects f" using E True by simp_all
    show ?thesis using IH reported_later [OF q] quiet_trans [OF q(1)] q(2) by (auto split: sum.splits attempt_end.splits)
  next
    case False
    then have eq: "r = r1" "st' = st1" using Cons.prems(1) a by (auto split: sum.splits attempt_end.splits)
    show ?thesis unfolding eq by (rule E)
  qed
qed simp

lemma fetch_loop_ends:
  "redirects st \<le> max_redirects f \<Longrightarrow> fetch_loop sha f nw max_bytes current st = (r, st') \<Longrightarrow>
     reported sha f nw max_bytes st r st' \<and>
     grown st st' (Suc (max_retries f) * (Suc (max_redirects f) - redirects st))"
proof (induction sha f nw max_bytes current st rule: fetch_loop.induct)
  case (1 sha f nw max_bytes current st)
  let ?attempts = "[0..<Suc (max_retries f)]" and ?k = "Suc (max_retries f)"
  obtain r1 st1 where a: "retry_loop sha f nw max_bytes current ?attempts st = (r1, st1)" by (metis surj_pair)
  have E: "case r1 of Inl e \<Rightarrow> reported sha f nw max_bytes st (Inl e) st1
    | Inr (Return fx obj) \<Rightarrow> reported sha f nw max_bytes st (Inr (fx, obj)) st1
    | Inr _ \<Rightarrow> quiet st st1 \<and> (redirects st \<le> max_redirects f \<longrightarrow> redirects st1 \<le> max_redirects f)"
    by (rule retry_loop_ends [OF a]) simp_all
  have G: "grown st st1 ?k" "r1 \<noteq> Inr Try_again" using retry_loop_grown [OF a] by simp_all
  have bound: "?k \<le> ?k * (Suc (max_redirects f) - redirects st)"
    using mult_le_mono2 [of 1 "Suc (max_redirects f) - redirects st" ?k] "1.prems"(1) by (simp only: mult_1_right)
  show ?case
  proof (cases "\<exists>u. r1 = Inr (Redirect u)")
    case False
    then have "r = (case r1 of Inl e \<Rightarrow> Inl e | Inr (Return fx obj) \<Rightarrow> Inr (fx, obj))" "st' = st1"
      using "1.prems"(2) a G(2) by (auto simp: fetch_loop.simps [of sha f nw max_bytes current st] simp del: upt_Suc split: sum.splits attempt_end.splits)
    then show ?thesis using E False G grown_le [OF G(1) bound] by (auto split: sum.splits attempt_end.splits)
  next
    case True
    then obtain u where u: "r1 = Inr (Redirect u)" by blast
    have rest: "fetch_loop sha f nw max_bytes u st1 = (r, st')"
      using "1.prems"(2) a u by (simp add: fetch_loop.simps [of sha f nw max_bytes current st] del: upt_Suc)
    have lt: "redirects st < redirects st1" "redirects st1 \<le> max_redirects f" using retry_loop_grown [OF a] u by blast+
    have IH: "reported sha f nw max_bytes st1 r st' \<and> grown st1 st' (?k * (Suc (max_redirects f) - redirects st1))"
      by (rule "1.IH" [OF a [symmetric] u refl lt(2) rest])
    have q: "quiet st st1" using E u by simp
    have "?k + ?k * (Suc (max_redirects f) - redirects st1) \<le> ?k * (Suc (max_redirects f) - redirects st)"
    proof -
      have "Suc (Suc (max_redirects f) - redirects st1) \<le> Suc (max_redirects f) - redirects st" using lt by simp
      then have "?k * Suc (Suc (max_redirects f) - redirects st1) \<le> ?k * (Suc (max_redirects f) - redirects st)" by (rule mult_le_mono2)
      then show ?thesis by simp
    qed
    then have "grown st st' (?k * (Suc (max_redirects f) - redirects st))"
      using grown_le grown_trans G(1) IH by blast
    then show ?thesis using IH reported_later [OF q] lt(2) by blast
  qed
qed

lemma fetch_ends:
  assumes "fetch_to_store sha f nw url max_bytes st = (r, st')"
  shows "fs_sink st' = fs_sink st @ (if has_sink f then [fs_trace st'] else [])"
    and "ft_requested_uri (fs_trace st') = url" and "ft_hops (fs_trace st') \<noteq> []"
    and "\<exists>rqs. fs_requests st' = fs_requests st @ rqs \<and> length rqs \<le> Suc (max_retries f) * Suc (max_redirects f) \<and>
      list_all public_request rqs"
    and "r = Inl e \<Longrightarrow> ft_error (fs_trace st') = Some (Hop_exception e)"
    and "r = Inr (fx, obj) \<Longrightarrow> ft_error (fs_trace st') = None \<and> fx_trace fx = fs_trace st' \<and>
      delivered sha nw max_bytes fx obj st' \<and> ft_content_sha256 (fs_trace st') = Some (so_sha256 obj) \<and>
      ft_final_uri (fs_trace st') = Some (fx_final_uri fx) \<and> fx_redirect_count fx \<le> max_redirects f"
proof -
  let ?st = "st\<lparr>fs_trace := start_trace url, fs_emitted := False\<rparr>"
  obtain r1 st2 where l: "fetch_loop sha f nw max_bytes url ?st = (r1, st2)" by (metis surj_pair)
  have zero: "redirects ?st = 0" by (simp add: redirects_def start_trace_def)
  then have "reported sha f nw max_bytes ?st r1 st2" and g: "grown ?st st2 (Suc (max_retries f) * (Suc (max_redirects f) - 0))"
    using fetch_loop_ends [OF _ l] by simp_all
  then obtain st1 where st1: "quiet ?st st1" "ft_hops (fs_trace st1) \<noteq> []"
      "case r1 of Inl e \<Rightarrow> st2 = fail_with f e st1
       | Inr (fx, obj) \<Rightarrow> st2 = emit f st1 \<and> fx_trace fx = fs_trace st1 \<and> delivered sha nw max_bytes fx obj st1 \<and>
           ft_content_sha256 (fs_trace st1) = Some (so_sha256 obj) \<and> ft_final_uri (fs_trace st1) = Some (fx_final_uri fx) \<and>
           fx_redirect_count fx = redirects st1 \<and> (redirects ?st \<le> max_redirects f \<longrightarrow> redirects st1 \<le> max_redirects f)"
    unfolding reported_def by blast
  have q: "fs_sink st1 = fs_sink st" "\<not> fs_emitted st1" "ft_error (fs_trace st1) = None"
    using st1(1) by (simp_all add: quiet_def start_trace_def)
  have u: "ft_requested_uri (fs_trace st2) = url" using g by (simp add: grown_def start_trace_def)
  have bound: "\<exists>rqs. fs_requests st2 = fs_requests st @ rqs \<and> length rqs \<le> Suc (max_retries f) * Suc (max_redirects f) \<and> list_all public_request rqs"
    using g unfolding grown_def by simp
  have "st' = st2 \<and> fs_sink st2 = fs_sink st @ (if has_sink f then [fs_trace st2] else []) \<and> ft_hops (fs_trace st2) \<noteq> [] \<and>
      (\<forall>e. r = Inl e \<longrightarrow> ft_error (fs_trace st2) = Some (Hop_exception e)) \<and>
      (\<forall>fx obj. r = Inr (fx, obj) \<longrightarrow> ft_error (fs_trace st2) = None \<and> fx_trace fx = fs_trace st2 \<and>
        delivered sha nw max_bytes fx obj st2 \<and> ft_content_sha256 (fs_trace st2) = Some (so_sha256 obj) \<and>
        ft_final_uri (fs_trace st2) = Some (fx_final_uri fx) \<and> fx_redirect_count fx \<le> max_redirects f)"
  proof (cases r1)
    case (Inl e)
    have s2: "st2 = fail_with f e st1" using st1(3) Inl by simp
    have keep: "report_unhandled f url e st2 = st2"
      using st1(2) q by (simp add: s2 report_unhandled_def fail_with_def emit_def Let_def)
    then have "r = Inl e" "st' = st2" using assms l Inl by (simp_all add: fetch_to_store_def)
    then show ?thesis using st1(2) q by (simp add: s2 fail_with_def emit_def)
  next
    case (Inr x)
    obtain fx obj where x: "x = (fx, obj)" by (cases x)
    have r: "r = Inr (fx, obj)" "st' = st2" using assms l Inr x by (simp_all add: fetch_to_store_def)
    have s1: "fx_trace fx = fs_trace st1" "delivered sha nw max_bytes fx obj st1" "st2 = emit f st1"
        "ft_content_sha256 (fs_trace st1) = Some (so_sha256 obj)" "ft_final_uri (fs_trace st1) = Some (fx_final_uri fx)"
        "fx_redirect_count fx \<le> max_redirects f"
      using st1(3) Inr x zero by simp_all
    have "delivered sha nw max_bytes fx obj st2" using s1(2) by (simp add: s1(3) delivered_def emit_def)
    moreover have "fs_trace st2 = fs_trace st1" "fs_sink st2 = fs_sink st @ (if has_sink f then [fs_trace st2] else [])"
      using q by (simp_all add: s1(3) emit_def)
    ultimately show ?thesis using r s1 st1(2) q by simp
  qed
  then show "fs_sink st' = fs_sink st @ (if has_sink f then [fs_trace st'] else [])"
    "ft_requested_uri (fs_trace st') = url" "ft_hops (fs_trace st') \<noteq> []"
    "\<exists>rqs. fs_requests st' = fs_requests st @ rqs \<and> length rqs \<le> Suc (max_retries f) * Suc (max_redirects f) \<and> list_all public_request rqs"
    "r = Inl e \<Longrightarrow> ft_error (fs_trace st') = Some (Hop_exception e)"
    "r = Inr (fx, obj) \<Longrightarrow> ft_error (fs_trace st') = None \<and> fx_trace fx = fs_trace st' \<and>
      delivered sha nw max_bytes fx obj st' \<and> ft_content_sha256 (fs_trace st') = Some (so_sha256 obj) \<and>
      ft_final_uri (fs_trace st') = Some (fx_final_uri fx) \<and> fx_redirect_count fx \<le> max_redirects f"
    using u bound by (blast | simp)+
qed

section \<open>Properties\<close>

text \<open>
  Property C9: the client reaches permitted addresses only.  Whatever the name server and the peers answer,
  and however they change their answers between attempts and redirects, every request to an IP address goes
  outside the private, loopback, link-local, multicast, reserved and unspecified networks (in IPv6: to the
  global unicast or the site-local block; the shared IPv4 space 100.64.0.0/10 is not refused).
\<close>

theorem fetch_requests_public:
  "case fetch_to_store sha f nw url max_bytes st of (r, st') \<Rightarrow>
     \<exists>rqs. fs_requests st' = fs_requests st @ rqs \<and>
       list_all (\<lambda>rq. case ip_address (rq_ip rq) of None \<Rightarrow> True | Some ip \<Rightarrow> permitted_ip ip) rqs"
proof -
  obtain r st' where run: "fetch_to_store sha f nw url max_bytes st = (r, st')" by (metis surj_pair)
  have "public_request rq \<Longrightarrow> (case ip_address (rq_ip rq) of None \<Rightarrow> True | Some ip \<Rightarrow> permitted_ip ip)" for rq
    using not_forbidden_permitted by (auto simp: public_request_def is_forbidden_ip_def split: option.splits)
  moreover obtain rqs where "fs_requests st' = fs_requests st @ rqs" "list_all public_request rqs" using fetch_ends(4) [OF run] by blast
  ultimately have "fs_requests st' = fs_requests st @ rqs \<and>
      list_all (\<lambda>rq. case ip_address (rq_ip rq) of None \<Rightarrow> True | Some ip \<Rightarrow> permitted_ip ip) rqs" by (simp add: list_all_iff)
  then show ?thesis using run by auto
qed

text \<open>
  Property C10: a fetch is bounded.  It always stops, after at most (redirects + 1) times (retries + 1)
  requests; a result has followed at most the allowed redirects and stored at most the allowed bytes.
\<close>

theorem fetch_bounded:
  "case fetch_to_store sha f nw url max_bytes st of (r, st') \<Rightarrow>
     length (fs_requests st') \<le> length (fs_requests st) + Suc (max_retries f) * Suc (max_redirects f) \<and>
     (case r of Inl e \<Rightarrow> True
      | Inr (fx, obj) \<Rightarrow> fx_redirect_count fx \<le> max_redirects f \<and> so_byte_size obj \<le> max_bytes)"
proof -
  obtain r st' where run: "fetch_to_store sha f nw url max_bytes st = (r, st')" by (metis surj_pair)
  obtain rqs where "fs_requests st' = fs_requests st @ rqs" "length rqs \<le> Suc (max_retries f) * Suc (max_redirects f)"
    using fetch_ends(4) [OF run] by blast
  moreover have "case r of Inl e \<Rightarrow> True
      | Inr (fx, obj) \<Rightarrow> fx_redirect_count fx \<le> max_redirects f \<and> so_byte_size obj \<le> max_bytes"
    using fetch_ends(6) [OF run] by (auto simp: delivered_def split: sum.splits)
  ultimately show ?thesis using run by (simp del: mult_Suc mult_Suc_right)
qed

text \<open>
  Property C13: what a fetch returns is the body of one response.  The peer that answered one of its
  requests with a success status was the pinned address where its address is known, the stream did not
  break, and opening the returned digest in the resulting store gives exactly the chunks of that response.
\<close>

theorem fetch_delivers:
  "case fetch_to_store sha f nw url max_bytes st of
     (Inl e, st') \<Rightarrow> True
   | (Inr (fx, obj), st') \<Rightarrow>
       \<exists>rq rs. rq \<in> set (fs_requests st') \<and> rq_ip rq = fx_pinned_ip fx \<and>
         nw_respond nw (fx_observed_at fx) rq = Some rs \<and> 200 \<le> rs_status rs \<and> rs_status rs < 300 \<and> \<not> rs_broken rs \<and>
         (rs_peer rs = None \<or> (\<exists>p. rs_peer rs = Some p \<and> peers_match (rq_ip rq) p = Inr True)) \<and>
         so_sha256 obj = sha (concat (rs_chunks rs)) \<and> so_byte_size obj = length (concat (rs_chunks rs)) \<and>
         open_bytes sha (fs_store st') (so_sha256 obj) = Inr (concat (rs_chunks rs))"
proof -
  obtain r st' where run: "fetch_to_store sha f nw url max_bytes st = (r, st')" by (metis surj_pair)
  show ?thesis
  proof (cases r)
    case (Inr x)
    obtain fx obj where x: "x = (fx, obj)" by (cases x)
    have "delivered sha nw max_bytes fx obj st'" using fetch_ends(6) [OF run] Inr x by simp
    then show ?thesis using run Inr x unfolding delivered_def by auto
  qed (simp add: run)
qed

text \<open>
  Property C14: every fetch is observed exactly once.  Whatever happens, one trace of the requested URL
  with at least one hop reaches the sink, if there is one; it carries the exception exactly when the
  fetch raises, and otherwise the digest of the stored object and the final URL.
\<close>

theorem fetch_observed_once:
  "case fetch_to_store sha f nw url max_bytes st of (r, st') \<Rightarrow>
     fs_sink st' = fs_sink st @ (if has_sink f then [fs_trace st'] else []) \<and>
     ft_requested_uri (fs_trace st') = url \<and> ft_hops (fs_trace st') \<noteq> [] \<and>
     (case r of
        Inl e \<Rightarrow> ft_error (fs_trace st') = Some (Hop_exception e)
      | Inr (fx, obj) \<Rightarrow> ft_error (fs_trace st') = None \<and> fx_trace fx = fs_trace st' \<and>
          ft_content_sha256 (fs_trace st') = Some (so_sha256 obj) \<and> ft_final_uri (fs_trace st') = Some (fx_final_uri fx))"
proof -
  obtain r st' where run: "fetch_to_store sha f nw url max_bytes st = (r, st')" by (metis surj_pair)
  note E = fetch_ends [OF run]
  show ?thesis
  proof (cases r)
    case (Inl e)
    then show ?thesis using run E(1-3) E(5) by simp
  next
    case (Inr x)
    then show ?thesis using run E(1-3) E(6) by (cases x) simp
  qed
qed

section \<open>An example\<close>

text \<open>A redirect, a busy server, then the body: three requests, one trace.\<close>

definition example_response :: "nat \<Rightarrow> string option \<Rightarrow> string list \<Rightarrow> http_response" where
  "example_response status location chunks = \<lparr>rs_status = status, rs_peer = Some ''93.184.216.34'', rs_location = location,
     rs_content_length = Some '' 3'', rs_headers = [], rs_chunks = chunks, rs_broken = False\<rparr>"

definition example_network :: network where
  "example_network = \<lparr>nw_dns = (\<lambda>_ _ _. Addresses [''93.184.216.34'']),
     nw_respond = (\<lambda>n _. if n = 0 then Some (example_response 302 (Some ''/b'') [])
       else if n = 1 then Some (example_response 503 None []) else Some (example_response 200 None [''ab'', ''c'']))\<rparr>"

definition example_state :: fetch_state where
  "example_state = \<lparr>fs_trace = start_trace [], fs_emitted = False, fs_tick = 0, fs_requests = [], fs_store = (\<lambda>_. None), fs_sink = []\<rparr>"

lemma fetch_example:
  "case fetch_to_store (\<lambda>_. replicate 64 CHR ''0'') \<lparr>max_redirects = 1, max_retries = 1, has_sink = True\<rparr> example_network ''https://h/a'' 3 example_state of
     (Inl _, _) \<Rightarrow> False
   | (Inr (fx, obj), st) \<Rightarrow> fx_final_uri fx = ''https://h/b'' \<and> so_byte_size obj = 3 \<and> length (fs_requests st) = 3 \<and>
       map rq_url (fs_requests st) = [''https://93.184.216.34/a'', ''https://93.184.216.34/b'', ''https://93.184.216.34/b'']"
  by code_simp

text \<open>A URL that the policy refuses is refused before any request.\<close>

lemma fetch_refuses:
  assumes "validate_url_syntax url = Inl (DestinationForbidden m)"
  shows "\<exists>st'. fetch_to_store sha f nw url max_bytes st = (Inl (DestinationForbidden m), st') \<and> fs_requests st' = fs_requests st"
proof -
  let ?st = "st\<lparr>fs_trace := start_trace url, fs_emitted := False\<rparr>"
  obtain st1 where a: "attempt_once sha f nw max_bytes url 0 ?st = (Inl (DestinationForbidden m), st1)" "fs_requests st1 = fs_requests st"
    using assms by (simp add: attempt_once_def attempt_body_def fail_with_def emit_def add_hop_def Let_def)
  then have "retry_loop sha f nw max_bytes url [0..<Suc (max_retries f)] ?st = (Inl (DestinationForbidden m), st1)"
    by (simp add: upt_conv_Cons del: upt_Suc)
  then have "fetch_loop sha f nw max_bytes url ?st = (Inl (DestinationForbidden m), st1)" by (simp add: fetch_loop.simps del: upt_Suc)
  then show ?thesis using a(2) by (simp add: fetch_to_store_def report_unhandled_def emit_def Let_def)
qed

lemma literal_refused:
  "validate_url_syntax ''http://169.254.169.254/latest'' = Inl (DestinationForbidden ''forbidden destination address'')"
  by code_simp

end
