(* ===== verification/Accession.thy ===== *)
theory Accession
  imports Identifiers Json
begin

text \<open>
  The accession directory (\<^verbatim>\<open>sec/accession.py\<close>): its JSON and HTML index, the SGML container, the class
  and role of a file, and the reconciliation of the three inventories.

  \<^verbatim>\<open>json.loads\<close> and lxml are arguments: the JSON index is the value read from its bytes, a row of the HTML
  index is the text of its cells with the first link of the third one.  Names and URLs of index entries
  are text; an entry whose name is another JSON value raises here and not when the name is used.
\<close>

section \<open>Issues\<close>

record quality_issue =
  qi_severity :: string
  qi_code :: string
  qi_message :: string
  qi_context :: "(string \<times> json) list"

definition fatal :: "quality_issue \<Rightarrow> bool" where
  "fatal i = (qi_severity i = ''fatal'')"

section \<open>The JSON index\<close>

record directory_entry =
  de_name :: string
  de_last_modified :: "json option"
  de_size :: "string option"
  de_entry_type :: "json option"
  de_url :: string

text \<open>\<^verbatim>\<open>v.get(key)\<close>; \<^verbatim>\<open>None\<close> is a missing key or a null.\<close>

definition json_get :: "json \<Rightarrow> string \<Rightarrow> json option res" where
  "json_get v k = (case v of
      JObj kvs \<Rightarrow> Inr (case map_of kvs k of None \<Rightarrow> None | Some x \<Rightarrow> if x = JNull then None else Some x)
    | _ \<Rightarrow> Inl (AttributeError ''get''))"

text \<open>\<^verbatim>\<open>data.get(key, default)\<close>, where a null is kept.\<close>

definition json_get_default :: "json \<Rightarrow> string \<Rightarrow> json \<Rightarrow> json res" where
  "json_get_default v k d = (case v of
      JObj kvs \<Rightarrow> Inr (case map_of kvs k of None \<Rightarrow> d | Some x \<Rightarrow> x)
    | _ \<Rightarrow> Inl (AttributeError ''get''))"

definition json_iter :: "json \<Rightarrow> json list res" where
  "json_iter v = (case v of
      JArr vs \<Rightarrow> Inr vs
    | JObj kvs \<Rightarrow> Inr (map (\<lambda>(k, _). JStr k) kvs)
    | JStr s \<Rightarrow> Inr (map (\<lambda>c. JStr [c]) s)
    | _ \<Rightarrow> Inl (TypeError ''not iterable''))"

definition falsy :: "json \<Rightarrow> bool" where
  "falsy v = (v \<in> {JNull, JBool False, JInt 0, JStr [], JArr [], JObj []})"

definition optional_json_text :: "json option \<Rightarrow> string option res" where
  "optional_json_text v = (case v of
      None \<Rightarrow> Inr None
    | Some x \<Rightarrow> if falsy x then Inr None else (case x of JStr s \<Rightarrow> Inr (Some s) | _ \<Rightarrow> Inl (AttributeError ''text'')))"

definition mk_directory_entry :: "(json \<Rightarrow> string) \<Rightarrow> string \<Rightarrow> json \<Rightarrow> directory_entry option res" where
  "mk_directory_entry py_str archive_base item =
     res_bind (json_get item ''name'') (\<lambda>v. res_bind (optional_json_text v) (\<lambda>name.
       case name of
         None \<Rightarrow> Inr None
       | Some name \<Rightarrow>
           res_bind (json_get item ''url'') (\<lambda>v. res_bind (optional_json_text v) (\<lambda>url.
           res_bind (json_get item ''last-modified'') (\<lambda>modified.
           res_bind (json_get item ''size'') (\<lambda>size.
           res_bind (json_get item ''type'') (\<lambda>entry_type.
             Inr (Some \<lparr>de_name = name, de_last_modified = modified, de_size = map_option py_str size,
               de_entry_type = entry_type,
               de_url = (case url of None \<Rightarrow> archive_base @ name | Some u \<Rightarrow> u)\<rparr>))))))))"

definition parse_index_json :: "(json \<Rightarrow> string) \<Rightarrow> json \<Rightarrow> string \<Rightarrow> directory_entry list res" where
  "parse_index_json py_str data archive_base =
     res_bind (json_get_default data ''directory'' (JObj [])) (\<lambda>directory.
     res_bind (json_get_default directory ''item'' (JArr [])) (\<lambda>items.
     res_bind (json_iter items) (\<lambda>items.
     res_bind (map_res (mk_directory_entry py_str archive_base) items) (\<lambda>es. Inr (somes es)))))"

section \<open>The HTML index\<close>

record html_row =
  hr_cells :: "string list"
  hr_anchor :: "(string \<times> string) option"

record document_row =
  dw_sequence :: "string option"
  dw_description :: "string option"
  dw_name :: string
  dw_document_type :: "string option"
  dw_url :: string

definition or_none :: "string \<Rightarrow> string option" where
  "or_none s = (if s = [] then None else Some s)"

definition rstrip_slash :: "string \<Rightarrow> string" where
  "rstrip_slash s = rev (dropWhile (\<lambda>c. c = CHR ''/'') (rev s))"

definition mk_document_row :: "string \<Rightarrow> html_row \<Rightarrow> document_row option" where
  "mk_document_row archive_base row =
     (if length (hr_cells row) < 4 then None
      else (case hr_anchor row of
          None \<Rightarrow> None
        | Some (href, text) \<Rightarrow>
            (let name = (if py_strip text = [] then last (split_on CHR ''/'' (rstrip_slash href)) else py_strip text);
                 url = (if startswith href ''http'' then href
                        else if startswith href ''/'' then ''https://www.sec.gov'' @ href
                        else archive_base @ name)
             in Some \<lparr>dw_sequence = or_none (py_strip (hr_cells row ! 0)), dw_description = or_none (py_strip (hr_cells row ! 1)),
                      dw_name = name, dw_document_type = or_none (py_strip (hr_cells row ! 3)), dw_url = url\<rparr>)))"

definition parse_index_html :: "html_row list \<Rightarrow> string \<Rightarrow> document_row list" where
  "parse_index_html rows archive_base = somes (map (mk_document_row archive_base) rows)"

section \<open>The SGML container\<close>

record sgml_document =
  sd_sequence :: "string option"
  sd_filename :: "string option"
  sd_document_type :: "string option"
  sd_description :: "string option"
  sd_block_ordinal :: nat

text \<open>\<^verbatim>\<open>text.splitlines()\<close> on ASCII text.\<close>

definition line_break :: "char \<Rightarrow> bool" where
  "line_break c = (c \<in> {CHR 0x0A, CHR 0x0B, CHR 0x0C, CHR 0x0D, CHR 0x1C, CHR 0x1D, CHR 0x1E})"

fun py_splitlines :: "string \<Rightarrow> string list" where
  "py_splitlines [] = []"
| "py_splitlines [c] = (if line_break c then [[]] else [[c]])"
| "py_splitlines (c # d # s) =
     (if c = CHR 0x0D \<and> d = CHR 0x0A then [] # py_splitlines s
      else if line_break c then [] # py_splitlines (d # s)
      else (case py_splitlines (d # s) of [] \<Rightarrow> [[c]] | l # ls \<Rightarrow> (c # l) # ls))"

definition HEADER_KEYS :: "string list" where
  "HEADER_KEYS = [''SEQUENCE'', ''FILENAME'', ''TYPE'', ''DESCRIPTION'']"

record sgml_state =
  ss_current :: "string \<rightharpoonup> string"
  ss_in_document :: bool
  ss_ordinal :: nat
  ss_documents :: "sgml_document list"

definition header_line :: "string \<Rightarrow> (string \<times> string) option" where
  "header_line line =
     (case find (\<lambda>key. startswith line (''<'' @ key @ ''>'')) HEADER_KEYS of
        None \<Rightarrow> None
      | Some key \<Rightarrow> Some (key, py_strip (drop (length key + 2) line)))"

definition sgml_step :: "string \<Rightarrow> sgml_state \<Rightarrow> sgml_state" where
  "sgml_step raw st =
     (let line = strip_by (\<lambda>c. c = CHR 0x0D) raw
      in if startswith line ''<DOCUMENT>'' then st\<lparr>ss_in_document := True, ss_current := (\<lambda>_. None)\<rparr>
         else if startswith line ''</DOCUMENT>''
         then (let st = (if ss_in_document st
                  then st\<lparr>ss_documents := ss_documents st @
                         [\<lparr>sd_sequence = ss_current st ''SEQUENCE'', sd_filename = ss_current st ''FILENAME'',
                           sd_document_type = ss_current st ''TYPE'', sd_description = ss_current st ''DESCRIPTION'',
                           sd_block_ordinal = ss_ordinal st\<rparr>], ss_ordinal := Suc (ss_ordinal st)\<rparr>
                  else st)
               in st\<lparr>ss_current := (\<lambda>_. None), ss_in_document := False\<rparr>)
         else if \<not> ss_in_document st then st
         else (case header_line line of
             None \<Rightarrow> st
           | Some (key, v) \<Rightarrow> st\<lparr>ss_current := (ss_current st)(key \<mapsto> v)\<rparr>))"

definition sgml_start :: sgml_state where
  "sgml_start = \<lparr>ss_current = (\<lambda>_. None), ss_in_document = False, ss_ordinal = 0, ss_documents = []\<rparr>"

definition parse_sgml_documents :: "string \<Rightarrow> sgml_document list" where
  "parse_sgml_documents text = ss_documents (fold sgml_step (py_splitlines text) sgml_start)"

section \<open>Class and role of a file\<close>

definition SEC_GENERATED_RENDERING_NAMES :: "string list" where
  "SEC_GENERATED_RENDERING_NAMES = [''filingsummary.xml'', ''metalinks.json'', ''show.js'', ''report.css'', ''financial_report.css'']"

definition ends_any :: "string \<Rightarrow> string list \<Rightarrow> bool" where
  "ends_any s suffixes = list_ex (endswith s) suffixes"

text \<open>\<^verbatim>\<open>re.fullmatch(r"r\d+\.htm(l)?", lower)\<close>.\<close>

definition r_page :: "string \<Rightarrow> bool" where
  "r_page s = (startswith s ''r'' \<and> takeWhile is_digit (drop 1 s) \<noteq> [] \<and>
     dropWhile is_digit (drop 1 s) \<in> {''.htm'', ''.html''})"

definition present :: "string option \<Rightarrow> bool" where
  "present x = (case x of None \<Rightarrow> False | Some s \<Rightarrow> s \<noteq> [])"

definition classify_source_and_role ::
  "string \<Rightarrow> string \<Rightarrow> string option \<Rightarrow> string option \<Rightarrow> string \<times> string" where
  "classify_source_and_role accession filename description document_type =
     (let lower = py_lower filename
      in if lower = py_lower accession @ ''.txt'' then (''filer_submitted'', ''complete_submission'')
         else if endswith lower ''-index.json'' \<or> lower = ''index.json'' then (''sec_submission_metadata'', ''index_json'')
         else if contains lower ''index-headers'' then (''sec_submission_metadata'', ''index_headers'')
         else if endswith lower ''-index.html'' \<or> endswith lower ''-index.htm'' then (''sec_submission_metadata'', ''index_html'')
         else if lower \<in> set SEC_GENERATED_RENDERING_NAMES then (''sec_generated_rendering'', ''sec_viewer_artifact'')
         else if r_page lower then (''sec_generated_rendering'', ''sec_viewer_artifact'')
         else if ends_any lower [''.css'', ''.js''] \<and>
             (contains lower ''viewer'' \<or> contains lower ''report'' \<or> startswith lower ''r'')
         then (''sec_generated_rendering'', ''sec_viewer_artifact'')
         else if endswith lower ''.xsd'' then (''filer_submitted'', ''taxonomy_schema'')
         else if ends_any lower [''_pre.xml'', ''_cal.xml'', ''_def.xml'', ''_lab.xml'', ''_ref.xml''] then (''filer_submitted'', ''linkbase'')
         else if endswith lower ''.xml'' \<and> contains lower ''htm.xml'' then (''sec_generated_xbrl'', ''sec_generated_xbrl'')
         else if endswith lower ''-xbrl.zip'' then (''sec_generated_xbrl'', ''xbrl_zip'')
         else if ends_any lower [''.jpg'', ''.jpeg'', ''.png'', ''.gif'', ''.svg''] then (''filer_submitted'', ''image'')
         else if (\<exists>t\<in>set_option document_type. py_upper t \<in> {''10-K'', ''10-K/A'', ''10-Q'', ''10-Q/A''})
         then (''filer_submitted'', ''primary_document'')
         else if (\<exists>d\<in>set_option description. contains (py_upper d) ''GRAPHIC'') then (''filer_submitted'', ''image'')
         else if present description \<or> present document_type then (''filer_submitted'', ''attachment'')
         else (''unknown'', ''unknown''))"

section \<open>Reconciliation\<close>

definition text_or_empty :: "string option \<Rightarrow> string" where
  "text_or_empty x = (case x of None \<Rightarrow> [] | Some s \<Rightarrow> s)"

text \<open>Sets of names in the order of \<^verbatim>\<open>sorted\<close>.\<close>

definition sorted_names :: "string list \<Rightarrow> string list" where
  "sorted_names xs = sort (remdups xs)"

definition sgml_names :: "sgml_document list \<Rightarrow> string list" where
  "sgml_names docs = filter (\<lambda>n. n \<noteq> []) (somes (map sd_filename docs))"

definition html_submitted :: "string \<Rightarrow> document_row list \<Rightarrow> string list" where
  "html_submitted accession rows =
     map dw_name (filter (\<lambda>e. dw_name e \<noteq> [] \<and> py_upper (text_or_empty (dw_document_type e)) \<notin> {[], ''GRAPHIC''} \<and>
       py_lower (dw_name e) \<noteq> py_lower (accession @ ''.txt'') \<and>
       \<not> ends_any (py_lower (dw_name e)) [''-index.html'', ''-index.htm'', ''index.json'']) rows)"

definition html_filer_submitted :: "string \<Rightarrow> document_row list \<Rightarrow> string list" where
  "html_filer_submitted accession rows =
     map dw_name (filter (\<lambda>r. dw_name r \<noteq> [] \<and>
       (let (source_class, role) = classify_source_and_role accession (dw_name r) (dw_description r) (dw_document_type r)
        in source_class = ''filer_submitted'' \<and> role \<noteq> ''complete_submission'')) rows)"

definition sgml_missing_issue :: "string \<Rightarrow> quality_issue" where
  "sgml_missing_issue name = \<lparr>qi_severity = ''fatal'', qi_code = ''SGML_FILENAME_MISSING_FROM_DIRECTORY'',
     qi_message = ''SGML FILENAME '' @ name @ '' missing from accession directory'', qi_context = [(''filename'', JStr name)]\<rparr>"

definition index_missing_issue :: "string \<Rightarrow> quality_issue" where
  "index_missing_issue name = \<lparr>qi_severity = ''fatal'', qi_code = ''INDEX_FILER_SUBMITTED_MISSING_FROM_DIRECTORY'',
     qi_message = ''filer-submitted index document '' @ name @ '' missing from accession directory'',
     qi_context = [(''filename'', JStr name)]\<rparr>"

definition sgml_absent_issue :: "string \<Rightarrow> quality_issue" where
  "sgml_absent_issue name = \<lparr>qi_severity = ''warning'', qi_code = ''INDEX_SUBMITTED_ABSENT_FROM_SGML'',
     qi_message = ''index submitted document '' @ name @ '' absent from SGML inventory'', qi_context = [(''filename'', JStr name)]\<rparr>"

definition reconcile_sgml_inventory ::
  "string \<Rightarrow> string list \<Rightarrow> document_row list \<Rightarrow> sgml_document list \<Rightarrow> quality_issue list" where
  "reconcile_sgml_inventory accession directory_names html_rows sgml_docs =
     map sgml_missing_issue (filter (\<lambda>n. n \<notin> set directory_names) (sorted_names (sgml_names sgml_docs))) @
     map index_missing_issue
       (sorted_names (filter (\<lambda>n. n \<notin> set directory_names) (html_filer_submitted accession html_rows))) @
     map sgml_absent_issue
       (sorted_names (filter (\<lambda>n. n \<notin> set (sgml_names sgml_docs)) (html_submitted accession html_rows)))"

lemma distinct_sort_key_names: "distinct (map f xs) \<Longrightarrow> distinct (map f (sort_key f xs))"
  by (metis distinct_map distinct_sort set_sort)

section \<open>Reading a container back\<close>

lemma py_splitlines_line:
  assumes "list_all (\<lambda>c. \<not> line_break c) l"
  shows "py_splitlines (l @ CHR 0x0A # s) = l # py_splitlines s"
  using assms
proof (induction l)
  case Nil
  then show ?case by (cases s) (auto simp: line_break_def)
next
  case (Cons c l)
  obtain d t where t: "l @ CHR 0x0A # s = d # t" by (cases l) auto
  have "c \<noteq> CHR 0x0D" using Cons.prems by (auto simp: line_break_def)
  then show ?case using Cons t by simp
qed

definition unlines :: "string list \<Rightarrow> string" where
  "unlines ls = concat (map (\<lambda>l. l @ [CHR 0x0A]) ls)"

lemma py_splitlines_unlines:
  "list_all (list_all (\<lambda>c. \<not> line_break c)) ls \<Longrightarrow> py_splitlines (unlines ls) = ls"
  by (induction ls) (simp_all add: unlines_def py_splitlines_line)

text \<open>A container as the SEC writes it: for each document its header lines, then its text.\<close>

definition header_text :: "string \<Rightarrow> string option \<Rightarrow> string list" where
  "header_text key v = (case v of None \<Rightarrow> [] | Some s \<Rightarrow> [''<'' @ key @ ''>'' @ s])"

definition sgml_block :: "sgml_document \<times> string list \<Rightarrow> string list" where
  "sgml_block x = (case x of (d, body) \<Rightarrow>
     [''<DOCUMENT>''] @ header_text ''TYPE'' (sd_document_type d) @ header_text ''SEQUENCE'' (sd_sequence d) @
     header_text ''FILENAME'' (sd_filename d) @ header_text ''DESCRIPTION'' (sd_description d) @ body @ [''</DOCUMENT>''])"

definition plain_line :: "string \<Rightarrow> bool" where
  "plain_line l = (list_all (\<lambda>c. \<not> line_break c) l \<and> \<not> startswith l ''<DOCUMENT>'' \<and> \<not> startswith l ''</DOCUMENT>'')"

text \<open>A header after the text: the last line of the text that begins with its key replaces the value.\<close>

definition later_header :: "string \<Rightarrow> string list \<Rightarrow> string option \<Rightarrow> string option" where
  "later_header key body v =
     (let ls = filter (\<lambda>l. startswith l (''<'' @ key @ ''>'')) body
      in if ls = [] then v else Some (py_strip (drop (length key + 2) (last ls))))"

definition document_read :: "sgml_document \<times> string list \<Rightarrow> sgml_document" where
  "document_read x = (case x of (d, body) \<Rightarrow>
     \<lparr>sd_sequence = later_header ''SEQUENCE'' body (sd_sequence d), sd_filename = later_header ''FILENAME'' body (sd_filename d),
      sd_document_type = later_header ''TYPE'' body (sd_document_type d),
      sd_description = later_header ''DESCRIPTION'' body (sd_description d), sd_block_ordinal = sd_block_ordinal d\<rparr>)"

definition header_value :: "string option \<Rightarrow> bool" where
  "header_value v = (case v of None \<Rightarrow> True | Some s \<Rightarrow> py_strip s = s \<and> list_all (\<lambda>c. \<not> line_break c) s)"

definition sgml_wf :: "sgml_document \<times> string list \<Rightarrow> bool" where
  "sgml_wf x = (case x of (d, body) \<Rightarrow>
     header_value (sd_sequence d) \<and> header_value (sd_filename d) \<and> header_value (sd_document_type d) \<and>
     header_value (sd_description d) \<and> list_all plain_line body)"

lemma strip_no_break: "list_all (\<lambda>c. \<not> line_break c) l \<Longrightarrow> strip_by (\<lambda>c. c = CHR 0x0D) l = l"
proof -
  assume a: "list_all (\<lambda>c. \<not> line_break c) l"
  have "dropWhile (\<lambda>c. c = CHR 0x0D) xs = xs" if "list_all (\<lambda>c. \<not> line_break c) xs" for xs
    using that by (cases xs) (auto simp: line_break_def)
  then show ?thesis using a by (simp add: strip_by_def list_all_rev)
qed

definition inside :: "(string \<rightharpoonup> string) \<Rightarrow> sgml_document list \<Rightarrow> sgml_state" where
  "inside current docs = \<lparr>ss_current = current, ss_in_document = True, ss_ordinal = length docs, ss_documents = docs\<rparr>"

lemma header_line_iff:
  "header_line l = Some (key, v) \<longleftrightarrow>
     key \<in> set HEADER_KEYS \<and> startswith l (''<'' @ key @ ''>'') \<and> v = py_strip (drop (length key + 2) l)"
proof -
  have second: "l ! 1 = (''<'' @ k @ ''>'') ! 1" if start: "startswith l (''<'' @ k @ ''>'')" for k
  proof -
    obtain t where "l = (''<'' @ k @ ''>'') @ t" using start unfolding startswith_iff by blast
    then show ?thesis by (simp only: nth_append length_append list.size) simp
  qed
  have same: "k = k'" if "k \<in> set HEADER_KEYS" "k' \<in> set HEADER_KEYS" "startswith l (''<'' @ k @ ''>'')" "startswith l (''<'' @ k' @ ''>'')" for k k'
    using second [OF that(3)] second [OF that(4)] that(1,2) by (auto simp: HEADER_KEYS_def)
  show ?thesis
  proof (cases "find (\<lambda>key. startswith l (''<'' @ key @ ''>'')) HEADER_KEYS")
    case None
    then have "header_line l = None" unfolding header_line_def by simp
    then show ?thesis using None by (auto simp: find_None_iff)
  next
    case (Some k)
    then have k: "k \<in> set HEADER_KEYS" "startswith l (''<'' @ k @ ''>'')"
      by (auto simp: find_Some_iff)
    have "header_line l = Some (k, py_strip (drop (length k + 2) l))" unfolding header_line_def Some by simp
    moreover have "key = k" if "key \<in> set HEADER_KEYS" "startswith l (''<'' @ key @ ''>'')"
      using same [OF that(1) k(1) that(2) k(2)] .
    ultimately show ?thesis using k by (metis option.inject prod.inject)
  qed
qed

definition after_lines :: "(string \<rightharpoonup> string) \<Rightarrow> string list \<Rightarrow> string \<rightharpoonup> string" where
  "after_lines current ls k = (if k \<in> set HEADER_KEYS then later_header k ls (current k) else current k)"

lemma sgml_step_line:
  assumes "plain_line l"
  shows "sgml_step l (inside current docs) = inside (after_lines current [l]) docs"
proof -
  have "sgml_step l (inside current docs) =
      inside (case header_line l of None \<Rightarrow> current | Some (k, v) \<Rightarrow> current(k \<mapsto> v)) docs"
    using assms by (simp add: sgml_step_def plain_line_def inside_def strip_no_break Let_def split: option.split)
  moreover have "(case header_line l of None \<Rightarrow> current | Some (k, v) \<Rightarrow> current(k \<mapsto> v)) = after_lines current [l]"
  proof (cases "header_line l")
    case None
    then have "\<not> startswith l (''<'' @ k @ ''>'')" if "k \<in> set HEADER_KEYS" for k
      using that header_line_iff [of l k "py_strip (drop (length k + 2) l)"] by simp
    then show ?thesis using None by (auto simp: after_lines_def later_header_def)
  next
    case (Some kv)
    obtain k v where kv: "kv = (k, v)" by (cases kv)
    have "startswith l (''<'' @ k' @ ''>'') \<longleftrightarrow> k' = k" if "k' \<in> set HEADER_KEYS" for k'
      using that header_line_iff [of l k'] header_line_iff [of l k v] Some kv by auto
    then show ?thesis using header_line_iff [of l k v] Some kv by (auto simp: after_lines_def later_header_def)
  qed
  ultimately show ?thesis by simp
qed

lemma after_lines_Cons: "after_lines (after_lines current [l]) ls = after_lines current (l # ls)"
  by (rule ext) (simp add: after_lines_def later_header_def Let_def)

lemma fold_sgml_lines: "list_all plain_line ls \<Longrightarrow> fold sgml_step ls (inside current docs) = inside (after_lines current ls) docs"
proof (induction ls arbitrary: current)
  case Nil
  have "after_lines current [] = current" by (rule ext) (simp add: after_lines_def later_header_def)
  then show ?case by simp
qed (simp add: sgml_step_line after_lines_Cons)

lemma header_key_simps:
  assumes "key \<in> set HEADER_KEYS"
  shows "list_all (\<lambda>c. \<not> line_break c) key" "\<not> startswith (''<'' @ key @ ''>'' @ s) ''<DOCUMENT>''"
    "\<not> startswith (''<'' @ key @ ''>'' @ s) ''</DOCUMENT>''"
proof -
  consider "key = ''SEQUENCE''" | "key = ''FILENAME''" | "key = ''TYPE''" | "key = ''DESCRIPTION''"
    using assms by (auto simp: HEADER_KEYS_def)
  then show "list_all (\<lambda>c. \<not> line_break c) key" "\<not> startswith (''<'' @ key @ ''>'' @ s) ''<DOCUMENT>''"
    "\<not> startswith (''<'' @ key @ ''>'' @ s) ''</DOCUMENT>''"
    by (cases; simp add: line_break_def startswith_def)+
qed

lemma header_line_text:
  assumes "key \<in> set HEADER_KEYS" and "py_strip s = s"
  shows "header_line (''<'' @ key @ ''>'' @ s) = Some (key, s)"
proof -
  consider "key = ''SEQUENCE''" | "key = ''FILENAME''" | "key = ''TYPE''" | "key = ''DESCRIPTION''"
    using assms(1) by (auto simp: HEADER_KEYS_def)
  then show ?thesis using assms(2) by cases (simp_all add: header_line_def HEADER_KEYS_def startswith_def)
qed

lemma fold_header:
  assumes "key \<in> set HEADER_KEYS" and "header_value v" and "current key = None"
  shows "fold sgml_step (header_text key v) (inside current docs) = inside (current(key := v)) docs"
proof (cases v)
  case None
  then have "current(key := v) = current" using assms(3) by auto
  then show ?thesis using None by (simp add: header_text_def)
next
  case (Some s)
  have strip: "strip_by (\<lambda>c. c = CHR 0x0D) (''<'' @ key @ ''>'' @ s) = ''<'' @ key @ ''>'' @ s"
    using header_key_simps(1) [OF assms(1)] assms(2) Some by (intro strip_no_break) (simp add: header_value_def line_break_def)
  note no = header_key_simps(2,3) [OF assms(1)]
  have "header_line (''<'' @ key @ ''>'' @ s) = Some (key, s)"
    using assms Some by (intro header_line_text) (simp_all add: header_value_def)
  then show ?thesis using Some no strip by (simp add: header_text_def sgml_step_def inside_def Let_def)
qed

lemma fold_sgml_block:
  assumes "sgml_wf (d, body)"
  shows "fold sgml_step (sgml_block (d, body))
      \<lparr>ss_current = (\<lambda>_. None), ss_in_document = False, ss_ordinal = length docs, ss_documents = docs\<rparr> =
    \<lparr>ss_current = (\<lambda>_. None), ss_in_document = False, ss_ordinal = Suc (length docs),
     ss_documents = docs @ [(document_read (d, body))\<lparr>sd_block_ordinal := length docs\<rparr>]\<rparr>"
proof -
  have w: "header_value (sd_sequence d)" "header_value (sd_filename d)" "header_value (sd_document_type d)"
    "header_value (sd_description d)" "list_all plain_line body" using assms by (simp_all add: sgml_wf_def)
  have k: "''TYPE'' \<in> set HEADER_KEYS" "''SEQUENCE'' \<in> set HEADER_KEYS" "''FILENAME'' \<in> set HEADER_KEYS" "''DESCRIPTION'' \<in> set HEADER_KEYS"
    by (simp_all add: HEADER_KEYS_def)
  have opn: "sgml_step ''<DOCUMENT>'' \<lparr>ss_current = (\<lambda>_. None), ss_in_document = False, ss_ordinal = length docs, ss_documents = docs\<rparr> =
      inside (\<lambda>_. None) docs"
    by (simp add: sgml_step_def inside_def strip_by_def startswith_def Let_def)
  have close: "sgml_step ''</DOCUMENT>'' (inside current docs) =
      \<lparr>ss_current = (\<lambda>_. None), ss_in_document = False, ss_ordinal = Suc (length docs),
       ss_documents = docs @ [\<lparr>sd_sequence = current ''SEQUENCE'', sd_filename = current ''FILENAME'',
         sd_document_type = current ''TYPE'', sd_description = current ''DESCRIPTION'', sd_block_ordinal = length docs\<rparr>]\<rparr>" for current
    by (simp add: sgml_step_def inside_def strip_by_def startswith_def Let_def)
  show ?thesis
    using fold_header [OF k(1) w(3)] fold_header [OF k(2) w(1)] fold_header [OF k(3) w(2)] fold_header [OF k(4) w(4)]
    by (simp add: sgml_block_def opn close fold_sgml_lines w(5) after_lines_def k document_read_def)
qed

definition number_documents :: "sgml_document list \<Rightarrow> sgml_document list" where
  "number_documents ds = map (\<lambda>(i, d). d\<lparr>sd_block_ordinal := i\<rparr>) (List.enumerate 0 ds)"

lemma fold_sgml_blocks:
  assumes "list_all sgml_wf blocks"
  shows "fold sgml_step (concat (map sgml_block blocks)) sgml_start =
    \<lparr>ss_current = (\<lambda>_. None), ss_in_document = False, ss_ordinal = length blocks,
     ss_documents = number_documents (map document_read blocks)\<rparr>"
  using assms
proof (induction blocks rule: rev_induct)
  case Nil
  then show ?case by (simp add: sgml_start_def number_documents_def)
next
  case (snoc x blocks)
  obtain d body where x: "x = (d, body)" by (cases x)
  have len: "length (number_documents (map document_read blocks)) = length blocks" by (simp add: number_documents_def)
  show ?case using snoc fold_sgml_block [of d body "number_documents (map document_read blocks)"]
    by (simp add: x len) (simp add: number_documents_def enumerate_append_eq)
qed

section \<open>Properties\<close>

text \<open>
  Property C39: the container is read back.  Blocks written with their header lines, each followed by a
  text without a line that begins with a document tag, give exactly their documents, numbered in order.
  The text counts as well: where one of its lines begins with a header key, the last such line replaces that header.
\<close>

theorem sgml_roundtrip:
  assumes "list_all sgml_wf blocks"
  shows "parse_sgml_documents (unlines (concat (map sgml_block blocks))) = number_documents (map document_read blocks)"
proof -
  have "list_all (list_all (\<lambda>c. \<not> line_break c)) (sgml_block x)" if "sgml_wf x" for x
    using that
    by (cases x) (auto simp: sgml_block_def sgml_wf_def header_text_def header_value_def list_all_iff plain_line_def
        line_break_def split: option.splits)
  then have "list_all (list_all (\<lambda>c. \<not> line_break c)) (concat (map sgml_block blocks))"
    using assms by (auto simp: list_all_iff)
  then show ?thesis using fold_sgml_blocks [OF assms] by (simp add: parse_sgml_documents_def py_splitlines_unlines)
qed

theorem sgml_roundtrip_witness:
  "let d = \<lparr>sd_sequence = Some ''1'', sd_filename = Some ''a.htm'', sd_document_type = Some ''10-K'', sd_description = None,
        sd_block_ordinal = 0\<rparr>
   in parse_sgml_documents (unlines (concat (map sgml_block [(d, [''<TEXT>'', ''<html>'']), (d, [''<TYPE> GRAPHIC''])]))) =
     [d, d\<lparr>sd_document_type := Some ''GRAPHIC'', sd_block_ordinal := 1\<rparr>]"
proof -
  let ?d = "\<lparr>sd_sequence = Some ''1'', sd_filename = Some ''a.htm'', sd_document_type = Some ''10-K'', sd_description = None,
        sd_block_ordinal = 0\<rparr>"
  let ?bs = "[(?d, [''<TEXT>'', ''<html>'']), (?d, [''<TYPE> GRAPHIC''])]"
  have wf: "list_all sgml_wf ?bs" by code_simp
  have "number_documents (map document_read ?bs) = [?d, ?d\<lparr>sd_document_type := Some ''GRAPHIC'', sd_block_ordinal := 1\<rparr>]"
    by code_simp
  with sgml_roundtrip [OF wf] show ?thesis unfolding Let_def by (rule trans)
qed

text \<open>
  Property C40: reconciliation is fatal exactly when a file is missing.  There is a fatal issue exactly when
  a file the container names, or a file of the index that the filer submitted, is not in the directory.
\<close>

theorem reconcile_fatal_iff:
  "list_ex fatal (reconcile_sgml_inventory accession names rows docs) \<longleftrightarrow>
     \<not> set (sgml_names docs) \<union> set (html_filer_submitted accession rows) \<subseteq> set names"
proof -
  have f: "fatal (sgml_missing_issue n)" "fatal (index_missing_issue n)" "\<not> fatal (sgml_absent_issue n)" for n
    by (simp_all add: fatal_def sgml_missing_issue_def index_missing_issue_def sgml_absent_issue_def)
  have L: "list_ex fatal (map sgml_missing_issue xs) \<longleftrightarrow> xs \<noteq> []" "list_ex fatal (map index_missing_issue xs) \<longleftrightarrow> xs \<noteq> []"
    "\<not> list_ex fatal (map sgml_absent_issue xs)" for xs
    by (induction xs) (simp_all add: f)
  have N: "set (sorted_names xs) = set xs" for xs by (simp add: sorted_names_def)
  have E: "sorted_names xs = [] \<longleftrightarrow> xs = []" for xs using N [of xs] by (cases xs) auto
  show ?thesis
    unfolding reconcile_sgml_inventory_def list_ex_append L(1,2) E filter_empty_conv N using L(3) by blast
qed

lemma classify_case_insensitive:
  "classify_source_and_role accession (py_lower filename) description document_type =
     classify_source_and_role accession filename description document_type"
proof -
  have "char_lower (char_lower c) = char_lower c" for c
    by (auto simp: char_lower_def is_upper_ascii_def Let_def)
  then have "py_lower (py_lower filename) = py_lower filename" by (simp add: py_lower_def)
  then show ?thesis by (simp add: classify_source_and_role_def)
qed

end
