(* ===== verification/Report_Input.thy ===== *)
theory Report_Input
  imports Accession Bundle Uri
begin

text \<open>
  The identification of the primary XBRL report input (\<^verbatim>\<open>ingestion/report_input.py\<close>).

  \<^verbatim>\<open>etree.fromstring\<close> is the argument \<open>xml\<close>: none for a syntax error, else the nodes \<^verbatim>\<open>root.iter()\<close> yields, the
  root first.  The tag of a comment or processing instruction is no text, so \<^verbatim>\<open>etree.QName\<close> raises a
  \<^verbatim>\<open>ValueError\<close> on it.
\<close>

section \<open>Kinds of documents\<close>

datatype xml_node = Element "string option" string | Comment_or_pi

type_synonym xml_parser = "string \<Rightarrow> xml_node list option"

definition XBRLI_NS :: string where
  "XBRLI_NS = ''http://www.xbrl.org/2003/instance''"

definition INLINE_NS_URIS :: "string list" where
  "INLINE_NS_URIS = [''http://www.xbrl.org/2013/inlineXBRL'', ''http://www.xbrl.org/2008/inlineXBRL'']"

definition EX_FILING_FEES_TYPES :: "string list" where
  "EX_FILING_FEES_TYPES = [''EX-FILING FEES'', ''EX-FILINGFEE'']"

fun any_inline :: "xml_node list \<Rightarrow> bool res" where
  "any_inline [] = Inr False"
| "any_inline (Comment_or_pi # nodes) = Inl (ValueError ''Invalid input tag'')"
| "any_inline (Element ns _ # nodes) = (if ns \<in> Some ` set INLINE_NS_URIS then Inr True else any_inline nodes)"

definition is_inline_xbrl :: "xml_parser \<Rightarrow> string \<Rightarrow> bool res" where
  "is_inline_xbrl xml data = (case xml data of None \<Rightarrow> Inr False | Some nodes \<Rightarrow> any_inline nodes)"

definition is_xbrl_instance :: "xml_parser \<Rightarrow> string \<Rightarrow> bool res" where
  "is_xbrl_instance xml data =
     res_bind (is_inline_xbrl xml data) (\<lambda>inline.
       if inline then Inr False
       else (case xml data of None \<Rightarrow> Inr False
             | Some nodes \<Rightarrow> Inr (nodes \<noteq> [] \<and> hd nodes = Element (Some XBRLI_NS) ''xbrl'')))"

section \<open>Attachments\<close>

record submitted_attachment =
  sa_filename :: string
  sa_document_type :: "string option"
  sa_description :: "string option"
  sa_logical_path :: string
  sa_content_sha256 :: string
  sa_source_class :: string
  sa_artifact_role :: string

definition primary_conflict :: "string \<Rightarrow> string \<Rightarrow> string \<Rightarrow> nat \<Rightarrow> quality_issue" where
  "primary_conflict message primary_document form_type n =
     \<lparr>qi_severity = ''fatal'', qi_code = ''PRIMARY_DOCUMENT_CONFLICT'', qi_message = message,
      qi_context = [(''expected_filename'', JStr primary_document), (''expected_type'', JStr form_type), (''matches'', JInt (int n))]\<rparr>"

definition reconcile_primary_row ::
  "string \<Rightarrow> string \<Rightarrow> document_row list \<Rightarrow> sgml_document list \<Rightarrow> quality_issue list" where
  "reconcile_primary_row form_type primary_document html_rows sgml_docs =
     (let html_matches = filter (\<lambda>r. dw_name r = primary_document \<and>
            py_upper (text_or_empty (dw_document_type r)) = py_upper form_type) html_rows;
          sgml_matches = filter (\<lambda>d. sd_filename d = Some primary_document \<and>
            py_upper (text_or_empty (sd_document_type d)) = py_upper form_type) sgml_docs
      in (if length html_matches \<noteq> 1
          then [primary_conflict ''index HTML primary row mismatch'' primary_document form_type (length html_matches)] else []) @
         (if length sgml_matches \<noteq> 1
          then [primary_conflict ''SGML primary DOCUMENT mismatch'' primary_document form_type (length sgml_matches)] else []))"

definition reconcile_ixds_attachment_types :: "string \<Rightarrow> document_row list \<Rightarrow> sgml_document list \<Rightarrow> string res" where
  "reconcile_ixds_attachment_types filename html_rows sgml_docs =
     (case (filter (\<lambda>r. dw_name r = filename) html_rows, filter (\<lambda>d. sd_filename d = Some filename) sgml_docs) of
        ([row], [doc]) \<Rightarrow>
          (let html_type = py_strip (text_or_empty (dw_document_type row)); sgml_type = py_strip (text_or_empty (sd_document_type doc))
           in if html_type = [] \<or> sgml_type = [] then Inl (UnsupportedReportInput ''missing document type'')
              else if py_upper html_type \<noteq> py_upper sgml_type then Inl (UnsupportedReportInput ''document types disagree'')
              else Inr html_type)
      | _ \<Rightarrow> Inl (UnsupportedReportInput ''requires exactly one HTML row and one SGML block''))"

text \<open>The description of the first row of the name; its type from the first row or block that has one.\<close>

definition description_of :: "document_row list \<Rightarrow> string \<Rightarrow> string option" where
  "description_of html_rows name =
     (case find (\<lambda>r. dw_name r = name) html_rows of None \<Rightarrow> None | Some r \<Rightarrow> dw_description r)"

definition soft_type :: "document_row list \<Rightarrow> sgml_document list \<Rightarrow> string \<Rightarrow> string option" where
  "soft_type html_rows sgml_docs name =
     (case find (\<lambda>r. dw_name r = name \<and> present (dw_document_type r)) html_rows of
        Some r \<Rightarrow> dw_document_type r
      | None \<Rightarrow> (case find (\<lambda>d. sd_filename d = Some name \<and> present (sd_document_type d)) sgml_docs of
          Some d \<Rightarrow> sd_document_type d
        | None \<Rightarrow> None))"

definition attachment_of ::
  "string \<Rightarrow> document_row list \<Rightarrow> sgml_document list \<Rightarrow> (string \<rightharpoonup> string) \<Rightarrow> (string \<rightharpoonup> string) \<Rightarrow> string \<Rightarrow> submitted_attachment option res" where
  "attachment_of accession html_rows sgml_docs artifact_bytes artifact_digests name =
     (let logical = ''accession/'' @ name
      in if artifact_bytes logical = None then Inr None
         else (let description = description_of html_rows name; document_type = soft_type html_rows sgml_docs name;
                   (source_class, role) = classify_source_and_role accession name description document_type
               in if role \<in> {''complete_submission'', ''index_json'', ''index_html'', ''index_headers''} then Inr None
                  else if startswith source_class ''sec_generated'' then Inr None
                  else if source_class \<noteq> ''filer_submitted'' then Inr None
                  else (case artifact_digests logical of
                      None \<Rightarrow> Inl (KeyError logical)
                    | Some digest \<Rightarrow> Inr (Some \<lparr>sa_filename = name, sa_document_type = document_type,
                        sa_description = description, sa_logical_path = logical, sa_content_sha256 = digest,
                        sa_source_class = source_class, sa_artifact_role = role\<rparr>))))"

definition submitted_names :: "document_row list \<Rightarrow> sgml_document list \<Rightarrow> string list" where
  "submitted_names html_rows sgml_docs =
     sorted_names (filter (\<lambda>n. n \<noteq> []) (map dw_name html_rows) @ sgml_names sgml_docs)"

definition build_submitted_attachments ::
  "string \<Rightarrow> document_row list \<Rightarrow> sgml_document list \<Rightarrow> (string \<rightharpoonup> string) \<Rightarrow> (string \<rightharpoonup> string) \<Rightarrow> submitted_attachment list res" where
  "build_submitted_attachments accession html_rows sgml_docs artifact_bytes artifact_digests =
     res_bind (map_res (attachment_of accession html_rows sgml_docs artifact_bytes artifact_digests)
       (submitted_names html_rows sgml_docs)) (\<lambda>as. Inr (somes as))"

section \<open>The report input\<close>

text \<open>One turn of the loop over the attachments: a member of the inline document set, or none.\<close>

definition inline_member ::
  "xml_parser \<Rightarrow> document_row list \<Rightarrow> sgml_document list \<Rightarrow> (string \<rightharpoonup> string) \<Rightarrow> submitted_attachment \<Rightarrow> submitted_attachment option res" where
  "inline_member xml html_rows sgml_docs artifact_bytes a =
     (case artifact_bytes (sa_logical_path a) of
        None \<Rightarrow> Inl (KeyError (sa_logical_path a))
      | Some data \<Rightarrow> res_bind (is_inline_xbrl xml data) (\<lambda>inline.
          if \<not> inline then Inr None
          else res_bind (reconcile_ixds_attachment_types (sa_filename a) html_rows sgml_docs) (\<lambda>doc_type.
            if py_upper doc_type \<in> set EX_FILING_FEES_TYPES then Inr None
            else Inr (Some (a\<lparr>sa_document_type := Some doc_type\<rparr>)))))"

definition instance_candidate :: "xml_parser \<Rightarrow> (string \<rightharpoonup> string) \<Rightarrow> submitted_attachment \<Rightarrow> bool res" where
  "instance_candidate xml artifact_bytes a =
     (if py_upper (text_or_empty (sa_document_type a)) = ''EX-101.INS'' \<and> sa_source_class a = ''filer_submitted'' \<and>
          \<not> contains (py_lower (sa_filename a)) ''htm.xml''
      then (case artifact_bytes (sa_logical_path a) of
              None \<Rightarrow> Inl (KeyError (sa_logical_path a)) | Some data \<Rightarrow> is_xbrl_instance xml data)
      else Inr False)"

definition document_uri :: "string \<Rightarrow> submitted_attachment \<Rightarrow> string res" where
  "document_uri archive a = normalize_uri ALLOWED_SCHEMES (archive @ sa_filename a)"

definition identify_report_input ::
  "xml_parser \<Rightarrow> string \<Rightarrow> string \<Rightarrow> string \<Rightarrow> string \<Rightarrow> document_row list \<Rightarrow> sgml_document list \<Rightarrow>
   (string \<rightharpoonup> string) \<Rightarrow> (string \<rightharpoonup> string) \<Rightarrow> (report_input \<times> quality_issue list) res" where
  "identify_report_input xml cik accession form_type primary_document html_rows sgml_docs artifact_bytes artifact_digests =
     (let issues = reconcile_primary_row form_type primary_document html_rows sgml_docs
      in if list_ex fatal issues then Inl (UnsupportedReportInput ''primary document reconciliation failed'')
         else (case artifact_bytes (''accession/'' @ primary_document) of
             None \<Rightarrow> Inl (UnsupportedReportInput ''primary document missing'')
           | Some primary_bytes \<Rightarrow>
               res_bind (accession_archive_base cik accession) (\<lambda>archive.
               res_bind (is_inline_xbrl xml primary_bytes) (\<lambda>inline.
               res_bind (build_submitted_attachments accession html_rows sgml_docs artifact_bytes artifact_digests) (\<lambda>attachments.
                 if inline then
                   res_bind (map_res (inline_member xml html_rows sgml_docs artifact_bytes) attachments) (\<lambda>members.
                     let inline_docs = somes members
                     in (case find (\<lambda>a. sa_filename a = primary_document) inline_docs of
                           None \<Rightarrow> Inl (UnsupportedReportInput ''primary document not in inline candidate set'')
                         | Some primary \<Rightarrow>
                             (let remaining = sort_key sa_filename (filter (\<lambda>a. sa_filename a \<noteq> primary_document) inline_docs)
                              in res_bind (map_res (document_uri archive) (primary # remaining)) (\<lambda>uris.
                                 res_bind (mk_report_input (IxdsReportInput uris ''default'')) (\<lambda>r. Inr (r, issues))))))
                 else
                   res_bind (filter_res (instance_candidate xml artifact_bytes) attachments) (\<lambda>candidates.
                     case candidates of
                       [a] \<Rightarrow> res_bind (document_uri archive a) (\<lambda>uri.
                                res_bind (mk_report_input (InstanceReportInput [uri])) (\<lambda>r. Inr (r, issues)))
                     | _ \<Rightarrow> Inl (UnsupportedReportInput ''expected exactly one EX-101.INS instance'')))))))"

section \<open>What an identified input is\<close>

lemma somes_map_res:
  assumes "map_res f xs = Inr ys"
    and "\<And>x y. x \<in> set xs \<Longrightarrow> f x = Inr y \<Longrightarrow> (if P x then \<exists>z. y = Some z \<and> Q z \<and> g z = h x else y = None)"
  shows "map g (somes ys) = map h (filter P xs) \<and> list_all Q (somes ys)"
  using assms
proof (induction xs arbitrary: ys)
  case (Cons x xs)
  from Cons.prems(1) obtain y zs where y: "f x = Inr y" "map_res f xs = Inr zs" "ys = y # zs"
    by (auto simp: result_simps)
  have "map g (somes zs) = map h (filter P xs) \<and> list_all Q (somes zs)"
    by (rule Cons.IH [OF y(2)]) (rule Cons.prems(2), simp_all)
  then show ?case using Cons.prems(2) [of x y] y by (cases "P x") auto
qed simp

text \<open>The names the two loops keep.\<close>

definition filer_document ::
  "string \<Rightarrow> document_row list \<Rightarrow> sgml_document list \<Rightarrow> (string \<rightharpoonup> string) \<Rightarrow> string \<Rightarrow> bool" where
  "filer_document accession html_rows sgml_docs artifact_bytes name =
     (artifact_bytes (''accession/'' @ name) \<noteq> None \<and>
      (let (source_class, role) = classify_source_and_role accession name (description_of html_rows name)
             (soft_type html_rows sgml_docs name)
       in role \<notin> {''complete_submission'', ''index_json'', ''index_html'', ''index_headers''} \<and> source_class = ''filer_submitted''))"

definition inline_document ::
  "xml_parser \<Rightarrow> document_row list \<Rightarrow> sgml_document list \<Rightarrow> (string \<rightharpoonup> string) \<Rightarrow> string \<Rightarrow> bool" where
  "inline_document xml html_rows sgml_docs artifact_bytes name =
     (case artifact_bytes (''accession/'' @ name) of None \<Rightarrow> False
      | Some data \<Rightarrow> is_inline_xbrl xml data = Inr True \<and>
          (case reconcile_ixds_attachment_types name html_rows sgml_docs of
             Inl e \<Rightarrow> False | Inr t \<Rightarrow> py_upper t \<notin> set EX_FILING_FEES_TYPES))"

definition instance_document ::
  "xml_parser \<Rightarrow> document_row list \<Rightarrow> sgml_document list \<Rightarrow> (string \<rightharpoonup> string) \<Rightarrow> string \<Rightarrow> bool" where
  "instance_document xml html_rows sgml_docs artifact_bytes name =
     (py_upper (text_or_empty (soft_type html_rows sgml_docs name)) = ''EX-101.INS'' \<and>
      \<not> contains (py_lower name) ''htm.xml'' \<and>
      (case artifact_bytes (''accession/'' @ name) of None \<Rightarrow> False | Some data \<Rightarrow> is_xbrl_instance xml data = Inr True))"

lemma build_submitted_attachments_names:
  assumes "build_submitted_attachments accession html_rows sgml_docs artifact_bytes artifact_digests = Inr as"
  shows "map sa_filename as = filter (filer_document accession html_rows sgml_docs artifact_bytes) (submitted_names html_rows sgml_docs) \<and>
    list_all (\<lambda>a. sa_logical_path a = ''accession/'' @ sa_filename a \<and>
      sa_document_type a = soft_type html_rows sgml_docs (sa_filename a) \<and> sa_source_class a = ''filer_submitted'') as"
proof -
  obtain ys where ys: "map_res (attachment_of accession html_rows sgml_docs artifact_bytes artifact_digests)
      (submitted_names html_rows sgml_docs) = Inr ys" and as: "as = somes ys"
    using assms by (auto simp: build_submitted_attachments_def result_simps)
  have "map sa_filename as = map id (filter (filer_document accession html_rows sgml_docs artifact_bytes)
      (submitted_names html_rows sgml_docs)) \<and> list_all (\<lambda>a. sa_logical_path a = ''accession/'' @ sa_filename a \<and>
      sa_document_type a = soft_type html_rows sgml_docs (sa_filename a) \<and> sa_source_class a = ''filer_submitted'') as"
    unfolding as
    by (rule somes_map_res [OF ys])
      (auto simp: attachment_of_def filer_document_def Let_def startswith_def split: if_splits prod.splits option.splits)
  then show ?thesis by simp
qed

lemma inline_members_names:
  assumes "map_res (inline_member xml html_rows sgml_docs artifact_bytes) as = Inr members"
    and "list_all (\<lambda>a. sa_logical_path a = ''accession/'' @ sa_filename a) as"
  shows "map sa_filename (somes members) =
    filter (inline_document xml html_rows sgml_docs artifact_bytes) (map sa_filename as)"
proof -
  have "map sa_filename (somes members) =
      map sa_filename (filter (\<lambda>a. inline_document xml html_rows sgml_docs artifact_bytes (sa_filename a)) as) \<and>
      list_all (\<lambda>_. True) (somes members)"
    using assms(2)
    by (intro somes_map_res [OF assms(1)])
      (auto simp: inline_member_def inline_document_def list_all_iff result_simps split: if_splits option.splits)
  then show ?thesis by (simp add: filter_map comp_def)
qed

lemma instance_candidates_names:
  assumes "filter_res (instance_candidate xml artifact_bytes) as = Inr candidates"
    and "list_all (\<lambda>a. sa_logical_path a = ''accession/'' @ sa_filename a \<and>
      sa_document_type a = soft_type html_rows sgml_docs (sa_filename a) \<and> sa_source_class a = ''filer_submitted'') as"
  shows "map sa_filename candidates =
    filter (instance_document xml html_rows sgml_docs artifact_bytes) (map sa_filename as)"
proof -
  have "candidates = filter (\<lambda>a. instance_candidate xml artifact_bytes a = Inr True) as"
    using filter_res_Inr [OF assms(1)] by simp
  moreover have "instance_candidate xml artifact_bytes a = Inr True \<longleftrightarrow>
      instance_document xml html_rows sgml_docs artifact_bytes (sa_filename a)" if "a \<in> set as" for a
    using assms(2) that
    by (auto simp: instance_candidate_def instance_document_def list_all_iff split: option.splits)
  ultimately have "candidates = filter (\<lambda>a. instance_document xml html_rows sgml_docs artifact_bytes (sa_filename a)) as"
    by (simp cong: filter_cong)
  then show ?thesis by (simp add: filter_map comp_def)
qed

lemma reconcile_primary_row_fatal: "list_all fatal (reconcile_primary_row form_type primary_document html_rows sgml_docs)"
  by (simp add: reconcile_primary_row_def Let_def primary_conflict_def fatal_def)

lemma identify_report_input_cases:
  assumes "identify_report_input xml cik accession form_type primary html_rows sgml_docs artifact_bytes digests = Inr (r, issues)"
  obtains archive inline as where "\<not> list_ex fatal (reconcile_primary_row form_type primary html_rows sgml_docs)"
    and "issues = reconcile_primary_row form_type primary html_rows sgml_docs"
    and "accession_archive_base cik accession = Inr archive"
    and "build_submitted_attachments accession html_rows sgml_docs artifact_bytes digests = Inr as"
    and "(inline \<and> (\<exists>members p uris. map_res (inline_member xml html_rows sgml_docs artifact_bytes) as = Inr members \<and>
          find (\<lambda>a. sa_filename a = primary) (somes members) = Some p \<and>
          map_res (document_uri archive) (p # sort_key sa_filename (filter (\<lambda>a. sa_filename a \<noteq> primary) (somes members))) = Inr uris \<and>
          mk_report_input (IxdsReportInput uris ''default'') = Inr r)) \<or>
      (\<exists>a uri. filter_res (instance_candidate xml artifact_bytes) as = Inr [a] \<and>
          document_uri archive a = Inr uri \<and> mk_report_input (InstanceReportInput [uri]) = Inr r)"
proof -
  let ?rows = "reconcile_primary_row form_type primary html_rows sgml_docs"
  have ok: "\<not> list_ex fatal ?rows" using assms by (auto simp: identify_report_input_def Let_def split: if_splits)
  then obtain data where data: "artifact_bytes (''accession/'' @ primary) = Some data"
    using assms by (auto simp: identify_report_input_def Let_def split: option.splits)
  obtain archive inline as where first: "accession_archive_base cik accession = Inr archive"
      "is_inline_xbrl xml data = Inr inline"
      "build_submitted_attachments accession html_rows sgml_docs artifact_bytes digests = Inr as"
    using assms ok data by (fastforce simp: identify_report_input_def Let_def result_simps)
  have body: "(if inline then res_bind (map_res (inline_member xml html_rows sgml_docs artifact_bytes) as) (\<lambda>members.
        let inline_docs = somes members
        in (case find (\<lambda>a. sa_filename a = primary) inline_docs of
              None \<Rightarrow> Inl (UnsupportedReportInput ''primary document not in inline candidate set'')
            | Some p \<Rightarrow>
                (let remaining = sort_key sa_filename (filter (\<lambda>a. sa_filename a \<noteq> primary) inline_docs)
                 in res_bind (map_res (document_uri archive) (p # remaining)) (\<lambda>uris.
                    res_bind (mk_report_input (IxdsReportInput uris ''default'')) (\<lambda>r. Inr (r, ?rows))))))
      else res_bind (filter_res (instance_candidate xml artifact_bytes) as) (\<lambda>candidates.
        case candidates of
          [a] \<Rightarrow> res_bind (document_uri archive a) (\<lambda>uri.
                   res_bind (mk_report_input (InstanceReportInput [uri])) (\<lambda>r. Inr (r, ?rows)))
        | _ \<Rightarrow> Inl (UnsupportedReportInput ''expected exactly one EX-101.INS instance''))) = Inr (r, issues)"
    using assms ok data first by (simp add: identify_report_input_def Let_def del: map_res.simps mk_report_input.simps)
  show thesis
  proof (cases inline)
    case True
    with body show thesis
      by (intro that [OF ok _ first(1,3), of True])
        (auto simp: result_simps Let_def simp del: map_res.simps mk_report_input.simps split: option.splits)
  next
    case False
    with body obtain candidates where c: "filter_res (instance_candidate xml artifact_bytes) as = Inr candidates"
      by (auto simp: result_simps simp del: mk_report_input.simps)
    with body False obtain a where a: "candidates = [a]" by (auto split: list.splits)
    with body False c show thesis
      by (intro that [OF ok _ first(1,3), of False])
        (auto simp: result_simps simp del: mk_report_input.simps)
  qed
qed

text \<open>
  Property C18: the report input is determined by the inventories.  When an input is identified, the primary
  document has exactly one row and one block of the form type and there is no issue.  An inline document set
  names the primary document first and then, in the order of their names and once each, exactly the other
  inline documents of the filer whose two types agree and are no filing fees; an instance is the only
  document of the filer that is one.
\<close>

theorem identify_report_input_sound:
  assumes "identify_report_input xml cik accession form_type primary html_rows sgml_docs artifact_bytes digests = Inr (r, issues)"
  defines "names \<equiv> set (filter (filer_document accession html_rows sgml_docs artifact_bytes) (submitted_names html_rows sgml_docs))"
  shows "reconcile_primary_row form_type primary html_rows sgml_docs = [] \<and> issues = [] \<and>
    (\<exists>archive. accession_archive_base cik accession = Inr archive \<and>
      (case r of
         IxdsReportInput uris target \<Rightarrow> target = ''default'' \<and>
           (\<exists>remaining. map_res (\<lambda>n. normalize_uri ALLOWED_SCHEMES (archive @ n)) (primary # remaining) = Inr uris \<and>
              sorted remaining \<and> distinct (primary # remaining) \<and>
              set (primary # remaining) = {n \<in> names. inline_document xml html_rows sgml_docs artifact_bytes n})
       | InstanceReportInput uris \<Rightarrow>
           (\<exists>n uri. normalize_uri ALLOWED_SCHEMES (archive @ n) = Inr uri \<and> uris = [uri] \<and>
              {n \<in> names. instance_document xml html_rows sgml_docs artifact_bytes n} = {n})))"
proof -
  let ?names = "filter (filer_document accession html_rows sgml_docs artifact_bytes) (submitted_names html_rows sgml_docs)"
  have distinct: "distinct ?names" by (simp add: submitted_names_def sorted_names_def)
  have none: "\<not> list_ex fatal (reconcile_primary_row form_type primary html_rows sgml_docs) \<Longrightarrow>
      reconcile_primary_row form_type primary html_rows sgml_docs = []"
    using reconcile_primary_row_fatal [of form_type primary html_rows sgml_docs]
    by (cases "reconcile_primary_row form_type primary html_rows sgml_docs") auto
  from assms(1) obtain archive inline as where
    ok: "\<not> list_ex fatal (reconcile_primary_row form_type primary html_rows sgml_docs)"
      "issues = reconcile_primary_row form_type primary html_rows sgml_docs"
    and archive: "accession_archive_base cik accession = Inr archive"
    and as: "build_submitted_attachments accession html_rows sgml_docs artifact_bytes digests = Inr as"
    and body: "(inline \<and> (\<exists>members p uris. map_res (inline_member xml html_rows sgml_docs artifact_bytes) as = Inr members \<and>
          find (\<lambda>a. sa_filename a = primary) (somes members) = Some p \<and>
          map_res (document_uri archive) (p # sort_key sa_filename (filter (\<lambda>a. sa_filename a \<noteq> primary) (somes members))) = Inr uris \<and>
          mk_report_input (IxdsReportInput uris ''default'') = Inr r)) \<or>
      (\<exists>a uri. filter_res (instance_candidate xml artifact_bytes) as = Inr [a] \<and>
          document_uri archive a = Inr uri \<and> mk_report_input (InstanceReportInput [uri]) = Inr r)"
    by (rule identify_report_input_cases)
  have names: "map sa_filename as = ?names"
    using build_submitted_attachments_names [OF as] by simp
  have head: "reconcile_primary_row form_type primary html_rows sgml_docs = []" "issues = []"
    using none ok by auto
  from body show ?thesis
  proof (elim disjE conjE exE)
    fix members p uris
    assume m: "map_res (inline_member xml html_rows sgml_docs artifact_bytes) as = Inr members"
      and p: "find (\<lambda>a. sa_filename a = primary) (somes members) = Some p"
      and uris: "map_res (document_uri archive) (p # sort_key sa_filename (filter (\<lambda>a. sa_filename a \<noteq> primary) (somes members))) = Inr uris"
      and r: "mk_report_input (IxdsReportInput uris ''default'') = Inr r"
    let ?rem = "map sa_filename (sort_key sa_filename (filter (\<lambda>a. sa_filename a \<noteq> primary) (somes members)))"
    have mem: "map sa_filename (somes members) = filter (inline_document xml html_rows sgml_docs artifact_bytes) ?names"
      using inline_members_names [OF m] build_submitted_attachments_names [OF as] names by (auto simp: list_all_iff)
    have pn: "sa_filename p = primary" and pin: "p \<in> set (somes members)"
      using p by (auto simp: find_Some_iff simp del: set_somes)
    have r': "r = IxdsReportInput uris ''default''" using r by (auto split: if_splits)
    have "map_res (\<lambda>n. normalize_uri ALLOWED_SCHEMES (archive @ n)) (map sa_filename xs) = map_res (document_uri archive) xs" for xs
      by (induction xs) (simp_all add: document_uri_def)
    from this [of "p # sort_key sa_filename (filter (\<lambda>a. sa_filename a \<noteq> primary) (somes members))"]
    have 1: "map_res (\<lambda>n. normalize_uri ALLOWED_SCHEMES (archive @ n)) (primary # ?rem) = Inr uris"
      using uris pn by simp
    have 2: "sorted ?rem" by simp
    have "distinct (map sa_filename (somes members))" unfolding mem by (rule distinct_filter [OF distinct])
    then have "distinct (map sa_filename (filter (\<lambda>a. sa_filename a \<noteq> primary) (somes members)))"
      by (rule distinct_map_filter)
    then have "distinct ?rem" by (metis distinct_sort_key_names)
    moreover have "primary \<notin> set ?rem" by auto
    ultimately have 3: "distinct (primary # ?rem)" by simp
    have "set (primary # ?rem) = set (map sa_filename (somes members))" using pn pin by auto
    then have 4: "set (primary # ?rem) = {n \<in> names. inline_document xml html_rows sgml_docs artifact_bytes n}"
      unfolding mem names_def by auto
    have "\<exists>remaining. map_res (\<lambda>n. normalize_uri ALLOWED_SCHEMES (archive @ n)) (primary # remaining) = Inr uris \<and>
        sorted remaining \<and> distinct (primary # remaining) \<and>
        set (primary # remaining) = {n \<in> names. inline_document xml html_rows sgml_docs artifact_bytes n}"
      by (intro exI [of _ ?rem] conjI 1 2 3 4)
    then show ?thesis unfolding r' using head archive by (simp del: map_res.simps set_simps)
  next
    fix a uri
    assume c: "filter_res (instance_candidate xml artifact_bytes) as = Inr [a]"
      and uri: "document_uri archive a = Inr uri" and r: "mk_report_input (InstanceReportInput [uri]) = Inr r"
    have "[sa_filename a] = filter (instance_document xml html_rows sgml_docs artifact_bytes) ?names"
      using instance_candidates_names [OF c] build_submitted_attachments_names [OF as] names by (auto simp: list_all_iff)
    then have "set (filter (instance_document xml html_rows sgml_docs artifact_bytes) ?names) = {sa_filename a}"
      by (metis list.set(1) list.set(2))
    then have "{n \<in> names. instance_document xml html_rows sgml_docs artifact_bytes n} = {sa_filename a}"
      unfolding names_def by auto
    moreover have "r = InstanceReportInput [uri]" using r by (auto split: if_splits)
    ultimately show ?thesis using head archive uri by (auto simp: document_uri_def)
  qed
qed

definition example_rows :: "document_row list" where
  "example_rows = map (\<lambda>(n, t). \<lparr>dw_sequence = None, dw_description = None, dw_name = n, dw_document_type = Some t, dw_url = []\<rparr>)
     [(''k.htm'', ''10-K''), (''b.htm'', ''EX-99''), (''f.htm'', ''EX-FILING FEES''), (''c.txt'', ''EX-4'')]"

definition example_blocks :: "sgml_document list" where
  "example_blocks = map (\<lambda>r. \<lparr>sd_sequence = None, sd_filename = Some (dw_name r), sd_document_type = dw_document_type r,
     sd_description = None, sd_block_ordinal = 1\<rparr>) example_rows"

definition example_bytes :: "string \<rightharpoonup> string" where
  "example_bytes = map_of [(''accession/k.htm'', ''ix''), (''accession/b.htm'', ''ix''), (''accession/f.htm'', ''ix''), (''accession/c.txt'', ''text'')]"

definition example_xml :: xml_parser where
  "example_xml data = (if data = ''ix'' then Some [Element None ''html'', Element (Some ''http://www.xbrl.org/2013/inlineXBRL'') ''header'']
     else None)"

lemma example_identified:
  "identify_report_input example_xml ''0000000012'' ''0000000012-24-000001'' ''10-K'' ''k.htm'' example_rows example_blocks example_bytes example_bytes =
     Inr (IxdsReportInput [''https://www.sec.gov/Archives/edgar/data/12/000000001224000001/k.htm'',
       ''https://www.sec.gov/Archives/edgar/data/12/000000001224000001/b.htm''] ''default'', [])"
  by code_simp

theorem identify_report_input_sound_witness:
  "\<exists>remaining. sorted remaining \<and> distinct (''k.htm'' # remaining) \<and>
     set (''k.htm'' # remaining) = {n \<in> set (filter (filer_document ''0000000012-24-000001'' example_rows example_blocks example_bytes)
         (submitted_names example_rows example_blocks)). inline_document example_xml example_rows example_blocks example_bytes n}"
  using identify_report_input_sound [OF example_identified] by (auto simp del: set_filter set_simps)

end
