(* ===== verification/Closure.thy ===== *)
theory Closure
  imports Fetch Accession "HOL-Library.AList"
begin

text \<open>
  The online discovery of a filing's documents (\<^verbatim>\<open>xbrl/closure.py\<close>): the conversation with the worker
  process, the handler of its fetch requests and the URI bindings made from its result.

  The worker is an argument: after reading its job it writes its \<open>n\<close>-th line depending on the answers it
  has been sent; its input may break.  The timeout is the number of lines read before the deadline, so the
  conversation always ends.  The fetcher is an argument of the handler, \<^verbatim>\<open>fetch_to_store\<close> of a client in the
  program.  \<open>loads\<close> is \<^verbatim>\<open>json.loads\<close>, \<open>py_str\<close> the text of a JSON value that is no text, \<open>exn_text\<close> the type
  name and the text of an exception.  A document URI of the worker's result that is no text raises here and
  not where it is used.
\<close>

section \<open>The worker\<close>

definition WORKER_PROTOCOL_VERSION :: string where
  "WORKER_PROTOCOL_VERSION = ''arelle-worker-v2''"

record worker =
  wk_line :: "nat \<Rightarrow> json list \<Rightarrow> string option"
  wk_accepts :: "json list \<Rightarrow> bool"
  wk_lines_in_time :: nat

type_synonym 's fetch_handler = "string \<Rightarrow> 's \<Rightarrow> json res \<times> 's"

text \<open>\<^verbatim>\<open>v[key]\<close> and \<^verbatim>\<open>str(v)\<close> of a JSON value.\<close>

definition json_item :: "json \<Rightarrow> string \<Rightarrow> json res" where
  "json_item v k = (case v of
      JObj kvs \<Rightarrow> (case map_of kvs k of None \<Rightarrow> Inl (KeyError k) | Some x \<Rightarrow> Inr x)
    | _ \<Rightarrow> Inl (TypeError ''not subscriptable by text''))"

definition json_str :: "(json \<Rightarrow> string) \<Rightarrow> json \<Rightarrow> string" where
  "json_str py_str v = (case v of JStr s \<Rightarrow> s | _ \<Rightarrow> py_str v)"

definition json_text :: "json \<Rightarrow> string res" where
  "json_text v = (case v of JStr s \<Rightarrow> Inr s | _ \<Rightarrow> Inl (TypeError ''text''))"

text \<open>The loop over the lines of the worker: \<open>sent\<close> are the answers written so far.\<close>

fun worker_loop ::
  "(string \<Rightarrow> json option) \<Rightarrow> (json \<Rightarrow> string) \<Rightarrow> worker \<Rightarrow> 's fetch_handler \<Rightarrow> nat \<Rightarrow> nat \<Rightarrow> json list \<Rightarrow> 's \<Rightarrow> json res \<times> 's" where
  "worker_loop loads py_str wk handler 0 n sent st = (Inl (WorkerProtocolError ''worker exceeded the configured timeout''), st)"
| "worker_loop loads py_str wk handler (Suc left) n sent st =
     (case wk_line wk n sent of
        None \<Rightarrow> (Inl (WorkerProtocolError ''worker exited without a result''), st)
      | Some line \<Rightarrow>
          if py_strip line = [] then worker_loop loads py_str wk handler left (Suc n) sent st
          else (case loads line of
              None \<Rightarrow> (Inl (ValueError ''invalid JSON''), st)
            | Some message \<Rightarrow>
                (case json_get message ''type'' of
                   Inl e \<Rightarrow> (Inl e, st)
                 | Inr kind \<Rightarrow>
                     if kind = Some (JStr ''fetch'')
                     then (case json_item message ''uri'' of
                         Inl e \<Rightarrow> (Inl e, st)
                       | Inr uri \<Rightarrow>
                           (case handler (json_str py_str uri) st of
                              (Inl e, st) \<Rightarrow> (Inl e, st)
                            | (Inr response, st) \<Rightarrow>
                                if wk_accepts wk (sent @ [response])
                                then worker_loop loads py_str wk handler left (Suc n) (sent @ [response]) st
                                else (Inl (OSError ''broken pipe''), st)))
                     else if kind = Some (JStr ''result'') then (Inr message, st)
                     else (Inl (WorkerProtocolError ''unexpected worker message type''), st))))"

definition with_version :: "json \<Rightarrow> json" where
  "with_version job = (case job of
      JObj kvs \<Rightarrow> JObj (kvs @ [(''protocol_version'', JStr WORKER_PROTOCOL_VERSION)]) | v \<Rightarrow> v)"

text \<open>\<open>launch\<close> is the process started on the job.\<close>

definition run_worker_process ::
  "(string \<Rightarrow> json option) \<Rightarrow> (json \<Rightarrow> string) \<Rightarrow> (json \<Rightarrow> worker) \<Rightarrow> json \<Rightarrow> 's fetch_handler \<Rightarrow> 's \<Rightarrow> json res \<times> 's" where
  "run_worker_process loads py_str launch job handler st =
     (let wk = launch (with_version job)
      in if \<not> wk_accepts wk [] then (Inl (OSError ''broken pipe''), st)
         else (case worker_loop loads py_str wk handler (wk_lines_in_time wk) 0 [] st of
             (Inl e, st) \<Rightarrow> (Inl e, st)
           | (Inr result, st) \<Rightarrow>
               (case json_get result ''protocol_version'' of
                  Inl e \<Rightarrow> (Inl e, st)
                | Inr version \<Rightarrow>
                    if version \<noteq> Some (JStr WORKER_PROTOCOL_VERSION)
                    then (Inl (WorkerProtocolError ''worker result protocol_version mismatch''), st)
                    else (Inr result, st))))"

section \<open>Documents\<close>

record loaded_document =
  ld_document_uri :: string
  ld_content_sha256 :: string
  ld_local_path :: "json option"

record resolved_document =
  rd_document_uri :: string
  rd_content_sha256 :: string
  rd_in_model :: bool

record external_document =
  xd_document_uri :: string
  xd_artifact_path :: string
  xd_content_sha256 :: string
  xd_byte_size :: nat

definition loaded_from_dict :: "(json \<Rightarrow> string) \<Rightarrow> json \<Rightarrow> loaded_document res" where
  "loaded_from_dict py_str data =
     res_bind (json_item data ''document_uri'') (\<lambda>uri. res_bind (json_text uri) (\<lambda>uri.
     res_bind (json_item data ''content_sha256'') (\<lambda>digest.
     res_bind (json_get data ''local_path'') (\<lambda>path.
       Inr \<lparr>ld_document_uri = uri, ld_content_sha256 = py_lower (json_str py_str digest), ld_local_path = path\<rparr>))))"

definition resolved_from_dict :: "(json \<Rightarrow> string) \<Rightarrow> json \<Rightarrow> resolved_document res" where
  "resolved_from_dict py_str data =
     res_bind (json_item data ''document_uri'') (\<lambda>uri. res_bind (json_text uri) (\<lambda>uri.
     res_bind (json_item data ''content_sha256'') (\<lambda>digest.
     res_bind (json_get_default data ''in_model'' (JBool False)) (\<lambda>in_model.
       Inr \<lparr>rd_document_uri = uri, rd_content_sha256 = py_lower (json_str py_str digest), rd_in_model = \<not> falsy in_model\<rparr>))))"

text \<open>\<^verbatim>\<open>PurePosixPath(path).name\<close>: the last part that is not empty or a dot.\<close>

definition posix_name :: "string \<Rightarrow> string" where
  "posix_name path =
     (let parts = filter (\<lambda>p. p \<noteq> [] \<and> p \<noteq> ''.'') (split_on CHR ''/'' path) in if parts = [] then [] else last parts)"

definition external_artifact_path :: "(string \<Rightarrow> string) \<Rightarrow> string \<Rightarrow> string res" where
  "external_artifact_path sha document_uri =
     res_bind (urlsplit document_uri) (\<lambda>split.
       let name = posix_name (u_path split);
           basename = sanitize_basename (if name = [] then ''dependency'' else name)
       in Inr (''external/'' @ sha256_of_uri sha document_uri @ ''/'' @ basename))"

section \<open>The handler of fetch requests\<close>

fun is_resource_limit :: "exn \<Rightarrow> bool" where
  "is_resource_limit MaxFileBytesExceeded = True"
| "is_resource_limit MaxExternalDependencyBytesExceeded = True"
| "is_resource_limit MaxRedirectsExceeded = True"
| "is_resource_limit MaxBundleBytesExceeded = True"
| "is_resource_limit _ = False"

fun is_destination_forbidden :: "exn \<Rightarrow> bool" where
  "is_destination_forbidden (DestinationForbidden _) = True"
| "is_destination_forbidden _ = False"

record 's closure_state =
  cs_external :: "(string \<times> external_document) list"
  cs_remaining :: int
  cs_safeguard :: "exn option"
  cs_blocked :: bool
  cs_diagnostics :: "string list"
  cs_fetch :: 's

type_synonym ('a, 's) fetch = "string \<Rightarrow> nat \<Rightarrow> 's \<Rightarrow> ('a \<times> stored_object) res \<times> 's"

definition fetch_error :: "string \<Rightarrow> string \<Rightarrow> json" where
  "fetch_error uri message = JObj [(''type'', JStr ''fetch_error''), (''uri'', JStr uri), (''error'', JStr message)]"

definition fetch_answer :: "string \<Rightarrow> string \<Rightarrow> string list \<Rightarrow> string \<Rightarrow> json" where
  "fetch_answer data_root uri path digest =
     JObj [(''type'', JStr ''fetch_result''), (''uri'', JStr uri),
       (''path'', JStr (data_root @ concat (map (\<lambda>p. CHR ''/'' # p) path))), (''sha256'', JStr digest)]"

definition named_text :: "(exn \<Rightarrow> string \<times> string) \<Rightarrow> exn \<Rightarrow> string" where
  "named_text exn_text e = fst (exn_text e) @ '': '' @ snd (exn_text e)"

definition diagnose :: "string \<Rightarrow> 's closure_state \<Rightarrow> 's closure_state" where
  "diagnose message st = st\<lparr>cs_diagnostics := cs_diagnostics st @ [message]\<rparr>"

definition block_with :: "exn \<Rightarrow> 's closure_state \<Rightarrow> 's closure_state" where
  "block_with e st = st\<lparr>cs_safeguard := Some e, cs_blocked := True\<rparr>"

text \<open>The \<^verbatim>\<open>except\<close> clauses around the fetch; \<open>stream_limit\<close> is the limit it was given.\<close>

definition fetch_failed ::
  "(exn \<Rightarrow> string \<times> string) \<Rightarrow> int \<Rightarrow> int \<Rightarrow> string \<Rightarrow> string \<Rightarrow> exn \<Rightarrow> 's closure_state \<Rightarrow> json \<times> 's closure_state" where
  "fetch_failed exn_text max_file_bytes stream_limit uri canonical e st =
     (if e = SizeLimitExceeded
      then (let e' = (if stream_limit < max_file_bytes then MaxBundleBytesExceeded else MaxExternalDependencyBytesExceeded)
            in (fetch_error uri (named_text exn_text e'), diagnose (named_text exn_text e') (block_with e' st)))
      else if is_destination_forbidden e \<or> is_resource_limit e
      then (fetch_error uri (named_text exn_text e), diagnose (named_text exn_text e) (block_with e st))
      else (fetch_error uri (named_text exn_text e),
            diagnose (''fetch failed for '' @ canonical @ '': '' @ named_text exn_text e) st))"

definition stored_answer :: "string \<Rightarrow> string \<Rightarrow> string \<Rightarrow> json res" where
  "stored_answer data_root uri digest = res_bind (path_for digest) (\<lambda>path. Inr (fetch_answer data_root uri path digest))"

definition handle_fetch ::
  "(string \<Rightarrow> string) \<Rightarrow> (exn \<Rightarrow> string \<times> string) \<Rightarrow> ('a, 's) fetch \<Rightarrow> string \<Rightarrow> (string \<times> string \<times> string) list \<Rightarrow> int \<Rightarrow>
   's closure_state fetch_handler" where
  "handle_fetch sha exn_text fetch data_root accession max_file_bytes uri st =
     (if cs_blocked st then (Inr (fetch_error uri ''fetch blocked after prior fatal safeguard''), st)
      else (case normalize_uri ALLOWED_SCHEMES uri of
          Inl e \<Rightarrow>
            if is_value_error e
            then (Inr (fetch_error uri (snd (exn_text e))),
                  diagnose (''worker requested a non-canonical URI '' @ uri @ '': '' @ snd (exn_text e)) st)
            else (Inl e, st)
        | Inr canonical \<Rightarrow>
            (case map_of accession canonical of
               Some (digest, _) \<Rightarrow> (stored_answer data_root uri digest, st)
             | None \<Rightarrow>
                 (case map_of (cs_external st) canonical of
                    Some already \<Rightarrow> (stored_answer data_root uri (xd_content_sha256 already), st)
                  | None \<Rightarrow>
                      (let stream_limit = min max_file_bytes (cs_remaining st)
                       in if stream_limit \<le> 0
                          then (Inr (fetch_error uri (snd (exn_text MaxBundleBytesExceeded))),
                                diagnose (snd (exn_text MaxBundleBytesExceeded)) (block_with MaxBundleBytesExceeded st))
                          else (case fetch canonical (nat stream_limit) (cs_fetch st) of
                              (Inl e, s) \<Rightarrow>
                                (let (response, st) = fetch_failed exn_text max_file_bytes stream_limit uri canonical e (st\<lparr>cs_fetch := s\<rparr>)
                                 in (Inr response, st))
                            | (Inr (_, obj), s) \<Rightarrow>
                                (let st = st\<lparr>cs_fetch := s\<rparr>
                                 in if int (so_byte_size obj) > cs_remaining st
                                    then (Inr (fetch_error uri (snd (exn_text MaxBundleBytesExceeded))),
                                          block_with MaxBundleBytesExceeded st)
                                    else (let st = st\<lparr>cs_remaining := cs_remaining st - int (so_byte_size obj)\<rparr>
                                          in case external_artifact_path sha canonical of
                                               Inl e \<Rightarrow> (Inl e, st)
                                             | Inr path \<Rightarrow>
                                                 (Inr (fetch_answer data_root uri (so_storage_path obj) (so_sha256 obj)),
                                                  st\<lparr>cs_external := cs_external st @
                                                    [(canonical, \<lparr>xd_document_uri = canonical, xd_artifact_path = path,
                                                      xd_content_sha256 = so_sha256 obj, xd_byte_size = so_byte_size obj\<rparr>)]\<rparr>)))))))))"

section \<open>The discovery\<close>

record closure_discovery =
  cd_report_input :: report_input
  cd_load_completed :: bool
  cd_loaded_documents :: "loaded_document list"
  cd_resolved_documents :: "resolved_document list"
  cd_uri_bindings :: "uri_binding list"
  cd_external_documents :: "external_document list"
  cd_unresolved_documents :: "json list"
  cd_network_attempts :: "json list"
  cd_diagnostics :: "json list"
  cd_errors :: "json list"
  cd_fatal_safeguard :: "exn option"

definition canonical_accession_map :: "(string \<times> string \<times> string) list \<Rightarrow> (string \<times> string \<times> string) list res" where
  "canonical_accession_map entries =
     res_bind (map_res (\<lambda>(uri, digest, logical_path).
         res_bind (normalize_uri ALLOWED_SCHEMES uri) (\<lambda>canonical. Inr (canonical, py_lower digest, logical_path))) entries)
       (\<lambda>kvs. Inr (fold (\<lambda>(k, v) m. AList.update k v m) kvs []))"

definition online_job :: "report_input \<Rightarrow> string \<Rightarrow> string option \<Rightarrow> (string \<times> string \<times> string) list \<Rightarrow> json" where
  "online_job report_input data_root user_agent accession =
     JObj [(''mode'', JStr ''online''), (''report_input'', JObj (report_input_to_dict report_input)),
       (''object_store_root'', JStr data_root),
       (''user_agent'', case user_agent of None \<Rightarrow> JNull | Some u \<Rightarrow> JStr u),
       (''uri_bindings'', JArr (map (\<lambda>(uri, digest, logical_path).
          JObj [(''document_uri'', JStr uri), (''artifact_path'', JStr logical_path), (''content_sha256'', JStr digest),
            (''replay_aliases'', JArr [])]) (sort_key fst accession)))]"

text \<open>The list \<^verbatim>\<open>result.get(key, [])\<close>.\<close>

definition result_list :: "json \<Rightarrow> string \<Rightarrow> json list res" where
  "result_list result k = res_bind (json_get_default result k (JArr [])) json_iter"

text \<open>Resolved documents first, the last one of a URI; a loaded document only fills a gap.\<close>

definition binding_inputs :: "resolved_document list \<Rightarrow> loaded_document list \<Rightarrow> string \<rightharpoonup> string" where
  "binding_inputs resolved loaded =
     fold (\<lambda>d m. if m (ld_document_uri d) = None then m(ld_document_uri d \<mapsto> ld_content_sha256 d) else m) loaded
       (fold (\<lambda>d m. m(rd_document_uri d \<mapsto> rd_content_sha256 d)) resolved (\<lambda>_. None))"

definition document_names :: "resolved_document list \<Rightarrow> loaded_document list \<Rightarrow> string list" where
  "document_names resolved loaded = sorted_names (map rd_document_uri resolved @ map ld_document_uri loaded)"

text \<open>One turn of the loop over the bound documents: the diagnostics it adds and the binding.\<close>

definition bind_document ::
  "(string \<Rightarrow> string) \<Rightarrow> (string \<times> string \<times> string) list \<Rightarrow> (string \<times> external_document) list \<Rightarrow> (string \<rightharpoonup> string) \<Rightarrow>
   string \<Rightarrow> (string list \<times> uri_binding) res" where
  "bind_document sha accession external inputs document_uri =
     (let content_sha256 = the (inputs document_uri)
      in res_bind (case map_of accession document_uri of
             Some (digest, logical_path) \<Rightarrow>
               Inr (if digest \<noteq> content_sha256 then [''accession bytes differ from loaded bytes for '' @ document_uri] else [], logical_path)
           | None \<Rightarrow> (case map_of external document_uri of
               None \<Rightarrow> res_bind (external_artifact_path sha document_uri) (\<lambda>path.
                 Inr ([''loaded document was never captured by the parent fetcher: '' @ document_uri], path))
             | Some captured \<Rightarrow> Inr ([], xd_artifact_path captured))) (\<lambda>(notes, path).
         res_bind (mk_uri_binding \<lparr>ub_document_uri = document_uri, ub_artifact_path = path,
           ub_content_sha256 = content_sha256, ub_replay_aliases = []\<rparr>) (\<lambda>b. Inr (notes, b))))"

definition read_discovery ::
  "(string \<Rightarrow> string) \<Rightarrow> (json \<Rightarrow> string) \<Rightarrow> report_input \<Rightarrow> (string \<times> string \<times> string) list \<Rightarrow> json \<Rightarrow> 's closure_state \<Rightarrow>
   closure_discovery res" where
  "read_discovery sha py_str report_input accession result st =
     res_bind (result_list result ''loaded_source_documents'') (\<lambda>ls. res_bind (map_res (loaded_from_dict py_str) ls) (\<lambda>loaded.
     res_bind (result_list result ''resolved_documents'') (\<lambda>rs. res_bind (map_res (resolved_from_dict py_str) rs) (\<lambda>resolved.
     res_bind (result_list result ''diagnostics'') (\<lambda>diagnostics.
     res_bind (map_res (bind_document sha accession (cs_external st) (binding_inputs resolved loaded))
       (document_names resolved loaded)) (\<lambda>bound.
     res_bind (json_get result ''load_completed'') (\<lambda>completed.
     res_bind (result_list result ''unresolved_documents'') (\<lambda>unresolved.
     res_bind (result_list result ''network_attempts'') (\<lambda>attempts.
     res_bind (result_list result ''errors'') (\<lambda>errors.
       Inr \<lparr>cd_report_input = report_input,
            cd_load_completed = (case completed of None \<Rightarrow> False | Some v \<Rightarrow> \<not> falsy v),
            cd_loaded_documents = loaded, cd_resolved_documents = resolved, cd_uri_bindings = map snd bound,
            cd_external_documents = map snd (sort_key fst (cs_external st)),
            cd_unresolved_documents = unresolved, cd_network_attempts = attempts,
            cd_diagnostics = map JStr (cs_diagnostics st) @ diagnostics @ map JStr (concat (map fst bound)),
            cd_errors = errors, cd_fatal_safeguard = cs_safeguard st\<rparr>))))))))))"

definition run_online_closure ::
  "(string \<Rightarrow> string) \<Rightarrow> (string \<Rightarrow> json option) \<Rightarrow> (json \<Rightarrow> string) \<Rightarrow> (exn \<Rightarrow> string \<times> string) \<Rightarrow> (json \<Rightarrow> worker) \<Rightarrow>
   ('a, 's) fetch \<Rightarrow> string \<Rightarrow> report_input \<Rightarrow> (string \<times> string \<times> string) list \<Rightarrow> int \<Rightarrow> int \<Rightarrow> string option \<Rightarrow> 's \<Rightarrow>
   closure_discovery res \<times> 's" where
  "run_online_closure sha loads py_str exn_text launch fetch data_root report_input accession_uri_map
     max_file_bytes max_new_payload_bytes user_agent s =
     (case canonical_accession_map accession_uri_map of
        Inl e \<Rightarrow> (Inl e, s)
      | Inr accession \<Rightarrow>
          (case run_worker_process loads py_str launch (online_job report_input data_root user_agent accession)
             (handle_fetch sha exn_text fetch data_root accession max_file_bytes)
             \<lparr>cs_external = [], cs_remaining = max_new_payload_bytes, cs_safeguard = None, cs_blocked = False,
              cs_diagnostics = [], cs_fetch = s\<rparr> of
             (Inl e, st) \<Rightarrow> (Inl e, cs_fetch st)
           | (Inr result, st) \<Rightarrow> (read_discovery sha py_str report_input accession result st, cs_fetch st)))"

end
