(* ===== verification/Closure_Props.thy ===== *)
theory Closure_Props
  imports Closure Fetch_Props "HOL-Library.Multiset"
begin

text \<open>
  What the discovery of documents guarantees whatever the worker asks for and whatever the network answers.
  The locale states what the handler relies on in a fetcher; the HTTP client provides it.
\<close>

section \<open>A fetch keeps the stored objects\<close>

definition store_grows :: "fetch_state \<Rightarrow> fetch_state \<Rightarrow> bool" where
  "store_grows st st' = (fs_store st \<subseteq>\<^sub>m fs_store st')"

lemma store_grows_refl [simp]: "store_grows st st"
  by (simp add: store_grows_def)

lemma store_grows_trans: "store_grows a b \<Longrightarrow> store_grows b c \<Longrightarrow> store_grows a c"
  unfolding store_grows_def by (rule map_le_trans)

lemma same_store_grows: "fs_store st = fs_store st' \<Longrightarrow> store_grows st st'"
  by (simp add: store_grows_def)

lemma put_response_grows: "put_response sha max_bytes rs st = Inr (obj, st') \<Longrightarrow> st \<subseteq>\<^sub>m st'"
  by (auto simp: put_response_def put_stream_def res_bind_Inr_iff Let_def map_le_def split: if_splits option.splits)

lemma handle_response_store:
  assumes "handle_response sha f pinned attempt max_bytes current rs h st = (r, st')"
  shows "store_grows st st'"
  using assms put_response_grows [of sha max_bytes rs "fs_store st"]
  unfolding handle_response_def store_grows_def add_hop_def emit_def Let_def
  by (auto split: if_splits option.splits sum.splits prod.splits)

lemma attempt_once_store:
  assumes "attempt_once sha f nw max_bytes current attempt st = (r, st')"
  shows "store_grows st st'"
proof -
  obtain r1 h st1 where b: "attempt_body sha f nw attempt max_bytes current st = (r1, h, st1)" by (metis surj_pair)
  have "store_grows st st1"
    using b handle_response_store
    unfolding attempt_body_def Let_def
    by (fastforce simp: store_grows_def split: sum.splits option.splits prod.splits)
  moreover have "fs_store st' = fs_store st1"
    using assms b by (auto simp: attempt_once_def Let_def add_hop_def fail_with_def emit_def split: sum.splits if_splits)
  ultimately show ?thesis by (simp add: store_grows_def)
qed

lemma retry_loop_store:
  "retry_loop sha f nw max_bytes current attempts st = (r, st') \<Longrightarrow> store_grows st st'"
proof (induction attempts arbitrary: st)
  case (Cons attempt attempts)
  obtain r1 st1 where a: "attempt_once sha f nw max_bytes current attempt st = (r1, st1)" by (metis surj_pair)
  have "r = r1 \<and> st' = st1 \<or> retry_loop sha f nw max_bytes current attempts st1 = (r, st')"
    using Cons.prems a by (auto split: sum.splits attempt_end.splits)
  then show ?case using Cons.IH attempt_once_store [OF a] store_grows_trans by blast
qed (auto simp: Let_def store_grows_def fail_with_def emit_def)

lemma fetch_loop_store:
  "fetch_loop sha f nw max_bytes current st = (r, st') \<Longrightarrow> store_grows st st'"
proof (induction sha f nw max_bytes current st rule: fetch_loop.induct)
  case (1 sha f nw max_bytes current st)
  obtain r1 st1 where a: "retry_loop sha f nw max_bytes current [0..<Suc (max_retries f)] st = (r1, st1)" by (metis surj_pair)
  note g = retry_loop_store [OF a]
  show ?case
  proof (cases "\<exists>u. r1 = Inr (Redirect u)")
    case True
    then obtain u where u: "r1 = Inr (Redirect u)" by blast
    have "fetch_loop sha f nw max_bytes u st1 = (r, st')"
      using "1.prems" a u by (simp add: fetch_loop.simps [of sha f nw max_bytes current st] del: upt_Suc)
    then have "store_grows st1 st'" by (rule "1.IH" [OF a [symmetric] u refl])
    then show ?thesis using g store_grows_trans by blast
  next
    case False
    then have "st' = st1"
      using "1.prems" a by (auto simp: fetch_loop.simps [of sha f nw max_bytes current st] simp del: upt_Suc split: sum.splits attempt_end.splits)
    then show ?thesis using g by simp
  qed
qed

lemma fetch_store_grows:
  assumes "fetch_to_store sha f nw url max_bytes st = (r, st')"
  shows "fs_store st \<subseteq>\<^sub>m fs_store st'"
proof -
  obtain r1 st1 where l: "fetch_loop sha f nw max_bytes url (st\<lparr>fs_trace := start_trace url, fs_emitted := False\<rparr>) = (r1, st1)"
    by (metis surj_pair)
  then have "fs_store st \<subseteq>\<^sub>m fs_store st1" using fetch_loop_store [OF l] by (simp add: store_grows_def)
  moreover have "fs_store st' = fs_store st1"
    using assms l by (auto simp: fetch_to_store_def report_unhandled_def emit_def Let_def split: sum.splits if_splits)
  ultimately show ?thesis by simp
qed

section \<open>The conversation with the worker\<close>

lemma worker_loop_invariant:
  assumes "worker_loop loads py_str wk handler left n sent st = (r, st')" and "P st"
    and "\<And>uri s r s'. P s \<Longrightarrow> handler uri s = (r, s') \<Longrightarrow> P s'"
  shows "P st'"
  using assms(1,2)
proof (induction left arbitrary: n sent st)
  case (Suc left)
  have step: "P s'" if "handler uri st = (x, s')" for uri x s' using that Suc.prems(2) assms(3) by blast
  show ?case using Suc.prems Suc.IH step
    by (auto split: option.splits sum.splits if_splits prod.splits)
qed simp

lemma run_worker_invariant:
  assumes "run_worker_process loads py_str launch job handler st = (r, st')" and "P st"
    and "\<And>uri s r s'. P s \<Longrightarrow> handler uri s = (r, s') \<Longrightarrow> P s'"
  shows "P st'"
proof -
  let ?wk = "launch (with_version job)"
  obtain r1 st1 where l: "worker_loop loads py_str ?wk handler (wk_lines_in_time ?wk) 0 [] st = (r1, st1)" by (metis surj_pair)
  have "P st1" by (rule worker_loop_invariant [where P = P, OF l assms(2)]) (rule assms(3))
  then show ?thesis using assms(1,2) l by (auto simp: run_worker_process_def Let_def split: sum.splits if_splits)
qed

section \<open>The handler over any fetcher\<close>

definition captured_ok :: "('s \<Rightarrow> string \<Rightarrow> string option) \<Rightarrow> int \<Rightarrow> (string \<times> string \<times> string) list \<Rightarrow> 's \<Rightarrow> string \<times> external_document \<Rightarrow> bool" where
  "captured_ok stored max_file_bytes accession s e =
     (xd_document_uri (snd e) = fst e \<and> map_of accession (fst e) = None \<and> int (xd_byte_size (snd e)) \<le> max_file_bytes \<and>
      (\<exists>data. stored s (xd_content_sha256 (snd e)) = Some data \<and> length data = xd_byte_size (snd e)))"

definition captured_size :: "(string \<times> external_document) list \<Rightarrow> int" where
  "captured_size es = sum_list (map (\<lambda>e. int (xd_byte_size (snd e))) es)"

definition closure_ok ::
  "('s \<Rightarrow> string \<Rightarrow> string option) \<Rightarrow> int \<Rightarrow> int \<Rightarrow> (string \<times> string \<times> string) list \<Rightarrow> 's closure_state \<Rightarrow> bool" where
  "closure_ok stored max_file_bytes allowance accession st =
     (distinct (map fst (cs_external st)) \<and> list_all (captured_ok stored max_file_bytes accession (cs_fetch st)) (cs_external st) \<and>
      captured_size (cs_external st) + cs_remaining st \<le> allowance \<and> (0 \<le> cs_remaining st \<or> cs_external st = []))"

locale bounded_fetcher =
  fixes fetch :: "string \<Rightarrow> nat \<Rightarrow> 's \<Rightarrow> ('a \<times> stored_object) res \<times> 's" and stored :: "'s \<Rightarrow> string \<Rightarrow> string option"
  assumes fetch_stored: "fetch uri n s = (Inr (x, obj), s') \<Longrightarrow>
      so_byte_size obj \<le> n \<and> (\<exists>data. stored s' (so_sha256 obj) = Some data \<and> length data = so_byte_size obj)"
    and fetch_keeps: "fetch uri n s = (r, s') \<Longrightarrow> stored s digest = Some data \<Longrightarrow> stored s' digest = Some data"
begin

lemma captured_keeps:
  "fetch uri n s = (r, s') \<Longrightarrow> list_all (captured_ok stored m accession s) es \<Longrightarrow> list_all (captured_ok stored m accession s') es"
  unfolding list_all_iff captured_ok_def by (intro ballI) (drule (1) bspec, elim conjE exE, intro conjI exI, assumption+, rule fetch_keeps, assumption+)

lemma closure_ok_steps [simp]:
  "closure_ok stored m a acc (diagnose message st) = closure_ok stored m a acc st" "closure_ok stored m a acc (block_with e st) = closure_ok stored m a acc st"
  by (simp_all add: closure_ok_def diagnose_def block_with_def)

lemma closure_ok_fetched:
  "closure_ok stored m a acc st \<Longrightarrow> fetch uri n (cs_fetch st) = (r, s') \<Longrightarrow> closure_ok stored m a acc (st\<lparr>cs_fetch := s'\<rparr>)"
  using captured_keeps by (auto simp: closure_ok_def)

lemma fetch_failed_ok:
  "fetch_failed exn_text m limit uri canonical e st = (response, st') \<Longrightarrow> closure_ok stored m a acc st \<Longrightarrow> closure_ok stored m a acc st'"
  by (auto simp: fetch_failed_def Let_def split: if_splits)

lemma handle_fetch_ok:
  assumes "closure_ok stored m a acc st" and "handle_fetch sha exn_text fetch data_root acc m uri st = (r, st')"
  shows "closure_ok stored m a acc st'"
proof (cases "cs_blocked st \<or> (\<exists>e. normalize_uri ALLOWED_SCHEMES uri = Inl e)")
  case True
  then show ?thesis using assms by (auto simp: handle_fetch_def split: if_splits sum.splits)
next
  case False
  then obtain c where c: "normalize_uri ALLOWED_SCHEMES uri = Inr c" and free: "\<not> cs_blocked st"
    by (cases "normalize_uri ALLOWED_SCHEMES uri") auto
  let ?limit = "min m (cs_remaining st)"
  show ?thesis
  proof (cases "map_of acc c \<noteq> None \<or> map_of (cs_external st) c \<noteq> None \<or> ?limit \<le> 0")
    case True
    then show ?thesis using assms free c by (auto simp: handle_fetch_def Let_def split: option.splits if_splits)
  next
    case False
    then have new: "map_of acc c = None" "map_of (cs_external st) c = None" "\<not> ?limit \<le> 0" by blast+
    obtain fr s' where f: "fetch c (nat ?limit) (cs_fetch st) = (fr, s')" by (metis surj_pair)
    note ok = closure_ok_fetched [OF assms(1) f]
    show ?thesis
    proof (cases fr)
      case (Inl e)
      obtain response st1 where "fetch_failed exn_text m ?limit uri c e (st\<lparr>cs_fetch := s'\<rparr>) = (response, st1)" by (metis surj_pair)
      then show ?thesis using assms(2) free c new f Inl fetch_failed_ok ok by (simp add: handle_fetch_def Let_def) 
    next
      case (Inr x)
      obtain y obj where x: "x = (y, obj)" by (cases x)
      have size: "int (so_byte_size obj) \<le> ?limit" "\<exists>data. stored s' (so_sha256 obj) = Some data \<and> length data = so_byte_size obj"
        using fetch_stored [of c "nat ?limit" "cs_fetch st" y obj s'] f Inr x new(3) by auto
      have fits: "int (so_byte_size obj) \<le> cs_remaining st" "int (so_byte_size obj) \<le> m" using size(1) by auto
      let ?st = "st\<lparr>cs_fetch := s', cs_remaining := cs_remaining st - int (so_byte_size obj)\<rparr>"
      have spent: "closure_ok stored m a acc ?st" using ok fits by (simp add: closure_ok_def)
      show ?thesis
      proof (cases "external_artifact_path sha c")
        case (Inl e)
        then have "st' = ?st" using assms(2) free c new f \<open>fr = Inr x\<close> x fits by (simp add: handle_fetch_def Let_def)
        then show ?thesis using spent by simp
      next
        case (Inr path)
        let ?doc = "(c, \<lparr>xd_document_uri = c, xd_artifact_path = path, xd_content_sha256 = so_sha256 obj, xd_byte_size = so_byte_size obj\<rparr>)"
        have st': "st' = ?st\<lparr>cs_external := cs_external st @ [?doc]\<rparr>"
          using assms(2) free c new f \<open>fr = Inr x\<close> x fits Inr by (simp add: handle_fetch_def Let_def)
        have "c \<notin> set (map fst (cs_external st))" using new(2) by (simp add: map_of_eq_None_iff)
        moreover have "captured_ok stored m acc s' ?doc" using new(1) size(2) fits(2) by (simp add: captured_ok_def)
        ultimately show ?thesis using ok fits unfolding st' closure_ok_def captured_size_def by auto
      qed
    qed
  qed
qed

end

text \<open>After a safeguard has fired nothing is fetched any more.\<close>

lemma blocked_handler:
  "cs_blocked st \<Longrightarrow> handle_fetch sha exn_text fetch data_root acc m uri st =
     (Inr (fetch_error uri ''fetch blocked after prior fatal safeguard''), st)"
  by (simp add: handle_fetch_def)

section \<open>The discovery with the HTTP client\<close>

definition stored_bytes :: "(string \<Rightarrow> string) \<Rightarrow> fetch_state \<Rightarrow> string \<Rightarrow> string option" where
  "stored_bytes sha st digest = (case open_bytes sha (fs_store st) digest of Inl e \<Rightarrow> None | Inr data \<Rightarrow> Some data)"

lemma stored_bytes_grow:
  "fs_store st \<subseteq>\<^sub>m fs_store st' \<Longrightarrow> stored_bytes sha st digest = Some data \<Longrightarrow> stored_bytes sha st' digest = Some data"
  by (auto simp: stored_bytes_def open_bytes_def path_for_def map_le_def dom_def split: sum.splits option.splits if_splits)

lemma stored_bytes_iff: "stored_bytes sha st digest = Some data \<longleftrightarrow> open_bytes sha (fs_store st) digest = Inr data"
  by (simp add: stored_bytes_def split: sum.splits)

interpretation http: bounded_fetcher "fetch_to_store sha f nw" "stored_bytes sha" for sha f nw
proof
  fix uri n s x obj s'
  assume "fetch_to_store sha f nw uri n s = (Inr (x, obj), s')"
  from fetch_ends(6) [OF this refl] show "so_byte_size obj \<le> n \<and>
      (\<exists>data. stored_bytes sha s' (so_sha256 obj) = Some data \<and> length data = so_byte_size obj)"
    unfolding delivered_def stored_bytes_iff by auto
next
  fix uri n s r s' digest data
  assume "fetch_to_store sha f nw uri n s = (r, s')" and "stored_bytes sha s digest = Some data"
  then show "stored_bytes sha s' digest = Some data" using fetch_store_grows stored_bytes_grow by blast
qed

text \<open>Whatever a fetch keeps, the discovery keeps.\<close>

lemma handle_fetch_keeps:
  assumes "handle_fetch sha exn_text fetch data_root acc m uri st = (r, st')" and "Q (cs_fetch st)"
    and "\<And>uri n s r s'. Q s \<Longrightarrow> fetch uri n s = (r, s') \<Longrightarrow> Q s'"
  shows "Q (cs_fetch st')"
proof -
  have "cs_fetch st' = cs_fetch st \<or> (\<exists>c n fr. fetch c n (cs_fetch st) = (fr, cs_fetch st'))"
    using assms(1) unfolding handle_fetch_def Let_def fetch_failed_def diagnose_def block_with_def
    by (auto split: if_splits sum.splits option.splits prod.splits)
  then show ?thesis using assms(2,3) by metis
qed

lemma run_online_closure_keeps:
  assumes "run_online_closure sha loads py_str exn_text launch fetch data_root ri amap m a ua s = (r, s')" and "Q s"
    and "\<And>uri n s r s'. Q s \<Longrightarrow> fetch uri n s = (r, s') \<Longrightarrow> Q s'"
  shows "Q s'"
proof (cases "canonical_accession_map amap")
  case (Inr accession)
  let ?handler = "handle_fetch sha exn_text fetch data_root accession m" and ?job = "online_job ri data_root ua accession"
  let ?start = "\<lparr>cs_external = [], cs_remaining = a, cs_safeguard = None, cs_blocked = False, cs_diagnostics = [], cs_fetch = s\<rparr>"
  obtain r1 st1 where w: "run_worker_process loads py_str launch ?job ?handler ?start = (r1, st1)" by (metis surj_pair)
  have "Q (cs_fetch st1)"
  proof (rule run_worker_invariant [where P = "\<lambda>st. Q (cs_fetch st)", OF w])
    show "Q (cs_fetch ?start)" using assms(2) by simp
  next
    fix uri st r st'
    assume "Q (cs_fetch st)" and "?handler uri st = (r, st')"
    then show "Q (cs_fetch st')" using handle_fetch_keeps [where Q = Q] assms(3) by blast
  qed
  moreover have "s' = cs_fetch st1" using assms(1) w Inr by (simp add: run_online_closure_def split: sum.splits)
  ultimately show ?thesis by simp
qed (use assms in \<open>simp add: run_online_closure_def\<close>)

lemma run_online_closure_captured:
  assumes "run_online_closure sha loads py_str exn_text launch (fetch_to_store sha f nw) data_root ri amap m a ua s = (Inr d, s')"
  obtains accession st where "canonical_accession_map amap = Inr accession"
    and "closure_ok (stored_bytes sha) m a accession st" and "cs_fetch st = s'"
    and "cd_external_documents d = map snd (sort_key fst (cs_external st))"
proof -
  obtain accession where acc: "canonical_accession_map amap = Inr accession"
    using assms by (cases "canonical_accession_map amap") (auto simp: run_online_closure_def)
  let ?handler = "handle_fetch sha exn_text (fetch_to_store sha f nw) data_root accession m"
  let ?start = "\<lparr>cs_external = [], cs_remaining = a, cs_safeguard = None, cs_blocked = False, cs_diagnostics = [], cs_fetch = s\<rparr>"
  obtain r1 st1 where w: "run_worker_process loads py_str launch (online_job ri data_root ua accession) ?handler ?start = (r1, st1)"
    by (metis surj_pair)
  have "closure_ok (stored_bytes sha) m a accession st1"
  proof (rule run_worker_invariant [where P = "closure_ok (stored_bytes sha) m a accession", OF w])
    show "closure_ok (stored_bytes sha) m a accession ?start" by (simp add: closure_ok_def captured_size_def)
  next
    fix uri st r st'
    assume "closure_ok (stored_bytes sha) m a accession st" and "?handler uri st = (r, st')"
    then show "closure_ok (stored_bytes sha) m a accession st'" by (rule http.handle_fetch_ok)
  qed
  moreover have "cs_fetch st1 = s' \<and> cd_external_documents d = map snd (sort_key fst (cs_external st1))"
    using assms w acc by (auto simp: run_online_closure_def read_discovery_def res_bind_Inr_iff split: sum.splits)
  ultimately show thesis using that acc by blast
qed

lemma sum_list_sort_key: "sum_list (map g (sort_key f xs)) = (sum_list (map g xs) :: int)"
proof -
  have "mset (map g (sort_key f xs)) = mset (map g xs)" by simp
  then show ?thesis by (metis sum_mset_sum_list)
qed

text \<open>
  Property C8: the discovery stays within its allowance.  Whatever the worker requests and whatever the
  network answers, the captured documents are different, each has at most the allowed size and is stored
  with the recorded number of bytes, and together they are no larger than the remaining payload allowance.
\<close>

theorem closure_within_allowance:
  "case run_online_closure sha loads py_str exn_text launch (fetch_to_store sha f nw) data_root ri amap max_file_bytes allowance ua s of
     (Inl e, s') \<Rightarrow> True
   | (Inr d, s') \<Rightarrow>
       distinct (map xd_document_uri (cd_external_documents d)) \<and>
       list_all (\<lambda>x. int (xd_byte_size x) \<le> max_file_bytes \<and>
         (\<exists>data. open_bytes sha (fs_store s') (xd_content_sha256 x) = Inr data \<and> length data = xd_byte_size x))
         (cd_external_documents d) \<and>
       sum_list (map (\<lambda>x. int (xd_byte_size x)) (cd_external_documents d)) \<le> max 0 allowance"
proof -
  obtain r s' where run: "run_online_closure sha loads py_str exn_text launch (fetch_to_store sha f nw) data_root ri amap
      max_file_bytes allowance ua s = (r, s')" by (metis surj_pair)
  show ?thesis
  proof (cases r)
    case (Inr d)
    obtain accession st where ok: "closure_ok (stored_bytes sha) max_file_bytes allowance accession st" "cs_fetch st = s'"
        and d: "cd_external_documents d = map snd (sort_key fst (cs_external st))"
      by (rule run_online_closure_captured [OF run [unfolded Inr]])
    let ?es = "cs_external st" and ?sorted = "sort_key fst (cs_external st)"
    have each: "captured_ok (stored_bytes sha) max_file_bytes accession s' e" if "e \<in> set ?es" for e
      using ok that by (simp add: closure_ok_def list_all_iff)
    have "map xd_document_uri (cd_external_documents d) = map fst ?sorted"
      using each by (simp add: d captured_ok_def)
    moreover have "distinct (map fst ?sorted)"
      using ok(1) distinct_sort_key_names [of fst ?es] by (simp add: closure_ok_def)
    ultimately have "distinct (map xd_document_uri (cd_external_documents d))" by (simp only:)
    moreover have "sum_list (map (\<lambda>x. int (xd_byte_size x)) (cd_external_documents d)) = captured_size ?es"
      by (simp add: d captured_size_def comp_def sum_list_sort_key)
    moreover have "captured_size ?es \<le> max 0 allowance"
      using ok(1) by (auto simp: closure_ok_def captured_size_def)
    ultimately show ?thesis using each run Inr by (auto simp: d list_all_iff captured_ok_def stored_bytes_iff)
  qed (simp add: run)
qed

end
