(* ===== verification/Submissions.thy ===== *)
theory Submissions
  imports Closure_Props
begin

text \<open>
  The lookup of a filing in SEC's submission lists (\<^verbatim>\<open>sec/submissions.py\<close>).

  \<open>loads\<close> is \<^verbatim>\<open>json.loads\<close> on bytes, none where it raises a \<^verbatim>\<open>ValueError\<close>; \<open>py_str\<close> is the text of a JSON value
  that is no text.  \<^verbatim>\<open>date.fromisoformat\<close> is modelled in its basic, extended and week forms;
  \<^verbatim>\<open>datetime.fromisoformat\<close>, whose grammar differs between the Python versions the project allows, is an
  argument.  An operation that fetches is a function of the fetch state; \<open>and_then\<close> composes two of them.
\<close>

section \<open>Steps that change a state\<close>

definition and_then :: "('s \<Rightarrow> 'a res \<times> 's) \<Rightarrow> ('a \<Rightarrow> 's \<Rightarrow> 'b res \<times> 's) \<Rightarrow> 's \<Rightarrow> 'b res \<times> 's" where
  "and_then m k s = (case m s of (Inl e, s) \<Rightarrow> (Inl e, s) | (Inr x, s) \<Rightarrow> k x s)"

definition pure_step :: "'a res \<Rightarrow> 's \<Rightarrow> 'a res \<times> 's" where
  "pure_step r s = (r, s)"

lemma and_then_Inr:
  "and_then m k s = (Inr y, s') \<longleftrightarrow> (\<exists>x t. m s = (Inr x, t) \<and> k x t = (Inr y, s'))"
  by (auto simp: and_then_def split: prod.splits sum.splits)

lemma and_then_keeps:
  assumes "and_then m k s = (r, s')" and "Q s"
    and "\<And>r t. m s = (r, t) \<Longrightarrow> Q s \<Longrightarrow> Q t" and "\<And>x t r t'. k x t = (r, t') \<Longrightarrow> Q t \<Longrightarrow> Q t'"
  shows "Q s'"
  using assms by (auto simp: and_then_def split: prod.splits sum.splits)

lemma pure_step_simps [simp]: "pure_step r s = (r', s') \<longleftrightarrow> r = r' \<and> s = s'"
  by (simp add: pure_step_def)

section \<open>Dates\<close>

definition days_before_year :: "nat \<Rightarrow> int" where
  "days_before_year y = (let p = int y - 1 in p * 365 + p div 4 - p div 100 + p div 400)"

text \<open>The date of the day with number \<open>n\<close> of a year; an earlier or later day is in the year before or after.\<close>

fun date_in_months :: "nat \<Rightarrow> nat list \<Rightarrow> int \<Rightarrow> date" where
  "date_in_months y [] n = Date (y + 1) 1 (nat n)"
| "date_in_months y (m # ms) n =
     (if n \<le> int (days_in_month y m) then Date y m (nat n) else date_in_months y ms (n - int (days_in_month y m)))"

definition date_of_day :: "nat \<Rightarrow> int \<Rightarrow> date" where
  "date_of_day y n = (if n \<le> 0 then Date (y - 1) 12 (nat (31 + n)) else date_in_months y [1, 2, 3, 4, 5, 6, 7, 8, 9, 10, 11, 12] n)"

text \<open>The number in its year of the Monday of the first ISO week; Monday is 0.\<close>

definition week1_monday :: "nat \<Rightarrow> int" where
  "week1_monday y =
     (let first = days_before_year y + 1; weekday = (first + 6) mod 7; monday = 1 - weekday
      in if weekday > 3 then monday + 7 else monday)"

definition weeks_in_year :: "nat \<Rightarrow> nat" where
  "weeks_in_year y =
     (let first = (days_before_year y + 1 + 6) mod 7 in if first = 3 \<or> (first = 2 \<and> is_leap y) then 53 else 52)"

definition iso_week_date :: "nat \<Rightarrow> nat \<Rightarrow> nat \<Rightarrow> date option" where
  "iso_week_date y w d =
     (if y < 1 \<or> w < 1 \<or> w > weeks_in_year y \<or> d < 1 \<or> d > 7 then None
      else (let r = date_of_day y (week1_monday y + (int w - 1) * 7 + (int d - 1))
            in if valid_date r then Some r else None))"

definition digits_at :: "nat \<Rightarrow> nat \<Rightarrow> string \<Rightarrow> nat option" where
  "digits_at i n s =
     (let t = take n (drop i s) in if length t = n \<and> list_all is_digit t then Some (read_digits t) else None)"

definition checked_date :: "nat \<Rightarrow> nat \<Rightarrow> nat \<Rightarrow> date option" where
  "checked_date y m d = (if valid_date (Date y m d) then Some (Date y m d) else None)"

definition date_fromisoformat :: "string \<Rightarrow> date option" where
  "date_fromisoformat s =
     (if length s \<notin> {7, 8, 10} then None
      else (case digits_at 0 4 s of
          None \<Rightarrow> None
        | Some y \<Rightarrow>
            (let dashed = (s ! 4 = CHR ''-''); i = (if dashed then 5 else 4)
             in if s ! i = CHR ''W''
                then (case digits_at (i + 1) 2 s of
                    None \<Rightarrow> None
                  | Some w \<Rightarrow>
                      (let j = i + 3
                       in if length s = j then iso_week_date y w 1
                          else if dashed \<and> s ! j \<noteq> CHR ''-'' then None
                          else (let k = (if dashed then j + 1 else j)
                                in if length s \<noteq> k + 1 then None
                                   else (case digits_at k 1 s of None \<Rightarrow> None | Some d \<Rightarrow> iso_week_date y w d))))
                else (case digits_at i 2 s of
                    None \<Rightarrow> None
                  | Some m \<Rightarrow>
                      if dashed \<and> (length s \<noteq> 10 \<or> s ! 7 \<noteq> CHR ''-'') then None
                      else (let k = (if dashed then 8 else 6)
                            in if length s \<noteq> k + 2 then None
                               else (case digits_at k 2 s of None \<Rightarrow> None | Some d \<Rightarrow> checked_date y m d))))))"


lemma date_forms:
  "date_fromisoformat ''2024-02-29'' = Some (Date 2024 2 29)" "date_fromisoformat ''20240229'' = Some (Date 2024 2 29)"
  "date_fromisoformat ''2024-W01-1'' = Some (Date 2024 1 1)" "date_fromisoformat ''2021W011'' = Some (Date 2021 1 4)"
  "date_fromisoformat ''2020-W53-7'' = Some (Date 2021 1 3)" "date_fromisoformat ''2019-W01'' = Some (Date 2018 12 31)"
  "date_fromisoformat ''2023-02-29'' = None" "date_fromisoformat ''2021-W53-1'' = None" "date_fromisoformat ''2024-1-1'' = None"
  by (simp_all add: date_fromisoformat_def digits_at_def checked_date_def iso_week_date_def weeks_in_year_def week1_monday_def
      days_before_year_def date_of_day_def valid_date_def days_in_month_def is_leap_def is_digit_def read_digits_def digit_val_def
      Let_def)

section \<open>The lookup\<close>

record accession_metadata =
  am_cik :: string
  am_accession :: string
  am_form_type :: string
  am_filing_date :: date
  am_accepted_at :: "datetime option"
  am_report_period_end :: "date option"
  am_primary_document :: string
  am_is_inline_xbrl :: "json option"
  am_is_xbrl :: "json option"
  am_submissions_content_sha256 :: string
  am_discovery :: json

type_synonym datetime_reader = "string \<Rightarrow> datetime option"

text \<open>A missing or empty value is none; fourteen digits that are no date raise, other text that is none does not.\<close>

definition parse_acceptance :: "datetime_reader \<Rightarrow> string option \<Rightarrow> datetime option res" where
  "parse_acceptance fromisoformat v =
     (case v of
        None \<Rightarrow> Inr None
      | Some s \<Rightarrow>
          if s = [] then Inr None
          else if length s = 14 \<and> list_all is_digit s
          then (let n = (\<lambda>i. read_digits (take 2 (drop i s))); d = Date (read_digits (take 4 s)) (n 4) (n 6)
                in if valid_date d \<and> n 8 \<le> 23 \<and> n 10 \<le> 59 \<and> n 12 \<le> 59
                   then Inr (Some \<lparr>dt_date = d, dt_us = ((n 8 * 60 + n 10) * 60 + n 12) * 1000000, dt_offset = Some 0\<rparr>)
                   else Inl (ValueError ''datetime field out of range''))
          else (case fromisoformat (concat (map (\<lambda>c. if c = CHR ''Z'' then ''+00:00'' else [c]) s)) of
              None \<Rightarrow> Inr None
            | Some t \<Rightarrow> Inr (Some (if dt_offset t = None then t\<lparr>dt_offset := Some 0\<rparr> else t))))"

definition parse_date :: "json option \<Rightarrow> date option res" where
  "parse_date v =
     (case v of
        None \<Rightarrow> Inr None
      | Some x \<Rightarrow>
          if falsy x then Inr None
          else (case x of
              JStr s \<Rightarrow> (case date_fromisoformat (take 10 s) of None \<Rightarrow> Inl (ValueError ''Invalid isoformat string'') | Some d \<Rightarrow> Inr (Some d))
            | _ \<Rightarrow> Inl (TypeError ''date'')))"

text \<open>\<^verbatim>\<open>values[idx] if idx < len(values) else None\<close>.\<close>

definition json_at :: "json \<Rightarrow> nat \<Rightarrow> json option res" where
  "json_at v i =
     (case v of
        JArr xs \<Rightarrow> Inr (if i < length xs \<and> xs ! i \<noteq> JNull then Some (xs ! i) else None)
      | JStr s \<Rightarrow> Inr (if i < length s then Some (JStr [s ! i]) else None)
      | JObj kvs \<Rightarrow> if i < length kvs then Inl (KeyError ''0'') else Inr None
      | _ \<Rightarrow> Inl (TypeError ''no len''))"

record filing_record =
  fl_form :: "json option"
  fl_filing_date :: "json option"
  fl_acceptance_datetime :: "json option"
  fl_report_period :: "json option"
  fl_primary_document :: "json option"
  fl_is_inline_xbrl :: "json option"
  fl_is_xbrl :: "json option"

definition column_at :: "json \<Rightarrow> nat \<Rightarrow> string \<Rightarrow> json option res" where
  "column_at block i key = res_bind (json_get_default block key (JArr [])) (\<lambda>vs. json_at vs i)"

definition record_from_arrays :: "json \<Rightarrow> nat \<Rightarrow> filing_record res" where
  "record_from_arrays block i =
     res_bind (column_at block i ''form'') (\<lambda>form. res_bind (column_at block i ''filingDate'') (\<lambda>filing_date.
     res_bind (column_at block i ''acceptanceDateTime'') (\<lambda>acceptance. res_bind (column_at block i ''reportDate'') (\<lambda>period.
     res_bind (column_at block i ''primaryDocument'') (\<lambda>primary. res_bind (column_at block i ''isInlineXBRL'') (\<lambda>inline.
     res_bind (column_at block i ''isXBRL'') (\<lambda>xbrl.
       Inr \<lparr>fl_form = form, fl_filing_date = filing_date, fl_acceptance_datetime = acceptance, fl_report_period = period,
            fl_primary_document = primary, fl_is_inline_xbrl = inline, fl_is_xbrl = xbrl\<rparr>)))))))"

definition first_index :: "('a \<Rightarrow> bool) \<Rightarrow> 'a list \<Rightarrow> nat option" where
  "first_index P xs = find (\<lambda>i. P (xs ! i)) [0..<length xs]"

text \<open>\<^verbatim>\<open>accessions.index(accession)\<close>; on text it is the position of a substring.\<close>

definition json_index :: "json \<Rightarrow> string \<Rightarrow> nat option res" where
  "json_index v accession =
     (case v of
        JArr xs \<Rightarrow> Inr (first_index (\<lambda>x. x = JStr accession) xs)
      | JStr s \<Rightarrow> Inr (find (\<lambda>i. startswith (drop i s) accession) [0..<Suc (length s)])
      | _ \<Rightarrow> Inl (AttributeError ''index''))"

definition or_default :: "json option \<Rightarrow> json \<Rightarrow> json" where
  "or_default v d = (case v of None \<Rightarrow> d | Some x \<Rightarrow> if falsy x then d else x)"

definition find_in_filing_block :: "json \<Rightarrow> string \<Rightarrow> filing_record option res" where
  "find_in_filing_block block accession =
     res_bind (json_get block ''accessionNumber'') (\<lambda>v.
     res_bind (json_index (or_default v (JArr [])) accession) (\<lambda>idx.
       case idx of None \<Rightarrow> Inr None | Some i \<Rightarrow> res_bind (record_from_arrays block i) (\<lambda>r. Inr (Some r))))"

text \<open>A fetched JSON document and its digest.\<close>

definition fetch_json ::
  "(string \<Rightarrow> string) \<Rightarrow> fetcher \<Rightarrow> network \<Rightarrow> (string \<Rightarrow> json option) \<Rightarrow> nat \<Rightarrow> string \<Rightarrow> fetch_state \<Rightarrow> (json \<times> string) res \<times> fetch_state" where
  "fetch_json sha f nw loads max_bytes url =
     and_then (fetch_to_store sha f nw url max_bytes) (\<lambda>(_, obj) st.
       (res_bind (open_bytes sha (fs_store st) (so_sha256 obj)) (\<lambda>data.
          case loads data of None \<Rightarrow> Inl (ValueError ''invalid JSON'') | Some v \<Rightarrow> Inr (v, so_sha256 obj)), st))"

text \<open>A historical shard is a filing block or holds one.\<close>

definition find_in_shard :: "json \<Rightarrow> string \<Rightarrow> filing_record option res" where
  "find_in_shard hist accession =
     res_bind (find_in_filing_block hist accession) (\<lambda>r.
       case r of
         Some _ \<Rightarrow> Inr r
       | None \<Rightarrow> (case hist of
             JObj kvs \<Rightarrow>
               if map_of kvs ''filings'' = None then Inr None
               else res_bind (json_get hist ''filings'') (\<lambda>filings.
                    res_bind (json_get (or_default filings (JObj [])) ''recent'') (\<lambda>recent.
                      find_in_filing_block (or_default recent (JObj [])) accession))
           | _ \<Rightarrow> Inr None))"

fun search_shards ::
  "(string \<Rightarrow> string) \<Rightarrow> fetcher \<Rightarrow> network \<Rightarrow> (string \<Rightarrow> json option) \<Rightarrow> (json \<Rightarrow> string) \<Rightarrow> nat \<Rightarrow> string \<Rightarrow> json list \<Rightarrow> fetch_state \<Rightarrow>
   (filing_record \<times> string) option res \<times> fetch_state" where
  "search_shards sha f nw loads py_str max_bytes accession [] st = (Inr None, st)"
| "search_shards sha f nw loads py_str max_bytes accession (meta # metas) st =
     (case json_get meta ''name'' of
        Inl e \<Rightarrow> (Inl e, st)
      | Inr name \<Rightarrow>
          if falsy (or_default name JNull) then search_shards sha f nw loads py_str max_bytes accession metas st
          else and_then (fetch_json sha f nw loads max_bytes
                 (''https://data.sec.gov/submissions/'' @ (case name of Some (JStr s) \<Rightarrow> s | Some v \<Rightarrow> py_str v | None \<Rightarrow> [])))
               (\<lambda>(hist, digest) st.
                  case find_in_shard hist accession of
                    Inl e \<Rightarrow> (Inl e, st)
                  | Inr (Some r) \<Rightarrow> (Inr (Some (r, digest)), st)
                  | Inr None \<Rightarrow> search_shards sha f nw loads py_str max_bytes accession metas st) st)"

definition json_or_text :: "(json \<Rightarrow> string) \<Rightarrow> json option \<Rightarrow> string" where
  "json_or_text py_str v = (case v of None \<Rightarrow> [] | Some x \<Rightarrow> if falsy x then [] else (case x of JStr s \<Rightarrow> s | _ \<Rightarrow> py_str x))"

definition nullable_json :: "json option \<Rightarrow> json" where
  "nullable_json v = (case v of None \<Rightarrow> JNull | Some x \<Rightarrow> x)"

definition metadata_of ::
  "(json \<Rightarrow> string) \<Rightarrow> datetime_reader \<Rightarrow> string \<Rightarrow> string \<Rightarrow> filing_record \<Rightarrow> string \<Rightarrow> accession_metadata res" where
  "metadata_of py_str fromisoformat cik accession r digest =
     (let form_type = json_or_text py_str (fl_form r); primary = json_or_text py_str (fl_primary_document r)
      in if form_type \<notin> set SUPPORTED_FORMS then Inl (ValueError ''unsupported form_type'')
         else if primary = [] then Inl (ValueError ''missing primaryDocument'')
         else res_bind (parse_date (fl_filing_date r)) (\<lambda>filing_date.
           case filing_date of
             None \<Rightarrow> Inl (ValueError ''missing filingDate'')
           | Some filed \<Rightarrow>
               res_bind (validate_cik cik) (\<lambda>cik.
               res_bind (parse_acceptance fromisoformat (map_option (\<lambda>v. case v of JStr s \<Rightarrow> s | _ \<Rightarrow> py_str v) (fl_acceptance_datetime r))) (\<lambda>accepted.
               res_bind (parse_date (fl_report_period r)) (\<lambda>period.
                 Inr \<lparr>am_cik = cik, am_accession = accession, am_form_type = form_type, am_filing_date = filed,
                   am_accepted_at = accepted, am_report_period_end = period, am_primary_document = primary,
                   am_is_inline_xbrl = fl_is_inline_xbrl r, am_is_xbrl = fl_is_xbrl r,
                   am_submissions_content_sha256 = digest,
                   am_discovery = JObj [(''cik'', JStr cik), (''accession'', JStr accession), (''form_type'', JStr form_type),
                     (''filing_date'', JStr (iso_date filed)), (''accepted_at'', jopt isoformat accepted),
                     (''report_period_end'', jopt iso_date period), (''primary_document'', JStr primary),
                     (''is_inline_xbrl'', nullable_json (fl_is_inline_xbrl r)), (''is_xbrl'', nullable_json (fl_is_xbrl r))]\<rparr>)))))"

definition start_lookup :: "string \<Rightarrow> (string \<times> string) res" where
  "start_lookup accession =
     res_bind (validate_accession accession) (\<lambda>accession.
     res_bind (accession_to_cik accession) (\<lambda>cik. res_bind (submissions_url cik) (\<lambda>url. Inr (cik, url))))"

text \<open>The filings of the first document and the row among the recent ones.\<close>

definition recent_row :: "json \<Rightarrow> string \<Rightarrow> (json \<times> filing_record option) res" where
  "recent_row listing accession =
     res_bind (json_get listing ''filings'') (\<lambda>filings.
       let filings = or_default filings (JObj [])
       in res_bind (json_get filings ''recent'') (\<lambda>recent.
          res_bind (find_in_filing_block (or_default recent (JObj [])) accession) (\<lambda>r. Inr (filings, r))))"

definition historical_row ::
  "(string \<Rightarrow> string) \<Rightarrow> fetcher \<Rightarrow> network \<Rightarrow> (string \<Rightarrow> json option) \<Rightarrow> (json \<Rightarrow> string) \<Rightarrow> string \<Rightarrow> nat \<Rightarrow> json \<Rightarrow>
   fetch_state \<Rightarrow> (filing_record \<times> string) option res \<times> fetch_state" where
  "historical_row sha f nw loads py_str accession max_bytes filings =
     and_then (pure_step (res_bind (json_get filings ''files'') (\<lambda>files. json_iter (or_default files (JArr [])))))
       (search_shards sha f nw loads py_str max_bytes accession)"

definition lookup_accession_metadata ::
  "(string \<Rightarrow> string) \<Rightarrow> fetcher \<Rightarrow> network \<Rightarrow> (string \<Rightarrow> json option) \<Rightarrow> (json \<Rightarrow> string) \<Rightarrow> datetime_reader \<Rightarrow> string \<Rightarrow> nat \<Rightarrow>
   fetch_state \<Rightarrow> (accession_metadata \<times> quality_issue list) res \<times> fetch_state" where
  "lookup_accession_metadata sha f nw loads py_str fromisoformat accession max_bytes =
     and_then (pure_step (start_lookup accession)) (\<lambda>(cik, url).
     and_then (fetch_json sha f nw loads max_bytes url) (\<lambda>(listing, digest).
     and_then (pure_step (recent_row listing accession)) (\<lambda>(filings, row).
     and_then (case row of
         Some r \<Rightarrow> pure_step (Inr (Some (r, digest)))
       | None \<Rightarrow> historical_row sha f nw loads py_str accession max_bytes filings) (\<lambda>found.
       case found of
         None \<Rightarrow> pure_step (Inl (LookupError ''accession not found in SEC submissions''))
       | Some (r, digest) \<Rightarrow>
           pure_step (res_bind (metadata_of py_str fromisoformat cik accession r digest) (\<lambda>m. Inr (m, [])))))))"

section \<open>What SEC lists\<close>

text \<open>
  The specification of a listed filing, on the JSON document itself: a block is an object with one column
  for each property of the filings, and row \<open>i\<close> of a block is the filing with the \<open>i\<close>-th accession number.
  A column that is text counts as a list of characters, as it does for Python.
\<close>

definition cell :: "json \<Rightarrow> nat \<Rightarrow> string \<Rightarrow> json" where
  "cell block i key = (case block of
      JObj kvs \<Rightarrow> (case map_of kvs key of
          Some (JArr xs) \<Rightarrow> if i < length xs then xs ! i else JNull
        | Some (JStr s) \<Rightarrow> if i < length s then JStr [s ! i] else JNull
        | _ \<Rightarrow> JNull)
    | _ \<Rightarrow> JNull)"

text \<open>Row \<open>i\<close> is the first one of the accession.\<close>

definition lists_at :: "json \<Rightarrow> nat \<Rightarrow> string \<Rightarrow> bool" where
  "lists_at block i accession = (case block of
      JObj kvs \<Rightarrow> (case map_of kvs ''accessionNumber'' of
          Some (JArr xs) \<Rightarrow> i < length xs \<and> xs ! i = JStr accession \<and> JStr accession \<notin> set (take i xs)
        | Some (JStr s) \<Rightarrow> startswith (drop i s) accession \<and> (\<forall>j<i. \<not> startswith (drop j s) accession)
        | _ \<Rightarrow> False)
    | _ \<Rightarrow> False)"

text \<open>A document is a block or holds one as its recent filings.\<close>

definition holds_block :: "json \<Rightarrow> json \<Rightarrow> bool" where
  "holds_block document block = (block = document \<or>
     (\<exists>kvs filings. document = JObj kvs \<and> map_of kvs ''filings'' = Some (JObj filings) \<and> map_of filings ''recent'' = Some block))"

text \<open>The metadata are those of row \<open>i\<close>.\<close>

definition states_date :: "json \<Rightarrow> date \<Rightarrow> bool" where
  "states_date v d = (case v of JStr s \<Rightarrow> s \<noteq> [] \<and> date_fromisoformat (take 10 s) = Some d | _ \<Rightarrow> False)"

definition row_metadata :: "(json \<Rightarrow> string) \<Rightarrow> datetime_reader \<Rightarrow> json \<Rightarrow> nat \<Rightarrow> accession_metadata \<Rightarrow> bool" where
  "row_metadata py_str fromisoformat block i m =
     (let text = (\<lambda>v. case v of JStr s \<Rightarrow> s | _ \<Rightarrow> py_str v); value_of = (\<lambda>v. if v = JNull then None else Some v)
      in am_form_type m = text (cell block i ''form'') \<and>
         am_primary_document m = text (cell block i ''primaryDocument'') \<and>
         states_date (cell block i ''filingDate'') (am_filing_date m) \<and>
         (case am_report_period_end m of
            None \<Rightarrow> falsy (cell block i ''reportDate'')
          | Some d \<Rightarrow> states_date (cell block i ''reportDate'') d) \<and>
         parse_acceptance fromisoformat (map_option text (value_of (cell block i ''acceptanceDateTime''))) = Inr (am_accepted_at m) \<and>
         am_is_inline_xbrl m = value_of (cell block i ''isInlineXBRL'') \<and>
         am_is_xbrl m = value_of (cell block i ''isXBRL''))"

text \<open>The discovery document repeats the metadata.\<close>

definition discovery_of :: "accession_metadata \<Rightarrow> json" where
  "discovery_of m = JObj [(''cik'', JStr (am_cik m)), (''accession'', JStr (am_accession m)), (''form_type'', JStr (am_form_type m)),
     (''filing_date'', JStr (iso_date (am_filing_date m))), (''accepted_at'', jopt isoformat (am_accepted_at m)),
     (''report_period_end'', jopt iso_date (am_report_period_end m)), (''primary_document'', JStr (am_primary_document m)),
     (''is_inline_xbrl'', nullable_json (am_is_inline_xbrl m)), (''is_xbrl'', nullable_json (am_is_xbrl m))]"

lemma column_cell: "column_at block i key = Inr x \<Longrightarrow> x = (if cell block i key = JNull then None else Some (cell block i key))"
  by (auto simp: column_at_def json_get_default_def json_at_def cell_def res_bind_Inr_iff split: json.splits option.splits if_splits)

lemma find_upt_first: "find P [0..<n] = Some i \<longleftrightarrow> i < n \<and> P i \<and> (\<forall>j<i. \<not> P j)"
  by (auto simp: find_Some_iff)

lemma index_lists:
  assumes "json_get block ''accessionNumber'' = Inr column"
    and "json_index (or_default column (JArr [])) accession = Inr (Some i)"
  shows "lists_at block i accession"
proof -
  obtain kvs where b: "block = JObj kvs" and c: "column = (case map_of kvs ''accessionNumber'' of None \<Rightarrow> None | Some x \<Rightarrow> if x = JNull then None else Some x)"
    using assms(1) by (auto simp: json_get_def split: json.splits)
  then obtain v where v: "map_of kvs ''accessionNumber'' = Some v" "json_index v accession = Inr (Some i)"
    using assms(2) by (auto simp: or_default_def json_index_def first_index_def split: option.splits if_splits)
  show ?thesis
  proof (cases v)
    case (JArr xs)
    then show ?thesis using v b by (auto simp: lists_at_def json_index_def first_index_def find_upt_first in_set_conv_nth)
  next
    case (JStr s)
    then show ?thesis using v b by (auto simp: lists_at_def json_index_def find_upt_first simp del: upt_Suc)
  qed (use v in \<open>simp_all add: json_index_def\<close>)
qed

lemma block_of_lists:
  assumes "lists_at block i accession"
    and "block = document \<or> (\<exists>filings recent. json_get document ''filings'' = Inr filings \<and>
      json_get (or_default filings (JObj [])) ''recent'' = Inr recent \<and> block = or_default recent (JObj []))"
  shows "holds_block document block"
proof (cases "block = document")
  case False
  then obtain filings recent where f: "json_get document ''filings'' = Inr filings"
      "json_get (or_default filings (JObj [])) ''recent'' = Inr recent" "block = or_default recent (JObj [])"
    using assms(2) by blast
  have "block \<noteq> JObj []" using assms(1) by (auto simp: lists_at_def)
  then have r: "recent = Some block" using f(3) by (auto simp: or_default_def split: option.splits if_splits)
  obtain kvs where k: "document = JObj kvs" using f(1) by (auto simp: json_get_def split: json.splits)
  obtain fs where fs: "or_default filings (JObj []) = JObj fs" "map_of fs ''recent'' = Some block"
    using f(2) r by (auto simp: json_get_def split: json.splits option.splits if_splits)
  then have "filings = Some (JObj fs)" by (auto simp: or_default_def split: option.splits if_splits)
  then have "map_of kvs ''filings'' = Some (JObj fs)" using f(1) k by (auto simp: json_get_def split: option.splits if_splits)
  then show ?thesis using k fs by (auto simp: holds_block_def)
qed (simp add: holds_block_def)

section \<open>What the lookup returns\<close>

text \<open>The filing blocks a document holds: the document itself or its recent filings.\<close>

definition block_of :: "json \<Rightarrow> json \<Rightarrow> bool" where
  "block_of v block =
     (block = v \<or> (\<exists>filings recent. json_get v ''filings'' = Inr filings \<and>
        json_get (or_default filings (JObj [])) ''recent'' = Inr recent \<and> block = or_default recent (JObj [])))"

definition row_of :: "json \<Rightarrow> string \<Rightarrow> filing_record \<Rightarrow> bool" where
  "row_of v accession r =
     (\<exists>block column i. block_of v block \<and> json_get block ''accessionNumber'' = Inr column \<and>
        json_index (or_default column (JArr [])) accession = Inr (Some i) \<and> record_from_arrays block i = Inr r)"

definition stored_row :: "(string \<Rightarrow> string) \<Rightarrow> (string \<Rightarrow> json option) \<Rightarrow> string \<Rightarrow> fetch_state \<Rightarrow> filing_record \<times> string \<Rightarrow> bool" where
  "stored_row sha loads accession st found =
     (\<exists>data v. open_bytes sha (fs_store st) (snd found) = Inr data \<and> loads data = Some v \<and> row_of v accession (fst found))"

lemma find_in_block_row:
  assumes "find_in_filing_block block accession = Inr (Some r)" and "block_of v block"
  shows "row_of v accession r"
  using assms by (auto simp: find_in_filing_block_def row_of_def res_bind_Inr_iff split: option.splits)

lemma find_in_shard_row:
  assumes "find_in_shard v accession = Inr (Some r)"
  shows "row_of v accession r"
proof (cases "find_in_filing_block v accession = Inr None")
  case True
  then obtain filings recent where "json_get v ''filings'' = Inr filings" "json_get (or_default filings (JObj [])) ''recent'' = Inr recent"
      "find_in_filing_block (or_default recent (JObj [])) accession = Inr (Some r)"
    using assms by (auto simp: find_in_shard_def res_bind_Inr_iff split: json.splits if_splits)
  then show ?thesis by (intro find_in_block_row) (auto simp: block_of_def)
next
  case False
  then have "find_in_filing_block v accession = Inr (Some r)"
    using assms by (auto simp: find_in_shard_def res_bind_Inr_iff split: option.splits)
  then show ?thesis by (rule find_in_block_row) (simp add: block_of_def)
qed

lemma fetch_json_stored:
  assumes "fetch_json sha f nw loads max_bytes url st = (Inr (v, digest), st')"
  shows "\<exists>data. open_bytes sha (fs_store st') digest = Inr data \<and> loads data = Some v"
  using assms by (auto simp: fetch_json_def and_then_Inr res_bind_Inr_iff split: option.splits)

lemma search_shards_row:
  "search_shards sha f nw loads py_str max_bytes accession metas st = (Inr (Some found), st') \<Longrightarrow>
     stored_row sha loads accession st' found"
proof (induction sha f nw loads py_str max_bytes accession metas st rule: search_shards.induct)
  case (2 sha f nw loads py_str max_bytes accession meta metas st)
  obtain name where name: "json_get meta ''name'' = Inr name" using "2.prems" by (auto split: sum.splits)
  show ?case
  proof (cases "falsy (or_default name JNull)")
    case True
    then show ?thesis using 2 name by simp
  next
    case False
    let ?url = "''https://data.sec.gov/submissions/'' @ (case name of Some (JStr s) \<Rightarrow> s | Some v \<Rightarrow> py_str v | None \<Rightarrow> [])"
    obtain v digest st1 where f: "fetch_json sha f nw loads max_bytes ?url st = (Inr (v, digest), st1)"
        and rest: "(case find_in_shard v accession of Inl e \<Rightarrow> (Inl e, st1) | Inr (Some r) \<Rightarrow> (Inr (Some (r, digest)), st1)
            | Inr None \<Rightarrow> search_shards sha f nw loads py_str max_bytes accession metas st1) = (Inr (Some found), st')"
      using "2.prems" name False by (auto simp: and_then_Inr)
    show ?thesis
    proof (cases "find_in_shard v accession = Inr None")
      case True
      then show ?thesis using "2.IH"(2) [OF name False True refl] rest f by simp
    next
      case False
      then obtain r where r: "find_in_shard v accession = Inr (Some r)" "found = (r, digest)" "st' = st1"
        using rest by (auto split: sum.splits option.splits)
      then show ?thesis using fetch_json_stored [OF f] find_in_shard_row [OF r(1)] by (auto simp: stored_row_def)
    qed
  qed
qed simp

lemma metadata_of_fields:
  assumes "metadata_of py_str fromisoformat cik accession r d = Inr m"
  shows "am_accession m = accession \<and> am_submissions_content_sha256 m = d \<and> am_form_type m \<in> set SUPPORTED_FORMS \<and>
    am_primary_document m \<noteq> [] \<and> validate_cik cik = Inr (am_cik m)"
proof -
  let ?form = "json_or_text py_str (fl_form r)" and ?primary = "json_or_text py_str (fl_primary_document r)"
  have ok: "?form \<in> set SUPPORTED_FORMS" "?primary \<noteq> []"
    using assms unfolding metadata_of_def Let_def by (metis sum.distinct(1))+
  obtain filing_date where date: "parse_date (fl_filing_date r) = Inr filing_date"
    using assms ok unfolding metadata_of_def Let_def by (cases "parse_date (fl_filing_date r)") simp_all
  then obtain y where filed: "parse_date (fl_filing_date r) = Inr (Some y)"
    using assms ok unfolding metadata_of_def Let_def by (cases filing_date) auto
  have "validate_cik cik = Inr (am_cik m) \<and> am_accession m = accession \<and> am_submissions_content_sha256 m = d \<and>
      am_form_type m = ?form \<and> am_primary_document m = ?primary"
    using assms unfolding metadata_of_def Let_def
    by (simp add: ok filed res_bind_Inr_iff) (elim exE conjE, drule sym, simp)
  then show ?thesis using ok by simp
qed

lemma metadata_of_parts:
  assumes "metadata_of py_str fromisoformat cik accession r d = Inr m"
  shows "am_form_type m = json_or_text py_str (fl_form r)" and "am_primary_document m = json_or_text py_str (fl_primary_document r)"
    and "parse_date (fl_filing_date r) = Inr (Some (am_filing_date m))" and "parse_date (fl_report_period r) = Inr (am_report_period_end m)"
    and "parse_acceptance fromisoformat (map_option (\<lambda>v. case v of JStr s \<Rightarrow> s | _ \<Rightarrow> py_str v) (fl_acceptance_datetime r)) = Inr (am_accepted_at m)"
    and "am_is_inline_xbrl m = fl_is_inline_xbrl r" and "am_is_xbrl m = fl_is_xbrl r" and "am_discovery m = discovery_of m"
proof -
  let ?form = "json_or_text py_str (fl_form r)" and ?primary = "json_or_text py_str (fl_primary_document r)"
  have ok: "?form \<in> set SUPPORTED_FORMS" "?primary \<noteq> []"
    using assms unfolding metadata_of_def Let_def by (metis sum.distinct(1))+
  obtain filing_date where date: "parse_date (fl_filing_date r) = Inr filing_date"
    using assms ok unfolding metadata_of_def Let_def by (cases "parse_date (fl_filing_date r)") simp_all
  then obtain y where filed: "parse_date (fl_filing_date r) = Inr (Some y)"
    using assms ok unfolding metadata_of_def Let_def by (cases filing_date) auto
  have "am_form_type m = ?form \<and> am_primary_document m = ?primary \<and> am_filing_date m = y \<and>
      parse_date (fl_report_period r) = Inr (am_report_period_end m) \<and>
      parse_acceptance fromisoformat (map_option (\<lambda>v. case v of JStr s \<Rightarrow> s | _ \<Rightarrow> py_str v) (fl_acceptance_datetime r)) = Inr (am_accepted_at m) \<and>
      am_is_inline_xbrl m = fl_is_inline_xbrl r \<and> am_is_xbrl m = fl_is_xbrl r \<and> am_discovery m = discovery_of m"
    using assms unfolding metadata_of_def Let_def
    by (simp add: ok filed res_bind_Inr_iff discovery_of_def) (elim exE conjE, drule sym, simp)
  then show "am_form_type m = ?form" "am_primary_document m = ?primary"
    "parse_date (fl_filing_date r) = Inr (Some (am_filing_date m))" "parse_date (fl_report_period r) = Inr (am_report_period_end m)"
    "parse_acceptance fromisoformat (map_option (\<lambda>v. case v of JStr s \<Rightarrow> s | _ \<Rightarrow> py_str v) (fl_acceptance_datetime r)) = Inr (am_accepted_at m)"
    "am_is_inline_xbrl m = fl_is_inline_xbrl r" "am_is_xbrl m = fl_is_xbrl r" "am_discovery m = discovery_of m"
    using filed by simp_all
qed

lemma parse_date_states:
  "parse_date (if v = JNull then None else Some v) = Inr x \<Longrightarrow> (case x of None \<Rightarrow> falsy v | Some d \<Rightarrow> states_date v d)"
  by (cases v) (auto simp: parse_date_def states_date_def falsy_def split: if_splits option.splits, metis)

lemma json_or_text_cell:
  "json_or_text py_str (if v = JNull then None else Some v) \<noteq> [] \<Longrightarrow>
     json_or_text py_str (if v = JNull then None else Some v) = (case v of JStr s \<Rightarrow> s | _ \<Rightarrow> py_str v)"
  by (auto simp: json_or_text_def split: if_splits)

text \<open>The record that is read from row \<open>i\<close> gives the metadata of row \<open>i\<close>.\<close>

lemma record_row_metadata:
  assumes "record_from_arrays block i = Inr r" and "metadata_of py_str fromisoformat cik accession r d = Inr m"
    and "am_form_type m \<noteq> []" and "am_primary_document m \<noteq> []"
  shows "row_metadata py_str fromisoformat block i m"
proof -
  define v where "v key = (if cell block i key = JNull then None else Some (cell block i key))" for key
  have r: "fl_form r = v ''form''" "fl_filing_date r = v ''filingDate''" "fl_acceptance_datetime r = v ''acceptanceDateTime''"
    "fl_report_period r = v ''reportDate''" "fl_primary_document r = v ''primaryDocument''"
    "fl_is_inline_xbrl r = v ''isInlineXBRL''" "fl_is_xbrl r = v ''isXBRL''"
  proof -
    have v: "column_at block i key = Inr x \<Longrightarrow> x = v key" for key x unfolding v_def by (rule column_cell)
    show "fl_form r = v ''form''" "fl_filing_date r = v ''filingDate''" "fl_acceptance_datetime r = v ''acceptanceDateTime''"
      "fl_report_period r = v ''reportDate''" "fl_primary_document r = v ''primaryDocument''"
      "fl_is_inline_xbrl r = v ''isInlineXBRL''" "fl_is_xbrl r = v ''isXBRL''"
      using assms(1) by (auto simp: record_from_arrays_def res_bind_Inr_iff intro: v)
  qed
  note P = metadata_of_parts [OF assms(2), unfolded r]
  have "am_form_type m = (case cell block i ''form'' of JStr s \<Rightarrow> s | _ \<Rightarrow> py_str (cell block i ''form''))"
    using json_or_text_cell [of py_str "cell block i ''form''"] P(1) assms(3) by (simp add: v_def [symmetric])
  moreover have "am_primary_document m =
      (case cell block i ''primaryDocument'' of JStr s \<Rightarrow> s | _ \<Rightarrow> py_str (cell block i ''primaryDocument''))"
    using json_or_text_cell [of py_str "cell block i ''primaryDocument''"] P(2) assms(4) by (simp add: v_def [symmetric])
  moreover have "states_date (cell block i ''filingDate'') (am_filing_date m)"
    using parse_date_states [of "cell block i ''filingDate''" "Some (am_filing_date m)"] P(3) by (simp add: v_def)
  moreover have "case am_report_period_end m of None \<Rightarrow> falsy (cell block i ''reportDate'') | Some d \<Rightarrow> states_date (cell block i ''reportDate'') d"
    using parse_date_states [of "cell block i ''reportDate''"] P(4) by (simp add: v_def)
  ultimately show ?thesis using P(5-7) unfolding row_metadata_def Let_def v_def by blast
qed

lemma pick_found:
  assumes "(case found of None \<Rightarrow> pure_step (Inl e) | Some (r, digest) \<Rightarrow> pure_step (k r digest)) st = (Inr y, st')"
  obtains r digest where "found = Some (r, digest)" and "k r digest = Inr y" and "st = st'"
  using assms by (cases found) auto

lemma lookup_cik:
  assumes "accession_to_cik accession = Inr cik" and "validate_cik cik = Inr c"
  shows "c = take 10 accession"
proof -
  have a: "accession_re accession" "cik = take 10 accession"
    using assms(1) accession_prefix by (auto simp: accession_to_cik_def res_bind_Inr_iff validate_accession_Inr_iff)
  then have "length cik = 10" "list_all is_digit cik" by (simp_all add: accession_re_def)
  then have "validate_cik cik = Inr cik" by (rule ten_digits_canonical)
  then show ?thesis using assms(2) a by simp
qed

lemma lookup_result:
  assumes "lookup_accession_metadata sha f nw loads py_str fromisoformat accession max_bytes st = (Inr (m, issues), st')"
  shows "issues = [] \<and> am_accession m = accession \<and> am_form_type m \<in> set SUPPORTED_FORMS \<and> am_primary_document m \<noteq> [] \<and>
    (\<exists>cik r. accession_to_cik accession = Inr cik \<and> validate_cik cik = Inr (am_cik m) \<and>
       stored_row sha loads accession st' (r, am_submissions_content_sha256 m) \<and>
       metadata_of py_str fromisoformat cik accession r (am_submissions_content_sha256 m) = Inr m)"
proof -
  obtain cik url listing digest st1 filings row r d where
    start: "start_lookup accession = Inr (cik, url)"
    and f: "fetch_json sha f nw loads max_bytes url st = (Inr (listing, digest), st1)"
    and recent: "recent_row listing accession = Inr (filings, row)"
    and found: "(case row of Some r \<Rightarrow> pure_step (Inr (Some (r, digest)))
       | None \<Rightarrow> historical_row sha f nw loads py_str accession max_bytes filings) st1 = (Inr (Some (r, d)), st')"
    and m: "metadata_of py_str fromisoformat cik accession r d = Inr m" "issues = []"
  proof -
    obtain cik url where 1: "start_lookup accession = Inr (cik, url)"
      using assms by (auto simp: lookup_accession_metadata_def and_then_Inr)
    obtain listing digest st1 where 2: "fetch_json sha f nw loads max_bytes url st = (Inr (listing, digest), st1)"
      using assms 1 by (auto simp: lookup_accession_metadata_def and_then_Inr)
    obtain filings row where 3: "recent_row listing accession = Inr (filings, row)"
      using assms 1 2 by (auto simp: lookup_accession_metadata_def and_then_Inr)
    have "and_then (case row of Some r \<Rightarrow> pure_step (Inr (Some (r, digest)))
         | None \<Rightarrow> historical_row sha f nw loads py_str accession max_bytes filings) (\<lambda>found.
       case found of None \<Rightarrow> pure_step (Inl (LookupError ''accession not found in SEC submissions''))
       | Some (r, digest) \<Rightarrow> pure_step (res_bind (metadata_of py_str fromisoformat cik accession r digest) (\<lambda>m. Inr (m, []))))
       st1 = (Inr (m, issues), st')"
      using assms 1 2 3 by (simp add: lookup_accession_metadata_def and_then_def [of "pure_step _"] and_then_def [of "fetch_json _ _ _ _ _ _"] pure_step_def)
    then obtain found t where 4: "(case row of Some r \<Rightarrow> pure_step (Inr (Some (r, digest)))
         | None \<Rightarrow> historical_row sha f nw loads py_str accession max_bytes filings) st1 = (Inr found, t)"
      and 5: "(case found of None \<Rightarrow> pure_step (Inl (LookupError ''accession not found in SEC submissions''))
       | Some (r, digest) \<Rightarrow> pure_step (res_bind (metadata_of py_str fromisoformat cik accession r digest) (\<lambda>m. Inr (m, []))))
       t = (Inr (m, issues), st')" unfolding and_then_Inr by blast
    from 5 obtain r d where "found = Some (r, d)" "metadata_of py_str fromisoformat cik accession r d = Inr m" "issues = []" "t = st'"
      by (rule pick_found) (simp add: res_bind_Inr_iff)
    then show thesis using that 1 2 3 4 by simp
  qed
  have cik: "validate_accession accession = Inr accession" "accession_to_cik accession = Inr cik"
    using start by (auto simp: start_lookup_def res_bind_Inr_iff validate_accession_def Let_def split: if_splits)
  have recent': "row_of listing accession r'" if row: "row = Some r'" for r'
  proof -
    obtain fs rc where "json_get listing ''filings'' = Inr fs" "json_get (or_default fs (JObj [])) ''recent'' = Inr rc"
        "find_in_filing_block (or_default rc (JObj [])) accession = Inr (Some r')"
      using recent row by (auto simp: recent_row_def res_bind_Inr_iff Let_def)
    then show ?thesis by (intro find_in_block_row) (auto simp: block_of_def)
  qed
  have "stored_row sha loads accession st' (r, d)"
  proof (cases row)
    case None
    then show ?thesis using found search_shards_row by (auto simp: historical_row_def and_then_Inr)
  next
    case (Some r')
    then have "r' = r" "d = digest" "st' = st1" using found by simp_all
    then show ?thesis using fetch_json_stored [OF f] recent' [OF Some] by (auto simp: stored_row_def)
  qed
  moreover have "am_accession m = accession \<and> am_submissions_content_sha256 m = d \<and> am_form_type m \<in> set SUPPORTED_FORMS \<and>
      am_primary_document m \<noteq> [] \<and> validate_cik cik = Inr (am_cik m)"
    by (rule metadata_of_fields [OF m(1)])
  ultimately show ?thesis using m cik by auto
qed

text \<open>
  Property C16: the metadata of a filing are those SEC lists for exactly that accession.  What the lookup
  returns is row i of a block of a JSON document that is in the store under the recorded digest, where row
  i is the first one whose accession number is the requested one.  Every field is the value of that row's
  column: form, primary document, filing date, report date, acceptance time and the XBRL flags.  The form is
  supported, the filer is the prefix of the accession number, the discovery document repeats the fields, and
  nothing is reported as an issue.
\<close>

theorem lookup_accession_exact:
  "case lookup_accession_metadata sha f nw loads py_str fromisoformat accession max_bytes st of
     (Inl e, st') \<Rightarrow> True
   | (Inr (m, issues), st') \<Rightarrow>
       issues = [] \<and> am_accession m = accession \<and> am_cik m = take 10 accession \<and>
       am_form_type m \<in> set SUPPORTED_FORMS \<and> am_primary_document m \<noteq> [] \<and> am_discovery m = discovery_of m \<and>
       (\<exists>data document block i. open_bytes sha (fs_store st') (am_submissions_content_sha256 m) = Inr data \<and>
          loads data = Some document \<and> holds_block document block \<and> lists_at block i accession \<and>
          row_metadata py_str fromisoformat block i m)"
proof -
  obtain res st' where run: "lookup_accession_metadata sha f nw loads py_str fromisoformat accession max_bytes st = (res, st')"
    by (metis surj_pair)
  show ?thesis
  proof (cases res)
    case (Inr x)
    obtain m issues where x: "x = (m, issues)" by (cases x)
    note L = lookup_result [OF run [unfolded Inr x]]
    obtain cik r where c: "accession_to_cik accession = Inr cik" "validate_cik cik = Inr (am_cik m)"
        and row: "stored_row sha loads accession st' (r, am_submissions_content_sha256 m)"
        and m: "metadata_of py_str fromisoformat cik accession r (am_submissions_content_sha256 m) = Inr m"
      using L by blast
    obtain data document block column i where
        "open_bytes sha (fs_store st') (am_submissions_content_sha256 m) = Inr data" "loads data = Some document"
        and b: "block_of document block" "json_get block ''accessionNumber'' = Inr column"
          "json_index (or_default column (JArr [])) accession = Inr (Some i)" "record_from_arrays block i = Inr r"
      using row by (auto simp: stored_row_def row_of_def)
    moreover have "lists_at block i accession" by (rule index_lists [OF b(2,3)])
    moreover from this have "holds_block document block" using block_of_lists b(1) unfolding block_of_def by metis
    moreover have "am_form_type m \<noteq> []" using L by (auto simp: SUPPORTED_FORMS_def)
    then have "row_metadata py_str fromisoformat block i m" using record_row_metadata [OF b(4) m] L by blast
    moreover have "am_cik m = take 10 accession" by (rule lookup_cik [OF c])
    ultimately show ?thesis using L metadata_of_parts(8) [OF m] run Inr x by auto
  qed (simp add: run)
qed

end
