(* ===== verification/Replay.thy ===== *)
theory Replay
  imports Closure
begin

text \<open>
  The offline replay of a bundle (\<^verbatim>\<open>xbrl/replay.py\<close>, \<^verbatim>\<open>xbrl/replay_normalize.py\<close>): the worker may only use the
  bound documents, every fetch is refused, and what it loaded is compared with the bindings.
\<close>

record replay_view =
  rv_load_completed :: bool
  rv_network_attempts :: "json list"
  rv_unresolved_documents :: "json list"
  rv_loaded_documents :: "loaded_document list"
  rv_resolved_documents :: "resolved_document list"
  rv_expected_documents :: "(string \<times> string) list"
  rv_diagnostics :: "json list"
  rv_errors :: "json list"
  rv_closure_equal :: bool

definition replay_faithful :: "replay_view \<Rightarrow> bool" where
  "replay_faithful v =
     (rv_load_completed v \<and> rv_closure_equal v \<and> rv_network_attempts v = [] \<and> rv_unresolved_documents v = [] \<and> rv_errors v = [])"

definition alias_to_primary_map :: "uri_binding list \<Rightarrow> (string \<rightharpoonup> string) res" where
  "alias_to_primary_map bindings =
     fold_res (\<lambda>b. fold_res (\<lambda>al m. res_bind (normalize_uri ALLOWED_SCHEMES al) (\<lambda>u. Inr (m(u \<mapsto> ub_document_uri b)))) (ub_replay_aliases b))
       bindings (\<lambda>_. None)"

text \<open>The sorted list of a set of pairs.\<close>

definition sorted_pairs :: "(string \<times> string) list \<Rightarrow> (string \<times> string) list" where
  "sorted_pairs xs = sort_key fst (sort_key snd (remdups xs))"

definition replayed :: "(string \<rightharpoonup> string) \<Rightarrow> resolved_document list \<Rightarrow> loaded_document list \<Rightarrow> (string \<times> string) list" where
  "replayed primary_of resolved loaded =
     map (\<lambda>uri. (case primary_of uri of None \<Rightarrow> uri | Some p \<Rightarrow> p, the (binding_inputs resolved loaded uri)))
       (document_names resolved loaded)"

definition normalize_replay_result :: "(json \<Rightarrow> string) \<Rightarrow> json \<Rightarrow> uri_binding list \<Rightarrow> replay_view res" where
  "normalize_replay_result py_str result bindings =
     res_bind (result_list result ''loaded_source_documents'') (\<lambda>ls. res_bind (map_res (loaded_from_dict py_str) ls) (\<lambda>loaded.
     res_bind (result_list result ''resolved_documents'') (\<lambda>rs. res_bind (map_res (resolved_from_dict py_str) rs) (\<lambda>resolved.
     res_bind (result_list result ''diagnostics'') (\<lambda>diagnostics.
     res_bind (alias_to_primary_map bindings) (\<lambda>primary_of.
     let expected = map (\<lambda>b. (ub_document_uri b, ub_content_sha256 b)) bindings;
         actual = replayed primary_of resolved loaded;
         surplus = sorted_pairs (filter (\<lambda>x. x \<notin> set expected) actual);
         missing = sorted_pairs (filter (\<lambda>x. x \<notin> set actual) expected)
     in res_bind (json_get result ''load_completed'') (\<lambda>completed.
        res_bind (result_list result ''network_attempts'') (\<lambda>attempts.
        res_bind (result_list result ''unresolved_documents'') (\<lambda>unresolved.
        res_bind (result_list result ''errors'') (\<lambda>errors.
          Inr \<lparr>rv_load_completed = (case completed of None \<Rightarrow> False | Some v \<Rightarrow> \<not> falsy v),
               rv_network_attempts = attempts, rv_unresolved_documents = unresolved,
               rv_loaded_documents = loaded, rv_resolved_documents = resolved,
               rv_expected_documents = sorted_pairs expected,
               rv_diagnostics = diagnostics @
                 map (\<lambda>(u, d). JStr (''loaded document is not a bundle binding: '' @ u @ '' '' @ d)) surplus @
                 map (\<lambda>(u, d). JStr (''bound document was not loaded on replay: '' @ u @ '' '' @ d)) missing,
               rv_errors = errors, rv_closure_equal = (set expected = set actual)\<rparr>))))))))))"

definition deny_fetch :: "unit fetch_handler" where
  "deny_fetch uri st = (Inr (fetch_error uri ''offline replay does not permit parent fetches''), st)"

definition offline_job :: "filing_bundle \<Rightarrow> string \<Rightarrow> json" where
  "offline_job b data_root =
     JObj [(''mode'', JStr ''offline''), (''operation'', JStr ''load''),
       (''report_input'', JObj (report_input_to_dict (hd (fb_report_inputs b)))), (''object_store_root'', JStr data_root),
       (''uri_bindings'', JArr (map (\<lambda>u. JObj (binding_to_dict u)) (fb_uri_bindings b)))]"

definition validate_offline_replay ::
  "(string \<Rightarrow> json option) \<Rightarrow> (json \<Rightarrow> string) \<Rightarrow> (json \<Rightarrow> worker) \<Rightarrow> filing_bundle \<Rightarrow> string \<Rightarrow> replay_view res" where
  "validate_offline_replay loads py_str launch b data_root =
     (if fb_report_inputs b = [] then Inl IndexError
      else res_bind (fst (run_worker_process loads py_str launch (offline_job b data_root) deny_fetch ())) (\<lambda>result.
        normalize_replay_result py_str result (fb_uri_bindings b)))"

text \<open>
  Two readings of one result: when the documents were loaded under their primary URIs, the replay is equal
  exactly when the bindings are the documents with their digests.
\<close>

lemma fold_loaded_dom:
  "dom (fold (\<lambda>d m. if m (ld_document_uri d) = None then m(ld_document_uri d \<mapsto> ld_content_sha256 d) else m) ls m) =
     ld_document_uri ` set ls \<union> dom m"
  by (induction ls arbitrary: m) auto

lemma fold_resolved_dom:
  "dom (fold (\<lambda>d m. m(rd_document_uri d \<mapsto> rd_content_sha256 d)) rs m) = rd_document_uri ` set rs \<union> dom m"
  by (induction rs arbitrary: m) auto

lemma document_names_dom: "set (document_names resolved loaded) = dom (binding_inputs resolved loaded)"
  unfolding binding_inputs_def fold_loaded_dom fold_resolved_dom
  by (auto simp: document_names_def sorted_names_def)

lemma replayed_without_aliases: "set (replayed (\<lambda>_. None) resolved loaded) = Map.graph (binding_inputs resolved loaded)"
  unfolding replayed_def set_map document_names_dom Map.graph_def by (auto simp: image_def)

lemma bind_document_fields:
  assumes "bind_document sha accession external inputs uri = Inr (notes, b)"
  shows "ub_document_uri b = uri \<and> ub_content_sha256 b = the (inputs uri) \<and> ub_replay_aliases b = []"
  using assms by (auto simp: bind_document_def Let_def res_bind_Inr_iff mk_uri_binding_def split: if_splits)

lemma no_aliases: "list_all (\<lambda>b. ub_replay_aliases b = []) bs \<Longrightarrow> alias_to_primary_map bs = Inr (\<lambda>_. None)"
proof -
  have "fold_res (\<lambda>b. fold_res (g b) (ub_replay_aliases b)) bs m = Inr m" if "list_all (\<lambda>b. ub_replay_aliases b = []) bs" for g m
    using that by (induction bs) auto
  then show "list_all (\<lambda>b. ub_replay_aliases b = []) bs \<Longrightarrow> alias_to_primary_map bs = Inr (\<lambda>_. None)"
    by (simp add: alias_to_primary_map_def)
qed

text \<open>
  Property C17: what the discovery binds, a replay can find equal.  When the offline worker reports the
  documents that the online worker reported, whatever else its result says, the replayed closure equals the
  bindings made online; no binding is missing and no document is unbound.
\<close>

theorem discovery_replays_equal:
  assumes "read_discovery sha py_str report_input accession result st = Inr d"
    and "result_list replay ''loaded_source_documents'' = result_list result ''loaded_source_documents''"
    and "result_list replay ''resolved_documents'' = result_list result ''resolved_documents''"
    and "normalize_replay_result py_str replay (cd_uri_bindings d) = Inr v"
  shows "rv_closure_equal v \<and> (rv_diagnostics v = [] \<longleftrightarrow> result_list replay ''diagnostics'' = Inr [])"
proof -
  obtain ls loaded rs resolved where docs: "result_list result ''loaded_source_documents'' = Inr ls"
      "map_res (loaded_from_dict py_str) ls = Inr loaded" "result_list result ''resolved_documents'' = Inr rs"
      "map_res (resolved_from_dict py_str) rs = Inr resolved"
    using assms(1) by (auto simp: read_discovery_def res_bind_Inr_iff)
  let ?inputs = "binding_inputs resolved loaded" and ?names = "document_names resolved loaded"
  obtain bound where bound: "map_res (bind_document sha accession (cs_external st) ?inputs) ?names = Inr bound"
      "cd_uri_bindings d = map snd bound"
    using assms(1) docs by (auto simp: read_discovery_def res_bind_Inr_iff)
  have each: "list_all2 (\<lambda>uri x. ub_document_uri (snd x) = uri \<and> ub_content_sha256 (snd x) = the (?inputs uri) \<and>
      ub_replay_aliases (snd x) = []) ?names bound"
    using bound(1) unfolding map_res_Inr_iff
    by (rule list_all2_mono) (metis bind_document_fields prod.collapse)
  then have pairs: "map (\<lambda>b. (ub_document_uri b, ub_content_sha256 b)) (cd_uri_bindings d) = map (\<lambda>u. (u, the (?inputs u))) ?names"
    and free: "list_all (\<lambda>b. ub_replay_aliases b = []) (cd_uri_bindings d)"
    unfolding bound(2) by (induction rule: list_all2_induct) simp_all
  have actual: "replayed (\<lambda>_. None) resolved loaded = map (\<lambda>u. (u, the (?inputs u))) ?names"
    by (simp add: replayed_def)
  have sp: "sorted_pairs [] = []" by (simp add: sorted_pairs_def)
  have "filter (\<lambda>x. x \<notin> set (map f us)) (map f us) = []" for f :: "string \<Rightarrow> string \<times> string" and us
    by (simp add: filter_empty_conv)
  then show ?thesis
    using assms(4) unfolding normalize_replay_result_def assms(2,3) docs
    by (auto simp: docs res_bind_Inr_iff no_aliases [OF free] pairs actual sp Let_def)
qed

definition example_digest :: string where
  "example_digest = replicate 64 CHR ''0''"

definition replay_result :: json where
  "replay_result = JObj [(''load_completed'', JBool True), (''resolved_documents'', JArr [
     JObj [(''document_uri'', JStr ''http://h/a''), (''content_sha256'', JStr example_digest)]])]"

definition example_discovery :: "closure_discovery res" where
  "example_discovery = read_discovery (\<lambda>_. example_digest) (\<lambda>_. []) (InstanceReportInput [''http://h/a''])
     [(''http://h/a'', example_digest, ''accession/a'')] replay_result
     \<lparr>cs_external = [], cs_remaining = 0, cs_safeguard = None, cs_blocked = False, cs_diagnostics = [], cs_fetch = ()\<rparr>"

lemma example_replay: "case example_discovery of Inl _ \<Rightarrow> False | Inr d \<Rightarrow> is_ok (normalize_replay_result (\<lambda>_. []) replay_result (cd_uri_bindings d))"
  by code_simp

theorem discovery_replays_equal_witness:
  "\<exists>d v. example_discovery = Inr d \<and> normalize_replay_result (\<lambda>_. []) replay_result (cd_uri_bindings d) = Inr v \<and> rv_closure_equal v"
proof -
  obtain d v where d: "example_discovery = Inr d" and v: "normalize_replay_result (\<lambda>_. []) replay_result (cd_uri_bindings d) = Inr v"
    using example_replay by (auto simp: is_ok_iff split: sum.splits)
  show ?thesis using discovery_replays_equal [OF d [unfolded example_discovery_def] refl refl v] d v by blast
qed

end
