(* ===== verification/Acquisition.thy ===== *)
theory Acquisition
  imports Submissions Replay Report_Input
begin

text \<open>
  The acquisition of a filing (\<^verbatim>\<open>ingestion/acquisition.py\<close>): metadata, indexes, attachments, reconciliation,
  the report input, the discovered documents, the bundle, its offline replay and its publication.

  The state of an acquisition is the payload budget, the artifacts collected so far with their bytes and
  digests, the issues, the state of the fetcher (with the object store) and the published bundles.  What lies
  outside the program is the record \<open>acquire_env\<close>; the sizes of the settings are natural numbers.
\<close>

section \<open>Environment and state\<close>

record acquire_env =
  ev_sha :: "string \<Rightarrow> string"
  ev_fetcher :: fetcher
  ev_network :: network
  ev_loads :: "string \<Rightarrow> json option"
  ev_py_str :: "json \<Rightarrow> string"
  ev_fromisoformat :: datetime_reader
  ev_exn_text :: "exn \<Rightarrow> string \<times> string"
  ev_parse_html :: "string \<Rightarrow> html_row list res"
  ev_xml :: xml_parser
  ev_launch :: "store \<Rightarrow> json \<Rightarrow> worker"
  ev_data_root :: string
  ev_user_agent :: "string option"
  ev_uuid :: string
  ev_max_file_bytes :: nat
  ev_max_bundle_bytes :: nat
  ev_max_external_dependency_bytes :: nat

record acquire_state =
  aq_members :: "(string \<times> string \<times> nat) list"
  aq_artifacts :: "bundle_artifact list"
  aq_bytes :: "string \<rightharpoonup> string"
  aq_digests :: "(string \<times> string) list"
  aq_issues :: "quality_issue list"
  aq_fetch :: fetch_state
  aq_root :: "string \<times> string \<rightharpoonup> listing"

type_synonym 'a step = "acquire_state \<Rightarrow> 'a res \<times> acquire_state"

definition on_fetch :: "(fetch_state \<Rightarrow> 'a res \<times> fetch_state) \<Rightarrow> 'a step" where
  "on_fetch m st = (case m (aq_fetch st) of (r, s) \<Rightarrow> (r, st\<lparr>aq_fetch := s\<rparr>))"

definition client_fetch :: "acquire_env \<Rightarrow> string \<Rightarrow> nat \<Rightarrow> (fetch_result \<times> stored_object) step" where
  "client_fetch env url max_bytes = on_fetch (fetch_to_store (ev_sha env) (ev_fetcher env) (ev_network env) url max_bytes)"

definition add_issue :: "string \<Rightarrow> string \<Rightarrow> string \<Rightarrow> (string \<times> json) list \<Rightarrow> unit step" where
  "add_issue severity code message context st =
     (Inr (), st\<lparr>aq_issues := aq_issues st @
        [\<lparr>qi_severity = severity, qi_code = code, qi_message = message, qi_context = context\<rparr>]\<rparr>)"

definition raise_step :: "exn \<Rightarrow> 'a step" where
  "raise_step e = pure_step (Inl e)"

fun for_each :: "('x \<Rightarrow> unit step) \<Rightarrow> 'x list \<Rightarrow> unit step" where
  "for_each f [] = pure_step (Inr ())"
| "for_each f (x # xs) = and_then (f x) (\<lambda>_. for_each f xs)"

text \<open>\<^verbatim>\<open>if any(i.severity == "fatal" for i in issues): raise RuntimeError(\<dots>)\<close>.\<close>

definition stop_if_fatal :: "string \<Rightarrow> unit step" where
  "stop_if_fatal message st = (if list_ex fatal (aq_issues st) then (Inl (RuntimeError message), st) else (Inr (), st))"

section \<open>The payload budget\<close>

definition committed :: "(string \<times> string \<times> nat) list \<Rightarrow> nat" where
  "committed members = sum_list (map (\<lambda>(_, _, size). size) members)"

definition register :: "nat \<Rightarrow> string \<Rightarrow> string \<Rightarrow> nat \<Rightarrow> unit step" where
  "register limit logical_path sha256 byte_size st =
     (case map_of (aq_members st) logical_path of
        None \<Rightarrow>
          if committed (aq_members st) + byte_size > limit then (Inl MaxBundleBytesExceeded, st)
          else (Inr (), st\<lparr>aq_members := aq_members st @ [(logical_path, sha256, byte_size)]\<rparr>)
      | Some existing \<Rightarrow>
          if existing = (sha256, byte_size) then (Inr (), st)
          else (Inl (LogicalPathConflict logical_path), st))"

definition budget_remaining :: "acquire_env \<Rightarrow> acquire_state \<Rightarrow> nat" where
  "budget_remaining env st = ev_max_bundle_bytes env - committed (aq_members st)"

definition has_artifact :: "string \<Rightarrow> acquire_state \<Rightarrow> bool" where
  "has_artifact logical_path st = list_ex (\<lambda>a. ba_logical_path a = logical_path) (aq_artifacts st)"

definition add_object :: "acquire_env \<Rightarrow> string \<Rightarrow> string \<Rightarrow> nat \<Rightarrow> string \<Rightarrow> bool \<Rightarrow> unit step" where
  "add_object env logical_path obj_sha byte_size artifact_kind required =
     and_then (register (ev_max_bundle_bytes env) logical_path obj_sha byte_size) (\<lambda>_ st.
       if has_artifact logical_path st then (Inr (), st)
       else (case res_bind (mk_content_object obj_sha (int byte_size)) (\<lambda>content.
               mk_bundle_artifact \<lparr>ba_logical_path = logical_path, ba_content = content, ba_artifact_kind = artifact_kind,
                 ba_required = required\<rparr>) of
           Inl e \<Rightarrow> (Inl e, st)
         | Inr artifact \<Rightarrow>
             (let st = st\<lparr>aq_artifacts := aq_artifacts st @ [artifact]\<rparr>
              in case open_bytes (ev_sha env) (fs_store (aq_fetch st)) obj_sha of
                   Inl e \<Rightarrow> (Inl e, st)
                 | Inr data \<Rightarrow> (Inr (), st\<lparr>aq_bytes := (aq_bytes st)(logical_path \<mapsto> data),
                                         aq_digests := AList.update logical_path obj_sha (aq_digests st)\<rparr>))))"

text \<open>The exceptions \<^verbatim>\<open>fetch_put\<close> translates; the boolean says whether the artifact is there.\<close>

definition fetch_put :: "acquire_env \<Rightarrow> string \<Rightarrow> string \<Rightarrow> string \<Rightarrow> bool \<Rightarrow> bool \<Rightarrow> bool step" where
  "fetch_put env url logical_path artifact_kind required optional_absence st =
     (if has_artifact logical_path st then (Inr True, st)
      else (let stream_limit = min (ev_max_file_bytes env) (budget_remaining env st)
            in if stream_limit = 0 then (Inl MaxBundleBytesExceeded, st)
               else (case client_fetch env url stream_limit st of
                   (Inl e, st) \<Rightarrow>
                     if e = SizeLimitExceeded
                     then (Inl (if stream_limit < ev_max_file_bytes env then MaxBundleBytesExceeded else MaxFileBytesExceeded), st)
                     else if optional_absence \<and> e = HTTPStatusError 404
                     then and_then (add_issue ''warning'' ''OPTIONAL_ARTIFACT_MISSING'' (''optional artifact missing: '' @ logical_path)
                            [(''url'', JStr url), (''status_code'', JInt 404)]) (\<lambda>_. pure_step (Inr False)) st
                     else (Inl e, st)
                 | (Inr (_, obj), st) \<Rightarrow>
                     and_then (add_object env logical_path (so_sha256 obj) (so_byte_size obj) artifact_kind required)
                       (\<lambda>_. pure_step (Inr True)) st)))"

section \<open>Discovery document and indexes\<close>

fun dumps_indent :: "nat \<Rightarrow> json \<Rightarrow> string" where
  "dumps_indent d (JArr xs) =
     (if xs = [] then ''[]''
      else (let line = CHR 0x0A # replicate (2 * Suc d) CHR '' ''
            in ''['' @ line @ join ('','' @ line) (map (dumps_indent (Suc d)) xs) @ (CHR 0x0A # replicate (2 * d) CHR '' '') @ '']''))"
| "dumps_indent d (JObj kvs) =
     (if kvs = [] then ''{}''
      else (let line = CHR 0x0A # replicate (2 * Suc d) CHR '' ''
            in ''{'' @ line @ join ('','' @ line) (map (\<lambda>(k, v). dumps_str k @ '': '' @ dumps_indent (Suc d) v) kvs) @
               (CHR 0x0A # replicate (2 * d) CHR '' '') @ ''}''))"
| "dumps_indent d v = dumps v"

definition store_bytes :: "acquire_env \<Rightarrow> string \<Rightarrow> stored_object step" where
  "store_bytes env data st =
     (case put_bytes (ev_sha env) data (fs_store (aq_fetch st)) of
        Inl e \<Rightarrow> (Inl e, st)
      | Inr (obj, s) \<Rightarrow> (Inr obj, st\<lparr>aq_fetch := (aq_fetch st)\<lparr>fs_store := s\<rparr>\<rparr>))"

definition capture_discovery :: "acquire_env \<Rightarrow> accession_metadata \<Rightarrow> unit step" where
  "capture_discovery env meta st =
     (let data = dumps_indent 0 (sort_keys (am_discovery meta)) @ [CHR 0x0A]
      in if length data > ev_max_file_bytes env then (Inl MaxFileBytesExceeded, st)
         else if length data > budget_remaining env st then (Inl MaxBundleBytesExceeded, st)
         else and_then (store_bytes env data) (\<lambda>obj.
                add_object env ''metadata/discovery.json'' (so_sha256 obj) (so_byte_size obj) ''discovery'' True) st)"

text \<open>\<^verbatim>\<open>artifact_bytes[path]\<close>.\<close>

definition bytes_of :: "string \<Rightarrow> string step" where
  "bytes_of path st = ((case aq_bytes st path of None \<Rightarrow> Inl (KeyError path) | Some data \<Rightarrow> Inr data), st)"

definition capture_index_json :: "acquire_env \<Rightarrow> string \<Rightarrow> directory_entry list step" where
  "capture_index_json env archive =
     and_then (fetch_put env (archive @ ''index.json'') ''metadata/index.json'' ''index_json'' True False) (\<lambda>_.
     and_then (bytes_of ''metadata/index.json'') (\<lambda>data.
       pure_step (case ev_loads env data of
           None \<Rightarrow> Inl (ValueError ''invalid JSON'') | Some v \<Rightarrow> parse_index_json (ev_py_str env) v archive)))"

definition index_names :: "string \<Rightarrow> (string \<times> string \<times> string \<times> bool) list" where
  "index_names accession =
     [(accession @ ''-index.html'', ''metadata/index.html'', ''index_html'', True),
      (accession @ ''-index.htm'', ''metadata/index.html'', ''index_html'', False),
      (accession @ ''-index-headers.html'', ''metadata/index-headers.html'', ''index_headers'', False)]"

definition capture_index :: "acquire_env \<Rightarrow> string \<Rightarrow> string \<times> string \<times> string \<times> bool \<Rightarrow> unit step" where
  "capture_index env archive i st =
     (case i of (name, logical, kind, required) \<Rightarrow>
        if has_artifact logical st then (Inr (), st)
        else and_then (fetch_put env (archive @ name) logical kind required (\<not> required)) (\<lambda>_. pure_step (Inr ())) st)"

definition index_rows :: "acquire_env \<Rightarrow> string \<Rightarrow> document_row list step" where
  "index_rows env archive st =
     (case aq_bytes st ''metadata/index.html'' of
        None \<Rightarrow> (Inr [], st)
      | Some data \<Rightarrow> (res_bind (ev_parse_html env data) (\<lambda>rows. Inr (parse_index_html rows archive)), st))"

section \<open>Attachments\<close>

definition artifact_kind :: "string \<Rightarrow> string \<Rightarrow> string" where
  "artifact_kind role source_class =
     (case map_of [(''complete_submission'', ''complete_submission''), (''primary_document'', ''primary_document''),
        (''taxonomy_schema'', ''taxonomy_schema''), (''linkbase'', ''linkbase''), (''index_json'', ''index_json''),
        (''index_html'', ''index_html''), (''index_headers'', ''index_headers''), (''attachment'', ''attachment''),
        (''sec_viewer_artifact'', ''sec_generated''), (''sec_generated_xbrl'', ''sec_generated''),
        (''xbrl_zip'', ''sec_generated''), (''image'', ''attachment'')] role of
        Some kind \<Rightarrow> kind
      | None \<Rightarrow> if startswith source_class ''sec_'' then ''sec_generated'' else ''other'')"

definition is_safeguard :: "exn \<Rightarrow> bool" where
  "is_safeguard e = (is_destination_forbidden e \<or> is_resource_limit e \<or> e = SizeLimitExceeded)"

definition missing_attachment :: "string \<Rightarrow> (string \<times> json) list \<Rightarrow> unit step" where
  "missing_attachment name context =
     add_issue ''fatal'' ''MISSING_FILER_SUBMITTED_ATTACHMENT'' (''required filer-submitted attachment missing: '' @ name)
       ((''filename'', JStr name) # context)"

text \<open>The last row of a name, as the dictionary of the rows has it.\<close>

definition row_named :: "document_row list \<Rightarrow> string \<Rightarrow> document_row option" where
  "row_named rows name = map_of (rev (map (\<lambda>r. (dw_name r, r)) rows)) name"

definition capture_entry :: "acquire_env \<Rightarrow> string \<Rightarrow> document_row list \<Rightarrow> directory_entry \<Rightarrow> unit step" where
  "capture_entry env accession rows entry st =
     (let name = de_name entry; logical = ''accession/'' @ name
      in if has_artifact logical st then (Inr (), st)
         else (let row = row_named rows name;
                   (source_class, role) = classify_source_and_role accession name
                     (case row of None \<Rightarrow> None | Some r \<Rightarrow> dw_description r) (case row of None \<Rightarrow> None | Some r \<Rightarrow> dw_document_type r);
                   required = (source_class = ''filer_submitted'' \<or> role = ''complete_submission'');
                   optional_absence = (source_class = ''sec_generated_rendering'')
               in case fetch_put env (de_url entry) logical (artifact_kind role source_class) required optional_absence st of
                    (Inl e, st) \<Rightarrow>
                      if is_safeguard e \<or> \<not> required then (Inl e, st)
                      else and_then (missing_attachment name [(''exception_type'', JStr (fst (ev_exn_text env e))),
                             (''error'', JStr (snd (ev_exn_text env e)))]) (\<lambda>_. raise_step e) st
                  | (Inr ok, st) \<Rightarrow> if \<not> ok \<and> required then missing_attachment name [] st else (Inr (), st)))"

definition require_bytes :: "string \<Rightarrow> string \<Rightarrow> string \<Rightarrow> unit step" where
  "require_bytes path code message st =
     (if aq_bytes st path = None then add_issue ''fatal'' code message [(''expected'', JStr path)] st else (Inr (), st))"

definition add_issues :: "quality_issue list \<Rightarrow> unit step" where
  "add_issues issues st = (Inr (), st\<lparr>aq_issues := aq_issues st @ issues\<rparr>)"

section \<open>Inventories and report input\<close>

definition reconcile_step :: "acquire_env \<Rightarrow> string \<Rightarrow> directory_entry list \<Rightarrow> document_row list \<Rightarrow> sgml_document list step" where
  "reconcile_step env accession entries rows =
     and_then (bytes_of (''accession/'' @ accession @ ''.txt'')) (\<lambda>data.
       let docs = parse_sgml_documents data
       in and_then (add_issues (reconcile_sgml_inventory accession (map de_name entries) rows docs)) (\<lambda>_.
          and_then (stop_if_fatal ''fatal SGML reconciliation issues'') (\<lambda>_. pure_step (Inr docs))))"

fun is_unsupported :: "exn \<Rightarrow> bool" where
  "is_unsupported (UnsupportedReportInput _) = True"
| "is_unsupported _ = False"

definition identify_step :: "acquire_env \<Rightarrow> accession_metadata \<Rightarrow> document_row list \<Rightarrow> sgml_document list \<Rightarrow> report_input step" where
  "identify_step env meta rows docs st =
     (case identify_report_input (ev_xml env) (am_cik meta) (am_accession meta) (am_form_type meta) (am_primary_document meta)
        rows docs (aq_bytes st) (map_of (aq_digests st)) of
        Inr (r, issues) \<Rightarrow> and_then (add_issues issues) (\<lambda>_. pure_step (Inr r)) st
      | Inl e \<Rightarrow>
          if is_unsupported e
          then and_then (add_issue ''fatal'' ''UNSUPPORTED_REPORT_INPUT'' (snd (ev_exn_text env e)) []) (\<lambda>_. raise_step e) st
          else (Inl e, st))"

text \<open>The URIs of the accession's own documents.\<close>

definition accession_uri_map :: "string \<Rightarrow> (string \<times> string) list \<Rightarrow> (string \<times> string \<times> string) list res" where
  "accession_uri_map archive digests =
     res_bind (map_res (\<lambda>(logical, digest). res_bind (normalize_uri ALLOWED_SCHEMES (archive @ drop 10 logical))
         (\<lambda>uri. Inr (uri, digest, logical))) (filter (\<lambda>(logical, _). startswith logical ''accession/'') digests))
       (\<lambda>kvs. Inr (fold (\<lambda>(k, v) m. AList.update k v m) kvs []))"

definition resource_code :: "exn \<Rightarrow> string" where
  "resource_code e =
     (if e = MaxFileBytesExceeded \<or> e = SizeLimitExceeded then ''MAX_FILE_BYTES_EXCEEDED''
      else if e = MaxExternalDependencyBytesExceeded then ''MAX_EXTERNAL_DEPENDENCY_BYTES_EXCEEDED''
      else if e = MaxRedirectsExceeded then ''MAX_REDIRECTS_EXCEEDED''
      else if e = MaxBundleBytesExceeded then ''MAX_BUNDLE_BYTES_EXCEEDED''
      else if is_destination_forbidden e then ''DESTINATION_FORBIDDEN''
      else ''ACQUISITION_FAILURE'')"

definition issue_from_safeguard :: "acquire_env \<Rightarrow> exn \<Rightarrow> unit step" where
  "issue_from_safeguard env e =
     add_issue ''fatal'' (resource_code e) (snd (ev_exn_text env e)) [(''exception_type'', JStr (fst (ev_exn_text env e)))]"

definition discover_step :: "acquire_env \<Rightarrow> string \<Rightarrow> report_input \<Rightarrow> closure_discovery step" where
  "discover_step env archive report_input st =
     and_then (pure_step (accession_uri_map archive (aq_digests st))) (\<lambda>amap st.
     and_then (on_fetch (run_online_closure (ev_sha env) (ev_loads env) (ev_py_str env) (ev_exn_text env)
         (ev_launch env (fs_store (aq_fetch st)))
         (fetch_to_store (ev_sha env) (ev_fetcher env) (ev_network env)) (ev_data_root env) report_input amap
         (int (ev_max_external_dependency_bytes env)) (int (budget_remaining env st)) (ev_user_agent env))) (\<lambda>d.
       case cd_fatal_safeguard d of
         Some e \<Rightarrow> and_then (issue_from_safeguard env e) (\<lambda>_. raise_step e)
       | None \<Rightarrow>
           if \<not> cd_load_completed d \<or> cd_errors d \<noteq> [] \<or> cd_network_attempts d \<noteq> [] \<or> cd_unresolved_documents d \<noteq> []
           then and_then (add_issue ''fatal'' ''ONLINE_CLOSURE_FAILED'' ''online closure gate failed''
                  [(''load_completed'', JBool (cd_load_completed d)), (''errors'', JArr (cd_errors d)),
                   (''network_attempts'', JArr (cd_network_attempts d)), (''unresolved_documents'', JArr (cd_unresolved_documents d))])
                  (\<lambda>_. raise_step (RuntimeError ''online closure failed''))
           else pure_step (Inr d)) st) st"

definition capture_external :: "acquire_env \<Rightarrow> external_document \<Rightarrow> unit step" where
  "capture_external env x st =
     (if has_artifact (xd_artifact_path x) st
      then register (ev_max_bundle_bytes env) (xd_artifact_path x) (xd_content_sha256 x) (xd_byte_size x) st
      else (case object_exists (fs_store (aq_fetch st)) (xd_content_sha256 x) of
          Inl e \<Rightarrow> (Inl e, st)
        | Inr False \<Rightarrow> (Inl (RuntimeError ''missing external CAS object''), st)
        | Inr True \<Rightarrow> add_object env (xd_artifact_path x) (xd_content_sha256 x) (xd_byte_size x) ''external'' True st))"

section \<open>The bundle\<close>

definition ACQUISITION_POLICY_VERSION :: string where
  "ACQUISITION_POLICY_VERSION = ''acq-v1''"

definition assemble_bundle ::
  "acquire_env \<Rightarrow> accession_metadata \<Rightarrow> report_input \<Rightarrow> uri_binding list \<Rightarrow> bundle_artifact list \<Rightarrow> filing_bundle res" where
  "assemble_bundle env meta report_input bindings artifacts =
     res_bind (mk_filing_identity \<lparr>fi_cik = am_cik meta, fi_accession = am_accession meta, fi_form_type = am_form_type meta,
       fi_filing_date = am_filing_date meta, fi_accepted_at = am_accepted_at meta,
       fi_report_period_end = am_report_period_end meta, fi_primary_document = am_primary_document meta\<rparr>) (\<lambda>filing.
     let sorted_artifacts = sort_key ba_logical_path artifacts
     in res_bind (compute_payload_hash (ev_sha env) (map Payload_artifact sorted_artifacts)) (\<lambda>payload_hash.
        mk_filing_bundle \<lparr>fb_filing = filing, fb_payload_hash = payload_hash, fb_artifacts = sorted_artifacts,
          fb_report_inputs = [report_input], fb_uri_bindings = bindings, fb_schema_version = 1,
          fb_acquisition_policy_version = ACQUISITION_POLICY_VERSION\<rparr>))"

definition publish_bundle :: "acquire_env \<Rightarrow> filing_bundle \<Rightarrow> publish_result step" where
  "publish_bundle env b st =
     (case Store.publish (ev_sha env) (ev_uuid env) b \<lparr>rp_store = fs_store (aq_fetch st), rp_root = aq_root st\<rparr> of
        (r, repo) \<Rightarrow> (r, st\<lparr>aq_root := rp_root repo\<rparr>))"

definition replay_step :: "acquire_env \<Rightarrow> filing_bundle \<Rightarrow> unit step" where
  "replay_step env b st =
     (res_bind (validate_offline_replay (ev_loads env) (ev_py_str env) (ev_launch env (fs_store (aq_fetch st))) b (ev_data_root env))
        (\<lambda>v. if replay_faithful v then Inr () else Inl (RuntimeError ''offline replay failed'')), st)"

definition finish_step ::
  "acquire_env \<Rightarrow> accession_metadata \<Rightarrow> report_input \<Rightarrow> uri_binding list \<Rightarrow> (filing_bundle \<times> publish_result) step" where
  "finish_step env meta report_input bindings st =
     and_then (pure_step (assemble_bundle env meta report_input bindings (aq_artifacts st))) (\<lambda>b.
     and_then (pure_step (validate_bundle_structure (ev_sha env) b)) (\<lambda>_.
     and_then (replay_step env b) (\<lambda>_.
     and_then (publish_bundle env b) (\<lambda>p. pure_step (Inr (b, p)))))) st"

section \<open>An acquisition\<close>

definition collect_accession ::
  "acquire_env \<Rightarrow> accession_metadata \<Rightarrow> string \<Rightarrow> (directory_entry list \<times> document_row list) step" where
  "collect_accession env meta archive =
     and_then (capture_discovery env meta) (\<lambda>_.
     and_then (capture_index_json env archive) (\<lambda>entries.
     and_then (for_each (capture_index env archive) (index_names (am_accession meta))) (\<lambda>_.
     and_then (index_rows env archive) (\<lambda>rows.
     and_then (for_each (capture_entry env (am_accession meta) rows) entries) (\<lambda>_.
     and_then (require_bytes (''accession/'' @ am_accession meta @ ''.txt'') ''MISSING_COMPLETE_SUBMISSION'' ''complete submission text missing'') (\<lambda>_.
     and_then (require_bytes (''accession/'' @ am_primary_document meta) ''MISSING_PRIMARY_DOCUMENT'' ''primary document missing from accession directory'') (\<lambda>_.
     and_then (stop_if_fatal ''fatal acquisition completeness issues'') (\<lambda>_. pure_step (Inr (entries, rows))))))))))"

definition find_filing :: "acquire_env \<Rightarrow> string \<Rightarrow> (accession_metadata \<times> string) step" where
  "find_filing env accession =
     and_then (on_fetch (lookup_accession_metadata (ev_sha env) (ev_fetcher env) (ev_network env) (ev_loads env) (ev_py_str env)
         (ev_fromisoformat env) accession (ev_max_file_bytes env))) (\<lambda>(meta, meta_issues).
     and_then (add_issues meta_issues) (\<lambda>_.
       pure_step (res_bind (accession_archive_base (am_cik meta) accession) (\<lambda>archive. Inr (meta, archive)))))"

definition report_stage :: "acquire_env \<Rightarrow> accession_metadata \<Rightarrow> directory_entry list \<Rightarrow> document_row list \<Rightarrow> report_input step" where
  "report_stage env meta entries rows =
     and_then (reconcile_step env (am_accession meta) entries rows) (\<lambda>docs. identify_step env meta rows docs)"

definition closure_stage :: "acquire_env \<Rightarrow> string \<Rightarrow> report_input \<Rightarrow> closure_discovery step" where
  "closure_stage env archive report_input =
     and_then (discover_step env archive report_input) (\<lambda>d.
     and_then (for_each (capture_external env) (cd_external_documents d)) (\<lambda>_. pure_step (Inr d)))"

definition acquire_body :: "acquire_env \<Rightarrow> string \<Rightarrow> (filing_bundle \<times> publish_result) step" where
  "acquire_body env accession =
     and_then (find_filing env accession) (\<lambda>(meta, archive).
     and_then (collect_accession env meta archive) (\<lambda>(entries, rows).
     and_then (report_stage env meta entries rows) (\<lambda>report_input.
     and_then (closure_stage env archive report_input) (\<lambda>d.
       finish_step env meta report_input (cd_uri_bindings d)))))"

text \<open>What \<^verbatim>\<open>_write_attempt\<close> records.\<close>

record attempt_record =
  at_attempt_id :: string
  at_accession :: string
  at_cik :: string
  at_success :: bool
  at_observations :: "fetch_trace list"
  at_issues :: "quality_issue list"
  at_result :: "(string \<times> bool \<times> string) option"
  at_terminal_error :: "(string \<times> string) option"

record service =
  sv_fetch :: fetch_state
  sv_root :: "string \<times> string \<rightharpoonup> listing"
  sv_attempts :: "attempt_record list"

record acquisition_result =
  ar_bundle :: filing_bundle
  ar_publish :: publish_result
  ar_issues :: "quality_issue list"

definition start_state :: "service \<Rightarrow> acquire_state" where
  "start_state sv = \<lparr>aq_members = [], aq_artifacts = [], aq_bytes = (\<lambda>_. None), aq_digests = [], aq_issues = [],
     aq_fetch = (sv_fetch sv)\<lparr>fs_sink := []\<rparr>, aq_root = sv_root sv\<rparr>"

text \<open>The handler of \<^verbatim>\<open>acquire\<close>: a safeguard that has left no fatal issue becomes one.\<close>

definition note_safeguard :: "acquire_env \<Rightarrow> exn \<Rightarrow> acquire_state \<Rightarrow> acquire_state" where
  "note_safeguard env e st =
     (if \<not> list_ex fatal (aq_issues st) \<and> is_safeguard e then snd (issue_from_safeguard env e st) else st)"

definition acquire :: "acquire_env \<Rightarrow> string \<Rightarrow> string \<Rightarrow> service \<Rightarrow> acquisition_result res \<times> service" where
  "acquire env attempt_id accession sv =
     (case res_bind (validate_accession accession) accession_to_cik of
        Inl e \<Rightarrow> (Inl e, sv)
      | Inr cik \<Rightarrow>
          if attempt_id \<in> set (map at_attempt_id (sv_attempts sv)) then (Inl (FileExistsError attempt_id), sv)
          else (let (r, st) = acquire_body env accession (start_state sv);
                    st = (case r of Inl e \<Rightarrow> note_safeguard env e st | Inr _ \<Rightarrow> st);
                    attempt = \<lparr>at_attempt_id = attempt_id, at_accession = accession, at_cik = cik, at_success = is_ok r,
                      at_observations = fs_sink (aq_fetch st), at_issues = aq_issues st,
                      at_result = (case r of Inl _ \<Rightarrow> None
                        | Inr (b, p) \<Rightarrow> Some (pr_opaque_id p, pr_reused p, fb_payload_hash b)),
                      at_terminal_error = (case r of Inl e \<Rightarrow> Some (ev_exn_text env e) | Inr _ \<Rightarrow> None)\<rparr>
                in (res_bind r (\<lambda>(b, p). Inr \<lparr>ar_bundle = b, ar_publish = p, ar_issues = aq_issues st\<rparr>),
                    \<lparr>sv_fetch = aq_fetch st, sv_root = aq_root st, sv_attempts = sv_attempts sv @ [attempt]\<rparr>)))"

end
