(* ===== verification/Acquisition_Props.thy ===== *)
theory Acquisition_Props
  imports Acquisition Publication
begin

text \<open>
  What an acquisition guarantees: the bundle it publishes is sound, stored and within the payload budget,
  its requests go to permitted addresses, and every attempt leaves one record.
\<close>

section \<open>What every step keeps\<close>

abbreviation the_store :: "acquire_state \<Rightarrow> store" where
  "the_store st \<equiv> fs_store (aq_fetch st)"

definition sized :: "acquire_env \<Rightarrow> store \<Rightarrow> string \<Rightarrow> nat \<Rightarrow> bool" where
  "sized env s digest n = (\<exists>data. open_bytes (ev_sha env) s digest = Inr data \<and> length data = n)"

definition collected_artifact :: "acquire_env \<Rightarrow> acquire_state \<Rightarrow> bundle_artifact \<Rightarrow> bool" where
  "collected_artifact env st a =
     (0 \<le> co_byte_size (ba_content a) \<and> sized env (the_store st) (co_sha256 (ba_content a)) (nat (co_byte_size (ba_content a))))"

definition member_of :: "bundle_artifact \<Rightarrow> string \<times> string \<times> nat" where
  "member_of a = (ba_logical_path a, co_sha256 (ba_content a), nat (co_byte_size (ba_content a)))"

definition collected_ok :: "acquire_env \<Rightarrow> acquire_state \<Rightarrow> bool" where
  "collected_ok env st =
     (aq_members st = map member_of (aq_artifacts st) \<and> distinct (map ba_logical_path (aq_artifacts st)) \<and>
      committed (aq_members st) \<le> ev_max_bundle_bytes env \<and> list_all (collected_artifact env st) (aq_artifacts st) \<and>
      dom (aq_bytes st) \<subseteq> ba_logical_path ` set (aq_artifacts st))"

definition fetched_more :: "fetch_state \<Rightarrow> fetch_state \<Rightarrow> bool" where
  "fetched_more s s' =
     (fs_store s \<subseteq>\<^sub>m fs_store s' \<and> (\<exists>rqs. fs_requests s' = fs_requests s @ rqs \<and> list_all public_request rqs))"

definition step_ok :: "acquire_env \<Rightarrow> 'a step \<Rightarrow> bool" where
  "step_ok env m =
     (\<forall>st r st'. m st = (r, st') \<longrightarrow> fetched_more (aq_fetch st) (aq_fetch st') \<and>
        (is_ok r \<longrightarrow> collected_ok env st \<longrightarrow> collected_ok env st'))"

lemma fetched_more_refl [simp]: "fetched_more s s"
  by (simp add: fetched_more_def)

lemma fetched_more_trans: "fetched_more a b \<Longrightarrow> fetched_more b c \<Longrightarrow> fetched_more a c"
  unfolding fetched_more_def by (metis append.assoc list_all_append map_le_trans)

lemma fetch_more: "fetch_to_store sha f nw url n s = (r, s') \<Longrightarrow> fetched_more s s'"
  using fetch_store_grows [of sha f nw url n s r s'] fetch_ends(4) [of sha f nw url n s r s'] unfolding fetched_more_def by blast

lemma sized_mono: "sized env s d n \<Longrightarrow> s \<subseteq>\<^sub>m s' \<Longrightarrow> sized env s' d n"
  by (force simp: sized_def open_bytes_def path_for_def map_le_def dom_def split: option.splits if_splits)

lemma collected_ok_fetched: "collected_ok env st \<Longrightarrow> the_store st \<subseteq>\<^sub>m fs_store s \<Longrightarrow> collected_ok env (st\<lparr>aq_fetch := s\<rparr>)"
  unfolding collected_ok_def collected_artifact_def list_all_iff by (auto intro: sized_mono)

lemma collected_artifact_frame [simp]:
  "collected_artifact env (st\<lparr>aq_issues := is\<rparr>) = collected_artifact env st"
  "collected_artifact env (st\<lparr>aq_root := r\<rparr>) = collected_artifact env st"
  by (rule ext, simp add: collected_artifact_def)+

lemma collected_ok_issues [simp]: "collected_ok env (st\<lparr>aq_issues := is\<rparr>) = collected_ok env st"
  by (simp add: collected_ok_def)

lemma collected_ok_root [simp]: "collected_ok env (st\<lparr>aq_root := r\<rparr>) = collected_ok env st"
  by (simp add: collected_ok_def)

lemma step_okI:
  assumes "\<And>st r st'. m st = (r, st') \<Longrightarrow> fetched_more (aq_fetch st) (aq_fetch st')"
    and "\<And>st x st'. m st = (Inr x, st') \<Longrightarrow> collected_ok env st \<Longrightarrow> collected_ok env st'"
  shows "step_ok env m"
  using assms unfolding step_ok_def is_ok_iff by blast

lemma step_ok_and_then:
  assumes "step_ok env m" and "\<And>x. step_ok env (k x)"
  shows "step_ok env (and_then m k)"
proof (rule step_okI)
  fix st r st'
  assume run: "and_then m k st = (r, st')"
  obtain r1 t where m: "m st = (r1, t)" by (metis surj_pair)
  then have "fetched_more (aq_fetch st) (aq_fetch t)" using assms(1) by (simp add: step_ok_def)
  moreover have "fetched_more (aq_fetch t) (aq_fetch st')"
    using run m assms(2) by (cases r1) (auto simp: and_then_def step_ok_def)
  ultimately show "fetched_more (aq_fetch st) (aq_fetch st')" by (rule fetched_more_trans)
next
  fix st x st'
  assume "and_then m k st = (Inr x, st')" and ok: "collected_ok env st"
  then obtain y t where "m st = (Inr y, t)" "k y t = (Inr x, st')" unfolding and_then_Inr by blast
  then show "collected_ok env st'" using assms ok unfolding step_ok_def by (metis is_ok_simps(1))
qed

lemma step_ok_quiet:
  assumes "\<And>st r st'. m st = (r, st') \<Longrightarrow> aq_fetch st' = aq_fetch st \<and> (collected_ok env st \<longrightarrow> collected_ok env st')"
  shows "step_ok env m"
  using assms by (intro step_okI) auto

lemma step_ok_basics [simp, intro]:
  "step_ok env (pure_step r)" "step_ok env (raise_step e)" "step_ok env (add_issue sev code msg ctx)" "step_ok env (add_issues is)"
  "step_ok env (stop_if_fatal message)" "step_ok env (bytes_of p)" "step_ok env (index_rows env archive)" "step_ok env (require_bytes p code msg)"
  "step_ok env (missing_attachment name context)" "step_ok env (issue_from_safeguard env e)" "step_ok env (replay_step env b)"
  "step_ok env (publish_bundle env b)"
  by (rule step_ok_quiet; auto simp: raise_step_def add_issue_def add_issues_def stop_if_fatal_def bytes_of_def index_rows_def
      require_bytes_def missing_attachment_def issue_from_safeguard_def replay_step_def publish_bundle_def split: if_splits option.splits prod.splits)+

lemma step_ok_for_each: "(\<And>x. step_ok env (f x)) \<Longrightarrow> step_ok env (for_each f xs)"
  by (induction xs) (auto intro: step_ok_and_then)

lemma step_ok_on_fetch:
  assumes "\<And>s r s'. m s = (r, s') \<Longrightarrow> fetched_more s s'"
  shows "step_ok env (on_fetch m)"
proof (rule step_okI)
  fix st r st'
  assume "on_fetch m st = (r, st')"
  then show "fetched_more (aq_fetch st) (aq_fetch st')" using assms by (auto simp: on_fetch_def split: prod.splits)
next
  fix st x st'
  assume "on_fetch m st = (Inr x, st')" and "collected_ok env st"
  moreover from this(1) obtain s where "m (aq_fetch st) = (Inr x, s)" "st' = st\<lparr>aq_fetch := s\<rparr>"
    by (auto simp: on_fetch_def split: prod.splits)
  ultimately show "collected_ok env st'"
    using assms collected_ok_fetched by (metis fetched_more_def)
qed

section \<open>Collecting objects\<close>

lemma add_object_frame: "add_object env p d n kind required st = (r, st') \<Longrightarrow> aq_fetch st' = aq_fetch st"
  by (auto simp: add_object_def and_then_def register_def Let_def split: option.splits sum.splits if_splits prod.splits)

lemma register_ok:
  assumes "register limit p d n st = (Inr u, st')" and "aq_members st = map member_of (aq_artifacts st)"
  shows "(p \<in> ba_logical_path ` set (aq_artifacts st) \<and> st' = st) \<or>
    (p \<notin> ba_logical_path ` set (aq_artifacts st) \<and> committed (aq_members st) + n \<le> limit \<and>
     st' = st\<lparr>aq_members := aq_members st @ [(p, d, n)]\<rparr>)"
proof -
  have "fst ` set (aq_members st) = ba_logical_path ` set (aq_artifacts st)"
    by (simp add: assms(2) image_image member_of_def)
  then show ?thesis using assms(1) map_of_eq_None_iff [of "aq_members st" p]
    by (auto simp: register_def split: option.splits if_splits)
qed

lemma has_artifact_iff: "has_artifact p st \<longleftrightarrow> p \<in> ba_logical_path ` set (aq_artifacts st)"
  by (auto simp: has_artifact_def list_ex_iff)

lemma add_object_ok:
  assumes "add_object env p d n kind required st = (Inr u, st')" and "sized env (the_store st) d n" and "collected_ok env st"
  shows "collected_ok env st'"
proof -
  have members: "aq_members st = map member_of (aq_artifacts st)" using assms(3) by (simp add: collected_ok_def)
  obtain t where reg: "register (ev_max_bundle_bytes env) p d n st = (Inr (), t)"
    using assms(1) by (auto simp: add_object_def and_then_Inr)
  show ?thesis
  proof (cases "p \<in> ba_logical_path ` set (aq_artifacts st)")
    case True
    then have "t = st" using register_ok [OF reg members] by auto
    then have "st' = st" using assms(1) reg True by (simp add: add_object_def and_then_def has_artifact_iff)
    then show ?thesis using assms(3) by simp
  next
    case False
    then have t: "t = st\<lparr>aq_members := aq_members st @ [(p, d, n)]\<rparr>" "committed (aq_members st) + n \<le> ev_max_bundle_bytes env"
      using register_ok [OF reg members] by auto
    let ?a = "\<lparr>ba_logical_path = p, ba_content = \<lparr>co_sha256 = d, co_byte_size = int n\<rparr>, ba_artifact_kind = kind, ba_required = required\<rparr>"
    obtain data where st': "st' = t\<lparr>aq_artifacts := aq_artifacts st @ [?a], aq_bytes := (aq_bytes st)(p \<mapsto> data),
        aq_digests := AList.update p d (aq_digests st)\<rparr>"
      using assms(1) reg False t(1)
      by (auto simp: add_object_def and_then_def has_artifact_iff Let_def mk_content_object_def mk_bundle_artifact_def res_bind_Inr_iff
          validate_logical_path_def split: sum.splits if_splits)
    have "collected_artifact env st' a" if "collected_artifact env st a" for a
      using that by (simp add: collected_artifact_def st' t(1))
    moreover have "collected_artifact env st' ?a" using assms(2) by (simp add: collected_artifact_def st' t(1))
    ultimately show ?thesis using assms(3) False t(2)
      by (auto simp: collected_ok_def st' t(1) member_of_def committed_def list_all_iff)
  qed
qed

lemma client_fetch_run:
  assumes "client_fetch env url n st = (r, st')"
  obtains s where "fetch_to_store (ev_sha env) (ev_fetcher env) (ev_network env) url n (aq_fetch st) = (r, s)" and "st' = st\<lparr>aq_fetch := s\<rparr>"
  using assms by (auto simp: client_fetch_def on_fetch_def split: prod.splits)

lemma fetched_sized:
  assumes "fetch_to_store (ev_sha env) (ev_fetcher env) (ev_network env) url n s = (Inr (x, obj), s')"
  shows "sized env (fs_store s') (so_sha256 obj) (so_byte_size obj)"
  using http.fetch_stored [OF assms] by (auto simp: sized_def stored_bytes_iff)

lemma step_ok_fetch_put [intro]: "step_ok env (fetch_put env url p kind required optional_absence)"
proof (rule step_okI)
  let ?m = "fetch_put env url p kind required optional_absence"
  fix st r st'
  assume run: "?m st = (r, st')"
  define limit where "limit = min (ev_max_file_bytes env) (budget_remaining env st)"
  note put = fetch_put_def Let_def limit_def [symmetric]
  show "fetched_more (aq_fetch st) (aq_fetch st')"
  proof (cases "has_artifact p st \<or> limit = 0")
    case True
    then show ?thesis using run by (auto simp: put split: if_splits)
  next
    case False
    obtain fr t where f: "client_fetch env url limit st = (fr, t)" by (metis surj_pair)
    then have "fetched_more (aq_fetch st) (aq_fetch t)" by (rule client_fetch_run) (simp add: fetch_more)
    moreover have "aq_fetch st' = aq_fetch t"
      using run False f add_object_frame
      by (auto simp: put and_then_def add_issue_def split: sum.splits if_splits prod.splits)
    ultimately show ?thesis by simp
  qed
next
  let ?m = "fetch_put env url p kind required optional_absence"
  fix st x st'
  assume run: "?m st = (Inr x, st')" and ok: "collected_ok env st"
  define limit where "limit = min (ev_max_file_bytes env) (budget_remaining env st)"
  note put = fetch_put_def Let_def limit_def [symmetric]
  show "collected_ok env st'"
  proof (cases "has_artifact p st \<or> limit = 0")
    case True
    then show ?thesis using run ok by (auto simp: put split: if_splits)
  next
    case False
    obtain fr t where f: "client_fetch env url limit st = (fr, t)" by (metis surj_pair)
    obtain s where s: "fetch_to_store (ev_sha env) (ev_fetcher env) (ev_network env) url limit (aq_fetch st) = (fr, s)"
        "t = st\<lparr>aq_fetch := s\<rparr>" by (rule client_fetch_run [OF f])
    have t: "collected_ok env t" using collected_ok_fetched [OF ok] fetch_store_grows [OF s(1)] s(2) by simp
    show ?thesis
    proof (cases fr)
      case (Inl e)
      then show ?thesis using run False f t
        by (auto simp: put and_then_def add_issue_def split: if_splits)
    next
      case (Inr y)
      obtain fx obj where y: "y = (fx, obj)" by (cases y)
      then obtain t2 where "add_object env p (so_sha256 obj) (so_byte_size obj) kind required t = (Inr (), t2)" "st' = t2"
        using run False f Inr by (auto simp: put and_then_Inr)
      moreover have "sized env (the_store t) (so_sha256 obj) (so_byte_size obj)"
        using fetched_sized s Inr y by simp
      ultimately show ?thesis using add_object_ok t by blast
    qed
  qed
qed

lemma put_bytes_sized:
  assumes "put_bytes (ev_sha env) data s = Inr (obj, s')"
  shows "sized env s' (so_sha256 obj) (so_byte_size obj) \<and> s \<subseteq>\<^sub>m s'"
  using assms open_bytes_ok [of "ev_sha env data" "ev_sha env" s' data]
  by (auto simp: sized_def put_bytes_def path_for_def Let_def res_bind_Inr_iff map_le_def split: option.splits if_splits)

lemma step_ok_capture_discovery [intro]: "step_ok env (capture_discovery env meta)"
proof (rule step_okI)
  fix st r st'
  assume "capture_discovery env meta st = (r, st')"
  then show "fetched_more (aq_fetch st) (aq_fetch st')"
    using put_bytes_sized
    by (auto simp: capture_discovery_def Let_def and_then_def store_bytes_def fetched_more_def dest!: add_object_frame
        split: if_splits sum.splits prod.splits)
next
  fix st x st'
  assume run: "capture_discovery env meta st = (Inr x, st')" and ok: "collected_ok env st"
  then obtain obj t where t: "store_bytes env (dumps_indent 0 (sort_keys (am_discovery meta)) @ [CHR 0x0A]) st = (Inr obj, t)"
      "add_object env ''metadata/discovery.json'' (so_sha256 obj) (so_byte_size obj) ''discovery'' True t = (Inr x, st')"
    by (auto simp: capture_discovery_def Let_def and_then_Inr split: if_splits)
  then have "sized env (the_store t) (so_sha256 obj) (so_byte_size obj) \<and> collected_ok env t"
    using put_bytes_sized collected_ok_fetched [OF ok] by (auto simp: store_bytes_def split: sum.splits)
  then show "collected_ok env st'" using add_object_ok t(2) by blast
qed

section \<open>The stages\<close>

lemma step_ok_if: "step_ok env m \<Longrightarrow> step_ok env n \<Longrightarrow> (\<And>st. k st = (if P st then m st else n st)) \<Longrightarrow> step_ok env k"
  unfolding step_ok_def by metis

lemma step_ok_eq: "step_ok env m \<Longrightarrow> (\<And>st. k st = m st) \<Longrightarrow> step_ok env k"
  unfolding step_ok_def by metis

lemma step_ok_capture_index_json [intro]: "step_ok env (capture_index_json env archive)"
  unfolding capture_index_json_def by (intro step_ok_and_then step_ok_fetch_put step_ok_basics)

lemma step_ok_capture_index [intro]: "step_ok env (capture_index env archive i)"
proof (cases i)
  case (fields name logical kind required)
  show ?thesis
    by (rule step_ok_if [of env "pure_step (Inr ())" "and_then (fetch_put env (archive @ name) logical kind required (\<not> required)) (\<lambda>_. pure_step (Inr ()))"
          _ "has_artifact logical"])
      (auto intro: step_ok_and_then simp: capture_index_def fields pure_step_def)
qed

text \<open>The exceptions of a step handled by others that raise again.\<close>

lemma step_ok_handler:
  assumes "step_ok env m" and "\<And>e. step_ok env (h e)" and "\<And>x. step_ok env (k x)" and "\<And>e st. \<not> is_ok (fst (h e st))"
    and "\<And>st. n st = (case m st of (Inl e, st) \<Rightarrow> h e st | (Inr x, st) \<Rightarrow> k x st)"
  shows "step_ok env n"
proof (rule step_okI)
  fix st r st'
  assume run: "n st = (r, st')"
  obtain r1 t where m: "m st = (r1, t)" by (metis surj_pair)
  have "fetched_more (aq_fetch st) (aq_fetch t)" using assms(1) m by (simp add: step_ok_def)
  moreover have "fetched_more (aq_fetch t) (aq_fetch st')"
    using run m assms(2,3,5) by (cases r1) (auto simp: step_ok_def)
  ultimately show "fetched_more (aq_fetch st) (aq_fetch st')" by (rule fetched_more_trans)
next
  fix st x st'
  assume run: "n st = (Inr x, st')" and ok: "collected_ok env st"
  obtain r1 t where m: "m st = (r1, t)" by (metis surj_pair)
  show "collected_ok env st'"
  proof (cases r1)
    case (Inl e)
    then have "is_ok (fst (h e t))" using run m assms(5) by simp
    then show ?thesis using assms(4) by blast
  next
    case (Inr y)
    then have "k y t = (Inr x, st')" "collected_ok env t" using run m assms(1,5) ok by (auto simp: step_ok_def)
    then show ?thesis using assms(3) unfolding step_ok_def by (metis is_ok_simps(1))
  qed
qed

lemma step_ok_capture_entry [intro]: "step_ok env (capture_entry env accession rows entry)"
proof -
  let ?name = "de_name entry" and ?row = "row_named rows (de_name entry)"
  obtain c role where c: "classify_source_and_role accession ?name (case ?row of None \<Rightarrow> None | Some r \<Rightarrow> dw_description r)
      (case ?row of None \<Rightarrow> None | Some r \<Rightarrow> dw_document_type r) = (c, role)" by (metis surj_pair)
  let ?required = "c = ''filer_submitted'' \<or> role = ''complete_submission''"
  let ?put = "fetch_put env (de_url entry) (''accession/'' @ ?name) (artifact_kind role c) ?required (c = ''sec_generated_rendering'')"
  let ?h = "\<lambda>e st. if is_safeguard e \<or> \<not> ?required then (Inl e, st)
      else and_then (missing_attachment ?name [(''exception_type'', JStr (fst (ev_exn_text env e))),
             (''error'', JStr (snd (ev_exn_text env e)))]) (\<lambda>_. raise_step e) st"
  let ?k = "\<lambda>ok st. if \<not> ok \<and> ?required then missing_attachment ?name [] st else (Inr (), st)"
  have h: "step_ok env (?h e)" for e
    by (cases "is_safeguard e \<or> \<not> ?required") (auto intro: step_ok_and_then step_ok_eq [OF step_ok_basics(2)] simp: raise_step_def pure_step_def)
  have k: "step_ok env (?k ok)" for ok
    by (cases "\<not> ok \<and> ?required") (auto intro: step_ok_eq [OF step_ok_basics(1)] simp: pure_step_def)
  have hx: "\<not> is_ok (fst (?h e st))" for e st
    by (auto simp: and_then_def missing_attachment_def add_issue_def raise_step_def pure_step_def)
  have put: "step_ok env (\<lambda>st. case ?put st of (Inl e, st) \<Rightarrow> ?h e st | (Inr x, st) \<Rightarrow> ?k x st)"
    by (rule step_ok_handler [where m = "?put" and h = "?h" and k = "?k", OF step_ok_fetch_put h k hx]) simp
  show ?thesis
    by (rule step_ok_if [OF step_ok_basics(1) [of env "Inr ()"] put, of _ "has_artifact (''accession/'' @ ?name)"])
      (simp add: capture_entry_def Let_def c pure_step_def)
qed

lemma step_ok_collect [intro]: "step_ok env (collect_accession env meta archive)"
  unfolding collect_accession_def
  by (intro step_ok_and_then step_ok_basics step_ok_for_each step_ok_capture_discovery step_ok_capture_index_json
      step_ok_capture_index step_ok_capture_entry)

lemma step_ok_reconcile [intro]: "step_ok env (reconcile_step env accession entries rows)"
  unfolding reconcile_step_def Let_def by (intro step_ok_and_then step_ok_basics)

lemma step_ok_identify [intro]: "step_ok env (identify_step env meta rows docs)"
proof (rule step_ok_quiet)
  fix st r st'
  assume "identify_step env meta rows docs st = (r, st')"
  then show "aq_fetch st' = aq_fetch st \<and> (collected_ok env st \<longrightarrow> collected_ok env st')"
    by (auto simp: identify_step_def and_then_def add_issue_def add_issues_def raise_step_def pure_step_def split: sum.splits if_splits prod.splits)
qed

lemma fetch_json_more: "fetch_json sha f nw loads n url s = (r, s') \<Longrightarrow> fetched_more s s'"
  using fetch_more [of sha f nw url n s] by (auto simp: fetch_json_def and_then_def split: sum.splits prod.splits)

lemma search_shards_more: "search_shards sha f nw loads py_str n accession metas s = (r, s') \<Longrightarrow> fetched_more s s'"
proof (induction sha f nw loads py_str n accession metas s rule: search_shards.induct)
  case (2 sha f nw loads py_str n accession meta metas s)
  show ?case
  proof (cases "\<exists>name. json_get meta ''name'' = Inr name \<and> \<not> falsy (or_default name JNull)")
    case False
    then show ?thesis using "2.prems" "2.IH"(1) by (auto split: sum.splits if_splits)
  next
    case True
    then obtain name where name: "json_get meta ''name'' = Inr name" "\<not> falsy (or_default name JNull)" by blast
    let ?url = "''https://data.sec.gov/submissions/'' @ (case name of Some (JStr s) \<Rightarrow> s | Some v \<Rightarrow> py_str v | None \<Rightarrow> [])"
    obtain r1 t where f: "fetch_json sha f nw loads n ?url s = (r1, t)" by (metis surj_pair)
    note t = fetch_json_more [OF f]
    show ?thesis
    proof (cases "\<exists>v digest. r1 = Inr (v, digest) \<and> find_in_shard v accession = Inr None")
      case False
      then have "s' = t" using "2.prems" name f by (auto simp: and_then_def split: sum.splits option.splits)
      then show ?thesis using t by simp
    next
      case True
      then obtain v digest where v: "r1 = Inr (v, digest)" "find_in_shard v accession = Inr None" by blast
      then have "search_shards sha f nw loads py_str n accession metas t = (r, s')" using "2.prems" name f by (simp add: and_then_def)
      then have "fetched_more t s'" by (rule "2.IH"(2) [OF name v(2) refl])
      then show ?thesis using t fetched_more_trans by blast
    qed
  qed
qed simp

definition more :: "(fetch_state \<Rightarrow> 'a res \<times> fetch_state) \<Rightarrow> bool" where
  "more m = (\<forall>s r s'. m s = (r, s') \<longrightarrow> fetched_more s s')"

lemma more_and_then:
  assumes "more m" and "\<And>x. more (k x)"
  shows "more (and_then m k)"
  unfolding more_def
proof (intro allI impI)
  fix s r s'
  assume run: "and_then m k s = (r, s')"
  obtain r1 t where m: "m s = (r1, t)" by (metis surj_pair)
  then have "fetched_more s t" using assms(1) by (simp add: more_def)
  moreover have "fetched_more t s'" using run m assms(2) by (cases r1) (auto simp: and_then_def more_def)
  ultimately show "fetched_more s s'" by (rule fetched_more_trans)
qed

lemma more_case_prod: "(\<And>a b. more (f a b)) \<Longrightarrow> more (case_prod f x)"
  by (cases x) simp

lemma lookup_more: "more (lookup_accession_metadata sha f nw loads py_str fi accession n)"
proof -
  have basics: "more (pure_step r)" "more (fetch_json sha f nw loads n url)" "more (search_shards sha f nw loads py_str n accession metas)"
    for r :: "'x res" and url metas
    using fetch_json_more search_shards_more unfolding more_def by auto
  have "more (case row of Some r \<Rightarrow> pure_step (Inr (Some (r, d))) | None \<Rightarrow> historical_row sha f nw loads py_str accession n filings)" for row d filings
    by (cases row) (auto simp: historical_row_def intro: more_and_then basics)
  moreover have "more (case found of None \<Rightarrow> pure_step (Inl e) | Some (r, d) \<Rightarrow> pure_step (k r d))"
    for found :: "(filing_record \<times> string) option" and e and k :: "filing_record \<Rightarrow> string \<Rightarrow> 'y res"
    by (auto intro: basics split: option.splits)
  ultimately show ?thesis unfolding lookup_accession_metadata_def
    by (intro more_and_then more_case_prod basics)
qed

lemma step_ok_lookup [intro]: "step_ok env (on_fetch (lookup_accession_metadata sha f nw loads py_str fi accession n))"
  using lookup_more unfolding more_def by (intro step_ok_on_fetch) blast

lemma closure_more:
  assumes "run_online_closure sha loads py_str exn_text launch (fetch_to_store sha' f nw) root ri amap m a ua s = (r, s')"
  shows "fetched_more s s'"
  by (rule run_online_closure_keeps [where Q = "fetched_more s", OF assms fetched_more_refl])
    (rule fetched_more_trans, assumption, rule fetch_more, assumption)

lemma step_ok_discover [intro]: "step_ok env (discover_step env archive ri)"
proof -
  let ?gate = "\<lambda>d. case cd_fatal_safeguard d of
         Some e \<Rightarrow> and_then (issue_from_safeguard env e) (\<lambda>_. raise_step e)
       | None \<Rightarrow>
           if \<not> cd_load_completed d \<or> cd_errors d \<noteq> [] \<or> cd_network_attempts d \<noteq> [] \<or> cd_unresolved_documents d \<noteq> []
           then and_then (add_issue ''fatal'' ''ONLINE_CLOSURE_FAILED'' ''online closure gate failed''
                  [(''load_completed'', JBool (cd_load_completed d)), (''errors'', JArr (cd_errors d)),
                   (''network_attempts'', JArr (cd_network_attempts d)), (''unresolved_documents'', JArr (cd_unresolved_documents d))])
                  (\<lambda>_. raise_step (RuntimeError ''online closure failed''))
           else pure_step (Inr d)"
  have gate: "step_ok env (?gate d)" for d
    by (cases "cd_fatal_safeguard d") (auto intro: step_ok_and_then)
  let ?run = "\<lambda>st amap. and_then (on_fetch (run_online_closure (ev_sha env) (ev_loads env) (ev_py_str env) (ev_exn_text env)
         (ev_launch env (the_store st)) (fetch_to_store (ev_sha env) (ev_fetcher env) (ev_network env)) (ev_data_root env) ri amap
         (int (ev_max_external_dependency_bytes env)) (int (budget_remaining env st)) (ev_user_agent env))) ?gate"
  have run: "step_ok env (?run st0 amap)" for st0 amap
    by (intro step_ok_and_then step_ok_on_fetch gate) (rule closure_more)
  have "step_ok env (\<lambda>st. ?run st amap st)" for amap
    using run unfolding step_ok_def by blast
  then have "step_ok env (\<lambda>st. and_then (pure_step (accession_uri_map archive ds)) (\<lambda>amap st. ?run st amap st) st)" for ds
    by (intro step_ok_and_then step_ok_basics(1))
  then show ?thesis unfolding step_ok_def discover_step_def by blast
qed

text \<open>The captured documents are stored, so they can be added.\<close>

lemma capture_external_frame: "capture_external env x st = (r, st') \<Longrightarrow> aq_fetch st' = aq_fetch st"
  using add_object_frame by (auto simp: capture_external_def register_def split: sum.splits bool.splits if_splits option.splits)

lemma for_each_external_frame: "for_each (capture_external env) xs st = (r, st') \<Longrightarrow> aq_fetch st' = aq_fetch st"
proof (induction xs arbitrary: st)
  case (Cons x xs)
  obtain r1 t where x: "capture_external env x st = (r1, t)" by (metis surj_pair)
  then show ?case using Cons capture_external_frame [OF x] by (auto simp: and_then_def split: sum.splits)
qed simp

lemma for_each_external_ok:
  assumes "for_each (capture_external env) xs st = (Inr u, st')" and "collected_ok env st"
    and "list_all (\<lambda>x. sized env (the_store st) (xd_content_sha256 x) (xd_byte_size x)) xs"
  shows "collected_ok env st'"
  using assms
proof (induction xs arbitrary: st)
  case (Cons x xs)
  obtain t where x: "capture_external env x st = (Inr (), t)" and rest: "for_each (capture_external env) xs t = (Inr u, st')"
    using Cons.prems(1) by (auto simp: and_then_Inr)
  have "collected_ok env t"
  proof (cases "has_artifact (xd_artifact_path x) st")
    case True
    have members: "aq_members st = map member_of (aq_artifacts st)" using Cons.prems(2) by (simp add: collected_ok_def)
    have "register (ev_max_bundle_bytes env) (xd_artifact_path x) (xd_content_sha256 x) (xd_byte_size x) st = (Inr (), t)"
      using x True by (simp add: capture_external_def)
    then have "t = st" using register_ok [OF _ members] True unfolding has_artifact_iff by blast
    then show ?thesis using Cons.prems(2) by simp
  next
    case False
    then have "add_object env (xd_artifact_path x) (xd_content_sha256 x) (xd_byte_size x) ''external'' True st = (Inr (), t)"
      using x by (auto simp: capture_external_def split: sum.splits bool.splits)
    then show ?thesis using add_object_ok Cons.prems(2,3) by simp
  qed
  then show ?case using Cons.IH [OF rest] Cons.prems(3) capture_external_frame [OF x] by simp
qed simp

lemma discover_run:
  assumes "discover_step env archive ri st = (Inr d, t)"
  obtains amap s where "run_online_closure (ev_sha env) (ev_loads env) (ev_py_str env) (ev_exn_text env) (ev_launch env (the_store st))
      (fetch_to_store (ev_sha env) (ev_fetcher env) (ev_network env)) (ev_data_root env) ri amap
      (int (ev_max_external_dependency_bytes env)) (int (budget_remaining env st)) (ev_user_agent env) (aq_fetch st) = (Inr d, s)"
    and "t = st\<lparr>aq_fetch := s\<rparr>"
proof -
  obtain amap where 1: "accession_uri_map archive (aq_digests st) = Inr amap"
    using assms by (auto simp: discover_step_def and_then_Inr)
  let ?run = "run_online_closure (ev_sha env) (ev_loads env) (ev_py_str env) (ev_exn_text env) (ev_launch env (the_store st))
      (fetch_to_store (ev_sha env) (ev_fetcher env) (ev_network env)) (ev_data_root env) ri amap
      (int (ev_max_external_dependency_bytes env)) (int (budget_remaining env st)) (ev_user_agent env)"
  obtain r s where 2: "?run (aq_fetch st) = (r, s)" by (metis surj_pair)
  obtain d1 where 3: "r = Inr d1" using assms 1 2
    by (cases r) (auto simp: discover_step_def and_then_def pure_step_def on_fetch_def)
  have "d = d1 \<and> t = st\<lparr>aq_fetch := s\<rparr>"
    using assms 1 2 3
    by (auto simp: discover_step_def and_then_def pure_step_def on_fetch_def raise_step_def add_issue_def issue_from_safeguard_def
        split: option.splits if_splits)
  then show thesis using that 2 3 by blast
qed

lemma discovered_sized:
  assumes "discover_step env archive ri st = (Inr d, t)"
  shows "list_all (\<lambda>x. sized env (the_store t) (xd_content_sha256 x) (xd_byte_size x)) (cd_external_documents d)"
proof -
  obtain amap s where run: "run_online_closure (ev_sha env) (ev_loads env) (ev_py_str env) (ev_exn_text env) (ev_launch env (the_store st))
      (fetch_to_store (ev_sha env) (ev_fetcher env) (ev_network env)) (ev_data_root env) ri amap
      (int (ev_max_external_dependency_bytes env)) (int (budget_remaining env st)) (ev_user_agent env) (aq_fetch st) = (Inr d, s)"
      "t = st\<lparr>aq_fetch := s\<rparr>" by (rule discover_run [OF assms])
  obtain accession cs where "closure_ok (stored_bytes (ev_sha env)) (int (ev_max_external_dependency_bytes env))
        (int (budget_remaining env st)) accession cs" "cs_fetch cs = s"
      "cd_external_documents d = map snd (sort_key fst (cs_external cs))"
    by (rule run_online_closure_captured [OF run(1)])
  then show ?thesis by (auto simp: run(2) closure_ok_def list_all_iff captured_ok_def sized_def stored_bytes_iff)
qed

lemma step_ok_find_filing [intro]: "step_ok env (find_filing env accession)"
  unfolding find_filing_def
proof (rule step_ok_and_then [OF step_ok_lookup])
  fix x :: "accession_metadata \<times> quality_issue list"
  show "step_ok env (case x of (meta, meta_issues) \<Rightarrow> and_then (add_issues meta_issues)
      (\<lambda>_. pure_step (res_bind (accession_archive_base (am_cik meta) accession) (\<lambda>archive. Inr (meta, archive)))))"
    by (cases x) (auto intro: step_ok_and_then)
qed

lemma step_ok_report_stage [intro]: "step_ok env (report_stage env meta entries rows)"
  unfolding report_stage_def by (intro step_ok_and_then step_ok_reconcile step_ok_identify)

lemma step_ok_closure_stage [intro]: "step_ok env (closure_stage env archive ri)"
proof (rule step_okI)
  fix st r st'
  assume run: "closure_stage env archive ri st = (r, st')"
  obtain r1 t where t: "discover_step env archive ri st = (r1, t)" by (metis surj_pair)
  then have "fetched_more (aq_fetch st) (aq_fetch t)" using step_ok_discover unfolding step_ok_def by blast
  moreover have "aq_fetch st' = aq_fetch t"
    using run t for_each_external_frame by (auto simp: closure_stage_def and_then_def pure_step_def split: sum.splits prod.splits)
  ultimately show "fetched_more (aq_fetch st) (aq_fetch st')" by simp
next
  fix st d st'
  assume "closure_stage env archive ri st = (Inr d, st')" and ok: "collected_ok env st"
  then obtain t u where t: "discover_step env archive ri st = (Inr d, t)"
      "for_each (capture_external env) (cd_external_documents d) t = (Inr u, st')"
    by (auto simp: closure_stage_def and_then_Inr)
  have "collected_ok env t" using step_ok_discover t(1) ok unfolding step_ok_def by (metis is_ok_simps(1))
  then show "collected_ok env st'" using for_each_external_ok [OF t(2)] discovered_sized [OF t(1)] by blast
qed

lemma step_ok_finish [intro]: "step_ok env (finish_step env meta ri bindings)"
proof -
  have "step_ok env (\<lambda>st. and_then (pure_step (assemble_bundle env meta ri bindings as)) (\<lambda>b.
     and_then (pure_step (validate_bundle_structure (ev_sha env) b)) (\<lambda>_.
     and_then (replay_step env b) (\<lambda>_. and_then (publish_bundle env b) (\<lambda>p. pure_step (Inr (b, p)))))) st)" for as
    by (intro step_ok_and_then step_ok_basics)
  then show ?thesis unfolding step_ok_def finish_step_def by blast
qed

lemma step_ok_acquire_body: "step_ok env (acquire_body env accession)"
  unfolding acquire_body_def
proof (rule step_ok_and_then [OF step_ok_find_filing])
  fix x :: "accession_metadata \<times> string"
  obtain meta archive where x: "x = (meta, archive)" by (cases x)
  have "step_ok env (case y of (entries, rows) \<Rightarrow> and_then (report_stage env meta entries rows)
      (\<lambda>ri. and_then (closure_stage env archive ri) (\<lambda>d. finish_step env meta ri (cd_uri_bindings d))))" for y
    by (cases y) (auto intro: step_ok_and_then)
  then show "step_ok env (case x of (meta, archive) \<Rightarrow> and_then (collect_accession env meta archive) (\<lambda>(entries, rows).
      and_then (report_stage env meta entries rows) (\<lambda>ri. and_then (closure_stage env archive ri)
        (\<lambda>d. finish_step env meta ri (cd_uri_bindings d)))))"
    by (auto simp: x intro: step_ok_and_then)
qed

section \<open>A finished acquisition\<close>

lemma acquire_body_stages:
  assumes "acquire_body env accession st = (Inr (b, p), st')"
  obtains meta archive entries rows ri d s1 s2 s3 s4 where "find_filing env accession st = (Inr (meta, archive), s1)"
    and "collect_accession env meta archive s1 = (Inr (entries, rows), s2)"
    and "report_stage env meta entries rows s2 = (Inr ri, s3)" and "closure_stage env archive ri s3 = (Inr d, s4)"
    and "finish_step env meta ri (cd_uri_bindings d) s4 = (Inr (b, p), st')"
proof -
  obtain meta archive s1 where 1: "find_filing env accession st = (Inr (meta, archive), s1)"
    using assms by (auto simp: acquire_body_def and_then_Inr)
  obtain entries rows s2 where 2: "collect_accession env meta archive s1 = (Inr (entries, rows), s2)"
    using assms 1 by (auto simp: acquire_body_def and_then_Inr)
  obtain ri s3 where 3: "report_stage env meta entries rows s2 = (Inr ri, s3)"
    using assms 1 2 by (auto simp: acquire_body_def and_then_Inr)
  obtain d s4 where 4: "closure_stage env archive ri s3 = (Inr d, s4)"
    using assms 1 2 3 by (auto simp: acquire_body_def and_then_Inr)
  have "finish_step env meta ri (cd_uri_bindings d) s4 = (Inr (b, p), st')"
    using assms 1 2 3 4 by (simp add: acquire_body_def and_then_def)
  then show thesis using that 1 2 3 4 by blast
qed

lemma find_filing_meta: "find_filing env accession st = (Inr (meta, archive), s1) \<Longrightarrow> am_accession meta = accession"
  using lookup_result by (fastforce simp: find_filing_def and_then_Inr on_fetch_def res_bind_Inr_iff split: prod.splits)

lemma stop_if_fatal_Inr: "stop_if_fatal message st = (Inr u, st') \<longleftrightarrow> \<not> list_ex fatal (aq_issues st) \<and> st' = st"
  by (auto simp: stop_if_fatal_def)

lemma require_bytes_kept:
  "require_bytes p code message st = (Inr u, st') \<Longrightarrow> \<not> list_ex fatal (aq_issues st') \<Longrightarrow>
     aq_bytes st p \<noteq> None \<and> st' = st"
  by (auto simp: require_bytes_def add_issue_def fatal_def split: if_splits)

lemma collect_has:
  assumes "collect_accession env meta archive s1 = (Inr x, s2)"
  shows "aq_bytes s2 (''accession/'' @ am_accession meta @ ''.txt'') \<noteq> None \<and> aq_bytes s2 (''accession/'' @ am_primary_document meta) \<noteq> None"
proof -
  obtain t u v where t: "require_bytes (''accession/'' @ am_accession meta @ ''.txt'') ''MISSING_COMPLETE_SUBMISSION'' ''complete submission text missing'' t = (Inr (), u)"
      "require_bytes (''accession/'' @ am_primary_document meta) ''MISSING_PRIMARY_DOCUMENT'' ''primary document missing from accession directory'' u = (Inr (), v)"
      "stop_if_fatal ''fatal acquisition completeness issues'' v = (Inr (), s2)"
    using assms unfolding collect_accession_def by (simp only: and_then_Inr pure_step_simps old.unit.exhaust) (elim exE conjE, simp)
  then have "\<not> list_ex fatal (aq_issues v)" "s2 = v" by (auto simp: stop_if_fatal_Inr)
  then show ?thesis using t require_bytes_kept by metis
qed

lemma report_stage_frame:
  assumes "report_stage env meta entries rows s2 = (Inr ri, s3)"
  shows "aq_bytes s3 = aq_bytes s2 \<and> \<not> list_ex fatal (aq_issues s3)"
proof -
  obtain docs t where r: "reconcile_step env (am_accession meta) entries rows s2 = (Inr docs, t)"
      and i: "identify_step env meta rows docs t = (Inr ri, s3)"
    using assms by (auto simp: report_stage_def and_then_Inr)
  have t: "\<not> list_ex fatal (aq_issues t) \<and> aq_bytes t = aq_bytes s2"
    using r by (auto simp: reconcile_step_def and_then_Inr Let_def stop_if_fatal_Inr bytes_of_def add_issues_def)
  obtain issues where "identify_report_input (ev_xml env) (am_cik meta) (am_accession meta) (am_form_type meta) (am_primary_document meta)
        rows docs (aq_bytes t) (map_of (aq_digests t)) = Inr (ri, issues)" "s3 = t\<lparr>aq_issues := aq_issues t @ issues\<rparr>"
    using i by (auto simp: identify_step_def and_then_def add_issue_def add_issues_def raise_step_def pure_step_def split: sum.splits if_splits)
  moreover from this(1) have "\<not> list_ex fatal issues" by (rule identify_report_input_cases) blast
  ultimately show ?thesis using t by simp
qed

lemma capture_external_keeps:
  "capture_external env x st = (r, st') \<Longrightarrow> dom (aq_bytes st) \<subseteq> dom (aq_bytes st') \<and> aq_issues st' = aq_issues st"
  by (auto simp: capture_external_def register_def add_object_def and_then_def Let_def split: sum.splits bool.splits if_splits option.splits)

lemma closure_stage_frame:
  assumes "closure_stage env archive ri s3 = (Inr d, s4)"
  shows "dom (aq_bytes s3) \<subseteq> dom (aq_bytes s4) \<and> aq_issues s4 = aq_issues s3"
proof -
  obtain t u where t: "discover_step env archive ri s3 = (Inr d, t)"
      and e: "for_each (capture_external env) (cd_external_documents d) t = (Inr u, s4)"
    using assms by (auto simp: closure_stage_def and_then_Inr)
  have loop: "for_each (capture_external env) xs st = (r, st') \<Longrightarrow> dom (aq_bytes st) \<subseteq> dom (aq_bytes st') \<and> aq_issues st' = aq_issues st"
    for xs st st' and r :: "unit res"
  proof (induction xs arbitrary: st)
    case (Cons x xs)
    obtain r1 t where x: "capture_external env x st = (r1, t)" by (metis surj_pair)
    have keep: "dom (aq_bytes st) \<subseteq> dom (aq_bytes t) \<and> aq_issues t = aq_issues st" by (rule capture_external_keeps [OF x])
    show ?case
    proof (cases r1)
      case (Inl e)
      then show ?thesis using Cons.prems x keep by (simp add: and_then_def)
    next
      case (Inr u)
      then have "for_each (capture_external env) xs t = (r, st')" using Cons.prems x by (simp add: and_then_def)
      from Cons.IH [OF this] keep show ?thesis by (metis order_trans)
    qed
  qed simp
  have "aq_bytes t = aq_bytes s3 \<and> aq_issues t = aq_issues s3" by (rule discover_run [OF t]) simp
  then show ?thesis using loop [OF e] by simp
qed

text \<open>The artifacts of the assembled bundle are stored and within the budget.\<close>

lemma integrity_of_collected:
  assumes "collected_ok env st" and "validate_bundle_structure (ev_sha env) b = Inr ()"
    and "fb_artifacts b = sort_key ba_logical_path (aq_artifacts st)"
  shows "validate_bundle_integrity (ev_sha env) (the_store st) b = Inr ()"
    and "sum_list (map (\<lambda>a. co_byte_size (ba_content a)) (fb_artifacts b)) \<le> int (ev_max_bundle_bytes env)"
proof -
  have each: "list_all (collected_artifact env st) (fb_artifacts b)" using assms(1,3) by (simp add: collected_ok_def list_all_iff)
  have hex: "\<forall>a\<in>set (fb_artifacts b). hex64 (co_sha256 (ba_content a))"
    using each by (auto simp: list_all_iff collected_artifact_def sized_def open_bytes_def path_for_def split: if_splits)
  have "Publication.stored (ev_sha env) (the_store st) a" if "a \<in> set (fb_artifacts b)" for a
  proof -
    have c: "collected_artifact env st a" using each that by (simp add: list_all_iff)
    obtain data where data: "open_bytes (ev_sha env) (the_store st) (co_sha256 (ba_content a)) = Inr data"
        "length data = nat (co_byte_size (ba_content a))" "0 \<le> co_byte_size (ba_content a)"
      using c by (auto simp: collected_artifact_def sized_def)
    have "hex64 (co_sha256 (ba_content a))" using hex that by blast
    then show ?thesis using data open_bytes_ok by (auto simp: Publication.stored_def)
  qed
  then have "\<exists>m. fold_res (check_artifact (ev_sha env) (the_store st)) (fb_artifacts b) (\<lambda>_. None) = Inr m"
    using check_artifacts_iff [OF hex, of "\<lambda>_. None" "the_store st" "ev_sha env"] by (simp add: list_all_iff)
  then show "validate_bundle_integrity (ev_sha env) (the_store st) b = Inr ()"
    using assms(2) by (auto simp: validate_bundle_integrity_def)
  have "sum_list (map (\<lambda>a. co_byte_size (ba_content a)) (fb_artifacts b)) = sum_list (map (\<lambda>a. co_byte_size (ba_content a)) (aq_artifacts st))"
    unfolding assms(3) by (rule sum_list_sort_key)
  also have "\<dots> = int (committed (aq_members st))"
  proof -
    have "sum_list (map (\<lambda>a. co_byte_size (ba_content a)) as) = int (committed (map member_of as))"
      if "list_all (collected_artifact env st) as" for as
      using that by (induction as) (auto simp: committed_def member_of_def collected_artifact_def)
    then show ?thesis using assms(1) by (simp add: collected_ok_def)
  qed
  finally have total: "sum_list (map (\<lambda>a. co_byte_size (ba_content a)) (fb_artifacts b)) = int (committed (aq_members st))" .
  show "sum_list (map (\<lambda>a. co_byte_size (ba_content a)) (fb_artifacts b)) \<le> int (ev_max_bundle_bytes env)"
    unfolding total
  proof -
    have "committed (aq_members st) \<le> ev_max_bundle_bytes env" using assms(1) unfolding collected_ok_def by blast
    then show "int (committed (aq_members st)) \<le> int (ev_max_bundle_bytes env)" by (rule of_nat_mono)
  qed
qed

lemma find_equivalent_same: "find_equivalent b xs = Inr (Some (name, existing)) \<Longrightarrow> bundles_equivalent existing b = Inr True"
  by (induction b xs rule: find_equivalent.induct) (auto simp: res_bind_Inr_iff split: if_splits)

lemma publish_same:
  assumes "publish sha u b r = (Inr p, r')"
  shows "pr_bundle p = b \<or> bundles_equivalent (pr_bundle p) b = Inr True"
  using assms find_equivalent_same
  by (auto simp: publish_def publish_check_def Let_def res_bind_Inr_iff split: sum.splits option.splits if_splits)

lemma finish_result:
  assumes "finish_step env meta ri bindings s4 = (Inr (b, p), st')"
  shows "assemble_bundle env meta ri bindings (aq_artifacts s4) = Inr b" and "validate_bundle_structure (ev_sha env) b = Inr ()"
    and "\<exists>v. validate_offline_replay (ev_loads env) (ev_py_str env) (ev_launch env (the_store s4)) b (ev_data_root env) = Inr v \<and> replay_faithful v"
    and "pr_bundle p = b \<or> bundles_equivalent (pr_bundle p) b = Inr True"
    and "aq_fetch st' = aq_fetch s4" and "aq_issues st' = aq_issues s4"
proof -
  obtain t where a: "assemble_bundle env meta ri bindings (aq_artifacts s4) = Inr b" "validate_bundle_structure (ev_sha env) b = Inr ()"
      and r: "replay_step env b s4 = (Inr (), t)" and p: "publish_bundle env b t = (Inr p, st')"
    using assms by (auto simp: finish_step_def and_then_Inr)
  have t: "t = s4" "\<exists>v. validate_offline_replay (ev_loads env) (ev_py_str env) (ev_launch env (the_store s4)) b (ev_data_root env) = Inr v \<and> replay_faithful v"
    using r by (auto simp: replay_step_def res_bind_Inr_iff split: if_splits)
  obtain repo where "publish (ev_sha env) (ev_uuid env) b \<lparr>rp_store = the_store t, rp_root = aq_root t\<rparr> = (Inr p, repo)"
      "st' = t\<lparr>aq_root := rp_root repo\<rparr>"
    using p by (auto simp: publish_bundle_def split: prod.splits)
  then show "assemble_bundle env meta ri bindings (aq_artifacts s4) = Inr b" "validate_bundle_structure (ev_sha env) b = Inr ()"
    "\<exists>v. validate_offline_replay (ev_loads env) (ev_py_str env) (ev_launch env (the_store s4)) b (ev_data_root env) = Inr v \<and> replay_faithful v"
    "pr_bundle p = b \<or> bundles_equivalent (pr_bundle p) b = Inr True" "aq_fetch st' = aq_fetch s4" "aq_issues st' = aq_issues s4"
    using a t publish_same by auto
qed

lemma assembled:
  assumes "assemble_bundle env meta ri bindings as = Inr b"
  shows "fb_artifacts b = sort_key ba_logical_path as \<and> fi_accession (fb_filing b) = am_accession meta \<and>
    fi_primary_document (fb_filing b) = am_primary_document meta"
proof -
  obtain filing where f: "mk_filing_identity \<lparr>fi_cik = am_cik meta, fi_accession = am_accession meta, fi_form_type = am_form_type meta,
       fi_filing_date = am_filing_date meta, fi_accepted_at = am_accepted_at meta,
       fi_report_period_end = am_report_period_end meta, fi_primary_document = am_primary_document meta\<rparr> = Inr filing"
    using assms by (auto simp: assemble_bundle_def res_bind_Inr_iff)
  have "fi_accession filing = am_accession meta \<and> fi_primary_document filing = am_primary_document meta"
    using f by (auto simp: mk_filing_identity_def validate_accession_def res_bind_Inr_iff split: if_splits option.splits)
  moreover have "fb_filing b = filing \<and> fb_artifacts b = sort_key ba_logical_path as"
    using assms f by (auto simp: assemble_bundle_def mk_filing_bundle_def res_bind_Inr_iff Let_def split: if_splits)
  ultimately show ?thesis by simp
qed

lemma acquire_body_result:
  assumes "acquire_body env accession st = (Inr (b, p), st')" and "collected_ok env st"
  shows "fi_accession (fb_filing b) = accession" and "validate_bundle_integrity (ev_sha env) (the_store st') b = Inr ()"
    and "sum_list (map (\<lambda>a. co_byte_size (ba_content a)) (fb_artifacts b)) \<le> int (ev_max_bundle_bytes env)"
    and "{''accession/'' @ accession @ ''.txt'', ''accession/'' @ fi_primary_document (fb_filing b)} \<subseteq> ba_logical_path ` set (fb_artifacts b)"
    and "\<not> list_ex fatal (aq_issues st')"
    and "\<exists>v. validate_offline_replay (ev_loads env) (ev_py_str env) (ev_launch env (the_store st')) b (ev_data_root env) = Inr v \<and> replay_faithful v"
    and "pr_bundle p = b \<or> bundles_equivalent (pr_bundle p) b = Inr True"
proof -
  obtain meta archive entries rows ri d s1 s2 s3 s4 where stages: "find_filing env accession st = (Inr (meta, archive), s1)"
      "collect_accession env meta archive s1 = (Inr (entries, rows), s2)" "report_stage env meta entries rows s2 = (Inr ri, s3)"
      "closure_stage env archive ri s3 = (Inr d, s4)" "finish_step env meta ri (cd_uri_bindings d) s4 = (Inr (b, p), st')"
    by (rule acquire_body_stages [OF assms(1)])
  have step: "step_ok env m \<Longrightarrow> m s = (Inr x, t) \<Longrightarrow> collected_ok env s \<Longrightarrow> collected_ok env t" for m :: "'y step" and s x t
    unfolding step_ok_def by (metis is_ok_simps(1))
  have ok: "collected_ok env s4"
    using step [OF step_ok_find_filing stages(1) assms(2)] step [OF step_ok_collect stages(2)] step [OF step_ok_report_stage stages(3)]
      step [OF step_ok_closure_stage stages(4)] by blast
  note fin = finish_result [OF stages(5)] and asm = assembled [OF finish_result(1) [OF stages(5)]]
  have meta: "am_accession meta = accession" by (rule find_filing_meta [OF stages(1)])
  show "fi_accession (fb_filing b) = accession" using asm meta by simp
  show "validate_bundle_integrity (ev_sha env) (the_store st') b = Inr ()"
    "sum_list (map (\<lambda>a. co_byte_size (ba_content a)) (fb_artifacts b)) \<le> int (ev_max_bundle_bytes env)"
    using integrity_of_collected [OF ok fin(2)] asm fin(5) by simp_all
  have "{''accession/'' @ accession @ ''.txt'', ''accession/'' @ am_primary_document meta} \<subseteq> dom (aq_bytes s2)"
    using collect_has [OF stages(2)] meta by auto
  also have "\<dots> \<subseteq> dom (aq_bytes s4)" using report_stage_frame [OF stages(3)] closure_stage_frame [OF stages(4)] by simp
  also have "\<dots> \<subseteq> ba_logical_path ` set (aq_artifacts s4)" using ok by (simp add: collected_ok_def)
  finally show "{''accession/'' @ accession @ ''.txt'', ''accession/'' @ fi_primary_document (fb_filing b)} \<subseteq> ba_logical_path ` set (fb_artifacts b)"
    using asm by simp
  show "\<not> list_ex fatal (aq_issues st')"
    using report_stage_frame [OF stages(3)] closure_stage_frame [OF stages(4)] fin(6) by simp
  show "\<exists>v. validate_offline_replay (ev_loads env) (ev_py_str env) (ev_launch env (the_store st')) b (ev_data_root env) = Inr v \<and> replay_faithful v"
    using fin(3,5) by simp
  show "pr_bundle p = b \<or> bundles_equivalent (pr_bundle p) b = Inr True" by (rule fin(4))
qed

lemma start_state_ok: "collected_ok env (start_state sv)"
  by (simp add: collected_ok_def start_state_def committed_def)

lemma acquire_run:
  assumes "acquire env attempt_id accession sv = (r, sv')"
  shows "(sv' = sv \<and> (\<exists>e. r = Inl e) \<and> (\<not> is_ok (validate_accession accession) \<or> attempt_id \<in> set (map at_attempt_id (sv_attempts sv)))) \<or>
    (is_ok (validate_accession accession) \<and> attempt_id \<notin> set (map at_attempt_id (sv_attempts sv)) \<and>
     (\<exists>r1 st1 st. acquire_body env accession (start_state sv) = (r1, st1) \<and>
       st = (case r1 of Inl e \<Rightarrow> note_safeguard env e st1 | Inr _ \<Rightarrow> st1) \<and> aq_fetch st = aq_fetch st1 \<and>
       r = res_bind r1 (\<lambda>(b, p). Inr \<lparr>ar_bundle = b, ar_publish = p, ar_issues = aq_issues st\<rparr>) \<and>
       sv_fetch sv' = aq_fetch st \<and> sv_root sv' = aq_root st \<and>
       (\<exists>cik. accession_to_cik accession = Inr cik \<and> sv_attempts sv' = sv_attempts sv @
         [\<lparr>at_attempt_id = attempt_id, at_accession = accession, at_cik = cik, at_success = is_ok r1,
           at_observations = fs_sink (aq_fetch st), at_issues = aq_issues st,
           at_result = (case r1 of Inl _ \<Rightarrow> None | Inr (b, p) \<Rightarrow> Some (pr_opaque_id p, pr_reused p, fb_payload_hash b)),
           at_terminal_error = (case r1 of Inl e \<Rightarrow> Some (ev_exn_text env e) | Inr _ \<Rightarrow> None)\<rparr>])))"
proof (cases "\<exists>cik. validate_accession accession = Inr accession \<and> accession_to_cik accession = Inr cik")
  case False
  have "res_bind (validate_accession accession) accession_to_cik = Inl e \<Longrightarrow> \<not> is_ok (validate_accession accession)" for e
    by (auto simp: accession_to_cik_def validate_accession_def split: if_splits)
  moreover have "res_bind (validate_accession accession) accession_to_cik \<noteq> Inr c" for c
    using False by (auto simp: res_bind_Inr_iff validate_accession_def split: if_splits)
  ultimately show ?thesis
    using assms by (cases "res_bind (validate_accession accession) accession_to_cik") (auto simp: acquire_def)
next
  case True
  then obtain cik where cik: "validate_accession accession = Inr accession" "accession_to_cik accession = Inr cik" by blast
  show ?thesis
  proof (cases "attempt_id \<in> set (map at_attempt_id (sv_attempts sv))")
    case True
    then show ?thesis using assms cik by (auto simp: acquire_def)
  next
    case False
    obtain r1 st1 where b: "acquire_body env accession (start_state sv) = (r1, st1)" by (metis surj_pair)
    have "aq_fetch (case r1 of Inl e \<Rightarrow> note_safeguard env e st1 | Inr _ \<Rightarrow> st1) = aq_fetch st1"
      by (cases r1) (simp_all add: note_safeguard_def issue_from_safeguard_def add_issue_def)
    then show ?thesis using assms cik False b by (auto simp: acquire_def Let_def)
  qed
qed

section \<open>Properties\<close>

text \<open>
  Property C6: an acquisition publishes sound evidence.  When it succeeds, the bundle is that of the
  requested accession, passes the structural and storage integrity check in the resulting store, is no
  larger than the payload limit, holds the complete submission and the primary document, was replayed
  offline without the network and found equal to its bindings, no fatal issue was raised, and what is
  published is this bundle or one published before with the same evidence.
\<close>

theorem acquire_sound:
  "case acquire env attempt_id accession sv of
     (Inl e, sv') \<Rightarrow> True
   | (Inr res, sv') \<Rightarrow>
       fi_accession (fb_filing (ar_bundle res)) = accession \<and>
       validate_bundle_integrity (ev_sha env) (fs_store (sv_fetch sv')) (ar_bundle res) = Inr () \<and>
       sum_list (map (\<lambda>a. co_byte_size (ba_content a)) (fb_artifacts (ar_bundle res))) \<le> int (ev_max_bundle_bytes env) \<and>
       {''accession/'' @ accession @ ''.txt'', ''accession/'' @ fi_primary_document (fb_filing (ar_bundle res))}
         \<subseteq> ba_logical_path ` set (fb_artifacts (ar_bundle res)) \<and>
       \<not> list_ex fatal (ar_issues res) \<and>
       (\<exists>v. validate_offline_replay (ev_loads env) (ev_py_str env) (ev_launch env (fs_store (sv_fetch sv'))) (ar_bundle res)
              (ev_data_root env) = Inr v \<and> replay_faithful v) \<and>
       (pr_bundle (ar_publish res) = ar_bundle res \<or> bundles_equivalent (pr_bundle (ar_publish res)) (ar_bundle res) = Inr True)"
proof -
  obtain r sv' where run: "acquire env attempt_id accession sv = (r, sv')" by (metis surj_pair)
  show ?thesis
  proof (cases r)
    case (Inr res)
    then obtain r1 st1 where b1: "acquire_body env accession (start_state sv) = (r1, st1)" "sv_fetch sv' = aq_fetch st1"
        "Inr res = res_bind r1 (\<lambda>(b, p). Inr \<lparr>ar_bundle = b, ar_publish = p,
           ar_issues = aq_issues (case r1 of Inl e \<Rightarrow> note_safeguard env e st1 | Inr _ \<Rightarrow> st1)\<rparr>)"
      using acquire_run [OF run] by auto
    then obtain x where "r1 = Inr x" by (cases r1) auto
    then obtain b p where b: "acquire_body env accession (start_state sv) = (Inr (b, p), st1)"
        and res: "res = \<lparr>ar_bundle = b, ar_publish = p, ar_issues = aq_issues st1\<rparr>" "sv_fetch sv' = aq_fetch st1"
      using b1 by (cases x) simp
    show ?thesis using acquire_body_result [OF b start_state_ok] by (simp add: run Inr res)
  qed (simp add: run)
qed

text \<open>
  Property C7: an acquisition talks to permitted addresses only.  Whatever SEC's documents, the name server,
  the peers and the worker make it fetch, and whether it succeeds or not, every request it sends to an IP
  address goes outside the unspecified, private, loopback, link-local, multicast and reserved networks; in
  IPv6 it goes to global unicast or the site-local block fec0::/10, and the shared IPv4 space 100.64.0.0/10
  is not refused, as the code has it.  No stored object is lost.
\<close>

theorem acquire_requests_permitted:
  "case acquire env attempt_id accession sv of (r, sv') \<Rightarrow>
     fs_store (sv_fetch sv) \<subseteq>\<^sub>m fs_store (sv_fetch sv') \<and>
     (\<exists>rqs. fs_requests (sv_fetch sv') = fs_requests (sv_fetch sv) @ rqs \<and>
        list_all (\<lambda>rq. case ip_address (rq_ip rq) of None \<Rightarrow> True | Some ip \<Rightarrow> permitted_ip ip) rqs)"
proof -
  obtain r sv' where run: "acquire env attempt_id accession sv = (r, sv')" by (metis surj_pair)
  have public: "public_request rq \<Longrightarrow> (case ip_address (rq_ip rq) of None \<Rightarrow> True | Some ip \<Rightarrow> permitted_ip ip)" for rq
    using not_forbidden_permitted by (auto simp: public_request_def is_forbidden_ip_def split: option.splits)
  have "fetched_more (sv_fetch sv) (sv_fetch sv')"
  proof (cases "sv' = sv")
    case False
    then obtain r1 st1 where "acquire_body env accession (start_state sv) = (r1, st1)" "sv_fetch sv' = aq_fetch st1"
      using acquire_run [OF run] by auto
    then have "fetched_more (aq_fetch (start_state sv)) (sv_fetch sv')" using step_ok_acquire_body unfolding step_ok_def by metis
    then show ?thesis by (simp add: fetched_more_def start_state_def)
  qed simp
  then show ?thesis using run public by (auto simp: fetched_more_def list_all_iff)
qed


end
