(* ===== verification/Spec2Isabelle.thy ===== *)
theory Spec2Isabelle
  imports Ledger_Concurrency Ledger_Views Quality_Report Publication Fetch_Props
    Report_Input Acquisition_Props
begin

text \<open>
  A verification library for the SEC filings platform under \<^verbatim>\<open>src/edgar\<close>: Python code that
  keeps the XBRL facts of company filings in a database, lets reviewers map the filers' concepts to a
  registry of canonical metrics, and builds one table of reviewed annual figures.

  \<^bold>\<open>The program and the theories.\<close>  The names of the code are kept; a record field carries a two
  letter prefix of its class.

  \<^item> \<^verbatim>\<open>domain/identifiers.py\<close>, \<^verbatim>\<open>domain/validation.py\<close>, \<^verbatim>\<open>domain/concept_id.py\<close> and the expanded names of
    \<^verbatim>\<open>xbrl/records.py\<close>: theory \<^verbatim>\<open>Identifiers\<close> (with \<^verbatim>\<open>Digits\<close> for decimal text).  Every validator is a
    function into \<^verbatim>\<open>error + value\<close>.
  \<^item> \<^verbatim>\<open>financials/decimals.py\<close>: theory \<^verbatim>\<open>Decimals\<close>.  Python's \<^verbatim>\<open>Decimal\<close> is a coefficient and an exponent,
    sums are rounded half-even to 28 digits as the default context does.  The theorems on
    \<^verbatim>\<open>oim_reduce_group\<close> say that the survivor of a duplicate group is a fact of least rank whose
    interval meets all others, and that the order of the facts does not matter.
  \<^item> \<^verbatim>\<open>registry/models.py\<close>, \<^verbatim>\<open>registry/hashing.py\<close>, \<^verbatim>\<open>registry/loader.py\<close>: theories \<^verbatim>\<open>Json\<close> (values and
    canonical bytes) and \<^verbatim>\<open>Metric_Registry\<close> (validation, digests, loading of \<^verbatim>\<open>metrics.yml\<close>).
  \<^item> \<^verbatim>\<open>registry/interval.py\<close>, \<^verbatim>\<open>registry/mapping.py\<close>: theory \<^verbatim>\<open>Interval\<close> and the first part of \<^verbatim>\<open>Registry_Db\<close>.
  \<^item> \<^verbatim>\<open>db/registry_schema.py\<close>, \<^verbatim>\<open>db/registry.py\<close>: theory \<^verbatim>\<open>Registry_Db\<close>.  The state is the record
    \<^verbatim>\<open>db\<close>: metric rows, assertion rows, the next identifier and the source rows the registry reads.
    Each constraint of the schema is a check of the statement it guards.
  \<^item> \<^verbatim>\<open>registry/service.py\<close>: theories \<^verbatim>\<open>Ledger\<close> (operations), \<^verbatim>\<open>Ledger_Inv\<close> (the invariant),
    \<^verbatim>\<open>Ledger_Sync\<close> (synchronisation with \<^verbatim>\<open>metrics.yml\<close>), \<^verbatim>\<open>Ledger_Machine\<close> (the transaction system and
    its reachable states), \<^verbatim>\<open>Ledger_Concurrency\<close> (interleaved reviewers under the concept row lock)
    and \<^verbatim>\<open>Ledger_Views\<close> (listings, histories, affected facts, reports).
  \<^item> \<^verbatim>\<open>xbrl/taxonomy_family.py\<close>, \<^verbatim>\<open>financials/taxonomy_release.py\<close>: theory \<^verbatim>\<open>Taxonomy\<close>, over \<^verbatim>\<open>Urlsplit\<close>,
    a model of \<^verbatim>\<open>urllib.parse.urlsplit\<close>.
  \<^item> \<^verbatim>\<open>financials/decisions.py\<close>: theory \<^verbatim>\<open>Decisions\<close>; \<^verbatim>\<open>financials/period.py\<close>: theory \<^verbatim>\<open>Period\<close>;
    \<^verbatim>\<open>financials/resolve.py\<close>, \<^verbatim>\<open>financials/select.py\<close>: theories \<^verbatim>\<open>Select\<close> and \<^verbatim>\<open>Select_Props\<close>;
    \<^verbatim>\<open>financials/gold.py\<close>, \<^verbatim>\<open>financials/validate.py\<close>, \<^verbatim>\<open>financials/cohort.py\<close>, \<^verbatim>\<open>financials/rules_check.py\<close>:
    theory \<^verbatim>\<open>Validate\<close>; \<^verbatim>\<open>financials/source_load.py\<close>: theory \<^verbatim>\<open>Source_Load\<close>; \<^verbatim>\<open>financials/build.py\<close>: theory
    \<^verbatim>\<open>Build_Run\<close>.
  \<^item> \<^verbatim>\<open>financials/oracle.py\<close>: theory \<^verbatim>\<open>Oracle\<close>; \<^verbatim>\<open>financials/census.py\<close>, \<^verbatim>\<open>financials/taxonomy_availability.py\<close>:
    theory \<^verbatim>\<open>Census\<close>; \<^verbatim>\<open>financials/quality.py\<close>, \<^verbatim>\<open>financials/sample_index.py\<close>: theories \<^verbatim>\<open>Quality\<close>,
    \<^verbatim>\<open>Quality_Props\<close> and \<^verbatim>\<open>Quality_Report\<close>.
  \<^item> \<^verbatim>\<open>domain/uri.py\<close>: theories \<^verbatim>\<open>Uri\<close> and \<^verbatim>\<open>Urljoin\<close> (Python's resolution of references); \<^verbatim>\<open>domain/decode.py\<close>, \<^verbatim>\<open>domain/bundle.py\<close>: theories \<^verbatim>\<open>Iso_Time\<close> (Python's
    dates and times and their ISO text), \<^verbatim>\<open>Bundle\<close> and \<^verbatim>\<open>Bundle_Props\<close>; \<^verbatim>\<open>domain/payload.py\<close>,
    \<^verbatim>\<open>domain/validation.py\<close>, \<^verbatim>\<open>domain/report_key.py\<close>: theory \<^verbatim>\<open>Bundle_Check\<close>.
  \<^item> \<^verbatim>\<open>storage/objects.py\<close>, \<^verbatim>\<open>storage/bundles.py\<close>: theory \<^verbatim>\<open>Store\<close> (the object store and the repository as
    maps) and theory \<^verbatim>\<open>Publication\<close> (publication as a small-step machine with crashes).
  \<^item> \<^verbatim>\<open>sec/ssrf.py\<close>, \<^verbatim>\<open>sec/client.py\<close>: theories \<^verbatim>\<open>Address\<close> (Python's \<^verbatim>\<open>ipaddress\<close> on 32-bit and 128-bit words),
    \<^verbatim>\<open>Fetch\<close> (destinations, attempts, retries and redirects) and \<^verbatim>\<open>Fetch_Props\<close>.  The state of a client is its
    trace, its requests, the sink of its observations and the object store.
  \<^item> \<^verbatim>\<open>sec/accession.py\<close>: theory \<^verbatim>\<open>Accession\<close> (the inventories of a filing and their reconciliation);
    \<^verbatim>\<open>ingestion/report_input.py\<close>: theory \<^verbatim>\<open>Report_Input\<close>; \<^verbatim>\<open>sec/submissions.py\<close>: theory \<^verbatim>\<open>Submissions\<close>.
  \<^item> \<^verbatim>\<open>xbrl/closure.py\<close>: theories \<^verbatim>\<open>Closure\<close> (the conversation with the worker process and the bindings made
    from it) and \<^verbatim>\<open>Closure_Props\<close>; \<^verbatim>\<open>xbrl/replay.py\<close>, \<^verbatim>\<open>xbrl/replay_normalize.py\<close>: theory \<^verbatim>\<open>Replay\<close>.
  \<^item> \<^verbatim>\<open>ingestion/acquisition.py\<close>, \<^verbatim>\<open>sec/limits.py\<close>: theories \<^verbatim>\<open>Acquisition\<close> (the budget, the captures, the
    stages and the record of an attempt) and \<^verbatim>\<open>Acquisition_Props\<close>.

  \<^bold>\<open>How the parts interact.\<close>  A build loads the cohort and the decision files (whose contract hashes
  are compared with the digests of \<^verbatim>\<open>Metric_Registry\<close>), reads each filing from the source tables,
  resolves which decisions support which facts, fixes the reporting period from the filing's DEI facts,
  runs the accounting identities and selects one observation per metric by duplicate reduction; the gold
  assertions are compared with the result.  The registry service keeps the reviewed mappings as an
  append-only ledger: a proposal inserts a candidate, an acceptance or rejection inserts a successor row.
  An acquisition looks a filing up in SEC's lists, fetches its files through the controlled client into the
  object store, reconciles their inventories, lets the worker discover the documents the report needs,
  and publishes the bundle after an offline replay has found the same documents.

  \<^bold>\<open>What the lemma groups show.\<close>
  \<^item> Ledger: every reachable database keeps the chains linear, the foreign keys, and at most one current
    accepted exact mapping per concept, issuer and date, also when reviewers interleave; history rows are
    permanent; a sync mirrors the file exactly or fails without change, exactly when a removed metric is
    referenced.
  \<^item> Selection and build: a published number is the number of one fact of the filing that an accepted
    exact decision covers and that qualifies for the slot; the result does not depend on the order of the
    facts; every accession and metric has exactly one observation; a build that finishes agrees with the gold file.
    The quality report counts every slot of a build once, and it is built exactly when its checks hold.
  \<^item> Bundles: descriptors decode without loss and without repair, the fingerprint and the payload hash
    identify the evidence, and structural validation accepts exactly the sound bundles.
  \<^item> Publication: from every state a dying publisher can leave, the published bundles of an accession are
    valid and hold different evidence, and a later publication succeeds, unless a published bundle (or the new
    one) has an acceptance time outside the UTC calendar, whose comparison raises.
  \<^item> Fetching and acquisition: requests go to permitted addresses only (what \<^verbatim>\<open>ipaddress\<close> does not call private, reserved and so on) and their number is bounded; a delivered
    object is stored under its digest and within its limit; the discovered documents stay within the
    allowance; a successful acquisition has published intact, replayed evidence of the requested filing, and
    every attempt leaves one record.  Each step keeps one relation \<open>step_ok\<close>, which is closed under composition.
  \<^item> Data: the accepted inputs of each loader are characterised, with the round trips of the text forms.

  \<^bold>\<open>Interfaces.\<close>  Each locale states what one component relies on in another and is interpreted on the
  model's own definitions in the theory of the provider.

  \<^bold>\<open>Bounds and termination.\<close>  All functions are total.  The two loops of \<^verbatim>\<open>fetch_chain\<close> run over a
  database table and are bounded by its number of rows plus one; \<^verbatim>\<open>fetch_chain_complete\<close> shows that the
  bound is never reached in a reachable database.  A fetch sends at most (retries + 1) times
  (redirects + 1) requests; on the redirects left \<^verbatim>\<open>fetch_loop\<close> terminates; the conversation with the worker ends after the lines that arrive before its
  timeout.  Integers are unbounded as in Python; identifiers of the
  database are drawn from a counter.

  \<^bold>\<open>Parameters.\<close>  SHA-256 (\<^verbatim>\<open>sha\<close>), the clock (\<^verbatim>\<open>now\<close>), \<^verbatim>\<open>uuid5\<close> and \<^verbatim>\<open>uuid4\<close>, path resolution, the parsed value of a YAML file and the
  manifest written beside a build are arguments of the definitions that use them.  So are the network and the
  name server, the worker process, \<^verbatim>\<open>json.loads\<close> on fetched bytes, the HTML and XML parsers of lxml,
  \<^verbatim>\<open>datetime.fromisoformat\<close> of the submission lists and the text of an exception: they may answer anything.

  \<^bold>\<open>Not modelled.\<close>  The extraction of facts with Arelle and its records (\<^verbatim>\<open>xbrl/extract.py\<close>, the worker's own
  side), the HTML section parser (\<^verbatim>\<open>parsing\<close>, heuristics over lxml trees), waiting and throttling of the client,
  temporary files and file locks of the object storage, the SQLAlchemy source statements
  (\<^verbatim>\<open>db/source.py\<close>), migrations, the command line and the corpus acceptance scripts: their work is done by
  libraries and operating-system calls.
\<close>

end
